(* ===== verification/Prelude.thy ===== *)
theory Prelude
  imports Main "HOL-Library.State_Monad"
begin

text \<open>
  The base of the development: the Go standard library as far as the provisioning API uses it
  (byte strings, decimal and hexadecimal printing, splitting and joining), the SQL table
  operations every registry table shares, and the state monad the service is written in, with a
  small calculus (\<open>wp\<close> and the locale \<open>io_preorder\<close>) that carries facts through a sequence
  of calls.
\<close>

named_theorems wp_simps \<open>weakest preconditions of state actions\<close>

section \<open>Byte strings\<close>

text \<open>Go strings are byte sequences, and so is \<^typ>\<open>string\<close>: a \<^typ>\<open>char\<close> is eight bits.\<close>

definition HasPrefix :: "string \<Rightarrow> string \<Rightarrow> bool" where
  "HasPrefix s p = (take (length p) s = p)"

definition HasSuffix :: "string \<Rightarrow> string \<Rightarrow> bool" where
  "HasSuffix s p = HasPrefix (rev s) (rev p)"

definition TrimSuffix :: "string \<Rightarrow> string \<Rightarrow> string" where
  "TrimSuffix s p = (if HasSuffix s p then take (length s - length p) s else s)"

fun SplitOn :: "char \<Rightarrow> string \<Rightarrow> string list" where
  "SplitOn c [] = [[]]"
| "SplitOn c (x # xs) =
     (if x = c then [] # SplitOn c xs
      else (case SplitOn c xs of [] \<Rightarrow> [[x]] | y # ys \<Rightarrow> (x # y) # ys))"

fun Join :: "string list \<Rightarrow> string \<Rightarrow> string" where
  "Join [] sep = []"
| "Join [x] sep = x"
| "Join (x # y # ys) sep = x @ sep @ Join (y # ys) sep"

definition lowers :: string where "lowers = ''abcdefghijklmnopqrstuvwxyz''"
definition uppers :: string where "uppers = ''ABCDEFGHIJKLMNOPQRSTUVWXYZ''"
definition digits :: string where "digits = ''0123456789''"
definition hexdigits :: string where "hexdigits = ''0123456789abcdef''"

text \<open>\<^verbatim>\<open>%d\<close> of a natural number and of an integer, and \<^verbatim>\<open>%02x\<close> of one byte.\<close>

fun dec :: "nat \<Rightarrow> string" where
  "dec n = (if n < 10 then [digits ! n] else dec (n div 10) @ [digits ! (n mod 10)])"

declare dec.simps [simp del]

definition itoa :: "int \<Rightarrow> string" where
  "itoa i = (if i < 0 then CHR ''-'' # dec (nat (- i)) else dec (nat i))"

definition hex2 :: "nat \<Rightarrow> string" where
  "hex2 n = [hexdigits ! (n div 16 mod 16), hexdigits ! (n mod 16)]"

text \<open>\<^verbatim>\<open>hex.EncodeToString\<close>.\<close>

definition hexEncode :: "string \<Rightarrow> string" where
  "hexEncode bs = concat (map (\<lambda>b. hex2 (of_char b)) bs)"

text \<open>The value of a run of decimal digits, the inverse of \<^const>\<open>dec\<close>.\<close>

fun digit_index :: "char \<Rightarrow> string \<Rightarrow> nat" where
  "digit_index c [] = 0"
| "digit_index c (d # ds) = (if c = d then 0 else Suc (digit_index c ds))"

definition undec :: "string \<Rightarrow> nat" where
  "undec s = foldl (\<lambda>a c. 10 * a + digit_index c digits) 0 s"

subsection \<open>Prefixes and suffixes\<close>

lemma HasPrefix_iff: "HasPrefix s p \<longleftrightarrow> (\<exists>t. s = p @ t)"
  by (metis HasPrefix_def append_eq_conv_conj)

lemma HasPrefix_append [simp]: "HasPrefix (p @ t) p"
  by (simp add: HasPrefix_def)

lemma HasSuffix_iff: "HasSuffix s p \<longleftrightarrow> (\<exists>t. s = t @ p)"
  by (metis HasPrefix_iff HasSuffix_def rev_append rev_rev_ident)

lemma HasSuffix_append [simp]: "HasSuffix (t @ p) p"
  by (auto simp: HasSuffix_iff)

subsection \<open>Splitting and joining\<close>

lemma SplitOn_not_Nil [simp]: "SplitOn c s \<noteq> []"
  by (induction s) (auto split: list.splits)

lemma SplitOn_no_sep: "c \<notin> set s \<Longrightarrow> SplitOn c s = [s]"
  by (induction s) auto

lemma SplitOn_append: "c \<notin> set a \<Longrightarrow> SplitOn c (a @ c # b) = a # SplitOn c b"
  by (induction a) auto

lemma SplitOn_parts: "p \<in> set (SplitOn c s) \<Longrightarrow> c \<notin> set p"
proof (induction s arbitrary: p)
  case (Cons x xs)
  then show ?case
    by (cases "SplitOn c xs") (auto split: if_splits)
qed simp

lemma Join_Cons: "xs \<noteq> [] \<Longrightarrow> Join (x # xs) sep = x @ sep @ Join xs sep"
  by (cases xs) auto

lemma Join_SplitOn: "Join (SplitOn c s) [c] = s"
proof (induction s)
  case (Cons x xs)
  show ?case
  proof (cases "x = c")
    case True
    with Cons show ?thesis by (simp add: Join_Cons)
  next
    case False
    obtain y ys where ys: "SplitOn c xs = y # ys"
      by (cases "SplitOn c xs") auto
    with False Cons show ?thesis
      by (cases ys) auto
  qed
qed simp

lemma SplitOn_inj: "SplitOn c s = SplitOn c t \<Longrightarrow> s = t"
  by (metis Join_SplitOn)

lemma SplitOn_eq_iff: "SplitOn c s = xs \<longleftrightarrow> (xs \<noteq> [] \<and> (\<forall>p \<in> set xs. c \<notin> set p) \<and> s = Join xs [c])"
proof
  assume "SplitOn c s = xs"
  then show "xs \<noteq> [] \<and> (\<forall>p \<in> set xs. c \<notin> set p) \<and> s = Join xs [c]"
    using SplitOn_parts SplitOn_not_Nil by (fastforce simp: Join_SplitOn)
next
  assume *: "xs \<noteq> [] \<and> (\<forall>p \<in> set xs. c \<notin> set p) \<and> s = Join xs [c]"
  have "xs \<noteq> [] \<Longrightarrow> (\<forall>p \<in> set xs. c \<notin> set p) \<Longrightarrow> SplitOn c (Join xs [c]) = xs"
  proof (induction xs)
    case (Cons x xs)
    then show ?case
      by (cases xs) (auto simp: SplitOn_no_sep SplitOn_append)
  qed simp
  with * show "SplitOn c s = xs" by simp
qed

text \<open>A string cut at its first separator is cut in one way only.\<close>

lemma append_sep_inj:
  fixes c :: char
  assumes "c \<notin> set a" "c \<notin> set b"
  shows "a @ c # s = b @ c # t \<longleftrightarrow> a = b \<and> s = t"
proof
  assume "a @ c # s = b @ c # t"
  then have "SplitOn c (a @ c # s) = SplitOn c (b @ c # t)" by simp
  then show "a = b \<and> s = t"
    using assms SplitOn_inj by (auto simp: SplitOn_append)
qed simp

subsection \<open>Decimal and hexadecimal\<close>

lemma digits_length [simp]: "length digits = 10"
  by (simp add: digits_def)

lemma digits_distinct: "distinct digits"
  by (simp add: digits_def)

lemma digit_index_nth: "distinct ds \<Longrightarrow> n < length ds \<Longrightarrow> digit_index (ds ! n) ds = n"
proof (induction ds arbitrary: n)
  case (Cons d ds)
  then show ?case by (cases n) (auto simp: nth_eq_iff_index_eq)
qed simp

lemma digit_index_digits [simp]: "n < 10 \<Longrightarrow> digit_index (digits ! n) digits = n"
  by (simp add: digit_index_nth digits_distinct)

lemma set_dec: "set (dec n) \<subseteq> set digits"
proof (induction n rule: dec.induct)
  case (1 n)
  then show ?case
    by (subst dec.simps) auto
qed

lemma dec_not_Nil [simp]: "dec n \<noteq> []"
  by (subst dec.simps) simp

lemma undec_dec [simp]: "undec (dec n) = n"
proof (induction n rule: dec.induct)
  case (1 n)
  show ?case
  proof (cases "n < 10")
    case True
    then show ?thesis by (subst dec.simps) (simp add: undec_def)
  next
    case False
    with 1 show ?thesis by (subst dec.simps) (simp add: undec_def)
  qed
qed

lemma dec_inj [simp]: "dec m = dec n \<longleftrightarrow> m = n"
  by (metis undec_dec)

lemma dec_small: "n < 10 \<Longrightarrow> dec n = [digits ! n]"
  by (subst dec.simps) simp

lemma not_digit_not_in_dec: "c \<notin> set digits \<Longrightarrow> c \<notin> set (dec n)"
  using set_dec by blast

lemma dot_notin_dec [simp]: "CHR ''.'' \<notin> set (dec n)"
  and minus_notin_dec [simp]: "CHR ''-'' \<notin> set (dec n)"
  and slash_notin_dec [simp]: "CHR ''/'' \<notin> set (dec n)"
  and colon_notin_dec [simp]: "CHR '':'' \<notin> set (dec n)"
  by (rule not_digit_not_in_dec; simp add: digits_def)+

lemma itoa_inj [simp]: "itoa i = itoa j \<longleftrightarrow> i = j"
proof
  assume eq: "itoa i = itoa j"
  have hd: "hd (dec n) \<noteq> CHR ''-''" for n
    by (metis dec_not_Nil list.set_sel(1) minus_notin_dec)
  show "i = j"
    using eq hd[of "nat i"] hd[of "nat j"]
    by (auto simp: itoa_def split: if_splits)
       (metis list.sel(1))+
qed simp

lemma itoa_nonneg: "0 \<le> i \<Longrightarrow> itoa i = dec (nat i)"
  by (simp add: itoa_def)

lemma set_itoa_nonneg: "0 \<le> i \<Longrightarrow> set (itoa i) \<subseteq> set digits"
  by (simp add: itoa_nonneg set_dec)

lemma dot_notin_itoa [simp]: "CHR ''.'' \<notin> set (itoa i)"
  by (simp add: itoa_def)

lemma hexdigits_nth_inj:
  "m < 16 \<Longrightarrow> n < 16 \<Longrightarrow> hexdigits ! m = hexdigits ! n \<longleftrightarrow> m = n"
  by (subst nth_eq_iff_index_eq) (simp_all add: hexdigits_def)

lemma hex2_inj: "m < 256 \<Longrightarrow> n < 256 \<Longrightarrow> hex2 m = hex2 n \<longleftrightarrow> m = n"
proof -
  assume m: "m < 256" and n: "n < 256"
  have eq: "k = 16 * (k div 16 mod 16) + k mod 16" if "k < 256" for k :: nat
  proof -
    from that have "k div 16 < 16" by simp
    then show ?thesis by simp
  qed
  show ?thesis
    using hexdigits_nth_inj[of "m div 16 mod 16" "n div 16 mod 16"]
      hexdigits_nth_inj[of "m mod 16" "n mod 16"] eq[OF m] eq[OF n]
    by (auto simp: hex2_def)
qed

lemma length_hexEncode [simp]: "length (hexEncode bs) = 2 * length bs"
  by (induction bs) (auto simp: hexEncode_def hex2_def)

lemma set_hexEncode: "set (hexEncode bs) \<subseteq> set hexdigits"
proof -
  have len: "length hexdigits = 16" by (simp add: hexdigits_def)
  have "set (hex2 n) \<subseteq> set hexdigits" for n
    by (simp add: hex2_def len)
  then show ?thesis by (auto simp: hexEncode_def)
qed

lemma hexEncode_inj: "hexEncode a = hexEncode b \<longleftrightarrow> a = b"
proof
  show "hexEncode a = hexEncode b \<Longrightarrow> a = b"
  proof (induction a arbitrary: b)
    case Nil
    then show ?case by (cases b) (auto simp: hexEncode_def hex2_def)
  next
    case (Cons x a)
    then obtain y c where b: "b = y # c"
      by (cases b) (auto simp: hexEncode_def hex2_def)
    have lt: "(of_char z :: nat) < 256" for z :: char
      by (cases z) (simp add: of_bool_def)
    from Cons.prems b have "hex2 (of_char x) = hex2 (of_char y)" "hexEncode a = hexEncode c"
      by (auto simp: hexEncode_def hex2_def)
    with Cons.IH b hex2_inj[OF lt lt] show ?case
      by auto
  qed
qed simp

section \<open>State actions\<close>

text \<open>
  A call that reads or writes state outside the function is an action of the state monad. A Go
  function that returns a value and an error is an action whose result is \<open>err + 'a\<close>, or a pair
  of the value and \<open>err option\<close> where the code returns both.
\<close>

abbreviation ret :: "'a \<Rightarrow> ('s, 'a) state" where
  "ret \<equiv> State_Monad.return"

text \<open>
  A loop that runs an action for each element and stops at the first error:
  \<^verbatim>\<open>for _, x := range xs { if err := f(x); err != nil { return err } }\<close>.
\<close>

fun each :: "('a \<Rightarrow> ('s, 'e option) state) \<Rightarrow> 'a list \<Rightarrow> ('s, 'e option) state" where
  "each f [] = ret None"
| "each f (x # xs) = do { e \<leftarrow> f x; (case e of Some e \<Rightarrow> ret (Some e) | None \<Rightarrow> each f xs) }"

subsection \<open>Weakest preconditions\<close>

definition wp :: "('s, 'a) state \<Rightarrow> ('a \<Rightarrow> 's \<Rightarrow> bool) \<Rightarrow> 's \<Rightarrow> bool" where
  "wp m Q s = (case run_state m s of (r, s') \<Rightarrow> Q r s')"

lemma wp_return [wp_simps]: "wp (ret x) Q = Q x"
  by (rule ext) (simp add: wp_def)

lemma wp_bind [wp_simps]: "wp (State_Monad.bind m f) Q = wp m (\<lambda>r. wp (f r) Q)"
  by (rule ext) (simp add: wp_def split: prod.splits)

lemma wp_State [wp_simps]: "wp (State f) Q = (\<lambda>s. case f s of (r, s') \<Rightarrow> Q r s')"
  by (rule ext) (simp add: wp_def)

lemma wp_if [wp_simps]: "wp (if b then m else n) Q = (if b then wp m Q else wp n Q)"
  by simp

lemma wp_Let [wp_simps]: "wp (Let x f) Q = wp (f x) Q"
  by simp

lemma wp_case_sum [wp_simps]:
  "wp (case x of Inl e \<Rightarrow> f e | Inr y \<Rightarrow> g y) Q = (case x of Inl e \<Rightarrow> wp (f e) Q | Inr y \<Rightarrow> wp (g y) Q)"
  by (cases x) auto

lemma wp_case_option [wp_simps]:
  "wp (case x of None \<Rightarrow> f | Some y \<Rightarrow> g y) Q = (case x of None \<Rightarrow> wp f Q | Some y \<Rightarrow> wp (g y) Q)"
  by (cases x) auto

lemma wp_case_prod [wp_simps]:
  "wp (case x of (a, b) \<Rightarrow> f a b) Q = (case x of (a, b) \<Rightarrow> wp (f a b) Q)"
  by (cases x) auto

lemma wp_mono: "wp m P s \<Longrightarrow> (\<And>r s'. P r s' \<Longrightarrow> Q r s') \<Longrightarrow> wp m Q s"
  by (auto simp: wp_def split: prod.splits)

lemma wp_run: "run_state m s = (r, s') \<Longrightarrow> wp m Q s \<Longrightarrow> Q r s'"
  by (simp add: wp_def)

lemma wp_runI: "(\<And>r s'. run_state m s = (r, s') \<Longrightarrow> Q r s') \<Longrightarrow> wp m Q s"
  by (simp add: wp_def split: prod.splits)

lemma wp_conj: "wp m P s \<Longrightarrow> wp m Q s \<Longrightarrow> wp m (\<lambda>r s'. P r s' \<and> Q r s') s"
  by (auto simp: wp_def split: prod.splits)

subsection \<open>Relations kept by every action of a sequence\<close>

text \<open>
  A reflexive and transitive relation between the state before and the state after is kept by a
  sequence of actions as soon as each action keeps it. The theory \<open>Registry\<close> and the service
  theories instantiate the locale with the relations the properties are about.
\<close>

locale io_preorder =
  fixes R :: "'s \<Rightarrow> 's \<Rightarrow> bool"
  assumes R_refl: "R s s"
    and R_trans: "R s t \<Longrightarrow> R t u \<Longrightarrow> R s u"
begin

definition keeps :: "('s, 'a) state \<Rightarrow> bool" where
  "keeps m = (\<forall>s. R s (snd (run_state m s)))"

lemma keepsI: "(\<And>s. R s (snd (run_state m s))) \<Longrightarrow> keeps m"
  by (simp add: keeps_def)

lemma keepsD: "keeps m \<Longrightarrow> R s (snd (run_state m s))"
  by (simp add: keeps_def)

lemma keeps_return: "keeps (ret x)"
  by (simp add: keeps_def R_refl)

lemma keeps_bind: "keeps m \<Longrightarrow> (\<And>x. keeps (f x)) \<Longrightarrow> keeps (State_Monad.bind m f)"
  by (auto simp: keeps_def split: prod.splits) (metis R_trans snd_conv)

lemma keeps_if: "(b \<Longrightarrow> keeps m) \<Longrightarrow> (\<not> b \<Longrightarrow> keeps n) \<Longrightarrow> keeps (if b then m else n)"
  by simp

lemma keeps_Let: "(\<And>x. keeps (f x)) \<Longrightarrow> keeps (Let v f)"
  by simp

lemma keeps_case_sum:
  "(\<And>e. x = Inl e \<Longrightarrow> keeps (f e)) \<Longrightarrow> (\<And>y. x = Inr y \<Longrightarrow> keeps (g y)) \<Longrightarrow>
     keeps (case x of Inl e \<Rightarrow> f e | Inr y \<Rightarrow> g y)"
  by (cases x) auto

lemma keeps_case_option:
  "(x = None \<Longrightarrow> keeps f) \<Longrightarrow> (\<And>y. x = Some y \<Longrightarrow> keeps (g y)) \<Longrightarrow> keeps (case x of None \<Rightarrow> f | Some y \<Rightarrow> g y)"
  by (cases x) auto

lemma keeps_case_prod: "(\<And>a b. keeps (f a b)) \<Longrightarrow> keeps (case x of (a, b) \<Rightarrow> f a b)"
  by (cases x) auto

lemma keeps_case_list:
  "keeps f \<Longrightarrow> (\<And>y ys. keeps (g y ys)) \<Longrightarrow> keeps (case xs of [] \<Rightarrow> f | y # ys \<Rightarrow> g y ys)"
  by (cases xs) auto

lemma keeps_each: "(\<And>x. keeps (f x)) \<Longrightarrow> keeps (each f xs)"
  by (induction xs) (auto intro!: keeps_return keeps_bind keeps_case_option)

lemmas keeps_intros =
  keeps_return keeps_bind keeps_if keeps_Let keeps_case_sum keeps_case_option keeps_case_prod
  keeps_case_list keeps_each

end

section \<open>State machines\<close>

text \<open>
  A set of initial states, a step relation, and a predicate that holds at the start and is kept by
  every step: then it holds wherever the steps lead.
\<close>

locale state_machine =
  fixes init :: "'s \<Rightarrow> bool" and step :: "'s \<Rightarrow> 's \<Rightarrow> bool" and inv :: "'s \<Rightarrow> bool"
  assumes inv_init: "init s \<Longrightarrow> inv s"
    and inv_step: "inv s \<Longrightarrow> step s t \<Longrightarrow> inv t"
begin

lemma inv_steps: "inv s \<Longrightarrow> step\<^sup>*\<^sup>* s t \<Longrightarrow> inv t"
  by (rotate_tac, induction rule: rtranclp_induct) (auto intro: inv_step)

lemma inv_reachable: "init s \<Longrightarrow> step\<^sup>*\<^sup>* s t \<Longrightarrow> inv t"
  using inv_init inv_steps by blast

end

section \<open>SQL tables\<close>

text \<open>
  A table is the list of its rows, oldest first (\<^verbatim>\<open>ORDER BY created_at\<close>). A row keeps its place
  when it is updated, as its \<^verbatim>\<open>created_at\<close> does.
\<close>

definition get_row :: "('r \<Rightarrow> 'k) \<Rightarrow> 'k \<Rightarrow> 'r list \<Rightarrow> 'r option" where
  "get_row key k rows = find (\<lambda>r. key r = k) rows"

text \<open>\<^verbatim>\<open>UPDATE ... WHERE key = k\<close>.\<close>

definition update_row :: "('r \<Rightarrow> 'k) \<Rightarrow> 'k \<Rightarrow> ('r \<Rightarrow> 'r) \<Rightarrow> 'r list \<Rightarrow> 'r list" where
  "update_row key k f rows = map (\<lambda>r. if key r = k then f r else r) rows"

text \<open>\<^verbatim>\<open>INSERT ... ON CONFLICT (key) DO UPDATE\<close>, \<open>upd old new\<close> being the row it leaves.\<close>

definition upsert_row :: "('r \<Rightarrow> 'k) \<Rightarrow> ('r \<Rightarrow> 'r \<Rightarrow> 'r) \<Rightarrow> 'r \<Rightarrow> 'r list \<Rightarrow> 'r list" where
  "upsert_row key upd r rows =
     (if get_row key (key r) rows = None then rows @ [r]
      else update_row key (key r) (\<lambda>old. upd old r) rows)"

text \<open>\<^verbatim>\<open>DELETE FROM ... WHERE key = k\<close>.\<close>

definition delete_row :: "('r \<Rightarrow> 'k) \<Rightarrow> 'k \<Rightarrow> 'r list \<Rightarrow> 'r list" where
  "delete_row key k rows = filter (\<lambda>r. key r \<noteq> k) rows"

definition unique_on :: "('r \<Rightarrow> 'k) \<Rightarrow> 'r list \<Rightarrow> bool" where
  "unique_on key rows = distinct (map key rows)"

lemma get_row_Some: "get_row key k rows = Some r \<Longrightarrow> r \<in> set rows \<and> key r = k"
  by (auto simp: get_row_def find_Some_iff)

lemma get_row_None: "get_row key k rows = None \<longleftrightarrow> k \<notin> key ` set rows"
  by (auto simp: get_row_def find_None_iff)

lemma get_row_append:
  "get_row key k (xs @ ys) = (case get_row key k xs of None \<Rightarrow> get_row key k ys | Some r \<Rightarrow> Some r)"
  by (induction xs) (auto simp: get_row_def)

lemma get_row_single: "get_row key k [r] = (if key r = k then Some r else None)"
  by (simp add: get_row_def)

lemma get_row_mem:
  "unique_on key rows \<Longrightarrow> r \<in> set rows \<Longrightarrow> get_row key (key r) rows = Some r"
  by (induction rows) (auto simp: get_row_def unique_on_def)

text \<open>
  The contract of a table keyed by \<open>key\<close> whose \<^verbatim>\<open>ON CONFLICT\<close> clause is \<open>upd\<close>: an update never
  changes the key.
\<close>

locale keyed_table =
  fixes key :: "'r \<Rightarrow> 'k" and upd :: "'r \<Rightarrow> 'r \<Rightarrow> 'r"
  assumes upd_key: "key old = key new \<Longrightarrow> key (upd old new) = key new"
begin

lemma get_upsert:
  "get_row key k (upsert_row key upd r rows) =
     (if k = key r then
        (case get_row key k rows of None \<Rightarrow> Some r | Some old \<Rightarrow> Some (upd old r))
      else get_row key k rows)"
proof (cases "get_row key (key r) rows")
  case None
  then show ?thesis
    by (auto simp: upsert_row_def get_row_append get_row_single split: option.splits)
next
  case (Some old)
  have "get_row key k (update_row key (key r) (\<lambda>old. upd old r) xs) =
      (if k = key r then map_option (\<lambda>old. upd old r) (get_row key k xs) else get_row key k xs)" for xs
    by (induction xs) (auto simp: get_row_def update_row_def upd_key)
  with Some show ?thesis
    by (auto simp: upsert_row_def)
qed

lemma keys_upsert: "key ` set (upsert_row key upd r rows) = insert (key r) (key ` set rows)"
proof (cases "get_row key (key r) rows")
  case None
  then show ?thesis by (auto simp: upsert_row_def)
next
  case (Some old)
  then have "key r \<in> key ` set rows" by (metis get_row_Some image_eqI)
  moreover have "map key (update_row key (key r) (\<lambda>old. upd old r) rows) = map key rows"
    by (auto simp: update_row_def upd_key)
  then have "key ` set (update_row key (key r) (\<lambda>old. upd old r) rows) = key ` set rows"
    by (metis list.set_map)
  ultimately show ?thesis using Some by (auto simp: upsert_row_def)
qed

lemma unique_upsert: "unique_on key rows \<Longrightarrow> unique_on key (upsert_row key upd r rows)"
proof (cases "get_row key (key r) rows")
  case None
  then show "unique_on key rows \<Longrightarrow> ?thesis"
    by (simp add: upsert_row_def unique_on_def get_row_None)
next
  case (Some old)
  have "map key (update_row key (key r) (\<lambda>old. upd old r) rows) = map key rows"
    by (auto simp: update_row_def upd_key)
  with Some show "unique_on key rows \<Longrightarrow> ?thesis"
    by (simp add: upsert_row_def unique_on_def)
qed

lemma set_upsert:
  "x \<in> set (upsert_row key upd r rows) \<Longrightarrow>
     x = r \<or> x \<in> set rows \<or> (\<exists>old \<in> set rows. key old = key r \<and> x = upd old r)"
  by (auto simp: upsert_row_def update_row_def split: if_splits)

end

lemma get_delete_row:
  "get_row key k (delete_row key j rows) = (if k = j then None else get_row key k rows)"
  by (induction rows) (auto simp: get_row_def delete_row_def)

lemma unique_delete_row: "unique_on key rows \<Longrightarrow> unique_on key (delete_row key j rows)"
  by (simp add: unique_on_def delete_row_def distinct_map_filter)

lemma unique_filter: "unique_on key rows \<Longrightarrow> unique_on key (filter P rows)"
  by (simp add: unique_on_def distinct_map_filter)

lemma set_delete_row: "set (delete_row key j rows) = {r \<in> set rows. key r \<noteq> j}"
  by (auto simp: delete_row_def)

lemma map_update_row:
  "(\<And>r. g (f r) = g r) \<Longrightarrow> map g (update_row key k f rows) = map g rows"
  by (simp add: update_row_def)

lemma unique_update_row:
  "(\<And>r. g (f r) = g r) \<Longrightarrow> unique_on g (update_row key k f rows) = unique_on g rows"
  by (simp add: unique_on_def map_update_row)

lemma get_update_row:
  "(\<And>r. key (f r) = key r) \<Longrightarrow>
     get_row key j (update_row key k f rows) =
       (if j = k then map_option f (get_row key j rows) else get_row key j rows)"
  by (induction rows) (auto simp: get_row_def update_row_def)

lemma set_update_row:
  "x \<in> set (update_row key k f rows) \<Longrightarrow>
     (x \<in> set rows \<and> key x \<noteq> k) \<or> (\<exists>r \<in> set rows. key r = k \<and> x = f r)"
  by (auto simp: update_row_def split: if_splits)

end
