(* ===== verification/Netip.thy ===== *)
theory Netip
  imports Prelude "HOL-Library.Word" "HOL-Library.List_Lexorder" "HOL-Library.Char_ord"
begin

text \<open>
  Go's \<^verbatim>\<open>net/netip\<close> as far as the API uses it: addresses with their order, successor, printing and
  parsing, and prefixes. An IPv4 address is a 32-bit word, so \<^verbatim>\<open>Addr.Next\<close> wraps at
  \<^verbatim>\<open>255.255.255.255\<close>, where Go returns the zero address. The lemmas show that printing is injective,
  that parsing inverts it on IPv4, and how the successor moves through a range.
\<close>

section \<open>Addresses\<close>

datatype addr = AddrZero | Addr4 "32 word" | Addr6 "128 word" string

definition Is4 :: "addr \<Rightarrow> bool" where
  "Is4 a = (case a of Addr4 _ \<Rightarrow> True | _ \<Rightarrow> False)"

text \<open>\<^verbatim>\<open>Addr.Compare\<close>: by bit length, then by value, then by zone.\<close>

definition addr_bits :: "addr \<Rightarrow> nat" where
  "addr_bits a = (case a of AddrZero \<Rightarrow> 0 | Addr4 _ \<Rightarrow> 32 | Addr6 _ _ \<Rightarrow> 128)"

definition addr_value :: "addr \<Rightarrow> nat" where
  "addr_value a = (case a of AddrZero \<Rightarrow> 0 | Addr4 w \<Rightarrow> unat w | Addr6 w _ \<Rightarrow> unat w)"

definition addr_zone :: "addr \<Rightarrow> string" where
  "addr_zone a = (case a of Addr6 _ z \<Rightarrow> z | _ \<Rightarrow> [])"

definition addr_less :: "addr \<Rightarrow> addr \<Rightarrow> bool" where
  "addr_less a b =
     (addr_bits a < addr_bits b \<or>
      addr_bits a = addr_bits b \<and>
        (addr_value a < addr_value b \<or> addr_value a = addr_value b \<and> addr_zone a < addr_zone b))"

lemma unat_inj: "unat v = unat w \<longleftrightarrow> v = w"
  by (metis unsigned_word_eqI)

lemma addr_eqI:
  "addr_bits a = addr_bits b \<Longrightarrow> addr_value a = addr_value b \<Longrightarrow> addr_zone a = addr_zone b \<Longrightarrow> a = b"
  by (cases a; cases b) (auto simp: addr_bits_def addr_value_def addr_zone_def unat_inj)

text \<open>The order of \<^verbatim>\<open>Compare\<close> is total, so addresses are an instance of the library's class.\<close>

instantiation addr :: linorder
begin

definition less_addr :: "addr \<Rightarrow> addr \<Rightarrow> bool" where
  "less_addr = addr_less"

definition less_eq_addr :: "addr \<Rightarrow> addr \<Rightarrow> bool" where
  "less_eq_addr a b = (a = b \<or> addr_less a b)"

instance
proof
  fix x y z :: addr
  show "(x < y) = (x \<le> y \<and> \<not> y \<le> x)"
    by (auto simp: less_addr_def less_eq_addr_def addr_less_def)
  show "x \<le> x" by (simp add: less_eq_addr_def)
  show "x \<le> y \<Longrightarrow> y \<le> z \<Longrightarrow> x \<le> z"
    by (auto simp: less_eq_addr_def addr_less_def)
  show "x \<le> y \<Longrightarrow> y \<le> x \<Longrightarrow> x = y"
    by (auto simp: less_eq_addr_def addr_less_def)
  show "x \<le> y \<or> y \<le> x"
    using addr_eqI[of x y] by (auto simp: less_eq_addr_def addr_less_def not_less_iff_gr_or_eq)
qed

end

definition Compare :: "addr \<Rightarrow> addr \<Rightarrow> int" where
  "Compare a b = (if a < b then -1 else if a = b then 0 else 1)"

text \<open>\<^verbatim>\<open>Addr.Next\<close>: the address after this one, or the zero address when there is none.\<close>

definition Next :: "addr \<Rightarrow> addr" where
  "Next a = (case a of AddrZero \<Rightarrow> AddrZero
     | Addr4 w \<Rightarrow> if w = - 1 then AddrZero else Addr4 (w + 1)
     | Addr6 w z \<Rightarrow> if w = - 1 then AddrZero else Addr6 (w + 1) z)"

section \<open>Printing\<close>

definition octet :: "32 word \<Rightarrow> nat \<Rightarrow> nat" where
  "octet w i = unat w div 256 ^ (3 - i) mod 256"

definition quad :: "32 word \<Rightarrow> string" where
  "quad w = Join (map (\<lambda>i. dec (octet w i)) [0..<4]) ''.''"

fun hexn :: "nat \<Rightarrow> string" where
  "hexn n = (if n < 16 then [hexdigits ! n] else hexn (n div 16) @ [hexdigits ! (n mod 16)])"

declare hexn.simps [simp del]

definition group6 :: "128 word \<Rightarrow> nat \<Rightarrow> nat" where
  "group6 w i = unat w div 65536 ^ (7 - i) mod 65536"

text \<open>The length of the run of zero groups that starts at \<open>i\<close>.\<close>

definition zero_run :: "128 word \<Rightarrow> nat \<Rightarrow> nat" where
  "zero_run w i = length (takeWhile (\<lambda>j. group6 w j = 0) [i..<8])"

text \<open>RFC 5952: the first longest run of at least two zero groups is written \<^verbatim>\<open>::\<close>.\<close>

definition ellipsis :: "128 word \<Rightarrow> (nat \<times> nat) option" where
  "ellipsis w =
     (let best = foldl (\<lambda>b i. if zero_run w i > snd b then (i, zero_run w i) else b) (0, 1) [0..<8]
      in if snd best > 1 then Some best else None)"

definition str6 :: "128 word \<Rightarrow> string" where
  "str6 w =
     (if unat w div 2 ^ 32 = 65535 then ''::ffff:'' @ quad (word_of_nat (unat w mod 2 ^ 32))
      else (case ellipsis w of
        None \<Rightarrow> Join (map (\<lambda>i. hexn (group6 w i)) [0..<8]) '':''
      | Some (i, n) \<Rightarrow> Join (map (\<lambda>i. hexn (group6 w i)) [0..<i]) '':'' @ ''::'' @
          Join (map (\<lambda>i. hexn (group6 w i)) [i + n..<8]) '':''))"

definition AddrString :: "addr \<Rightarrow> string" where
  "AddrString a = (case a of AddrZero \<Rightarrow> ''invalid IP''
     | Addr4 w \<Rightarrow> quad w
     | Addr6 w z \<Rightarrow> str6 w @ (if z = [] then [] else CHR ''%'' # z))"

section \<open>Parsing\<close>

text \<open>
  One field of a dotted quad: decimal digits only, no leading zero, at most 255
  (\<^verbatim>\<open>parseIPv4Fields\<close>).
\<close>

definition parse_octet :: "string \<Rightarrow> nat option" where
  "parse_octet s =
     (if s = [] \<or> \<not> set s \<subseteq> set digits \<or> (length s > 1 \<and> hd s = CHR ''0'') \<or> undec s > 255
      then None else Some (undec s))"

definition parse_quad :: "string \<Rightarrow> nat option" where
  "parse_quad s =
     (case map parse_octet (SplitOn CHR ''.'' s) of
        [Some a, Some b, Some c, Some d] \<Rightarrow> Some (((a * 256 + b) * 256 + c) * 256 + d)
      | _ \<Rightarrow> None)"

definition is_hex :: "char \<Rightarrow> bool" where
  "is_hex c = (c \<in> set digits \<or> c \<in> set ''abcdef'' \<or> c \<in> set ''ABCDEF'')"

definition hex_val :: "char \<Rightarrow> nat" where
  "hex_val c = (if c \<in> set ''ABCDEF'' then 10 + digit_index c ''ABCDEF'' else digit_index c hexdigits)"

text \<open>
  The loop of \<^verbatim>\<open>parseIPv6\<close>: \<open>gs\<close> are the 16-bit groups read so far, \<open>ell\<close> the number of groups
  before the ellipsis. It returns the groups, the ellipsis and what is left of the string.
\<close>

fun parse_groups :: "nat \<Rightarrow> nat list \<Rightarrow> nat option \<Rightarrow> string \<Rightarrow> (nat list \<times> nat option \<times> string) option" where
  "parse_groups 0 gs ell s = Some (gs, ell, s)"
| "parse_groups (Suc k) gs ell s =
     (let h = takeWhile is_hex s; rest = drop (length h) s in
      if h = [] \<or> length h > 4 then None
      else if HasPrefix rest ''.'' then
        (if ell = None \<and> length gs \<noteq> 6 \<or> length gs > 6 then None
         else (case parse_quad s of None \<Rightarrow> None
           | Some v \<Rightarrow> Some (gs @ [v div 65536, v mod 65536], ell, [])))
      else let gs' = gs @ [foldl (\<lambda>a c. 16 * a + hex_val c) 0 h] in
        (case rest of [] \<Rightarrow> Some (gs', ell, [])
         | c # t \<Rightarrow>
             if c \<noteq> CHR '':'' \<or> t = [] then None
             else if hd t = CHR '':'' then
               (if ell \<noteq> None then None
                else if tl t = [] then Some (gs', Some (length gs'), [])
                else parse_groups k gs' (Some (length gs')) (tl t))
             else parse_groups k gs' ell t))"

definition assemble6 :: "nat list \<Rightarrow> 128 word" where
  "assemble6 gs = word_of_nat (foldl (\<lambda>a g. 65536 * a + g) 0 gs)"

definition parseIPv6 :: "string \<Rightarrow> addr option" where
  "parseIPv6 inp =
     (let s = takeWhile (\<lambda>c. c \<noteq> CHR ''%'') inp; tail = drop (length s) inp; zone = tl tail in
      if tail \<noteq> [] \<and> zone = [] then None
      else let (ell0, s0) = (if HasPrefix s ''::'' then (Some 0, drop 2 s) else (None, s)) in
        if ell0 \<noteq> None \<and> s0 = [] then Some (Addr6 0 zone)
        else (case parse_groups 8 [] ell0 s0 of None \<Rightarrow> None
          | Some (gs, ell, rest) \<Rightarrow>
              if rest \<noteq> [] then None
              else if length gs < 8 then
                (case ell of None \<Rightarrow> None
                 | Some e \<Rightarrow> Some (Addr6 (assemble6 (take e gs @ replicate (8 - length gs) 0 @ drop e gs)) zone))
              else if ell \<noteq> None then None
              else Some (Addr6 (assemble6 gs) zone)))"

text \<open>\<^verbatim>\<open>netip.ParseAddr\<close>: the first \<^verbatim>\<open>.\<close>, \<^verbatim>\<open>:\<close> or \<^verbatim>\<open>%\<close> decides how the text is read.\<close>

definition ParseAddr :: "string \<Rightarrow> addr option" where
  "ParseAddr s =
     (case dropWhile (\<lambda>c. c \<noteq> CHR ''.'' \<and> c \<noteq> CHR '':'' \<and> c \<noteq> CHR ''%'') s of
        [] \<Rightarrow> None
      | c # _ \<Rightarrow> if c = CHR ''.'' then map_option (\<lambda>v. Addr4 (word_of_nat v)) (parse_quad s)
                 else if c = CHR '':'' then parseIPv6 s else None)"

text \<open>\<^verbatim>\<open>net.ParseIP\<close> accepts what \<^verbatim>\<open>ParseAddr\<close> does, less a zone; only whether it does is used.\<close>

definition ParseIP_ok :: "string \<Rightarrow> bool" where
  "ParseIP_ok s = (case ParseAddr s of Some a \<Rightarrow> addr_zone a = [] | None \<Rightarrow> False)"

section \<open>Prefixes\<close>

record prefix =
  pfx_addr :: addr
  pfx_bits :: int

text \<open>\<^verbatim>\<open>Prefix.IsValid\<close>, \<^verbatim>\<open>Prefix.Contains\<close> and \<^verbatim>\<open>Prefix.String\<close>.\<close>

definition prefix_IsValid :: "prefix \<Rightarrow> bool" where
  "prefix_IsValid p =
     (pfx_addr p \<noteq> AddrZero \<and> 0 \<le> pfx_bits p \<and> pfx_bits p \<le> int (addr_bits (pfx_addr p)))"

definition prefix_Contains :: "prefix \<Rightarrow> addr \<Rightarrow> bool" where
  "prefix_Contains p a =
     (prefix_IsValid p \<and> addr_bits a = addr_bits (pfx_addr p) \<and> addr_zone a = [] \<and>
      (let k = addr_bits a - nat (pfx_bits p) in
       addr_value a div 2 ^ k = addr_value (pfx_addr p) div 2 ^ k))"

definition prefix_String :: "prefix \<Rightarrow> string" where
  "prefix_String p =
     (if prefix_IsValid p then AddrString (pfx_addr p) @ ''/'' @ itoa (pfx_bits p) else ''invalid Prefix'')"

section \<open>Order and successor\<close>

lemma Compare_le: "Compare a b \<le> 0 \<longleftrightarrow> a \<le> b"
  by (auto simp: Compare_def)

lemma Compare_ge: "Compare a b \<ge> 0 \<longleftrightarrow> b \<le> a"
  by (auto simp: Compare_def)

lemma Compare_gt: "Compare a b > 0 \<longleftrightarrow> b < a"
  by (auto simp: Compare_def)

lemma addr4_le [simp]: "Addr4 v \<le> Addr4 w \<longleftrightarrow> v \<le> w"
  unfolding less_eq_addr_def addr_less_def addr_bits_def addr_value_def addr_zone_def word_le_nat_alt
  by (auto simp: unat_inj[symmetric])

lemma addr4_less [simp]: "Addr4 v < Addr4 w \<longleftrightarrow> v < w"
  by (auto simp: less_le)

lemma addr4_between: "Addr4 v \<le> a \<Longrightarrow> a \<le> Addr4 w \<Longrightarrow> \<exists>u. a = Addr4 u \<and> v \<le> u \<and> u \<le> w"
  by (cases a) (auto simp: less_eq_addr_def addr_less_def addr_bits_def addr_value_def addr_zone_def
      word_less_nat_alt word_le_nat_alt)

lemma Next_addr4: "w < v \<Longrightarrow> Next (Addr4 w) = Addr4 (w + 1)"
  by (auto simp: Next_def)

lemma Next_max: "Next (Addr4 (- 1)) = AddrZero"
  by (simp add: Next_def)

lemma AddrZero_less_addr4: "AddrZero < Addr4 w"
  by (simp add: less_addr_def addr_less_def addr_bits_def)

section \<open>Dotted quads round-trip\<close>

lemma octet_less [simp]: "octet w i < 256"
  by (simp add: octet_def)

lemma quad_value:
  "((octet w 0 * 256 + octet w 1) * 256 + octet w 2) * 256 + octet w 3 = unat w"
proof -
  define a where "a = unat w"
  define b where "b = a div 256"
  define c where "c = b div 256"
  have "a < 256 ^ 4" using unsigned_less[of w] by (simp add: a_def)
  then have "c div 256 < 256" by (simp add: b_def c_def)
  then have "octet w 0 = c div 256" "octet w 1 = c mod 256" "octet w 2 = b mod 256" "octet w 3 = a mod 256"
    by (simp_all add: octet_def a_def b_def c_def flip: div_mult2_eq)
  moreover have "a = b * 256 + a mod 256" "b = c * 256 + b mod 256" "c = c div 256 * 256 + c mod 256"
    by (simp_all add: b_def c_def)
  ultimately show ?thesis by (simp add: a_def)
qed

lemma quad_eq: "quad w = dec (octet w 0) @ ''.'' @ dec (octet w 1) @ ''.'' @ dec (octet w 2) @ ''.'' @ dec (octet w 3)"
  by (simp add: quad_def upt_rec numeral_eq_Suc)

lemma SplitOn_quad:
  "SplitOn CHR ''.'' (quad w) = [dec (octet w 0), dec (octet w 1), dec (octet w 2), dec (octet w 3)]"
  by (simp add: quad_eq SplitOn_append SplitOn_no_sep)

lemma hd_dec_nonzero: "n \<ge> 1 \<Longrightarrow> hd (dec n) \<noteq> CHR ''0''"
proof (induction n rule: dec.induct)
  case (1 n)
  show ?case
  proof (cases "n < 10")
    case True
    have "digits ! n = CHR ''0'' \<Longrightarrow> n = 0"
      using digit_index_digits[OF True] by (simp add: digits_def)
    with True 1 show ?thesis by (auto simp: dec_small)
  next
    case False
    with 1 show ?thesis by (subst dec.simps) simp
  qed
qed

lemma parse_octet_dec: "n < 256 \<Longrightarrow> parse_octet (dec n) = Some n"
proof -
  assume n: "n < 256"
  have "length (dec n) > 1 \<Longrightarrow> n \<ge> 1"
    by (cases n) (auto simp: dec_small)
  then show ?thesis
    using n set_dec[of n] hd_dec_nonzero[of n] by (auto simp: parse_octet_def)
qed

lemma parse_quad_quad: "parse_quad (quad w) = Some (unat w)"
  using quad_value[of w] by (simp add: parse_quad_def SplitOn_quad parse_octet_dec)

lemma dropWhile_dec:
  "(\<And>c. c \<in> set digits \<Longrightarrow> P c) \<Longrightarrow> dropWhile P (dec n @ t) = dropWhile P t"
  using set_dec[of n] by (induction "dec n" arbitrary: n) (auto simp: dropWhile_append subset_iff)

lemma ParseAddr_quad: "ParseAddr (quad w) = Some (Addr4 w)"
proof -
  have "dropWhile (\<lambda>c. c \<noteq> CHR ''.'' \<and> c \<noteq> CHR '':'' \<and> c \<noteq> CHR ''%'') (quad w) =
      ''.'' @ dec (octet w 1) @ ''.'' @ dec (octet w 2) @ ''.'' @ dec (octet w 3)"
    unfolding quad_eq by (subst dropWhile_dec) (auto simp: digits_def)
  then show ?thesis
    by (simp add: ParseAddr_def parse_quad_quad)
qed

lemma quad_inj [simp]: "quad v = quad w \<longleftrightarrow> v = w"
  by (metis ParseAddr_quad addr.inject(1) option.inject)

lemma AddrString_addr4_inj: "AddrString (Addr4 v) = AddrString (Addr4 w) \<longleftrightarrow> v = w"
  by (simp add: AddrString_def)

lemma ParseAddr_AddrString: "Is4 a \<Longrightarrow> ParseAddr (AddrString a) = Some a"
  by (cases a) (auto simp: Is4_def AddrString_def ParseAddr_quad)

end
