(* ===== verification/Site.thy ===== *)
theory Site
  imports Netip
begin

text \<open>
  \<^verbatim>\<open>internal/tenant/site.go\<close>: one site's constants and everything derived from them and a tenant's
  index (ADR-0002). A Go map keyed by string is an association list with distinct keys; where the
  code ranges over a map the model uses the list's order. Go's \<^verbatim>\<open>int\<close> is \<^typ>\<open>int\<close>: the values here
  stay far below 63 bits.

  The lemmas show that the derivations are injective: no two tenants of a site share a VNI, a VNet
  tag, a subnet, a gateway, a reverse zone, a VMID, a MAC or a workload address, and that the
  functions that map a fabric number back to an index invert them.
\<close>

section \<open>Names\<close>

definition MinIndex :: int where "MinIndex = 1"
definition MaxAllocatable :: int where "MaxAllocatable = 62"
definition ReservedIndex :: int where "ReservedIndex = 63"
definition vnetsPerTenant :: int where "vnetsPerTenant = 10"
definition MaxWorkloads :: int where "MaxWorkloads = 40"

text \<open>\<^verbatim>\<open>^[a-z][a-z0-9]{0,7}$\<close> and \<^verbatim>\<open>^[a-z][a-z0-9-]{0,19}$\<close>.\<close>

definition nameRE :: "string \<Rightarrow> bool" where
  "nameRE s = (case s of [] \<Rightarrow> False
     | c # cs \<Rightarrow> c \<in> set lowers \<and> list_all (\<lambda>d. d \<in> set (lowers @ digits)) cs \<and> length cs \<le> 7)"

definition workloadNameRE :: "string \<Rightarrow> bool" where
  "workloadNameRE s = (case s of [] \<Rightarrow> False
     | c # cs \<Rightarrow> c \<in> set lowers \<and> list_all (\<lambda>d. d \<in> set (lowers @ digits @ ''-'')) cs \<and> length cs \<le> 19)"

definition ValidWorkloadName :: "string \<Rightarrow> bool" where
  "ValidWorkloadName name = (workloadNameRE name \<and> \<not> HasSuffix name ''-'')"

definition ValidName :: "string \<Rightarrow> bool" where
  "ValidName name = nameRE name"

definition reservedNames :: "string list" where
  "reservedNames = [''home'', ''mobile'', ''mgmt'', ''dvnt'', ''dvntm'', ''device'', ''mqtt'', ''artifacts'']"

definition Reserved :: "string \<Rightarrow> bool" where
  "Reserved name = (name \<in> set reservedNames)"

section \<open>Trust classes and address ranges\<close>

record TrustClass =
  tc_Name :: string
  tc_SSID :: string
  tc_VLAN :: int

record AddressRange =
  ar_Subnet :: prefix
  ar_First :: addr
  ar_Last :: addr

definition range_Contains :: "AddressRange \<Rightarrow> addr \<Rightarrow> bool" where
  "range_Contains r a = (Compare a (ar_First r) \<ge> 0 \<and> Compare a (ar_Last r) \<le> 0)"

definition DefaultAddressesPerTenant :: int where "DefaultAddressesPerTenant = 16"

section \<open>The site\<close>

record Site =
  site_Name :: string
  site_Octet :: int
  site_RootDomain :: string
  site_CertificateSites :: "string list"
  site_VRFVNIBase :: int
  site_VNetVNIBase :: int
  site_ControllerID :: string
  site_Node :: string
  site_DNSUpdateServer :: string
  site_DNSApexNS :: string
  site_DNSUpdateFrom :: "string list"
  site_StateEndpoint :: string
  site_StateBucket :: string
  site_LogEndpoint :: string
  site_DashboardURL :: string
  site_TrustClasses :: "(string \<times> TrustClass) list"
  site_AddressRanges :: "(string \<times> AddressRange) list"
  site_AddressesPerTenant :: int
  site_AdmissionClass :: string
  site_ResolverForwardTo :: string
  site_WorkloadResolver :: string
  site_TenantVMIDBase :: int
  site_MACNamespace :: string
  site_TemplatePrefix :: string
  site_Storage :: string
  site_Disk :: string
  site_CIUser :: string

datatype site_error =
    SiteNameEmpty | SiteOctet int | SiteRootEmpty | SiteVNIBases | SiteFabric | SiteDNS | SiteUpdateFrom
  | SiteState | SiteForward | SiteResolver | SiteVMIDBase | SiteMACNamespace | SiteTemplate | SiteDisk
  | ClassNoSSID string | ClassVLAN string int
  | RangeNoClass string | RangeNotIPv4 string | RangeOutside string | RangeBackwards string
  | SiteQuotaNegative | SiteAdmissionClass string

definition check_class :: "string \<times> TrustClass \<Rightarrow> site_error option" where
  "check_class = (\<lambda>(name, tc).
     if tc_SSID tc = [] then Some (ClassNoSSID name)
     else if tc_VLAN tc < 1 \<or> tc_VLAN tc > 4094 then Some (ClassVLAN name (tc_VLAN tc))
     else None)"

definition class_name :: "Site \<Rightarrow> string \<Rightarrow> string" where
  "class_name s name = (case map_of (site_TrustClasses s) name of None \<Rightarrow> [] | Some tc \<Rightarrow> tc_Name tc)"

definition check_range :: "Site \<Rightarrow> string \<times> AddressRange \<Rightarrow> site_error option" where
  "check_range s = (\<lambda>(name, r).
     if class_name s name = [] then Some (RangeNoClass name)
     else if \<not> prefix_IsValid (ar_Subnet r) \<or> \<not> Is4 (ar_First r) \<or> \<not> Is4 (ar_Last r) then Some (RangeNotIPv4 name)
     else if \<not> prefix_Contains (ar_Subnet r) (ar_First r) \<or> \<not> prefix_Contains (ar_Subnet r) (ar_Last r)
       then Some (RangeOutside name)
     else if Compare (ar_First r) (ar_Last r) > 0 then Some (RangeBackwards name)
     else None)"

fun first_error :: "('a \<Rightarrow> 'e option) \<Rightarrow> 'a list \<Rightarrow> 'e option" where
  "first_error f [] = None"
| "first_error f (x # xs) = (case f x of Some e \<Rightarrow> Some e | None \<Rightarrow> first_error f xs)"

definition Validate_site :: "Site \<Rightarrow> site_error option" where
  "Validate_site s =
     (if site_Name s = [] then Some SiteNameEmpty
      else if site_Octet s < 1 \<or> site_Octet s > 254 then Some (SiteOctet (site_Octet s))
      else if site_RootDomain s = [] then Some SiteRootEmpty
      else if site_VRFVNIBase s \<le> 0 \<or> site_VNetVNIBase s \<le> 0 then Some SiteVNIBases
      else if site_ControllerID s = [] \<or> site_Node s = [] then Some SiteFabric
      else if site_DNSUpdateServer s = [] \<or> site_DNSApexNS s = [] then Some SiteDNS
      else if length (site_DNSUpdateFrom s) = 0 then Some SiteUpdateFrom
      else if site_StateEndpoint s = [] \<or> site_StateBucket s = [] then Some SiteState
      else if site_ResolverForwardTo s = [] then Some SiteForward
      else if site_WorkloadResolver s = [] then Some SiteResolver
      else if site_TenantVMIDBase s \<le> 0 then Some SiteVMIDBase
      else if site_MACNamespace s = [] then Some SiteMACNamespace
      else if site_TemplatePrefix s = [] then Some SiteTemplate
      else if site_Disk s = [] then Some SiteDisk
      else case first_error check_class (site_TrustClasses s) of Some e \<Rightarrow> Some e | None \<Rightarrow>
        (case first_error (check_range s) (site_AddressRanges s) of Some e \<Rightarrow> Some e | None \<Rightarrow>
          (if site_AddressesPerTenant s < 0 then Some SiteQuotaNegative
           else if site_AdmissionClass s \<noteq> [] \<and> map_of (site_TrustClasses s) (site_AdmissionClass s) = None
             then Some (SiteAdmissionClass (site_AdmissionClass s))
           else None)))"

definition site_TrustClass :: "Site \<Rightarrow> string \<Rightarrow> TrustClass option" where
  "site_TrustClass s name = map_of (site_TrustClasses s) name"

definition TrustClassNames :: "Site \<Rightarrow> string list" where
  "TrustClassNames s = sort (map fst (site_TrustClasses s))"

definition AddressQuota :: "Site \<Rightarrow> int" where
  "AddressQuota s =
     (if site_AddressesPerTenant s > 0 then site_AddressesPerTenant s else DefaultAddressesPerTenant)"

section \<open>Numbering\<close>

record Numbering =
  num_Index :: int
  num_VRFVNI :: int
  num_VNetVNIBase :: int
  num_Subnet :: string
  num_Gateway :: string
  num_ReverseZone :: string

definition Numbering_of :: "Site \<Rightarrow> int \<Rightarrow> Numbering" where
  "Numbering_of s index =
     (let third = 128 + index in
      \<lparr>num_Index = index,
       num_VRFVNI = site_VRFVNIBase s + index,
       num_VNetVNIBase = site_VNetVNIBase s + index * vnetsPerTenant,
       num_Subnet = ''10.'' @ itoa (site_Octet s) @ ''.'' @ itoa third @ ''.0/24'',
       num_Gateway = ''10.'' @ itoa (site_Octet s) @ ''.'' @ itoa third @ ''.1'',
       num_ReverseZone = itoa third @ ''.'' @ itoa (site_Octet s) @ ''.10.in-addr.arpa''\<rparr>)"

definition ServiceZone :: "Site \<Rightarrow> string \<Rightarrow> string" where
  "ServiceZone s name = name @ ''.'' @ site_RootDomain s"

definition SiteZone :: "Site \<Rightarrow> string \<Rightarrow> string \<Rightarrow> string" where
  "SiteZone s name site = name @ ''.'' @ site @ ''.'' @ site_RootDomain s"

definition certificateSites_of :: "Site \<Rightarrow> string list" where
  "certificateSites_of s = (if length (site_CertificateSites s) = 0 then [site_Name s] else site_CertificateSites s)"

definition Zone :: "Site \<Rightarrow> string \<Rightarrow> string" where
  "Zone s name = name @ ''.'' @ site_Name s @ ''.'' @ site_RootDomain s"

definition IndexForVRFVNI :: "Site \<Rightarrow> int \<Rightarrow> int" where
  "IndexForVRFVNI s vni =
     (let n = vni - site_VRFVNIBase s in if n < MinIndex \<or> n > ReservedIndex then 0 else n)"

definition IndexForVNetTag :: "Site \<Rightarrow> int \<Rightarrow> int" where
  "IndexForVNetTag s tag =
     (let off = tag - site_VNetVNIBase s in
      if off < 0 then 0
      else let n = off div vnetsPerTenant in
        if n < MinIndex \<or> n > ReservedIndex then 0 else n)"

definition statePrefix :: "Site \<Rightarrow> string \<Rightarrow> string" where
  "statePrefix s name = ''tenants/'' @ name @ ''/''"

record VNetSpec =
  vn_ID :: string
  vn_Tag :: int

record NetworkSpec =
  nw_Zone :: string
  nw_Controller :: string
  nw_Node :: string
  nw_VRFVNI :: int
  nw_VNets :: "VNetSpec list"
  nw_Subnet :: string
  nw_Gateway :: string

definition Network :: "Site \<Rightarrow> string \<Rightarrow> int \<Rightarrow> NetworkSpec" where
  "Network s name index =
     (let n = Numbering_of s index;
          short = (if length name > 6 then take 6 name else name) in
      \<lparr>nw_Zone = name, nw_Controller = site_ControllerID s, nw_Node = site_Node s,
       nw_VRFVNI = num_VRFVNI n,
       nw_VNets = [\<lparr>vn_ID = short @ itoa 0, vn_Tag = num_VNetVNIBase n\<rparr>],
       nw_Subnet = num_Subnet n, nw_Gateway = num_Gateway n\<rparr>)"

definition WorkloadVMID :: "Site \<Rightarrow> int \<Rightarrow> int \<Rightarrow> int" where
  "WorkloadVMID s index ordinal = site_TenantVMIDBase s + index * MaxWorkloads + ordinal"

definition WorkloadAddress :: "Site \<Rightarrow> int \<Rightarrow> int \<Rightarrow> string" where
  "WorkloadAddress s index ordinal =
     ''10.'' @ itoa (site_Octet s) @ ''.'' @ itoa (128 + index) @ ''.'' @ itoa (10 + ordinal)"

text \<open>\<^verbatim>\<open>(vmid >> 16) & 0xff\<close> and its two lower neighbours, printed \<^verbatim>\<open>%02x\<close>.\<close>

definition MAC :: "Site \<Rightarrow> int \<Rightarrow> string" where
  "MAC s vmid =
     site_MACNamespace s @ '':'' @ hex2 (nat (vmid div 65536 mod 256)) @ '':'' @
       hex2 (nat (vmid div 256 mod 256)) @ '':'' @ hex2 (nat (vmid mod 256))"

section \<open>Names are DNS labels\<close>

lemma set_lowers_digits: "c \<in> set (lowers @ digits) \<Longrightarrow> c \<noteq> CHR ''.'' \<and> c \<noteq> CHR ''/'' \<and> c \<noteq> CHR ''-''"
  by (auto simp: lowers_def digits_def)

lemma ValidName_no_dot: "ValidName s \<Longrightarrow> CHR ''.'' \<notin> set s \<and> CHR ''/'' \<notin> set s \<and> CHR ''-'' \<notin> set s"
  using set_lowers_digits by (fastforce simp: ValidName_def nameRE_def list_all_iff split: list.splits)

lemma ValidName_length: "ValidName s \<Longrightarrow> s \<noteq> [] \<and> length s \<le> 8"
  by (auto simp: ValidName_def nameRE_def split: list.splits)

lemma set_lowers_digits_dash: "c \<in> set (lowers @ digits @ ''-'') \<Longrightarrow> c \<noteq> CHR ''.'' \<and> c \<noteq> CHR ''/''"
  by (auto simp: lowers_def digits_def)

lemma workloadNameRE_no_dot: "workloadNameRE s \<Longrightarrow> CHR ''.'' \<notin> set s \<and> CHR ''/'' \<notin> set s"
  using set_lowers_digits_dash by (fastforce simp: workloadNameRE_def list_all_iff split: list.splits)

lemma ValidWorkloadName_no_dot: "ValidWorkloadName s \<Longrightarrow> CHR ''.'' \<notin> set s \<and> CHR ''/'' \<notin> set s \<and> s \<noteq> []"
  using workloadNameRE_no_dot[of s] by (cases s) (auto simp: ValidWorkloadName_def workloadNameRE_def)

section \<open>Derived numbers are disjoint\<close>

lemma Numbering_simps:
  "num_VRFVNI (Numbering_of s i) = site_VRFVNIBase s + i"
  "num_VNetVNIBase (Numbering_of s i) = site_VNetVNIBase s + i * vnetsPerTenant"
  by (simp_all add: Numbering_of_def Let_def)

lemma Numbering_inj:
  "num_VRFVNI (Numbering_of s i) = num_VRFVNI (Numbering_of s j) \<longleftrightarrow> i = j"
  "num_Subnet (Numbering_of s i) = num_Subnet (Numbering_of s j) \<longleftrightarrow> i = j"
  "num_Gateway (Numbering_of s i) = num_Gateway (Numbering_of s j) \<longleftrightarrow> i = j"
  "num_ReverseZone (Numbering_of s i) = num_ReverseZone (Numbering_of s j) \<longleftrightarrow> i = j"
  by (auto simp: Numbering_of_def Let_def append_sep_inj)

lemma WorkloadAddress_inj:
  "WorkloadAddress s i m = WorkloadAddress s j n \<longleftrightarrow> i = j \<and> m = n"
  by (auto simp: WorkloadAddress_def append_sep_inj)

lemma WorkloadVMID_inj:
  assumes "0 \<le> m" "m < MaxWorkloads" "0 \<le> n" "n < MaxWorkloads"
  shows "WorkloadVMID s i m = WorkloadVMID s j n \<longleftrightarrow> i = j \<and> m = n"
proof
  assume "WorkloadVMID s i m = WorkloadVMID s j n"
  then have eq: "40 * i + m = 40 * j + n" by (simp add: WorkloadVMID_def MaxWorkloads_def)
  then have "(40 * i + m) div 40 = (40 * j + n) div 40" by simp
  with assms have "i = j" by (simp add: MaxWorkloads_def)
  with eq show "i = j \<and> m = n" by simp
qed simp

lemma hex2_int_inj: "hex2 (nat (a mod 256)) = hex2 (nat (b mod 256)) \<longleftrightarrow> a mod 256 = b mod (256 :: int)"
  by (subst hex2_inj) (auto simp: nat_less_iff eq_nat_nat_iff)

lemma int_bytes:
  assumes "0 \<le> v" "v < 16777216"
  shows "v = v div 65536 mod 256 * 65536 + v div 256 mod 256 * 256 + v mod (256 :: int)"
proof -
  define a where "a = v div 256"
  define b where "b = a div 256"
  have top: "v div 65536 = b" by (simp add: a_def b_def zdiv_zmult2_eq[symmetric])
  have "b mod 256 = b" using assms by (simp add: top[symmetric])
  moreover have "v = a * 256 + r \<Longrightarrow> a = b * 256 + t \<Longrightarrow> v = b * 65536 + t * 256 + r" for r t
    by simp
  ultimately show ?thesis
    unfolding top a_def[symmetric] by (metis a_def b_def div_mult_mod_eq)
qed

lemma hex2_parts:
  "ns @ '':'' @ hex2 a @ '':'' @ hex2 b @ '':'' @ hex2 c = ns @ '':'' @ hex2 a' @ '':'' @ hex2 b' @ '':'' @ hex2 c' \<longleftrightarrow>
     hex2 a = hex2 a' \<and> hex2 b = hex2 b' \<and> hex2 c = hex2 c'"
  by (simp add: hex2_def)

lemma MAC_inj:
  assumes "0 \<le> v" "v < 16777216" "0 \<le> w" "w < 16777216"
  shows "MAC s v = MAC s w \<longleftrightarrow> v = w"
proof
  assume "MAC s v = MAC s w"
  then have "v div 65536 mod 256 = w div 65536 mod 256 \<and> v div 256 mod 256 = w div 256 mod 256 \<and>
      v mod 256 = w mod 256"
    by (simp only: MAC_def hex2_parts hex2_int_inj)
  then show "v = w" by (metis int_bytes assms)
qed simp

lemma WorkloadVMID_bounds:
  assumes "0 < site_TenantVMIDBase s" "site_TenantVMIDBase s \<le> 16774696" "1 \<le> i" "i \<le> 62"
    "0 \<le> m" "m < MaxWorkloads"
  shows "0 \<le> WorkloadVMID s i m \<and> WorkloadVMID s i m < 16777216"
  using assms by (auto simp: WorkloadVMID_def MaxWorkloads_def)

lemma Zone_inj:
  "ValidName a \<Longrightarrow> ValidName b \<Longrightarrow> Zone s a = Zone s b \<longleftrightarrow> a = b"
  by (auto simp: Zone_def)

lemma statePrefix_disjoint:
  "ValidName a \<Longrightarrow> ValidName b \<Longrightarrow> HasPrefix (statePrefix s a @ p) (statePrefix s b) \<Longrightarrow> a = b"
  using ValidName_no_dot[of a] ValidName_no_dot[of b]
  by (auto simp: HasPrefix_iff statePrefix_def append_sep_inj)

section \<open>Fabric numbers map back to the index\<close>

lemma IndexForVRFVNI_inverse:
  "MinIndex \<le> i \<Longrightarrow> i \<le> ReservedIndex \<Longrightarrow> IndexForVRFVNI s (num_VRFVNI (Numbering_of s i)) = i"
  by (simp add: Let_def IndexForVRFVNI_def Numbering_simps)

lemma IndexForVNetTag_inverse:
  assumes "MinIndex \<le> i" "i \<le> ReservedIndex" "0 \<le> k" "k < vnetsPerTenant"
  shows "IndexForVNetTag s (num_VNetVNIBase (Numbering_of s i) + k) = i"
proof -
  have "(i * 10 + k) div 10 = i" using assms by (simp add: vnetsPerTenant_def)
  then show ?thesis
    using assms by (auto simp: Let_def IndexForVNetTag_def Numbering_simps vnetsPerTenant_def MinIndex_def)
qed

lemma IndexForVNetTag_sound:
  "IndexForVNetTag s tag = i \<Longrightarrow> i \<noteq> 0 \<Longrightarrow>
     MinIndex \<le> i \<and> i \<le> ReservedIndex \<and>
     num_VNetVNIBase (Numbering_of s i) \<le> tag \<and> tag < num_VNetVNIBase (Numbering_of s i) + vnetsPerTenant"
  by (auto simp: IndexForVNetTag_def Numbering_simps vnetsPerTenant_def Let_def split: if_splits)

lemma IndexForVRFVNI_sound:
  "IndexForVRFVNI s vni = i \<Longrightarrow> i \<noteq> 0 \<Longrightarrow>
     MinIndex \<le> i \<and> i \<le> ReservedIndex \<and> vni = num_VRFVNI (Numbering_of s i)"
  by (auto simp: IndexForVRFVNI_def Numbering_simps Let_def split: if_splits)

section \<open>What a validated site guarantees\<close>

lemma first_error_None: "first_error f xs = None \<longleftrightarrow> (\<forall>x \<in> set xs. f x = None)"
  by (induction xs) (auto split: option.splits)

lemma Validate_site_ranges:
  assumes "Validate_site s = None" "(name, r) \<in> set (site_AddressRanges s)"
  obtains f l where "ar_First r = Addr4 f" "ar_Last r = Addr4 l" "f \<le> l"
proof -
  from assms have "check_range s (name, r) = None"
    by (auto simp: Validate_site_def first_error_None split: if_splits option.splits)
  then show ?thesis
    using that by (auto simp: check_range_def Is4_def Compare_gt split: if_splits addr.splits)
qed

lemma Validate_site_numbers:
  "Validate_site s = None \<Longrightarrow>
     1 \<le> site_Octet s \<and> site_Octet s \<le> 254 \<and> 0 < site_TenantVMIDBase s \<and> 0 \<le> site_AddressesPerTenant s"
  by (auto simp: Validate_site_def split: if_splits option.splits)

lemma AddressQuota_pos: "0 < AddressQuota s"
  by (simp add: AddressQuota_def DefaultAddressesPerTenant_def)

section \<open>Properties of the component\<close>

text \<open>Two tenant indexes never share a number on the fabric: the VRF VNI, the subnet, the gateway and
  the reverse zone differ, and the ranges of VNet tags do not overlap.\<close>

lemma tenant_numbers_disjoint:
  assumes "i \<noteq> j" "0 \<le> k" "k < vnetsPerTenant" "0 \<le> l" "l < vnetsPerTenant"
  shows "num_VRFVNI (Numbering_of s i) \<noteq> num_VRFVNI (Numbering_of s j) \<and>
    num_Subnet (Numbering_of s i) \<noteq> num_Subnet (Numbering_of s j) \<and>
    num_Gateway (Numbering_of s i) \<noteq> num_Gateway (Numbering_of s j) \<and>
    num_ReverseZone (Numbering_of s i) \<noteq> num_ReverseZone (Numbering_of s j) \<and>
    num_VNetVNIBase (Numbering_of s i) + k \<noteq> num_VNetVNIBase (Numbering_of s j) + l"
proof -
  have "(10 * i + k) div 10 = i" "(10 * j + l) div 10 = j" using assms by (simp_all add: vnetsPerTenant_def)
  with assms(1) have "10 * i + k \<noteq> 10 * j + l" by metis
  then show ?thesis using assms(1) by (simp add: Numbering_inj) (simp add: Numbering_simps vnetsPerTenant_def)
qed

definition sample_site :: Site where
  "sample_site = \<lparr>site_Name = ''dvnt'', site_Octet = 20, site_RootDomain = ''deevnet.net'',
     site_CertificateSites = [''dvnt'', ''dvntm''], site_VRFVNIBase = 10000, site_VNetVNIBase = 20000,
     site_ControllerID = ''evpn1'', site_Node = ''hv1'', site_DNSUpdateServer = ''10.20.99.10'',
     site_DNSApexNS = ''ns.dvnt.deevnet.net'', site_DNSUpdateFrom = [''10.20.0.0/16''],
     site_StateEndpoint = ''https://state'', site_StateBucket = ''tofu'', site_LogEndpoint = ''https://logs'',
     site_DashboardURL = ''https://dash'',
     site_TrustClasses = [(''iot'', \<lparr>tc_Name = ''iot'', tc_SSID = ''DVNT-IOT'', tc_VLAN = 30\<rparr>)],
     site_AddressRanges = [(''iot'', \<lparr>ar_Subnet = \<lparr>pfx_addr = Addr4 0x0A141E00, pfx_bits = 24\<rparr>, ar_First = Addr4 0x0A141E0A, ar_Last = Addr4 0x0A141E1E\<rparr>)],
     site_AddressesPerTenant = 2, site_AdmissionClass = ''iot'', site_ResolverForwardTo = ''10.20.99.10'',
     site_WorkloadResolver = ''10.20.99.1'', site_TenantVMIDBase = 5000, site_MACNamespace = ''02:de:ee'',
     site_TemplatePrefix = ''fedora'', site_Storage = ''local'', site_Disk = ''scsi0'', site_CIUser = ''admin''\<rparr>"

text \<open>The fabric's numbers map back to the index they came from, and to nothing else: a VRF VNI or a
  VNet tag names index \<open>i\<close> exactly when \<open>i\<close> is a tenant index (the reserved one included) and the number
  is one of those derived from it.\<close>

lemma fabric_numbers_roundtrip:
  "(IndexForVRFVNI s vni = i \<and> i \<noteq> 0) = (1 \<le> i \<and> i \<le> 63 \<and> vni = num_VRFVNI (Numbering_of s i)) \<and>
   (IndexForVNetTag s tag = i \<and> i \<noteq> 0) =
     (1 \<le> i \<and> i \<le> 63 \<and> num_VNetVNIBase (Numbering_of s i) \<le> tag \<and> tag < num_VNetVNIBase (Numbering_of s i) + 10)"
proof -
  have idx: "MinIndex = 1" "ReservedIndex = 63" "vnetsPerTenant = 10"
    by (simp_all add: MinIndex_def ReservedIndex_def vnetsPerTenant_def)
  have tag: "IndexForVNetTag s tag = i"
    if "1 \<le> i" "i \<le> 63" "num_VNetVNIBase (Numbering_of s i) \<le> tag" "tag < num_VNetVNIBase (Numbering_of s i) + 10"
    using that IndexForVNetTag_inverse[of i "tag - num_VNetVNIBase (Numbering_of s i)" s] idx by simp
  have "(IndexForVRFVNI s vni = i \<and> i \<noteq> 0) = (1 \<le> i \<and> i \<le> 63 \<and> vni = num_VRFVNI (Numbering_of s i))"
    using IndexForVRFVNI_sound[of s vni i] IndexForVRFVNI_inverse[of i s] idx by auto
  moreover have "(IndexForVNetTag s tag = i \<and> i \<noteq> 0) =
     (1 \<le> i \<and> i \<le> 63 \<and> num_VNetVNIBase (Numbering_of s i) \<le> tag \<and> tag < num_VNetVNIBase (Numbering_of s i) + 10)"
    using tag IndexForVNetTag_sound[of s tag i] idx by auto
  ultimately show ?thesis by blast
qed

text \<open>Two tenants are given the same VNet exactly when their names agree on the first six characters,
  whatever their indexes: the id of a VNet does not carry the index, and a name has up to eight.\<close>

lemma vnet_id_shared:
  "(map vn_ID (nw_VNets (Network s a i)) = map vn_ID (nw_VNets (Network s b j))) = (take 6 a = take 6 b)"
proof -
  have "(if length n > 6 then take 6 n else n) = take 6 n" for n :: string by simp
  then show ?thesis by (simp add: Network_def Let_def)
qed

end
