(* ===== verification/BrokerContract.thy ===== *)
theory BrokerContract
  imports Site
begin

text \<open>
  \<^verbatim>\<open>internal/brokeracct/contract.go\<close>, the wire contract both the API and the broker account writer
  apply, and \<^verbatim>\<open>cmd/deevnet-broker-account/main.go\<close>, the writer that puts one account into the broker's
  auth table. The JSON encoding and the SSH transport are not modelled: a request is the record the
  decoder returns. A \<^verbatim>\<open>fmt.Errorf\<close> is a constructor of \<open>broker_error\<close> with the values it formats.

  \<open>filter_matches\<close> is MQTT 3.1.1's topic matching, the specification the wildcard rules and the
  reserved log level are judged against.
\<close>

section \<open>Requests\<close>

definition broker_Version :: int where "broker_Version = 1"
definition OpPut :: string where "OpPut = ''put''"
definition OpDelete :: string where "OpDelete = ''delete''"
definition maxPattern :: nat where "maxPattern = 256"
definition maxPatterns :: nat where "maxPatterns = 32"
definition bcryptLen :: nat where "bcryptLen = 60"

record BrokerRequest =
  br_Version :: int
  br_Op :: string
  br_Tenant :: string
  br_Account :: string
  br_PasswordHash :: string
  br_Publish :: "string list"
  br_Subscribe :: "string list"

datatype direction = DPublish | DSubscribe

text \<open>Where a wildcard error was found: the writer names the list and the position, the API neither.\<close>

datatype position = AtPattern direction nat | InPattern

datatype broker_error =
    BadVersion int | BadTenant | BadAccount | DeleteCarriesMore | BadOp | BadHash | GrantsNothing
  | TooManyPatterns direction nat | EmptyPattern position | LongPattern position | NotUnderPrefix position
  | PercentPattern position | PlusOutsideLevel position | HashOutsideLevel position | HashBeforeEnd position
  | LeadingSlash | LeadingDollar | PatternError direction nat broker_error
  | LogPublishNoDevice | LogPublishOther string | LogSubscribeDevice

definition br_Username :: "BrokerRequest \<Rightarrow> string" where
  "br_Username r = br_Tenant r @ ''-'' @ br_Account r"

definition br_Mountpoint :: "BrokerRequest \<Rightarrow> string" where
  "br_Mountpoint r = ''''"

definition br_ClientID :: "BrokerRequest \<Rightarrow> string" where
  "br_ClientID r = ''*''"

definition br_Prefix :: "BrokerRequest \<Rightarrow> string" where
  "br_Prefix r = br_Tenant r @ ''/''"

section \<open>Validation\<close>

definition CheckGrant :: "string list \<Rightarrow> string list \<Rightarrow> broker_error option" where
  "CheckGrant publish subscribe =
     (if length publish = 0 \<and> length subscribe = 0 then Some GrantsNothing else None)"

definition validHash :: "string \<Rightarrow> broker_error option" where
  "validHash h = (if length h \<noteq> bcryptLen \<or> \<not> HasPrefix h ''$2a$'' then Some BadHash else None)"

text \<open>The loop of \<^verbatim>\<open>validWildcards\<close> over the levels of a filter; the last one has no level after it.\<close>

fun check_levels :: "position \<Rightarrow> string list \<Rightarrow> broker_error option" where
  "check_levels at [] = None"
| "check_levels at (lvl # rest) =
     (if CHR ''+'' \<in> set lvl \<and> lvl \<noteq> ''+'' then Some (PlusOutsideLevel at)
      else if CHR ''#'' \<in> set lvl then
        (if lvl \<noteq> ''#'' then Some (HashOutsideLevel at)
         else if rest \<noteq> [] then Some (HashBeforeEnd at)
         else check_levels at rest)
      else check_levels at rest)"

definition validWildcards :: "position \<Rightarrow> string \<Rightarrow> broker_error option" where
  "validWildcards at pat = check_levels at (SplitOn CHR ''/'' pat)"

fun check_patterns :: "direction \<Rightarrow> nat \<Rightarrow> string \<Rightarrow> string list \<Rightarrow> broker_error option" where
  "check_patterns field i prefix [] = None"
| "check_patterns field i prefix (p # ps) =
     (let at = AtPattern field (i + 1) in
      if p = [] then Some (EmptyPattern at)
      else if length p > maxPattern then Some (LongPattern at)
      else if \<not> HasPrefix p prefix then Some (NotUnderPrefix at)
      else if CHR ''%'' \<in> set p then Some (PercentPattern at)
      else case validWildcards at p of Some e \<Rightarrow> Some e | None \<Rightarrow> check_patterns field (i + 1) prefix ps)"

definition validPatterns :: "direction \<Rightarrow> string list \<Rightarrow> string \<Rightarrow> broker_error option" where
  "validPatterns field pats prefix =
     (if length pats > maxPatterns then Some (TooManyPatterns field (length pats))
      else check_patterns field 0 prefix pats)"

definition Validate_broker :: "BrokerRequest \<Rightarrow> broker_error option" where
  "Validate_broker r =
     (if br_Version r \<noteq> broker_Version then Some (BadVersion (br_Version r))
      else if \<not> nameRE (br_Tenant r) then Some BadTenant
      else if \<not> workloadNameRE (br_Account r) \<or> HasSuffix (br_Account r) ''-'' then Some BadAccount
      else if br_Op r = OpDelete then
        (if br_PasswordHash r \<noteq> [] \<or> length (br_Publish r) > 0 \<or> length (br_Subscribe r) > 0
         then Some DeleteCarriesMore else None)
      else if br_Op r \<noteq> OpPut then Some BadOp
      else case validHash (br_PasswordHash r) of Some e \<Rightarrow> Some e | None \<Rightarrow>
        (case CheckGrant (br_Publish r) (br_Subscribe r) of Some e \<Rightarrow> Some e | None \<Rightarrow>
          (case validPatterns DPublish (br_Publish r) (br_Prefix r) of Some e \<Rightarrow> Some e | None \<Rightarrow>
            validPatterns DSubscribe (br_Subscribe r) (br_Prefix r))))"

section \<open>The API's half: prefixing\<close>

definition PrefixPattern :: "string \<Rightarrow> string \<Rightarrow> broker_error + string" where
  "PrefixPattern tenantName relative =
     (if relative = [] then Inl (EmptyPattern InPattern)
      else if length relative > maxPattern then Inl (LongPattern InPattern)
      else if HasPrefix relative ''/'' then Inl LeadingSlash
      else if HasPrefix relative ''$'' then Inl LeadingDollar
      else if CHR ''%'' \<in> set relative then Inl (PercentPattern InPattern)
      else let absolute = tenantName @ ''/'' @ relative in
        (case validWildcards InPattern absolute of Some e \<Rightarrow> Inl e | None \<Rightarrow> Inr absolute))"

fun prefix_all :: "string \<Rightarrow> direction \<Rightarrow> nat \<Rightarrow> string list \<Rightarrow> string list \<Rightarrow> broker_error + string list" where
  "prefix_all tenantName field i out [] = Inr out"
| "prefix_all tenantName field i out (rel # rels) =
     (case PrefixPattern tenantName rel of
        Inl e \<Rightarrow> Inl (PatternError field (i + 1) e)
      | Inr a \<Rightarrow> prefix_all tenantName field (i + 1) (out @ [a]) rels)"

definition PrefixPatterns :: "string \<Rightarrow> direction \<Rightarrow> string list \<Rightarrow> broker_error + string list" where
  "PrefixPatterns tenantName field relatives =
     (if length relatives = 0 then Inr []
      else if length relatives > maxPatterns then Inl (TooManyPatterns field (length relatives))
      else prefix_all tenantName field 0 [] relatives)"

section \<open>The reserved log level\<close>

definition LogLevel :: string where "LogLevel = ''log''"

text \<open>The loop of \<^verbatim>\<open>touchesLog\<close> over the wanted levels, beside the filter's own.\<close>

fun touches :: "string list \<Rightarrow> string list \<Rightarrow> bool" where
  "touches [] levels = True"
| "touches (want # wants) [] = False"
| "touches (want # wants) (lvl # levels) =
     (if lvl = ''#'' then True
      else if lvl = ''+'' \<or> lvl = want then touches wants levels
      else False)"

definition touchesLog :: "string \<Rightarrow> string \<Rightarrow> bool" where
  "touchesLog tenantName flt = touches [tenantName, LogLevel] (SplitOn CHR ''/'' flt)"

fun check_log_publish :: "string \<Rightarrow> string \<Rightarrow> string \<Rightarrow> string list \<Rightarrow> broker_error option" where
  "check_log_publish tenantName device own [] = None"
| "check_log_publish tenantName device own (p # ps) =
     (if \<not> touchesLog tenantName p then check_log_publish tenantName device own ps
      else if device = [] then Some LogPublishNoDevice
      else if p \<noteq> own then Some (LogPublishOther device)
      else check_log_publish tenantName device own ps)"

fun check_log_subscribe :: "string \<Rightarrow> string \<Rightarrow> string list \<Rightarrow> broker_error option" where
  "check_log_subscribe tenantName device [] = None"
| "check_log_subscribe tenantName device (s # ss) =
     (if \<not> touchesLog tenantName s then check_log_subscribe tenantName device ss
      else if device \<noteq> [] then Some LogSubscribeDevice
      else check_log_subscribe tenantName device ss)"

definition CheckLogGrants :: "string \<Rightarrow> string \<Rightarrow> string list \<Rightarrow> string list \<Rightarrow> broker_error option" where
  "CheckLogGrants tenantName device publish subscribe =
     (let own = tenantName @ ''/'' @ LogLevel @ ''/'' @ device in
      case check_log_publish tenantName device own publish of Some e \<Rightarrow> Some e
      | None \<Rightarrow> check_log_subscribe tenantName device subscribe)"

section \<open>The writer\<close>

text \<open>One row of \<^verbatim>\<open>vmq_auth_acl\<close>, keyed by mount point, client id and username.\<close>

record vmq_row =
  vmq_mountpoint :: string
  vmq_client_id :: string
  vmq_username :: string
  vmq_password :: string
  vmq_publish_acl :: "string list"
  vmq_subscribe_acl :: "string list"

definition vmq_key :: "vmq_row \<Rightarrow> string \<times> string \<times> string" where
  "vmq_key r = (vmq_mountpoint r, vmq_client_id r, vmq_username r)"

definition vmq_update :: "vmq_row \<Rightarrow> vmq_row \<Rightarrow> vmq_row" where
  "vmq_update old new = old\<lparr>vmq_password := vmq_password new,
     vmq_publish_acl := vmq_publish_acl new, vmq_subscribe_acl := vmq_subscribe_acl new\<rparr>"

definition vmq_row_of :: "BrokerRequest \<Rightarrow> vmq_row" where
  "vmq_row_of r = \<lparr>vmq_mountpoint = br_Mountpoint r, vmq_client_id = br_ClientID r,
     vmq_username = br_Username r, vmq_password = br_PasswordHash r,
     vmq_publish_acl = br_Publish r, vmq_subscribe_acl = br_Subscribe r\<rparr>"

definition writer_put :: "BrokerRequest \<Rightarrow> vmq_row list \<Rightarrow> bool \<times> vmq_row list" where
  "writer_put r tbl =
     (get_row vmq_key (vmq_key (vmq_row_of r)) tbl \<noteq> None, upsert_row vmq_key vmq_update (vmq_row_of r) tbl)"

definition writer_del :: "BrokerRequest \<Rightarrow> vmq_row list \<Rightarrow> vmq_row list" where
  "writer_del r tbl = delete_row vmq_key (vmq_key (vmq_row_of r)) tbl"

datatype writer_failure = WInvalid broker_error | WUnavailable | WPutFailed | WRemoveFailed | WUnsupported

record BrokerResponse =
  resp_OK :: bool
  resp_Message :: "writer_failure option"
  resp_Username :: string
  resp_Existed :: bool

definition writer_fail :: "writer_failure \<Rightarrow> BrokerResponse" where
  "writer_fail m = \<lparr>resp_OK = False, resp_Message = Some m, resp_Username = [], resp_Existed = False\<rparr>"

text \<open>
  \<^verbatim>\<open>run\<close> after the configuration is read and the request decoded. \<open>up\<close> says whether the database
  can be reached, \<open>ok\<close> whether the statement succeeds; a failed statement leaves the table as it was.
\<close>

definition writer_run :: "bool \<Rightarrow> bool \<Rightarrow> BrokerRequest \<Rightarrow> vmq_row list \<Rightarrow> BrokerResponse \<times> vmq_row list" where
  "writer_run up ok req tbl =
     (case Validate_broker req of Some e \<Rightarrow> (writer_fail (WInvalid e), tbl)
      | None \<Rightarrow>
          if \<not> up then (writer_fail WUnavailable, tbl)
          else if br_Op req = OpPut then
            (if ok then (let (existed, tbl') = writer_put req tbl in
                (\<lparr>resp_OK = True, resp_Message = None, resp_Username = br_Username req, resp_Existed = existed\<rparr>, tbl'))
             else (writer_fail WPutFailed, tbl))
          else if br_Op req = OpDelete then
            (if ok then (\<lparr>resp_OK = True, resp_Message = None, resp_Username = br_Username req, resp_Existed = False\<rparr>,
                writer_del req tbl)
             else (writer_fail WRemoveFailed, tbl))
          else (writer_fail WUnsupported, tbl))"

section \<open>Topic matching\<close>

text \<open>
  MQTT 3.1.1, section 4.7, on levels: \<^verbatim>\<open>+\<close> matches one level, a final \<^verbatim>\<open>#\<close> any number, the parent
  included.
\<close>

fun filter_matches :: "string list \<Rightarrow> string list \<Rightarrow> bool" where
  "filter_matches [] ts = (ts = [])"
| "filter_matches (f # fs) ts =
     (if f = ''#'' then fs = []
      else (case ts of [] \<Rightarrow> False | t # ts' \<Rightarrow> (f = ''+'' \<or> f = t) \<and> filter_matches fs ts'))"

definition topic_matches :: "string \<Rightarrow> string \<Rightarrow> bool" where
  "topic_matches flt topic = filter_matches (SplitOn CHR ''/'' flt) (SplitOn CHR ''/'' topic)"

text \<open>A topic name is not empty and holds no wildcard.\<close>

definition topic_name :: "string \<Rightarrow> bool" where
  "topic_name t = (t \<noteq> [] \<and> CHR ''+'' \<notin> set t \<and> CHR ''#'' \<notin> set t)"

definition in_log_space :: "string \<Rightarrow> string \<Rightarrow> bool" where
  "in_log_space tenantName topic = (take 2 (SplitOn CHR ''/'' topic) = [tenantName, LogLevel])"

subsection \<open>Confinement to the tenant's prefix\<close>

lemma ValidName_no_wildcard: "ValidName tn \<Longrightarrow> CHR ''+'' \<notin> set tn \<and> CHR ''#'' \<notin> set tn \<and> CHR ''%'' \<notin> set tn"
proof -
  have "c \<in> set (lowers @ digits) \<Longrightarrow> c \<noteq> CHR ''+'' \<and> c \<noteq> CHR ''#'' \<and> c \<noteq> CHR ''%''" for c
    by (auto simp: lowers_def digits_def)
  then show "ValidName tn \<Longrightarrow> ?thesis"
    by (fastforce simp: ValidName_def nameRE_def list_all_iff split: list.splits)
qed

lemma workloadNameRE_no_wildcard: "workloadNameRE s \<Longrightarrow> CHR ''+'' \<notin> set s \<and> CHR ''#'' \<notin> set s"
proof -
  have "c \<in> set (lowers @ digits @ ''-'') \<Longrightarrow> c \<noteq> CHR ''+'' \<and> c \<noteq> CHR ''#''" for c
    by (auto simp: lowers_def digits_def)
  then show "workloadNameRE s \<Longrightarrow> ?thesis"
    by (fastforce simp: workloadNameRE_def list_all_iff split: list.splits)
qed

lemma prefixed_levels:
  "ValidName tn \<Longrightarrow> SplitOn CHR ''/'' (tn @ CHR ''/'' # p) = tn # SplitOn CHR ''/'' p"
  using ValidName_no_dot[of tn] by (simp add: SplitOn_append)

lemma under_prefix_confined:
  assumes "ValidName tn" "HasPrefix p (tn @ ''/'')" "topic_matches p topic"
  shows "hd (SplitOn CHR ''/'' topic) = tn"
proof -
  from assms(2) obtain q where "p = tn @ ''/'' @ q" by (auto simp: HasPrefix_iff)
  moreover have "tn \<noteq> ''#''" "tn \<noteq> ''+''" using ValidName_no_wildcard[OF assms(1)] by auto
  ultimately show ?thesis
    using assms(1,3) by (auto simp: topic_matches_def prefixed_levels split: list.splits)
qed

lemma PrefixPattern_prefix: "PrefixPattern tn rel = Inr a \<Longrightarrow> a = tn @ ''/'' @ rel"
  by (auto simp: PrefixPattern_def Let_def split: if_splits option.splits)

lemma check_levels_position: "check_levels at ls = None \<longleftrightarrow> check_levels at' ls = None"
  by (induction ls) auto

lemma PrefixPattern_writer:
  "PrefixPattern tn rel = Inr a \<Longrightarrow> ValidName tn \<Longrightarrow> length a \<le> maxPattern \<Longrightarrow>
     check_patterns field i (tn @ ''/'') (a # ps) = check_patterns field (i + 1) (tn @ ''/'') ps"
  using ValidName_no_wildcard[of tn]
    check_levels_position[of InPattern "SplitOn CHR ''/'' a" "AtPattern field (Suc i)"]
  by (auto simp: PrefixPattern_def validWildcards_def Let_def HasPrefix_iff split: if_splits option.splits)

lemma prefix_all_out:
  "prefix_all tn field i out rels = Inr res \<Longrightarrow>
     \<exists>new. res = out @ new \<and> length new = length rels \<and> (\<forall>a \<in> set new. \<exists>rel \<in> set rels. PrefixPattern tn rel = Inr a)"
proof (induction rels arbitrary: i out)
  case (Cons rel rels)
  then obtain a where a: "PrefixPattern tn rel = Inr a" "prefix_all tn field (i + 1) (out @ [a]) rels = Inr res"
    by (auto split: sum.splits)
  from Cons.IH[OF a(2)] obtain new where
    "res = (out @ [a]) @ new" "length new = length rels" "\<forall>a \<in> set new. \<exists>rel \<in> set rels. PrefixPattern tn rel = Inr a"
    by blast
  with a(1) show ?case by (intro exI[of _ "a # new"]) auto
qed simp

lemma PrefixPatterns_out:
  assumes "PrefixPatterns tn field rels = Inr res"
  shows "length res = length rels \<and> length rels \<le> maxPatterns \<and>
    (\<forall>a \<in> set res. \<exists>rel \<in> set rels. PrefixPattern tn rel = Inr a)"
  using assms prefix_all_out[of tn field 0 "[]" rels res]
  by (auto simp: PrefixPatterns_def split: if_splits)

lemma check_patterns_prefixed:
  "ValidName tn \<Longrightarrow> (\<forall>a \<in> set as. length a \<le> maxPattern \<and> (\<exists>rel. PrefixPattern tn rel = Inr a)) \<Longrightarrow>
     check_patterns field i (tn @ ''/'') as = None"
proof (induction as arbitrary: i)
  case (Cons a as)
  then obtain rel where "PrefixPattern tn rel = Inr a" "length a \<le> maxPattern" by auto
  with Cons show ?case by (simp only: PrefixPattern_writer) simp
qed simp

lemma PrefixPatterns_writer:
  assumes "PrefixPatterns tn field rels = Inr res" "ValidName tn" "\<forall>a \<in> set res. length a \<le> maxPattern"
  shows "validPatterns field res (tn @ ''/'') = None"
  using PrefixPatterns_out[OF assms(1)] assms
  by (auto simp: validPatterns_def intro!: check_patterns_prefixed)

lemma check_patterns_sound:
  "check_patterns field i prefix pats = None \<Longrightarrow>
     \<forall>p \<in> set pats. p \<noteq> [] \<and> HasPrefix p prefix \<and> check_levels InPattern (SplitOn CHR ''/'' p) = None"
proof (induction pats arbitrary: i)
  case (Cons p ps)
  then show ?case
    using check_levels_position by (auto simp: Let_def validWildcards_def split: if_splits option.splits)
qed simp

lemma Validate_broker_put:
  assumes "Validate_broker r = None" "br_Op r = OpPut"
  shows "ValidName (br_Tenant r) \<and> ValidWorkloadName (br_Account r) \<and>
    (\<forall>p \<in> set (br_Publish r) \<union> set (br_Subscribe r). HasPrefix p (br_Tenant r @ ''/'')) \<and>
    (br_Publish r \<noteq> [] \<or> br_Subscribe r \<noteq> [])"
  using assms check_patterns_sound
  by (fastforce simp: Validate_broker_def validPatterns_def br_Prefix_def ValidName_def ValidWorkloadName_def
      CheckGrant_def OpPut_def OpDelete_def split: if_splits option.splits)

subsection \<open>The log level is judged as the broker will match it\<close>

lemma filter_has_topic:
  "check_levels at fs = None \<Longrightarrow>
     \<exists>ts. filter_matches fs ts \<and> (\<forall>t \<in> set ts. CHR ''+'' \<notin> set t \<and> CHR ''#'' \<notin> set t)"
proof (induction fs)
  case (Cons f fs)
  show ?case
  proof (cases "f = ''#''")
    case True
    with Cons.prems show ?thesis by (intro exI[of _ "[]"]) (auto split: if_splits)
  next
    case False
    with Cons.prems have "check_levels at fs = None" by (simp split: if_splits)
    with Cons.IH obtain ts where ts: "filter_matches fs ts" "\<forall>t \<in> set ts. CHR ''+'' \<notin> set t \<and> CHR ''#'' \<notin> set t"
      by blast
    have "f = ''+'' \<or> CHR ''+'' \<notin> set f \<and> CHR ''#'' \<notin> set f"
      using Cons.prems False by (auto split: if_splits)
    with ts False show ?thesis
      by (intro exI[of _ "(if f = ''+'' then ''x'' else f) # ts"]) auto
  qed
qed simp

lemma touches_iff:
  "check_levels at fs = None \<Longrightarrow> \<forall>w \<in> set ws. w \<noteq> ''#'' \<and> w \<noteq> ''+'' \<Longrightarrow>
     touches ws fs \<longleftrightarrow>
       (\<exists>ts. filter_matches fs (ws @ ts) \<and> (\<forall>t \<in> set ts. CHR ''+'' \<notin> set t \<and> CHR ''#'' \<notin> set t))"
proof (induction ws fs rule: touches.induct)
  case (1 fs)
  then show ?case using filter_has_topic by simp
next
  case (3 w ws f fs)
  have "f = ''#'' \<Longrightarrow> fs = []" using 3(2) by (simp split: if_splits)
  moreover have "f \<noteq> ''#'' \<Longrightarrow> check_levels at fs = None" using 3(2) by (simp split: if_splits)
  ultimately show ?case using 3(1,3) by (cases "f = ''#''") (auto intro: exI[of _ "[]"])
qed auto

lemma check_log_publish_sound:
  "check_log_publish tn dev own pub = None \<Longrightarrow>
     \<forall>p \<in> set pub. touchesLog tn p \<longrightarrow> dev \<noteq> [] \<and> p = own"
  by (induction pub) (auto split: if_splits)

lemma check_log_subscribe_sound:
  "check_log_subscribe tn dev sub = None \<Longrightarrow> \<forall>s \<in> set sub. touchesLog tn s \<longrightarrow> dev = []"
  by (induction sub) (auto split: if_splits)

lemma matches_touches:
  assumes "topic_matches flt topic" "in_log_space tn topic"
  shows "touchesLog tn flt"
proof -
  obtain a b ts where t: "SplitOn CHR ''/'' topic = a # b # ts" "a = tn" "b = LogLevel"
    using assms(2) by (cases "SplitOn CHR ''/'' topic"; cases "tl (SplitOn CHR ''/'' topic)")
      (auto simp: in_log_space_def)
  have "filter_matches fs (tn # LogLevel # ts) \<Longrightarrow> touches [tn, LogLevel] fs" for fs
    by (cases fs; cases "tl fs") (auto split: if_splits)
  with assms(1) t show ?thesis by (simp add: topic_matches_def touchesLog_def)
qed

lemma literal_filter_matches:
  "\<forall>f \<in> set fs. f \<noteq> ''#'' \<and> f \<noteq> ''+'' \<Longrightarrow> filter_matches fs ts \<longleftrightarrow> ts = fs"
  by (induction fs arbitrary: ts) (auto split: list.splits)

lemma own_log_topic:
  assumes "ValidName tn" "workloadNameRE dev" "topic_matches (tn @ ''/'' @ LogLevel @ ''/'' @ dev) topic"
  shows "topic = tn @ ''/'' @ LogLevel @ ''/'' @ dev"
proof -
  have "SplitOn CHR ''/'' (tn @ ''/'' @ LogLevel @ ''/'' @ dev) = [tn, LogLevel, dev]"
    using assms(1) workloadNameRE_no_dot[OF assms(2)]
    by (simp add: prefixed_levels SplitOn_append SplitOn_no_sep LogLevel_def)
  moreover have "\<forall>f \<in> set [tn, LogLevel, dev]. f \<noteq> ''#'' \<and> f \<noteq> ''+''"
    using ValidName_no_wildcard[OF assms(1)] workloadNameRE_no_wildcard[OF assms(2)] by (auto simp: LogLevel_def)
  ultimately have "SplitOn CHR ''/'' topic = SplitOn CHR ''/'' (tn @ ''/'' @ LogLevel @ ''/'' @ dev)"
    using assms(3) by (simp only: topic_matches_def literal_filter_matches)
  then show ?thesis by (rule SplitOn_inj)
qed

subsection \<open>The writer's table\<close>

interpretation vmq: keyed_table vmq_key vmq_update
  by unfold_locales (simp add: vmq_key_def vmq_update_def)

lemma br_Username_inj:
  assumes "ValidName (br_Tenant a)" "ValidName (br_Tenant b)" "br_Username a = br_Username b"
  shows "br_Tenant a = br_Tenant b \<and> br_Account a = br_Account b"
  using assms ValidName_no_dot[of "br_Tenant a"] ValidName_no_dot[of "br_Tenant b"]
  by (simp add: br_Username_def append_sep_inj)

text \<open>
  What the table holds for a tenant: a row under the tenant's own name, whose filters all lie under
  the tenant's prefix.
\<close>

definition vmq_confined :: "vmq_row \<Rightarrow> bool" where
  "vmq_confined r =
     (\<exists>tn account. ValidName tn \<and> vmq_username r = tn @ ''-'' @ account \<and>
        (\<forall>p \<in> set (vmq_publish_acl r) \<union> set (vmq_subscribe_acl r). HasPrefix p (tn @ ''/'')))"

lemma vmq_confined_put:
  "Validate_broker r = None \<Longrightarrow> br_Op r = OpPut \<Longrightarrow> vmq_confined (vmq_row_of r)"
  using Validate_broker_put[of r] by (auto simp: vmq_confined_def vmq_row_of_def br_Username_def)

lemma vmq_update_row_of:
  "vmq_key old = vmq_key (vmq_row_of r) \<Longrightarrow> vmq_update old (vmq_row_of r) = vmq_row_of r"
  by (cases old) (simp add: vmq_update_def vmq_key_def vmq_row_of_def)

lemma writer_put_rows: "x \<in> set (snd (writer_put r tbl)) \<Longrightarrow> x = vmq_row_of r \<or> x \<in> set tbl"
  using vmq.set_upsert[of x "vmq_row_of r" tbl] vmq_update_row_of by (auto simp: writer_put_def)

lemma writer_put_get:
  "get_row vmq_key (vmq_key (vmq_row_of r)) (snd (writer_put r tbl)) = Some (vmq_row_of r)"
  using vmq_update_row_of get_row_Some by (fastforce simp: writer_put_def vmq.get_upsert split: option.splits)

section \<open>Properties of the component\<close>

text \<open>What the API lets a tenant name is inside the tenant's own topics: the absolute filter it builds
  from a relative one matches no topic whose first level is not the tenant, wildcards included.\<close>

lemma granted_filters_confined:
  assumes "ValidName tn" "PrefixPattern tn rel = Inr a" "topic_matches a topic"
  shows "hd (SplitOn CHR ''/'' topic) = tn"
  using under_prefix_confined[OF assms(1) _ assms(3)] PrefixPattern_prefix[OF assms(2)]
  by (simp add: HasPrefix_iff)

text \<open>A filter is judged to touch the reserved log topics exactly when it matches one: \<^verbatim>\<open>touchesLog\<close>
  answers true for a well-formed filter if and only if some topic, without wildcards, under the tenant's
  log level matches it as MQTT matches filters.\<close>

lemma touchesLog_exact:
  assumes "ValidName tn" "validWildcards InPattern flt = None"
  shows "touchesLog tn flt =
    (\<exists>ts. filter_matches (SplitOn CHR ''/'' flt) (tn # LogLevel # ts) \<and>
       (\<forall>t \<in> set ts. CHR ''+'' \<notin> set t \<and> CHR ''#'' \<notin> set t))"
proof -
  have "\<forall>w \<in> set [tn, LogLevel]. w \<noteq> ''#'' \<and> w \<noteq> ''+''"
    using ValidName_no_wildcard[OF assms(1)] by (auto simp: LogLevel_def)
  from touches_iff[OF _ this, of InPattern "SplitOn CHR ''/'' flt"] assms(2) show ?thesis
    by (simp add: touchesLog_def validWildcards_def)
qed

text \<open>With grants that pass \<^verbatim>\<open>CheckLogGrants\<close>, an account can publish to a log topic only when it is a
  device's, and then only to that device's own; and a device's account reads no log topic at all.\<close>

lemma log_grants_isolate:
  assumes "CheckLogGrants tn dev pub sub = None" "ValidName tn" "dev = [] \<or> workloadNameRE dev"
    and "in_log_space tn topic"
  shows "(\<forall>p \<in> set pub. topic_matches p topic \<longrightarrow> dev \<noteq> [] \<and> topic = tn @ ''/'' @ LogLevel @ ''/'' @ dev) \<and>
    (\<forall>s \<in> set sub. topic_matches s topic \<longrightarrow> dev = [])"
proof -
  have grants: "check_log_publish tn dev (tn @ ''/'' @ LogLevel @ ''/'' @ dev) pub = None"
    "check_log_subscribe tn dev sub = None"
    using assms(1) by (auto simp: CheckLogGrants_def Let_def split: option.splits)
  have touch: "topic_matches flt topic \<Longrightarrow> touchesLog tn flt" for flt
    using matches_touches assms(4) by blast
  show ?thesis
  proof (intro conjI ballI impI)
    fix p
    assume p: "p \<in> set pub" "topic_matches p topic"
    with check_log_publish_sound[OF grants(1)] touch show "dev \<noteq> []" by blast
    moreover have "p = tn @ ''/'' @ LogLevel @ ''/'' @ dev"
      using check_log_publish_sound[OF grants(1)] touch p by blast
    ultimately show "topic = tn @ ''/'' @ LogLevel @ ''/'' @ dev"
      using own_log_topic[OF assms(2)] assms(3) p(2) by blast
  next
    fix s
    assume "s \<in> set sub" "topic_matches s topic"
    then show "dev = []" using check_log_subscribe_sound[OF grants(2)] touch by blast
  qed
qed

text \<open>What the writer's table must satisfy, and that every run keeps it.\<close>

definition vmq_safe :: "vmq_row list \<Rightarrow> bool" where
  "vmq_safe tbl = (unique_on vmq_key tbl \<and> list_all vmq_confined tbl)"

lemma vmq_safe_Nil: "vmq_safe []"
  by (simp add: vmq_safe_def unique_on_def)

lemma writer_run_safe: "vmq_safe tbl \<Longrightarrow> vmq_safe (snd (writer_run up ok req tbl))"
proof -
  assume safe: "vmq_safe tbl"
  have "vmq_safe (snd (writer_put req tbl))" if "Validate_broker req = None" "br_Op req = OpPut"
  proof -
    have "unique_on vmq_key (snd (writer_put req tbl))"
      using safe vmq.unique_upsert by (simp add: vmq_safe_def writer_put_def)
    then show ?thesis
      using safe writer_put_rows[of _ req tbl] vmq_confined_put[OF that] by (auto simp: vmq_safe_def list_all_iff)
  qed
  moreover have "vmq_safe (writer_del req tbl)"
    using safe by (auto simp: vmq_safe_def writer_del_def list_all_iff set_delete_row unique_delete_row)
  ultimately show ?thesis
    using safe by (auto simp: writer_run_def Let_def split: option.splits prod.splits)
qed

interpretation writer: state_machine "\<lambda>tbl. tbl = []" "\<lambda>tbl tbl'. \<exists>up ok req. tbl' = snd (writer_run up ok req tbl)"
    vmq_safe
  by unfold_locales (auto simp: vmq_safe_Nil intro: writer_run_safe)

text \<open>Whatever requests reach the broker's writer, well-formed or not, and whether the database answers
  or not, every row it leaves in the auth table belongs to one tenant and grants only filters under that
  tenant's prefix, and no account has two rows.\<close>

lemma writer_table_confined:
  "vmq_safe (fold (\<lambda>(up, ok, req) tbl. snd (writer_run up ok req tbl)) runs [])"
proof -
  have "(\<lambda>tbl tbl'. \<exists>up ok req. tbl' = snd (writer_run up ok req tbl))\<^sup>*\<^sup>* tbl
      (fold (\<lambda>(up, ok, req) tbl. snd (writer_run up ok req tbl)) runs tbl)" for tbl
  proof (induction runs arbitrary: tbl)
    case (Cons run runs)
    obtain up ok req where run: "run = (up, ok, req)" by (cases run)
    show ?case
      using Cons.IH[of "snd (writer_run up ok req tbl)"] unfolding run
      by (auto intro: converse_rtranclp_into_rtranclp)
  qed simp
  then show ?thesis by (rule writer.inv_reachable[OF refl])
qed

text \<open>The API can hand the writer a grant the writer refuses: a relative filter of 256 bytes passes
  \<^verbatim>\<open>PrefixPattern\<close>, which bounds the relative form, and the absolute form it becomes is over the bound
  the writer applies.\<close>

lemma long_filter_disagreement:
  assumes "ValidName tn"
  shows "PrefixPattern tn (replicate 256 CHR ''a'') = Inr (tn @ ''/'' @ replicate 256 CHR ''a'') \<and>
    validPatterns field [tn @ ''/'' @ replicate 256 CHR ''a''] (tn @ ''/'') = Some (LongPattern (AtPattern field 1))"
proof -
  define big where "big = replicate 256 CHR ''a''"
  have big: "length big = 256" "set big = {CHR ''a''}"
    unfolding big_def by (simp_all only: length_replicate set_replicate_conv_if) simp
  then obtain xs where xs: "big = CHR ''a'' # xs" by (cases big) auto
  have "SplitOn CHR ''/'' (tn @ ''/'' @ big) = [tn, big]"
    using assms big(2) by (simp add: prefixed_levels SplitOn_no_sep)
  moreover have "check_levels InPattern [tn, big] = None"
    using ValidName_no_wildcard[OF assms] big(2) by simp
  moreover have "\<not> HasPrefix big ''/''" "\<not> HasPrefix big ''$''" by (simp_all add: xs HasPrefix_def)
  ultimately have "PrefixPattern tn big = Inr (tn @ ''/'' @ big)"
    using big by (simp add: PrefixPattern_def validWildcards_def maxPattern_def Let_def) (simp add: xs)
  moreover have "validPatterns field [tn @ ''/'' @ big] (tn @ ''/'') = Some (LongPattern (AtPattern field 1))"
    using big(1) by (simp add: validPatterns_def maxPatterns_def maxPattern_def Let_def)
  ultimately show ?thesis unfolding big_def by blast
qed

end
