(* ===== verification/Tenant.thy ===== *)
theory Tenant
  imports BrokerContract
begin

text \<open>
  \<^verbatim>\<open>internal/tenant/tenant.go\<close>: the data the service, the store and the backends exchange, the errors,
  and the checks on passwords and MAC addresses. Timestamps the database fills in are not modelled: a
  table keeps its rows in the order they were created. An \<^verbatim>\<open>invalid(...)\<close> is a constructor of
  \<open>reason\<close> carrying the values the message formats; the text itself is not modelled. An error with
  \<^verbatim>\<open>%w\<close> or an \<^verbatim>\<open>Unwrap\<close> method keeps the error inside it, and \<open>errors_is\<close> unwraps as \<^verbatim>\<open>errors.Is\<close> does.
\<close>

section \<open>Status and steps\<close>

datatype status = StatusProvisioning | StatusReady | StatusDeleting

datatype step =
    StepDNS | StepResolver | StepState | StepNetwork | StepWiFiKey | StepBroker | StepAddress
  | StepLogStore | StepDashboard | StepCertificate | StepFabric | StepWorkload | StepEnrollment

section \<open>Errors\<close>

datatype tenant_reason =
    RName | RReserved string | RIndex | RThreeSecrets | RTSIG | RStateSecret | RTokenNotIssued string
  | RFinishDeleting string status | RTenantIs string status | RMAC string | RClassNotServed string "string list"
  | RAdmissionClass string

datatype workload_reason =
    RNoCompute | RWorkloadName | RNegativeSizes | RRecordName | ROutsideSubnet string string

datatype wifi_reason = RNoWireless | RKeyName | RPSK | RKeyClass string string

datatype device_reason =
    RDeviceName | RDeviceClass string string | RClearMAC string string | RRemoveAddress string string

datatype address_reason =
    RNoReservations | RDeviceUnknown string | RDeviceNoMAC string | RNoRange string
  | RNotInRange string addr addr | RHoldsOther string string | RNameWorkload string | RNameRecord string
  | RNameDevice string | RRecordPoints string string

datatype broker_reason =
    RNoBroker | RAccountName | RBrokerDevice string | RBrokerClass string string | RContract broker_error

datatype certificate_reason =
    RNoCertificates | RTooManyCertificates nat | RCertName | RCertReserved string | RCertLabel string
  | RCertTwice string | RCertCount nat | RCertSite string "string list" | RCertSiteTwice string

datatype csr_reason =
    RCSROne | RCSRAfter | RCSRUnreadable | RCSRSignature | RCSRBits nat | RCSRCurve string | RCSRKey

datatype reason =
    ForTenant tenant_reason | ForWorkload workload_reason | ForWiFi wifi_reason | ForDevice device_reason
  | ForAddress address_reason | ForBroker broker_reason | ForCertificate certificate_reason | ForCSR csr_reason

datatype err =
    ErrNotFound | ErrExists | ErrExhausted | ErrFabricInUse | ErrSecretsUnavailable | ErrNotRedeemable
  | ErrNoEnrollment | ErrHasWorkloads | ErrWorkloadsExhausted | ErrAddressConflict | ErrAddressesExhausted
  | ErrAddressQuota
  | InvalidError reason
  | StepError step err
  | Wrapped string err
  | ErrOther string

abbreviation invalid :: "reason \<Rightarrow> err" where
  "invalid \<equiv> InvalidError"

fun errors_is :: "err \<Rightarrow> err \<Rightarrow> bool" where
  "errors_is (StepError s e) t = (StepError s e = t \<or> errors_is e t)"
| "errors_is (Wrapped m e) t = (Wrapped m e = t \<or> errors_is e t)"
| "errors_is e t = (e = t)"

section \<open>Registry data\<close>

record Secrets =
  sec_TSIG :: string
  sec_State :: string
  sec_APITokenHash :: string
  sec_LogIngest :: string
  sec_LogRead :: string
  sec_DashboardPassword :: string
  sec_Unreadable :: bool

definition no_secrets :: Secrets where
  "no_secrets = \<lparr>sec_TSIG = [], sec_State = [], sec_APITokenHash = [], sec_LogIngest = [],
     sec_LogRead = [], sec_DashboardPassword = [], sec_Unreadable = False\<rparr>"

text \<open>The stored text of a step's error is modelled by the error itself.\<close>

record Step =
  st_Name :: step
  st_OK :: bool
  st_Error :: "err option"

record Workload =
  wl_Tenant :: string
  wl_Name :: string
  wl_Ordinal :: int
  wl_VMID :: int
  wl_MAC :: string
  wl_Address :: string
  wl_Cores :: int
  wl_MemoryMB :: int
  wl_DiskGB :: int
  wl_SSHKeys :: "string list"
  wl_Status :: status

record ExtraRecord =
  er_Tenant :: string
  er_Name :: string
  er_Address :: string

record WiFiKey =
  wk_Tenant :: string
  wk_Name :: string
  wk_TrustClass :: string
  wk_PSK :: string
  wk_MAC :: string
  wk_Unreadable :: bool
  wk_Status :: status

record AdmissionKey =
  ak_Tenant :: string
  ak_PSK :: string
  ak_MAC :: string
  ak_Unreadable :: bool

record Device =
  dv_Tenant :: string
  dv_Name :: string
  dv_TrustClass :: string
  dv_MAC :: string
  dv_Status :: status

record DeviceAddress =
  da_Tenant :: string
  da_Device :: string
  da_TrustClass :: string
  da_Address :: string
  da_MAC :: string
  da_Status :: status

record BrokerAccount =
  ba_Tenant :: string
  ba_Name :: string
  ba_Device :: string
  ba_Publish :: "string list"
  ba_Subscribe :: "string list"
  ba_PasswordHash :: string
  ba_Status :: status

record Certificate =
  ct_Tenant :: string
  ct_Name :: string
  ct_Names :: "string list"
  ct_KeyFingerprint :: string
  ct_Serial :: string
  ct_NotBefore :: int
  ct_NotAfter :: int
  ct_PEM :: string
  ct_Chain :: string

record Record =
  rec_Name :: string
  rec_Index :: int
  rec_Status :: status
  rec_Secrets :: Secrets
  rec_DashboardOrg :: int
  rec_Steps :: "Step list"

definition no_record :: Record where
  "no_record = \<lparr>rec_Name = [], rec_Index = 0, rec_Status = StatusProvisioning, rec_Secrets = no_secrets,
     rec_DashboardOrg = 0, rec_Steps = []\<rparr>"

datatype Outcome = OutcomeCreated | OutcomeRestored | OutcomeReissued | OutcomeResumed | OutcomeReconciled

text \<open>
  An audit entry: the actor, the tenant, and the action with the values of its detail map. The
  action's name in the log is the one in the comment of each constructor's group.
\<close>

datatype action =
    ActCreate int int Outcome
  | ActRestore Outcome int int
  | ActReconcile int
  | ActDelete int
  | ActWorkloadCreate string int int
  | ActWorkloadDelete string int
  | ActRecordPut string string
  | ActRecordDelete string
  | ActAdmit int bool bool
  | ActAdmissionRevoke bool
  | ActEnrollmentMismatch string
  | ActEnroll
  | ActWiFiKeyCreate string string int string
  | ActWiFiKeyDelete string string
  | ActDeviceCreate string string string
  | ActDeviceDelete string string
  | ActAddressCreate string string string string
  | ActAddressDelete string string
  | ActBrokerCreate string string "string list" "string list"
  | ActBrokerDelete string
  | ActCertificateIssue string "string list" string string int
  | ActCertificateDelete string string int

record AuditEntry =
  au_Actor :: string
  au_Action :: action
  au_Tenant :: string

section \<open>What the backends are asked\<close>

record DNSTenant =
  dns_KeyName :: string
  dns_Algorithm :: string
  dns_Secret :: string
  dns_Zones :: "string list"
  dns_ApexNS :: string
  dns_UpdateFrom :: "string list"

record DNSRecord =
  dr_Name :: string
  dr_Address :: string
  dr_Reverse :: bool

record Forward =
  fw_Domain :: string
  fw_Server :: string
  fw_Description :: string

record StateTenant =
  ss_User :: string
  ss_Secret :: string
  ss_Bucket :: string
  ss_Prefix :: string

record WiFiKeySpec =
  ws_SSID :: string
  ws_Name :: string
  ws_PSK :: string
  ws_VLAN :: int
  ws_MAC :: string

record Reservation =
  rv_Subnet :: string
  rv_Address :: string
  rv_MAC :: string
  rv_Hostname :: string
  rv_Description :: string

record LogTenant =
  lt_Name :: string
  lt_Index :: int
  lt_IngestToken :: string
  lt_ReadToken :: string

record DashTenant =
  dt_Name :: string
  dt_Index :: int
  dt_Password :: string
  dt_ReadToken :: string

record WorkloadSpec =
  sp_Name :: string
  sp_Node :: string
  sp_VMID :: int
  sp_MAC :: string
  sp_Bridge :: string
  sp_Address :: string
  sp_Gateway :: string
  sp_Nameserver :: string
  sp_Cores :: int
  sp_MemoryMB :: int
  sp_DiskGB :: int
  sp_Disk :: string
  sp_Storage :: string
  sp_CIUser :: string
  sp_SSHKeys :: "string list"
  sp_Tags :: "string list"
  sp_TemplatePrefix :: string

record Claim =
  cl_Index :: int
  cl_Zone :: string

record SignedCertificate =
  sg_Certificate :: string
  sg_Chain :: "string list"

text \<open>One constructor per method of a backend interface, with the method's arguments.\<close>

datatype call =
    CDNSEnsure DNSTenant
  | CDNSRemove DNSTenant
  | CEnsureRecords string string "DNSRecord list"
  | CRemoveRecords string string "DNSRecord list"
  | CResolverEnsure "Forward list"
  | CResolverRemove "string list"
  | CStateEnsure StateTenant
  | CStateRemove string
  | CNetworkEnsure NetworkSpec
  | CNetworkRemove NetworkSpec
  | CEnsureWorkload WorkloadSpec
  | CRemoveWorkload string int
  | CEnsureKey WiFiKeySpec
  | CRemoveKey string string
  | CEnsureReservation Reservation
  | CRemoveReservation string
  | CBrokerPut BrokerAccount
  | CBrokerRemove string string
  | CLogPut LogTenant
  | CLogRemove string int
  | CDashEnsure DashTenant
  | CDashRemove string
  | CSignServer string "string list"
  | CClaims
  | CWrap "(string \<times> string) list" int
  | CUnwrap string

section \<open>Passwords and MAC addresses\<close>

definition visible :: "char \<Rightarrow> bool" where
  "visible c = (0x21 \<le> (of_char c :: nat) \<and> (of_char c :: nat) \<le> 0x7E)"

definition ValidPSK :: "string \<Rightarrow> bool" where
  "ValidPSK s = (\<not> (length s < 8 \<or> length s > 63) \<and> list_all visible s)"

text \<open>
  The first loop of \<^verbatim>\<open>NormalizeMAC\<close>: the hex digits in lower case, or nothing at a character that is
  neither one nor a separator.
\<close>

definition upper_hex :: "char \<Rightarrow> bool" where
  "upper_hex c = (c \<in> set ''ABCDEF'')"

definition lower_hex :: "char \<Rightarrow> char" where
  "lower_hex c = (if upper_hex c then char_of ((of_char c :: nat) + 32) else c)"

fun mac_digits :: "string \<Rightarrow> string option" where
  "mac_digits [] = Some []"
| "mac_digits (c # cs) =
     (if c = CHR '':'' \<or> c = CHR ''-'' then mac_digits cs
      else if c \<in> set hexdigits \<or> upper_hex c then map_option (\<lambda>h. lower_hex c # h) (mac_digits cs)
      else None)"

fun mac_join :: "string \<Rightarrow> string" where
  "mac_join (a # b # c # cs) = a # b # CHR '':'' # mac_join (c # cs)"
| "mac_join cs = cs"

definition NormalizeMAC :: "string \<Rightarrow> string option" where
  "NormalizeMAC s =
     (case mac_digits s of None \<Rightarrow> None
      | Some h \<Rightarrow> if length h \<noteq> 12 then None else Some (mac_join h))"

text \<open>\<^verbatim>\<open>strings.ToUpper(strings.ReplaceAll(normalized, ":", "-"))\<close> on ASCII.\<close>

definition to_upper :: "char \<Rightarrow> char" where
  "to_upper c = (if c \<in> set lowers then char_of ((of_char c :: nat) - 32) else c)"

definition ControllerMAC :: "string \<Rightarrow> string" where
  "ControllerMAC normalized = map (\<lambda>c. if c = CHR '':'' then CHR ''-'' else to_upper c) normalized"

section \<open>Errors unwrap\<close>

lemma errors_is_refl [simp]: "errors_is e e"
  by (cases e) auto

lemma errors_is_StepError [simp]:
  "errors_is (StepError s e) ErrNotFound = errors_is e ErrNotFound"
  "errors_is (StepError s e) ErrSecretsUnavailable = errors_is e ErrSecretsUnavailable"
  by auto

section \<open>Normalised MACs are canonical\<close>

definition canonical_mac :: "string \<Rightarrow> bool" where
  "canonical_mac m = (\<exists>h. length h = 12 \<and> set h \<subseteq> set hexdigits \<and> m = mac_join h)"

lemma lower_hex_digit: "c \<in> set hexdigits \<Longrightarrow> lower_hex c = c"
  by (auto simp: hexdigits_def lower_hex_def upper_hex_def)

lemma lower_hex_in: "c \<in> set hexdigits \<or> upper_hex c \<Longrightarrow> lower_hex c \<in> set hexdigits"
proof (elim disjE)
  assume "upper_hex c"
  then have "c \<in> set ''ABCDEF''" by (simp add: upper_hex_def)
  then show "lower_hex c \<in> set hexdigits"
    by (elim set_ConsD[elim_format] disjE) (auto simp: lower_hex_def upper_hex_def hexdigits_def char_of_def bit_0)
qed (simp add: lower_hex_digit)

lemma mac_digits_hex: "mac_digits s = Some h \<Longrightarrow> set h \<subseteq> set hexdigits"
proof (induction s arbitrary: h)
  case (Cons c cs)
  then show ?case using lower_hex_in[of c] by (auto split: if_splits)
qed simp

lemma hexdigits_not_sep: "c \<in> set hexdigits \<Longrightarrow> c \<noteq> CHR '':'' \<and> c \<noteq> CHR ''-''"
  by (auto simp: hexdigits_def)

lemma mac_digits_join: "set h \<subseteq> set hexdigits \<Longrightarrow> mac_digits (mac_join h) = Some h"
  by (induction h rule: mac_join.induct) (auto dest: hexdigits_not_sep simp: lower_hex_digit)

lemma NormalizeMAC_canonical: "NormalizeMAC s = Some m \<Longrightarrow> canonical_mac m"
  using mac_digits_hex[of s] by (auto simp: NormalizeMAC_def canonical_mac_def split: option.splits if_splits)

lemma NormalizeMAC_of_canonical: "canonical_mac m \<Longrightarrow> NormalizeMAC m = Some m"
  by (auto simp: canonical_mac_def NormalizeMAC_def mac_digits_join)

lemma mac_digits_ignores_separators:
  "mac_digits (filter (\<lambda>c. c \<noteq> CHR '':'' \<and> c \<noteq> CHR ''-'') s) = mac_digits s"
  by (induction s) auto

section \<open>Properties of the component\<close>

text \<open>A MAC address has one form in the registry: what \<^verbatim>\<open>NormalizeMAC\<close> accepts it turns into twelve
  lower-case hex digits in pairs with colons, which it maps to itself; separators in the input do not
  matter, so two spellings of an address compare equal.\<close>

lemma NormalizeMAC_one_form:
  assumes "NormalizeMAC s = Some m"
  shows "canonical_mac m \<and> length m = 17 \<and> NormalizeMAC m = Some m \<and>
    NormalizeMAC (filter (\<lambda>c. c \<noteq> CHR '':'' \<and> c \<noteq> CHR ''-'') s) = Some m"
proof -
  note can = NormalizeMAC_canonical[OF assms]
  have "length (mac_join h) = 17" if "length h = 12" for h :: string
    using that by (auto simp: length_Suc_conv eval_nat_numeral)
  with can have "length m = 17" by (auto simp: canonical_mac_def)
  moreover have "NormalizeMAC (filter (\<lambda>c. c \<noteq> CHR '':'' \<and> c \<noteq> CHR ''-'') s) = Some m"
    using assms by (simp add: NormalizeMAC_def mac_digits_ignores_separators)
  ultimately show ?thesis using can NormalizeMAC_of_canonical by blast
qed

end
