(* ===== verification/Tokens.thy ===== *)
theory Tokens
  imports Tenant
begin

text \<open>
  \<^verbatim>\<open>internal/tenant/token.go\<close> and the part of \<^verbatim>\<open>encoding/base64\<close> the service uses. HMAC-SHA256 is a
  parameter, a function from key and message to bytes; nothing is assumed of it, so what is proved is
  the token's shape: a token that verifies is exactly one built by \<^verbatim>\<open>Issue\<close> for that tenant, and one
  that \<^verbatim>\<open>Issue\<close> built verifies.
\<close>

section \<open>Base64\<close>

definition b64std :: string where "b64std = uppers @ lowers @ digits @ ''+/''"
definition b64url :: string where "b64url = uppers @ lowers @ digits @ ''-_''"

definition byte :: "nat \<Rightarrow> char" where "byte n = char_of n"
definition ord :: "char \<Rightarrow> nat" where "ord c = of_char c"

text \<open>Three bytes are four sextets; one or two bytes at the end are padded with \<open>pad\<close>.\<close>

fun b64encode :: "string \<Rightarrow> string \<Rightarrow> string \<Rightarrow> string" where
  "b64encode alpha pad (a # b # c # rest) =
     (let n = ord a * 65536 + ord b * 256 + ord c in
      [alpha ! (n div 262144), alpha ! (n div 4096 mod 64), alpha ! (n div 64 mod 64), alpha ! (n mod 64)]
      @ b64encode alpha pad rest)"
| "b64encode alpha pad [a, b] =
     (let n = ord a * 65536 + ord b * 256 in
      [alpha ! (n div 262144), alpha ! (n div 4096 mod 64), alpha ! (n div 64 mod 64)] @ pad)"
| "b64encode alpha pad [a] =
     (let n = ord a * 65536 in [alpha ! (n div 262144), alpha ! (n div 4096 mod 64)] @ pad @ pad)"
| "b64encode alpha pad [] = []"

definition StdEncoding_EncodeToString :: "string \<Rightarrow> string" where
  "StdEncoding_EncodeToString bs = b64encode b64std ''='' bs"

definition RawURLEncoding_EncodeToString :: "string \<Rightarrow> string" where
  "RawURLEncoding_EncodeToString bs = b64encode b64url '''' bs"

fun b64decode :: "string \<Rightarrow> string option" where
  "b64decode [] = Some []"
| "b64decode (a # b # c # d # rest) =
     (if a \<in> set b64std \<and> b \<in> set b64std then
        (let n = digit_index a b64std * 262144 + digit_index b b64std * 4096 in
         if c = CHR ''='' \<and> d = CHR ''='' \<and> rest = [] then Some [byte (n div 65536 mod 256)]
         else if c \<in> set b64std \<and> d = CHR ''='' \<and> rest = [] then
           (let m = n + digit_index c b64std * 64 in Some [byte (m div 65536 mod 256), byte (m div 256 mod 256)])
         else if c \<in> set b64std \<and> d \<in> set b64std then
           (let m = n + digit_index c b64std * 64 + digit_index d b64std in
            map_option (\<lambda>r. [byte (m div 65536 mod 256), byte (m div 256 mod 256), byte (m mod 256)] @ r)
              (b64decode rest))
         else None)
      else None)"
| "b64decode _ = None"

text \<open>The decoder skips line breaks.\<close>

definition StdEncoding_DecodeString :: "string \<Rightarrow> string option" where
  "StdEncoding_DecodeString s = b64decode (filter (\<lambda>c. c \<noteq> CHR 0x0A \<and> c \<noteq> CHR 0x0D) s)"

section \<open>Tokens\<close>

definition tokenVersion :: string where "tokenVersion = ''dvt1''"

record Tokens =
  tk_key :: string

type_synonym hmac = "string \<Rightarrow> string \<Rightarrow> string"

definition NewTokens :: "string \<Rightarrow> err + Tokens" where
  "NewTokens key = (if length key < 32 then Inl (ErrOther ''tenant token key must be at least 32 bytes'')
     else Inr \<lparr>tk_key = key\<rparr>)"

definition token_mac :: "hmac \<Rightarrow> Tokens \<Rightarrow> string \<Rightarrow> string \<Rightarrow> string" where
  "token_mac hm t name nonce =
     RawURLEncoding_EncodeToString (hm (tk_key t) (tokenVersion @ ''.'' @ name @ ''.'' @ nonce))"

text \<open>\<^verbatim>\<open>Issue\<close> after its 24 random bytes \<open>r\<close> were read.\<close>

definition Issue :: "hmac \<Rightarrow> Tokens \<Rightarrow> string \<Rightarrow> string \<Rightarrow> string" where
  "Issue hm t name r =
     (let nonce = RawURLEncoding_EncodeToString r in
      tokenVersion @ ''.'' @ name @ ''.'' @ nonce @ ''.'' @ token_mac hm t name nonce)"

definition Verify :: "hmac \<Rightarrow> Tokens \<Rightarrow> string \<Rightarrow> string option" where
  "Verify hm t token =
     (let parts = SplitOn CHR ''.'' token in
      if length parts \<noteq> 4 \<or> parts ! 0 \<noteq> tokenVersion \<or> \<not> ValidName (parts ! 1) \<or> parts ! 2 = [] then None
      else let want = token_mac hm t (parts ! 1) (parts ! 2) in
        if parts ! 3 \<noteq> want then None else Some (parts ! 1))"

section \<open>Base64 round-trips\<close>

lemma ord_less: "ord c < 256"
  by (cases c) (simp add: ord_def of_bool_def)

lemma byte_ord [simp]: "byte (ord c) = c"
  by (simp add: byte_def ord_def)

lemma b64std_length [simp]: "length b64std = 64" and b64url_length [simp]: "length b64url = 64"
  by (simp_all add: b64std_def b64url_def uppers_def lowers_def digits_def)

lemma b64std_distinct: "distinct b64std"
  by (simp add: b64std_def uppers_def lowers_def digits_def)

lemma b64std_index [simp]: "n < 64 \<Longrightarrow> digit_index (b64std ! n) b64std = n"
  by (simp add: digit_index_nth b64std_distinct)

lemma b64std_mem [simp]: "n < 64 \<Longrightarrow> b64std ! n \<in> set b64std"
  by simp

lemma b64std_no_pad: "CHR ''='' \<notin> set b64std" "CHR 0x0A \<notin> set b64std" "CHR 0x0D \<notin> set b64std"
  by (simp_all add: b64std_def uppers_def lowers_def digits_def)

lemma b64std_nth_no_pad [simp]: "n < 64 \<Longrightarrow> b64std ! n \<noteq> CHR ''=''"
  using b64std_no_pad(1) by (metis b64std_mem)

lemma sextets:
  "n div 262144 * 262144 + n div 4096 mod 64 * 4096 + n div 64 mod 64 * 64 + n mod 64 = (n :: nat)"
proof -
  define x where "x = n div 64"
  define y where "y = x div 64"
  define z where "z = y div 64"
  have quot: "n div 4096 = y" "n div 262144 = z"
    by (simp_all add: x_def y_def z_def flip: div_mult2_eq)
  have "n = x * 64 + r0 \<Longrightarrow> x = y * 64 + r1 \<Longrightarrow> y = z * 64 + r2 \<Longrightarrow>
      z * 262144 + r2 * 4096 + r1 * 64 + r0 = n" for r0 r1 r2
    by simp
  then show ?thesis
    unfolding quot x_def[symmetric] by (metis div_mult_mod_eq x_def y_def z_def)
qed

lemma bytes_of_triple:
  fixes a b c :: nat
  assumes "a < 256" "b < 256" "c < 256"
  shows "(a * 65536 + b * 256 + c) div 65536 mod 256 = a"
    "(a * 65536 + b * 256 + c) div 256 mod 256 = b"
    "(a * 65536 + b * 256 + c) mod 256 = c"
proof -
  have n: "a * 65536 + b * 256 + c = c + 256 * (b + 256 * a)" by simp
  have q: "(a * 65536 + b * 256 + c) div 256 = b + 256 * a"
    unfolding n using assms by (subst div_mult_self2) simp_all
  then show "(a * 65536 + b * 256 + c) div 256 mod 256 = b" using assms by (simp only: q mod_mult_self2) simp
  have "(a * 65536 + b * 256 + c) div 65536 = (b + 256 * a) div 256"
    unfolding q[symmetric] by (simp flip: div_mult2_eq)
  also have "\<dots> = a" using assms by (subst div_mult_self2) simp_all
  finally show "(a * 65536 + b * 256 + c) div 65536 mod 256 = a" using assms by simp
  show "(a * 65536 + b * 256 + c) mod 256 = c" unfolding n using assms by (simp only: mod_mult_self2) simp
qed

lemma triple_less: "(a :: nat) < 256 \<Longrightarrow> b < 256 \<Longrightarrow> c < 256 \<Longrightarrow> a * 65536 + b * 256 + c < 16777216"
  by linarith

lemma top_sextet: "(n :: nat) < 16777216 \<Longrightarrow> n div 262144 < 64"
  by (simp add: less_mult_imp_div_less)

lemma b64_triple:
  fixes a b c :: char
  defines "n \<equiv> ord a * 65536 + ord b * 256 + ord c"
  shows "n div 262144 < 64" and
    "n div 262144 * 262144 + n div 4096 mod 64 * 4096 + n div 64 mod 64 * 64 + n mod 64 = n" and
    "byte (n div 65536 mod 256) = a" "byte (n div 256 mod 256) = b" "byte (n mod 256) = c"
  using triple_less[OF ord_less[of a] ord_less[of b] ord_less[of c]]
    bytes_of_triple[OF ord_less[of a] ord_less[of b] ord_less[of c]]
  by (simp_all only: n_def top_sextet sextets byte_ord)

lemma b64_decode_encode: "b64decode (b64encode b64std ''='' bs) = Some bs"
proof (induction b64std "''=''" bs rule: b64encode.induct)
  case (1 a b c rest)
  define n where "n = ord a * 65536 + ord b * 256 + ord c"
  note t = b64_triple[of a b c, folded n_def]
  show ?case
    using t(1) by (simp only: b64encode.simps Let_def n_def[symmetric])
      (simp add: t(2-) 1 Let_def del: mod_less)
next
  case (2 a b)
  define n where "n = ord a * 65536 + ord b * 256"
  have z: "ord (CHR 0x00) = 0" by (simp add: ord_def)
  note t = b64_triple[of a b "CHR 0x00", unfolded z add_0_right, folded n_def]
  have "n mod 64 = 0" unfolding n_def by (simp add: mod_eq_0_iff_dvd)
  with t show ?case
    by (simp only: b64encode.simps Let_def n_def[symmetric]) (simp add: Let_def)
next
  case (3 a)
  define n where "n = ord a * 65536"
  have z: "ord (CHR 0x00) = 0" by (simp add: ord_def)
  note t = b64_triple[of a "CHR 0x00" "CHR 0x00", unfolded z mult_0 add_0_right, folded n_def]
  have "n mod 64 = 0" unfolding n_def by (simp add: mod_eq_0_iff_dvd)
  moreover have "n div 64 mod 64 = 0" unfolding n_def by (simp add: mod_eq_0_iff_dvd)
  ultimately show ?case
    using t by (simp only: b64encode.simps Let_def n_def[symmetric]) (simp add: Let_def)
qed simp

lemma set_b64encode:
  "length alpha = 64 \<Longrightarrow> set (b64encode alpha pad bs) \<subseteq> set alpha \<union> set pad"
proof (induction alpha pad bs rule: b64encode.induct)
  case (1 alpha pad a b c rest)
  then show ?case using b64_triple(1)[of a b c] by (auto simp: Let_def)
next
  case (2 alpha pad a b)
  then show ?case using b64_triple(1)[of a b "CHR 0x00"] by (auto simp: Let_def ord_def)
next
  case (3 alpha pad a)
  then show ?case using b64_triple(1)[of a "CHR 0x00" "CHR 0x00"] by (auto simp: Let_def ord_def)
qed simp

lemma StdEncoding_roundtrip: "StdEncoding_DecodeString (StdEncoding_EncodeToString bs) = Some bs"
proof -
  have "\<forall>c \<in> set (b64encode b64std ''='' bs). c \<noteq> CHR 0x0A \<and> c \<noteq> CHR 0x0D"
    using set_b64encode[of b64std "''=''" bs] b64std_no_pad by fastforce
  then have "filter (\<lambda>c. c \<noteq> CHR 0x0A \<and> c \<noteq> CHR 0x0D) (b64encode b64std ''='' bs) = b64encode b64std ''='' bs"
    by (simp add: filter_id_conv)
  then show ?thesis
    by (simp add: StdEncoding_DecodeString_def StdEncoding_EncodeToString_def b64_decode_encode)
qed

lemma b64encode_Nil: "b64encode alpha pad bs = [] \<longleftrightarrow> bs = []"
  by (cases "(alpha, pad, bs)" rule: b64encode.cases) (auto simp: Let_def)

section \<open>Issued tokens verify, and only they\<close>

lemma RawURL_no_dot: "CHR ''.'' \<notin> set (RawURLEncoding_EncodeToString bs)"
proof -
  have "CHR ''.'' \<notin> set b64url" by (simp add: b64url_def uppers_def lowers_def digits_def)
  then show ?thesis
    using set_b64encode[of b64url "[]" bs] by (auto simp: RawURLEncoding_EncodeToString_def)
qed

lemma token_split:
  "CHR ''.'' \<notin> set a \<Longrightarrow> CHR ''.'' \<notin> set b \<Longrightarrow> CHR ''.'' \<notin> set c \<Longrightarrow>
     SplitOn CHR ''.'' (tokenVersion @ ''.'' @ a @ ''.'' @ b @ ''.'' @ c) = [tokenVersion, a, b, c]"
  by (simp add: SplitOn_append SplitOn_no_sep tokenVersion_def)

lemma Verify_Issue: "ValidName name \<Longrightarrow> r \<noteq> [] \<Longrightarrow> Verify hm t (Issue hm t name r) = Some name"
proof -
  assume n: "ValidName name" and r: "r \<noteq> []"
  have split: "SplitOn CHR ''.'' (Issue hm t name r) =
      [tokenVersion, name, RawURLEncoding_EncodeToString r, token_mac hm t name (RawURLEncoding_EncodeToString r)]"
    unfolding Issue_def Let_def using ValidName_no_dot[OF n] RawURL_no_dot
    by (intro token_split) (auto simp: token_mac_def)
  show ?thesis
    using n r by (simp add: Verify_def Let_def split RawURLEncoding_EncodeToString_def b64encode_Nil)
qed

lemma Verify_sound:
  assumes "Verify hm t token = Some name"
  shows "ValidName name \<and> (\<exists>nonce. nonce \<noteq> [] \<and>
    token = tokenVersion @ ''.'' @ name @ ''.'' @ nonce @ ''.'' @ token_mac hm t name nonce)"
proof -
  obtain p where p: "SplitOn CHR ''.'' token = p" by simp
  with assms have v: "length p = 4" "p ! 0 = tokenVersion" "ValidName (p ! 1)" "p ! 2 \<noteq> []"
    "p ! 3 = token_mac hm t (p ! 1) (p ! 2)" "name = p ! 1"
    by (auto simp: Verify_def Let_def split: if_splits)
  then obtain a b c d where "p = [a, b, c, d]"
    by (auto simp: length_Suc_conv eval_nat_numeral)
  with p v show ?thesis
    using Join_SplitOn[of "CHR ''.''" token] by auto
qed

section \<open>Properties of the component\<close>

text \<open>C40. A tenant token is accepted exactly when it has the form the API issues: a valid tenant name, a
  nonce without dots, and the MAC the API's key gives over the two; and the tenant it is accepted for is
  the one it names.\<close>

theorem token_accepted_iff:
  "(Verify hm t token = Some name) =
     (ValidName name \<and> (\<exists>nonce. nonce \<noteq> [] \<and> CHR ''.'' \<notin> set nonce \<and>
        token = tokenVersion @ ''.'' @ name @ ''.'' @ nonce @ ''.'' @ token_mac hm t name nonce))"
proof
  assume v: "Verify hm t token = Some name"
  obtain a b c d where p: "SplitOn CHR ''.'' token = [a, b, c, d]"
    using v by (auto simp: Verify_def Let_def length_Suc_conv eval_nat_numeral split: if_splits)
  with v have "a = tokenVersion" "b = name" "c \<noteq> []" "d = token_mac hm t name c" "ValidName name"
    by (auto simp: Verify_def Let_def split: if_splits)
  moreover have "CHR ''.'' \<notin> set c" using SplitOn_parts[of c "CHR ''.''" token] p by simp
  moreover have "token = a @ ''.'' @ b @ ''.'' @ c @ ''.'' @ d"
    using Join_SplitOn[of "CHR ''.''" token] p by simp
  ultimately show "ValidName name \<and> (\<exists>nonce. nonce \<noteq> [] \<and> CHR ''.'' \<notin> set nonce \<and>
        token = tokenVersion @ ''.'' @ name @ ''.'' @ nonce @ ''.'' @ token_mac hm t name nonce)"
    by blast
next
  assume "ValidName name \<and> (\<exists>nonce. nonce \<noteq> [] \<and> CHR ''.'' \<notin> set nonce \<and>
        token = tokenVersion @ ''.'' @ name @ ''.'' @ nonce @ ''.'' @ token_mac hm t name nonce)"
  then obtain nonce where n: "ValidName name" "nonce \<noteq> []" "CHR ''.'' \<notin> set nonce"
    "token = tokenVersion @ ''.'' @ name @ ''.'' @ nonce @ ''.'' @ token_mac hm t name nonce"
    by blast
  have "SplitOn CHR ''.'' token = [tokenVersion, name, nonce, token_mac hm t name nonce]"
    unfolding n(4) using ValidName_no_dot[OF n(1)] n(3) RawURL_no_dot by (intro token_split) (auto simp: token_mac_def)
  then show "Verify hm t token = Some name" using n by (simp add: Verify_def Let_def)
qed

end
