(* ===== verification/Allocation.thy ===== *)
theory Allocation
  imports Tokens
begin

text \<open>
  The three allocators: \<^verbatim>\<open>pickIndex\<close> (\<^verbatim>\<open>service.go\<close>), the lowest free workload ordinal
  (\<^verbatim>\<open>CreateWorkload\<close> in \<^verbatim>\<open>store/workloads.go\<close>) and \<^verbatim>\<open>pickAddress\<close> (\<^verbatim>\<open>addresses.go\<close>). Each ends in a loop that
  takes the first free candidate; the locale \<open>allocator\<close> states what such a loop promises and what
  follows from it, and is interpreted on all three.
\<close>

section \<open>Tenant indexes\<close>

text \<open>\<^verbatim>\<open>for n := MinIndex; n <= MaxAllocatable; n++\<close>.\<close>

function lowest_index :: "(int \<Rightarrow> bool) \<Rightarrow> int \<Rightarrow> int option" where
  "lowest_index free n =
     (if n \<le> MaxAllocatable then (if free n then Some n else lowest_index free (n + 1)) else None)"
  by pat_completeness auto
termination by (relation "measure (\<lambda>(_, n). nat (MaxAllocatable + 1 - n))") auto

declare lowest_index.simps [simp del]

text \<open>The zones the fabric carries on index \<open>n\<close>.\<close>

definition fabric_zones :: "Claim list \<Rightarrow> int \<Rightarrow> string list" where
  "fabric_zones claims n = map cl_Zone (filter (\<lambda>c. cl_Index c = n) claims)"

definition index_free :: "string \<Rightarrow> (int \<rightharpoonup> string) \<Rightarrow> Claim list \<Rightarrow> int \<Rightarrow> bool" where
  "index_free name held claims n =
     (held n = None \<and> list_all (\<lambda>zone. zone = name) (fabric_zones claims n))"

definition pickIndex :: "string \<Rightarrow> int \<Rightarrow> (int \<rightharpoonup> string) \<Rightarrow> Claim list \<Rightarrow> err + int" where
  "pickIndex name requested held claims =
     (let free = index_free name held claims in
      if requested \<noteq> 0 \<and> free requested then Inr requested
      else let own = sort (map cl_Index (filter (\<lambda>c. cl_Zone c = name) claims)) in
        (case find (\<lambda>n. n \<ge> MinIndex \<and> n \<le> MaxAllocatable \<and> free n) own of
           Some n \<Rightarrow> Inr n
         | None \<Rightarrow>
             (case lowest_index free MinIndex of Some n \<Rightarrow> Inr n | None \<Rightarrow> Inl ErrExhausted)))"

section \<open>Workload ordinals\<close>

text \<open>\<^verbatim>\<open>for n := 0; n < tenant.MaxWorkloads; n++\<close>.\<close>

function next_ordinal :: "(int \<Rightarrow> bool) \<Rightarrow> int \<Rightarrow> int option" where
  "next_ordinal taken n =
     (if n < MaxWorkloads then (if \<not> taken n then Some n else next_ordinal taken (n + 1)) else None)"
  by pat_completeness auto
termination by (relation "measure (\<lambda>(_, n). nat (MaxWorkloads - n))") auto

declare next_ordinal.simps [simp del]

section \<open>Device addresses\<close>

definition addr_left :: "addr \<Rightarrow> nat" where
  "addr_left a = (case a of AddrZero \<Rightarrow> 0 | Addr4 w \<Rightarrow> 2 ^ 32 - unat w | Addr6 w _ \<Rightarrow> 2 ^ 128 - unat w)"

lemma unat_Suc_less: "w \<noteq> (- 1 :: 'a :: len word) \<Longrightarrow> unat (w + 1) = Suc (unat w)"
  by (metis add.commute add_eq_0_iff unatSuc)

lemma unat32_less: "unat (w :: 32 word) < 4294967296"
  using unsigned_less[where 'a = nat, of w] by simp

lemma unat_word_of_nat: "n < 4294967296 \<Longrightarrow> unat (word_of_nat n :: 32 word) = n"
  by (simp add: unsigned_of_nat take_bit_nat_eq_self)

lemma word_less_max: "w < (l :: 'a :: len word) \<Longrightarrow> w \<noteq> - 1"
  by (metis not_less word_order.extremum)

lemma word_succ:
  assumes "w < (l :: 'a :: len word)"
  shows "w + 1 \<le> l \<and> w < w + 1"
  using unat_Suc_less[OF word_less_max[OF assms]] assms by (simp add: word_le_nat_alt word_less_nat_alt)

lemma Next_left: "a < Next a \<Longrightarrow> addr_left (Next a) < addr_left a"
proof (cases a)
  case (Addr4 w)
  assume "a < Next a"
  with Addr4 have "w \<noteq> - 1" using AddrZero_less_addr4[of w] by (auto simp: Next_def)
  with Addr4 unat_Suc_less[of w] unat32_less[of w] show ?thesis
    by (simp add: Next_def addr_left_def)
next
  case (Addr6 w z)
  assume "a < Next a"
  with Addr6 have "w \<noteq> - 1" by (auto simp: Next_def less_addr_def addr_less_def addr_bits_def)
  with Addr6 unat_Suc_less[of w] unsigned_less[where 'a = nat, of w] show ?thesis
    by (simp add: Next_def addr_left_def)
qed (simp add: Next_def)

text \<open>
  \<^verbatim>\<open>for addr := r.First; r.Contains(addr); addr = addr.Next()\<close>. The successor of the last address of
  the family is the zero address, which no validated range contains, so the loop ends there:
  \<open>lowest_addr_loop\<close> below shows that this function satisfies the loop's equation for every range whose
  first address is an IPv4 one, as \<open>Site.Validate\<close> requires.
\<close>

function lowest_addr :: "AddressRange \<Rightarrow> (string \<Rightarrow> bool) \<Rightarrow> addr \<Rightarrow> string option" where
  "lowest_addr r taken a =
     (if range_Contains r a then
        (if \<not> taken (AddrString a) then Some (AddrString a)
         else if a < Next a then lowest_addr r taken (Next a) else None)
      else None)"
  by pat_completeness auto
termination by (relation "measure (\<lambda>(_, _, a). addr_left a)") (auto simp: Next_left)

declare lowest_addr.simps [simp del]

text \<open>The loop over \<open>held\<close>: it ends at a MAC that is already there, else it counts.\<close>

definition mac_held :: "string \<Rightarrow> DeviceAddress list \<Rightarrow> bool" where
  "mac_held mac held = list_ex (\<lambda>h. da_MAC h = mac) held"

definition pickAddress ::
  "AddressRange \<Rightarrow> int \<Rightarrow> string \<Rightarrow> string \<Rightarrow> string \<Rightarrow> DeviceAddress list \<Rightarrow> err + string" where
  "pickAddress r quota tenantName mac requested held =
     (if mac_held mac held then Inl ErrAddressConflict
      else let taken = (\<lambda>s. s \<in> set (map da_Address held));
               mine = int (length (filter (\<lambda>h. da_Tenant h = tenantName) held)) in
        if mine \<ge> quota then Inl ErrAddressQuota
        else if requested \<noteq> [] then (if taken requested then Inl ErrAddressConflict else Inr requested)
        else (case lowest_addr r taken (ar_First r) of Some s \<Rightarrow> Inr s | None \<Rightarrow> Inl ErrAddressesExhausted))"

section \<open>The contract of an allocator\<close>

text \<open>
  \<open>pick taken\<close> gives the first candidate that is not taken. Promised: the answer is a free candidate,
  every candidate before it is taken, and only when all are taken is there none.
\<close>

locale allocator =
  fixes candidates :: "'a list" and pick :: "('a \<Rightarrow> bool) \<Rightarrow> 'a option"
  assumes pick_find: "pick taken = find (\<lambda>x. \<not> taken x) candidates"
begin

lemma pick_sound: "pick taken = Some x \<Longrightarrow> x \<in> set candidates \<and> \<not> taken x"
  by (auto simp: pick_find find_Some_iff)

lemma pick_least:
  "pick taken = Some x \<Longrightarrow> \<exists>i < length candidates. candidates ! i = x \<and> (\<forall>j < i. taken (candidates ! j))"
  by (auto simp: pick_find find_Some_iff)

lemma pick_exhausted: "pick taken = None \<longleftrightarrow> (\<forall>x \<in> set candidates. taken x)"
  by (auto simp: pick_find find_None_iff)

text \<open>Allocating \<open>k\<close> times in a row, each time with what was given out added to what is taken.\<close>

fun pick_many :: "nat \<Rightarrow> 'a set \<Rightarrow> 'a list" where
  "pick_many 0 T = []"
| "pick_many (Suc k) T =
     (case pick (\<lambda>x. x \<in> T) of None \<Rightarrow> [] | Some x \<Rightarrow> x # pick_many k (insert x T))"

lemma pick_many_fresh: "distinct (pick_many k T) \<and> set (pick_many k T) \<subseteq> set candidates - T"
proof (induction k arbitrary: T)
  case (Suc k)
  show ?case
  proof (cases "pick (\<lambda>x. x \<in> T)")
    case (Some x)
    with Suc.IH[of "insert x T"] pick_sound[OF Some] show ?thesis by auto
  qed simp
qed simp

lemma pick_many_complete:
  "finite T \<Longrightarrow> card (set candidates - T) \<le> k \<Longrightarrow> set (pick_many k T) = set candidates - T"
proof (induction k arbitrary: T)
  case (Suc k)
  show ?case
  proof (cases "pick (\<lambda>x. x \<in> T)")
    case None
    then show ?thesis using pick_exhausted[of "\<lambda>x. x \<in> T"] by auto
  next
    case (Some x)
    note x = pick_sound[OF Some]
    have "card (set candidates - insert x T) = card (set candidates - T) - 1"
      using x by (metis DiffI Diff_insert List.finite_set card_Diff_singleton finite_Diff)
    with Suc.IH[of "insert x T"] Suc.prems Some x show ?thesis by auto
  qed
qed simp

end

subsection \<open>The loops meet the contract\<close>

lemma lowest_index_find: "lowest_index free n = find free [n..MaxAllocatable]"
proof (induction free n rule: lowest_index.induct)
  case (1 free n)
  then show ?case by (subst lowest_index.simps) (auto simp: upto_rec1)
qed

lemma next_ordinal_find: "next_ordinal taken n = find (\<lambda>m. \<not> taken m) [n..MaxWorkloads - 1]"
proof (induction taken n rule: next_ordinal.induct)
  case (1 taken n)
  then show ?case by (subst next_ordinal.simps) (auto simp: upto_rec1)
qed

interpretation indexes: allocator "[MinIndex..MaxAllocatable]" "\<lambda>taken. lowest_index (\<lambda>n. \<not> taken n) MinIndex"
  by unfold_locales (rule lowest_index_find)

interpretation ordinals: allocator "[0..MaxWorkloads - 1]" "\<lambda>taken. next_ordinal taken 0"
  by unfold_locales (rule next_ordinal_find)

text \<open>The addresses of a range in the order the loop visits them.\<close>

definition range_words :: "32 word \<Rightarrow> 32 word \<Rightarrow> 32 word list" where
  "range_words f l = map word_of_nat [unat f..<Suc (unat l)]"

definition range_strings :: "32 word \<Rightarrow> 32 word \<Rightarrow> string list" where
  "range_strings f l = map (\<lambda>w. AddrString (Addr4 w)) (range_words f l)"

lemma range_Contains_addr4:
  "ar_First r = Addr4 f \<Longrightarrow> ar_Last r = Addr4 l \<Longrightarrow>
     range_Contains r a \<longleftrightarrow> (\<exists>w. a = Addr4 w \<and> f \<le> w \<and> w \<le> l)"
  using addr4_between by (auto simp: range_Contains_def Compare_ge Compare_le)

lemma unat_range: "n \<in> {unat f..<Suc (unat (l :: 32 word))} \<Longrightarrow> unat (word_of_nat n :: 32 word) = n"
  using unat32_less[of l] by (intro unat_word_of_nat) simp

lemma set_range_words: "set (range_words f l) = {w. f \<le> w \<and> w \<le> l}"
proof -
  have "w \<in> word_of_nat ` {unat f..<Suc (unat l)}" if "f \<le> w" "w \<le> l" for w
    using that by (intro image_eqI[of _ _ "unat w"]) (auto simp: word_le_nat_alt)
  moreover have "f \<le> word_of_nat n \<and> word_of_nat n \<le> l" if "n \<in> {unat f..<Suc (unat l)}" for n
    using unat_range[OF that] that by (simp add: word_le_nat_alt)
  ultimately show ?thesis
    unfolding range_words_def set_map set_upt by blast
qed

lemma distinct_range_strings: "distinct (range_strings f l)"
proof -
  have "inj_on (word_of_nat :: nat \<Rightarrow> 32 word) {unat f..<Suc (unat l)}"
    by (rule inj_on_inverseI[of _ unat]) (rule unat_range)
  then have "distinct (range_words f l)"
    by (simp only: range_words_def distinct_map set_upt distinct_upt simp_thms)
  then show ?thesis
    by (simp add: range_strings_def distinct_map inj_on_def AddrString_addr4_inj)
qed

lemma range_words_rec: "f \<le> l \<Longrightarrow> range_words f l = f # (if f = l then [] else range_words (f + 1) l)"
proof -
  assume fl: "f \<le> l"
  have "f \<noteq> l \<Longrightarrow> unat (f + 1) = Suc (unat f)"
    using fl by (intro unat_Suc_less word_less_max[of f l]) auto
  with fl show ?thesis
    using unat_inj[of f l] by (auto simp: range_words_def word_le_nat_alt upt_rec[of "unat f"])
qed

lemma lowest_addr_find:
  assumes "ar_First r = Addr4 f" "ar_Last r = Addr4 l" "f \<le> w" "w \<le> l"
  shows "lowest_addr r taken (Addr4 w) = find (\<lambda>s. \<not> taken s) (range_strings w l)"
  using assms(3,4)
proof (induction "addr_left (Addr4 w)" arbitrary: w rule: less_induct)
  case (less w)
  have contains: "range_Contains r (Addr4 w)"
    using less.prems range_Contains_addr4[OF assms(1,2)] by auto
  show ?case
  proof (cases "w = l")
    case True
    have "Addr4 l < Next (Addr4 l) \<Longrightarrow> lowest_addr r taken (Next (Addr4 l)) = None"
      using range_Contains_addr4[OF assms(1,2)] by (subst lowest_addr.simps) (auto simp: Next_def split: if_splits)
    with True contains show ?thesis
      by (subst lowest_addr.simps) (auto simp: range_strings_def range_words_rec)
  next
    case False
    with less.prems have "w < l" by simp
    then have w1: "w + 1 \<le> l" "f \<le> w + 1" "Next (Addr4 w) = Addr4 (w + 1)" "w < w + 1"
      using less.prems(1) word_succ[of w l] by (auto simp: Next_addr4)
    then have "addr_left (Addr4 (w + 1)) < addr_left (Addr4 w)"
      using Next_left[of "Addr4 w"] by simp
    from less.hyps[OF this w1(2,1)] contains False less.prems w1 show ?thesis
      by (subst lowest_addr.simps) (auto simp: range_strings_def range_words_rec[of w])
  qed
qed

text \<open>The loop's own equation, for every range that starts at an IPv4 address.\<close>

lemma lowest_addr_loop:
  assumes "ar_First r = Addr4 f" "ar_Last r = Addr4 l"
  shows "lowest_addr r taken a =
    (if range_Contains r a then
       (if \<not> taken (AddrString a) then Some (AddrString a) else lowest_addr r taken (Next a))
     else None)"
proof -
  have "lowest_addr r taken (Next a) = None" if "range_Contains r a" "\<not> a < Next a"
  proof -
    from that(1) range_Contains_addr4[OF assms] obtain w where w: "a = Addr4 w" by auto
    with that(2) have "w = - 1"
      using unat_Suc_less[of w] by (auto simp: Next_def word_less_nat_alt split: if_splits)
    with w range_Contains_addr4[OF assms] show ?thesis
      by (subst lowest_addr.simps) (simp add: Next_def)
  qed
  then show ?thesis by (subst lowest_addr.simps) auto
qed

abbreviation range_of :: "prefix \<Rightarrow> 32 word \<Rightarrow> 32 word \<Rightarrow> AddressRange" where
  "range_of p f l \<equiv> \<lparr>ar_Subnet = p, ar_First = Addr4 f, ar_Last = Addr4 l\<rparr>"

lemma range_eq: "ar_First r = Addr4 f \<Longrightarrow> ar_Last r = Addr4 l \<Longrightarrow> r = range_of (ar_Subnet r) f l"
  by simp

interpretation addresses: allocator "range_strings f l" "\<lambda>taken. lowest_addr (range_of p f l) taken (Addr4 f)"
  for p f l
proof
  fix taken
  show "lowest_addr (range_of p f l) taken (Addr4 f) = find (\<lambda>s. \<not> taken s) (range_strings f l)"
  proof (cases "f \<le> l")
    case True
    then show ?thesis by (intro lowest_addr_find[where f = f and l = l]) simp_all
  next
    case False
    then show ?thesis
      by (subst lowest_addr.simps) (auto simp: range_Contains_addr4 range_strings_def range_words_def word_le_nat_alt)
  qed
qed

section \<open>What the allocators give\<close>

lemma pickIndex_cases:
  assumes "pickIndex name requested held claims = Inr n"
  shows "index_free name held claims n \<and> (n = requested \<and> requested \<noteq> 0 \<or> MinIndex \<le> n \<and> n \<le> MaxAllocatable)"
proof -
  let ?free = "index_free name held claims"
  have low: "lowest_index ?free MinIndex = Some n \<Longrightarrow> ?free n \<and> MinIndex \<le> n \<and> n \<le> MaxAllocatable"
    using indexes.pick_sound[of "\<lambda>n. \<not> ?free n" n] by simp
  show ?thesis
    using assms low
    by (auto simp: pickIndex_def Let_def find_Some_iff split: if_splits option.splits)
qed

lemma pickIndex_bounds:
  "pickIndex name requested held claims = Inr n \<Longrightarrow>
     requested = 0 \<or> MinIndex \<le> requested \<and> requested \<le> MaxAllocatable \<Longrightarrow>
     1 \<le> n \<and> n \<le> 62 \<and> held n = None"
  using pickIndex_cases[of name requested held claims n]
  by (auto simp: index_free_def MinIndex_def MaxAllocatable_def)

lemma pickIndex_requested:
  "requested \<noteq> 0 \<Longrightarrow> index_free name held claims requested \<Longrightarrow> pickIndex name requested held claims = Inr requested"
  by (simp add: pickIndex_def Let_def)

lemma pickIndex_exhausted:
  "pickIndex name requested held claims = Inl e \<longleftrightarrow>
     e = ErrExhausted \<and> (requested \<noteq> 0 \<longrightarrow> \<not> index_free name held claims requested) \<and>
     (\<forall>n. MinIndex \<le> n \<and> n \<le> MaxAllocatable \<longrightarrow> \<not> index_free name held claims n)"
proof -
  let ?free = "index_free name held claims"
  have low: "lowest_index ?free MinIndex = None \<longleftrightarrow> (\<forall>n. MinIndex \<le> n \<and> n \<le> MaxAllocatable \<longrightarrow> \<not> ?free n)"
    using indexes.pick_exhausted[of "\<lambda>n. \<not> ?free n"] by (simp add: Ball_def)
  have only: "pickIndex name requested held claims = Inl e \<Longrightarrow>
      e = ErrExhausted \<and> (requested \<noteq> 0 \<longrightarrow> \<not> ?free requested) \<and> lowest_index ?free MinIndex = None" for e
    by (auto simp: pickIndex_def Let_def split: if_splits option.splits)
  show ?thesis
    using only pickIndex_cases[of name requested held claims]
    by (cases "pickIndex name requested held claims") (auto simp: low[symmetric], (metis low)+)
qed

text \<open>A tenant coming back without its state is given the index its zone still uses on the fabric.\<close>

lemma pickIndex_own_zone:
  assumes "requested = 0 \<or> \<not> index_free name held claims requested"
    and "c \<in> set claims" "cl_Zone c = name" "MinIndex \<le> cl_Index c" "cl_Index c \<le> MaxAllocatable"
    and "index_free name held claims (cl_Index c)"
  shows "\<exists>c' \<in> set claims. cl_Zone c' = name \<and> cl_Index c' \<le> cl_Index c \<and>
    pickIndex name requested held claims = Inr (cl_Index c')"
proof -
  let ?free = "index_free name held claims"
  let ?own = "sort (map cl_Index (filter (\<lambda>c. cl_Zone c = name) claims))"
  let ?ok = "\<lambda>n. n \<ge> MinIndex \<and> n \<le> MaxAllocatable \<and> ?free n"
  have "cl_Index c \<in> set ?own" "?ok (cl_Index c)" using assms by auto
  then obtain n where n: "find ?ok ?own = Some n"
    by (metis (no_types, lifting) find_None_iff not_Some_eq)
  then obtain i where i: "i < length ?own" "?own ! i = n" "\<forall>j < i. \<not> ?ok (?own ! j)"
    by (auto simp: find_Some_iff)
  from \<open>cl_Index c \<in> set ?own\<close> obtain k where k: "k < length ?own" "?own ! k = cl_Index c"
    by (metis in_set_conv_nth)
  with i \<open>?ok (cl_Index c)\<close> have "i \<le> k" by (metis not_less)
  then have "n \<le> cl_Index c" using i k sorted_nth_mono[OF sorted_sort] by metis
  moreover have "n \<in> set ?own" using i by (metis nth_mem)
  moreover have "pickIndex name requested held claims = Inr n"
    using assms(1) n by (auto simp: pickIndex_def Let_def)
  ultimately show ?thesis by auto
qed

lemma pickAddress_sound:
  assumes "pickAddress r quota tn mac requested held = Inr s"
    and "ar_First r = Addr4 f" "ar_Last r = Addr4 l"
    and "requested = [] \<or> (\<exists>a. range_Contains r a \<and> requested = AddrString a)"
  shows "s \<notin> da_Address ` set held" and "mac \<notin> da_MAC ` set held"
    and "int (length (filter (\<lambda>h. da_Tenant h = tn) held)) < quota"
    and "\<exists>a. range_Contains r a \<and> s = AddrString a"
proof -
  note r = range_eq[OF assms(2,3)]
  have low: "lowest_addr r taken (Addr4 f) = Some s \<Longrightarrow> \<not> taken s \<and> (\<exists>a. range_Contains r a \<and> s = AddrString a)" for taken
  proof -
    assume "lowest_addr r taken (Addr4 f) = Some s"
    then have "s \<in> set (range_strings f l) \<and> \<not> taken s"
      using addresses.pick_sound[of "ar_Subnet r" f l taken s] r by simp
    then show ?thesis
      using range_Contains_addr4[OF assms(2,3)] by (auto simp: range_strings_def set_range_words)
  qed
  show "s \<notin> da_Address ` set held" "\<exists>a. range_Contains r a \<and> s = AddrString a"
    "mac \<notin> da_MAC ` set held" "int (length (filter (\<lambda>h. da_Tenant h = tn) held)) < quota"
    using assms(1,4) low
    by (auto simp: pickAddress_def Let_def mac_held_def list_ex_iff assms(2) split: if_splits option.splits)
qed

lemma pickAddress_error:
  "pickAddress r quota tn mac requested held = Inl e \<Longrightarrow>
     e \<in> {ErrAddressConflict, ErrAddressQuota, ErrAddressesExhausted}"
  by (auto simp: pickAddress_def Let_def split: if_splits option.splits)

section \<open>Properties of the component\<close>

lemma range_strings_nth:
  assumes "f \<le> v" "v \<le> l"
  shows "unat v - unat f < length (range_strings f l) \<and> range_strings f l ! (unat v - unat f) = AddrString (Addr4 v)"
  using assms by (auto simp: range_strings_def range_words_def word_le_nat_alt simp del: upt_Suc)

lemma range_strings_least:
  assumes "lowest_addr (range_of p f l) taken (Addr4 f) = Some (AddrString (Addr4 w))"
    and "f \<le> w" "w \<le> l" "f \<le> v" "v < w"
  shows "taken (AddrString (Addr4 v))"
proof -
  have "v \<le> l" using assms(3,5) by simp
  note v = range_strings_nth[OF assms(4) this] and w = range_strings_nth[OF assms(2,3)]
  obtain i where i: "i < length (range_strings f l)" "range_strings f l ! i = AddrString (Addr4 w)"
      "\<forall>j < i. taken (range_strings f l ! j)"
    using addresses.pick_least[OF assms(1)] by blast
  have "i = unat w - unat f" using distinct_range_strings[of f l] i w nth_eq_iff_index_eq by metis
  then have "unat v - unat f < i" using assms(4,5) by (simp add: word_le_nat_alt word_less_nat_alt)
  then show ?thesis using i(3) v by auto
qed

text \<open>C7. An index is picked soundly and whenever there is one: what \<^verbatim>\<open>pickIndex\<close> returns is in 1-62, held by
  no registered tenant and carried by the fabric for nobody else, and it fails only with
  \<^verbatim>\<open>ErrExhausted\<close>, exactly when no index in 1-62 is free.\<close>

theorem pickIndex_correct:
  assumes "requested = 0 \<or> MinIndex \<le> requested \<and> requested \<le> MaxAllocatable"
  shows "case pickIndex name requested held claims of
      Inr n \<Rightarrow> 1 \<le> n \<and> n \<le> 62 \<and> held n = None \<and> (\<forall>c \<in> set claims. cl_Index c = n \<longrightarrow> cl_Zone c = name)
    | Inl e \<Rightarrow> e = ErrExhausted \<and> (\<forall>n \<in> {1..62}. held n \<noteq> None \<or> (\<exists>c \<in> set claims. cl_Index c = n \<and> cl_Zone c \<noteq> name))"
proof (cases "pickIndex name requested held claims")
  case (Inr n)
  have "\<forall>c \<in> set claims. cl_Index c = n \<longrightarrow> cl_Zone c = name"
    using pickIndex_cases[OF Inr] by (auto simp: index_free_def fabric_zones_def list_all_iff)
  then show ?thesis using pickIndex_bounds[OF Inr assms] Inr by simp
next
  case (Inl e)
  then have "e = ErrExhausted \<and> (\<forall>n. MinIndex \<le> n \<and> n \<le> MaxAllocatable \<longrightarrow> \<not> index_free name held claims n)"
    using pickIndex_exhausted by blast
  then show ?thesis
    using Inl by (auto simp: index_free_def fabric_zones_def list_all_iff MinIndex_def MaxAllocatable_def)
qed

theorem pickIndex_correct_witness:
  "pickIndex ''eds'' 0 [1 \<mapsto> ''mqx''] [\<lparr>cl_Index = 2, cl_Zone = ''other''\<rparr>] = Inr 3 \<and>
   [1 \<mapsto> ''mqx''] (3 :: int) = None"
proof -
  have p: "pickIndex ''eds'' 0 [1 \<mapsto> ''mqx''] [\<lparr>cl_Index = 2, cl_Zone = ''other''\<rparr>] = Inr 3"
    by (simp add: pickIndex_def Let_def lowest_index.simps index_free_def fabric_zones_def MinIndex_def MaxAllocatable_def)
  then show ?thesis
    using pickIndex_correct[where requested = 0 and name = "''eds''" and held = "[1 \<mapsto> ''mqx'']" and
        claims = "[\<lparr>cl_Index = 2, cl_Zone = ''other''\<rparr>]"] by simp
qed

text \<open>A restore gets its index back when it can: a requested index that is free is the one given, and a
  tenant that comes back without a usable one is given an index its own zone still uses on the fabric, the
  lowest that is free, before any other.\<close>

lemma pickIndex_restores:
  "(requested \<noteq> 0 \<and> index_free name held claims requested \<longrightarrow> pickIndex name requested held claims = Inr requested) \<and>
   ((requested = 0 \<or> \<not> index_free name held claims requested) \<and> c \<in> set claims \<and> cl_Zone c = name \<and>
      MinIndex \<le> cl_Index c \<and> cl_Index c \<le> MaxAllocatable \<and> index_free name held claims (cl_Index c) \<longrightarrow>
    (\<exists>c' \<in> set claims. cl_Zone c' = name \<and> cl_Index c' \<le> cl_Index c \<and>
       pickIndex name requested held claims = Inr (cl_Index c')))"
  using pickIndex_requested[of requested name held claims] pickIndex_own_zone[of requested name held claims c] by blast

text \<open>A fixed address is picked soundly: on an IPv4 range, what \<^verbatim>\<open>pickAddress\<close> gives lies in the range,
  nobody holds it, the MAC holds none yet, the tenant is under its share, and it is the one asked for or
  else the lowest free one. It fails only for a reason that holds: the MAC or the address is taken, the
  share is used up, or every address of the range is held.\<close>

lemma pickAddress_correct:
  assumes "ar_First rg = Addr4 f" "ar_Last rg = Addr4 l"
    and "requested = [] \<or> (\<exists>a. range_Contains rg a \<and> requested = AddrString a)"
  shows "case pickAddress rg quota tn mac requested held of
      Inr s \<Rightarrow> s \<notin> da_Address ` set held \<and> mac \<notin> da_MAC ` set held \<and>
        int (length (filter (\<lambda>h. da_Tenant h = tn) held)) < quota \<and>
        (\<exists>w. f \<le> w \<and> w \<le> l \<and> s = AddrString (Addr4 w) \<and>
          (if requested = [] then \<forall>v. f \<le> v \<and> v < w \<longrightarrow> AddrString (Addr4 v) \<in> da_Address ` set held
           else s = requested))
    | Inl e \<Rightarrow>
        e = ErrAddressConflict \<and> (mac \<in> da_MAC ` set held \<or> requested \<in> da_Address ` set held) \<or>
        e = ErrAddressQuota \<and> quota \<le> int (length (filter (\<lambda>h. da_Tenant h = tn) held)) \<or>
        e = ErrAddressesExhausted \<and> (\<forall>w. f \<le> w \<and> w \<le> l \<longrightarrow> AddrString (Addr4 w) \<in> da_Address ` set held)"
proof (cases "pickAddress rg quota tn mac requested held")
  case (Inl e)
  let ?taken = "\<lambda>s. s \<in> set (map da_Address held)"
  have "lowest_addr rg ?taken (Addr4 f) = None \<Longrightarrow> f \<le> w \<Longrightarrow> w \<le> l \<Longrightarrow> AddrString (Addr4 w) \<in> da_Address ` set held" for w
    using addresses.pick_exhausted[of "ar_Subnet rg" f l ?taken] range_eq[OF assms(1,2)]
    by (auto simp: range_strings_def set_range_words)
  with Inl show ?thesis
    by (auto simp: pickAddress_def Let_def mac_held_def list_ex_iff assms(1) split: if_splits option.splits)
next
  case (Inr s)
  note p = pickAddress_sound[OF Inr assms]
  obtain w where w: "f \<le> w" "w \<le> l" "s = AddrString (Addr4 w)"
    using p(4) range_Contains_addr4[OF assms(1,2)] by auto
  have least: "AddrString (Addr4 v) \<in> da_Address ` set held" if "requested = []" "f \<le> v" "v < w" for v
  proof -
    have "lowest_addr (range_of (ar_Subnet rg) f l) (\<lambda>s. s \<in> set (map da_Address held)) (Addr4 f) = Some s"
      using Inr that(1) range_eq[OF assms(1,2)]
      by (auto simp: pickAddress_def Let_def assms(1) split: if_splits option.splits)
    then show ?thesis using range_strings_least[OF _ w(1,2) that(2,3)] w(3) by fastforce
  qed
  have "requested \<noteq> [] \<Longrightarrow> s = requested"
    using Inr by (auto simp: pickAddress_def Let_def split: if_splits)
  then show ?thesis
    unfolding Inr sum.case by (intro conjI p(1-3) exI[of _ w] w) (auto intro: least)
qed

end
