(* ===== verification/Registry.thy ===== *)
theory Registry
  imports Allocation
begin

text \<open>
  The registry as PostgreSQL keeps it: the tables of \<^verbatim>\<open>internal/store/migrations\<close> with their keys,
  \<^verbatim>\<open>CHECK\<close>s, foreign keys and cascades, and one function per SQL statement or transaction of
  \<^verbatim>\<open>internal/store\<close>. A transaction is a function from the registry to an error (nothing is changed) or a
  result and the new registry: the advisory lock and the transaction make it atomic. The methods of
  \<^verbatim>\<open>Postgres\<close> that seal, call and open around these are in the theory \<open>Store\<close>.

  \<open>store_step\<close> is the step relation of the registry, one rule per statement that writes; whatever
  requests, on however many instances of the API, run against it, it moves by these steps. The
  invariant \<open>reg_inv\<close> holds in every state they reach.
\<close>

section \<open>Tables\<close>

record tenant_row =
  tn_name :: string
  tn_idx :: int
  tn_status :: status
  tn_secrets :: Secrets
  tn_org :: int

record step_row =
  sr_tenant :: string
  sr_step :: Step

record address_row =
  ad_tenant :: string
  ad_device :: string
  ad_class :: string
  ad_address :: string
  ad_status :: status

record registry =
  tbl_tenants :: "tenant_row list"
  tbl_steps :: "step_row list"
  tbl_audit :: "AuditEntry list"
  tbl_workloads :: "Workload list"
  tbl_records :: "ExtraRecord list"
  tbl_wifi_keys :: "WiFiKey list"
  tbl_admission_keys :: "AdmissionKey list"
  tbl_devices :: "Device list"
  tbl_broker_accounts :: "BrokerAccount list"
  tbl_addresses :: "address_row list"
  tbl_certificates :: "Certificate list"

definition empty_registry :: registry where
  "empty_registry = \<lparr>tbl_tenants = [], tbl_steps = [], tbl_audit = [], tbl_workloads = [], tbl_records = [],
     tbl_wifi_keys = [], tbl_admission_keys = [], tbl_devices = [], tbl_broker_accounts = [],
     tbl_addresses = [], tbl_certificates = []\<rparr>"

text \<open>Primary keys.\<close>

definition wl_key :: "Workload \<Rightarrow> string \<times> string" where "wl_key w = (wl_Tenant w, wl_Name w)"
definition er_key :: "ExtraRecord \<Rightarrow> string \<times> string" where "er_key r = (er_Tenant r, er_Name r)"
definition wk_key :: "WiFiKey \<Rightarrow> string \<times> string" where "wk_key k = (wk_Tenant k, wk_Name k)"
definition dv_key :: "Device \<Rightarrow> string \<times> string" where "dv_key d = (dv_Tenant d, dv_Name d)"
definition ba_key :: "BrokerAccount \<Rightarrow> string \<times> string" where "ba_key a = (ba_Tenant a, ba_Name a)"
definition ad_key :: "address_row \<Rightarrow> string \<times> string" where "ad_key a = (ad_tenant a, ad_device a)"
definition ct_key :: "Certificate \<Rightarrow> string \<times> string" where "ct_key c = (ct_Tenant c, ct_Name c)"
definition sr_key :: "step_row \<Rightarrow> string \<times> step" where "sr_key s = (sr_tenant s, st_Name (sr_step s))"

text \<open>A violated constraint is an error of the driver, which no sentinel of the service matches.\<close>

definition violation :: err where "violation = ErrOther ''constraint violation''"

type_synonym 'a tx = "registry \<Rightarrow> err + 'a \<times> registry"

definition has_tenant :: "registry \<Rightarrow> string \<Rightarrow> bool" where
  "has_tenant r name = (get_row tn_name name (tbl_tenants r) \<noteq> None)"

definition read_tx :: "(registry \<Rightarrow> 'a) \<Rightarrow> 'a tx" where
  "read_tx f r = Inr (f r, r)"

definition get_tx :: "(registry \<Rightarrow> 'a option) \<Rightarrow> 'a tx" where
  "get_tx f r = (case f r of None \<Rightarrow> Inl ErrNotFound | Some x \<Rightarrow> Inr (x, r))"

text \<open>\<^verbatim>\<open>execOne\<close>: no row affected is \<^verbatim>\<open>ErrNotFound\<close>.\<close>

definition execOne :: "(registry \<Rightarrow> bool) \<Rightarrow> (registry \<Rightarrow> registry) \<Rightarrow> unit tx" where
  "execOne affected f r = (if affected r then Inr ((), f r) else Inl ErrNotFound)"

section \<open>Tenants\<close>

definition tx_tenant :: "string \<Rightarrow> tenant_row tx" where
  "tx_tenant name = get_tx (\<lambda>r. get_row tn_name name (tbl_tenants r))"

definition tx_steps :: "string \<Rightarrow> Step list tx" where
  "tx_steps name = read_tx (\<lambda>r. map sr_step (filter (\<lambda>s. sr_tenant s = name) (tbl_steps r)))"

definition tx_tenants :: "tenant_row list tx" where
  "tx_tenants = read_tx (\<lambda>r. sort_key tn_idx (tbl_tenants r))"

definition held_indexes :: "registry \<Rightarrow> int \<rightharpoonup> string" where
  "held_indexes r = map_of (map (\<lambda>t. (tn_idx t, tn_name t)) (tbl_tenants r))"

definition tx_create :: "string \<Rightarrow> Secrets \<Rightarrow> ((int \<rightharpoonup> string) \<Rightarrow> err + int) \<Rightarrow> tenant_row tx" where
  "tx_create name sealed pick r =
     (if has_tenant r name then Inl ErrExists
      else (case pick (held_indexes r) of Inl e \<Rightarrow> Inl e
        | Inr n \<Rightarrow>
            if \<not> nameRE name \<or> n < 1 \<or> n > 63 \<or> held_indexes r n \<noteq> None then Inl violation
            else let row = \<lparr>tn_name = name, tn_idx = n, tn_status = StatusProvisioning,
                     tn_secrets = sealed\<lparr>sec_Unreadable := False\<rparr>, tn_org = 0\<rparr>
              in Inr (row, r\<lparr>tbl_tenants := tbl_tenants r @ [row]\<rparr>)))"

definition upd_tenant :: "string \<Rightarrow> (tenant_row \<Rightarrow> tenant_row) \<Rightarrow> unit tx" where
  "upd_tenant name f =
     execOne (\<lambda>r. has_tenant r name) (\<lambda>r. r\<lparr>tbl_tenants := update_row tn_name name f (tbl_tenants r)\<rparr>)"

definition tx_set_status :: "string \<Rightarrow> status \<Rightarrow> unit tx" where
  "tx_set_status name st = upd_tenant name (\<lambda>t. t\<lparr>tn_status := st\<rparr>)"

definition tx_set_secrets :: "string \<Rightarrow> Secrets \<Rightarrow> unit tx" where
  "tx_set_secrets name sealed = upd_tenant name (\<lambda>t. t\<lparr>tn_secrets := sealed\<lparr>sec_Unreadable := False\<rparr>\<rparr>)"

definition tx_set_org :: "string \<Rightarrow> int \<Rightarrow> unit tx" where
  "tx_set_org name org = upd_tenant name (\<lambda>t. t\<lparr>tn_org := org\<rparr>)"

text \<open>The upsert moves the step to the end of the order by \<^verbatim>\<open>updated_at\<close>.\<close>

definition tx_record_step :: "string \<Rightarrow> step \<Rightarrow> err option \<Rightarrow> unit tx" where
  "tx_record_step name st e r =
     (if \<not> has_tenant r name then Inl violation
      else let row = \<lparr>sr_tenant = name, sr_step = \<lparr>st_Name = st, st_OK = (e = None), st_Error = e\<rparr>\<rparr> in
        Inr ((), r\<lparr>tbl_steps := delete_row sr_key (name, st) (tbl_steps r) @ [row]\<rparr>))"

text \<open>\<^verbatim>\<open>DELETE FROM tenants\<close> with every \<^verbatim>\<open>ON DELETE CASCADE\<close>.\<close>

definition cascade_tenant :: "string \<Rightarrow> registry \<Rightarrow> registry" where
  "cascade_tenant name r = r\<lparr>
     tbl_tenants := delete_row tn_name name (tbl_tenants r),
     tbl_steps := delete_row sr_tenant name (tbl_steps r),
     tbl_workloads := delete_row wl_Tenant name (tbl_workloads r),
     tbl_records := delete_row er_Tenant name (tbl_records r),
     tbl_wifi_keys := delete_row wk_Tenant name (tbl_wifi_keys r),
     tbl_devices := delete_row dv_Tenant name (tbl_devices r),
     tbl_broker_accounts := delete_row ba_Tenant name (tbl_broker_accounts r),
     tbl_addresses := delete_row ad_tenant name (tbl_addresses r),
     tbl_certificates := delete_row ct_Tenant name (tbl_certificates r)\<rparr>"

definition tx_delete_tenant :: "string \<Rightarrow> unit tx" where
  "tx_delete_tenant name = execOne (\<lambda>r. has_tenant r name) (cascade_tenant name)"

definition tx_audit :: "AuditEntry \<Rightarrow> unit tx" where
  "tx_audit e r = Inr ((), r\<lparr>tbl_audit := tbl_audit r @ [e]\<rparr>)"

section \<open>Workloads and published names\<close>

definition sizing_ok :: "Workload \<Rightarrow> bool" where
  "sizing_ok w = (wl_Cores w > 0 \<and> wl_MemoryMB w > 0 \<and> wl_DiskGB w \<ge> 0)"

definition wl_resize :: "Workload \<Rightarrow> Workload \<Rightarrow> Workload" where
  "wl_resize old new = old\<lparr>wl_Cores := wl_Cores new, wl_MemoryMB := wl_MemoryMB new,
     wl_DiskGB := wl_DiskGB new, wl_SSHKeys := wl_SSHKeys new\<rparr>"

definition ordinal_taken :: "registry \<Rightarrow> string \<Rightarrow> int \<Rightarrow> bool" where
  "ordinal_taken r tenant n = (n \<in> set (map wl_Ordinal (filter (\<lambda>w. wl_Tenant w = tenant) (tbl_workloads r))))"

definition tx_create_workload :: "Site \<Rightarrow> Workload \<Rightarrow> Workload tx" where
  "tx_create_workload site w r =
     (case get_row wl_key (wl_key w) (tbl_workloads r) of
        Some old \<Rightarrow>
          if sizing_ok w then
            Inr (wl_resize old w, r\<lparr>tbl_workloads := update_row wl_key (wl_key w) (\<lambda>x. wl_resize x w) (tbl_workloads r)\<rparr>)
          else Inl violation
      | None \<Rightarrow>
          (case get_row tn_name (wl_Tenant w) (tbl_tenants r) of
             None \<Rightarrow> Inl ErrNotFound
           | Some t \<Rightarrow>
               (case next_ordinal (ordinal_taken r (wl_Tenant w)) 0 of
                  None \<Rightarrow> Inl ErrWorkloadsExhausted
                | Some n \<Rightarrow>
                    let vmid = WorkloadVMID site (tn_idx t) n;
                        w' = w\<lparr>wl_Ordinal := n, wl_VMID := vmid, wl_MAC := MAC site vmid,
                               wl_Address := WorkloadAddress site (tn_idx t) n\<rparr> in
                    if \<not> workloadNameRE (wl_Name w') \<or> n < 0 \<or> \<not> sizing_ok w' \<or> ordinal_taken r (wl_Tenant w) n
                    then Inl violation
                    else Inr (w', r\<lparr>tbl_workloads := tbl_workloads r @ [w']\<rparr>))))"

definition tx_workload :: "string \<Rightarrow> string \<Rightarrow> Workload tx" where
  "tx_workload tenant name = get_tx (\<lambda>r. get_row wl_key (tenant, name) (tbl_workloads r))"

definition tx_workloads :: "string \<Rightarrow> Workload list tx" where
  "tx_workloads tenant = read_tx (\<lambda>r. sort_key wl_Ordinal (filter (\<lambda>w. wl_Tenant w = tenant) (tbl_workloads r)))"

definition tx_set_workload_status :: "string \<Rightarrow> string \<Rightarrow> status \<Rightarrow> unit tx" where
  "tx_set_workload_status tenant name st =
     execOne (\<lambda>r. get_row wl_key (tenant, name) (tbl_workloads r) \<noteq> None)
       (\<lambda>r. r\<lparr>tbl_workloads := update_row wl_key (tenant, name) (\<lambda>w. w\<lparr>wl_Status := st\<rparr>) (tbl_workloads r)\<rparr>)"

definition tx_delete_workload :: "string \<Rightarrow> string \<Rightarrow> unit tx" where
  "tx_delete_workload tenant name =
     execOne (\<lambda>r. get_row wl_key (tenant, name) (tbl_workloads r) \<noteq> None)
       (\<lambda>r. r\<lparr>tbl_workloads := delete_row wl_key (tenant, name) (tbl_workloads r)\<rparr>)"

definition er_update :: "ExtraRecord \<Rightarrow> ExtraRecord \<Rightarrow> ExtraRecord" where
  "er_update old new = old\<lparr>er_Address := er_Address new\<rparr>"

definition tx_put_record :: "ExtraRecord \<Rightarrow> unit tx" where
  "tx_put_record x r =
     (if \<not> workloadNameRE (er_Name x) \<or> \<not> has_tenant r (er_Tenant x) then Inl violation
      else Inr ((), r\<lparr>tbl_records := upsert_row er_key er_update x (tbl_records r)\<rparr>))"

definition tx_records :: "string \<Rightarrow> ExtraRecord list tx" where
  "tx_records tenant = read_tx (\<lambda>r. sort_key er_Name (filter (\<lambda>x. er_Tenant x = tenant) (tbl_records r)))"

definition tx_delete_record :: "string \<Rightarrow> string \<Rightarrow> unit tx" where
  "tx_delete_record tenant name =
     execOne (\<lambda>r. get_row er_key (tenant, name) (tbl_records r) \<noteq> None)
       (\<lambda>r. r\<lparr>tbl_records := delete_row er_key (tenant, name) (tbl_records r)\<rparr>)"

section \<open>Wi-Fi and admission keys\<close>

definition wk_update :: "WiFiKey \<Rightarrow> WiFiKey \<Rightarrow> WiFiKey" where
  "wk_update old new = old\<lparr>wk_PSK := wk_PSK new, wk_MAC := wk_MAC new, wk_Status := wk_Status new\<rparr>"

text \<open>\<open>k\<close> carries the sealed password; \<^verbatim>\<open>Unreadable\<close> is not a column.\<close>

definition tx_put_wifi_key :: "WiFiKey \<Rightarrow> WiFiKey tx" where
  "tx_put_wifi_key k r =
     (if \<not> has_tenant r (wk_Tenant k) then Inl ErrNotFound
      else if \<not> workloadNameRE (wk_Name k) then Inl violation
      else let row = k\<lparr>wk_Unreadable := False\<rparr>; rows = upsert_row wk_key wk_update row (tbl_wifi_keys r) in
        (case get_row wk_key (wk_key row) rows of None \<Rightarrow> Inl violation
         | Some out \<Rightarrow> Inr (out, r\<lparr>tbl_wifi_keys := rows\<rparr>)))"

definition tx_wifi_key :: "string \<Rightarrow> string \<Rightarrow> WiFiKey tx" where
  "tx_wifi_key tenant name = get_tx (\<lambda>r. get_row wk_key (tenant, name) (tbl_wifi_keys r))"

definition tx_wifi_keys :: "string \<Rightarrow> WiFiKey list tx" where
  "tx_wifi_keys tenant = read_tx (\<lambda>r. filter (\<lambda>k. wk_Tenant k = tenant) (tbl_wifi_keys r))"

definition tx_set_wifi_key_status :: "string \<Rightarrow> string \<Rightarrow> status \<Rightarrow> unit tx" where
  "tx_set_wifi_key_status tenant name st =
     execOne (\<lambda>r. get_row wk_key (tenant, name) (tbl_wifi_keys r) \<noteq> None)
       (\<lambda>r. r\<lparr>tbl_wifi_keys := update_row wk_key (tenant, name) (\<lambda>k. k\<lparr>wk_Status := st\<rparr>) (tbl_wifi_keys r)\<rparr>)"

definition tx_delete_wifi_key :: "string \<Rightarrow> string \<Rightarrow> unit tx" where
  "tx_delete_wifi_key tenant name r =
     Inr ((), r\<lparr>tbl_wifi_keys := delete_row wk_key (tenant, name) (tbl_wifi_keys r)\<rparr>)"

definition ak_update :: "AdmissionKey \<Rightarrow> AdmissionKey \<Rightarrow> AdmissionKey" where
  "ak_update old new = old\<lparr>ak_PSK := ak_PSK new, ak_MAC := ak_MAC new\<rparr>"

definition tx_put_admission_key :: "AdmissionKey \<Rightarrow> unit tx" where
  "tx_put_admission_key k r =
     (if \<not> nameRE (ak_Tenant k) then Inl violation
      else Inr ((), r\<lparr>tbl_admission_keys :=
        upsert_row ak_Tenant ak_update (k\<lparr>ak_Unreadable := False\<rparr>) (tbl_admission_keys r)\<rparr>))"

definition tx_admission_key :: "string \<Rightarrow> AdmissionKey tx" where
  "tx_admission_key name = get_tx (\<lambda>r. get_row ak_Tenant name (tbl_admission_keys r))"

definition tx_delete_admission_key :: "string \<Rightarrow> unit tx" where
  "tx_delete_admission_key name r =
     Inr ((), r\<lparr>tbl_admission_keys := delete_row ak_Tenant name (tbl_admission_keys r)\<rparr>)"

section \<open>Devices and their addresses\<close>

definition dv_update :: "Device \<Rightarrow> Device \<Rightarrow> Device" where
  "dv_update old new = old\<lparr>dv_MAC := dv_MAC new, dv_Status := dv_Status new\<rparr>"

definition tx_put_device :: "Device \<Rightarrow> Device tx" where
  "tx_put_device d r =
     (if \<not> has_tenant r (dv_Tenant d) then Inl ErrNotFound
      else if \<not> workloadNameRE (dv_Name d) then Inl violation
      else let rows = upsert_row dv_key dv_update d (tbl_devices r) in
        (case get_row dv_key (dv_key d) rows of None \<Rightarrow> Inl violation
         | Some out \<Rightarrow> Inr (out, r\<lparr>tbl_devices := rows\<rparr>)))"

definition tx_device :: "string \<Rightarrow> string \<Rightarrow> Device tx" where
  "tx_device tenant name = get_tx (\<lambda>r. get_row dv_key (tenant, name) (tbl_devices r))"

definition tx_devices :: "string \<Rightarrow> Device list tx" where
  "tx_devices tenant = read_tx (\<lambda>r. filter (\<lambda>d. dv_Tenant d = tenant) (tbl_devices r))"

text \<open>Deleting a device takes its address with it.\<close>

definition tx_delete_device :: "string \<Rightarrow> string \<Rightarrow> unit tx" where
  "tx_delete_device tenant name r =
     Inr ((), r\<lparr>tbl_devices := delete_row dv_key (tenant, name) (tbl_devices r),
                tbl_addresses := delete_row ad_key (tenant, name) (tbl_addresses r)\<rparr>)"

text \<open>\<^verbatim>\<open>addressSelect\<close>: the join with the device, whose MAC it carries.\<close>

definition address_join :: "registry \<Rightarrow> address_row \<Rightarrow> DeviceAddress list" where
  "address_join r a =
     (case get_row dv_key (ad_key a) (tbl_devices r) of None \<Rightarrow> []
      | Some d \<Rightarrow> [\<lparr>da_Tenant = ad_tenant a, da_Device = ad_device a, da_TrustClass = ad_class a,
           da_Address = ad_address a, da_MAC = dv_MAC d, da_Status = ad_status a\<rparr>])"

definition select_addresses :: "registry \<Rightarrow> (address_row \<Rightarrow> bool) \<Rightarrow> DeviceAddress list" where
  "select_addresses r P = concat (map (address_join r) (filter P (tbl_addresses r)))"

definition set_address_status :: "string \<Rightarrow> string \<Rightarrow> status \<Rightarrow> registry \<Rightarrow> registry" where
  "set_address_status tenant device st r =
     r\<lparr>tbl_addresses := update_row ad_key (tenant, device) (\<lambda>a. a\<lparr>ad_status := st\<rparr>) (tbl_addresses r)\<rparr>"

definition tx_create_address :: "DeviceAddress \<Rightarrow> (DeviceAddress list \<Rightarrow> err + string) \<Rightarrow> unit tx" where
  "tx_create_address a pick r =
     (if get_row ad_key (da_Tenant a, da_Device a) (tbl_addresses r) \<noteq> None
      then Inr ((), set_address_status (da_Tenant a) (da_Device a) (da_Status a) r)
      else (case pick (select_addresses r (\<lambda>x. ad_class x = da_TrustClass a)) of
          Inl e \<Rightarrow> Inl e
        | Inr address \<Rightarrow>
            if get_row dv_key (da_Tenant a, da_Device a) (tbl_devices r) = None then Inl ErrNotFound
            else if (da_TrustClass a, address) \<in> set (map (\<lambda>x. (ad_class x, ad_address x)) (tbl_addresses r))
            then Inl violation
            else Inr ((), r\<lparr>tbl_addresses := tbl_addresses r @
              [\<lparr>ad_tenant = da_Tenant a, ad_device = da_Device a, ad_class = da_TrustClass a,
                ad_address = address, ad_status = da_Status a\<rparr>]\<rparr>)))"

definition tx_address :: "string \<Rightarrow> string \<Rightarrow> DeviceAddress tx" where
  "tx_address tenant device =
     get_tx (\<lambda>r. case select_addresses r (\<lambda>a. ad_key a = (tenant, device)) of [] \<Rightarrow> None | a # _ \<Rightarrow> Some a)"

definition tx_tenant_addresses :: "string \<Rightarrow> DeviceAddress list tx" where
  "tx_tenant_addresses tenant = read_tx (\<lambda>r. select_addresses r (\<lambda>a. ad_tenant a = tenant))"

definition tx_class_addresses :: "string \<Rightarrow> DeviceAddress list tx" where
  "tx_class_addresses cls = read_tx (\<lambda>r. select_addresses r (\<lambda>a. ad_class a = cls))"

definition tx_set_address_status :: "string \<Rightarrow> string \<Rightarrow> status \<Rightarrow> unit tx" where
  "tx_set_address_status tenant device st =
     execOne (\<lambda>r. get_row ad_key (tenant, device) (tbl_addresses r) \<noteq> None) (set_address_status tenant device st)"

definition tx_delete_address :: "string \<Rightarrow> string \<Rightarrow> unit tx" where
  "tx_delete_address tenant device r =
     Inr ((), r\<lparr>tbl_addresses := delete_row ad_key (tenant, device) (tbl_addresses r)\<rparr>)"

section \<open>Broker accounts\<close>

definition ba_update :: "BrokerAccount \<Rightarrow> BrokerAccount \<Rightarrow> BrokerAccount" where
  "ba_update old new = old\<lparr>ba_Device := ba_Device new, ba_PasswordHash := ba_PasswordHash new,
     ba_Publish := ba_Publish new, ba_Subscribe := ba_Subscribe new, ba_Status := ba_Status new\<rparr>"

definition tx_put_broker_account :: "BrokerAccount \<Rightarrow> BrokerAccount tx" where
  "tx_put_broker_account a r =
     (if \<not> has_tenant r (ba_Tenant a) then Inl ErrNotFound
      else if \<not> workloadNameRE (ba_Name a) then Inl violation
      else let rows = upsert_row ba_key ba_update a (tbl_broker_accounts r) in
        (case get_row ba_key (ba_key a) rows of None \<Rightarrow> Inl violation
         | Some out \<Rightarrow> Inr (out, r\<lparr>tbl_broker_accounts := rows\<rparr>)))"

definition tx_broker_account :: "string \<Rightarrow> string \<Rightarrow> BrokerAccount tx" where
  "tx_broker_account tenant name = get_tx (\<lambda>r. get_row ba_key (tenant, name) (tbl_broker_accounts r))"

definition tx_broker_accounts :: "string \<Rightarrow> BrokerAccount list tx" where
  "tx_broker_accounts tenant = read_tx (\<lambda>r. filter (\<lambda>a. ba_Tenant a = tenant) (tbl_broker_accounts r))"

definition tx_set_broker_account_status :: "string \<Rightarrow> string \<Rightarrow> status \<Rightarrow> unit tx" where
  "tx_set_broker_account_status tenant name st =
     execOne (\<lambda>r. get_row ba_key (tenant, name) (tbl_broker_accounts r) \<noteq> None)
       (\<lambda>r. r\<lparr>tbl_broker_accounts :=
          update_row ba_key (tenant, name) (\<lambda>a. a\<lparr>ba_Status := st\<rparr>) (tbl_broker_accounts r)\<rparr>)"

definition tx_delete_broker_account :: "string \<Rightarrow> string \<Rightarrow> unit tx" where
  "tx_delete_broker_account tenant name r =
     Inr ((), r\<lparr>tbl_broker_accounts := delete_row ba_key (tenant, name) (tbl_broker_accounts r)\<rparr>)"

section \<open>Certificates\<close>

definition ct_update :: "Certificate \<Rightarrow> Certificate \<Rightarrow> Certificate" where
  "ct_update old new = old\<lparr>ct_Names := ct_Names new, ct_KeyFingerprint := ct_KeyFingerprint new,
     ct_Serial := ct_Serial new, ct_NotBefore := ct_NotBefore new, ct_NotAfter := ct_NotAfter new,
     ct_PEM := ct_PEM new, ct_Chain := ct_Chain new\<rparr>"

definition tx_put_certificate :: "Certificate \<Rightarrow> Certificate tx" where
  "tx_put_certificate c r =
     (if \<not> has_tenant r (ct_Tenant c) then Inl ErrNotFound
      else if \<not> workloadNameRE (ct_Name c) then Inl violation
      else let rows = upsert_row ct_key ct_update c (tbl_certificates r) in
        (case get_row ct_key (ct_key c) rows of None \<Rightarrow> Inl violation
         | Some out \<Rightarrow> Inr (out, r\<lparr>tbl_certificates := rows\<rparr>)))"

definition tx_certificate :: "string \<Rightarrow> string \<Rightarrow> Certificate tx" where
  "tx_certificate tenant name = get_tx (\<lambda>r. get_row ct_key (tenant, name) (tbl_certificates r))"

definition tx_certificates :: "string \<Rightarrow> Certificate list tx" where
  "tx_certificates tenant = read_tx (\<lambda>r. sort_key ct_Name (filter (\<lambda>c. ct_Tenant c = tenant) (tbl_certificates r)))"

definition tx_delete_certificate :: "string \<Rightarrow> string \<Rightarrow> unit tx" where
  "tx_delete_certificate tenant name r =
     Inr ((), r\<lparr>tbl_certificates := delete_row ct_key (tenant, name) (tbl_certificates r)\<rparr>)"

end
