(* ===== verification/RegistryInv.thy ===== *)
theory RegistryInv
  imports Registry
begin

text \<open>
  The registry as a state machine: \<open>store_step\<close> has one rule for each statement or transaction that
  writes, with the arguments the service passes, so any interleaving of requests on any number of API
  instances is a sequence of its steps. \<open>reg_inv\<close> is what makes a registry sound: keys are unique,
  children belong to registered tenants, every index is allocatable and held once, a workload's
  identity is the one derived from its tenant's index and its ordinal, and a fixed address lies in the
  range of its class, is held once and within the tenant's share. It holds in every reachable state.
\<close>

section \<open>Steps\<close>

inductive store_step :: "Site \<Rightarrow> registry \<Rightarrow> registry \<Rightarrow> bool" for site where
  create: "tx_create name sealed (\<lambda>held. pickIndex name requested held claims) r = Inr (row, r') \<Longrightarrow>
    requested = 0 \<or> MinIndex \<le> requested \<and> requested \<le> MaxAllocatable \<Longrightarrow> store_step site r r'"
| set_status: "tx_set_status name st r = Inr (u, r') \<Longrightarrow> store_step site r r'"
| set_secrets: "tx_set_secrets name sealed r = Inr (u, r') \<Longrightarrow> store_step site r r'"
| set_org: "tx_set_org name org r = Inr (u, r') \<Longrightarrow> store_step site r r'"
| record_step: "tx_record_step name st e r = Inr (u, r') \<Longrightarrow> store_step site r r'"
| delete_tenant: "tx_delete_tenant name r = Inr (u, r') \<Longrightarrow> store_step site r r'"
| audit: "tx_audit entry r = Inr (u, r') \<Longrightarrow> store_step site r r'"
| create_workload: "tx_create_workload site w r = Inr (w', r') \<Longrightarrow> store_step site r r'"
| set_workload_status: "tx_set_workload_status tn name st r = Inr (u, r') \<Longrightarrow> store_step site r r'"
| delete_workload: "tx_delete_workload tn name r = Inr (u, r') \<Longrightarrow> store_step site r r'"
| put_record: "tx_put_record x r = Inr (u, r') \<Longrightarrow> store_step site r r'"
| delete_record: "tx_delete_record tn name r = Inr (u, r') \<Longrightarrow> store_step site r r'"
| put_wifi_key: "tx_put_wifi_key k r = Inr (k', r') \<Longrightarrow> store_step site r r'"
| set_wifi_key_status: "tx_set_wifi_key_status tn name st r = Inr (u, r') \<Longrightarrow> store_step site r r'"
| delete_wifi_key: "tx_delete_wifi_key tn name r = Inr (u, r') \<Longrightarrow> store_step site r r'"
| put_admission_key: "tx_put_admission_key ak r = Inr (u, r') \<Longrightarrow> store_step site r r'"
| delete_admission_key: "tx_delete_admission_key name r = Inr (u, r') \<Longrightarrow> store_step site r r'"
| put_device: "tx_put_device d r = Inr (d', r') \<Longrightarrow> store_step site r r'"
| delete_device: "tx_delete_device tn name r = Inr (u, r') \<Longrightarrow> store_step site r r'"
| create_address:
    "tx_create_address a (\<lambda>held. pickAddress rg (AddressQuota site) (da_Tenant a) mac requested' held) r = Inr (u, r') \<Longrightarrow>
     map_of (site_AddressRanges site) (da_TrustClass a) = Some rg \<Longrightarrow>
     requested' = [] \<or> (\<exists>x. range_Contains rg x \<and> requested' = AddrString x) \<Longrightarrow> store_step site r r'"
| set_address_status: "tx_set_address_status tn name st r = Inr (u, r') \<Longrightarrow> store_step site r r'"
| delete_address: "tx_delete_address tn name r = Inr (u, r') \<Longrightarrow> store_step site r r'"
| put_broker_account: "tx_put_broker_account b r = Inr (b', r') \<Longrightarrow> store_step site r r'"
| set_broker_account_status: "tx_set_broker_account_status tn name st r = Inr (u, r') \<Longrightarrow> store_step site r r'"
| delete_broker_account: "tx_delete_broker_account tn name r = Inr (u, r') \<Longrightarrow> store_step site r r'"
| put_certificate: "tx_put_certificate c r = Inr (c', r') \<Longrightarrow> store_step site r r'"
| delete_certificate: "tx_delete_certificate tn name r = Inr (u, r') \<Longrightarrow> store_step site r r'"

section \<open>The invariant\<close>

text \<open>Who is registered, and under which index.\<close>

definition idents :: "registry \<Rightarrow> (string \<times> int) list" where
  "idents r = map (\<lambda>t. (tn_name t, tn_idx t)) (tbl_tenants r)"

definition idents_ok :: "(string \<times> int) list \<Rightarrow> bool" where
  "idents_ok ids = (unique_on fst ids \<and> unique_on snd ids \<and>
     (\<forall>(name, i) \<in> set ids. ValidName name \<and> 1 \<le> i \<and> i \<le> 62))"

definition registered :: "(string \<times> int) list \<Rightarrow> string \<Rightarrow> bool" where
  "registered ids name = (\<exists>i. (name, i) \<in> set ids)"

definition table_ok :: "(string \<times> int) list \<Rightarrow> ('r \<Rightarrow> 'k) \<Rightarrow> ('r \<Rightarrow> string) \<Rightarrow> 'r list \<Rightarrow> bool" where
  "table_ok ids key owner rows = (unique_on key rows \<and> (\<forall>x \<in> set rows. registered ids (owner x)))"

definition placed :: "Site \<Rightarrow> (string \<times> int) list \<Rightarrow> Workload \<Rightarrow> bool" where
  "placed site ids w =
     (\<exists>i. (wl_Tenant w, i) \<in> set ids \<and> 0 \<le> wl_Ordinal w \<and> wl_Ordinal w < MaxWorkloads \<and>
        wl_VMID w = WorkloadVMID site i (wl_Ordinal w) \<and> wl_MAC w = MAC site (wl_VMID w) \<and>
        wl_Address w = WorkloadAddress site i (wl_Ordinal w))"

definition workloads_ok :: "Site \<Rightarrow> (string \<times> int) list \<Rightarrow> Workload list \<Rightarrow> bool" where
  "workloads_ok site ids ws =
     (unique_on wl_key ws \<and> unique_on (\<lambda>w. (wl_Tenant w, wl_Ordinal w)) ws \<and> (\<forall>w \<in> set ws. placed site ids w))"

definition share :: "string \<Rightarrow> string \<Rightarrow> address_row list \<Rightarrow> nat" where
  "share tn cls rows = length (filter (\<lambda>a. ad_class a = cls \<and> ad_tenant a = tn) rows)"

definition addresses_ok :: "Site \<Rightarrow> Device list \<Rightarrow> address_row list \<Rightarrow> bool" where
  "addresses_ok site devs rows =
     (unique_on ad_key rows \<and> unique_on (\<lambda>a. (ad_class a, ad_address a)) rows \<and>
      (\<forall>a \<in> set rows. \<exists>d \<in> set devs. dv_key d = ad_key a) \<and>
      (\<forall>a \<in> set rows. \<exists>rg x. map_of (site_AddressRanges site) (ad_class a) = Some rg \<and>
         range_Contains rg x \<and> ad_address a = AddrString x) \<and>
      (\<forall>tn cls. int (share tn cls rows) \<le> AddressQuota site))"

definition reg_inv :: "Site \<Rightarrow> registry \<Rightarrow> bool" where
  "reg_inv site r =
     (let ids = idents r in
      idents_ok ids \<and> table_ok ids sr_key sr_tenant (tbl_steps r) \<and> workloads_ok site ids (tbl_workloads r) \<and>
      table_ok ids er_key er_Tenant (tbl_records r) \<and> table_ok ids wk_key wk_Tenant (tbl_wifi_keys r) \<and>
      unique_on ak_Tenant (tbl_admission_keys r) \<and> table_ok ids dv_key dv_Tenant (tbl_devices r) \<and>
      table_ok ids ba_key ba_Tenant (tbl_broker_accounts r) \<and>
      addresses_ok site (tbl_devices r) (tbl_addresses r) \<and>
      table_ok ids ct_key ct_Tenant (tbl_certificates r))"

lemmas key_defs = wl_key_def er_key_def wk_key_def dv_key_def ba_key_def ad_key_def ct_key_def sr_key_def

interpretation records: keyed_table er_key er_update
  by unfold_locales (simp add: er_key_def er_update_def)

interpretation wifi_keys: keyed_table wk_key wk_update
  by unfold_locales (simp add: wk_key_def wk_update_def)

interpretation admission_keys: keyed_table ak_Tenant ak_update
  by unfold_locales (simp add: ak_update_def)

interpretation devices: keyed_table dv_key dv_update
  by unfold_locales (simp add: dv_key_def dv_update_def)

interpretation broker_accounts: keyed_table ba_key ba_update
  by unfold_locales (simp add: ba_key_def ba_update_def)

interpretation certificates: keyed_table ct_key ct_update
  by unfold_locales (simp add: ct_key_def ct_update_def)

subsection \<open>One table at a time\<close>

lemma has_tenant_idents: "has_tenant r name \<longleftrightarrow> registered (idents r) name"
  by (auto simp: has_tenant_def idents_def registered_def get_row_None image_iff)

lemma get_tenant_idents: "get_row tn_name name (tbl_tenants r) = Some t \<Longrightarrow> (name, tn_idx t) \<in> set (idents r)"
  using get_row_Some[of tn_name name "tbl_tenants r" t] by (auto simp: idents_def image_iff)

lemma held_indexes_None: "held_indexes r n = None \<longleftrightarrow> n \<notin> snd ` set (idents r)"
  by (auto simp: held_indexes_def idents_def map_of_eq_None_iff image_iff)

lemma idents_update: "(\<And>t. tn_name (f t) = tn_name t \<and> tn_idx (f t) = tn_idx t) \<Longrightarrow>
    idents (r\<lparr>tbl_tenants := update_row tn_name name f (tbl_tenants r)\<rparr>) = idents r"
  by (auto simp: idents_def update_row_def)

lemma registered_mono: "registered ids name \<Longrightarrow> set ids \<subseteq> set ids' \<Longrightarrow> registered ids' name"
  by (auto simp: registered_def)

lemma registered_filter:
  "registered (filter (\<lambda>p. fst p \<noteq> gone) ids) name \<longleftrightarrow> registered ids name \<and> name \<noteq> gone"
  by (auto simp: registered_def)

lemma table_ok_mono: "table_ok ids key owner rows \<Longrightarrow> set ids \<subseteq> set ids' \<Longrightarrow> table_ok ids' key owner rows"
  using registered_mono by (fastforce simp: table_ok_def)

lemma table_ok_delete_tenant:
  "table_ok ids key owner rows \<Longrightarrow>
     table_ok (filter (\<lambda>p. fst p \<noteq> name) ids) key owner (delete_row owner name rows)"
  by (auto simp: table_ok_def delete_row_def unique_filter registered_filter)

lemma table_ok_delete: "table_ok ids key owner rows \<Longrightarrow> table_ok ids key owner (delete_row k' j rows)"
  by (auto simp: table_ok_def delete_row_def unique_filter)

lemma table_ok_update:
  assumes "table_ok ids key owner rows" "\<And>x. key (f x) = key x" "\<And>x. owner (f x) = owner x"
  shows "table_ok ids key owner (update_row k' j f rows)"
proof -
  have "unique_on key (update_row k' j f rows)"
    using assms(1,2) by (subst unique_update_row) (auto simp: table_ok_def)
  moreover have "registered ids (owner x)" if "x \<in> set (update_row k' j f rows)" for x
    using that assms(1,3) set_update_row[OF that] by (auto simp: table_ok_def)
  ultimately show ?thesis by (simp add: table_ok_def)
qed

lemma table_ok_append:
  "table_ok ids key owner rows \<Longrightarrow> registered ids (owner x) \<Longrightarrow> key x \<notin> key ` set rows \<Longrightarrow>
     table_ok ids key owner (rows @ [x])"
  by (auto simp: table_ok_def unique_on_def)

context keyed_table
begin

lemma table_ok_upsert:
  assumes "table_ok ids key owner rows" "registered ids (owner r)"
    and "\<And>old. key old = key r \<Longrightarrow> owner (upd old r) = owner r"
  shows "table_ok ids key owner (upsert_row key upd r rows)"
  unfolding table_ok_def
proof (intro conjI ballI)
  show "unique_on key (upsert_row key upd r rows)"
    using assms(1) unique_upsert by (simp add: table_ok_def)
  fix x
  assume "x \<in> set (upsert_row key upd r rows)"
  then show "registered ids (owner x)"
    using set_upsert[of x r rows] assms by (auto simp: table_ok_def)
qed

end

subsection \<open>Tenants\<close>

lemma idents_ok_snoc:
  "idents_ok ids \<Longrightarrow> \<not> registered ids name \<Longrightarrow> n \<notin> snd ` set ids \<Longrightarrow> ValidName name \<Longrightarrow> 1 \<le> n \<Longrightarrow> n \<le> 62 \<Longrightarrow>
     idents_ok (ids @ [(name, n)])"
  by (auto simp: idents_ok_def unique_on_def registered_def)

lemma idents_ok_filter: "idents_ok ids \<Longrightarrow> idents_ok (filter P ids)"
  by (auto simp: idents_ok_def unique_filter)

lemma idents_cascade: "idents (cascade_tenant name r) = filter (\<lambda>p. fst p \<noteq> name) (idents r)"
  by (simp add: idents_def cascade_tenant_def delete_row_def filter_map comp_def)

lemma idents_ok_index: "idents_ok ids \<Longrightarrow> (name, i) \<in> set ids \<Longrightarrow> (name, j) \<in> set ids \<Longrightarrow> i = j"
  by (auto simp: idents_ok_def unique_on_def eq_key_imp_eq_value)

lemma idents_ok_name: "idents_ok ids \<Longrightarrow> (a, i) \<in> set ids \<Longrightarrow> (b, i) \<in> set ids \<Longrightarrow> a = b"
proof -
  assume "idents_ok ids" and ab: "(a, i) \<in> set ids" "(b, i) \<in> set ids"
  then have "inj_on snd (set ids)" by (simp add: idents_ok_def unique_on_def distinct_map)
  from inj_onD[OF this, of "(a, i)" "(b, i)"] ab show ?thesis by simp
qed

subsection \<open>Workloads\<close>

lemma placed_mono: "placed site ids w \<Longrightarrow> set ids \<subseteq> set ids' \<Longrightarrow> placed site ids' w"
  by (auto simp: placed_def)

lemma workloads_ok_mono: "workloads_ok site ids ws \<Longrightarrow> set ids \<subseteq> set ids' \<Longrightarrow> workloads_ok site ids' ws"
  using placed_mono by (fastforce simp: workloads_ok_def)

lemma workloads_ok_filter: "workloads_ok site ids ws \<Longrightarrow> workloads_ok site ids (filter P ws)"
  by (auto simp: workloads_ok_def unique_filter)

lemma workloads_ok_delete_tenant:
  "workloads_ok site ids ws \<Longrightarrow>
     workloads_ok site (filter (\<lambda>p. fst p \<noteq> name) ids) (delete_row wl_Tenant name ws)"
  by (fastforce simp: workloads_ok_def delete_row_def unique_filter placed_def)

lemma workloads_ok_update:
  assumes "workloads_ok site ids ws"
    and "\<And>w. wl_Tenant (f w) = wl_Tenant w \<and> wl_Name (f w) = wl_Name w \<and> wl_Ordinal (f w) = wl_Ordinal w \<and>
      wl_VMID (f w) = wl_VMID w \<and> wl_MAC (f w) = wl_MAC w \<and> wl_Address (f w) = wl_Address w"
  shows "workloads_ok site ids (update_row key k f ws)"
proof -
  have "unique_on wl_key (update_row key k f ws)" "unique_on (\<lambda>w. (wl_Tenant w, wl_Ordinal w)) (update_row key k f ws)"
    using assms by (auto simp: workloads_ok_def unique_update_row wl_key_def)
  moreover have "placed site ids w" if "w \<in> set (update_row key k f ws)" for w
    using set_update_row[OF that] assms by (auto simp: workloads_ok_def placed_def)
  ultimately show ?thesis by (simp add: workloads_ok_def)
qed

lemma workloads_ok_create:
  assumes "workloads_ok site ids ws" "wl_key w \<notin> wl_key ` set ws"
    and "wl_Ordinal w \<notin> wl_Ordinal ` set (filter (\<lambda>x. wl_Tenant x = wl_Tenant w) ws)" "placed site ids w"
  shows "workloads_ok site ids (ws @ [w])"
  using assms by (auto simp: workloads_ok_def unique_on_def image_iff)

subsection \<open>Addresses\<close>

lemma select_addresses_map:
  assumes "\<forall>a \<in> set (tbl_addresses r). \<exists>d \<in> set (tbl_devices r). dv_key d = ad_key a"
  shows "map (\<lambda>d. (da_Tenant d, da_Address d)) (select_addresses r P) =
    map (\<lambda>a. (ad_tenant a, ad_address a)) (filter P (tbl_addresses r))"
proof -
  have "map (\<lambda>d. (da_Tenant d, da_Address d)) (concat (map (address_join r) rows)) =
      map (\<lambda>a. (ad_tenant a, ad_address a)) rows"
    if "\<forall>a \<in> set rows. \<exists>d \<in> set (tbl_devices r). dv_key d = ad_key a" for rows
    using that
  proof (induction rows)
    case (Cons a rows)
    then obtain d where "get_row dv_key (ad_key a) (tbl_devices r) = Some d"
      by (metis get_row_None image_eqI list.set_intros(1) option.exhaust)
    with Cons show ?case by (simp add: address_join_def)
  qed simp
  with assms show ?thesis by (simp add: select_addresses_def)
qed

lemma addresses_ok_owners:
  "addresses_ok site devs rows \<Longrightarrow> (\<And>a. a \<in> set rows \<Longrightarrow> \<exists>d \<in> set devs'. dv_key d = ad_key a) \<Longrightarrow>
     addresses_ok site devs' rows"
  by (simp add: addresses_ok_def)

lemma addresses_ok_devices:
  "addresses_ok site devs rows \<Longrightarrow> dv_key ` set devs \<subseteq> dv_key ` set devs' \<Longrightarrow> addresses_ok site devs' rows"
  by (fastforce simp: addresses_ok_def)

lemma share_filter: "share tn cls (filter P rows) \<le> share tn cls rows"
  unfolding share_def by (induction rows) auto

lemma addresses_ok_filter: "addresses_ok site devs rows \<Longrightarrow> addresses_ok site devs (filter P rows)"
  unfolding addresses_ok_def using share_filter[of _ _ P rows]
  by (auto simp: unique_filter) (meson of_nat_mono order_trans)

lemma addresses_ok_status:
  assumes "addresses_ok site devs rows"
  shows "addresses_ok site devs (update_row ad_key k (\<lambda>a. a\<lparr>ad_status := st\<rparr>) rows)"
proof -
  let ?f = "\<lambda>a. a\<lparr>ad_status := st\<rparr>"
  have "share tn cls (update_row ad_key k ?f rows) = share tn cls rows" for tn cls
    unfolding share_def by (induction rows) (auto simp: update_row_def)
  moreover have "unique_on ad_key (update_row ad_key k ?f rows)"
    "unique_on (\<lambda>a. (ad_class a, ad_address a)) (update_row ad_key k ?f rows)"
    using assms by (auto simp: addresses_ok_def unique_update_row ad_key_def)
  ultimately show ?thesis
    using assms by (auto simp: addresses_ok_def update_row_def ad_key_def)
qed

lemma addresses_ok_create:
  assumes "addresses_ok site devs rows" "ad_key a \<notin> ad_key ` set rows"
    "(ad_class a, ad_address a) \<notin> (\<lambda>x. (ad_class x, ad_address x)) ` set rows"
    "\<exists>d \<in> set devs. dv_key d = ad_key a"
    "map_of (site_AddressRanges site) (ad_class a) = Some rg" "range_Contains rg x" "ad_address a = AddrString x"
    "int (share (ad_tenant a) (ad_class a) rows) < AddressQuota site"
  shows "addresses_ok site devs (rows @ [a])"
proof -
  have "int (share tn cls (rows @ [a])) \<le> AddressQuota site" for tn cls
    using assms(1,8) by (auto simp: share_def addresses_ok_def)
  with assms show ?thesis by (auto simp: addresses_ok_def unique_on_def)
qed

subsection \<open>Every step keeps the invariant\<close>

lemma reg_inv_same_idents:
  "reg_inv site r \<Longrightarrow> idents (tbl_tenants_update f r) = idents r \<Longrightarrow> reg_inv site (tbl_tenants_update f r)"
  by (simp add: reg_inv_def)

lemma inv_upd_tenant:
  assumes "upd_tenant name f r = Inr (u, r')" "reg_inv site r"
    and "\<And>t. tn_name (f t) = tn_name t \<and> tn_idx (f t) = tn_idx t"
  shows "reg_inv site r'"
proof -
  from assms(1) have "r' = tbl_tenants_update (\<lambda>_. update_row tn_name name f (tbl_tenants r)) r"
    by (auto simp: upd_tenant_def execOne_def split: if_splits)
  with reg_inv_same_idents[OF assms(2)] idents_update[of f name r] assms(3) show ?thesis by simp
qed

lemma inv_create:
  assumes "tx_create name sealed (\<lambda>held. pickIndex name requested held claims) r = Inr (row, r')"
    "requested = 0 \<or> MinIndex \<le> requested \<and> requested \<le> MaxAllocatable" "reg_inv site r"
  shows "reg_inv site r'"
proof -
  from assms(1) obtain n where n: "pickIndex name requested (held_indexes r) claims = Inr n"
    "\<not> has_tenant r name" "nameRE name" "held_indexes r n = None" and r': "tn_name row = name" "tn_idx row = n"
      "r' = r\<lparr>tbl_tenants := tbl_tenants r @ [row]\<rparr>"
    by (auto simp: tx_create_def Let_def split: if_splits sum.splits)
  from pickIndex_bounds[OF n(1) assms(2)] have b: "1 \<le> n" "n \<le> 62" by auto
  from r' have ids: "idents r' = idents r @ [(name, n)]" by (auto simp: idents_def)
  have "idents_ok (idents r')"
    unfolding ids using assms(3) n b
    by (intro idents_ok_snoc) (auto simp: reg_inv_def Let_def ValidName_def has_tenant_idents held_indexes_None)
  moreover have mono: "set (idents r) \<subseteq> set (idents r')" by (auto simp: ids)
  moreover have "tbl_steps r' = tbl_steps r" "tbl_workloads r' = tbl_workloads r" "tbl_records r' = tbl_records r"
    "tbl_wifi_keys r' = tbl_wifi_keys r" "tbl_admission_keys r' = tbl_admission_keys r" "tbl_devices r' = tbl_devices r"
    "tbl_broker_accounts r' = tbl_broker_accounts r" "tbl_addresses r' = tbl_addresses r"
    "tbl_certificates r' = tbl_certificates r"
    by (simp_all add: r'(3))
  ultimately show ?thesis
    using assms(3) by (simp add: reg_inv_def Let_def table_ok_mono[OF _ mono] workloads_ok_mono[OF _ mono])
qed

lemma inv_delete_tenant:
  assumes "tx_delete_tenant name r = Inr (u, r')" "reg_inv site r"
  shows "reg_inv site r'"
proof -
  from assms(1) have r': "r' = cascade_tenant name r"
    by (auto simp: tx_delete_tenant_def execOne_def split: if_splits)
  have addr: "addresses_ok site (delete_row dv_Tenant name (tbl_devices r)) (delete_row ad_tenant name (tbl_addresses r))"
  proof -
    have ok: "addresses_ok site (tbl_devices r) (tbl_addresses r)" using assms(2) by (simp add: reg_inv_def Let_def)
    have "addresses_ok site (tbl_devices r) (delete_row ad_tenant name (tbl_addresses r))"
      using addresses_ok_filter[OF ok] by (simp add: delete_row_def)
    then show ?thesis
      by (auto simp: addresses_ok_def delete_row_def key_defs) metis
  qed
  show ?thesis
    using assms(2) addr unfolding r' reg_inv_def Let_def idents_cascade
    by (auto simp: cascade_tenant_def intro: idents_ok_filter table_ok_delete_tenant workloads_ok_delete_tenant)
qed

lemma inv_record_step:
  assumes "tx_record_step name st e r = Inr (u, r')" "reg_inv site r"
  shows "reg_inv site r'"
proof -
  define row where "row = \<lparr>sr_tenant = name, sr_step = \<lparr>st_Name = st, st_OK = (e = None), st_Error = e\<rparr>\<rparr>"
  from assms(1) have r': "has_tenant r name" "sr_key row = (name, st)" "sr_tenant row = name"
    "r' = r\<lparr>tbl_steps := delete_row sr_key (name, st) (tbl_steps r) @ [row]\<rparr>"
    by (auto simp: tx_record_step_def Let_def sr_key_def row_def split: if_splits)
  have "table_ok (idents r) sr_key sr_tenant (delete_row sr_key (name, st) (tbl_steps r) @ [row])"
    using assms(2) r' by (intro table_ok_append table_ok_delete)
      (auto simp: reg_inv_def Let_def has_tenant_idents set_delete_row)
  then show ?thesis using assms(2) r'(4) by (simp add: reg_inv_def Let_def idents_def)
qed

lemma inv_create_workload:
  assumes "tx_create_workload site w r = Inr (w', r')" "reg_inv site r"
  shows "reg_inv site r'"
proof (cases "get_row wl_key (wl_key w) (tbl_workloads r)")
  case None
  with assms(1) obtain t n where t: "get_row tn_name (wl_Tenant w) (tbl_tenants r) = Some t"
    and n: "next_ordinal (ordinal_taken r (wl_Tenant w)) 0 = Some n"
    and w': "w' = w\<lparr>wl_Ordinal := n, wl_VMID := WorkloadVMID site (tn_idx t) n,
        wl_MAC := MAC site (WorkloadVMID site (tn_idx t) n), wl_Address := WorkloadAddress site (tn_idx t) n\<rparr>"
    and r': "r' = r\<lparr>tbl_workloads := tbl_workloads r @ [w']\<rparr>"
    by (auto simp: tx_create_workload_def Let_def split: option.splits if_splits)
  from ordinals.pick_sound[OF n] have "0 \<le> n" "n < MaxWorkloads" "\<not> ordinal_taken r (wl_Tenant w) n" by auto
  with None get_tenant_idents[OF t] have "workloads_ok site (idents r) (tbl_workloads r @ [w'])"
    using assms(2) unfolding w'
    by (intro workloads_ok_create) (auto simp: reg_inv_def Let_def placed_def wl_key_def get_row_None ordinal_taken_def)
  then show ?thesis using assms(2) by (simp add: r' reg_inv_def Let_def idents_def)
next
  case (Some old)
  with assms(1) have "r' = r\<lparr>tbl_workloads := update_row wl_key (wl_key w) (\<lambda>x. wl_resize x w) (tbl_workloads r)\<rparr>"
    by (auto simp: tx_create_workload_def split: if_splits)
  moreover have "workloads_ok site (idents r) (update_row wl_key (wl_key w) (\<lambda>x. wl_resize x w) (tbl_workloads r))"
    using assms(2) by (intro workloads_ok_update) (auto simp: reg_inv_def Let_def wl_resize_def)
  ultimately show ?thesis using assms(2) by (simp add: reg_inv_def Let_def idents_def)
qed

lemma inv_create_address:
  assumes "tx_create_address a (\<lambda>held. pickAddress rg (AddressQuota site) (da_Tenant a) mac requested held) r = Inr (u, r')"
    "map_of (site_AddressRanges site) (da_TrustClass a) = Some rg"
    "requested = [] \<or> (\<exists>x. range_Contains rg x \<and> requested = AddrString x)"
    "Validate_site site = None" "reg_inv site r"
  shows "reg_inv site r'"
proof (cases "get_row ad_key (da_Tenant a, da_Device a) (tbl_addresses r)")
  case (Some old)
  with assms(1) have "r' = set_address_status (da_Tenant a) (da_Device a) (da_Status a) r"
    by (auto simp: tx_create_address_def)
  then show ?thesis
    using assms(5) by (simp add: reg_inv_def Let_def idents_def set_address_status_def addresses_ok_status)
next
  case None
  let ?held = "select_addresses r (\<lambda>x. ad_class x = da_TrustClass a)"
  from None assms(1) obtain s d where s: "pickAddress rg (AddressQuota site) (da_Tenant a) mac requested ?held = Inr s"
    and d: "get_row dv_key (da_Tenant a, da_Device a) (tbl_devices r) = Some d"
    and fresh: "(da_TrustClass a, s) \<notin> (\<lambda>x. (ad_class x, ad_address x)) ` set (tbl_addresses r)"
    and r': "r' = r\<lparr>tbl_addresses := tbl_addresses r @ [\<lparr>ad_tenant = da_Tenant a, ad_device = da_Device a,
        ad_class = da_TrustClass a, ad_address = s, ad_status = da_Status a\<rparr>]\<rparr>"
    by (auto simp: tx_create_address_def split: sum.splits if_splits)
  from assms(2) have "(da_TrustClass a, rg) \<in> set (site_AddressRanges site)" by (rule map_of_SomeD)
  with assms(4) obtain f l where fl: "ar_First rg = Addr4 f" "ar_Last rg = Addr4 l" by (rule Validate_site_ranges)
  note p = pickAddress_sound[OF s fl assms(3)]
  have ok: "addresses_ok site (tbl_devices r) (tbl_addresses r)" using assms(5) by (simp add: reg_inv_def Let_def)
  then have "map fst (map (\<lambda>d. (da_Tenant d, da_Address d)) ?held) =
      map fst (map (\<lambda>a. (ad_tenant a, ad_address a)) (filter (\<lambda>x. ad_class x = da_TrustClass a) (tbl_addresses r)))"
    by (subst select_addresses_map) (auto simp: addresses_ok_def)
  then have m: "map da_Tenant ?held = map ad_tenant (filter (\<lambda>x. ad_class x = da_TrustClass a) (tbl_addresses r))"
    by (simp add: comp_def)
  have "length (filter (\<lambda>h. da_Tenant h = da_Tenant a) ?held) = length (filter (\<lambda>t. t = da_Tenant a) (map da_Tenant ?held))"
    by (simp add: filter_map comp_def)
  also have "\<dots> = share (da_Tenant a) (da_TrustClass a) (tbl_addresses r)"
    unfolding m share_def by (simp add: filter_map comp_def conj_commute)
  finally have share: "int (share (da_Tenant a) (da_TrustClass a) (tbl_addresses r)) < AddressQuota site"
    using p(3) by simp
  obtain x where x: "range_Contains rg x" "s = AddrString x" using p(4) by blast
  have "addresses_ok site (tbl_devices r) (tbl_addresses r @ [\<lparr>ad_tenant = da_Tenant a, ad_device = da_Device a,
        ad_class = da_TrustClass a, ad_address = s, ad_status = da_Status a\<rparr>])"
    using None fresh share x assms(2) get_row_Some[OF d]
    by (intro addresses_ok_create[OF ok, of _ rg x]) (auto simp: ad_key_def get_row_None)
  then show ?thesis using assms(5) by (simp add: r' reg_inv_def Let_def idents_def)
qed

lemma inv_put_device:
  assumes "tx_put_device d r = Inr (d', r')" "reg_inv site r"
  shows "reg_inv site r'"
proof -
  let ?rows = "upsert_row dv_key dv_update d (tbl_devices r)"
  from assms(1) have r': "has_tenant r (dv_Tenant d)" "r' = r\<lparr>tbl_devices := ?rows\<rparr>"
    by (auto simp: tx_put_device_def Let_def split: if_splits option.splits)
  have "table_ok (idents r) dv_key dv_Tenant ?rows"
    using assms(2) r'(1) by (intro devices.table_ok_upsert)
      (auto simp: reg_inv_def Let_def has_tenant_idents dv_key_def dv_update_def)
  moreover have ok: "addresses_ok site (tbl_devices r) (tbl_addresses r)"
    using assms(2) by (simp add: reg_inv_def Let_def)
  have "addresses_ok site ?rows (tbl_addresses r)"
    by (rule addresses_ok_devices[OF ok]) (simp add: devices.keys_upsert subset_insertI)
  ultimately show ?thesis using assms(2) by (simp add: r'(2) reg_inv_def Let_def idents_def)
qed

lemma inv_delete_device:
  assumes "tx_delete_device tn name r = Inr (u, r')" "reg_inv site r"
  shows "reg_inv site r'"
proof -
  have ok: "addresses_ok site (tbl_devices r) (tbl_addresses r)" using assms(2) by (simp add: reg_inv_def Let_def)
  have kept: "addresses_ok site (tbl_devices r) (delete_row ad_key (tn, name) (tbl_addresses r))"
    using addresses_ok_filter[OF ok] by (simp add: delete_row_def)
  have "\<exists>d \<in> set (delete_row dv_key (tn, name) (tbl_devices r)). dv_key d = ad_key a"
    if "a \<in> set (delete_row ad_key (tn, name) (tbl_addresses r))" for a
  proof -
    from that ok obtain d where "d \<in> set (tbl_devices r)" "dv_key d = ad_key a" "ad_key a \<noteq> (tn, name)"
      by (auto simp: set_delete_row addresses_ok_def)
    then show ?thesis by (auto simp: set_delete_row intro!: bexI[of _ d])
  qed
  with kept have "addresses_ok site (delete_row dv_key (tn, name) (tbl_devices r)) (delete_row ad_key (tn, name) (tbl_addresses r))"
    by (rule addresses_ok_owners)
  with assms show ?thesis
    by (auto simp: tx_delete_device_def reg_inv_def Let_def idents_def intro: table_ok_delete)
qed

lemma inv_put_wifi_key:
  assumes "tx_put_wifi_key k r = Inr (k', r')" "reg_inv site r"
  shows "reg_inv site r'"
proof -
  let ?rows = "upsert_row wk_key wk_update (k\<lparr>wk_Unreadable := False\<rparr>) (tbl_wifi_keys r)"
  from assms(1) have r': "has_tenant r (wk_Tenant k)" "r' = r\<lparr>tbl_wifi_keys := ?rows\<rparr>"
    by (auto simp: tx_put_wifi_key_def Let_def split: if_splits option.splits)
  have "table_ok (idents r) wk_key wk_Tenant ?rows"
    using assms(2) r'(1) by (intro wifi_keys.table_ok_upsert)
      (auto simp: reg_inv_def Let_def has_tenant_idents wk_key_def wk_update_def)
  with assms(2) show ?thesis by (simp add: r'(2) reg_inv_def Let_def idents_def)
qed

lemma inv_put_broker_account:
  assumes "tx_put_broker_account b r = Inr (b', r')" "reg_inv site r"
  shows "reg_inv site r'"
proof -
  let ?rows = "upsert_row ba_key ba_update b (tbl_broker_accounts r)"
  from assms(1) have r': "has_tenant r (ba_Tenant b)" "r' = r\<lparr>tbl_broker_accounts := ?rows\<rparr>"
    by (auto simp: tx_put_broker_account_def Let_def split: if_splits option.splits)
  have "table_ok (idents r) ba_key ba_Tenant ?rows"
    using assms(2) r'(1) by (intro broker_accounts.table_ok_upsert)
      (auto simp: reg_inv_def Let_def has_tenant_idents ba_key_def ba_update_def)
  with assms(2) show ?thesis by (simp add: r'(2) reg_inv_def Let_def idents_def)
qed

lemma inv_put_certificate:
  assumes "tx_put_certificate c r = Inr (c', r')" "reg_inv site r"
  shows "reg_inv site r'"
proof -
  let ?rows = "upsert_row ct_key ct_update c (tbl_certificates r)"
  from assms(1) have r': "has_tenant r (ct_Tenant c)" "r' = r\<lparr>tbl_certificates := ?rows\<rparr>"
    by (auto simp: tx_put_certificate_def Let_def split: if_splits option.splits)
  have "table_ok (idents r) ct_key ct_Tenant ?rows"
    using assms(2) r'(1) by (intro certificates.table_ok_upsert)
      (auto simp: reg_inv_def Let_def has_tenant_idents ct_key_def ct_update_def)
  with assms(2) show ?thesis by (simp add: r'(2) reg_inv_def Let_def idents_def)
qed

lemma inv_put_record:
  assumes "tx_put_record x r = Inr (u, r')" "reg_inv site r"
  shows "reg_inv site r'"
proof -
  let ?rows = "upsert_row er_key er_update x (tbl_records r)"
  from assms(1) have r': "has_tenant r (er_Tenant x)" "r' = r\<lparr>tbl_records := ?rows\<rparr>"
    by (auto simp: tx_put_record_def split: if_splits)
  have "table_ok (idents r) er_key er_Tenant ?rows"
    using assms(2) r'(1) by (intro records.table_ok_upsert)
      (auto simp: reg_inv_def Let_def has_tenant_idents er_key_def er_update_def)
  with assms(2) show ?thesis by (simp add: r'(2) reg_inv_def Let_def idents_def)
qed

text \<open>Statements that change or drop rows of one table without touching keys or owners.\<close>

lemma inv_one_table:
  assumes "reg_inv site r"
  shows "workloads_ok site (idents r) ws \<Longrightarrow> reg_inv site (r\<lparr>tbl_workloads := ws\<rparr>)"
    and "table_ok (idents r) er_key er_Tenant xs \<Longrightarrow> reg_inv site (r\<lparr>tbl_records := xs\<rparr>)"
    and "table_ok (idents r) wk_key wk_Tenant ks \<Longrightarrow> reg_inv site (r\<lparr>tbl_wifi_keys := ks\<rparr>)"
    and "unique_on ak_Tenant aks \<Longrightarrow> reg_inv site (r\<lparr>tbl_admission_keys := aks\<rparr>)"
    and "addresses_ok site (tbl_devices r) as \<Longrightarrow> reg_inv site (r\<lparr>tbl_addresses := as\<rparr>)"
    and "table_ok (idents r) ba_key ba_Tenant bs \<Longrightarrow> reg_inv site (r\<lparr>tbl_broker_accounts := bs\<rparr>)"
    and "table_ok (idents r) ct_key ct_Tenant cs \<Longrightarrow> reg_inv site (r\<lparr>tbl_certificates := cs\<rparr>)"
    and "reg_inv site (r\<lparr>tbl_audit := au\<rparr>)"
  using assms by (simp_all add: reg_inv_def Let_def idents_def)

lemma reg_inv_tables:
  assumes "reg_inv site r"
  shows "workloads_ok site (idents r) (tbl_workloads r)" "table_ok (idents r) er_key er_Tenant (tbl_records r)"
    "table_ok (idents r) wk_key wk_Tenant (tbl_wifi_keys r)" "unique_on ak_Tenant (tbl_admission_keys r)"
    "addresses_ok site (tbl_devices r) (tbl_addresses r)" "table_ok (idents r) ba_key ba_Tenant (tbl_broker_accounts r)"
    "table_ok (idents r) ct_key ct_Tenant (tbl_certificates r)" "idents_ok (idents r)"
    "table_ok (idents r) dv_key dv_Tenant (tbl_devices r)"
  using assms by (simp_all add: reg_inv_def Let_def)

lemmas tx_defs =
  tx_set_status_def tx_set_secrets_def tx_set_org_def tx_audit_def tx_set_workload_status_def
  tx_delete_workload_def tx_delete_record_def tx_set_wifi_key_status_def tx_delete_wifi_key_def
  tx_put_admission_key_def tx_delete_admission_key_def tx_set_address_status_def tx_delete_address_def
  tx_set_broker_account_status_def tx_delete_broker_account_def tx_delete_certificate_def
  execOne_def set_address_status_def

theorem store_step_inv:
  assumes "store_step site r r'" "Validate_site site = None" "reg_inv site r"
  shows "reg_inv site r'"
  using assms(1)
proof cases
  case (create name sealed requested claims row)
  then show ?thesis using inv_create assms(3) by blast
next
  case (set_status name st u)
  then show ?thesis using inv_upd_tenant[of name "\<lambda>t. t\<lparr>tn_status := st\<rparr>" r u r' site] assms(3) by (simp add: tx_set_status_def)
next
  case (set_secrets name sealed u)
  then show ?thesis using inv_upd_tenant[of name "\<lambda>t. t\<lparr>tn_secrets := sealed\<lparr>sec_Unreadable := False\<rparr>\<rparr>" r u r' site] assms(3) by (simp add: tx_set_secrets_def)
next
  case (set_org name org u)
  then show ?thesis using inv_upd_tenant[of name "\<lambda>t. t\<lparr>tn_org := org\<rparr>" r u r' site] assms(3) by (simp add: tx_set_org_def)
next
  case (put_admission_key ak u)
  then show ?thesis
    using inv_one_table(4)[OF assms(3)] reg_inv_tables(4)[OF assms(3)] admission_keys.unique_upsert
    by (auto simp: tx_put_admission_key_def split: if_splits)
next
  case (set_workload_status tn name st u)
  then show ?thesis
    by (auto intro!: inv_one_table(1)[OF assms(3)] workloads_ok_update[OF reg_inv_tables(1)[OF assms(3)]] simp: tx_defs split: if_splits)
next
  case (delete_workload tn name u)
  then show ?thesis
    using inv_one_table(1)[OF assms(3)] workloads_ok_filter[OF reg_inv_tables(1)[OF assms(3)]]
    by (auto simp: tx_defs delete_row_def split: if_splits)
next
  case (set_wifi_key_status tn name st u)
  then show ?thesis
    by (auto intro!: inv_one_table(3)[OF assms(3)] table_ok_update[OF reg_inv_tables(3)[OF assms(3)]] simp: tx_defs key_defs split: if_splits)
next
  case (set_broker_account_status tn name st u)
  then show ?thesis
    by (auto intro!: inv_one_table(6)[OF assms(3)] table_ok_update[OF reg_inv_tables(6)[OF assms(3)]] simp: tx_defs key_defs split: if_splits)
next
  case (set_address_status tn name st u)
  then show ?thesis
    using inv_one_table(5)[OF assms(3)] addresses_ok_status[OF reg_inv_tables(5)[OF assms(3)]]
    by (auto simp: tx_defs split: if_splits)
next
  case (delete_address tn name u)
  then show ?thesis
    using inv_one_table(5)[OF assms(3)] addresses_ok_filter[OF reg_inv_tables(5)[OF assms(3)]]
    by (auto simp: tx_defs delete_row_def)
next
  case (create_address a rg mac requested' u)
  then show ?thesis using inv_create_address assms(2,3) by blast
qed (use assms(3) in \<open>auto simp: tx_defs split: if_splits
    intro: inv_record_step inv_delete_tenant inv_create_workload inv_put_record inv_put_wifi_key inv_put_device
      inv_delete_device inv_put_broker_account inv_put_certificate inv_one_table table_ok_delete reg_inv_tables
      unique_delete_row\<close>)

lemma reg_inv_empty: "reg_inv site empty_registry"
  by (simp add: reg_inv_def empty_registry_def idents_def idents_ok_def table_ok_def workloads_ok_def addresses_ok_def
      unique_on_def share_def less_imp_le[OF AddressQuota_pos])

interpretation registry: state_machine "\<lambda>r. r = empty_registry" "store_step site"
    "\<lambda>r. Validate_site site = None \<longrightarrow> reg_inv site r"
  for site
  by unfold_locales (auto simp: reg_inv_empty intro: store_step_inv)

end
