(* ===== verification/Store.thy ===== *)
theory Store
  imports RegistryInv
begin

text \<open>
  The world the service runs in, and \<^verbatim>\<open>internal/store\<close>: the methods of \<^verbatim>\<open>Postgres\<close> on the tables of
  \<open>Registry\<close>.

  Every call that leaves the process (a statement, a backend, the secret store, the random source)
  takes the number of calls made so far, the \<open>clock\<close>, and what it answers is a function of that number
  and of the call: all such functions are considered, so every behaviour of the outside world in one
  run, failures included, is one of them. A statement may fail with nothing done, or be carried out
  and fail to say so (\<open>DBUnacked\<close>). Before each statement other requests may have written:
  \<open>sv_others\<close> is what they did.

  A backend call is recorded in the \<open>trace\<close> with its outcome and the registry it was made under, so a
  property can say what was durable when a backend was told.
\<close>

section \<open>World\<close>

record event =
  ev_call :: call
  ev_err :: "err option"
  ev_reg :: registry

record world =
  clock :: nat
  trace :: "event list"
  reg :: registry

type_synonym 'a io = "(world, 'a) state"

datatype dbout = DBOk | DBLost string | DBUnacked string

record sealer =
  sl_Seal :: "nat \<Rightarrow> string \<Rightarrow> err + string"
  sl_Open :: "nat \<Rightarrow> string \<Rightarrow> err + string"

type_synonym 'a answer = "nat \<Rightarrow> call \<Rightarrow> err + 'a"

text \<open>What \<^verbatim>\<open>crypto/x509\<close> and \<^verbatim>\<open>encoding/pem\<close> tell the service of a certificate or a request.\<close>

datatype public_key = RSAKey nat | ECDSAKey string | OtherKey

record csr =
  csr_Raw :: string
  csr_RawSubjectPublicKeyInfo :: string
  csr_PublicKey :: public_key
  csr_CheckSignature :: bool

record x509 =
  x_Raw :: string
  x_RawSubjectPublicKeyInfo :: string
  x_RawSubject :: string
  x_RawIssuer :: string
  x_CommonName :: string
  x_DNSNames :: "string list"
  x_IPAddresses :: "string list"
  x_URIs :: "string list"
  x_EmailAddresses :: "string list"
  x_IsCA :: bool
  x_ExtKeyUsage :: "int list"
  x_UnknownExtKeyUsage :: "string list"
  x_KeyUsage :: nat
  x_NotBefore :: int
  x_NotAfter :: int
  x_SerialBytes :: string

record pem_block =
  pb_type :: string
  pb_bytes :: string

record enroller =
  en_Wrap :: "(string \<times> int) answer"
  en_Unwrap :: "(string \<times> string) list answer"

record service =
  sv_Site :: Site
  sv_db :: "nat \<Rightarrow> dbout"
  sv_others :: "nat \<Rightarrow> registry \<Rightarrow> registry"
  sv_sealer :: "sealer option"
  sv_DNS :: "unit answer"
  sv_Resolver :: "unit answer"
  sv_State :: "unit answer"
  sv_Fabric :: "Claim list answer"
  sv_Network :: "unit answer option"
  sv_Compute :: "unit answer option"
  sv_Wireless :: "unit answer option"
  sv_Reservations :: "unit answer option"
  sv_BrokerWriter :: "unit answer option"
  sv_LogWriter :: "unit answer option"
  sv_Dashboards :: "int answer option"
  sv_Signer :: "SignedCertificate answer option"
  sv_Tokens :: "Tokens option"
  sv_Enroller :: "enroller option"
  sv_EnrollmentTTL :: int
  sv_now :: "nat \<Rightarrow> int"
  sv_rand_err :: "nat \<Rightarrow> err option"
  sv_rand :: "nat \<Rightarrow> nat \<Rightarrow> char"
  sv_rand_int :: "nat \<Rightarrow> nat"
  sv_hmac :: hmac
  sv_sha256 :: "string \<Rightarrow> string"
  sv_bcrypt :: "nat \<Rightarrow> string \<Rightarrow> err + string"
  sv_pem_decode :: "string \<Rightarrow> (pem_block \<times> string) option"
  sv_pem_encode :: "pem_block \<Rightarrow> string"
  sv_parse_csr :: "string \<Rightarrow> csr option"
  sv_parse_cert :: "string \<Rightarrow> x509 option"

section \<open>Actions\<close>

text \<open>\<^verbatim>\<open>if err != nil\<close>: the error goes to \<open>h\<close>, the value to \<open>k\<close>.\<close>

definition tryc :: "(err + 'a) io \<Rightarrow> (err \<Rightarrow> 'b io) \<Rightarrow> ('a \<Rightarrow> 'b io) \<Rightarrow> 'b io" where
  "tryc m h k = do { r \<leftarrow> m; (case r of Inl e \<Rightarrow> h e | Inr x \<Rightarrow> k x) }"

definition orerr :: "(err + 'a) io \<Rightarrow> ('a \<Rightarrow> (err + 'b) io) \<Rightarrow> (err + 'b) io" where
  "orerr m k = tryc m (\<lambda>e. ret (Inl e)) k"

text \<open>The outcome of an action without its value.\<close>

definition erro :: "(err + 'a) io \<Rightarrow> (err option) io" where
  "erro m = do { r \<leftarrow> m; ret (case r of Inl e \<Rightarrow> Some e | Inr _ \<Rightarrow> None) }"

definition tick :: "(nat \<Rightarrow> 'a) \<Rightarrow> 'a io" where
  "tick f = State (\<lambda>w. (f (clock w), w\<lparr>clock := Suc (clock w)\<rparr>))"

definition invoke :: "'a answer \<Rightarrow> call \<Rightarrow> (err + 'a) io" where
  "invoke b c = State (\<lambda>w.
     let a = b (clock w) c;
         ev = \<lparr>ev_call = c, ev_err = (case a of Inl e \<Rightarrow> Some e | Inr _ \<Rightarrow> None), ev_reg = reg w\<rparr>
     in (a, w\<lparr>clock := Suc (clock w), trace := trace w @ [ev]\<rparr>))"

definition db :: "service \<Rightarrow> 'a tx \<Rightarrow> (err + 'a) io" where
  "db S f = State (\<lambda>w.
     let n = clock w; r = sv_others S n (reg w); w' = w\<lparr>clock := Suc n, reg := r\<rparr> in
     case sv_db S n of
       DBLost m \<Rightarrow> (Inl (ErrOther m), w')
     | DBOk \<Rightarrow> (case f r of Inl e \<Rightarrow> (Inl e, w') | Inr (x, r') \<Rightarrow> (Inr x, w'\<lparr>reg := r'\<rparr>))
     | DBUnacked m \<Rightarrow>
         (case f r of Inl e \<Rightarrow> (Inl e, w') | Inr (x, r') \<Rightarrow> (Inl (ErrOther m), w'\<lparr>reg := r'\<rparr>)))"

text \<open>\<^verbatim>\<open>rand.Read\<close> of \<open>n\<close> bytes, and \<^verbatim>\<open>rand.Int\<close> below \<open>n\<close>.\<close>

definition rand_bytes :: "service \<Rightarrow> nat \<Rightarrow> (err + string) io" where
  "rand_bytes S n =
     tick (\<lambda>t. case sv_rand_err S t of Some e \<Rightarrow> Inl e | None \<Rightarrow> Inr (map (sv_rand S t) [0..<n]))"

definition rand_below :: "service \<Rightarrow> nat \<Rightarrow> (err + nat) io" where
  "rand_below S n = tick (\<lambda>t. case sv_rand_err S t of Some e \<Rightarrow> Inl e | None \<Rightarrow> Inr (sv_rand_int S t mod n))"

section \<open>Sealing\<close>

definition sealOne :: "service \<Rightarrow> string \<Rightarrow> (err + string) io" where
  "sealOne S plaintext =
     (case sv_sealer S of None \<Rightarrow> ret (Inr plaintext) | Some sl \<Rightarrow> tick (\<lambda>t. sl_Seal sl t plaintext))"

definition seal :: "service \<Rightarrow> Secrets \<Rightarrow> (err + Secrets) io" where
  "seal S s =
     (case sv_sealer S of None \<Rightarrow> ret (Inr s)
      | Some sl \<Rightarrow>
          orerr (tick (\<lambda>t. sl_Seal sl t (sec_TSIG s))) (\<lambda>tsig.
          orerr (tick (\<lambda>t. sl_Seal sl t (sec_State s))) (\<lambda>state.
          orerr (tick (\<lambda>t. sl_Seal sl t (sec_LogIngest s))) (\<lambda>ingest.
          orerr (tick (\<lambda>t. sl_Seal sl t (sec_LogRead s))) (\<lambda>rd.
          orerr (tick (\<lambda>t. sl_Seal sl t (sec_DashboardPassword s))) (\<lambda>pw.
          ret (Inr (s\<lparr>sec_TSIG := tsig, sec_State := state, sec_LogIngest := ingest, sec_LogRead := rd,
                     sec_DashboardPassword := pw\<rparr>))))))))"

definition openOne :: "sealer \<Rightarrow> string \<Rightarrow> (err + string \<times> bool) io" where
  "openOne sl stored =
     tick (\<lambda>t. case sl_Open sl t stored of
         Inl e \<Rightarrow> if errors_is e ErrSecretsUnavailable then Inl e else Inr ([], True)
       | Inr out \<Rightarrow> Inr (out, False))"

definition open_secrets :: "service \<Rightarrow> Secrets \<Rightarrow> (err + Secrets) io" where
  "open_secrets S s =
     (case sv_sealer S of None \<Rightarrow> ret (Inr s)
      | Some sl \<Rightarrow>
          orerr (openOne sl (sec_TSIG s)) (\<lambda>(tsig, bad1).
          orerr (openOne sl (sec_State s)) (\<lambda>(state, bad2).
          orerr (openOne sl (sec_LogIngest s)) (\<lambda>(ingest, _).
          orerr (openOne sl (sec_LogRead s)) (\<lambda>(rd, _).
          orerr (openOne sl (sec_DashboardPassword s)) (\<lambda>(pw, _).
          ret (Inr (s\<lparr>sec_TSIG := tsig, sec_State := state, sec_LogIngest := ingest, sec_LogRead := rd,
                     sec_DashboardPassword := pw, sec_Unreadable := (bad1 \<or> bad2)\<rparr>))))))))"

section \<open>Tenants\<close>

definition record_of :: "tenant_row \<Rightarrow> Secrets \<Rightarrow> Step list \<Rightarrow> Record" where
  "record_of t secrets steps = \<lparr>rec_Name = tn_name t, rec_Index = tn_idx t, rec_Status = tn_status t,
     rec_Secrets = secrets, rec_DashboardOrg = tn_org t, rec_Steps = steps\<rparr>"

definition wrap :: "string \<Rightarrow> (err + 'a) io \<Rightarrow> (err + 'a) io" where
  "wrap msg m = do { r \<leftarrow> m; ret (case r of Inl e \<Rightarrow> Inl (Wrapped msg e) | Inr x \<Rightarrow> Inr x) }"

definition Store_Get :: "service \<Rightarrow> string \<Rightarrow> (err + Record) io" where
  "Store_Get S name =
     orerr (db S (tx_tenant name)) (\<lambda>t.
     orerr (wrap ''opening secrets'' (open_secrets S (tn_secrets t))) (\<lambda>secrets.
     orerr (db S (tx_steps name)) (\<lambda>steps.
     ret (Inr (record_of t secrets steps)))))"

definition Store_List :: "service \<Rightarrow> (err + Record list) io" where
  "Store_List S = orerr (db S tx_tenants) (\<lambda>ts. ret (Inr (map (\<lambda>t. record_of t no_secrets []) ts)))"

definition Store_Create :: "service \<Rightarrow> string \<Rightarrow> Secrets \<Rightarrow> ((int \<rightharpoonup> string) \<Rightarrow> err + int) \<Rightarrow> (err + Record) io" where
  "Store_Create S name secrets pick =
     orerr (wrap ''sealing secrets'' (seal S secrets)) (\<lambda>sealed.
     orerr (db S (tx_create name sealed pick)) (\<lambda>t. ret (Inr (record_of t secrets []))))"

definition Store_SetStatus :: "service \<Rightarrow> string \<Rightarrow> status \<Rightarrow> (err + unit) io" where
  "Store_SetStatus S name st = db S (tx_set_status name st)"

definition Store_SetSecrets :: "service \<Rightarrow> string \<Rightarrow> Secrets \<Rightarrow> (err + unit) io" where
  "Store_SetSecrets S name secrets =
     orerr (wrap ''sealing secrets'' (seal S secrets)) (\<lambda>sealed. db S (tx_set_secrets name sealed))"

definition Store_SetDashboardOrg :: "service \<Rightarrow> string \<Rightarrow> int \<Rightarrow> (err + unit) io" where
  "Store_SetDashboardOrg S name org = db S (tx_set_org name org)"

definition Store_RecordStep :: "service \<Rightarrow> string \<Rightarrow> step \<Rightarrow> err option \<Rightarrow> (err + unit) io" where
  "Store_RecordStep S name st e = db S (tx_record_step name st e)"

definition Store_Delete :: "service \<Rightarrow> string \<Rightarrow> (err + unit) io" where
  "Store_Delete S name = db S (tx_delete_tenant name)"

definition Store_Audit :: "service \<Rightarrow> AuditEntry \<Rightarrow> (err + unit) io" where
  "Store_Audit S e = db S (tx_audit e)"

section \<open>Workloads and records\<close>

definition Store_CreateWorkload :: "service \<Rightarrow> Workload \<Rightarrow> (err + Workload) io" where
  "Store_CreateWorkload S w = db S (tx_create_workload (sv_Site S) w)"

definition Store_GetWorkload :: "service \<Rightarrow> string \<Rightarrow> string \<Rightarrow> (err + Workload) io" where
  "Store_GetWorkload S tenant name = db S (tx_workload tenant name)"

definition Store_ListWorkloads :: "service \<Rightarrow> string \<Rightarrow> (err + Workload list) io" where
  "Store_ListWorkloads S tenant = db S (tx_workloads tenant)"

definition Store_SetWorkloadStatus :: "service \<Rightarrow> string \<Rightarrow> string \<Rightarrow> status \<Rightarrow> (err + unit) io" where
  "Store_SetWorkloadStatus S tenant name st = db S (tx_set_workload_status tenant name st)"

definition Store_DeleteWorkload :: "service \<Rightarrow> string \<Rightarrow> string \<Rightarrow> (err + unit) io" where
  "Store_DeleteWorkload S tenant name = db S (tx_delete_workload tenant name)"

definition Store_PutRecord :: "service \<Rightarrow> ExtraRecord \<Rightarrow> (err + unit) io" where
  "Store_PutRecord S x = db S (tx_put_record x)"

definition Store_ListRecords :: "service \<Rightarrow> string \<Rightarrow> (err + ExtraRecord list) io" where
  "Store_ListRecords S tenant = db S (tx_records tenant)"

definition Store_DeleteRecord :: "service \<Rightarrow> string \<Rightarrow> string \<Rightarrow> (err + unit) io" where
  "Store_DeleteRecord S tenant name = db S (tx_delete_record tenant name)"

section \<open>Wi-Fi and admission keys\<close>

definition openWiFiKey :: "service \<Rightarrow> WiFiKey \<Rightarrow> (err + WiFiKey) io" where
  "openWiFiKey S k =
     (case sv_sealer S of None \<Rightarrow> ret (Inr k)
      | Some sl \<Rightarrow> orerr (openOne sl (wk_PSK k)) (\<lambda>(psk, bad). ret (Inr (k\<lparr>wk_PSK := psk, wk_Unreadable := bad\<rparr>))))"

definition Store_PutWiFiKey :: "service \<Rightarrow> WiFiKey \<Rightarrow> (err + WiFiKey) io" where
  "Store_PutWiFiKey S k =
     orerr (sealOne S (wk_PSK k)) (\<lambda>psk.
     orerr (db S (tx_put_wifi_key (k\<lparr>wk_PSK := psk\<rparr>))) (\<lambda>out. ret (Inr (out\<lparr>wk_PSK := wk_PSK k\<rparr>))))"

definition Store_GetWiFiKey :: "service \<Rightarrow> string \<Rightarrow> string \<Rightarrow> (err + WiFiKey) io" where
  "Store_GetWiFiKey S tenant name = orerr (db S (tx_wifi_key tenant name)) (openWiFiKey S)"

text \<open>The rows are read in one query, then opened one by one.\<close>

fun open_keys :: "service \<Rightarrow> WiFiKey list \<Rightarrow> (err + WiFiKey list) io" where
  "open_keys S [] = ret (Inr [])"
| "open_keys S (k # ks) =
     orerr (openWiFiKey S k) (\<lambda>k'. orerr (open_keys S ks) (\<lambda>ks'. ret (Inr (k' # ks'))))"

definition Store_ListWiFiKeys :: "service \<Rightarrow> string \<Rightarrow> (err + WiFiKey list) io" where
  "Store_ListWiFiKeys S tenant = orerr (db S (tx_wifi_keys tenant)) (open_keys S)"

definition Store_SetWiFiKeyStatus :: "service \<Rightarrow> string \<Rightarrow> string \<Rightarrow> status \<Rightarrow> (err + unit) io" where
  "Store_SetWiFiKeyStatus S tenant name st = db S (tx_set_wifi_key_status tenant name st)"

definition Store_DeleteWiFiKey :: "service \<Rightarrow> string \<Rightarrow> string \<Rightarrow> (err + unit) io" where
  "Store_DeleteWiFiKey S tenant name = db S (tx_delete_wifi_key tenant name)"

definition Store_PutAdmissionKey :: "service \<Rightarrow> AdmissionKey \<Rightarrow> (err + unit) io" where
  "Store_PutAdmissionKey S k =
     orerr (sealOne S (ak_PSK k)) (\<lambda>psk. db S (tx_put_admission_key (k\<lparr>ak_PSK := psk\<rparr>)))"

definition Store_GetAdmissionKey :: "service \<Rightarrow> string \<Rightarrow> (err + AdmissionKey) io" where
  "Store_GetAdmissionKey S name =
     orerr (db S (tx_admission_key name)) (\<lambda>k.
     (case sv_sealer S of None \<Rightarrow> ret (Inr k)
      | Some sl \<Rightarrow> orerr (openOne sl (ak_PSK k)) (\<lambda>(psk, bad). ret (Inr (k\<lparr>ak_PSK := psk, ak_Unreadable := bad\<rparr>)))))"

definition Store_DeleteAdmissionKey :: "service \<Rightarrow> string \<Rightarrow> (err + unit) io" where
  "Store_DeleteAdmissionKey S name = db S (tx_delete_admission_key name)"

section \<open>Devices, addresses, accounts, certificates\<close>

definition Store_PutDevice :: "service \<Rightarrow> Device \<Rightarrow> (err + Device) io" where
  "Store_PutDevice S d = db S (tx_put_device d)"

definition Store_GetDevice :: "service \<Rightarrow> string \<Rightarrow> string \<Rightarrow> (err + Device) io" where
  "Store_GetDevice S tenant name = db S (tx_device tenant name)"

definition Store_ListDevices :: "service \<Rightarrow> string \<Rightarrow> (err + Device list) io" where
  "Store_ListDevices S tenant = db S (tx_devices tenant)"

definition Store_DeleteDevice :: "service \<Rightarrow> string \<Rightarrow> string \<Rightarrow> (err + unit) io" where
  "Store_DeleteDevice S tenant name = db S (tx_delete_device tenant name)"

definition Store_GetDeviceAddress :: "service \<Rightarrow> string \<Rightarrow> string \<Rightarrow> (err + DeviceAddress) io" where
  "Store_GetDeviceAddress S tenant device = db S (tx_address tenant device)"

definition Store_CreateDeviceAddress ::
  "service \<Rightarrow> DeviceAddress \<Rightarrow> (DeviceAddress list \<Rightarrow> err + string) \<Rightarrow> (err + DeviceAddress) io" where
  "Store_CreateDeviceAddress S a pick =
     orerr (db S (tx_create_address a pick)) (\<lambda>_. Store_GetDeviceAddress S (da_Tenant a) (da_Device a))"

definition Store_ListDeviceAddresses :: "service \<Rightarrow> string \<Rightarrow> (err + DeviceAddress list) io" where
  "Store_ListDeviceAddresses S tenant = db S (tx_tenant_addresses tenant)"

definition Store_ListClassAddresses :: "service \<Rightarrow> string \<Rightarrow> (err + DeviceAddress list) io" where
  "Store_ListClassAddresses S cls = db S (tx_class_addresses cls)"

definition Store_SetDeviceAddressStatus :: "service \<Rightarrow> string \<Rightarrow> string \<Rightarrow> status \<Rightarrow> (err + unit) io" where
  "Store_SetDeviceAddressStatus S tenant device st = db S (tx_set_address_status tenant device st)"

definition Store_DeleteDeviceAddress :: "service \<Rightarrow> string \<Rightarrow> string \<Rightarrow> (err + unit) io" where
  "Store_DeleteDeviceAddress S tenant device = db S (tx_delete_address tenant device)"

definition Store_PutBrokerAccount :: "service \<Rightarrow> BrokerAccount \<Rightarrow> (err + BrokerAccount) io" where
  "Store_PutBrokerAccount S a = db S (tx_put_broker_account a)"

definition Store_GetBrokerAccount :: "service \<Rightarrow> string \<Rightarrow> string \<Rightarrow> (err + BrokerAccount) io" where
  "Store_GetBrokerAccount S tenant name = db S (tx_broker_account tenant name)"

definition Store_ListBrokerAccounts :: "service \<Rightarrow> string \<Rightarrow> (err + BrokerAccount list) io" where
  "Store_ListBrokerAccounts S tenant = db S (tx_broker_accounts tenant)"

definition Store_SetBrokerAccountStatus :: "service \<Rightarrow> string \<Rightarrow> string \<Rightarrow> status \<Rightarrow> (err + unit) io" where
  "Store_SetBrokerAccountStatus S tenant name st = db S (tx_set_broker_account_status tenant name st)"

definition Store_DeleteBrokerAccount :: "service \<Rightarrow> string \<Rightarrow> string \<Rightarrow> (err + unit) io" where
  "Store_DeleteBrokerAccount S tenant name = db S (tx_delete_broker_account tenant name)"

definition Store_PutCertificate :: "service \<Rightarrow> Certificate \<Rightarrow> (err + Certificate) io" where
  "Store_PutCertificate S c = db S (tx_put_certificate c)"

definition Store_GetCertificate :: "service \<Rightarrow> string \<Rightarrow> string \<Rightarrow> (err + Certificate) io" where
  "Store_GetCertificate S tenant name = db S (tx_certificate tenant name)"

definition Store_ListCertificates :: "service \<Rightarrow> string \<Rightarrow> (err + Certificate list) io" where
  "Store_ListCertificates S tenant = db S (tx_certificates tenant)"

definition Store_DeleteCertificate :: "service \<Rightarrow> string \<Rightarrow> string \<Rightarrow> (err + unit) io" where
  "Store_DeleteCertificate S tenant name = db S (tx_delete_certificate tenant name)"

section \<open>Rules for the actions\<close>

text \<open>The laws \<open>wp\<close> needs of each action, and the two hypotheses under which a run is sequential.\<close>

definition alone :: "service \<Rightarrow> bool" where
  "alone S = (\<forall>n r. sv_others S n r = r)"

definition db_up :: "service \<Rightarrow> bool" where
  "db_up S = (\<forall>n. sv_db S n = DBOk)"

definition others_ok :: "service \<Rightarrow> bool" where
  "others_ok S = (\<forall>n r. (store_step (sv_Site S))\<^sup>*\<^sup>* r (sv_others S n r))"

lemma wp_tryc [wp_simps]:
  "wp (tryc m h k) Q = wp m (\<lambda>r. case r of Inl e \<Rightarrow> wp (h e) Q | Inr x \<Rightarrow> wp (k x) Q)"
  unfolding tryc_def by (simp add: wp_simps)

lemma wp_orerr [wp_simps]:
  "wp (orerr m k) Q = wp m (\<lambda>r. case r of Inl e \<Rightarrow> Q (Inl e) | Inr x \<Rightarrow> wp (k x) Q)"
  unfolding orerr_def by (simp add: wp_simps cong: sum.case_cong)

lemma wp_erro [wp_simps]:
  "wp (erro m) Q = wp m (\<lambda>r. Q (case r of Inl e \<Rightarrow> Some e | Inr _ \<Rightarrow> None))"
  unfolding erro_def by (simp add: wp_simps)

lemma wp_wrap [wp_simps]:
  "wp (wrap msg m) Q = wp m (\<lambda>r. Q (case r of Inl e \<Rightarrow> Inl (Wrapped msg e) | Inr x \<Rightarrow> Inr x))"
  unfolding wrap_def by (simp add: wp_simps)

lemma wp_tick [wp_simps]: "wp (tick f) Q w = Q (f (clock w)) (w\<lparr>clock := Suc (clock w)\<rparr>)"
  by (simp add: tick_def wp_simps)

lemma wp_invoke [wp_simps]:
  "wp (invoke b c) Q w =
     (case b (clock w) c of
        Inl e \<Rightarrow> Q (Inl e) (w\<lparr>clock := Suc (clock w), trace := trace w @ [\<lparr>ev_call = c, ev_err = Some e, ev_reg = reg w\<rparr>]\<rparr>)
      | Inr x \<Rightarrow> Q (Inr x) (w\<lparr>clock := Suc (clock w), trace := trace w @ [\<lparr>ev_call = c, ev_err = None, ev_reg = reg w\<rparr>]\<rparr>))"
  by (simp add: invoke_def wp_simps Let_def split: sum.splits)

lemma wp_db_alone:
  "alone S \<Longrightarrow> wp (db S f) Q w =
     (let w' = w\<lparr>clock := Suc (clock w)\<rparr> in
      case sv_db S (clock w) of
        DBLost m \<Rightarrow> Q (Inl (ErrOther m)) w'
      | DBOk \<Rightarrow> (case f (reg w) of Inl e \<Rightarrow> Q (Inl e) w' | Inr (x, r') \<Rightarrow> Q (Inr x) (w'\<lparr>reg := r'\<rparr>))
      | DBUnacked m \<Rightarrow>
          (case f (reg w) of Inl e \<Rightarrow> Q (Inl e) w' | Inr (x, r') \<Rightarrow> Q (Inl (ErrOther m)) (w'\<lparr>reg := r'\<rparr>)))"
  by (cases "sv_db S (clock w)") (simp_all add: db_def wp_simps alone_def Let_def split: sum.splits prod.splits)

lemma wp_db_up:
  "alone S \<Longrightarrow> db_up S \<Longrightarrow> wp (db S f) Q w =
     (case f (reg w) of Inl e \<Rightarrow> Q (Inl e) (w\<lparr>clock := Suc (clock w)\<rparr>)
      | Inr (x, r') \<Rightarrow> Q (Inr x) (w\<lparr>clock := Suc (clock w), reg := r'\<rparr>))"
  by (simp add: wp_db_alone db_up_def Let_def split: sum.splits)

lemma read_tx_simp [simp]: "read_tx f r = Inr (f r, r)"
  by (simp add: read_tx_def)

subsection \<open>Relations between the worlds of a run\<close>

text \<open>
  A relation that ignores the clock is kept by every action that only draws from it, and by the
  combinators whose parts keep it.
\<close>

locale world_preorder = io_preorder R for R :: "world \<Rightarrow> world \<Rightarrow> bool" +
  assumes R_clock: "R w (w\<lparr>clock := n\<rparr>)"
begin

lemma tick_keeps: "keeps (tick f)"
  by (rule keepsI) (simp add: tick_def R_clock)

lemma tryc_keeps:
  "keeps m \<Longrightarrow> (\<And>e. keeps (h e)) \<Longrightarrow> (\<And>x. keeps (k x)) \<Longrightarrow> keeps (tryc m h k)"
  unfolding tryc_def by (intro keeps_bind keeps_case_sum)

lemma orerr_keeps: "keeps m \<Longrightarrow> (\<And>x. keeps (k x)) \<Longrightarrow> keeps (orerr m k)"
  unfolding orerr_def by (intro tryc_keeps keeps_return)

lemma erro_keeps: "keeps m \<Longrightarrow> keeps (erro m)"
  unfolding erro_def by (intro keeps_bind keeps_return)

lemma wrap_keeps: "keeps m \<Longrightarrow> keeps (wrap msg m)"
  unfolding wrap_def by (intro keeps_bind keeps_return)

lemmas world_intros = keeps_intros tick_keeps tryc_keeps orerr_keeps erro_keeps wrap_keeps

lemma sealing_keeps:
  "keeps (sealOne S p)" "keeps (seal S s)" "keeps (openOne sl p)" "keeps (open_secrets S s)"
  "keeps (openWiFiKey S k)" "keeps (rand_bytes S n)" "keeps (rand_below S n)"
  unfolding sealOne_def seal_def openOne_def open_secrets_def openWiFiKey_def rand_bytes_def rand_below_def
  by (intro world_intros)+

lemma open_keys_keeps: "keeps (open_keys S ks)"
  by (induction ks) (auto intro!: world_intros sealing_keeps)

end

subsection \<open>A run moves the registry by its steps\<close>

text \<open>
  The relation kept by every action: the registry after is reached from the registry before by steps
  of \<open>store_step\<close>, those of other requests included.
\<close>

interpretation run: world_preorder "\<lambda>(w :: world) w'. (store_step site)\<^sup>*\<^sup>* (reg w) (reg w')" for site
  by unfold_locales auto

lemma keeps_invoke: "run.keeps site (invoke b c)"
  by (rule run.keepsI) (simp add: invoke_def Let_def split: sum.splits)

lemma keeps_db:
  assumes "others_ok S" "\<And>r x r'. f r = Inr (x, r') \<Longrightarrow> r' = r \<or> store_step (sv_Site S) r r'"
  shows "run.keeps (sv_Site S) (db S f)"
proof (rule run.keepsI)
  fix w :: world
  let ?step = "store_step (sv_Site S)"
  define r where "r = sv_others S (clock w) (reg w)"
  have others: "?step\<^sup>*\<^sup>* (reg w) r" using assms(1) by (simp add: others_ok_def r_def)
  have "f r = Inr (x, r') \<Longrightarrow> ?step\<^sup>*\<^sup>* (reg w) r'" for x r'
    using others assms(2)[of r x r'] by (metis rtranclp.rtrancl_into_rtrancl)
  then show "?step\<^sup>*\<^sup>* (reg w) (reg (snd (run_state (db S f) w)))"
    using others by (simp add: db_def Let_def r_def[symmetric] split: dbout.splits sum.splits prod.splits)
qed

lemma keeps_db_read:
  "others_ok S \<Longrightarrow> (\<And>r x r'. f r = Inr (x, r') \<Longrightarrow> r' = r) \<Longrightarrow> run.keeps (sv_Site S) (db S f)"
  by (rule keeps_db) blast+

lemma get_tx_same: "get_tx f r = Inr (x, r') \<Longrightarrow> r' = r"
  by (auto simp: get_tx_def split: option.splits)

lemma read_tx_same: "read_tx f r = Inr (x, r') \<Longrightarrow> r' = r"
  by simp

named_theorems store_keeps \<open>each method of the store moves the registry by its steps\<close>

lemmas keeps_intros = run.world_intros keeps_invoke

lemmas keeps_sealing [store_keeps] = run.sealing_keeps

lemmas keeps_open_keys [store_keeps] = run.open_keys_keeps

lemma keeps_reads [store_keeps]:
  assumes "others_ok S"
  shows "run.keeps (sv_Site S) (Store_Get S name)" "run.keeps (sv_Site S) (Store_List S)"
    "run.keeps (sv_Site S) (Store_GetWorkload S tn name)" "run.keeps (sv_Site S) (Store_ListWorkloads S tn)"
    "run.keeps (sv_Site S) (Store_ListRecords S tn)" "run.keeps (sv_Site S) (Store_GetWiFiKey S tn name)"
    "run.keeps (sv_Site S) (Store_ListWiFiKeys S tn)" "run.keeps (sv_Site S) (Store_GetAdmissionKey S name)"
    "run.keeps (sv_Site S) (Store_GetDevice S tn name)" "run.keeps (sv_Site S) (Store_ListDevices S tn)"
    "run.keeps (sv_Site S) (Store_GetDeviceAddress S tn name)" "run.keeps (sv_Site S) (Store_ListDeviceAddresses S tn)"
    "run.keeps (sv_Site S) (Store_ListClassAddresses S cls)" "run.keeps (sv_Site S) (Store_GetBrokerAccount S tn name)"
    "run.keeps (sv_Site S) (Store_ListBrokerAccounts S tn)" "run.keeps (sv_Site S) (Store_GetCertificate S tn name)"
    "run.keeps (sv_Site S) (Store_ListCertificates S tn)"
  unfolding Store_Get_def Store_List_def Store_GetWorkload_def Store_ListWorkloads_def Store_ListRecords_def
    Store_GetWiFiKey_def Store_ListWiFiKeys_def Store_GetAdmissionKey_def Store_GetDevice_def Store_ListDevices_def
    Store_GetDeviceAddress_def Store_ListDeviceAddresses_def Store_ListClassAddresses_def Store_GetBrokerAccount_def
    Store_ListBrokerAccounts_def Store_GetCertificate_def Store_ListCertificates_def
    tx_tenant_def tx_steps_def tx_tenants_def tx_workload_def tx_workloads_def tx_records_def tx_wifi_key_def
    tx_wifi_keys_def tx_admission_key_def tx_device_def tx_devices_def tx_address_def tx_tenant_addresses_def
    tx_class_addresses_def tx_broker_account_def tx_broker_accounts_def tx_certificate_def tx_certificates_def
  by (intro keeps_intros keeps_sealing keeps_open_keys keeps_db_read[OF assms] ; (erule get_tx_same read_tx_same)?)+

lemma keeps_writes [store_keeps]:
  assumes "others_ok S"
  shows "run.keeps (sv_Site S) (Store_SetStatus S name st)" "run.keeps (sv_Site S) (Store_SetSecrets S name secrets)"
    "run.keeps (sv_Site S) (Store_SetDashboardOrg S name org)" "run.keeps (sv_Site S) (Store_RecordStep S name sp e)"
    "run.keeps (sv_Site S) (Store_Delete S name)" "run.keeps (sv_Site S) (Store_Audit S entry)"
    "run.keeps (sv_Site S) (Store_CreateWorkload S w)" "run.keeps (sv_Site S) (Store_SetWorkloadStatus S tn name st)"
    "run.keeps (sv_Site S) (Store_DeleteWorkload S tn name)" "run.keeps (sv_Site S) (Store_PutRecord S x)"
    "run.keeps (sv_Site S) (Store_DeleteRecord S tn name)" "run.keeps (sv_Site S) (Store_PutWiFiKey S k)"
    "run.keeps (sv_Site S) (Store_SetWiFiKeyStatus S tn name st)" "run.keeps (sv_Site S) (Store_DeleteWiFiKey S tn name)"
    "run.keeps (sv_Site S) (Store_PutAdmissionKey S ak)" "run.keeps (sv_Site S) (Store_DeleteAdmissionKey S name)"
    "run.keeps (sv_Site S) (Store_PutDevice S d)" "run.keeps (sv_Site S) (Store_DeleteDevice S tn name)"
    "run.keeps (sv_Site S) (Store_SetDeviceAddressStatus S tn name st)"
    "run.keeps (sv_Site S) (Store_DeleteDeviceAddress S tn name)" "run.keeps (sv_Site S) (Store_PutBrokerAccount S b)"
    "run.keeps (sv_Site S) (Store_SetBrokerAccountStatus S tn name st)"
    "run.keeps (sv_Site S) (Store_DeleteBrokerAccount S tn name)" "run.keeps (sv_Site S) (Store_PutCertificate S c)"
    "run.keeps (sv_Site S) (Store_DeleteCertificate S tn name)"
  unfolding Store_SetStatus_def Store_SetSecrets_def Store_SetDashboardOrg_def Store_RecordStep_def Store_Delete_def
    Store_Audit_def Store_CreateWorkload_def Store_SetWorkloadStatus_def Store_DeleteWorkload_def Store_PutRecord_def
    Store_DeleteRecord_def Store_PutWiFiKey_def Store_SetWiFiKeyStatus_def Store_DeleteWiFiKey_def
    Store_PutAdmissionKey_def Store_DeleteAdmissionKey_def Store_PutDevice_def Store_DeleteDevice_def
    Store_SetDeviceAddressStatus_def Store_DeleteDeviceAddress_def Store_PutBrokerAccount_def
    Store_SetBrokerAccountStatus_def Store_DeleteBrokerAccount_def Store_PutCertificate_def Store_DeleteCertificate_def
  by (intro keeps_intros keeps_sealing keeps_db[OF assms] disjI2; (erule store_step.intros)?)+

lemma keeps_Store_Create [store_keeps]:
  "others_ok S \<Longrightarrow> requested = 0 \<or> MinIndex \<le> requested \<and> requested \<le> MaxAllocatable \<Longrightarrow>
     run.keeps (sv_Site S) (Store_Create S name secrets (\<lambda>held. pickIndex name requested held claims))"
  unfolding Store_Create_def
  by (intro keeps_intros keeps_sealing keeps_db disjI2; (assumption | erule store_step.create)?)

lemma keeps_Store_CreateDeviceAddress [store_keeps]:
  "others_ok S \<Longrightarrow> map_of (site_AddressRanges (sv_Site S)) (da_TrustClass a) = Some rg \<Longrightarrow>
     requested = [] \<or> (\<exists>x. range_Contains rg x \<and> requested = AddrString x) \<Longrightarrow>
     run.keeps (sv_Site S) (Store_CreateDeviceAddress S a
       (\<lambda>held. pickAddress rg (AddressQuota (sv_Site S)) (da_Tenant a) mac requested held))"
  unfolding Store_CreateDeviceAddress_def
  by (intro keeps_intros keeps_reads keeps_db disjI2; (assumption | erule store_step.create_address)?)

end
