(* ===== verification/Service.thy ===== *)
theory Service
  imports Store
begin

text \<open>
  What the operations of \<^verbatim>\<open>internal/tenant\<close> share: the caller's name for the audit log, the best-effort
  writes (an audit entry or a step that cannot be recorded is logged and forgotten), random secrets,
  and the objects each backend is asked for. The context is the actor it carries, empty when nobody
  set one; the logger and the mutex around SDN applies are not modelled.
\<close>

section \<open>Audit and recorded steps\<close>

type_synonym ctx = string

definition WithActor :: "ctx \<Rightarrow> string \<Rightarrow> ctx" where
  "WithActor c actor = (if actor = [] then c else actor)"

definition actorFrom :: "ctx \<Rightarrow> string" where
  "actorFrom c = (if c \<noteq> [] then c else ''unattributed'')"

definition audit :: "service \<Rightarrow> ctx \<Rightarrow> action \<Rightarrow> string \<Rightarrow> unit io" where
  "audit S c act name =
     do { _ \<leftarrow> Store_Audit S \<lparr>au_Actor = actorFrom c, au_Action = act, au_Tenant = name\<rparr>; ret () }"

definition recordStep :: "service \<Rightarrow> string \<Rightarrow> step \<Rightarrow> err option \<Rightarrow> unit io" where
  "recordStep S name st e = do { _ \<leftarrow> Store_RecordStep S name st e; ret () }"

definition reload :: "service \<Rightarrow> Record \<Rightarrow> Record io" where
  "reload S rec = tryc (Store_Get S (rec_Name rec)) (\<lambda>_. ret rec) ret"

text \<open>\<^verbatim>\<open>switch errors.Is(err, ErrNotFound)\<close>: nothing there is an answer, any other error is one.\<close>

definition getOrNone :: "(err + 'a) io \<Rightarrow> (err + 'a option) io" where
  "getOrNone m =
     do { r \<leftarrow> m;
          ret (case r of Inl e \<Rightarrow> if errors_is e ErrNotFound then Inr None else Inl e | Inr x \<Rightarrow> Inr (Some x)) }"

section \<open>Secrets\<close>

definition randomHex :: "service \<Rightarrow> nat \<Rightarrow> (err + string) io" where
  "randomHex S n = orerr (rand_bytes S n) (\<lambda>b. ret (Inr (hexEncode b)))"

definition logTokens :: "service \<Rightarrow> (err + string \<times> string) io" where
  "logTokens S = orerr (randomHex S 32) (\<lambda>ingest. orerr (randomHex S 32) (\<lambda>rd. ret (Inr (ingest, rd))))"

definition HashToken :: "service \<Rightarrow> string \<Rightarrow> string" where
  "HashToken S token = sv_sha256 S token"

definition subtleEqual :: "string \<Rightarrow> string \<Rightarrow> bool" where
  "subtleEqual a b = (length a = length b \<and> a = b)"

text \<open>\<^verbatim>\<open>Tokens.Issue\<close> with the random source; a nil \<^verbatim>\<open>Tokens\<close> is a panic, which no configuration reaches.\<close>

definition Tokens_Issue :: "service \<Rightarrow> string \<Rightarrow> (err + string) io" where
  "Tokens_Issue S name =
     orerr (rand_bytes S 24) (\<lambda>r.
     (case sv_Tokens S of None \<Rightarrow> ret (Inl (ErrOther ''nil Tokens''))
      | Some t \<Rightarrow> ret (Inr (Issue (sv_hmac S) t name r))))"

definition Tokens_Verify :: "service \<Rightarrow> string \<Rightarrow> string option" where
  "Tokens_Verify S token = (case sv_Tokens S of None \<Rightarrow> None | Some t \<Rightarrow> Verify (sv_hmac S) t token)"

text \<open>\<^verbatim>\<open>randomPSK\<close> draws each character by \<^verbatim>\<open>rand.Int\<close>.\<close>

definition pskAlphabet :: string where
  "pskAlphabet = ''abcdefghjkmnpqrstuvwxyzACDEFGHJKLMNPQRSTUVWXYZ23456789''"

definition pskLength :: nat where "pskLength = 32"

fun draw_psk :: "service \<Rightarrow> nat \<Rightarrow> (err + string) io" where
  "draw_psk S 0 = ret (Inr [])"
| "draw_psk S (Suc k) =
     orerr (rand_below S (length pskAlphabet)) (\<lambda>v.
     orerr (draw_psk S k) (\<lambda>rest. ret (Inr (pskAlphabet ! v # rest))))"

definition randomPSK :: "service \<Rightarrow> (err + string) io" where
  "randomPSK S = draw_psk S pskLength"

section \<open>What the backends are asked for\<close>

definition tsigAlgorithm :: string where "tsigAlgorithm = ''hmac-sha256''"

definition zones :: "service \<Rightarrow> Record \<Rightarrow> string list" where
  "zones S rec = [Zone (sv_Site S) (rec_Name rec), num_ReverseZone (Numbering_of (sv_Site S) (rec_Index rec))]"

definition dnsTenant :: "service \<Rightarrow> Record \<Rightarrow> DNSTenant" where
  "dnsTenant S rec = \<lparr>dns_KeyName = rec_Name rec, dns_Algorithm = tsigAlgorithm,
     dns_Secret = sec_TSIG (rec_Secrets rec), dns_Zones = zones S rec,
     dns_ApexNS = site_DNSApexNS (sv_Site S), dns_UpdateFrom = site_DNSUpdateFrom (sv_Site S)\<rparr>"

definition forwards :: "service \<Rightarrow> Record \<Rightarrow> Forward list" where
  "forwards S rec =
     (let z = zones S rec in
      [\<lparr>fw_Domain = z ! 0, fw_Server = site_ResolverForwardTo (sv_Site S),
        fw_Description = ''Deevnet API - tenant '' @ rec_Name rec @ '' (ADR-0015)''\<rparr>,
       \<lparr>fw_Domain = z ! 1, fw_Server = site_ResolverForwardTo (sv_Site S),
        fw_Description = ''Deevnet API - tenant '' @ rec_Name rec @ '' reverse (ADR-0015)''\<rparr>])"

definition stateTenant :: "service \<Rightarrow> Record \<Rightarrow> StateTenant" where
  "stateTenant S rec = \<lparr>ss_User = rec_Name rec, ss_Secret = sec_State (rec_Secrets rec),
     ss_Bucket = site_StateBucket (sv_Site S), ss_Prefix = statePrefix (sv_Site S) (rec_Name rec)\<rparr>"

definition network :: "service \<Rightarrow> Record \<Rightarrow> (err + unit) io" where
  "network S rec =
     (case sv_Network S of None \<Rightarrow> ret (Inr ())
      | Some b \<Rightarrow> invoke b (CNetworkEnsure (Network (sv_Site S) (rec_Name rec) (rec_Index rec))))"

definition removeNetwork :: "service \<Rightarrow> Record \<Rightarrow> (err + unit) io" where
  "removeNetwork S rec =
     (case sv_Network S of None \<Rightarrow> ret (Inr ())
      | Some b \<Rightarrow> invoke b (CNetworkRemove (Network (sv_Site S) (rec_Name rec) (rec_Index rec))))"

section \<open>Steps kept\<close>

lemma keeps_service [store_keeps]:
  assumes "others_ok S"
  shows "run.keeps (sv_Site S) (audit S c act name)" "run.keeps (sv_Site S) (recordStep S name st e)"
    "run.keeps (sv_Site S) (reload S rec)"
  unfolding audit_def recordStep_def reload_def
  by (intro keeps_intros keeps_reads keeps_writes assms)+

context world_preorder
begin

lemma getOrNone_keeps: "keeps m \<Longrightarrow> keeps (getOrNone m)"
  unfolding getOrNone_def by (intro world_intros)

lemma draw_psk_keeps: "keeps (draw_psk S k)"
  by (induction k) (auto intro!: world_intros sealing_keeps)

lemma random_keeps:
  "keeps (randomHex S n)" "keeps (logTokens S)" "keeps (Tokens_Issue S name)" "keeps (randomPSK S)"
  unfolding logTokens_def randomHex_def Tokens_Issue_def randomPSK_def
  by (intro world_intros sealing_keeps draw_psk_keeps)+

end

lemmas keeps_getOrNone = run.getOrNone_keeps

lemma wp_getOrNone [wp_simps]:
  "wp (getOrNone m) Q =
     wp m (\<lambda>r. Q (case r of Inl e \<Rightarrow> if errors_is e ErrNotFound then Inr None else Inl e | Inr x \<Rightarrow> Inr (Some x)))"
  unfolding getOrNone_def by (simp add: wp_simps)

lemma keeps_network:
  "run.keeps site (network S rec)" "run.keeps site (removeNetwork S rec)"
  unfolding network_def removeNetwork_def by (intro keeps_intros)+

lemmas keeps_random [store_keeps] = run.random_keeps keeps_network

section \<open>Minted secrets\<close>

lemma wp_rand_bytes [wp_simps]:
  "wp (rand_bytes S n) Q w =
     Q (case sv_rand_err S (clock w) of Some e \<Rightarrow> Inl e | None \<Rightarrow> Inr (map (sv_rand S (clock w)) [0..<n]))
       (w\<lparr>clock := Suc (clock w)\<rparr>)"
  by (simp add: rand_bytes_def wp_simps)

lemma wp_rand_below [wp_simps]:
  "wp (rand_below S n) Q w =
     Q (case sv_rand_err S (clock w) of Some e \<Rightarrow> Inl e | None \<Rightarrow> Inr (sv_rand_int S (clock w) mod n))
       (w\<lparr>clock := Suc (clock w)\<rparr>)"
  by (simp add: rand_below_def wp_simps)

lemma pskAlphabet_visible: "list_all visible pskAlphabet"
  by (simp add: pskAlphabet_def visible_def)

lemma wp_draw_psk:
  "wp (draw_psk S k) (\<lambda>r w'. \<forall>p. r = Inr p \<longrightarrow> length p = k \<and> set p \<subseteq> set pskAlphabet) w"
proof (induction k arbitrary: w)
  case (Suc k)
  have "v mod length pskAlphabet < length pskAlphabet" for v
    by (simp add: pskAlphabet_def)
  then have step: "wp (draw_psk S k)
      (\<lambda>r w'. \<forall>p. r = Inr p \<longrightarrow> length (pskAlphabet ! (v mod length pskAlphabet) # p) = Suc k \<and>
        set (pskAlphabet ! (v mod length pskAlphabet) # p) \<subseteq> set pskAlphabet) w" for v w
    using Suc.IH[of w] by (elim wp_mono) auto
  show ?case
    by (auto simp: wp_simps split: option.splits intro!: wp_mono[OF step] split: sum.splits)
qed (simp add: wp_simps)

lemma ValidPSK_random:
  "length p = pskLength \<Longrightarrow> set p \<subseteq> set pskAlphabet \<Longrightarrow> ValidPSK p"
  using pskAlphabet_visible by (auto simp: ValidPSK_def pskLength_def list_all_iff)

end
