(* ===== verification/Sequential.thy ===== *)
theory Sequential
  imports Service
begin

text \<open>
  Rules for a run no other request interferes with (\<open>alone\<close>), while statements, backends, the secret
  store and the random source may still fail at any point. \<open>same\<close> relates two worlds with one registry
  and one trace. A rule here says what is known after an action in each of its outcomes; a property of an
  operation is shown by following its body with them. \<open>sample_service\<close> is the service the witnesses run.
\<close>

section \<open>Reads and draws\<close>

definition same :: "world \<Rightarrow> world \<Rightarrow> bool" where
  "same w w' = (reg w' = reg w \<and> trace w' = trace w)"

interpretation still: world_preorder same
  by unfold_locales (auto simp: same_def)

text \<open>A relation on registries, kept with the trace free.\<close>

named_theorems wp_intro \<open>what is known after an action of a run on its own\<close>

lemma wp_still: "still.keeps m \<Longrightarrow> (\<And>r w'. same w w' \<Longrightarrow> Q r w') \<Longrightarrow> wp m Q w"
  using still.keepsD[of m w] by (auto simp: wp_def split: prod.splits)

lemma same_refl [simp]: "same w w" by (simp add: same_def)

lemma wp_quiet [wp_intro]:
  "(\<And>r w'. same w w' \<Longrightarrow> Q r w') \<Longrightarrow> wp (seal S s) Q w"
  "(\<And>r w'. same w w' \<Longrightarrow> Q' r w') \<Longrightarrow> wp (sealOne S p) Q' w"
  "(\<And>r w'. same w w' \<Longrightarrow> Q' r w') \<Longrightarrow> wp (randomHex S n) Q' w"
  "(\<And>r w'. same w w' \<Longrightarrow> Q2 r w') \<Longrightarrow> wp (logTokens S) Q2 w"
  "(\<And>r w'. same w w' \<Longrightarrow> Q' r w') \<Longrightarrow> wp (Tokens_Issue S name) Q' w"
  by (rule wp_still; (rule still.sealing_keeps still.random_keeps | assumption))+

section \<open>Statements\<close>

lemma wp_get [wp_intro]:
  assumes "alone S"
    and "\<And>e w'. same w w' \<Longrightarrow> errors_is e ErrNotFound = (e = ErrNotFound \<and> g (reg w) = None) \<Longrightarrow>
      \<not> errors_is e ErrSecretsUnavailable \<Longrightarrow> Q (Inl e) w'"
    and "\<And>x w'. same w w' \<Longrightarrow> g (reg w) = Some x \<Longrightarrow> Q (Inr x) w'"
  shows "wp (db S (get_tx g)) Q w"
  using assms
  by (auto simp: wp_db_alone get_tx_def same_def Let_def split: dbout.splits option.splits)

lemma wp_read [wp_intro]:
  assumes "alone S" "\<And>m w'. same w w' \<Longrightarrow> Q (Inl (ErrOther m)) w'"
    and "\<And>w'. same w w' \<Longrightarrow> Q (Inr (g (reg w))) w'"
  shows "wp (db S (read_tx g)) Q w"
  using assms by (auto simp: wp_db_alone same_def Let_def split: dbout.splits)

text \<open>A write is carried out or not; either way it may be an error that comes back.\<close>

lemma wp_write:
  assumes "alone S"
    and "\<And>e w'. same w w' \<Longrightarrow> Q (Inl e) w'"
    and "\<And>m x r' w'. f (reg w) = Inr (x, r') \<Longrightarrow> reg w' = r' \<Longrightarrow> trace w' = trace w \<Longrightarrow> Q (Inl (ErrOther m)) w'"
    and "\<And>x r' w'. f (reg w) = Inr (x, r') \<Longrightarrow> reg w' = r' \<Longrightarrow> trace w' = trace w \<Longrightarrow> Q (Inr x) w'"
  shows "wp (db S f) Q w"
  using assms by (auto simp: wp_db_alone same_def Let_def split: dbout.splits sum.splits)

text \<open>With the database up, a write fails only for the reason the transaction gives.\<close>

lemma wp_write_up:
  assumes "alone S" "db_up S"
    and "\<And>e w'. same w w' \<Longrightarrow> f (reg w) = Inl e \<Longrightarrow> Q (Inl e) w'"
    and "\<And>x r' w'. f (reg w) = Inr (x, r') \<Longrightarrow> reg w' = r' \<Longrightarrow> trace w' = trace w \<Longrightarrow> Q (Inr x) w'"
  shows "wp (db S f) Q w"
  using assms by (auto simp: wp_db_up same_def split: sum.splits)

lemma wp_call [wp_intro]:
  assumes "\<And>e w'. reg w' = reg w \<Longrightarrow> trace w' = trace w @ [\<lparr>ev_call = c, ev_err = Some e, ev_reg = reg w\<rparr>] \<Longrightarrow> Q (Inl e) w'"
    and "\<And>x w'. reg w' = reg w \<Longrightarrow> trace w' = trace w @ [\<lparr>ev_call = c, ev_err = None, ev_reg = reg w\<rparr>] \<Longrightarrow> Q (Inr x) w'"
  shows "wp (invoke b c) Q w"
  using assms by (auto simp: wp_invoke split: sum.splits)

section \<open>Reading a tenant\<close>

text \<open>Opening the secrets changes nothing but the five sealed fields and the mark that some did not open.\<close>

lemma wp_open_secrets:
  assumes "\<And>e w'. same w w' \<Longrightarrow> errors_is e ErrSecretsUnavailable \<Longrightarrow> Q (Inl e) w'"
    and "\<And>s' w'. same w w' \<Longrightarrow> sec_APITokenHash s' = sec_APITokenHash s \<Longrightarrow> Q (Inr s') w'"
  shows "wp (open_secrets S s) Q w"
proof (cases "sv_sealer S")
  case (Some sl)
  have step: "wp (openOne sl p) R v"
    if "\<And>e w'. same v w' \<Longrightarrow> errors_is e ErrSecretsUnavailable \<Longrightarrow> R (Inl e) w'" "\<And>x w'. same v w' \<Longrightarrow> R (Inr x) w'"
    for p R v
    using that by (auto simp: openOne_def wp_simps same_def split: sum.splits)
  show ?thesis
    using assms unfolding same_def open_secrets_def Some option.case
    by (auto simp: wp_simps same_def split: prod.splits intro!: step)
qed (simp add: open_secrets_def wp_simps assms(2))

lemma same_trans: "same w w' \<Longrightarrow> same w' w'' \<Longrightarrow> same w w''"
  by (simp add: same_def)

lemma unavailable_is_found [simp]: "errors_is e ErrSecretsUnavailable \<Longrightarrow> \<not> errors_is e ErrNotFound"
  by (induction e) auto

lemma wp_Store_Get [wp_intro]:
  assumes "alone S"
    and "\<And>e w'. same w w' \<Longrightarrow> errors_is e ErrNotFound \<longrightarrow> \<not> has_tenant (reg w) name \<Longrightarrow> Q (Inl e) w'"
    and "\<And>t s st w'. same w w' \<Longrightarrow> get_row tn_name name (tbl_tenants (reg w)) = Some t \<Longrightarrow>
      sec_APITokenHash s = sec_APITokenHash (tn_secrets t) \<Longrightarrow> Q (Inr (record_of t s st)) w'"
  shows "wp (Store_Get S name) Q w"
  using assms unfolding Store_Get_def tx_tenant_def tx_steps_def wp_orerr wp_wrap same_def
  by (intro wp_get) (auto simp: has_tenant_def wp_simps same_def intro!: wp_open_secrets wp_read)

section \<open>Best-effort writes\<close>

lemma wp_audit [wp_intro]:
  assumes "alone S"
    and "\<And>w' au. reg w' = (reg w)\<lparr>tbl_audit := au\<rparr> \<Longrightarrow> trace w' = trace w \<Longrightarrow> Q () w'"
  shows "wp (audit S c act name) Q w"
proof -
  have "Q () w'" if "same w w'" for w'
    using assms(2)[of w' "tbl_audit (reg w)"] that by (simp add: same_def)
  moreover have "Q () w'" if "tx_audit e (reg w) = Inr (x, r')" "reg w' = r'" "trace w' = trace w" for e x r' w'
    using that assms(2)[of w' "tbl_audit (reg w) @ [e]"] by (simp add: tx_audit_def)
  ultimately show ?thesis
    unfolding audit_def Store_Audit_def wp_bind wp_return by (intro wp_write assms(1))
qed

section \<open>What a run sent\<close>

definition sent :: "world \<Rightarrow> world \<Rightarrow> event list" where
  "sent w w' = drop (length (trace w)) (trace w')"

lemma sent_same [simp]: "trace w' = trace w \<Longrightarrow> sent w w' = []"
  by (simp add: sent_def)

lemma sent_append [simp]: "trace w' = trace w @ evs \<Longrightarrow> sent w w' = evs"
  by (simp add: sent_def)

definition succeeded :: "event \<Rightarrow> bool" where
  "succeeded ev = (ev_err ev = None)"

text \<open>A stored secret: the text itself where nothing seals, else what the secret store made of it.\<close>

definition stored_as :: "service \<Rightarrow> string \<Rightarrow> string \<Rightarrow> bool" where
  "stored_as S p c = (case sv_sealer S of None \<Rightarrow> c = p | Some sl \<Rightarrow> \<exists>t. sl_Seal sl t p = Inr c)"

text \<open>
  What is relied on of the secret store: it opens what it sealed, to the same text, or says it cannot be
  reached.
\<close>

definition sealer_ok :: "service \<Rightarrow> bool" where
  "sealer_ok S = (\<forall>sl t p c t'. sv_sealer S = Some sl \<longrightarrow> sl_Seal sl t p = Inr c \<longrightarrow>
     (case sl_Open sl t' c of Inr q \<Rightarrow> q = p | Inl e \<Rightarrow> errors_is e ErrSecretsUnavailable))"

lemma wp_sealOne:
  assumes "\<And>e w'. same w w' \<Longrightarrow> Q (Inl e) w'" "\<And>c w'. same w w' \<Longrightarrow> stored_as S p c \<Longrightarrow> Q (Inr c) w'"
  shows "wp (sealOne S p) Q w"
proof (cases "sv_sealer S")
  case (Some sl)
  then show ?thesis
    using assms(1) assms(2)[of "w\<lparr>clock := Suc (clock w)\<rparr>"]
    by (cases "sl_Seal sl (clock w) p") (auto simp: sealOne_def wp_simps same_def stored_as_def)
qed (use assms(2)[of w p] in \<open>simp add: sealOne_def wp_simps stored_as_def\<close>)

lemma wp_openOne_stored:
  assumes "sealer_ok S" "sv_sealer S = Some sl" "stored_as S p c"
    and "\<And>e w'. same w w' \<Longrightarrow> errors_is e ErrSecretsUnavailable \<Longrightarrow> Q (Inl e) w'" "\<And>w'. same w w' \<Longrightarrow> Q (Inr (p, False)) w'"
  shows "wp (openOne sl c) Q w"
proof -
  obtain t where "sl_Seal sl t p = Inr c" using assms(2,3) by (auto simp: stored_as_def)
  then have "case sl_Open sl (clock w) c of Inr q \<Rightarrow> q = p | Inl e \<Rightarrow> errors_is e ErrSecretsUnavailable"
    using assms(1,2) unfolding sealer_ok_def by blast
  then show ?thesis
    using assms(4,5) by (cases "sl_Open sl (clock w) c") (auto simp: openOne_def wp_simps same_def)
qed

section \<open>A service for the witnesses\<close>

text \<open>Every backend answers, the database is up, nobody else writes, and the secret store marks what it seals.\<close>

definition sample_sealer :: sealer where
  "sample_sealer = \<lparr>sl_Seal = (\<lambda>t p. Inr (CHR ''v'' # p)), sl_Open = (\<lambda>t c. Inr (tl c))\<rparr>"

definition sample_service :: service where
  "sample_service = \<lparr>sv_Site = sample_site, sv_db = (\<lambda>_. DBOk), sv_others = (\<lambda>_ r. r), sv_sealer = Some sample_sealer,
     sv_DNS = (\<lambda>_ _. Inr ()), sv_Resolver = (\<lambda>_ _. Inr ()), sv_State = (\<lambda>_ _. Inr ()), sv_Fabric = (\<lambda>_ _. Inr []),
     sv_Network = Some (\<lambda>_ _. Inr ()), sv_Compute = Some (\<lambda>_ _. Inr ()), sv_Wireless = Some (\<lambda>_ _. Inr ()),
     sv_Reservations = Some (\<lambda>_ _. Inr ()), sv_BrokerWriter = Some (\<lambda>_ _. Inr ()), sv_LogWriter = Some (\<lambda>_ _. Inr ()),
     sv_Dashboards = Some (\<lambda>_ _. Inr 7),
     sv_Signer = Some (\<lambda>_ _. Inr \<lparr>sg_Certificate = [], sg_Chain = []\<rparr>),
     sv_Tokens = Some \<lparr>tk_key = replicate 32 CHR ''k''\<rparr>,
     sv_Enroller = Some \<lparr>en_Wrap = (\<lambda>_ _. Inr (''tok'', 1)), en_Unwrap = (\<lambda>_ _. Inr [(''tenant'', ''eds'')])\<rparr>,
     sv_EnrollmentTTL = 0, sv_now = int, sv_rand_err = (\<lambda>_. None), sv_rand = (\<lambda>t i. CHR ''r''), sv_rand_int = (\<lambda>t. t),
     sv_hmac = (\<lambda>k m. m), sv_sha256 = (\<lambda>s. s), sv_bcrypt = (\<lambda>t pw. Inr (''$2a$'' @ replicate 56 CHR ''h'')),
     sv_pem_decode = (\<lambda>s. case s of [] \<Rightarrow> None | c # cs \<Rightarrow> Some (\<lparr>pb_type = ''CERTIFICATE REQUEST'', pb_bytes = cs\<rparr>, [])),
     sv_pem_encode = (\<lambda>b. CHR ''-'' # pb_bytes b), sv_parse_csr = (\<lambda>s. None), sv_parse_cert = (\<lambda>s. None)\<rparr>"

definition empty_world :: world where
  "empty_world = \<lparr>clock = 0, trace = [], reg = empty_registry\<rparr>"

definition sample_tenant :: "string \<Rightarrow> int \<Rightarrow> tenant_row" where
  "sample_tenant name i = \<lparr>tn_name = name, tn_idx = i, tn_status = StatusReady,
     tn_secrets = no_secrets\<lparr>sec_APITokenHash := ''hash''\<rparr>, tn_org = 0\<rparr>"

definition sample_world :: world where
  "sample_world = empty_world\<lparr>reg := empty_registry\<lparr>tbl_tenants := [sample_tenant ''eds'' 3]\<rparr>\<rparr>"

lemma sample_alone [simp]: "alone sample_service" "db_up sample_service" "others_ok sample_service" "sealer_ok sample_service"
  by (simp_all add: alone_def db_up_def others_ok_def sealer_ok_def sample_service_def sample_sealer_def)

lemma sample_Site [simp]: "sv_Site sample_service = sample_site"
  by (simp add: sample_service_def)

end
