(* ===== verification/WiFi.thy ===== *)
theory WiFi
  imports Sequential
begin

text \<open>
  \<^verbatim>\<open>wifikeys.go\<close> and \<^verbatim>\<open>admissionkeys.go\<close>: a tenant's Wi-Fi keys, and the key an admission issues before
  the tenant exists. The row goes down before the controller is told; a re-applied key keeps its
  password; a key never changes trust class.
\<close>

section \<open>Tenant keys\<close>

record WiFiKeyRequest =
  wr_Name :: string
  wr_TrustClass :: string
  wr_PSK :: string
  wr_MAC :: string

record IssuedWiFiKey =
  iw_Key :: WiFiKey
  iw_SSID :: string
  iw_VLAN :: int

definition no_wifi_key :: WiFiKey where
  "no_wifi_key = \<lparr>wk_Tenant = [], wk_Name = [], wk_TrustClass = [], wk_PSK = [], wk_MAC = [],
     wk_Unreadable = False, wk_Status = StatusProvisioning\<rparr>"

definition no_issued_key :: IssuedWiFiKey where
  "no_issued_key = \<lparr>iw_Key = no_wifi_key, iw_SSID = [], iw_VLAN = 0\<rparr>"

definition choosePSK :: "service \<Rightarrow> string \<Rightarrow> WiFiKey \<Rightarrow> (err + string) io" where
  "choosePSK S supplied existing =
     (if supplied \<noteq> [] then ret (Inr supplied)
      else if wk_PSK existing \<noteq> [] then ret (Inr (wk_PSK existing))
      else randomPSK S)"

text \<open>An optional MAC: empty stays empty, anything else has to be one.\<close>

definition optional_mac :: "string \<Rightarrow> string option" where
  "optional_mac mac = (if mac = [] then Some [] else NormalizeMAC mac)"

definition key_spec :: "TrustClass \<Rightarrow> string \<Rightarrow> string \<Rightarrow> string \<Rightarrow> WiFiKeySpec" where
  "key_spec tc name psk mac = \<lparr>ws_SSID = tc_SSID tc, ws_Name = name, ws_PSK = psk, ws_VLAN = tc_VLAN tc,
     ws_MAC = (if mac \<noteq> [] then ControllerMAC mac else [])\<rparr>"

text \<open>\<^verbatim>\<open>CreateWiFiKey\<close> from the point where the request has been accepted.\<close>

definition issue_key ::
  "service \<Rightarrow> ctx \<Rightarrow> unit answer \<Rightarrow> string \<Rightarrow> WiFiKeyRequest \<Rightarrow> TrustClass \<Rightarrow> string \<Rightarrow> WiFiKey \<Rightarrow> (IssuedWiFiKey \<times> err option) io" where
  "issue_key S c wl tenantName req tc mac existing =
     tryc (choosePSK S (wr_PSK req) existing) (\<lambda>e. ret (no_issued_key, Some e)) (\<lambda>psk.
     tryc (Store_PutWiFiKey S \<lparr>wk_Tenant = tenantName, wk_Name = wr_Name req, wk_TrustClass = wr_TrustClass req,
         wk_PSK = psk, wk_MAC = mac, wk_Unreadable = False, wk_Status = StatusProvisioning\<rparr>)
       (\<lambda>e. ret (no_issued_key, Some e)) (\<lambda>k.
     do {
       audit S c (ActWiFiKeyCreate (wk_Name k) (wk_TrustClass k) (tc_VLAN tc) (tc_SSID tc)) tenantName;
       let issued = \<lparr>iw_Key = k, iw_SSID = tc_SSID tc, iw_VLAN = tc_VLAN tc\<rparr>;
       tryc (invoke wl (CEnsureKey (key_spec tc (tenantName @ ''-'' @ wk_Name k) psk mac)))
         (\<lambda>e. ret (issued, Some (StepError StepWiFiKey e))) (\<lambda>_.
       tryc (Store_SetWiFiKeyStatus S tenantName (wk_Name k) StatusReady)
         (\<lambda>e. ret (issued, Some e)) (\<lambda>_.
       ret (issued\<lparr>iw_Key := k\<lparr>wk_Status := StatusReady\<rparr>\<rparr>, None)))
     }))"

definition CreateWiFiKey :: "service \<Rightarrow> ctx \<Rightarrow> string \<Rightarrow> WiFiKeyRequest \<Rightarrow> (IssuedWiFiKey \<times> err option) io" where
  "CreateWiFiKey S c tenantName req =
     (case sv_Wireless S of None \<Rightarrow> ret (no_issued_key, Some (invalid (ForWiFi RNoWireless)))
      | Some wl \<Rightarrow>
     tryc (Store_Get S tenantName) (\<lambda>e. ret (no_issued_key, Some e)) (\<lambda>rec.
     if rec_Status rec \<noteq> StatusReady then ret (no_issued_key, Some (invalid (ForTenant (RTenantIs tenantName (rec_Status rec)))))
     else if \<not> ValidWorkloadName (wr_Name req) then ret (no_issued_key, Some (invalid (ForWiFi RKeyName)))
     else (case site_TrustClass (sv_Site S) (wr_TrustClass req) of
         None \<Rightarrow> ret (no_issued_key, Some (invalid (ForTenant (RClassNotServed (wr_TrustClass req) (TrustClassNames (sv_Site S))))))
       | Some tc \<Rightarrow>
     if wr_PSK req \<noteq> [] \<and> \<not> ValidPSK (wr_PSK req) then ret (no_issued_key, Some (invalid (ForWiFi RPSK)))
     else (case optional_mac (wr_MAC req) of
         None \<Rightarrow> ret (no_issued_key, Some (invalid (ForTenant (RMAC (wr_MAC req)))))
       | Some mac \<Rightarrow>
     tryc (getOrNone (Store_GetWiFiKey S tenantName (wr_Name req))) (\<lambda>e. ret (no_issued_key, Some e)) (\<lambda>found.
     (case found of
         None \<Rightarrow> issue_key S c wl tenantName req tc mac no_wifi_key
       | Some existing \<Rightarrow>
           if wk_TrustClass existing \<noteq> wr_TrustClass req
           then ret (no_issued_key, Some (invalid (ForWiFi (RKeyClass (wr_Name req) (wk_TrustClass existing)))))
           else issue_key S c wl tenantName req tc mac existing))))))"

definition withClass :: "service \<Rightarrow> WiFiKey \<Rightarrow> IssuedWiFiKey" where
  "withClass S k =
     (case site_TrustClass (sv_Site S) (wk_TrustClass k) of
        None \<Rightarrow> \<lparr>iw_Key = k, iw_SSID = [], iw_VLAN = 0\<rparr>
      | Some tc \<Rightarrow> \<lparr>iw_Key = k, iw_SSID = tc_SSID tc, iw_VLAN = tc_VLAN tc\<rparr>)"

definition GetWiFiKey :: "service \<Rightarrow> string \<Rightarrow> string \<Rightarrow> (err + IssuedWiFiKey) io" where
  "GetWiFiKey S tenantName name = orerr (Store_GetWiFiKey S tenantName name) (\<lambda>k. ret (Inr (withClass S k)))"

definition ListWiFiKeys :: "service \<Rightarrow> string \<Rightarrow> (err + IssuedWiFiKey list) io" where
  "ListWiFiKeys S tenantName = orerr (Store_ListWiFiKeys S tenantName) (\<lambda>ks. ret (Inr (map (withClass S) ks)))"

definition removeKeyFromController :: "service \<Rightarrow> WiFiKey \<Rightarrow> (err + unit) io" where
  "removeKeyFromController S k =
     (case sv_Wireless S of None \<Rightarrow> ret (Inr ())
      | Some wl \<Rightarrow>
          (case site_TrustClass (sv_Site S) (wk_TrustClass k) of None \<Rightarrow> ret (Inr ())
           | Some tc \<Rightarrow> invoke wl (CRemoveKey (tc_SSID tc) (wk_Tenant k @ ''-'' @ wk_Name k))))"

definition DeleteWiFiKey :: "service \<Rightarrow> ctx \<Rightarrow> string \<Rightarrow> string \<Rightarrow> (err + unit) io" where
  "DeleteWiFiKey S c tenantName name =
     orerr (Store_GetWiFiKey S tenantName name) (\<lambda>k.
     tryc (removeKeyFromController S k) (\<lambda>e. ret (Inl (StepError StepWiFiKey e))) (\<lambda>_.
     do {
       audit S c (ActWiFiKeyDelete name (wk_TrustClass k)) tenantName;
       Store_DeleteWiFiKey S tenantName name
     }))"

section \<open>Admission keys\<close>

definition AdmissionKeyName :: string where "AdmissionKeyName = ''admission''"

record AdmissionWiFi =
  aw_SSID :: string
  aw_PSK :: string
  aw_MAC :: string

definition issueAdmissionKey :: "service \<Rightarrow> string \<Rightarrow> string \<Rightarrow> (err + AdmissionWiFi option) io" where
  "issueAdmissionKey S name mac =
     (case sv_Wireless S of None \<Rightarrow> ret (Inr None)
      | Some wl \<Rightarrow>
     if site_AdmissionClass (sv_Site S) = [] then ret (Inr None)
     else (case site_TrustClass (sv_Site S) (site_AdmissionClass (sv_Site S)) of
         None \<Rightarrow> ret (Inl (invalid (ForTenant (RAdmissionClass (site_AdmissionClass (sv_Site S))))))
       | Some tc \<Rightarrow>
     orerr (randomPSK S) (\<lambda>psk.
     orerr (Store_PutAdmissionKey S \<lparr>ak_Tenant = name, ak_PSK = psk, ak_MAC = mac, ak_Unreadable = False\<rparr>) (\<lambda>_.
     tryc (invoke wl (CEnsureKey (key_spec tc (name @ ''-'' @ AdmissionKeyName) psk mac)))
       (\<lambda>e. ret (Inl (StepError StepWiFiKey e))) (\<lambda>_.
     ret (Inr (Some \<lparr>aw_SSID = tc_SSID tc, aw_PSK = psk, aw_MAC = mac\<rparr>)))))))"

definition RevokeAdmission :: "service \<Rightarrow> ctx \<Rightarrow> string \<Rightarrow> (err + unit) io" where
  "RevokeAdmission S c name =
     orerr (Store_GetAdmissionKey S name) (\<lambda>k.
     tryc (case (site_TrustClass (sv_Site S) (site_AdmissionClass (sv_Site S)), sv_Wireless S) of
             (Some tc, Some wl) \<Rightarrow> invoke wl (CRemoveKey (tc_SSID tc) (name @ ''-'' @ AdmissionKeyName))
           | _ \<Rightarrow> ret (Inr ()))
       (\<lambda>e. ret (Inl (StepError StepWiFiKey e))) (\<lambda>_.
     do {
       audit S c (ActAdmissionRevoke (ak_MAC k \<noteq> [])) name;
       Store_DeleteAdmissionKey S name
     }))"

definition adoptAdmissionKey :: "service \<Rightarrow> string \<Rightarrow> (err + unit) io" where
  "adoptAdmissionKey S name =
     orerr (getOrNone (Store_GetAdmissionKey S name)) (\<lambda>found.
     (case found of None \<Rightarrow> ret (Inr ())
      | Some k \<Rightarrow>
     orerr (Store_PutWiFiKey S \<lparr>wk_Tenant = name, wk_Name = AdmissionKeyName,
         wk_TrustClass = site_AdmissionClass (sv_Site S), wk_PSK = ak_PSK k, wk_MAC = ak_MAC k,
         wk_Unreadable = False, wk_Status = StatusReady\<rparr>) (\<lambda>_.
     Store_DeleteAdmissionKey S name)))"

section \<open>Steps kept\<close>

lemma keeps_issue_key:
  "others_ok S \<Longrightarrow> run.keeps (sv_Site S) (issue_key S c wl tn req tc mac existing)"
  unfolding issue_key_def choosePSK_def
  by (intro keeps_intros keeps_random keeps_service keeps_writes; assumption)

lemma keeps_wifi [store_keeps]:
  assumes "others_ok S"
  shows "run.keeps (sv_Site S) (CreateWiFiKey S c tn req)" "run.keeps (sv_Site S) (GetWiFiKey S tn name)"
    "run.keeps (sv_Site S) (ListWiFiKeys S tn)" "run.keeps (sv_Site S) (removeKeyFromController S k)"
    "run.keeps (sv_Site S) (DeleteWiFiKey S c tn name)" "run.keeps (sv_Site S) (issueAdmissionKey S name mac)"
    "run.keeps (sv_Site S) (RevokeAdmission S c name)" "run.keeps (sv_Site S) (adoptAdmissionKey S name)"
  unfolding CreateWiFiKey_def GetWiFiKey_def ListWiFiKeys_def removeKeyFromController_def DeleteWiFiKey_def
    issueAdmissionKey_def RevokeAdmission_def adoptAdmissionKey_def
  by (intro keeps_intros keeps_random keeps_service keeps_reads keeps_writes keeps_getOrNone keeps_issue_key assms)+

section \<open>Properties of the component\<close>

text \<open>What a run of \<^verbatim>\<open>CreateWiFiKey\<close> tells the controller, against the row the registry holds as it does.\<close>

definition key_event_ok :: "service \<Rightarrow> string \<Rightarrow> WiFiKeyRequest \<Rightarrow> event \<Rightarrow> bool" where
  "key_event_ok S tn req ev =
     (\<exists>tc psk k. site_TrustClass (sv_Site S) (wr_TrustClass req) = Some tc \<and>
        get_row wk_key (tn, wr_Name req) (tbl_wifi_keys (ev_reg ev)) = Some k \<and>
        ev_call ev = CEnsureKey (key_spec tc (tn @ ''-'' @ wr_Name req) psk (wk_MAC k)) \<and>
        wk_TrustClass k = wr_TrustClass req \<and> stored_as S psk (wk_PSK k))"

lemma put_wifi_key_row:
  assumes "tx_put_wifi_key k r = Inr (out, r')"
  shows "get_row wk_key (wk_Tenant k, wk_Name k) (tbl_wifi_keys r') = Some out"
    "wk_PSK out = wk_PSK k" "wk_MAC out = wk_MAC k" "wk_Name out = wk_Name k"
    "case get_row wk_key (wk_Tenant k, wk_Name k) (tbl_wifi_keys r) of
       None \<Rightarrow> wk_TrustClass out = wk_TrustClass k | Some old \<Rightarrow> wk_TrustClass out = wk_TrustClass old"
  using assms
  by (auto simp: tx_put_wifi_key_def Let_def wifi_keys.get_upsert wk_key_def wk_update_def
      split: if_splits option.splits dest: get_row_Some)

lemma wp_Store_PutWiFiKey:
  assumes "alone S" "\<And>e w'. trace w' = trace w \<Longrightarrow> Q (Inl e) w'"
    and "\<And>out w'. trace w' = trace w \<Longrightarrow> get_row wk_key (wk_Tenant k, wk_Name k) (tbl_wifi_keys (reg w')) = Some out \<Longrightarrow>
      stored_as S (wk_PSK k) (wk_PSK out) \<Longrightarrow> wk_MAC out = wk_MAC k \<Longrightarrow> wk_Name out = wk_Name k \<Longrightarrow>
      (case get_row wk_key (wk_Tenant k, wk_Name k) (tbl_wifi_keys (reg w)) of
         None \<Rightarrow> wk_TrustClass out = wk_TrustClass k | Some old \<Rightarrow> wk_TrustClass out = wk_TrustClass old) \<Longrightarrow>
      Q (Inr (out\<lparr>wk_PSK := wk_PSK k\<rparr>)) w'"
  shows "wp (Store_PutWiFiKey S k) Q w"
proof -
  have "Q (Inr (out\<lparr>wk_PSK := wk_PSK k\<rparr>)) w'"
    if "trace w' = trace w" "stored_as S (wk_PSK k) c" "tx_put_wifi_key (k\<lparr>wk_PSK := c\<rparr>) (reg w) = Inr (out, reg w')" for out w' c
    using put_wifi_key_row[OF that(3)] that(1,2) by (intro assms(3)) (auto split: option.splits)
  then show ?thesis
    using assms(1,2) unfolding Store_PutWiFiKey_def wp_orerr
    by (intro wp_sealOne) (auto simp: wp_simps same_def intro!: wp_write)
qed

lemma wp_Store_GetWiFiKey:
  assumes "alone S"
    and "\<And>e w'. same w w' \<Longrightarrow> errors_is e ErrNotFound \<longrightarrow> get_row wk_key (tn, name) (tbl_wifi_keys (reg w)) = None \<Longrightarrow> Q (Inl e) w'"
    and "\<And>k psk bad w'. same w w' \<Longrightarrow> get_row wk_key (tn, name) (tbl_wifi_keys (reg w)) = Some k \<Longrightarrow>
      (\<And>p. sealer_ok S \<Longrightarrow> stored_as S p (wk_PSK k) \<Longrightarrow> psk = p) \<Longrightarrow>
      Q (Inr (k\<lparr>wk_PSK := psk, wk_Unreadable := bad\<rparr>)) w'"
  shows "wp (Store_GetWiFiKey S tn name) Q w"
proof -
  have found: "wp (openWiFiKey S k) Q v" if v: "same w v" and k: "get_row wk_key (tn, name) (tbl_wifi_keys (reg w)) = Some k" for k v
  proof (cases "sv_sealer S")
    case None
    have "k = k\<lparr>wk_PSK := wk_PSK k, wk_Unreadable := wk_Unreadable k\<rparr>" by simp
    then have "Q (Inr k) v" using assms(3)[OF v k, of "wk_PSK k" "wk_Unreadable k"] by (simp add: stored_as_def None)
    then show ?thesis by (simp add: openWiFiKey_def None wp_simps)
  next
    case (Some sl)
    have open_ok: "q = p" if "sl_Open sl t (wk_PSK k) = Inr q" "sealer_ok S" "stored_as S p (wk_PSK k)" for p q t
      using that by (fastforce simp: sealer_ok_def stored_as_def Some split: sum.splits)
    have open_no: "errors_is e ErrSecretsUnavailable" if "sl_Open sl t (wk_PSK k) = Inl e" "sealer_ok S" "stored_as S p (wk_PSK k)" for p e t
      using that by (fastforce simp: sealer_ok_def stored_as_def Some split: sum.splits)
    have same: "same w (v\<lparr>clock := n\<rparr>)" for n using v by (simp add: same_def)
    show ?thesis
    proof (cases "sl_Open sl (clock v) (wk_PSK k)")
      case (Inl e)
      then show ?thesis
        using assms(2)[OF same] assms(3)[OF same k, of "[]" True] open_no[OF Inl]
        by (auto simp: openWiFiKey_def Some openOne_def wp_simps)
    next
      case (Inr q)
      then show ?thesis
        using assms(3)[OF same k, of q False] open_ok[OF Inr] by (simp add: openWiFiKey_def Some openOne_def wp_simps)
    qed
  qed
  show ?thesis
    unfolding Store_GetWiFiKey_def tx_wifi_key_def wp_orerr
    by (rule wp_get) (auto intro: assms(1,2) found)
qed

lemma wp_key_status:
  "alone S \<Longrightarrow> wp (Store_SetWiFiKeyStatus S tn n st) (\<lambda>r w'. trace w' = trace u) u"
  unfolding Store_SetWiFiKeyStatus_def by (intro wp_write) (auto simp: same_def)

lemma wp_issue_key:
  assumes "alone S" "trace v = trace w" "site_TrustClass (sv_Site S) (wr_TrustClass req) = Some tc"
    and "\<And>old. get_row wk_key (tn, wr_Name req) (tbl_wifi_keys (reg v)) = Some old \<Longrightarrow> wk_TrustClass old = wr_TrustClass req"
  shows "wp (issue_key S c wl tn req tc mac existing) (\<lambda>_ w'. list_all (key_event_ok S tn req) (sent w w')) v"
proof -
  let ?Q = "\<lambda>(_ :: IssuedWiFiKey \<times> err option) w'. list_all (key_event_ok S tn req) (sent w w')"
  have psk: "wp (choosePSK S p x) (\<lambda>r w'. same v w') v" for p x
    unfolding choosePSK_def by (auto simp: wp_simps intro: wp_still[OF still.random_keeps(4)])
  have row: "key_event_ok S tn req \<lparr>ev_call = CEnsureKey (key_spec tc (tn @ ''-'' @ wr_Name req) p (wk_MAC k)), ev_err = e, ev_reg = r\<rparr>"
    if "get_row wk_key (tn, wr_Name req) (tbl_wifi_keys r) = Some k" "wk_TrustClass k = wr_TrustClass req" "stored_as S p (wk_PSK k)"
    for k r p e
    using that assms(3) by (auto simp: key_event_ok_def)
  show ?thesis
    unfolding issue_key_def wp_tryc
    by (rule wp_mono[OF psk])
      (auto simp: wp_simps same_def assms(2,4) split: sum.split option.splits
        intro!: wp_Store_PutWiFiKey[OF assms(1)] wp_audit[OF assms(1)] wp_call wp_mono[OF wp_key_status[OF assms(1)]] row[simplified])
qed

text \<open>The registry holds a Wi-Fi key before the controller is told of it: at the moment \<^verbatim>\<open>CreateWiFiKey\<close>
  calls the controller, the row is there with the trust class and the MAC of the call and with the
  password, as the secret store seals it. A crash or a failure after that leaves a key that can be
  revoked. This holds whatever fails on the way.\<close>

lemma wifi_key_durable_first:
  assumes "alone S"
  shows "wp (CreateWiFiKey S c tn req) (\<lambda>_ w'. list_all (key_event_ok S tn req) (sent w w')) w"
proof (cases "sv_Wireless S")
  case (Some wl)
  show ?thesis
    unfolding CreateWiFiKey_def Some option.case
    using assms
    by (auto simp: wp_simps same_def intro!: wp_Store_Get wp_Store_GetWiFiKey wp_issue_key split: option.splits)
qed (simp add: CreateWiFiKey_def wp_simps)

definition lamp_key :: WiFiKeyRequest where
  "lamp_key = \<lparr>wr_Name = ''lamp'', wr_TrustClass = ''iot'', wr_PSK = ''swordfish'', wr_MAC = []\<rparr>"

lemma wp_issue_key_psk:
  assumes "alone S" "trace v = trace w" "wr_PSK req = []" "wk_PSK existing = p" "p \<noteq> []"
  shows "wp (issue_key S c wl tn req tc mac existing)
    (\<lambda>_ w'. list_all (\<lambda>ev. \<exists>spec. ev_call ev = CEnsureKey spec \<and> ws_PSK spec = p) (sent w w')) v"
  unfolding issue_key_def choosePSK_def
  by (auto simp: wp_simps assms(2-5) key_spec_def split: sum.split
      intro!: wp_Store_PutWiFiKey[OF assms(1)] wp_audit[OF assms(1)] wp_call wp_mono[OF wp_key_status[OF assms(1)]])

text \<open>Asking again for a Wi-Fi key keeps its password: with a key in the registry and no password in
  the request, every call \<^verbatim>\<open>CreateWiFiKey\<close> makes to the controller carries the stored password, as long
  as the secret store opens what it sealed or refuses.\<close>

lemma wifi_key_reapply_keeps_password:
  assumes "alone S" "sealer_ok S" "get_row wk_key (tn, wr_Name req) (tbl_wifi_keys (reg w)) = Some old"
    and "stored_as S p (wk_PSK old)" "p \<noteq> []" "wr_PSK req = []"
  shows "wp (CreateWiFiKey S c tn req)
    (\<lambda>_ w'. list_all (\<lambda>ev. \<exists>spec. ev_call ev = CEnsureKey spec \<and> ws_PSK spec = p) (sent w w')) w"
proof (cases "sv_Wireless S")
  case (Some wl)
  show ?thesis
    unfolding CreateWiFiKey_def Some option.case
    using assms
    by (auto simp: wp_simps same_def intro!: wp_Store_Get wp_Store_GetWiFiKey wp_issue_key_psk split: option.splits)
qed (simp add: CreateWiFiKey_def wp_simps)

definition keyed_world :: world where
  "keyed_world = sample_world\<lparr>reg := (reg sample_world)\<lparr>tbl_wifi_keys :=
     [\<lparr>wk_Tenant = ''eds'', wk_Name = ''lamp'', wk_TrustClass = ''iot'', wk_PSK = ''vsecret-psk'', wk_MAC = [],
       wk_Unreadable = False, wk_Status = StatusReady\<rparr>]\<rparr>\<rparr>"

end
