(* ===== verification/Addresses.thy ===== *)
theory Addresses
  imports Sequential
begin

text \<open>
  \<^verbatim>\<open>devices.go\<close> and \<^verbatim>\<open>addresses.go\<close>: the device registry and the fixed addresses reserved for devices.
\<close>

section \<open>Reservations and names\<close>

record IssuedAddress =
  ia_Address :: DeviceAddress
  ia_FQDN :: string

definition no_address :: DeviceAddress where
  "no_address = \<lparr>da_Tenant = [], da_Device = [], da_TrustClass = [], da_Address = [], da_MAC = [], da_Status = StatusProvisioning\<rparr>"

definition no_issued_address :: IssuedAddress where
  "no_issued_address = \<lparr>ia_Address = no_address, ia_FQDN = []\<rparr>"

definition reservationDescription :: "string \<Rightarrow> string \<Rightarrow> string" where
  "reservationDescription tenantName device = ''Deevnet API - '' @ tenantName @ ''/'' @ device"

text \<open>A class with no range gives the zero subnet, as a missing map entry does.\<close>

definition class_subnet :: "service \<Rightarrow> string \<Rightarrow> string" where
  "class_subnet S cls =
     (case map_of (site_AddressRanges (sv_Site S)) cls of None \<Rightarrow> ''invalid Prefix'' | Some r \<Rightarrow> prefix_String (ar_Subnet r))"

definition reservation :: "service \<Rightarrow> DeviceAddress \<Rightarrow> Reservation" where
  "reservation S a = \<lparr>rv_Subnet = class_subnet S (da_TrustClass a), rv_Address = da_Address a, rv_MAC = da_MAC a,
     rv_Hostname = da_Tenant a @ ''-'' @ da_Device a, rv_Description = reservationDescription (da_Tenant a) (da_Device a)\<rparr>"

definition device_record :: "DeviceAddress \<Rightarrow> DNSRecord" where
  "device_record a = \<lparr>dr_Name = da_Device a, dr_Address = da_Address a, dr_Reverse = False\<rparr>"

definition reverse_zone :: "service \<Rightarrow> Record \<Rightarrow> string" where
  "reverse_zone S rec = num_ReverseZone (Numbering_of (sv_Site S) (rec_Index rec))"

definition device_fqdn :: "service \<Rightarrow> DeviceAddress \<Rightarrow> string" where
  "device_fqdn S a = da_Device a @ ''.'' @ Zone (sv_Site S) (da_Tenant a)"

text \<open>\<^verbatim>\<open>pushAddress\<close>; its callers have checked that \<^verbatim>\<open>Reservations\<close> is there.\<close>

definition pushAddress :: "service \<Rightarrow> unit answer \<Rightarrow> DeviceAddress \<Rightarrow> bool \<Rightarrow> (IssuedAddress \<times> err option) io" where
  "pushAddress S rv a fresh =
     (let out = \<lparr>ia_Address = a, ia_FQDN = device_fqdn S a\<rparr> in
     tryc (invoke rv (CEnsureReservation (reservation S a)))
       (\<lambda>e. if errors_is e ErrAddressConflict
            then do {
              (if fresh then do { _ \<leftarrow> Store_DeleteDeviceAddress S (da_Tenant a) (da_Device a); ret () } else ret ());
              ret (no_issued_address, Some ErrAddressConflict) }
            else ret (out, Some (StepError StepAddress e))) (\<lambda>_.
     tryc (Store_Get S (da_Tenant a)) (\<lambda>e. ret (out, Some e)) (\<lambda>rec.
     tryc (invoke (sv_DNS S) (CEnsureRecords (Zone (sv_Site S) (da_Tenant a)) (reverse_zone S rec) [device_record a]))
       (\<lambda>e. ret (out, Some (StepError StepDNS e))) (\<lambda>_.
     tryc (Store_SetDeviceAddressStatus S (da_Tenant a) (da_Device a) StatusReady) (\<lambda>e. ret (out, Some e)) (\<lambda>_.
     ret (out\<lparr>ia_Address := a\<lparr>da_Status := StatusReady\<rparr>\<rparr>, None))))))"

definition nameIsFree :: "service \<Rightarrow> string \<Rightarrow> string \<Rightarrow> (err + unit) io" where
  "nameIsFree S tenantName name =
     orerr (getOrNone (Store_GetWorkload S tenantName name)) (\<lambda>found.
     if found \<noteq> None then ret (Inl (invalid (ForAddress (RNameWorkload name))))
     else orerr (Store_ListRecords S tenantName) (\<lambda>recs.
       if list_ex (\<lambda>r. er_Name r = name) recs then ret (Inl (invalid (ForAddress (RNameRecord name))))
       else ret (Inr ())))"

definition deviceHoldsName :: "service \<Rightarrow> string \<Rightarrow> string \<Rightarrow> (err + unit) io" where
  "deviceHoldsName S tenantName name =
     orerr (getOrNone (Store_GetDeviceAddress S tenantName name)) (\<lambda>found.
     if found \<noteq> None then ret (Inl (invalid (ForAddress (RNameDevice name)))) else ret (Inr ()))"

section \<open>Addresses\<close>

text \<open>The address asked for, in canonical form, or the refusal.\<close>

definition requested_address :: "AddressRange \<Rightarrow> string \<Rightarrow> err + string" where
  "requested_address r requested =
     (if requested = [] then Inr []
      else (case ParseAddr requested of
          None \<Rightarrow> Inl (invalid (ForAddress (RNotInRange requested (ar_First r) (ar_Last r))))
        | Some a \<Rightarrow> if range_Contains r a then Inr (AddrString a)
            else Inl (invalid (ForAddress (RNotInRange requested (ar_First r) (ar_Last r))))))"

definition CreateDeviceAddress :: "service \<Rightarrow> ctx \<Rightarrow> string \<Rightarrow> string \<Rightarrow> string \<Rightarrow> (IssuedAddress \<times> err option) io" where
  "CreateDeviceAddress S c tenantName device requested =
     (case sv_Reservations S of None \<Rightarrow> ret (no_issued_address, Some (invalid (ForAddress RNoReservations)))
      | Some rv \<Rightarrow>
     tryc (Store_Get S tenantName) (\<lambda>e. ret (no_issued_address, Some e)) (\<lambda>rec.
     if rec_Status rec \<noteq> StatusReady then ret (no_issued_address, Some (invalid (ForTenant (RTenantIs tenantName (rec_Status rec)))))
     else tryc (getOrNone (Store_GetDevice S tenantName device)) (\<lambda>e. ret (no_issued_address, Some e)) (\<lambda>found.
     (case found of None \<Rightarrow> ret (no_issued_address, Some (invalid (ForAddress (RDeviceUnknown device))))
      | Some d \<Rightarrow>
     if dv_MAC d = [] then ret (no_issued_address, Some (invalid (ForAddress (RDeviceNoMAC device))))
     else (case map_of (site_AddressRanges (sv_Site S)) (dv_TrustClass d) of
         None \<Rightarrow> ret (no_issued_address, Some (invalid (ForAddress (RNoRange (dv_TrustClass d)))))
       | Some r \<Rightarrow>
     (case requested_address r requested of Inl e \<Rightarrow> ret (no_issued_address, Some e)
      | Inr req \<Rightarrow>
     tryc (getOrNone (Store_GetDeviceAddress S tenantName device)) (\<lambda>e. ret (no_issued_address, Some e)) (\<lambda>existing.
     tryc (case existing of None \<Rightarrow> nameIsFree S tenantName device
           | Some x \<Rightarrow> if req \<noteq> [] \<and> req \<noteq> da_Address x
               then ret (Inl (invalid (ForAddress (RHoldsOther device (da_Address x))))) else ret (Inr ()))
       (\<lambda>e. ret (no_issued_address, Some e)) (\<lambda>_.
     tryc (Store_CreateDeviceAddress S \<lparr>da_Tenant = tenantName, da_Device = device, da_TrustClass = dv_TrustClass d,
         da_Address = [], da_MAC = dv_MAC d, da_Status = StatusProvisioning\<rparr>
         (\<lambda>held. pickAddress r (AddressQuota (sv_Site S)) tenantName (dv_MAC d) req held))
       (\<lambda>e. ret (no_issued_address, Some e)) (\<lambda>a.
     do {
       let a = a\<lparr>da_MAC := dv_MAC d\<rparr>;
       audit S c (ActAddressCreate device (da_TrustClass a) (da_Address a) (da_MAC a)) tenantName;
       pushAddress S rv a (case existing of None \<Rightarrow> True | Some x \<Rightarrow> da_Address x = [])
     })))))))))"

definition GetDeviceAddress :: "service \<Rightarrow> string \<Rightarrow> string \<Rightarrow> (err + IssuedAddress) io" where
  "GetDeviceAddress S tenantName device =
     orerr (Store_GetDeviceAddress S tenantName device) (\<lambda>a. ret (Inr \<lparr>ia_Address = a, ia_FQDN = device_fqdn S a\<rparr>))"

definition removeReservation :: "service \<Rightarrow> DeviceAddress \<Rightarrow> (err + unit) io" where
  "removeReservation S a =
     (case sv_Reservations S of None \<Rightarrow> ret (Inr ())
      | Some rv \<Rightarrow> invoke rv (CRemoveReservation (reservationDescription (da_Tenant a) (da_Device a))))"

definition DeleteDeviceAddress :: "service \<Rightarrow> ctx \<Rightarrow> string \<Rightarrow> string \<Rightarrow> (err + unit) io" where
  "DeleteDeviceAddress S c tenantName device =
     orerr (Store_Get S tenantName) (\<lambda>rec.
     orerr (Store_GetDeviceAddress S tenantName device) (\<lambda>a.
     orerr (Store_ListRecords S tenantName) (\<lambda>recs.
     (case find (\<lambda>r. er_Address r = da_Address a) recs of
        Some r \<Rightarrow> ret (Inl (invalid (ForAddress (RRecordPoints (er_Name r) (da_Address a)))))
      | None \<Rightarrow>
     tryc (removeReservation S a) (\<lambda>e. ret (Inl (StepError StepAddress e))) (\<lambda>_.
     tryc (invoke (sv_DNS S) (CRemoveRecords (Zone (sv_Site S) tenantName) (reverse_zone S rec) [device_record a]))
       (\<lambda>e. ret (Inl (StepError StepDNS e))) (\<lambda>_.
     do {
       audit S c (ActAddressDelete device (da_Address a)) tenantName;
       Store_DeleteDeviceAddress S tenantName device
     }))))))"

text \<open>The loop of \<^verbatim>\<open>ensureAddresses\<close>, over the addresses whose class still has a range.\<close>

definition ensure_address :: "service \<Rightarrow> unit answer \<Rightarrow> Record \<Rightarrow> DeviceAddress \<Rightarrow> (err option) io" where
  "ensure_address S rv rec a =
     (if map_of (site_AddressRanges (sv_Site S)) (da_TrustClass a) = None then ret None
      else tryc (invoke rv (CEnsureReservation (reservation S a))) (\<lambda>e. ret (Some e)) (\<lambda>_.
        tryc (invoke (sv_DNS S) (CEnsureRecords (Zone (sv_Site S) (rec_Name rec)) (reverse_zone S rec) [device_record a]))
          (\<lambda>e. ret (Some e)) (\<lambda>_. ret None)))"

definition ensureAddresses :: "service \<Rightarrow> unit answer \<Rightarrow> Record \<Rightarrow> (err option) io" where
  "ensureAddresses S rv rec =
     tryc (Store_ListDeviceAddresses S (rec_Name rec)) (\<lambda>e. ret (Some e)) (\<lambda>addrs. each (ensure_address S rv rec) addrs)"

definition holdsAddress :: "service \<Rightarrow> string \<Rightarrow> string \<Rightarrow> (err + bool) io" where
  "holdsAddress S tenantName address =
     orerr (Store_ListDeviceAddresses S tenantName) (\<lambda>addrs. ret (Inr (list_ex (\<lambda>a. da_Address a = address) addrs)))"

section \<open>Devices\<close>

record DeviceRequest =
  dq_Name :: string
  dq_TrustClass :: string
  dq_MAC :: string

definition no_device :: Device where
  "no_device = \<lparr>dv_Tenant = [], dv_Name = [], dv_TrustClass = [], dv_MAC = [], dv_Status = StatusProvisioning\<rparr>"

text \<open>The check of a changed MAC, before anything is written.\<close>

definition check_moved :: "service \<Rightarrow> string \<Rightarrow> string \<Rightarrow> string \<Rightarrow> DeviceAddress \<Rightarrow> (err + unit) io" where
  "check_moved S tenantName name mac held =
     (if mac = [] then ret (Inl (invalid (ForDevice (RClearMAC name (da_Address held)))))
      else if sv_Reservations S = None then ret (Inl (invalid (ForAddress RNoReservations)))
      else orerr (Store_ListClassAddresses S (da_TrustClass held)) (\<lambda>others.
        if list_ex (\<lambda>x. da_MAC x = mac \<and> (da_Tenant x \<noteq> tenantName \<or> da_Device x \<noteq> name)) others
        then ret (Inl ErrAddressConflict) else ret (Inr ())))"

text \<open>\<^verbatim>\<open>CreateDevice\<close> from the point where the request has been accepted.\<close>

definition put_device :: "service \<Rightarrow> ctx \<Rightarrow> string \<Rightarrow> DeviceRequest \<Rightarrow> string \<Rightarrow> Device \<Rightarrow> (Device \<times> err option) io" where
  "put_device S c tenantName req mac existing =
     tryc (getOrNone (Store_GetDeviceAddress S tenantName (dq_Name req))) (\<lambda>e. ret (no_device, Some e)) (\<lambda>held.
     (let moved = (held \<noteq> None \<and> dv_MAC existing \<noteq> mac) in
     tryc (case held of Some h \<Rightarrow> if moved then check_moved S tenantName (dq_Name req) mac h else ret (Inr ())
           | None \<Rightarrow> ret (Inr ()))
       (\<lambda>e. ret (no_device, Some e)) (\<lambda>_.
     tryc (Store_PutDevice S \<lparr>dv_Tenant = tenantName, dv_Name = dq_Name req, dv_TrustClass = dq_TrustClass req,
         dv_MAC = mac, dv_Status = StatusReady\<rparr>) (\<lambda>e. ret (no_device, Some e)) (\<lambda>d.
     do {
       audit S c (ActDeviceCreate (dv_Name d) (dv_TrustClass d) (dv_MAC d)) tenantName;
       (case (held, sv_Reservations S) of
          (Some h, Some rv) \<Rightarrow>
            if moved then
              tryc (Store_SetDeviceAddressStatus S tenantName (dv_Name d) StatusProvisioning) (\<lambda>e. ret (d, Some e)) (\<lambda>_.
              do { p \<leftarrow> pushAddress S rv (h\<lparr>da_MAC := dv_MAC d\<rparr>) False; ret (d, snd p) })
            else ret (d, None)
        | _ \<Rightarrow> ret (d, None))
     }))))"

definition CreateDevice :: "service \<Rightarrow> ctx \<Rightarrow> string \<Rightarrow> DeviceRequest \<Rightarrow> (Device \<times> err option) io" where
  "CreateDevice S c tenantName req =
     tryc (Store_Get S tenantName) (\<lambda>e. ret (no_device, Some e)) (\<lambda>rec.
     if rec_Status rec \<noteq> StatusReady then ret (no_device, Some (invalid (ForTenant (RTenantIs tenantName (rec_Status rec)))))
     else if \<not> ValidWorkloadName (dq_Name req) then ret (no_device, Some (invalid (ForDevice RDeviceName)))
     else if site_TrustClass (sv_Site S) (dq_TrustClass req) = None
       then ret (no_device, Some (invalid (ForTenant (RClassNotServed (dq_TrustClass req) (TrustClassNames (sv_Site S))))))
     else (case (if dq_MAC req = [] then Some [] else NormalizeMAC (dq_MAC req)) of
         None \<Rightarrow> ret (no_device, Some (invalid (ForTenant (RMAC (dq_MAC req)))))
       | Some mac \<Rightarrow>
     tryc (getOrNone (Store_GetDevice S tenantName (dq_Name req))) (\<lambda>e. ret (no_device, Some e)) (\<lambda>found.
     (case found of None \<Rightarrow> put_device S c tenantName req mac no_device
      | Some existing \<Rightarrow>
          if dv_TrustClass existing \<noteq> dq_TrustClass req
          then ret (no_device, Some (invalid (ForDevice (RDeviceClass (dq_Name req) (dv_TrustClass existing)))))
          else put_device S c tenantName req mac existing))))"

definition GetDevice :: "service \<Rightarrow> string \<Rightarrow> string \<Rightarrow> (err + Device) io" where
  "GetDevice S tenantName name = Store_GetDevice S tenantName name"

definition ListDevices :: "service \<Rightarrow> string \<Rightarrow> (err + Device list) io" where
  "ListDevices S tenantName = Store_ListDevices S tenantName"

definition DeleteDevice :: "service \<Rightarrow> ctx \<Rightarrow> string \<Rightarrow> string \<Rightarrow> (err + unit) io" where
  "DeleteDevice S c tenantName name =
     orerr (Store_GetDevice S tenantName name) (\<lambda>d.
     orerr (getOrNone (Store_GetDeviceAddress S tenantName name)) (\<lambda>found.
     (case found of Some a \<Rightarrow> ret (Inl (invalid (ForDevice (RRemoveAddress name (da_Address a)))))
      | None \<Rightarrow>
     do {
       audit S c (ActDeviceDelete name (dv_TrustClass d)) tenantName;
       Store_DeleteDevice S tenantName name
     })))"

section \<open>Steps kept\<close>

lemma requested_address_ok:
  "requested_address r requested = Inr req \<Longrightarrow> req = [] \<or> (\<exists>x. range_Contains r x \<and> req = AddrString x)"
  by (auto simp: requested_address_def split: if_splits option.splits)

lemma keeps_address_parts [store_keeps]:
  assumes "others_ok S"
  shows "run.keeps (sv_Site S) (pushAddress S rv a fresh)" "run.keeps (sv_Site S) (nameIsFree S tn name)"
    "run.keeps (sv_Site S) (deviceHoldsName S tn name)" "run.keeps (sv_Site S) (removeReservation S a)"
    "run.keeps (sv_Site S) (ensureAddresses S rv rec)" "run.keeps (sv_Site S) (holdsAddress S tn address)"
    "run.keeps (sv_Site S) (check_moved S tn name mac held)"
  unfolding pushAddress_def nameIsFree_def deviceHoldsName_def removeReservation_def ensureAddresses_def
    ensure_address_def holdsAddress_def check_moved_def
  by (intro keeps_intros keeps_reads keeps_writes keeps_getOrNone assms)+

lemma keeps_CreateDeviceAddress [store_keeps]:
  assumes "others_ok S"
  shows "run.keeps (sv_Site S) (CreateDeviceAddress S c tn dev requested)"
proof -
  have create: "run.keeps (sv_Site S) (Store_CreateDeviceAddress S
      \<lparr>da_Tenant = tn, da_Device = dev, da_TrustClass = cls, da_Address = ad, da_MAC = mac, da_Status = st\<rparr>
      (\<lambda>held. pickAddress r (AddressQuota (sv_Site S)) tn mac req held))"
    if "map_of (site_AddressRanges (sv_Site S)) cls = Some r" "requested_address r requested = Inr req" for r req cls ad mac st
    using keeps_Store_CreateDeviceAddress[OF assms, of
        "\<lparr>da_Tenant = tn, da_Device = dev, da_TrustClass = cls, da_Address = ad, da_MAC = mac, da_Status = st\<rparr>"]
      that requested_address_ok by simp
  show ?thesis
    unfolding CreateDeviceAddress_def
    by (intro keeps_intros keeps_reads keeps_service keeps_address_parts keeps_getOrNone assms create; assumption)
qed

lemma keeps_devices [store_keeps]:
  assumes "others_ok S"
  shows "run.keeps (sv_Site S) (GetDeviceAddress S tn dev)" "run.keeps (sv_Site S) (DeleteDeviceAddress S c tn dev)"
    "run.keeps (sv_Site S) (CreateDevice S c tn req)" "run.keeps (sv_Site S) (GetDevice S tn dev)"
    "run.keeps (sv_Site S) (ListDevices S tn)" "run.keeps (sv_Site S) (DeleteDevice S c tn dev)"
  unfolding GetDeviceAddress_def DeleteDeviceAddress_def CreateDevice_def put_device_def GetDevice_def ListDevices_def
    DeleteDevice_def
  by (intro keeps_intros keeps_reads keeps_writes keeps_service keeps_address_parts keeps_getOrNone assms)+

section \<open>Properties of the component\<close>

text \<open>What a run of \<^verbatim>\<open>CreateDeviceAddress\<close> sends, against the rows the registry holds as it does.\<close>

definition address_event_ok :: "service \<Rightarrow> string \<Rightarrow> string \<Rightarrow> event \<Rightarrow> bool" where
  "address_event_ok S tn dev ev =
     (\<exists>row d. row \<in> set (tbl_addresses (ev_reg ev)) \<and> ad_key row = (tn, dev) \<and>
        get_row dv_key (tn, dev) (tbl_devices (ev_reg ev)) = Some d \<and>
        (case ev_call ev of
           CEnsureReservation rv \<Rightarrow> rv_Address rv = ad_address row \<and> rv_MAC rv = dv_MAC d \<and>
             rv_Subnet rv = class_subnet S (ad_class row) \<and> rv_Description rv = reservationDescription tn dev
         | CEnsureRecords zone rzone recs \<Rightarrow> zone = Zone (sv_Site S) tn \<and>
             recs = [\<lparr>dr_Name = dev, dr_Address = ad_address row, dr_Reverse = False\<rparr>]
         | _ \<Rightarrow> False))"

definition address_of_row :: "registry \<Rightarrow> string \<Rightarrow> string \<Rightarrow> DeviceAddress \<Rightarrow> bool" where
  "address_of_row r tn dev a =
     (\<exists>row d. row \<in> set (tbl_addresses r) \<and> ad_key row = (tn, dev) \<and> get_row dv_key (tn, dev) (tbl_devices r) = Some d \<and>
        a = \<lparr>da_Tenant = tn, da_Device = dev, da_TrustClass = ad_class row, da_Address = ad_address row,
             da_MAC = dv_MAC d, da_Status = ad_status row\<rparr>)"

lemma select_address_row:
  assumes "select_addresses r (\<lambda>x. ad_key x = (tn, dev)) = a # as"
  shows "address_of_row r tn dev a"
proof -
  have "a \<in> set (select_addresses r (\<lambda>x. ad_key x = (tn, dev)))" using assms by simp
  then show ?thesis
    by (auto simp: address_of_row_def select_addresses_def address_join_def ad_key_def split: option.splits) metis
qed

lemma wp_Store_GetDeviceAddress:
  assumes "alone S" "\<And>e w'. same w w' \<Longrightarrow> Q (Inl e) w'"
    and "\<And>a w'. same w w' \<Longrightarrow> address_of_row (reg w) tn dev a \<Longrightarrow> Q (Inr a) w'"
  shows "wp (Store_GetDeviceAddress S tn dev) Q w"
  unfolding Store_GetDeviceAddress_def tx_address_def
  by (rule wp_get[OF assms(1)]) (auto split: list.splits intro!: assms(2,3) select_address_row)

lemma create_address_devices:
  "tx_create_address a pick r = Inr (u, r') \<Longrightarrow> tbl_devices r' = tbl_devices r"
  by (auto simp: tx_create_address_def set_address_status_def split: if_splits sum.splits)

lemma wp_Store_CreateDeviceAddress:
  assumes "alone S" "\<And>e w'. trace w' = trace w \<Longrightarrow> Q (Inl e) w'"
    and "\<And>x w'. trace w' = trace w \<Longrightarrow> tbl_devices (reg w') = tbl_devices (reg w) \<Longrightarrow>
      address_of_row (reg w') (da_Tenant a) (da_Device a) x \<Longrightarrow> Q (Inr x) w'"
  shows "wp (Store_CreateDeviceAddress S a pick) Q w"
  unfolding Store_CreateDeviceAddress_def wp_orerr
  by (rule wp_write[OF assms(1)])
    (auto simp: same_def dest: create_address_devices intro!: assms(2,3) wp_Store_GetDeviceAddress[OF assms(1)])

lemma wp_nameIsFree: "alone S \<Longrightarrow> wp (nameIsFree S tn name) (\<lambda>r w'. same w w') w"
  unfolding nameIsFree_def Store_GetWorkload_def tx_workload_def Store_ListRecords_def tx_records_def
  by (auto simp: wp_simps same_def intro!: wp_get wp_read)

lemma wp_pushAddress:
  assumes "alone S" "trace v = trace w" "address_of_row (reg v) tn dev a"
  shows "wp (pushAddress S rv a fresh) (\<lambda>_ w'. list_all (address_event_ok S tn dev) (sent w w') \<and>
    list_all succeeded (butlast (sent w w'))) v"
proof -
  obtain row d where row: "row \<in> set (tbl_addresses (reg v))" "ad_key row = (tn, dev)"
      "get_row dv_key (tn, dev) (tbl_devices (reg v)) = Some d"
    and a: "a = \<lparr>da_Tenant = tn, da_Device = dev, da_TrustClass = ad_class row, da_Address = ad_address row,
             da_MAC = dv_MAC d, da_Status = ad_status row\<rparr>"
    using assms(3) by (auto simp: address_of_row_def)
  have status: "wp (Store_SetDeviceAddressStatus S t n st) (\<lambda>r w'. trace w' = trace u) u"
    "wp (Store_DeleteDeviceAddress S t n) (\<lambda>r w'. trace w' = trace u) u" for u t n st
    unfolding Store_SetDeviceAddressStatus_def Store_DeleteDeviceAddress_def
    using assms(1) by (intro wp_write; auto simp: same_def)+
  have ev: "address_event_ok S tn dev \<lparr>ev_call = CEnsureReservation (reservation S a), ev_err = e, ev_reg = reg v\<rparr>"
    "address_event_ok S tn dev \<lparr>ev_call = CEnsureRecords (Zone (sv_Site S) tn) rz [device_record a], ev_err = e, ev_reg = reg v\<rparr>" for e rz
    using row unfolding a address_event_ok_def reservation_def device_record_def by (auto intro!: exI[of _ row])
  have names: "da_Tenant a = tn" "da_Device a = dev" by (simp_all add: a)
  show ?thesis
    unfolding pushAddress_def
    by (auto simp: wp_simps same_def succeeded_def assms(2) ev names split: sum.split simp del: wp_invoke
        intro!: wp_call wp_Store_Get[OF assms(1)] wp_mono[OF status(1)] wp_mono[OF status(2)])
qed

text \<open>A DHCP reservation is only ever made for an address the registry holds: at each call
  \<^verbatim>\<open>CreateDeviceAddress\<close> makes, the row is there, the reservation carries that row's address and class and
  the MAC of the registered device, and the name published is the device's own at that address. The DNS
  server is told only after the DHCP server has succeeded.\<close>

lemma reservation_from_registry:
  assumes "alone S"
  shows "wp (CreateDeviceAddress S c tn dev requested)
    (\<lambda>_ w'. list_all (address_event_ok S tn dev) (sent w w') \<and> list_all succeeded (butlast (sent w w'))) w"
proof (cases "sv_Reservations S")
  case (Some rv)
  have keep: "address_of_row (r\<lparr>tbl_audit := au\<rparr>) tn dev (x\<lparr>da_MAC := dv_MAC d\<rparr>)"
    if "address_of_row r tn dev x" "get_row dv_key (tn, dev) (tbl_devices r) = Some d" for r x d au
    using that by (auto simp: address_of_row_def)
  show ?thesis
    unfolding CreateDeviceAddress_def Some option.case Store_GetDevice_def tx_device_def
    by (auto simp: wp_simps same_def keep split: sum.split option.split
        intro!: wp_Store_Get[OF assms] wp_get[OF assms] wp_Store_GetDeviceAddress[OF assms]
          wp_mono[OF wp_nameIsFree[OF assms]] wp_Store_CreateDeviceAddress[OF assms] wp_audit[OF assms]
          wp_pushAddress[OF assms])
qed (simp add: CreateDeviceAddress_def wp_simps)

definition device_world :: world where
  "device_world = sample_world\<lparr>reg := (reg sample_world)\<lparr>
     tbl_devices := [\<lparr>dv_Tenant = ''eds'', dv_Name = ''lamp'', dv_TrustClass = ''iot'', dv_MAC = ''02:00:00:00:00:01'', dv_Status = StatusReady\<rparr>],
     tbl_addresses := [\<lparr>ad_tenant = ''eds'', ad_device = ''lamp'', ad_class = ''iot'', ad_address = ''10.20.30.10'', ad_status = StatusProvisioning\<rparr>]\<rparr>\<rparr>"

end
