(* ===== verification/Workloads.thy ===== *)
theory Workloads
  imports Addresses
begin

text \<open>
  The workload and record operations of \<^verbatim>\<open>service.go\<close> (lines 485 to 715): a tenant's VMs, the name each
  publishes, and the names a tenant publishes beside them.
\<close>

section \<open>Workloads\<close>

record WorkloadRequest =
  wq_Name :: string
  wq_Cores :: int
  wq_MemoryMB :: int
  wq_DiskGB :: int
  wq_SSHKeys :: "string list"

definition no_workload :: Workload where
  "no_workload = \<lparr>wl_Tenant = [], wl_Name = [], wl_Ordinal = 0, wl_VMID = 0, wl_MAC = [], wl_Address = [],
     wl_Cores = 0, wl_MemoryMB = 0, wl_DiskGB = 0, wl_SSHKeys = [], wl_Status = StatusProvisioning\<rparr>"

definition orDefaultInt :: "int \<Rightarrow> int \<Rightarrow> int" where
  "orDefaultInt v d = (if v \<le> 0 then d else v)"

definition workloadSpec :: "service \<Rightarrow> Record \<Rightarrow> Workload \<Rightarrow> WorkloadSpec" where
  "workloadSpec S rec w =
     (let site = sv_Site S; net = Network site (rec_Name rec) (rec_Index rec); n = Numbering_of site (rec_Index rec) in
      \<lparr>sp_Name = rec_Name rec @ ''-'' @ wl_Name w, sp_Node = site_Node site, sp_VMID = wl_VMID w, sp_MAC = wl_MAC w,
       sp_Bridge = vn_ID (nw_VNets net ! 0), sp_Address = wl_Address w @ ''/24'', sp_Gateway = num_Gateway n,
       sp_Nameserver = site_WorkloadResolver site, sp_Cores = wl_Cores w, sp_MemoryMB = wl_MemoryMB w,
       sp_DiskGB = wl_DiskGB w, sp_Disk = site_Disk site, sp_Storage = site_Storage site,
       sp_CIUser = site_CIUser site, sp_SSHKeys = wl_SSHKeys w, sp_Tags = [''tenant'', rec_Name rec],
       sp_TemplatePrefix = site_TemplatePrefix site\<rparr>)"

definition workload_record :: "Workload \<Rightarrow> DNSRecord" where
  "workload_record w = \<lparr>dr_Name = wl_Name w, dr_Address = wl_Address w, dr_Reverse = True\<rparr>"

definition new_workload :: "string \<Rightarrow> WorkloadRequest \<Rightarrow> Workload" where
  "new_workload tenantName req = \<lparr>wl_Tenant = tenantName, wl_Name = wq_Name req, wl_Ordinal = 0, wl_VMID = 0,
     wl_MAC = [], wl_Address = [], wl_Cores = orDefaultInt (wq_Cores req) 2,
     wl_MemoryMB = orDefaultInt (wq_MemoryMB req) 2048, wl_DiskGB = wq_DiskGB req, wl_SSHKeys = wq_SSHKeys req,
     wl_Status = StatusProvisioning\<rparr>"

definition resized :: "Workload \<Rightarrow> WorkloadRequest \<Rightarrow> Workload" where
  "resized w req = w\<lparr>wl_Cores := orDefaultInt (wq_Cores req) (wl_Cores w),
     wl_MemoryMB := orDefaultInt (wq_MemoryMB req) (wl_MemoryMB w),
     wl_DiskGB := (if wq_DiskGB req > 0 then wq_DiskGB req else wl_DiskGB w),
     wl_SSHKeys := (if length (wq_SSHKeys req) > 0 then wq_SSHKeys req else wl_SSHKeys w)\<rparr>"

text \<open>The \<^verbatim>\<open>switch\<close> of \<^verbatim>\<open>CreateWorkload\<close>: the workload to build, allocated or resized in the registry.\<close>

definition place_workload :: "service \<Rightarrow> ctx \<Rightarrow> string \<Rightarrow> WorkloadRequest \<Rightarrow> (err + Workload) io" where
  "place_workload S c tenantName req =
     orerr (getOrNone (Store_GetWorkload S tenantName (wq_Name req))) (\<lambda>found.
     (case found of
        None \<Rightarrow>
          orerr (deviceHoldsName S tenantName (wq_Name req)) (\<lambda>_.
          orerr (Store_CreateWorkload S (new_workload tenantName req)) (\<lambda>w.
          do {
            audit S c (ActWorkloadCreate (wl_Name w) (wl_Ordinal w) (wl_VMID w)) tenantName;
            ret (Inr w)
          }))
      | Some w \<Rightarrow> orerr (Store_CreateWorkload S (resized w req)) (\<lambda>_. ret (Inr (resized w req)))))"

definition CreateWorkload :: "service \<Rightarrow> ctx \<Rightarrow> string \<Rightarrow> WorkloadRequest \<Rightarrow> (Workload \<times> err option) io" where
  "CreateWorkload S c tenantName req =
     (case sv_Compute S of None \<Rightarrow> ret (no_workload, Some (invalid (ForWorkload RNoCompute)))
      | Some compute \<Rightarrow>
     tryc (Store_Get S tenantName) (\<lambda>e. ret (no_workload, Some e)) (\<lambda>rec.
     if rec_Status rec \<noteq> StatusReady then ret (no_workload, Some (invalid (ForTenant (RTenantIs tenantName (rec_Status rec)))))
     else if \<not> ValidWorkloadName (wq_Name req) then ret (no_workload, Some (invalid (ForWorkload RWorkloadName)))
     else if wq_Cores req < 0 \<or> wq_MemoryMB req < 0 \<or> wq_DiskGB req < 0
       then ret (no_workload, Some (invalid (ForWorkload RNegativeSizes)))
     else
     tryc (place_workload S c tenantName req) (\<lambda>e. ret (no_workload, Some e)) (\<lambda>w.
     tryc (invoke compute (CEnsureWorkload (workloadSpec S rec w)))
       (\<lambda>e. ret (w, Some (StepError StepWorkload e))) (\<lambda>_.
     tryc (invoke (sv_DNS S) (CEnsureRecords (Zone (sv_Site S) tenantName) (reverse_zone S rec) [workload_record w]))
       (\<lambda>e. ret (w, Some (StepError StepDNS e))) (\<lambda>_.
     tryc (Store_SetWorkloadStatus S tenantName (wl_Name w) StatusReady) (\<lambda>e. ret (w, Some e)) (\<lambda>_.
     ret (w\<lparr>wl_Status := StatusReady\<rparr>, None)))))))"

definition GetWorkload :: "service \<Rightarrow> string \<Rightarrow> string \<Rightarrow> (err + Workload) io" where
  "GetWorkload S tenantName name = Store_GetWorkload S tenantName name"

definition ListWorkloads :: "service \<Rightarrow> string \<Rightarrow> (err + Workload list) io" where
  "ListWorkloads S tenantName =
     orerr (Store_ListWorkloads S tenantName) (\<lambda>ws. ret (Inr (sort_key wl_Ordinal ws)))"

definition DeleteWorkload :: "service \<Rightarrow> ctx \<Rightarrow> string \<Rightarrow> string \<Rightarrow> (err + unit) io" where
  "DeleteWorkload S c tenantName name =
     orerr (Store_Get S tenantName) (\<lambda>rec.
     orerr (Store_GetWorkload S tenantName name) (\<lambda>w.
     tryc (case sv_Compute S of None \<Rightarrow> ret (Inr ())
           | Some compute \<Rightarrow> invoke compute (CRemoveWorkload (site_Node (sv_Site S)) (wl_VMID w)))
       (\<lambda>e. ret (Inl (StepError StepWorkload e))) (\<lambda>_.
     tryc (invoke (sv_DNS S) (CRemoveRecords (Zone (sv_Site S) tenantName) (reverse_zone S rec) [workload_record w]))
       (\<lambda>e. ret (Inl (StepError StepDNS e))) (\<lambda>_.
     do {
       audit S c (ActWorkloadDelete name (wl_VMID w)) tenantName;
       Store_DeleteWorkload S tenantName name
     }))))"

section \<open>Records\<close>

definition inTenantSubnet :: "service \<Rightarrow> Record \<Rightarrow> string \<Rightarrow> bool" where
  "inTenantSubnet S rec address =
     (HasPrefix address (''10.'' @ itoa (site_Octet (sv_Site S)) @ ''.'' @ itoa (128 + rec_Index rec) @ ''.'') \<and>
      ParseIP_ok address)"

definition extra_record :: "string \<Rightarrow> string \<Rightarrow> DNSRecord" where
  "extra_record name address = \<lparr>dr_Name = name, dr_Address = address, dr_Reverse = False\<rparr>"

definition PutRecord :: "service \<Rightarrow> ctx \<Rightarrow> string \<Rightarrow> string \<Rightarrow> string \<Rightarrow> (err + unit) io" where
  "PutRecord S c tenantName name address =
     orerr (Store_Get S tenantName) (\<lambda>rec.
     if \<not> ValidWorkloadName name then ret (Inl (invalid (ForWorkload RRecordName)))
     else orerr (deviceHoldsName S tenantName name) (\<lambda>_.
     orerr (if inTenantSubnet S rec address then ret (Inr True) else holdsAddress S tenantName address) (\<lambda>held.
     if \<not> held then ret (Inl (invalid (ForWorkload (ROutsideSubnet address (num_Subnet (Numbering_of (sv_Site S) (rec_Index rec)))))))
     else tryc (invoke (sv_DNS S) (CEnsureRecords (Zone (sv_Site S) tenantName) (reverse_zone S rec) [extra_record name address]))
       (\<lambda>e. ret (Inl (StepError StepDNS e))) (\<lambda>_.
     orerr (Store_PutRecord S \<lparr>er_Tenant = tenantName, er_Name = name, er_Address = address\<rparr>) (\<lambda>_.
     do {
       audit S c (ActRecordPut name address) tenantName;
       ret (Inr ())
     })))))"

definition ListRecords :: "service \<Rightarrow> string \<Rightarrow> (err + ExtraRecord list) io" where
  "ListRecords S tenantName = Store_ListRecords S tenantName"

definition DeleteRecord :: "service \<Rightarrow> ctx \<Rightarrow> string \<Rightarrow> string \<Rightarrow> (err + unit) io" where
  "DeleteRecord S c tenantName name =
     orerr (Store_Get S tenantName) (\<lambda>rec.
     orerr (Store_ListRecords S tenantName) (\<lambda>recs.
     (case find (\<lambda>r. er_Name r = name) recs of
        None \<Rightarrow> ret (Inl ErrNotFound)
      | Some r \<Rightarrow>
     tryc (invoke (sv_DNS S) (CRemoveRecords (Zone (sv_Site S) tenantName) (reverse_zone S rec)
         [extra_record (er_Name r) (er_Address r)]))
       (\<lambda>e. ret (Inl (StepError StepDNS e))) (\<lambda>_.
     orerr (Store_DeleteRecord S tenantName name) (\<lambda>_.
     do {
       audit S c (ActRecordDelete name) tenantName;
       ret (Inr ())
     })))))"

section \<open>Steps kept\<close>

lemma keeps_place_workload: "others_ok S \<Longrightarrow> run.keeps (sv_Site S) (place_workload S c tn req)"
  unfolding place_workload_def
  by (intro keeps_intros keeps_reads keeps_writes keeps_service keeps_address_parts keeps_getOrNone; assumption)

lemma keeps_workloads [store_keeps]:
  assumes "others_ok S"
  shows "run.keeps (sv_Site S) (CreateWorkload S c tn req)" "run.keeps (sv_Site S) (GetWorkload S tn name)"
    "run.keeps (sv_Site S) (ListWorkloads S tn)" "run.keeps (sv_Site S) (DeleteWorkload S c tn name)"
    "run.keeps (sv_Site S) (PutRecord S c tn name address)" "run.keeps (sv_Site S) (ListRecords S tn)"
    "run.keeps (sv_Site S) (DeleteRecord S c tn name)"
  unfolding CreateWorkload_def GetWorkload_def ListWorkloads_def DeleteWorkload_def PutRecord_def ListRecords_def
    DeleteRecord_def
  by (intro keeps_intros keeps_reads keeps_writes keeps_service keeps_address_parts keeps_place_workload assms)+

section \<open>Properties of the component\<close>

text \<open>What a run of \<^verbatim>\<open>CreateWorkload\<close> sends, against the row the registry holds as it does.\<close>

definition workload_event_ok :: "service \<Rightarrow> string \<Rightarrow> string \<Rightarrow> event \<Rightarrow> bool" where
  "workload_event_ok S tn name ev =
     (\<exists>row. get_row wl_key (tn, name) (tbl_workloads (ev_reg ev)) = Some row \<and>
        (case ev_call ev of
           CEnsureWorkload spec \<Rightarrow> sp_VMID spec = wl_VMID row \<and> sp_MAC spec = wl_MAC row \<and> sp_Address spec = wl_Address row @ ''/24''
         | CEnsureRecords zone rzone recs \<Rightarrow> zone = Zone (sv_Site S) tn \<and>
             recs = [\<lparr>dr_Name = name, dr_Address = wl_Address row, dr_Reverse = True\<rparr>]
         | _ \<Rightarrow> False))"

definition same_identity :: "Workload \<Rightarrow> Workload \<Rightarrow> bool" where
  "same_identity a b = (wl_Tenant a = wl_Tenant b \<and> wl_Name a = wl_Name b \<and> wl_Ordinal a = wl_Ordinal b \<and>
     wl_VMID a = wl_VMID b \<and> wl_MAC a = wl_MAC b \<and> wl_Address a = wl_Address b)"

lemma get_row_update:
  "(\<And>x. key (f x) = key x) \<Longrightarrow> get_row key k (update_row key k f rows) = map_option f (get_row key k rows)"
  by (induction rows) (auto simp: get_row_def update_row_def)

lemma create_workload_row:
  assumes "tx_create_workload site w r = Inr (out, r')"
  shows "\<exists>row. get_row wl_key (wl_key w) (tbl_workloads r') = Some row \<and> same_identity row out \<and>
    (\<forall>old. get_row wl_key (wl_key w) (tbl_workloads r) = Some old \<longrightarrow> same_identity old row) \<and> wl_Name out = wl_Name w"
proof (cases "get_row wl_key (wl_key w) (tbl_workloads r)")
  case None
  with assms have "r' = r\<lparr>tbl_workloads := tbl_workloads r @ [out]\<rparr>" "wl_key out = wl_key w"
    by (auto simp: tx_create_workload_def Let_def wl_key_def split: option.splits if_splits)
  with None show ?thesis
    by (intro exI[of _ out]) (simp add: get_row_append get_row_single same_identity_def wl_key_def)
next
  case (Some old)
  with assms have out: "out = wl_resize old w"
    "r' = r\<lparr>tbl_workloads := update_row wl_key (wl_key w) (\<lambda>x. wl_resize x w) (tbl_workloads r)\<rparr>"
    by (auto simp: tx_create_workload_def split: if_splits)
  have "wl_key (wl_resize x w) = wl_key x" for x by (simp add: wl_resize_def wl_key_def)
  then have "get_row wl_key (wl_key w) (tbl_workloads r') = Some (wl_resize old w)"
    unfolding out by (simp add: get_row_update Some)
  then show ?thesis
    using Some get_row_Some[OF Some]
    by (intro exI[of _ "wl_resize old w"]) (simp add: out(1) same_identity_def wl_resize_def wl_key_def)
qed

lemma wp_deviceHoldsName:
  "alone S \<Longrightarrow> wp (deviceHoldsName S tn name) (\<lambda>r w'. same w w') w"
  unfolding deviceHoldsName_def Store_GetDeviceAddress_def tx_address_def
  by (auto simp: wp_simps intro!: wp_get)

lemma resized_same [simp]:
  "same_identity row (resized old req) = same_identity row old" "wl_key (resized old req) = wl_key old"
  "wl_Name (resized old req) = wl_Name old"
  by (simp_all add: resized_def same_identity_def wl_key_def)

lemma same_identity_sym: "same_identity a b \<Longrightarrow> same_identity b a"
  by (simp add: same_identity_def)

lemma wp_place_workload:
  assumes "alone S"
  shows "wp (place_workload S c tn req) (\<lambda>r w'. trace w' = trace w \<and>
    (\<forall>x. r = Inr x \<longrightarrow> wl_Name x = wq_Name req \<and>
       (\<exists>row. get_row wl_key (tn, wq_Name req) (tbl_workloads (reg w')) = Some row \<and> same_identity row x))) w"
proof -
  have fresh: "\<exists>row. get_row wl_key (tn, wq_Name req) (tbl_workloads r') = Some row \<and> same_identity row x"
    "wl_Name x = wq_Name req"
    if "tx_create_workload (sv_Site S) (new_workload tn req) r = Inr (x, r')" for x r r'
    using create_workload_row[OF that] by (auto simp: new_workload_def wl_key_def)
  have again: "\<exists>row. get_row wl_key (tn, wq_Name req) (tbl_workloads r') = Some row \<and> same_identity row (resized old req)"
    "wl_Name old = wq_Name req"
    if "tx_create_workload (sv_Site S) (resized old req) r = Inr (x, r')"
      "get_row wl_key (tn, wq_Name req) (tbl_workloads r) = Some old" for x r r' old
  proof -
    from get_row_Some[OF that(2)] have key: "wl_key old = (tn, wq_Name req)" by simp
    then show "wl_Name old = wq_Name req" by (simp add: wl_key_def)
    show "\<exists>row. get_row wl_key (tn, wq_Name req) (tbl_workloads r') = Some row \<and> same_identity row (resized old req)"
      using create_workload_row[OF that(1)] that(2) key same_identity_sym by auto
  qed
  show ?thesis
    unfolding place_workload_def Store_GetWorkload_def tx_workload_def Store_CreateWorkload_def
    by (auto simp: wp_simps same_def split: sum.split
        intro!: wp_get[OF assms] wp_mono[OF wp_deviceHoldsName[OF assms]] wp_write[OF assms] wp_audit[OF assms])
      (blast intro: fresh again[simplified])+
qed

text \<open>A VM is built from the registry's identity: at each call \<^verbatim>\<open>CreateWorkload\<close> makes, the workload's row
  is in the registry, the VM gets that row's VMID, MAC and address, and the name published is the
  workload's, at that address, in the tenant's own zone. The DNS server is told only after the
  hypervisor has succeeded.\<close>

lemma workload_built_from_registry:
  assumes "alone S"
  shows "wp (CreateWorkload S c tn req)
    (\<lambda>_ w'. list_all (workload_event_ok S tn (wq_Name req)) (sent w w') \<and> list_all succeeded (butlast (sent w w'))) w"
proof (cases "sv_Compute S")
  case (Some compute)
  have status: "wp (Store_SetWorkloadStatus S tn n st) (\<lambda>r w'. trace w' = trace u) u" for u n st
    unfolding Store_SetWorkloadStatus_def using assms by (intro wp_write) (auto simp: same_def)
  show ?thesis
    unfolding CreateWorkload_def Some option.case
    by (auto simp: wp_simps same_def workload_event_ok_def workloadSpec_def workload_record_def succeeded_def
          same_identity_def Let_def split: sum.split
        intro!: wp_Store_Get[OF assms] wp_mono[OF wp_place_workload[OF assms]] wp_call wp_mono[OF status])
qed (simp add: CreateWorkload_def wp_simps)

definition web_workload :: WorkloadRequest where
  "web_workload = \<lparr>wq_Name = ''web'', wq_Cores = 0, wq_MemoryMB = 0, wq_DiskGB = 20, wq_SSHKeys = []\<rparr>"

text \<open>A tenant publishes only its own addresses: \<^verbatim>\<open>PutRecord\<close> calls the DNS server for the tenant's own
  zone alone, and only with an address that parses and starts with the tenant's subnet, or one that the
  registry holds as fixed for a device of this tenant.\<close>

lemma records_point_inside:
  assumes "alone S"
  shows "wp (PutRecord S c tn name address)
    (\<lambda>_ w'. list_all (\<lambda>ev. \<exists>t rzone. get_row tn_name tn (tbl_tenants (reg w)) = Some t \<and>
        ev_call ev = CEnsureRecords (Zone (sv_Site S) tn) rzone [extra_record name address] \<and>
        (HasPrefix address (''10.'' @ itoa (site_Octet (sv_Site S)) @ ''.'' @ itoa (128 + tn_idx t) @ ''.'') \<and> ParseIP_ok address \<or>
         (\<exists>a. a \<in> set (tbl_addresses (reg w)) \<and> ad_tenant a = tn \<and> ad_address a = address))) (sent w w')) w"
proof -
  have put: "wp (Store_PutRecord S x) (\<lambda>r w'. trace w' = trace u) u" for u x
    unfolding Store_PutRecord_def using assms by (intro wp_write) (auto simp: same_def)
  have held: "\<exists>a. a \<in> set (tbl_addresses r) \<and> ad_tenant a = tn \<and> ad_address a = address"
    if "list_ex (\<lambda>a. da_Address a = address) (select_addresses r (\<lambda>a. ad_tenant a = tn))" for r
    using that by (auto simp: list_ex_iff select_addresses_def address_join_def split: option.splits)
  have holds: "wp (holdsAddress S tn address) (\<lambda>r w'. same u w' \<and> (r = Inr True \<longrightarrow>
      (\<exists>a. a \<in> set (tbl_addresses (reg u)) \<and> ad_tenant a = tn \<and> ad_address a = address))) u" for u
    unfolding holdsAddress_def Store_ListDeviceAddresses_def tx_tenant_addresses_def wp_orerr wp_return
    by (rule wp_read[OF assms]) (auto intro: held)
  show ?thesis
    unfolding PutRecord_def
    by (auto simp: wp_simps same_def inTenantSubnet_def record_of_def split: sum.split simp del: wp_invoke
        intro!: wp_Store_Get[OF assms] wp_mono[OF wp_deviceHoldsName[OF assms]] wp_mono[OF holds] wp_call
          wp_mono[OF put] wp_audit[OF assms]) blast+
qed

end
