(* ===== verification/BrokerAccounts.thy ===== *)
theory BrokerAccounts
  imports Addresses
begin

text \<open>
  \<^verbatim>\<open>brokeraccounts.go\<close>, and the requests \<^verbatim>\<open>internal/backend/brokerwriter\<close> makes of an account. bcrypt is
  a parameter: it answers with a hash or an error.
\<close>

section \<open>Accounts\<close>

record BrokerAccountRequest =
  bq_Name :: string
  bq_Device :: string
  bq_Publish :: "string list"
  bq_Subscribe :: "string list"
  bq_Password :: string

record IssuedBrokerAccount =
  ib_Account :: BrokerAccount
  ib_Password :: string
  ib_Username :: string

definition no_account :: BrokerAccount where
  "no_account = \<lparr>ba_Tenant = [], ba_Name = [], ba_Device = [], ba_Publish = [], ba_Subscribe = [],
     ba_PasswordHash = [], ba_Status = StatusProvisioning\<rparr>"

definition no_issued_account :: IssuedBrokerAccount where
  "no_issued_account = \<lparr>ib_Account = no_account, ib_Password = [], ib_Username = []\<rparr>"

definition checkBrokerDevice :: "service \<Rightarrow> string \<Rightarrow> string \<Rightarrow> (err + unit) io" where
  "checkBrokerDevice S tenantName device =
     (if device = [] then ret (Inr ())
      else orerr (getOrNone (Store_GetDevice S tenantName device)) (\<lambda>found.
        (case found of
           None \<Rightarrow> ret (Inl (invalid (ForBroker (RBrokerDevice device))))
         | Some d \<Rightarrow>
             if dv_TrustClass d \<noteq> ''iot''
             then ret (Inl (invalid (ForBroker (RBrokerClass device (dv_TrustClass d)))))
             else ret (Inr ()))))"

definition bcrypt_hash :: "service \<Rightarrow> string \<Rightarrow> (err + string) io" where
  "bcrypt_hash S pw = tick (\<lambda>t. sv_bcrypt S t pw)"

text \<open>The hash, and the plaintext when this call has one.\<close>

definition chooseBrokerSecret :: "service \<Rightarrow> string \<Rightarrow> BrokerAccount \<Rightarrow> (err + string \<times> string) io" where
  "chooseBrokerSecret S supplied existing =
     (if supplied \<noteq> [] then orerr (bcrypt_hash S supplied) (\<lambda>h. ret (Inr (h, supplied)))
      else if ba_PasswordHash existing \<noteq> [] then ret (Inr (ba_PasswordHash existing, []))
      else orerr (randomPSK S) (\<lambda>pw. orerr (bcrypt_hash S pw) (\<lambda>h. ret (Inr (h, pw)))))"

text \<open>The patterns, prefixed and checked, before anything is written.\<close>

definition account_patterns :: "string \<Rightarrow> BrokerAccountRequest \<Rightarrow> err + string list \<times> string list" where
  "account_patterns tenantName req =
     (case PrefixPatterns tenantName DPublish (bq_Publish req) of Inl e \<Rightarrow> Inl (invalid (ForBroker (RContract e)))
      | Inr pub \<Rightarrow>
     (case PrefixPatterns tenantName DSubscribe (bq_Subscribe req) of Inl e \<Rightarrow> Inl (invalid (ForBroker (RContract e)))
      | Inr sub \<Rightarrow>
     (case CheckGrant pub sub of Some e \<Rightarrow> Inl (invalid (ForBroker (RContract e)))
      | None \<Rightarrow>
     (case CheckLogGrants tenantName (bq_Device req) pub sub of Some e \<Rightarrow> Inl (invalid (ForBroker (RContract e)))
      | None \<Rightarrow> Inr (pub, sub)))))"

definition CreateBrokerAccount :: "service \<Rightarrow> ctx \<Rightarrow> string \<Rightarrow> BrokerAccountRequest \<Rightarrow> (IssuedBrokerAccount \<times> err option) io" where
  "CreateBrokerAccount S c tenantName req =
     (case sv_BrokerWriter S of None \<Rightarrow> ret (no_issued_account, Some (invalid (ForBroker RNoBroker)))
      | Some bw \<Rightarrow>
     tryc (Store_Get S tenantName) (\<lambda>e. ret (no_issued_account, Some e)) (\<lambda>rec.
     if rec_Status rec \<noteq> StatusReady then ret (no_issued_account, Some (invalid (ForTenant (RTenantIs tenantName (rec_Status rec)))))
     else if \<not> ValidWorkloadName (bq_Name req) then ret (no_issued_account, Some (invalid (ForBroker RAccountName)))
     else tryc (checkBrokerDevice S tenantName (bq_Device req)) (\<lambda>e. ret (no_issued_account, Some e)) (\<lambda>_.
     (case account_patterns tenantName req of Inl e \<Rightarrow> ret (no_issued_account, Some e)
      | Inr (pub, sub) \<Rightarrow>
     tryc (getOrNone (Store_GetBrokerAccount S tenantName (bq_Name req))) (\<lambda>e. ret (no_issued_account, Some e)) (\<lambda>found.
     tryc (chooseBrokerSecret S (bq_Password req) (case found of None \<Rightarrow> no_account | Some x \<Rightarrow> x))
       (\<lambda>e. ret (no_issued_account, Some e)) (\<lambda>(hash, plaintext).
     tryc (Store_PutBrokerAccount S \<lparr>ba_Tenant = tenantName, ba_Name = bq_Name req, ba_Device = bq_Device req,
         ba_Publish = pub, ba_Subscribe = sub, ba_PasswordHash = hash, ba_Status = StatusProvisioning\<rparr>)
       (\<lambda>e. ret (no_issued_account, Some e)) (\<lambda>a.
     do {
       audit S c (ActBrokerCreate (ba_Name a) (ba_Device a) pub sub) tenantName;
       let issued = \<lparr>ib_Account = a, ib_Password = plaintext, ib_Username = tenantName @ ''-'' @ ba_Name a\<rparr>;
       tryc (invoke bw (CBrokerPut a)) (\<lambda>e. ret (issued, Some (StepError StepBroker e))) (\<lambda>_.
       tryc (Store_SetBrokerAccountStatus S tenantName (ba_Name a) StatusReady) (\<lambda>e. ret (issued, Some e)) (\<lambda>_.
       ret (issued\<lparr>ib_Account := a\<lparr>ba_Status := StatusReady\<rparr>\<rparr>, None)))
     })))))))"

definition GetBrokerAccount :: "service \<Rightarrow> string \<Rightarrow> string \<Rightarrow> (err + IssuedBrokerAccount) io" where
  "GetBrokerAccount S tenantName name =
     orerr (Store_GetBrokerAccount S tenantName name)
       (\<lambda>a. ret (Inr \<lparr>ib_Account = a, ib_Password = [], ib_Username = tenantName @ ''-'' @ name\<rparr>))"

definition ListBrokerAccounts :: "service \<Rightarrow> string \<Rightarrow> (err + IssuedBrokerAccount list) io" where
  "ListBrokerAccounts S tenantName =
     orerr (Store_ListBrokerAccounts S tenantName)
       (\<lambda>as. ret (Inr (map (\<lambda>a. \<lparr>ib_Account = a, ib_Password = [], ib_Username = tenantName @ ''-'' @ ba_Name a\<rparr>) as)))"

definition DeleteBrokerAccount :: "service \<Rightarrow> ctx \<Rightarrow> string \<Rightarrow> string \<Rightarrow> (err + unit) io" where
  "DeleteBrokerAccount S c tenantName name =
     orerr (Store_GetBrokerAccount S tenantName name) (\<lambda>_.
     tryc (case sv_BrokerWriter S of None \<Rightarrow> ret (Inr ()) | Some bw \<Rightarrow> invoke bw (CBrokerRemove tenantName name))
       (\<lambda>e. ret (Inl (StepError StepBroker e))) (\<lambda>_.
     do {
       audit S c (ActBrokerDelete name) tenantName;
       Store_DeleteBrokerAccount S tenantName name
     }))"

section \<open>What the writer is sent\<close>

definition put_request :: "BrokerAccount \<Rightarrow> BrokerRequest" where
  "put_request a = \<lparr>br_Version = broker_Version, br_Op = OpPut, br_Tenant = ba_Tenant a, br_Account = ba_Name a,
     br_PasswordHash = ba_PasswordHash a, br_Publish = ba_Publish a, br_Subscribe = ba_Subscribe a\<rparr>"

definition remove_request :: "string \<Rightarrow> string \<Rightarrow> BrokerRequest" where
  "remove_request tenantName name = \<lparr>br_Version = broker_Version, br_Op = OpDelete, br_Tenant = tenantName,
     br_Account = name, br_PasswordHash = [], br_Publish = [], br_Subscribe = []\<rparr>"

section \<open>Steps kept\<close>

lemma keeps_bcrypt: "run.keeps site (bcrypt_hash S pw)"
  unfolding bcrypt_hash_def by (rule run.tick_keeps)

lemma keeps_broker_parts [store_keeps]:
  assumes "others_ok S"
  shows "run.keeps (sv_Site S) (checkBrokerDevice S tn dev)" "run.keeps (sv_Site S) (chooseBrokerSecret S pw a)"
  unfolding checkBrokerDevice_def chooseBrokerSecret_def
  by (intro keeps_intros keeps_reads keeps_random keeps_bcrypt keeps_getOrNone assms)+

lemma keeps_broker [store_keeps]:
  assumes "others_ok S"
  shows "run.keeps (sv_Site S) (CreateBrokerAccount S c tn req)" "run.keeps (sv_Site S) (GetBrokerAccount S tn name)"
    "run.keeps (sv_Site S) (ListBrokerAccounts S tn)" "run.keeps (sv_Site S) (DeleteBrokerAccount S c tn name)"
  unfolding CreateBrokerAccount_def GetBrokerAccount_def ListBrokerAccounts_def DeleteBrokerAccount_def
  by (intro keeps_intros keeps_reads keeps_writes keeps_service keeps_broker_parts keeps_getOrNone assms)+

section \<open>Properties of the component\<close>

definition account_event_ok :: "string \<Rightarrow> BrokerAccountRequest \<Rightarrow> event \<Rightarrow> bool" where
  "account_event_ok tn req ev =
     (\<exists>a. ev_call ev = CBrokerPut a \<and> get_row ba_key (tn, bq_Name req) (tbl_broker_accounts (ev_reg ev)) = Some a \<and>
        account_patterns tn req = Inr (ba_Publish a, ba_Subscribe a) \<and> ba_Device a = bq_Device req)"

lemma put_broker_account_row:
  assumes "tx_put_broker_account a r = Inr (out, r')"
  shows "get_row ba_key (ba_Tenant a, ba_Name a) (tbl_broker_accounts r') = Some out" "ba_Name out = ba_Name a"
    "ba_Publish out = ba_Publish a" "ba_Subscribe out = ba_Subscribe a" "ba_Device out = ba_Device a"
    "ba_PasswordHash out = ba_PasswordHash a"
  using assms
  by (auto simp: tx_put_broker_account_def Let_def broker_accounts.get_upsert ba_key_def ba_update_def
      split: if_splits option.splits dest: get_row_Some)

lemma wp_Store_PutBrokerAccount:
  assumes "alone S" "\<And>e w'. trace w' = trace w \<Longrightarrow> Q (Inl e) w'"
    and "\<And>out w'. trace w' = trace w \<Longrightarrow> get_row ba_key (ba_Tenant a, ba_Name a) (tbl_broker_accounts (reg w')) = Some out \<Longrightarrow>
      ba_Name out = ba_Name a \<Longrightarrow> ba_Publish out = ba_Publish a \<Longrightarrow> ba_Subscribe out = ba_Subscribe a \<Longrightarrow>
      ba_Device out = ba_Device a \<Longrightarrow> ba_PasswordHash out = ba_PasswordHash a \<Longrightarrow> Q (Inr out) w'"
  shows "wp (Store_PutBrokerAccount S a) Q w"
  unfolding Store_PutBrokerAccount_def
  by (rule wp_write[OF assms(1)]) (auto simp: same_def assms(2) intro!: assms(3) dest: put_broker_account_row)

lemma wp_account_status:
  "alone S \<Longrightarrow> wp (Store_SetBrokerAccountStatus S tn n st) (\<lambda>r w'. trace w' = trace u) u"
  unfolding Store_SetBrokerAccountStatus_def by (intro wp_write) (auto simp: same_def)

lemma still_secret: "still.keeps (chooseBrokerSecret S pw a)"
  unfolding chooseBrokerSecret_def bcrypt_hash_def by (intro still.world_intros still.random_keeps)

lemma wp_checkBrokerDevice:
  "alone S \<Longrightarrow> wp (checkBrokerDevice S tn dev) (\<lambda>r w'. same w w') w"
  unfolding checkBrokerDevice_def Store_GetDevice_def tx_device_def
  by (auto simp: wp_simps intro!: wp_get)

text \<open>The registry holds a broker account before the writer is told of it: at each call
  \<^verbatim>\<open>CreateBrokerAccount\<close> makes, the row is there with the same device, filters and password hash as the
  call, and its filters are the ones that passed the contract's checks for this tenant.\<close>

lemma broker_account_durable_first:
  assumes "alone S"
  shows "wp (CreateBrokerAccount S c tn req) (\<lambda>_ w'. list_all (account_event_ok tn req) (sent w w')) w"
proof (cases "sv_BrokerWriter S")
  case (Some bw)
  show ?thesis
    unfolding CreateBrokerAccount_def Store_GetBrokerAccount_def tx_broker_account_def Some option.case
    by (auto simp: wp_simps same_def account_event_ok_def split: sum.splits option.splits
        intro!: wp_Store_Get[OF assms] wp_mono[OF wp_checkBrokerDevice[OF assms]] wp_get[OF assms]
          wp_still[OF still_secret] wp_Store_PutBrokerAccount[OF assms] wp_audit[OF assms] wp_call
          wp_mono[OF wp_account_status[OF assms]])
qed (simp add: CreateBrokerAccount_def wp_simps)

definition sample_account :: BrokerAccountRequest where
  "sample_account = \<lparr>bq_Name = ''lamp'', bq_Device = [], bq_Publish = [''state/#''], bq_Subscribe = [''cmd/+''], bq_Password = []\<rparr>"

text \<open>A retry does not change a broker password behind the device's back: with an account in the
  registry and no password in the request, every call \<^verbatim>\<open>CreateBrokerAccount\<close> makes carries the stored
  hash, and the response carries no password.\<close>

lemma broker_retry_keeps_hash:
  assumes "alone S" "get_row ba_key (tn, bq_Name req) (tbl_broker_accounts (reg w)) = Some old"
    and "ba_PasswordHash old \<noteq> []" "bq_Password req = []"
  shows "wp (CreateBrokerAccount S c tn req)
    (\<lambda>(issued, _) w'. ib_Password issued = [] \<and>
       list_all (\<lambda>ev. \<exists>a. ev_call ev = CBrokerPut a \<and> ba_PasswordHash a = ba_PasswordHash old) (sent w w')) w"
proof (cases "sv_BrokerWriter S")
  case (Some bw)
  show ?thesis
    unfolding CreateBrokerAccount_def Store_GetBrokerAccount_def tx_broker_account_def Some option.case
    by (auto simp: wp_simps same_def chooseBrokerSecret_def assms(2-4) no_issued_account_def split: sum.splits option.splits
        intro!: wp_Store_Get[OF assms(1)] wp_mono[OF wp_checkBrokerDevice[OF assms(1)]] wp_get[OF assms(1)]
          wp_Store_PutBrokerAccount[OF assms(1)] wp_audit[OF assms(1)] wp_call
          wp_mono[OF wp_account_status[OF assms(1)]])
qed (simp add: CreateBrokerAccount_def wp_simps no_issued_account_def)

definition account_world :: world where
  "account_world = sample_world\<lparr>reg := (reg sample_world)\<lparr>tbl_broker_accounts :=
     [no_account\<lparr>ba_Tenant := ''eds'', ba_Name := ''lamp'', ba_PasswordHash := ''stored-hash''\<rparr>]\<rparr>\<rparr>"

text \<open>What the API sends, the writer accepts: the put request made of an account whose filters passed
  the API's checks validates under the writer's rules, given a bcrypt hash and filters that are within the
  writer's bound once prefixed.\<close>

lemma api_accounts_validate:
  assumes "ValidName (ba_Tenant a)" "ValidWorkloadName (ba_Name a)" "validHash (ba_PasswordHash a) = None"
    and "account_patterns (ba_Tenant a) req = Inr (ba_Publish a, ba_Subscribe a)"
    and "list_all (\<lambda>p. length p \<le> maxPattern) (ba_Publish a @ ba_Subscribe a)"
  shows "Validate_broker (put_request a) = None"
proof -
  have p: "PrefixPatterns (ba_Tenant a) DPublish (bq_Publish req) = Inr (ba_Publish a)"
    "PrefixPatterns (ba_Tenant a) DSubscribe (bq_Subscribe req) = Inr (ba_Subscribe a)"
    "CheckGrant (ba_Publish a) (ba_Subscribe a) = None"
    using assms(4) by (auto simp: account_patterns_def split: sum.splits option.splits)
  have "validPatterns DPublish (ba_Publish a) (ba_Tenant a @ ''/'') = None"
    "validPatterns DSubscribe (ba_Subscribe a) (ba_Tenant a @ ''/'') = None"
    using PrefixPatterns_writer[OF p(1) assms(1)] PrefixPatterns_writer[OF p(2) assms(1)] assms(5)
    by (simp_all add: list_all_iff)
  then show ?thesis
    using assms(1-3) p(3)
    by (simp add: Validate_broker_def put_request_def br_Prefix_def ValidName_def ValidWorkloadName_def OpPut_def OpDelete_def)
qed

end
