(* ===== verification/LogContract.thy ===== *)
theory LogContract
  imports Site
begin

text \<open>
  \<^verbatim>\<open>internal/logauth/contract.go\<close>: the wire contract between the API and the log store's user writer.
  Partitions and user names are derived from the tenant's index and name at both ends, never sent;
  the lemmas show that what is derived for two tenants never meets and never is the substrate's.
\<close>

section \<open>Requests\<close>

definition log_Version :: int where "log_Version = 1"
definition log_OpPut :: string where "log_OpPut = ''put''"
definition log_OpDelete :: string where "log_OpDelete = ''delete''"
definition log_maxTenant :: nat where "log_maxTenant = 8"
definition MinTokenLen :: nat where "MinTokenLen = 32"
definition MaxTokenLen :: nat where "MaxTokenLen = 128"
definition MaxIndex :: int where "MaxIndex = 63"

record LogRequest =
  lr_Version :: int
  lr_Op :: string
  lr_Tenant :: string
  lr_Index :: int
  lr_IngestToken :: string
  lr_ReadToken :: string

datatype token_field = IngestField | ReadField

datatype log_error =
    LogVersion int | LogOp string | LogTenantName string | LogIndex int | LogDeleteTokens
  | TokenShort token_field | TokenLong token_field | TokenChars token_field | TokenSpace token_field | TokensEqual

definition IngestPartition :: "LogRequest \<Rightarrow> int \<times> int" where
  "IngestPartition r = (lr_Index r, 0)"

definition ReadPartitions :: "LogRequest \<Rightarrow> (int \<times> int) list" where
  "ReadPartitions r = [(lr_Index r, 0), (lr_Index r, 1), (lr_Index r, 2)]"

definition DevicePartition :: "LogRequest \<Rightarrow> int \<times> int" where
  "DevicePartition r = (lr_Index r, 2)"

definition IngestUser :: "LogRequest \<Rightarrow> string" where
  "IngestUser r = ''ingest-'' @ lr_Tenant r"

definition ReadUser :: "LogRequest \<Rightarrow> string" where
  "ReadUser r = ''read-'' @ lr_Tenant r"

definition BridgeRoute :: "LogRequest \<Rightarrow> string" where
  "BridgeRoute r = lr_Tenant r"

section \<open>Validation\<close>

text \<open>\<^verbatim>\<open>^[A-Za-z0-9._~-]+$\<close>, and the ASCII white space \<^verbatim>\<open>strings.TrimSpace\<close> cuts.\<close>

definition tokenRE :: "string \<Rightarrow> bool" where
  "tokenRE s = (s \<noteq> [] \<and> list_all (\<lambda>c. c \<in> set (uppers @ lowers @ digits @ ''._~-'')) s)"

definition is_space :: "char \<Rightarrow> bool" where
  "is_space c = (c = CHR '' '' \<or> c \<in> {CHR 0x09, CHR 0x0A, CHR 0x0B, CHR 0x0C, CHR 0x0D})"

definition TrimSpace :: "string \<Rightarrow> string" where
  "TrimSpace s = rev (dropWhile is_space (rev (dropWhile is_space s)))"

definition validToken :: "token_field \<Rightarrow> string \<Rightarrow> log_error option" where
  "validToken field tok =
     (if length tok < MinTokenLen then Some (TokenShort field)
      else if length tok > MaxTokenLen then Some (TokenLong field)
      else if \<not> tokenRE tok then Some (TokenChars field)
      else if TrimSpace tok \<noteq> tok then Some (TokenSpace field)
      else None)"

definition Validate_log :: "LogRequest \<Rightarrow> log_error option" where
  "Validate_log r =
     (if lr_Version r \<noteq> log_Version then Some (LogVersion (lr_Version r))
      else if lr_Op r \<noteq> log_OpPut \<and> lr_Op r \<noteq> log_OpDelete then Some (LogOp (lr_Op r))
      else if length (lr_Tenant r) > log_maxTenant \<or> \<not> nameRE (lr_Tenant r) then Some (LogTenantName (lr_Tenant r))
      else if lr_Index r < 1 \<or> lr_Index r > MaxIndex then Some (LogIndex (lr_Index r))
      else if lr_Op r = log_OpDelete then
        (if lr_IngestToken r \<noteq> [] \<or> lr_ReadToken r \<noteq> [] then Some LogDeleteTokens else None)
      else case validToken IngestField (lr_IngestToken r) of Some e \<Rightarrow> Some e | None \<Rightarrow>
        (case validToken ReadField (lr_ReadToken r) of Some e \<Rightarrow> Some e | None \<Rightarrow>
          (if lr_IngestToken r = lr_ReadToken r then Some TokensEqual else None)))"

section \<open>Partitions of two tenants never meet\<close>

lemma partitions_disjoint:
  "lr_Index a \<noteq> lr_Index b \<Longrightarrow>
     set (ReadPartitions a) \<inter> set (ReadPartitions b) = {} \<and>
     IngestPartition b \<notin> set (ReadPartitions a) \<and> DevicePartition b \<notin> set (ReadPartitions a) \<and>
     IngestPartition a \<noteq> IngestPartition b \<and> DevicePartition a \<noteq> DevicePartition b"
  by (auto simp: ReadPartitions_def IngestPartition_def DevicePartition_def)

lemma Validate_log_index: "Validate_log r = None \<Longrightarrow> 1 \<le> lr_Index r \<and> lr_Index r \<le> 63 \<and> ValidName (lr_Tenant r)"
  by (auto simp: Validate_log_def MaxIndex_def ValidName_def split: if_splits option.splits)

lemma log_users_distinct:
  "IngestUser a \<noteq> ReadUser b \<and> (IngestUser a = IngestUser b \<longleftrightarrow> lr_Tenant a = lr_Tenant b) \<and>
   (ReadUser a = ReadUser b \<longleftrightarrow> lr_Tenant a = lr_Tenant b)"
  by (auto simp: IngestUser_def ReadUser_def)

section \<open>The tokens the API mints are accepted\<close>

lemma hexdigits_token: "set hexdigits \<subseteq> set (uppers @ lowers @ digits @ ''._~-'')"
  by (simp add: hexdigits_def uppers_def lowers_def digits_def)

lemma token_no_space: "c \<in> set (uppers @ lowers @ digits @ ''._~-'') \<Longrightarrow> \<not> is_space c"
  by (auto simp: is_space_def uppers_def lowers_def digits_def)

lemma TrimSpace_id: "\<forall>c \<in> set s. \<not> is_space c \<Longrightarrow> TrimSpace s = s"
proof -
  have drop: "\<forall>c \<in> set xs. \<not> is_space c \<Longrightarrow> dropWhile is_space xs = xs" for xs
    by (cases xs) auto
  show "\<forall>c \<in> set s. \<not> is_space c \<Longrightarrow> ?thesis"
    by (simp add: TrimSpace_def drop)
qed

lemma validToken_hex: "length bs = 32 \<Longrightarrow> validToken field (hexEncode bs) = None"
proof -
  assume len: "length bs = 32"
  have chars: "list_all (\<lambda>c. c \<in> set (uppers @ lowers @ digits @ ''._~-'')) (hexEncode bs)"
    unfolding list_all_iff using set_hexEncode[of bs] hexdigits_token by fast
  then have "TrimSpace (hexEncode bs) = hexEncode bs"
    using token_no_space by (intro TrimSpace_id) (simp add: list_all_iff)
  moreover have "hexEncode bs \<noteq> []" using len length_hexEncode[of bs] by fastforce
  ultimately show ?thesis
    using len chars by (simp add: validToken_def tokenRE_def MinTokenLen_def MaxTokenLen_def)
qed

section \<open>Properties of the component\<close>

text \<open>Two tenants with different indexes share nothing in the log store: neither reads a partition the
  other writes, by its own user or through its devices, and no user name of one is a user name of the
  other.\<close>

lemma log_store_isolated:
  assumes "lr_Index a \<noteq> lr_Index b" "lr_Tenant a \<noteq> lr_Tenant b"
  shows "set (ReadPartitions a) \<inter> {IngestPartition b, DevicePartition b} = {} \<and>
    set (ReadPartitions a) \<inter> set (ReadPartitions b) = {} \<and>
    {IngestUser a, ReadUser a} \<inter> {IngestUser b, ReadUser b} = {} \<and> BridgeRoute a \<noteq> BridgeRoute b"
  using partitions_disjoint[OF assms(1)] log_users_distinct[of a b] log_users_distinct[of b a] assms(2)
  by (auto simp: BridgeRoute_def)

definition sample_log :: "string \<Rightarrow> int \<Rightarrow> LogRequest" where
  "sample_log tn i = \<lparr>lr_Version = 1, lr_Op = log_OpPut, lr_Tenant = tn, lr_Index = i,
     lr_IngestToken = replicate 64 CHR ''a'', lr_ReadToken = replicate 64 CHR ''b''\<rparr>"

end
