(* ===== verification/Lifecycle.thy ===== *)
theory Lifecycle
  imports WiFi Workloads BrokerAccounts LogContract
begin

text \<open>
  The tenant's life in \<^verbatim>\<open>service.go\<close>: create, restore, resume, reconcile, delete, admission and
  authentication, with the steps of \<^verbatim>\<open>logtokens.go\<close> and \<^verbatim>\<open>dashboards.go\<close>. An operation that returns a
  value and an error returns the pair: Go hands back the value beside a non-nil error, and the caller
  reads it.
\<close>

section \<open>Requests and results\<close>

record CreateRequest =
  cr_Name :: string
  cr_Index :: int
  cr_TSIGSecret :: string
  cr_StateSecret :: string
  cr_APIToken :: string

definition suppliesSecrets :: "CreateRequest \<Rightarrow> bool" where
  "suppliesSecrets r = (cr_TSIGSecret r \<noteq> [] \<or> cr_StateSecret r \<noteq> [] \<or> cr_APIToken r \<noteq> [])"

definition suppliesAllSecrets :: "CreateRequest \<Rightarrow> bool" where
  "suppliesAllSecrets r = (cr_TSIGSecret r \<noteq> [] \<and> cr_StateSecret r \<noteq> [] \<and> cr_APIToken r \<noteq> [])"

record Issued =
  is_LogIngestToken :: string
  is_LogReadToken :: string
  is_DashboardPassword :: string
  is_TSIGSecret :: string
  is_StateSecret :: string
  is_APIToken :: string

definition no_issued :: Issued where
  "no_issued = \<lparr>is_LogIngestToken = [], is_LogReadToken = [], is_DashboardPassword = [], is_TSIGSecret = [],
     is_StateSecret = [], is_APIToken = []\<rparr>"

text \<open>The outcome is nothing in the zero \<^verbatim>\<open>Result\<close> that goes with an error.\<close>

record Result =
  rs_Record :: Record
  rs_Outcome :: "Outcome option"
  rs_Issued :: Issued

definition no_result :: Result where
  "no_result = \<lparr>rs_Record = no_record, rs_Outcome = None, rs_Issued = no_issued\<rparr>"

definition validateCreate :: "CreateRequest \<Rightarrow> err option" where
  "validateCreate req =
     (if \<not> ValidName (cr_Name req) then Some (invalid (ForTenant RName))
      else if Reserved (cr_Name req) then Some (invalid (ForTenant (RReserved (cr_Name req))))
      else if cr_Index req \<noteq> 0 \<and> (cr_Index req < MinIndex \<or> cr_Index req > MaxAllocatable)
      then Some (invalid (ForTenant RIndex))
      else if suppliesSecrets req \<and> \<not> suppliesAllSecrets req then Some (invalid (ForTenant RThreeSecrets))
      else if cr_TSIGSecret req \<noteq> [] \<and>
        (case StdEncoding_DecodeString (cr_TSIGSecret req) of None \<Rightarrow> True | Some raw \<Rightarrow> length raw < 16)
      then Some (invalid (ForTenant RTSIG))
      else if cr_StateSecret req \<noteq> [] \<and> (length (cr_StateSecret req) < 8 \<or> length (cr_StateSecret req) > 40)
      then Some (invalid (ForTenant RStateSecret))
      else None)"

section \<open>Log tokens and dashboards\<close>

definition log_tenant :: "Record \<Rightarrow> Secrets \<Rightarrow> LogTenant" where
  "log_tenant rec s = \<lparr>lt_Name = rec_Name rec, lt_Index = rec_Index rec, lt_IngestToken = sec_LogIngest s,
     lt_ReadToken = sec_LogRead s\<rparr>"

definition ensureLogTokens :: "service \<Rightarrow> Record \<Rightarrow> (err + unit) io" where
  "ensureLogTokens S rec =
     (case sv_LogWriter S of None \<Rightarrow> ret (Inr ())
      | Some lw \<Rightarrow>
          if sec_LogIngest (rec_Secrets rec) = [] \<or> sec_LogRead (rec_Secrets rec) = [] then
            orerr (logTokens S) (\<lambda>(ingest, rd).
            let secrets = (rec_Secrets rec)\<lparr>sec_LogIngest := ingest, sec_LogRead := rd\<rparr> in
            orerr (Store_SetSecrets S (rec_Name rec) secrets) (\<lambda>_.
            invoke lw (CLogPut (log_tenant rec secrets))))
          else invoke lw (CLogPut (log_tenant rec (rec_Secrets rec))))"

definition removeLogTokens :: "service \<Rightarrow> Record \<Rightarrow> (err + unit) io" where
  "removeLogTokens S rec =
     (case sv_LogWriter S of None \<Rightarrow> ret (Inr ()) | Some lw \<Rightarrow> invoke lw (CLogRemove (rec_Name rec) (rec_Index rec)))"

definition ErrNoReadToken :: err where
  "ErrNoReadToken = ErrOther ''the tenant has no log read token for its data sources; the site needs a log store before dashboards''"

text \<open>The second half of \<^verbatim>\<open>ensureDashboards\<close>, once the password is one the registry holds.\<close>

definition put_dashboards :: "service \<Rightarrow> int answer \<Rightarrow> Record \<Rightarrow> Secrets \<Rightarrow> (err + unit) io" where
  "put_dashboards S dash rec s =
     orerr (invoke dash (CDashEnsure \<lparr>dt_Name = rec_Name rec, dt_Index = rec_Index rec,
         dt_Password = sec_DashboardPassword s, dt_ReadToken = sec_LogRead s\<rparr>)) (\<lambda>org.
     if org \<noteq> rec_DashboardOrg rec then Store_SetDashboardOrg S (rec_Name rec) org else ret (Inr ()))"

definition ensureDashboards :: "service \<Rightarrow> Record \<Rightarrow> (err + unit) io" where
  "ensureDashboards S rec =
     (case sv_Dashboards S of None \<Rightarrow> ret (Inr ())
      | Some dash \<Rightarrow>
          if sec_LogRead (rec_Secrets rec) = [] then ret (Inl ErrNoReadToken)
          else if sec_DashboardPassword (rec_Secrets rec) = [] then
            orerr (randomHex S 24) (\<lambda>pw.
            let secrets = (rec_Secrets rec)\<lparr>sec_DashboardPassword := pw\<rparr> in
            orerr (Store_SetSecrets S (rec_Name rec) secrets) (\<lambda>_. put_dashboards S dash rec secrets))
          else put_dashboards S dash rec (rec_Secrets rec))"

definition removeDashboards :: "service \<Rightarrow> Record \<Rightarrow> (err + unit) io" where
  "removeDashboards S rec =
     (case sv_Dashboards S of None \<Rightarrow> ret (Inr ())
      | Some dash \<Rightarrow> orerr (invoke dash (CDashRemove (rec_Name rec))) (\<lambda>_. ret (Inr ())))"

section \<open>Ensuring every backend\<close>

type_synonym backend_step = "step \<times> (err option) io"

text \<open>The optional steps are in the list only where the site has the backend.\<close>

definition ensure_steps :: "service \<Rightarrow> Record \<Rightarrow> backend_step list" where
  "ensure_steps S rec =
     [(StepDNS, erro (invoke (sv_DNS S) (CDNSEnsure (dnsTenant S rec)))),
      (StepResolver, erro (invoke (sv_Resolver S) (CResolverEnsure (forwards S rec)))),
      (StepState, erro (invoke (sv_State S) (CStateEnsure (stateTenant S rec)))),
      (StepNetwork, erro (network S rec))] @
     (case sv_Reservations S of None \<Rightarrow> [] | Some rv \<Rightarrow> [(StepAddress, ensureAddresses S rv rec)]) @
     (case sv_LogWriter S of None \<Rightarrow> [] | Some _ \<Rightarrow> [(StepLogStore, erro (ensureLogTokens S rec))]) @
     (case sv_Dashboards S of None \<Rightarrow> []
      | Some _ \<Rightarrow> [(StepDashboard, do { fresh \<leftarrow> reload S rec; erro (ensureDashboards S fresh) })])"

fun ensure_loop :: "service \<Rightarrow> Record \<Rightarrow> backend_step list \<Rightarrow> (Record \<times> err option) io" where
  "ensure_loop S rec [] =
     tryc (Store_SetStatus S (rec_Name rec) StatusReady) (\<lambda>e. ret (rec, Some e)) (\<lambda>_.
     do { fresh \<leftarrow> reload S rec; ret (fresh, None) })"
| "ensure_loop S rec (st # sts) =
     do {
       e \<leftarrow> snd st;
       recordStep S (rec_Name rec) (fst st) e;
       (case e of
          None \<Rightarrow> ensure_loop S rec sts
        | Some e \<Rightarrow>
            do {
              _ \<leftarrow> Store_SetStatus S (rec_Name rec) StatusProvisioning;
              fresh \<leftarrow> reload S rec;
              ret (fresh, Some (StepError (fst st) e))
            })
     }"

definition ensure :: "service \<Rightarrow> Record \<Rightarrow> (Record \<times> err option) io" where
  "ensure S rec = ensure_loop S rec (ensure_steps S rec)"

section \<open>Create, restore and resume\<close>

definition supplied_secrets :: "service \<Rightarrow> CreateRequest \<Rightarrow> Secrets" where
  "supplied_secrets S req = no_secrets\<lparr>sec_TSIG := cr_TSIGSecret req, sec_State := cr_StateSecret req,
     sec_APITokenHash := HashToken S (cr_APIToken req)\<rparr>"

definition supplied_issued :: "CreateRequest \<Rightarrow> Issued" where
  "supplied_issued req = no_issued\<lparr>is_TSIGSecret := cr_TSIGSecret req, is_StateSecret := cr_StateSecret req,
     is_APIToken := cr_APIToken req\<rparr>"

definition secretsFor :: "service \<Rightarrow> CreateRequest \<Rightarrow> (err + Issued \<times> Secrets) io" where
  "secretsFor S req =
     orerr (logTokens S) (\<lambda>(logIngest, logRead).
     if suppliesAllSecrets req then
       ret (Inr ((supplied_issued req)\<lparr>is_LogIngestToken := logIngest, is_LogReadToken := logRead\<rparr>,
                 (supplied_secrets S req)\<lparr>sec_LogIngest := logIngest, sec_LogRead := logRead\<rparr>))
     else
       orerr (rand_bytes S 32) (\<lambda>tsigRaw.
       orerr (randomHex S 20) (\<lambda>state.
       orerr (Tokens_Issue S (cr_Name req)) (\<lambda>token.
       let tsig = StdEncoding_EncodeToString tsigRaw in
       ret (Inr (\<lparr>is_LogIngestToken = logIngest, is_LogReadToken = logRead, is_DashboardPassword = [],
                  is_TSIGSecret = tsig, is_StateSecret = state, is_APIToken = token\<rparr>,
                 no_secrets\<lparr>sec_TSIG := tsig, sec_State := state, sec_APITokenHash := HashToken S token,
                   sec_LogIngest := logIngest, sec_LogRead := logRead\<rparr>))))))"

definition create_outcome :: "CreateRequest \<Rightarrow> Record \<Rightarrow> Outcome" where
  "create_outcome req rec =
     (if cr_Index req \<noteq> 0 then (if rec_Index rec \<noteq> cr_Index req then OutcomeReissued else OutcomeRestored)
      else OutcomeCreated)"

text \<open>The end of \<^verbatim>\<open>createNew\<close> and \<^verbatim>\<open>restoreExisting\<close>: the steps, and the dashboard password they left.\<close>

definition finish :: "service \<Rightarrow> Record \<Rightarrow> Outcome \<Rightarrow> Issued \<Rightarrow> (Result \<times> err option) io" where
  "finish S rec outcome issued =
     do {
       (rec, e) \<leftarrow> ensure S rec;
       ret (\<lparr>rs_Record = rec, rs_Outcome = Some outcome,
             rs_Issued = issued\<lparr>is_DashboardPassword := sec_DashboardPassword (rec_Secrets rec)\<rparr>\<rparr>, e)
     }"

definition createNew :: "service \<Rightarrow> ctx \<Rightarrow> CreateRequest \<Rightarrow> (Result \<times> err option) io" where
  "createNew S c req =
     tryc (invoke (sv_Fabric S) CClaims) (\<lambda>e. ret (no_result, Some (StepError StepFabric e))) (\<lambda>claims.
     tryc (secretsFor S req) (\<lambda>e. ret (no_result, Some e)) (\<lambda>(issued, secrets).
     tryc (Store_Create S (cr_Name req) secrets (\<lambda>held. pickIndex (cr_Name req) (cr_Index req) held claims))
       (\<lambda>e. ret (no_result, Some e)) (\<lambda>rec.
     let outcome = create_outcome req rec in
     do {
       audit S c (ActCreate (rec_Index rec) (cr_Index req) outcome) (rec_Name rec);
       finish S rec outcome issued
     })))"

text \<open>The secrets a restore over an existing row keeps, and what it hands back.\<close>

definition restore_secrets :: "service \<Rightarrow> Record \<Rightarrow> CreateRequest \<Rightarrow> (err + Issued \<times> Secrets) io" where
  "restore_secrets S rec req =
     (if suppliesAllSecrets req then ret (Inr (supplied_issued req, supplied_secrets S req))
      else orerr (Tokens_Issue S (rec_Name rec)) (\<lambda>tok.
        ret (Inr (no_issued\<lparr>is_TSIGSecret := sec_TSIG (rec_Secrets rec), is_StateSecret := sec_State (rec_Secrets rec),
                    is_APIToken := tok\<rparr>,
                  (rec_Secrets rec)\<lparr>sec_APITokenHash := HashToken S tok\<rparr>))))"

definition restoreExisting :: "service \<Rightarrow> ctx \<Rightarrow> Record \<Rightarrow> CreateRequest \<Rightarrow> Outcome \<Rightarrow> (Result \<times> err option) io" where
  "restoreExisting S c rec req outcome =
     tryc (restore_secrets S rec req) (\<lambda>e. ret (no_result, Some e)) (\<lambda>(issued, secrets).
     tryc (Store_SetSecrets S (rec_Name rec) secrets) (\<lambda>e. ret (no_result, Some e)) (\<lambda>_.
     do {
       audit S c (ActRestore outcome (rec_Index rec) (cr_Index req)) (rec_Name rec);
       finish S (rec\<lparr>rec_Secrets := secrets\<rparr>) outcome issued
     }))"

definition Create :: "service \<Rightarrow> ctx \<Rightarrow> CreateRequest \<Rightarrow> (Result \<times> err option) io" where
  "Create S c req =
     (case validateCreate req of Some e \<Rightarrow> ret (no_result, Some e)
      | None \<Rightarrow>
     if cr_APIToken req \<noteq> [] \<and> Tokens_Verify S (cr_APIToken req) \<noteq> Some (cr_Name req)
     then ret (no_result, Some (invalid (ForTenant (RTokenNotIssued (cr_Name req)))))
     else tryc (getOrNone (Store_Get S (cr_Name req))) (\<lambda>e. ret (no_result, Some e)) (\<lambda>found.
     (case found of
        None \<Rightarrow>
          do {
            (res, e) \<leftarrow> createNew S c req;
            (if e = None then do { _ \<leftarrow> adoptAdmissionKey S (cr_Name req); ret (res, e) } else ret (res, e))
          }
      | Some rec \<Rightarrow>
          (case rec_Status rec of
             StatusReady \<Rightarrow>
               if \<not> suppliesAllSecrets req then ret (no_result, Some ErrExists)
               else restoreExisting S c rec req OutcomeReconciled
           | StatusProvisioning \<Rightarrow>
               do {
                 out \<leftarrow> restoreExisting S c rec req OutcomeResumed;
                 _ \<leftarrow> adoptAdmissionKey S (cr_Name req);
                 ret out
               }
           | StatusDeleting \<Rightarrow>
               ret (no_result, Some (invalid (ForTenant (RFinishDeleting (rec_Name rec) (rec_Status rec)))))))))"

definition Reconcile :: "service \<Rightarrow> ctx \<Rightarrow> string \<Rightarrow> (Result \<times> err option) io" where
  "Reconcile S c name =
     tryc (Store_Get S name) (\<lambda>e. ret (no_result, Some e)) (\<lambda>rec.
     if rec_Status rec = StatusDeleting
     then ret (no_result, Some (invalid (ForTenant (RFinishDeleting name StatusDeleting))))
     else do {
       audit S c (ActReconcile (rec_Index rec)) name;
       (rec, e) \<leftarrow> ensure S rec;
       let s = rec_Secrets rec;
       ret (\<lparr>rs_Record = rec, rs_Outcome = Some OutcomeReconciled,
             rs_Issued = \<lparr>is_LogIngestToken = sec_LogIngest s, is_LogReadToken = sec_LogRead s,
               is_DashboardPassword = sec_DashboardPassword s, is_TSIGSecret = sec_TSIG s,
               is_StateSecret = sec_State s, is_APIToken = []\<rparr>\<rparr>, e)
     })"

section \<open>Reading and deleting\<close>

definition Get :: "service \<Rightarrow> string \<Rightarrow> (err + Record) io" where
  "Get S name = (if \<not> ValidName name then ret (Inl ErrNotFound) else Store_Get S name)"

definition List_tenants :: "service \<Rightarrow> (err + Record list) io" where
  "List_tenants S = orerr (Store_List S) (\<lambda>recs. ret (Inr (sort_key rec_Index recs)))"

definition delete_steps ::
  "service \<Rightarrow> string \<Rightarrow> Record \<Rightarrow> WiFiKey list \<Rightarrow> BrokerAccount list \<Rightarrow> DeviceAddress list \<Rightarrow> backend_step list" where
  "delete_steps S name rec keys accounts addrs =
     (case sv_Dashboards S of None \<Rightarrow> [] | Some _ \<Rightarrow> [(StepDashboard, erro (removeDashboards S rec))]) @
     (case sv_LogWriter S of None \<Rightarrow> [] | Some _ \<Rightarrow> [(StepLogStore, erro (removeLogTokens S rec))]) @
     [(StepBroker, (case sv_BrokerWriter S of None \<Rightarrow> ret None
        | Some bw \<Rightarrow> each (\<lambda>a. erro (invoke bw (CBrokerRemove name (ba_Name a)))) accounts)),
      (StepWiFiKey, each (\<lambda>k. erro (removeKeyFromController S k)) keys),
      (StepAddress, each (\<lambda>a. erro (removeReservation S a)) addrs),
      (StepNetwork, erro (removeNetwork S rec)),
      (StepResolver, erro (invoke (sv_Resolver S) (CResolverRemove (zones S rec)))),
      (StepDNS, erro (invoke (sv_DNS S) (CDNSRemove (dnsTenant S rec)))),
      (StepState, erro (invoke (sv_State S) (CStateRemove (rec_Name rec))))]"

definition delete_step :: "service \<Rightarrow> string \<Rightarrow> backend_step \<Rightarrow> (err option) io" where
  "delete_step S name st =
     do {
       e \<leftarrow> snd st;
       (case e of None \<Rightarrow> ret None
        | Some e \<Rightarrow> do { recordStep S name (fst st) (Some e); ret (Some (StepError (fst st) e)) })
     }"

definition Delete :: "service \<Rightarrow> ctx \<Rightarrow> string \<Rightarrow> (err + unit) io" where
  "Delete S c name =
     orerr (Get S name) (\<lambda>rec.
     orerr (Store_ListWorkloads S name) (\<lambda>wls.
     if wls \<noteq> [] then ret (Inl ErrHasWorkloads)
     else tryc (invoke (sv_Fabric S) CClaims) (\<lambda>e. ret (Inl (StepError StepFabric e))) (\<lambda>claims.
     if sv_Network S = None \<and> list_ex (\<lambda>cl. cl_Zone cl = name) claims then ret (Inl ErrFabricInUse)
     else orerr (Store_SetStatus S name StatusDeleting) (\<lambda>_.
     do {
       audit S c (ActDelete (rec_Index rec)) name;
       orerr (Store_ListWiFiKeys S name) (\<lambda>keys.
       orerr (Store_ListBrokerAccounts S name) (\<lambda>accounts.
       orerr (Store_ListDeviceAddresses S name) (\<lambda>addrs.
       do {
         e \<leftarrow> each (delete_step S name) (delete_steps S name rec keys accounts addrs);
         (case e of Some e \<Rightarrow> ret (Inl e) | None \<Rightarrow> Store_Delete S name)
       })))
     }))))"

record EgressVRF =
  eg_Tenant :: string
  eg_VRF :: string

definition Egress :: "service \<Rightarrow> (err + EgressVRF list) io" where
  "Egress S =
     orerr (List_tenants S) (\<lambda>recs.
     ret (Inr (map (\<lambda>r. \<lparr>eg_Tenant = rec_Name r, eg_VRF = ''vrf_'' @ rec_Name r\<rparr>)
       (filter (\<lambda>r. rec_Status r = StatusReady) recs))))"

section \<open>Admission\<close>

record Admission =
  am_Name :: string
  am_EnrollmentToken :: string
  am_ExpiresAt :: int
  am_WiFi :: "AdmissionWiFi option"

definition hours72 :: int where "hours72 = 72 * 3600 * 1000000000"

definition Admit :: "service \<Rightarrow> ctx \<Rightarrow> string \<Rightarrow> string \<Rightarrow> (err + Admission) io" where
  "Admit S c name mac0 =
     (case sv_Enroller S of None \<Rightarrow> ret (Inl ErrNoEnrollment)
      | Some en \<Rightarrow>
     if \<not> ValidName name then ret (Inl (invalid (ForTenant RName)))
     else if Reserved name then ret (Inl (invalid (ForTenant (RReserved name))))
     else (case optional_mac mac0 of None \<Rightarrow> ret (Inl (invalid (ForTenant (RMAC mac0))))
      | Some mac \<Rightarrow>
     orerr (getOrNone (Store_Get S name)) (\<lambda>found.
     (case found of Some _ \<Rightarrow> ret (Inl ErrExists)
      | None \<Rightarrow>
     let ttl = (if sv_EnrollmentTTL S \<le> 0 then hours72 else sv_EnrollmentTTL S) in
     tryc (invoke (en_Wrap en) (CWrap [(''tenant'', name)] ttl)) (\<lambda>e. ret (Inl (StepError StepEnrollment e))) (\<lambda>(tok, expires).
     orerr (issueAdmissionKey S name mac) (\<lambda>wifi.
     do {
       audit S c (ActAdmit expires (wifi \<noteq> None) (mac \<noteq> [])) name;
       ret (Inr \<lparr>am_Name = name, am_EnrollmentToken = tok, am_ExpiresAt = expires, am_WiFi = wifi\<rparr>)
     }))))))"

text \<open>\<^verbatim>\<open>data["tenant"]\<close> is the empty string when the key is missing.\<close>

definition Redeem :: "service \<Rightarrow> ctx \<Rightarrow> string \<Rightarrow> string \<Rightarrow> (err + unit) io" where
  "Redeem S c token name =
     (case sv_Enroller S of None \<Rightarrow> ret (Inl ErrNoEnrollment)
      | Some en \<Rightarrow>
     tryc (invoke (en_Unwrap en) (CUnwrap token))
       (\<lambda>e. ret (Inl (if errors_is e ErrNotRedeemable then ErrNotRedeemable else StepError StepEnrollment e))) (\<lambda>data.
     let token_for = (case map_of data ''tenant'' of None \<Rightarrow> [] | Some t \<Rightarrow> t) in
     if token_for \<noteq> name then do { audit S c (ActEnrollmentMismatch token_for) name; ret (Inl ErrNotRedeemable) }
     else do { audit S c ActEnroll name; ret (Inr ()) }))"

section \<open>Authentication\<close>

record Caller =
  ca_Tenant :: string
  ca_Registered :: bool

text \<open>\<open>Inr None\<close> is the refusal \<^verbatim>\<open>Caller{}, false, nil\<close>.\<close>

definition Authenticate :: "service \<Rightarrow> string \<Rightarrow> (err + Caller option) io" where
  "Authenticate S token =
     (case Tokens_Verify S token of None \<Rightarrow> ret (Inr None)
      | Some name \<Rightarrow>
     tryc (Store_Get S name)
       (\<lambda>e. ret (if errors_is e ErrNotFound then Inr (Some \<lparr>ca_Tenant = name, ca_Registered = False\<rparr>)
                 else if errors_is e ErrSecretsUnavailable then Inl e else Inr None))
       (\<lambda>rec. ret (Inr (if subtleEqual (sec_APITokenHash (rec_Secrets rec)) (HashToken S token)
                        then Some \<lparr>ca_Tenant = name, ca_Registered = True\<rparr> else None))))"

section \<open>Steps kept\<close>

lemma keeps_log_dash [store_keeps]:
  assumes "others_ok S"
  shows "run.keeps (sv_Site S) (ensureLogTokens S rec)" "run.keeps (sv_Site S) (removeLogTokens S rec)"
    "run.keeps (sv_Site S) (ensureDashboards S rec)" "run.keeps (sv_Site S) (removeDashboards S rec)"
  unfolding ensureLogTokens_def removeLogTokens_def ensureDashboards_def removeDashboards_def put_dashboards_def
  by (intro keeps_intros keeps_random keeps_writes assms)+

text \<open>Every step of the two lists keeps, and so do the loops over them.\<close>

lemma keeps_ensure_steps:
  assumes "others_ok S" "st \<in> set (ensure_steps S rec)"
  shows "run.keeps (sv_Site S) (snd st)"
proof -
  note parts = keeps_intros keeps_service[OF assms(1)] keeps_random keeps_log_dash[OF assms(1)] keeps_address_parts[OF assms(1)]
  have "list_all (\<lambda>st. run.keeps (sv_Site S) (snd st)) (ensure_steps S rec)"
    unfolding ensure_steps_def
    by (auto split: option.splits intro!: parts)
  then show ?thesis using assms(2) by (simp add: list_all_iff)
qed

lemma keeps_ensure_loop:
  assumes "others_ok S" "\<And>st. st \<in> set sts \<Longrightarrow> run.keeps (sv_Site S) (snd st)"
  shows "run.keeps (sv_Site S) (ensure_loop S rec sts)"
  using assms(2)
proof (induction sts)
  case Nil
  show ?case unfolding ensure_loop.simps by (intro keeps_intros keeps_writes keeps_service assms(1))
next
  case (Cons st sts)
  show ?case unfolding ensure_loop.simps
    by (intro keeps_intros keeps_writes keeps_service assms(1) Cons.prems Cons.IH) simp_all
qed

lemma keeps_ensure [store_keeps]: "others_ok S \<Longrightarrow> run.keeps (sv_Site S) (ensure S rec)"
  unfolding ensure_def by (rule keeps_ensure_loop) (auto intro: keeps_ensure_steps)

lemma keeps_secrets [store_keeps]:
  "run.keeps site (secretsFor S req)" "run.keeps site (restore_secrets S rec req)"
  unfolding secretsFor_def restore_secrets_def by (intro keeps_intros keeps_random keeps_sealing)+

lemma validateCreate_index:
  "validateCreate req = None \<Longrightarrow> cr_Index req = 0 \<or> MinIndex \<le> cr_Index req \<and> cr_Index req \<le> MaxAllocatable"
  by (auto simp: validateCreate_def split: if_splits)

lemma keeps_createNew:
  "others_ok S \<Longrightarrow> validateCreate req = None \<Longrightarrow> run.keeps (sv_Site S) (createNew S c req)"
  unfolding createNew_def finish_def
  by (intro keeps_intros keeps_secrets keeps_service keeps_ensure keeps_Store_Create validateCreate_index)

lemma keeps_restoreExisting:
  "others_ok S \<Longrightarrow> run.keeps (sv_Site S) (restoreExisting S c rec req outcome)"
  unfolding restoreExisting_def finish_def
  by (intro keeps_intros keeps_secrets keeps_service keeps_ensure keeps_writes)

lemma keeps_case_status:
  "(x = StatusProvisioning \<Longrightarrow> run.keeps site f) \<Longrightarrow> (x = StatusReady \<Longrightarrow> run.keeps site g) \<Longrightarrow>
   (x = StatusDeleting \<Longrightarrow> run.keeps site h) \<Longrightarrow>
     run.keeps site (case x of StatusProvisioning \<Rightarrow> f | StatusReady \<Rightarrow> g | StatusDeleting \<Rightarrow> h)"
  by (cases x) auto

lemma keeps_lifecycle [store_keeps]:
  assumes "others_ok S"
  shows "run.keeps (sv_Site S) (Create S c req)" "run.keeps (sv_Site S) (Reconcile S c name)"
    "run.keeps (sv_Site S) (Get S name)" "run.keeps (sv_Site S) (List_tenants S)"
    "run.keeps (sv_Site S) (Egress S)" "run.keeps (sv_Site S) (Admit S c name mac)"
    "run.keeps (sv_Site S) (Redeem S c token name)" "run.keeps (sv_Site S) (Authenticate S token)"
  unfolding Create_def Reconcile_def Get_def List_tenants_def Egress_def Admit_def Redeem_def Authenticate_def
  by (intro keeps_intros keeps_case_status keeps_wifi keeps_reads keeps_service keeps_getOrNone keeps_ensure
      keeps_createNew keeps_restoreExisting assms; assumption?)+

lemma keeps_delete_steps:
  assumes "others_ok S" "st \<in> set (delete_steps S name rec keys accounts addrs)"
  shows "run.keeps (sv_Site S) (delete_step S name st)"
proof -
  note parts = keeps_intros keeps_service[OF assms(1)] keeps_random keeps_log_dash[OF assms(1)]
    keeps_address_parts[OF assms(1)] keeps_wifi[OF assms(1)]
  have "list_all (\<lambda>st. run.keeps (sv_Site S) (snd st)) (delete_steps S name rec keys accounts addrs)"
    unfolding delete_steps_def by (auto split: option.splits intro!: parts)
  then have "run.keeps (sv_Site S) (snd st)" using assms(2) by (simp add: list_all_iff)
  then show ?thesis unfolding delete_step_def by (intro parts)
qed

lemma keeps_each_in:
  "(\<And>x. x \<in> set xs \<Longrightarrow> run.keeps site (f x)) \<Longrightarrow> run.keeps site (each f xs)"
  by (induction xs) (auto intro!: keeps_intros)

lemma keeps_Delete [store_keeps]: "others_ok S \<Longrightarrow> run.keeps (sv_Site S) (Delete S c name)"
  unfolding Delete_def
  by (intro keeps_each_in keeps_delete_steps keeps_intros keeps_reads keeps_writes keeps_service keeps_lifecycle)

section \<open>Properties of the component\<close>

subsection \<open>Who may create, and who is calling\<close>

text \<open>A second create of a ready tenant changes nothing: without all three of its secrets the call ends in
  an error, no backend is called and the registry is as it was.\<close>

lemma create_ready_refused:
  assumes "alone S" "get_row tn_name (cr_Name req) (tbl_tenants (reg w)) = Some t" "tn_status t = StatusReady"
    and "\<not> suppliesAllSecrets req"
  shows "wp (Create S c req) (\<lambda>(res, e) w'. res = no_result \<and> e \<noteq> None \<and> reg w' = reg w \<and> sent w w' = []) w"
  using assms unfolding Create_def
  by (auto simp: wp_simps same_def record_of_def has_tenant_def intro!: wp_Store_Get split: option.splits)

definition create_eds :: CreateRequest where
  "create_eds = \<lparr>cr_Name = ''eds'', cr_Index = 0, cr_TSIGSecret = [], cr_StateSecret = [], cr_APIToken = []\<rparr>"

lemma sample_row: "get_row tn_name ''eds'' (tbl_tenants (reg sample_world)) = Some (sample_tenant ''eds'' 3)"
  by (simp add: sample_world_def get_row_def sample_tenant_def)

text \<open>A restore is the tenant's own: a request that carries a token the API did not issue for that name,
  or that does not validate, is refused before anything outside the process is touched.\<close>

lemma create_needs_own_token:
  assumes "validateCreate req \<noteq> None \<or> cr_APIToken req \<noteq> [] \<and> Tokens_Verify S (cr_APIToken req) \<noteq> Some (cr_Name req)"
  shows "\<exists>why. run_state (Create S c req) w = ((no_result, Some (InvalidError why)), w)"
proof -
  have "\<exists>why. validateCreate req = Some (InvalidError why)" if "validateCreate req \<noteq> None"
    using that by (auto simp: validateCreate_def split: if_splits)
  with assms show ?thesis by (auto simp: Create_def split: option.splits)
qed

text \<open>C8. A caller is who its token says. While no other request writes the registry (\<open>alone\<close>), \<^verbatim>\<open>Authenticate\<close> accepts a token only if it verifies, for the tenant
  it names; a registered tenant only with the token whose hash the registry holds, so a replaced token is
  refused; and an unregistered name only when it is not in the registry. The one error it reports is the
  secret store being out of reach, and it changes nothing.\<close>

theorem authenticate_correct:
  assumes "alone S"
  shows "wp (Authenticate S token) (\<lambda>r w'. reg w' = reg w \<and> sent w w' = [] \<and>
    (case r of Inl e \<Rightarrow> errors_is e ErrSecretsUnavailable
     | Inr None \<Rightarrow> True
     | Inr (Some caller) \<Rightarrow> Tokens_Verify S token = Some (ca_Tenant caller) \<and>
         (if ca_Registered caller
          then \<exists>t. get_row tn_name (ca_Tenant caller) (tbl_tenants (reg w)) = Some t \<and>
            sec_APITokenHash (tn_secrets t) = HashToken S token
          else \<not> has_tenant (reg w) (ca_Tenant caller)))) w"
proof (cases "Tokens_Verify S token")
  case (Some name)
  show ?thesis
    unfolding Authenticate_def Some option.case
    using assms by (auto simp: wp_simps same_def record_of_def subtleEqual_def Some intro!: wp_Store_Get)
qed (simp add: Authenticate_def wp_simps)

theorem authenticate_correct_witness:
  "alone sample_service \<and>
   wp (Authenticate sample_service ''dvt1.eds.x.y'') (\<lambda>r w'. reg w' = reg sample_world \<and> sent sample_world w' = []) sample_world"
proof -
  have "wp (Authenticate sample_service ''dvt1.eds.x.y'') (\<lambda>r w'. reg w' = reg sample_world \<and> sent sample_world w' = []) sample_world"
    using authenticate_correct[OF sample_alone(1), of "''dvt1.eds.x.y''" sample_world] by (rule wp_mono) simp
  then show ?thesis by simp
qed

subsection \<open>What every step keeps\<close>

text \<open>
  \<open>hashed n h\<close>: the tenant is registered, with this token hash. \<open>trace_ok\<close>: the run only added calls, it
  stopped at the first that failed, and with no error none did.
\<close>

definition hashed :: "string \<Rightarrow> string \<Rightarrow> registry \<Rightarrow> bool" where
  "hashed n h r = (\<exists>t. get_row tn_name n (tbl_tenants r) = Some t \<and> sec_APITokenHash (tn_secrets t) = h)"

definition trace_ok :: "world \<Rightarrow> 'e option \<Rightarrow> world \<Rightarrow> bool" where
  "trace_ok w e w' = (\<exists>evs. trace w' = trace w @ evs \<and> list_all succeeded (butlast evs) \<and>
     (e = None \<longrightarrow> list_all succeeded evs))"

definition step_ok :: "string \<Rightarrow> string \<Rightarrow> (err option) io \<Rightarrow> bool" where
  "step_ok n h m = (\<forall>w. hashed n h (reg w) \<longrightarrow> wp m (\<lambda>e w'. hashed n h (reg w') \<and> trace_ok w e w') w)"

lemma trace_ok_same: "trace w' = trace w \<Longrightarrow> trace_ok w e w'"
  by (simp add: trace_ok_def)

lemma trace_ok_one: "trace w' = trace w @ [ev] \<Longrightarrow> ev_err ev = e \<Longrightarrow> trace_ok w e w'"
  by (auto simp: trace_ok_def succeeded_def)

lemma trace_ok_trans:
  assumes "trace_ok w (None :: 'e option) w1" "trace_ok w1 e w2"
  shows "trace_ok w e w2"
proof -
  obtain a b where "trace w1 = trace w @ a" "list_all succeeded a" "trace w2 = trace w1 @ b"
      "list_all succeeded (butlast b)" "e = None \<longrightarrow> list_all succeeded b"
    using assms by (auto simp: trace_ok_def)
  then show ?thesis
    by (intro trace_ok_def[THEN iffD2] exI[of _ "a @ b"]) (auto simp: butlast_append list_all_iff dest: in_set_butlastD)
qed

lemma trace_ok_weaken: "trace_ok w None w' \<Longrightarrow> trace_ok w e w'"
  by (auto simp: trace_ok_def list_all_iff dest: in_set_butlastD)

lemma step_okD: "step_ok n h m \<Longrightarrow> hashed n h (reg w) \<Longrightarrow> wp m (\<lambda>e w'. hashed n h (reg w') \<and> trace_ok w e w') w"
  by (simp add: step_ok_def)

lemma hashed_update:
  "hashed n h r \<Longrightarrow> (\<And>t. tn_name (f t) = tn_name t) \<Longrightarrow> (\<And>t. sec_APITokenHash (tn_secrets t) = h \<Longrightarrow> sec_APITokenHash (tn_secrets (f t)) = h) \<Longrightarrow>
     hashed n h (r\<lparr>tbl_tenants := update_row tn_name n f (tbl_tenants r)\<rparr>)"
  by (auto simp: hashed_def get_row_update)

lemma upd_tenant_hashed:
  assumes "upd_tenant n f r = Inr (u, r')" "hashed n h r" "\<And>t. tn_name (f t) = tn_name t"
    "\<And>t. sec_APITokenHash (tn_secrets t) = h \<Longrightarrow> sec_APITokenHash (tn_secrets (f t)) = h"
  shows "hashed n h r'"
  using assms hashed_update[of n h r f] by (auto simp: upd_tenant_def execOne_def split: if_splits)

lemma hashed_same: "same w w' \<Longrightarrow> hashed n h (reg w') = hashed n h (reg w)"
  by (simp add: same_def)

lemma wp_upd_tenant:
  assumes "alone S" "hashed n h (reg w)" "\<And>t. tn_name (f t) = tn_name t"
    "\<And>t. sec_APITokenHash (tn_secrets t) = h \<Longrightarrow> sec_APITokenHash (tn_secrets (f t)) = h"
  shows "wp (db S (upd_tenant n f)) (\<lambda>r w'. hashed n h (reg w') \<and> trace w' = trace w) w"
  using assms upd_tenant_hashed[OF _ assms(2), of f] by (intro wp_write) (auto simp: same_def)

lemma wp_seal:
  "(\<And>e w'. same w w' \<Longrightarrow> Q (Inl e) w') \<Longrightarrow> (\<And>s' w'. same w w' \<Longrightarrow> sec_APITokenHash s' = sec_APITokenHash s \<Longrightarrow> Q (Inr s') w') \<Longrightarrow>
     wp (seal S s) Q w"
  by (cases "sv_sealer S") (auto simp: seal_def wp_simps same_def split: sum.split)

lemma wp_SetSecrets:
  assumes "alone S" "hashed n h (reg w)" "sec_APITokenHash s = h"
  shows "wp (Store_SetSecrets S n s) (\<lambda>r w'. hashed n h (reg w') \<and> trace w' = trace w) w"
  unfolding Store_SetSecrets_def tx_set_secrets_def wp_orerr wp_wrap
  using assms by (intro wp_seal) (auto simp: same_def intro!: wp_mono[OF wp_upd_tenant[OF assms(1)]])

lemma wp_tenant_writes:
  assumes "alone S" "hashed n h (reg w)"
  shows "wp (Store_SetStatus S n st) (\<lambda>r w'. hashed n h (reg w') \<and> trace w' = trace w) w"
    "wp (Store_SetDashboardOrg S n org) (\<lambda>r w'. hashed n h (reg w') \<and> trace w' = trace w) w"
    "wp (recordStep S n sp e) (\<lambda>r w'. hashed n h (reg w') \<and> trace w' = trace w) w"
proof -
  show "wp (Store_SetStatus S n st) (\<lambda>r w'. hashed n h (reg w') \<and> trace w' = trace w) w"
    "wp (Store_SetDashboardOrg S n org) (\<lambda>r w'. hashed n h (reg w') \<and> trace w' = trace w) w"
    unfolding Store_SetStatus_def tx_set_status_def Store_SetDashboardOrg_def tx_set_org_def
    by (rule wp_upd_tenant[OF assms]; simp)+
  have "hashed n h r'" if "tx_record_step n sp e (reg w) = Inr (u, r')" for u r'
    using that assms(2) by (auto simp: tx_record_step_def hashed_def Let_def split: if_splits)
  then show "wp (recordStep S n sp e) (\<lambda>r w'. hashed n h (reg w') \<and> trace w' = trace w) w"
    unfolding recordStep_def Store_RecordStep_def wp_bind wp_return
    using assms by (intro wp_write) (auto simp: same_def)
qed

lemma wp_reload:
  assumes "alone S" "hashed (rec_Name rec) h (reg w)" "sec_APITokenHash (rec_Secrets rec) = h"
  shows "wp (reload S rec) (\<lambda>fresh w'. same w w' \<and> rec_Name fresh = rec_Name rec \<and> sec_APITokenHash (rec_Secrets fresh) = h) w"
  using assms unfolding reload_def
  by (auto simp: wp_simps same_def record_of_def hashed_def dest: get_row_Some intro!: wp_Store_Get)

subsection \<open>The steps of ensure\<close>

lemma step_ok_call: "step_ok n h (erro (invoke b c))"
  by (auto simp: step_ok_def wp_erro intro!: wp_call trace_ok_one)

lemma step_ok_ret: "step_ok n h (ret None)"
  by (auto simp: step_ok_def wp_simps trace_ok_same)

lemma step_ok_each: "(\<And>x. step_ok n h (f x)) \<Longrightarrow> step_ok n h (each f xs)"
proof (induction xs)
  case Nil
  show ?case by (simp add: step_ok_ret)
next
  case (Cons x xs)
  have "wp (each f (x # xs)) (\<lambda>e w'. hashed n h (reg w') \<and> trace_ok w e w') w" if "hashed n h (reg w)" for w
    unfolding each.simps wp_bind
    by (rule wp_mono[OF step_okD[OF Cons.prems that]])
      (auto simp: wp_simps split: option.split intro: trace_ok_trans wp_mono[OF step_okD[OF Cons.IH[OF Cons.prems]]])
  then show ?case by (simp add: step_ok_def)
qed

lemma step_ok_network: "step_ok n h (erro (network S rec))"
  by (cases "sv_Network S") (auto simp: network_def step_ok_call step_ok_def wp_simps trace_ok_same
      simp del: wp_invoke intro!: wp_call trace_ok_one)

lemma step_ok_addresses:
  assumes "alone S"
  shows "step_ok n h (ensureAddresses S rv rec)"
proof -
  have one: "step_ok n h (ensure_address S rv rec a)" for a
    unfolding step_ok_def ensure_address_def
    by (auto simp: wp_simps trace_ok_same trace_ok_def succeeded_def simp del: wp_invoke intro!: wp_call)
  show ?thesis
    unfolding step_ok_def ensureAddresses_def Store_ListDeviceAddresses_def tx_tenant_addresses_def wp_tryc
    using assms by (auto simp: same_def wp_simps trace_ok_same trace_ok_def intro!: wp_read
        wp_mono[OF step_okD[OF step_ok_each[OF one]]])
qed

lemma step_ok_log_tokens:
  assumes "alone S" "rec_Name rec = n" "sec_APITokenHash (rec_Secrets rec) = h"
  shows "step_ok n h (erro (ensureLogTokens S rec))"
  unfolding step_ok_def ensureLogTokens_def
  by (cases "sv_LogWriter S")
    (auto simp: wp_simps same_def trace_ok_def succeeded_def Let_def assms(2,3) split: sum.split prod.split simp del: wp_invoke
      intro!: wp_call wp_still[OF still.random_keeps(2)] wp_mono[OF wp_SetSecrets[where h = h, OF assms(1)]])

lemma wp_put_dashboards:
  assumes "alone S" "rec_Name rec = n" "hashed n h (reg v)" "trace v = trace w"
  shows "wp (put_dashboards S dash rec s) (\<lambda>r w'. hashed n h (reg w') \<and> trace_ok w (case r of Inl e \<Rightarrow> Some e | Inr _ \<Rightarrow> None) w') v"
  unfolding put_dashboards_def
  using assms by (auto simp: wp_simps trace_ok_def succeeded_def split: sum.split simp del: wp_invoke
      intro!: wp_call wp_mono[OF wp_tenant_writes(2)[OF assms(1)]])

lemma wp_ensureDashboards:
  assumes "alone S" "rec_Name rec = n" "sec_APITokenHash (rec_Secrets rec) = h" "hashed n h (reg v)" "trace v = trace w"
  shows "wp (ensureDashboards S rec) (\<lambda>r w'. hashed n h (reg w') \<and> trace_ok w (case r of Inl e \<Rightarrow> Some e | Inr _ \<Rightarrow> None) w') v"
proof (cases "sv_Dashboards S")
  case (Some dash)
  show ?thesis
    unfolding ensureDashboards_def Some option.case
    using assms
    by (auto simp: wp_simps same_def trace_ok_same Let_def split: sum.split
        intro!: wp_put_dashboards wp_still[OF still.random_keeps(1)] wp_mono[OF wp_SetSecrets[OF assms(1)]])
qed (use assms in \<open>simp add: ensureDashboards_def wp_simps trace_ok_same\<close>)

lemma step_ok_dashboards:
  assumes "alone S" "rec_Name rec = n" "sec_APITokenHash (rec_Secrets rec) = h"
  shows "step_ok n h (do { fresh \<leftarrow> reload S rec; erro (ensureDashboards S fresh) })"
  unfolding step_ok_def wp_bind wp_erro
  using assms by (auto simp: same_def intro!: wp_mono[OF wp_reload[OF assms(1)]] wp_ensureDashboards)

lemma ensure_steps_ok:
  assumes "alone S" "rec_Name rec = n" "sec_APITokenHash (rec_Secrets rec) = h" "st \<in> set (ensure_steps S rec)"
  shows "step_ok n h (snd st)"
proof -
  have "list_all (\<lambda>st. step_ok n h (snd st)) (ensure_steps S rec)"
    unfolding ensure_steps_def
    by (auto split: option.splits intro!: step_ok_call step_ok_network step_ok_addresses step_ok_log_tokens
        step_ok_dashboards assms(1-3))
  then show ?thesis using assms(4) by (simp add: list_all_iff)
qed

definition has_status :: "string \<Rightarrow> status \<Rightarrow> registry \<Rightarrow> bool" where
  "has_status n st r = (\<exists>t. get_row tn_name n (tbl_tenants r) = Some t \<and> tn_status t = st)"

definition failed_step :: "string \<Rightarrow> step \<Rightarrow> err \<Rightarrow> registry \<Rightarrow> bool" where
  "failed_step n st e r = (\<lparr>sr_tenant = n, sr_step = \<lparr>st_Name = st, st_OK = False, st_Error = Some e\<rparr>\<rparr> \<in> set (tbl_steps r))"

text \<open>What \<^verbatim>\<open>ensure\<close> leaves behind: the statuses, when the database takes every write.\<close>

definition settled :: "string \<Rightarrow> err option \<Rightarrow> registry \<Rightarrow> bool" where
  "settled n e r = (case e of None \<Rightarrow> has_status n StatusReady r
     | Some e \<Rightarrow> (\<exists>st why. e = StepError st why \<and> has_status n StatusProvisioning r \<and> failed_step n st why r))"

lemma wp_status_up:
  assumes "alone S" "db_up S" "hashed n h (reg w)"
  shows "wp (Store_SetStatus S n st)
    (\<lambda>r w'. r = Inr () \<and> trace w' = trace w \<and> hashed n h (reg w') \<and> has_status n st (reg w') \<and> tbl_steps (reg w') = tbl_steps (reg w)) w"
proof -
  let ?f = "\<lambda>t. t\<lparr>tn_status := st\<rparr>"
  have "has_tenant (reg w) n" using assms(3) by (auto simp: hashed_def has_tenant_def)
  moreover have "hashed n h ((reg w)\<lparr>tbl_tenants := update_row tn_name n ?f (tbl_tenants (reg w))\<rparr>)"
    using hashed_update[OF assms(3), of ?f] by simp
  moreover have "has_status n st ((reg w)\<lparr>tbl_tenants := update_row tn_name n ?f (tbl_tenants (reg w))\<rparr>)"
    using assms(3) by (auto simp: hashed_def has_status_def get_row_update)
  ultimately show ?thesis
    unfolding Store_SetStatus_def tx_set_status_def upd_tenant_def using assms(1,2)
    by (intro wp_write_up) (auto simp: execOne_def)
qed

lemma wp_record_up:
  assumes "alone S" "db_up S" "hashed n h (reg w)"
  shows "wp (recordStep S n st (Some e))
    (\<lambda>r w'. trace w' = trace w \<and> hashed n h (reg w') \<and> failed_step n st e (reg w')) w"
proof -
  have "has_tenant (reg w) n" using assms(3) by (auto simp: hashed_def has_tenant_def)
  then show ?thesis
    unfolding recordStep_def Store_RecordStep_def wp_bind wp_return using assms
    by (intro wp_write_up) (auto simp: tx_record_step_def Let_def hashed_def failed_step_def)
qed

lemma wp_recorded:
  assumes "alone S" "hashed n h (reg w)"
  shows "wp (recordStep S n st e)
    (\<lambda>r w'. hashed n h (reg w') \<and> trace w' = trace w \<and> (\<forall>x. db_up S \<longrightarrow> e = Some x \<longrightarrow> failed_step n st x (reg w'))) w"
proof (cases "db_up S \<and> e \<noteq> None")
  case True
  then obtain x where "e = Some x" by blast
  then show ?thesis using wp_record_up[OF assms(1) _ assms(2), of st x] True by (auto elim: wp_mono)
next
  case False
  then show ?thesis by (intro wp_mono[OF wp_tenant_writes(3)[OF assms]]) auto
qed

lemma wp_status_any:
  assumes "alone S" "hashed n h (reg w)"
  shows "wp (Store_SetStatus S n st) (\<lambda>r w'. hashed n h (reg w') \<and> trace w' = trace w \<and>
    (db_up S \<longrightarrow> r = Inr () \<and> has_status n st (reg w') \<and> tbl_steps (reg w') = tbl_steps (reg w))) w"
proof (cases "db_up S")
  case True
  show ?thesis by (intro wp_mono[OF wp_status_up[OF assms(1) True assms(2)]]) auto
next
  case False
  then show ?thesis by (intro wp_mono[OF wp_tenant_writes(1)[OF assms]]) auto
qed

text \<open>The outcome of a run of \<^verbatim>\<open>ensure\<close> from \<open>w\<close>.\<close>

definition ensured :: "service \<Rightarrow> string \<Rightarrow> string \<Rightarrow> world \<Rightarrow> Record \<times> err option \<Rightarrow> world \<Rightarrow> bool" where
  "ensured S n h w res w' = (hashed n h (reg w') \<and> trace_ok w (snd res) w' \<and> rec_Name (fst res) = n \<and>
     (db_up S \<longrightarrow> settled n (snd res) (reg w')))"

lemma wp_ensure_failed:
  assumes "alone S" "hashed n h (reg v)" "rec_Name rec = n" "sec_APITokenHash (rec_Secrets rec) = h"
    and "trace_ok w (Some e) v" "db_up S \<Longrightarrow> failed_step n st e (reg v)"
  shows "wp (do { _ \<leftarrow> Store_SetStatus S n StatusProvisioning; fresh \<leftarrow> reload S rec; ret (fresh, Some (StepError st e)) })
    (ensured S n h w) v"
proof -
  have "ensured S n h w (fresh, Some (StepError st e)) w'"
    if "same v' w'" "rec_Name fresh = n" "hashed n h (reg v')" "trace v' = trace v"
      "db_up S \<longrightarrow> has_status n StatusProvisioning (reg v') \<and> tbl_steps (reg v') = tbl_steps (reg v)" for v' w' fresh
    using that assms(5,6) by (auto simp: ensured_def same_def settled_def failed_step_def trace_ok_def)
  then show ?thesis
    unfolding wp_bind wp_return
    by (intro wp_mono[OF wp_status_any[OF assms(1,2)]] wp_mono[OF wp_reload[OF assms(1)]]) (auto simp: assms(3,4))
qed

lemma wp_ensure_loop:
  assumes "alone S" "rec_Name rec = n" "sec_APITokenHash (rec_Secrets rec) = h" "\<And>st. st \<in> set sts \<Longrightarrow> step_ok n h (snd st)"
    and "hashed n h (reg v)" "trace_ok w (None :: err option) v"
  shows "wp (ensure_loop S rec sts) (ensured S n h w) v"
  using assms(4-6)
proof (induction sts arbitrary: v)
  case Nil
  have "ensured S n h w (fresh, None) w'"
    if "same v' w'" "rec_Name fresh = n" "hashed n h (reg v')" "trace v' = trace v" "db_up S \<longrightarrow> has_status n StatusReady (reg v')" for v' w' fresh
    using that Nil.prems(3) by (auto simp: ensured_def same_def settled_def trace_ok_def)
  moreover have "ensured S n h w (rec, Some e) v'" if "hashed n h (reg v')" "trace v' = trace v" "\<not> db_up S" for v' e
    using that assms(2) trace_ok_weaken[OF Nil.prems(3)] by (auto simp: ensured_def trace_ok_def)
  ultimately show ?case
    unfolding ensure_loop.simps wp_tryc wp_bind wp_return assms(2)
    by (intro wp_mono[OF wp_status_any[OF assms(1) Nil.prems(2)]])
      (auto split: sum.split intro!: wp_mono[OF wp_reload[OF assms(1)]] simp: wp_simps assms(2,3))
next
  case (Cons st sts)
  have step: "step_ok n h (snd st)" and rest: "\<And>x. x \<in> set sts \<Longrightarrow> step_ok n h (snd x)" using Cons.prems by auto
  have go: "wp (case e of None \<Rightarrow> ensure_loop S rec sts | Some e \<Rightarrow> do { _ \<leftarrow> Store_SetStatus S n StatusProvisioning; fresh \<leftarrow> reload S rec;
        ret (fresh, Some (StepError (fst st) e)) }) (ensured S n h w) u'"
    if "trace_ok v e u" "hashed n h (reg u')" "trace u' = trace u" "\<And>x. db_up S \<Longrightarrow> e = Some x \<Longrightarrow> failed_step n (fst st) x (reg u')" for e u u'
  proof -
    have ok: "trace_ok w e u'" using trace_ok_trans[OF Cons.prems(3) that(1)] that(3) by (simp add: trace_ok_def)
    show ?thesis
    proof (cases e)
      case None
      then show ?thesis using Cons.IH[OF rest that(2)] ok by simp
    next
      case (Some x)
      then show ?thesis using wp_ensure_failed[OF assms(1) that(2) assms(2,3)] ok that(4) by simp
    qed
  qed
  show ?case
    unfolding ensure_loop.simps assms(2)
    by (subst wp_bind, rule wp_mono[OF step_okD[OF step Cons.prems(2)]], subst wp_bind,
        rule wp_mono[OF wp_recorded[OF assms(1)]]) (auto intro: go)
qed

lemma trace_ok_refl: "trace_ok w e w"
  by (simp add: trace_ok_same)

text \<open>C27. The common end of a create, a restore and a reconcile, \<^verbatim>\<open>ensure\<close>, leaves a state that says what happened. Called for
  a registered tenant with the token hash in its row, and while no other request writes the registry (\<open>alone\<close>), it stops at the first
  backend call that fails, so every call before it succeeded, and with no error all of them did. When the
  database takes its writes, the tenant is ready exactly when there was no error; otherwise it is
  provisioning, and the step that failed is recorded with its error. The hash of the tenant's API token is
  the one it was called with.\<close>

theorem ensure_settles:
  assumes "alone S" "get_row tn_name (rec_Name rec) (tbl_tenants (reg w)) = Some t"
    and "sec_APITokenHash (tn_secrets t) = sec_APITokenHash (rec_Secrets rec)"
  shows "wp (ensure S rec) (ensured S (rec_Name rec) (sec_APITokenHash (rec_Secrets rec)) w) w"
  unfolding ensure_def
  by (rule wp_ensure_loop[OF assms(1) refl refl ensure_steps_ok]) (use assms in \<open>auto simp: hashed_def trace_ok_refl\<close>)

definition eds_record :: Record where
  "eds_record = record_of (sample_tenant ''eds'' 3) (no_secrets\<lparr>sec_APITokenHash := ''hash''\<rparr>) []"

definition quiet_service :: service where
  "quiet_service = sample_service\<lparr>sv_LogWriter := None, sv_Dashboards := None\<rparr>"

theorem ensure_settles_witness:
  "(case run_state (ensure quiet_service eds_record) sample_world of (r, w') \<Rightarrow> snd r = None \<and> length (sent sample_world w') = 4) \<and>
   wp (ensure quiet_service eds_record) (ensured quiet_service ''eds'' ''hash'' sample_world) sample_world"
proof
  show "case run_state (ensure quiet_service eds_record) sample_world of (r, w') \<Rightarrow> snd r = None \<and> length (sent sample_world w') = 4"
    by code_simp
  have "alone quiet_service" using sample_alone(1) by (simp add: quiet_service_def alone_def)
  then show "wp (ensure quiet_service eds_record) (ensured quiet_service ''eds'' ''hash'' sample_world) sample_world"
    using ensure_settles[of quiet_service eds_record sample_world] sample_row
    by (simp add: eds_record_def record_of_def sample_tenant_def)
qed

end
