(* ===== verification/Certificates.thy ===== *)
theory Certificates
  imports Sequential LogContract "HOL-Library.Multiset"
begin

unbundle bit_operations_syntax

text \<open>
  \<^verbatim>\<open>certificates.go\<close>: the labels a tenant sends and the names they become, what is read of a signing
  request, and what is checked of a signed certificate before it is kept. \<^verbatim>\<open>encoding/pem\<close> and
  \<^verbatim>\<open>crypto/x509\<close> are parameters of the service: decoding answers the first block and the rest, parsing
  answers the fields the code reads. Times are nanoseconds.
\<close>

section \<open>Requests\<close>

definition nanoHour :: int where "nanoHour = 3600 * 1000000000"

definition CertificateRenewBefore :: int where "CertificateRenewBefore = 60 * 24 * nanoHour"
definition maxCertificateNames :: nat where "maxCertificateNames = 8"
definition maxCertificatesPerTenant :: nat where "maxCertificatesPerTenant = 64"
definition maxCertificateLifetime :: int where "maxCertificateLifetime = 366 * 24 * nanoHour + nanoHour"

record CertificateRequest =
  cq_CSR :: string
  cq_Names :: "string list"
  cq_Sites :: "string list"

definition no_certificate :: Certificate where
  "no_certificate = \<lparr>ct_Tenant = [], ct_Name = [], ct_Names = [], ct_KeyFingerprint = [], ct_Serial = [],
     ct_NotBefore = 0, ct_NotAfter = 0, ct_PEM = [], ct_Chain = []\<rparr>"

definition RenewAfter :: "Certificate \<Rightarrow> int" where
  "RenewAfter c = ct_NotAfter c - CertificateRenewBefore"

section \<open>Names\<close>

fun add_sites :: "string list \<Rightarrow> string list \<Rightarrow> string list \<Rightarrow> err + string list" where
  "add_sites allowed out [] = Inr out"
| "add_sites allowed out (site # rest) =
     (if site \<notin> set allowed then Inl (invalid (ForCertificate (RCertSite site allowed)))
      else if site \<in> set out then Inl (invalid (ForCertificate (RCertSiteTwice site)))
      else add_sites allowed (out @ [site]) rest)"

definition certificateSites :: "Site \<Rightarrow> string list \<Rightarrow> err + string list" where
  "certificateSites s asked =
     (if asked = [] then Inr [site_Name s] else add_sites (certificateSites_of s) [] asked)"

definition certificateNames :: "Site \<Rightarrow> string \<Rightarrow> string list \<Rightarrow> string list \<Rightarrow> string list" where
  "certificateNames s tenantName labels sites =
     map (\<lambda>label. label @ ''.'' @ ServiceZone s tenantName) labels @
     concat (map (\<lambda>at. map (\<lambda>label. label @ ''.'' @ SiteZone s tenantName at) labels) sites)"

fun add_labels :: "string list \<Rightarrow> string list \<Rightarrow> err + string list" where
  "add_labels labels [] = Inr labels"
| "add_labels labels (label # rest) =
     (if \<not> ValidWorkloadName label then Inl (invalid (ForCertificate (RCertLabel label)))
      else if label = ''device'' then Inl (invalid (ForCertificate (RCertReserved label)))
      else if label \<in> set labels then Inl (invalid (ForCertificate (RCertTwice label)))
      else add_labels (labels @ [label]) rest)"

definition certificateLabels :: "string \<Rightarrow> string list \<Rightarrow> err + string list" where
  "certificateLabels name others =
     (if \<not> ValidWorkloadName name then Inl (invalid (ForCertificate RCertName))
      else if name = ''device'' then Inl (invalid (ForCertificate (RCertReserved name)))
      else (case add_labels [name] others of Inl e \<Rightarrow> Inl e
        | Inr labels \<Rightarrow>
            if length labels > maxCertificateNames then Inl (invalid (ForCertificate (RCertCount (length labels))))
            else Inr labels))"

section \<open>Signing requests\<close>

definition keyFingerprint :: "service \<Rightarrow> string \<Rightarrow> string" where
  "keyFingerprint S spki = hexEncode (sv_sha256 S spki)"

fun check_key :: "public_key \<Rightarrow> csr_reason option" where
  "check_key (RSAKey bits) = (if bits < 2048 \<or> bits > 8192 then Some (RCSRBits bits) else None)"
| "check_key (ECDSAKey curve) = (if curve \<noteq> ''P-256'' then Some (RCSRCurve curve) else None)"
| "check_key OtherKey = Some RCSRKey"

text \<open>The request re-encoded, and the fingerprint of its key.\<close>

definition parseCertificateRequest :: "service \<Rightarrow> string \<Rightarrow> err + string \<times> string" where
  "parseCertificateRequest S inp =
     (case sv_pem_decode S inp of None \<Rightarrow> Inl (invalid (ForCSR RCSROne))
      | Some (block, rest) \<Rightarrow>
          if pb_type block \<noteq> ''CERTIFICATE REQUEST'' then Inl (invalid (ForCSR RCSROne))
          else if length (TrimSpace rest) \<noteq> 0 then Inl (invalid (ForCSR RCSRAfter))
          else (case sv_parse_csr S (pb_bytes block) of None \<Rightarrow> Inl (invalid (ForCSR RCSRUnreadable))
            | Some csr \<Rightarrow>
                if \<not> csr_CheckSignature csr then Inl (invalid (ForCSR RCSRSignature))
                else (case check_key (csr_PublicKey csr) of Some why \<Rightarrow> Inl (invalid (ForCSR why))
                  | None \<Rightarrow>
                      Inr (sv_pem_encode S \<lparr>pb_type = ''CERTIFICATE REQUEST'', pb_bytes = csr_Raw csr\<rparr>,
                           keyFingerprint S (csr_RawSubjectPublicKeyInfo csr)))))"

section \<open>What the signer returned\<close>

definition sameNames :: "string list \<Rightarrow> string list \<Rightarrow> bool" where
  "sameNames a b = (sort a = sort b)"

text \<open>
  The inner loop of \<^verbatim>\<open>cleanChain\<close>: the PEM blocks of one entry. A block that is decoded leaves less to
  decode, so the length of the entry is enough fuel (\<open>pem_blocks_step\<close>).
\<close>

fun pem_blocks :: "(string \<Rightarrow> (pem_block \<times> string) option) \<Rightarrow> nat \<Rightarrow> string \<Rightarrow> pem_block list" where
  "pem_blocks decode 0 inp = []"
| "pem_blocks decode (Suc n) inp =
     (case decode inp of None \<Rightarrow> [] | Some (block, rest) \<Rightarrow> block # pem_blocks decode n rest)"

definition entry_blocks :: "service \<Rightarrow> string \<Rightarrow> pem_block list" where
  "entry_blocks S entry = pem_blocks (sv_pem_decode S) (Suc (length entry)) entry"

fun clean_blocks :: "service \<Rightarrow> pem_block list \<Rightarrow> string \<Rightarrow> err + string" where
  "clean_blocks S [] out = Inr out"
| "clean_blocks S (block # rest) out =
     (if pb_type block \<noteq> ''CERTIFICATE'' then Inl (ErrOther ''the chain holds something that is not a certificate'')
      else (case sv_parse_cert S (pb_bytes block) of
          None \<Rightarrow> Inl (ErrOther ''unreadable certificate in the chain'')
        | Some ca \<Rightarrow>
            if \<not> x_IsCA ca then Inl (ErrOther ''the chain holds a certificate that is not a CA'')
            else if x_RawSubject ca = x_RawIssuer ca then clean_blocks S rest out
            else clean_blocks S rest (out @ sv_pem_encode S \<lparr>pb_type = ''CERTIFICATE'', pb_bytes = x_Raw ca\<rparr>)))"

definition cleanChain :: "service \<Rightarrow> string list \<Rightarrow> err + string" where
  "cleanChain S entries =
     (case clean_blocks S (concat (map (entry_blocks S) entries)) [] of Inl e \<Rightarrow> Inl e
      | Inr out \<Rightarrow> if length out = 0 then Inl (ErrOther ''no issuing CA came with it'') else Inr out)"

text \<open>\<^verbatim>\<open>SerialNumber.Bytes()\<close> in hex, in pairs; an encoded byte is one pair.\<close>

fun hex_pairs :: "string \<Rightarrow> string list" where
  "hex_pairs (a # b # cs) = [a, b] # hex_pairs cs"
| "hex_pairs [a] = [[a]]"
| "hex_pairs [] = []"

definition serialString :: "x509 \<Rightarrow> string" where
  "serialString c = Join (hex_pairs (hexEncode (x_SerialBytes c))) '':''"

definition ExtKeyUsageServerAuth :: int where "ExtKeyUsageServerAuth = 1"
definition KeyUsageCertSign :: nat where "KeyUsageCertSign = 32"
definition KeyUsageCRLSign :: nat where "KeyUsageCRLSign = 64"

text \<open>The \<^verbatim>\<open>switch\<close> of \<^verbatim>\<open>checkSigned\<close>: the first thing wrong with the leaf.\<close>

definition leaf_fault :: "service \<Rightarrow> x509 \<Rightarrow> string list \<Rightarrow> string \<Rightarrow> int \<Rightarrow> string option" where
  "leaf_fault S leaf names fingerprint now =
     (if keyFingerprint S (x_RawSubjectPublicKeyInfo leaf) \<noteq> fingerprint
      then Some ''it certifies a key other than the one requested''
      else if \<not> sameNames (x_DNSNames leaf) names then Some ''its names are not those asked for''
      else if x_CommonName leaf \<noteq> names ! 0 then Some ''its common name''
      else if length (x_IPAddresses leaf) \<noteq> 0 \<or> length (x_URIs leaf) \<noteq> 0 \<or> length (x_EmailAddresses leaf) \<noteq> 0
      then Some ''it carries a name that is not a DNS name''
      else if x_IsCA leaf then Some ''it is a CA''
      else if length (x_ExtKeyUsage leaf) \<noteq> 1 \<or> x_ExtKeyUsage leaf ! 0 \<noteq> ExtKeyUsageServerAuth \<or>
        length (x_UnknownExtKeyUsage leaf) \<noteq> 0 then Some ''its usage is not server authentication alone''
      else if x_KeyUsage leaf AND (KeyUsageCertSign OR KeyUsageCRLSign) \<noteq> 0 then Some ''it may sign certificates''
      else if \<not> x_NotAfter leaf > now then Some ''it has already expired''
      else if x_NotAfter leaf - x_NotBefore leaf > maxCertificateLifetime then Some ''longer than a year''
      else None)"

definition checkSigned :: "service \<Rightarrow> SignedCertificate \<Rightarrow> string list \<Rightarrow> string \<Rightarrow> int \<Rightarrow> err + Certificate" where
  "checkSigned S sgn_cert names fingerprint now =
     (case sv_pem_decode S (sg_Certificate sgn_cert) of None \<Rightarrow> Inl (ErrOther ''not one PEM certificate'')
      | Some (block, rest) \<Rightarrow>
          if pb_type block \<noteq> ''CERTIFICATE'' \<or> length (TrimSpace rest) \<noteq> 0
          then Inl (ErrOther ''not one PEM certificate'')
          else (case sv_parse_cert S (pb_bytes block) of None \<Rightarrow> Inl (ErrOther ''unreadable certificate'')
            | Some leaf \<Rightarrow>
                (case leaf_fault S leaf names fingerprint now of Some why \<Rightarrow> Inl (ErrOther why)
                 | None \<Rightarrow>
                    (case cleanChain S (sg_Chain sgn_cert) of Inl e \<Rightarrow> Inl e
                     | Inr chain \<Rightarrow>
                         Inr \<lparr>ct_Tenant = [], ct_Name = [], ct_Names = names, ct_KeyFingerprint = fingerprint,
                              ct_Serial = serialString leaf, ct_NotBefore = x_NotBefore leaf,
                              ct_NotAfter = x_NotAfter leaf,
                              ct_PEM = sv_pem_encode S \<lparr>pb_type = ''CERTIFICATE'', pb_bytes = x_Raw leaf\<rparr>,
                              ct_Chain = chain\<rparr>))))"

section \<open>Operations\<close>

definition now :: "service \<Rightarrow> int io" where
  "now S = tick (sv_now S)"

text \<open>The names a request asks for and the request itself, checked before anything is read.\<close>

definition certificate_request ::
  "service \<Rightarrow> string \<Rightarrow> string \<Rightarrow> CertificateRequest \<Rightarrow> err + string list \<times> string \<times> string" where
  "certificate_request S tenantName name req =
     (case certificateLabels name (cq_Names req) of Inl e \<Rightarrow> Inl e
      | Inr labels \<Rightarrow>
     (case certificateSites (sv_Site S) (cq_Sites req) of Inl e \<Rightarrow> Inl e
      | Inr sites \<Rightarrow>
     (case parseCertificateRequest S (cq_CSR req) of Inl e \<Rightarrow> Inl e
      | Inr (csr, fingerprint) \<Rightarrow> Inr (certificateNames (sv_Site S) tenantName labels sites, csr, fingerprint))))"

text \<open>The part of \<^verbatim>\<open>PutCertificate\<close> that has a certificate signed, checks it and keeps it.\<close>

definition issue_certificate ::
  "service \<Rightarrow> ctx \<Rightarrow> SignedCertificate answer \<Rightarrow> string \<Rightarrow> string \<Rightarrow> string list \<Rightarrow> string \<Rightarrow> string \<Rightarrow>
     (err + Certificate \<times> bool) io" where
  "issue_certificate S c sg tenantName name names csr fingerprint =
     tryc (invoke sg (CSignServer csr names)) (\<lambda>e. ret (Inl (StepError StepCertificate e))) (\<lambda>sgn_cert.
     do {
       t \<leftarrow> now S;
       (case checkSigned S sgn_cert names fingerprint t of
          Inl e \<Rightarrow> ret (Inl (StepError StepCertificate e))
        | Inr cert \<Rightarrow>
            orerr (Store_PutCertificate S (cert\<lparr>ct_Tenant := tenantName, ct_Name := name\<rparr>)) (\<lambda>cert.
            do {
              audit S c (ActCertificateIssue name names (ct_Serial cert) fingerprint (ct_NotAfter cert)) tenantName;
              ret (Inr (cert, True))
            }))
     })"

definition PutCertificate ::
  "service \<Rightarrow> ctx \<Rightarrow> string \<Rightarrow> string \<Rightarrow> CertificateRequest \<Rightarrow> (err + Certificate \<times> bool) io" where
  "PutCertificate S c tenantName name req =
     (case sv_Signer S of None \<Rightarrow> ret (Inl (invalid (ForCertificate RNoCertificates)))
      | Some sg \<Rightarrow>
     orerr (Store_Get S tenantName) (\<lambda>rec.
     if rec_Status rec \<noteq> StatusReady then ret (Inl (invalid (ForTenant (RTenantIs tenantName (rec_Status rec)))))
     else (case certificate_request S tenantName name req of Inl e \<Rightarrow> ret (Inl e)
      | Inr (names, csr, fingerprint) \<Rightarrow>
     orerr (getOrNone (Store_GetCertificate S tenantName name)) (\<lambda>found.
     (case found of
        None \<Rightarrow>
          orerr (Store_ListCertificates S tenantName) (\<lambda>held.
          if length held \<ge> maxCertificatesPerTenant
          then ret (Inl (invalid (ForCertificate (RTooManyCertificates (length held)))))
          else issue_certificate S c sg tenantName name names csr fingerprint)
      | Some existing \<Rightarrow>
          if ct_KeyFingerprint existing = fingerprint \<and> ct_Names existing = names then
            do {
              t \<leftarrow> now S;
              (if t < RenewAfter existing then ret (Inr (existing, False))
               else issue_certificate S c sg tenantName name names csr fingerprint)
            }
          else issue_certificate S c sg tenantName name names csr fingerprint)))))"

definition GetCertificate :: "service \<Rightarrow> string \<Rightarrow> string \<Rightarrow> (err + Certificate) io" where
  "GetCertificate S tenantName name = Store_GetCertificate S tenantName name"

definition ListCertificates :: "service \<Rightarrow> string \<Rightarrow> (err + Certificate list) io" where
  "ListCertificates S tenantName = Store_ListCertificates S tenantName"

definition DeleteCertificate :: "service \<Rightarrow> ctx \<Rightarrow> string \<Rightarrow> string \<Rightarrow> (err + unit) io" where
  "DeleteCertificate S c tenantName name =
     orerr (Store_GetCertificate S tenantName name) (\<lambda>cert.
     do {
       audit S c (ActCertificateDelete name (ct_Serial cert) (ct_NotAfter cert)) tenantName;
       Store_DeleteCertificate S tenantName name
     })"

section \<open>Steps kept\<close>

lemma keeps_issue_certificate:
  "others_ok S \<Longrightarrow> run.keeps (sv_Site S) (issue_certificate S c sg tn name names csr fp)"
  unfolding issue_certificate_def now_def
  by (intro keeps_intros keeps_writes keeps_service; assumption)

lemma keeps_certificates [store_keeps]:
  assumes "others_ok S"
  shows "run.keeps (sv_Site S) (PutCertificate S c tn name creq)" "run.keeps (sv_Site S) (GetCertificate S tn name)"
    "run.keeps (sv_Site S) (ListCertificates S tn)" "run.keeps (sv_Site S) (DeleteCertificate S c tn name)"
  unfolding PutCertificate_def GetCertificate_def ListCertificates_def DeleteCertificate_def now_def
  by (intro keeps_intros keeps_issue_certificate keeps_reads keeps_writes keeps_service keeps_getOrNone assms)+

section \<open>Labels and names\<close>

lemma add_labels_sound:
  "add_labels labels rest = Inr out \<Longrightarrow> distinct labels \<Longrightarrow>
     out = labels @ rest \<and> distinct out \<and> (\<forall>l \<in> set rest. ValidWorkloadName l \<and> l \<noteq> ''device'')"
proof (induction labels rest rule: add_labels.induct)
  case (2 labels label rest)
  then show ?case by (auto split: if_splits)
qed auto

lemma certificateLabels_sound:
  assumes "certificateLabels name others = Inr labels"
  shows "labels = name # others" "distinct labels" "length labels \<le> 8"
    "\<forall>l \<in> set labels. ValidWorkloadName l \<and> l \<noteq> ''device''"
  using assms add_labels_sound[of "[name]" others labels]
  by (auto simp: certificateLabels_def maxCertificateNames_def split: if_splits sum.splits)

lemma add_sites_sound:
  "add_sites allowed out asked = Inr sites \<Longrightarrow> distinct out \<Longrightarrow>
     sites = out @ asked \<and> distinct sites \<and> set asked \<subseteq> set allowed"
proof (induction allowed out asked rule: add_sites.induct)
  case (2 allowed out site rest)
  then show ?case by (auto split: if_splits)
qed auto

lemma certificateSites_sound:
  "certificateSites s asked = Inr sites \<Longrightarrow>
     distinct sites \<and> (asked = [] \<longrightarrow> sites = [site_Name s]) \<and>
     (asked \<noteq> [] \<longrightarrow> sites = asked \<and> set sites \<subseteq> set (certificateSites_of s))"
  using add_sites_sound[of "certificateSites_of s" "[]" asked sites]
  by (auto simp: certificateSites_def split: if_splits)

text \<open>
  A name in a certificate is a label, a dot, the tenant's name, a dot, and the root or a site and the
  root: reading up to the second dot gives the tenant back.
\<close>

lemma append_dot_eq:
  "CHR ''.'' \<notin> set a \<Longrightarrow> CHR ''.'' \<notin> set b \<Longrightarrow> a @ CHR ''.'' # x = b @ CHR ''.'' # y \<longleftrightarrow> a = b \<and> x = y"
proof (induction a arbitrary: b)
  case Nil then show ?case by (cases b) auto
next
  case (Cons c a) then show ?case by (cases b) auto
qed

lemma certificateNames_shape:
  "n \<in> set (certificateNames s tn labels sites) \<Longrightarrow>
     \<exists>l z. l \<in> set labels \<and> n = l @ CHR ''.'' # tn @ CHR ''.'' # z"
  by (auto simp: certificateNames_def ServiceZone_def SiteZone_def)

lemma certificateNames_disjoint:
  assumes "\<forall>l \<in> set labels. ValidWorkloadName l" "\<forall>l \<in> set labels'. ValidWorkloadName l"
    and "ValidName t" "ValidName t'" "t \<noteq> t'"
  shows "set (certificateNames s t labels sites) \<inter> set (certificateNames s t' labels' sites') = {}"
proof -
  have "t = t'" if n: "n \<in> set (certificateNames s t labels sites)" "n \<in> set (certificateNames s t' labels' sites')" for n
  proof -
    obtain l z l' z' where "l \<in> set labels" "n = l @ CHR ''.'' # t @ CHR ''.'' # z"
      "l' \<in> set labels'" "n = l' @ CHR ''.'' # t' @ CHR ''.'' # z'"
      using n[THEN certificateNames_shape] by blast
    then show "t = t'"
      using assms ValidName_no_dot[of t] ValidName_no_dot[of t'] ValidWorkloadName_no_dot[of l] ValidWorkloadName_no_dot[of l']
      by (simp add: append_dot_eq)
  qed
  then show ?thesis using assms(5) by blast
qed

section \<open>Chains\<close>

definition pem_shrinks :: "service \<Rightarrow> bool" where
  "pem_shrinks S = (\<forall>inp block rest. sv_pem_decode S inp = Some (block, rest) \<longrightarrow> length rest < length inp)"

lemma pem_blocks_fuel:
  assumes "\<And>inp block rest. decode inp = Some (block, rest) \<Longrightarrow> length rest < length inp"
  shows "length inp < n \<Longrightarrow> length inp < m \<Longrightarrow> pem_blocks decode n inp = pem_blocks decode m inp"
proof (induction n arbitrary: m inp)
  case (Suc n)
  then obtain m' where m: "m = Suc m'" by (cases m) auto
  show ?case
  proof (cases "decode inp")
    case (Some br)
    then have "length (snd br) < length inp" using assms[of inp "fst br" "snd br"] by simp
    then have "pem_blocks decode n (snd br) = pem_blocks decode m' (snd br)" using Suc.prems m by (intro Suc.IH) auto
    then show ?thesis by (cases br) (simp add: m Some)
  qed (simp add: m)
qed simp

lemma entry_blocks_step:
  assumes "pem_shrinks S"
  shows "entry_blocks S entry =
    (case sv_pem_decode S entry of None \<Rightarrow> [] | Some (block, rest) \<Rightarrow> block # entry_blocks S rest)"
proof (cases "sv_pem_decode S entry")
  case (Some br)
  obtain block rest where br: "br = (block, rest)" by (cases br)
  have "length rest < length entry" using assms Some by (simp add: pem_shrinks_def br)
  then have "pem_blocks (sv_pem_decode S) (length entry) rest = entry_blocks S rest"
    unfolding entry_blocks_def using assms by (intro pem_blocks_fuel) (auto simp: pem_shrinks_def)
  then show ?thesis by (simp add: Some br entry_blocks_def)
qed (simp add: entry_blocks_def)

definition chain_entry :: "service \<Rightarrow> pem_block \<Rightarrow> string" where
  "chain_entry S block =
     (case sv_parse_cert S (pb_bytes block) of None \<Rightarrow> []
      | Some ca \<Rightarrow> if x_RawSubject ca = x_RawIssuer ca then []
          else sv_pem_encode S \<lparr>pb_type = ''CERTIFICATE'', pb_bytes = x_Raw ca\<rparr>)"

text \<open>A clean chain is the CAs it came with, in order, less the self-issued ones.\<close>

lemma clean_blocks_sound:
  "clean_blocks S blocks out = Inr chain \<Longrightarrow>
     chain = out @ concat (map (chain_entry S) blocks) \<and>
     (\<forall>b \<in> set blocks. pb_type b = ''CERTIFICATE'' \<and> (\<exists>ca. sv_parse_cert S (pb_bytes b) = Some ca \<and> x_IsCA ca))"
proof (induction blocks arbitrary: out)
  case (Cons b bs)
  from Cons.prems obtain ca where b: "pb_type b = ''CERTIFICATE''" "sv_parse_cert S (pb_bytes b) = Some ca" "x_IsCA ca"
      "clean_blocks S bs (out @ chain_entry S b) = Inr chain"
    by (auto simp: chain_entry_def split: if_splits option.splits)
  then show ?case using Cons.IH[OF b(4)] by simp
qed simp

section \<open>A certificate that is kept is the one asked for\<close>

lemma leaf_fault_None:
  assumes "leaf_fault S leaf names fp t = None"
  shows "keyFingerprint S (x_RawSubjectPublicKeyInfo leaf) = fp" "sort (x_DNSNames leaf) = sort names"
    "x_CommonName leaf = names ! 0" "x_IPAddresses leaf = []" "x_URIs leaf = []" "x_EmailAddresses leaf = []"
    "\<not> x_IsCA leaf" "x_ExtKeyUsage leaf = [ExtKeyUsageServerAuth]" "x_UnknownExtKeyUsage leaf = []"
    "\<not> bit (x_KeyUsage leaf) 5" "\<not> bit (x_KeyUsage leaf) 6"
    "t < x_NotAfter leaf" "x_NotAfter leaf - x_NotBefore leaf \<le> maxCertificateLifetime"
proof -
  have usage: "x_KeyUsage leaf AND 96 = 0"
    using assms by (simp add: leaf_fault_def KeyUsageCertSign_def KeyUsageCRLSign_def split: if_splits)
  have "bit (x_KeyUsage leaf AND 96) 5 = bit (x_KeyUsage leaf) 5" "bit (x_KeyUsage leaf AND 96) 6 = bit (x_KeyUsage leaf) 6"
    by (simp_all add: bit_and_iff bit_0)
  then show "\<not> bit (x_KeyUsage leaf) 5" "\<not> bit (x_KeyUsage leaf) 6" using usage by simp_all
  have one: "length xs = 1 \<Longrightarrow> xs = [xs ! 0]" for xs :: "int list" by (cases xs) auto
  show "x_ExtKeyUsage leaf = [ExtKeyUsageServerAuth]"
    using assms one[of "x_ExtKeyUsage leaf"] by (simp add: leaf_fault_def split: if_splits)
qed (use assms in \<open>simp_all add: leaf_fault_def sameNames_def split: if_splits\<close>)

lemma checkSigned_leaf:
  assumes "checkSigned S sgn_cert names fp t = Inr cert"
  obtains block rest leaf where "sv_pem_decode S (sg_Certificate sgn_cert) = Some (block, rest)"
    "pb_type block = ''CERTIFICATE''" "sv_parse_cert S (pb_bytes block) = Some leaf"
    "leaf_fault S leaf names fp t = None"
    "ct_PEM cert = sv_pem_encode S \<lparr>pb_type = ''CERTIFICATE'', pb_bytes = x_Raw leaf\<rparr>"
    "ct_NotBefore cert = x_NotBefore leaf" "ct_NotAfter cert = x_NotAfter leaf"
    "ct_Names cert = names" "ct_KeyFingerprint cert = fp"
    "cleanChain S (sg_Chain sgn_cert) = Inr (ct_Chain cert)" "ct_Serial cert = serialString leaf"
  using assms by (auto simp: checkSigned_def split: option.splits prod.splits if_splits sum.splits)

lemma parseCertificateRequest_sound:
  assumes "parseCertificateRequest S inp = Inr (pem, fp)"
  obtains block rest q where "sv_pem_decode S inp = Some (block, rest)" "sv_parse_csr S (pb_bytes block) = Some q"
    "csr_CheckSignature q" "check_key (csr_PublicKey q) = None"
    "pem = sv_pem_encode S \<lparr>pb_type = ''CERTIFICATE REQUEST'', pb_bytes = csr_Raw q\<rparr>"
    "fp = keyFingerprint S (csr_RawSubjectPublicKeyInfo q)"
  using assms by (auto simp: parseCertificateRequest_def split: option.splits prod.splits if_splits)

section \<open>Properties of the component\<close>

text \<open>The zones a tenant may be certified in: its own below the root, and its own at the sites issued for.\<close>

definition own_zone :: "Site \<Rightarrow> string \<Rightarrow> string \<Rightarrow> bool" where
  "own_zone s t z = (z = ServiceZone s t \<or>
     (\<exists>at. (at = site_Name s \<or> at \<in> set (certificateSites_of s)) \<and> z = SiteZone s t at))"

lemma certificateNames_own_zone:
  assumes "certificateLabels name others = Inr labels" "certificateSites s asked = Inr sites"
    and "n \<in> set (certificateNames s t labels sites)"
  shows "\<exists>l z. ValidWorkloadName l \<and> n = l @ ''.'' @ z \<and> own_zone s t z"
proof -
  have sites: "own_zone s t (SiteZone s t at)" if "at \<in> set sites" for at
    using certificateSites_sound[OF assms(2)] that by (cases "asked = []") (auto simp: own_zone_def)
  have "\<exists>l z. l \<in> set labels \<and> n = l @ ''.'' @ z \<and> own_zone s t z"
    using assms(3) sites by (auto simp: certificateNames_def) (auto simp: own_zone_def)
  then show ?thesis using certificateLabels_sound(4)[OF assms(1)] by blast
qed

text \<open>No two tenants can be certified for one name, and no tenant for a name outside its own: every name
  a request of a tenant becomes is a label below the tenant's own name below the root, directly or at a
  site the API issues for, and the names of two tenants never meet.\<close>

lemma certificate_names_own:
  assumes "certificate_request S t name req = Inr (names, csr, fp)" "ValidName t"
    and "certificate_request S t' name' req' = Inr (names', csr', fp')" "ValidName t'" "t \<noteq> t'"
  shows "set names \<inter> set names' = {} \<and>
    list_all (\<lambda>n. \<exists>l z. ValidWorkloadName l \<and> n = l @ ''.'' @ z \<and> own_zone (sv_Site S) t z) names"
proof -
  obtain labels sites where l: "certificateLabels name (cq_Names req) = Inr labels"
      "certificateSites (sv_Site S) (cq_Sites req) = Inr sites" "names = certificateNames (sv_Site S) t labels sites"
    using assms(1) by (auto simp: certificate_request_def split: sum.splits)
  obtain labels' sites' where l': "certificateLabels name' (cq_Names req') = Inr labels'"
      "names' = certificateNames (sv_Site S) t' labels' sites'"
    using assms(3) by (auto simp: certificate_request_def split: sum.splits)
  have "\<forall>l \<in> set labels. ValidWorkloadName l" "\<forall>l \<in> set labels'. ValidWorkloadName l"
    using certificateLabels_sound(4)[OF l(1)] certificateLabels_sound(4)[OF l'(1)] by auto
  then have "set names \<inter> set names' = {}"
    unfolding l(3) l'(2) using assms(2,4,5) by (intro certificateNames_disjoint)
  then show ?thesis
    using certificateNames_own_zone[OF l(1,2)] unfolding l(3) list_all_iff by blast
qed

text \<open>A signing request that always parses, for the witnesses.\<close>

definition signing_service :: service where
  "signing_service = sample_service\<lparr>sv_parse_csr := (\<lambda>s. Some \<lparr>csr_Raw = s, csr_RawSubjectPublicKeyInfo = ''key'',
     csr_PublicKey = ECDSAKey ''P-256'', csr_CheckSignature = True\<rparr>), sv_now := (\<lambda>_. 5)\<rparr>"

definition sample_csr :: CertificateRequest where
  "sample_csr = \<lparr>cq_CSR = ''csr'', cq_Names = [''www''], cq_Sites = []\<rparr>"

lemma sample_certificate_request:
  "certificate_request signing_service tn ''app'' sample_csr =
     Inr (certificateNames sample_site tn [''app'', ''www''] [''dvnt''], ''-sr'', hexEncode ''key'')"
proof -
  have "certificateLabels ''app'' [''www''] = Inr [''app'', ''www'']" by code_simp
  then show ?thesis
    by (simp add: certificate_request_def sample_csr_def certificateSites_def sample_site_def parseCertificateRequest_def
        signing_service_def sample_service_def TrimSpace_def keyFingerprint_def)
qed

text \<open>A certificate the API keeps says what was asked and no more: when \<^verbatim>\<open>checkSigned\<close> accepts, the leaf
  in the signer's answer certifies the requested key and exactly the requested names (the first as common
  name), carries no name that is not a DNS name, is no CA and may sign nothing, serves for server
  authentication alone, has not expired and is valid for a year and an hour at most; and the chain kept
  is the CAs that came with it, less the self-issued ones, and not empty.\<close>

lemma kept_certificate_as_asked:
  assumes "checkSigned S sgn_cert names fp t = Inr cert"
  shows "\<exists>block rest leaf. sv_pem_decode S (sg_Certificate sgn_cert) = Some (block, rest) \<and>
    sv_parse_cert S (pb_bytes block) = Some leaf \<and>
    keyFingerprint S (x_RawSubjectPublicKeyInfo leaf) = fp \<and> mset (x_DNSNames leaf) = mset names \<and>
    x_CommonName leaf = names ! 0 \<and> x_IPAddresses leaf = [] \<and> x_URIs leaf = [] \<and> x_EmailAddresses leaf = [] \<and>
    \<not> x_IsCA leaf \<and> x_ExtKeyUsage leaf = [ExtKeyUsageServerAuth] \<and> x_UnknownExtKeyUsage leaf = [] \<and>
    \<not> bit (x_KeyUsage leaf) 5 \<and> \<not> bit (x_KeyUsage leaf) 6 \<and>
    t < x_NotAfter leaf \<and> x_NotAfter leaf - x_NotBefore leaf \<le> maxCertificateLifetime \<and>
    ct_Names cert = names \<and> ct_KeyFingerprint cert = fp \<and> ct_NotAfter cert = x_NotAfter leaf \<and>
    ct_Chain cert = concat (map (chain_entry S) (concat (map (entry_blocks S) (sg_Chain sgn_cert)))) \<and> ct_Chain cert \<noteq> []"
proof -
  obtain block rest leaf where l: "sv_pem_decode S (sg_Certificate sgn_cert) = Some (block, rest)"
    "sv_parse_cert S (pb_bytes block) = Some leaf" "leaf_fault S leaf names fp t = None"
    "ct_NotAfter cert = x_NotAfter leaf" "ct_Names cert = names" "ct_KeyFingerprint cert = fp"
    "cleanChain S (sg_Chain sgn_cert) = Inr (ct_Chain cert)"
    using assms by (rule checkSigned_leaf)
  have "mset (x_DNSNames leaf) = mset names" using leaf_fault_None(2)[OF l(3)] by (metis mset_sort)
  moreover have "clean_blocks S (concat (map (entry_blocks S) (sg_Chain sgn_cert))) [] = Inr (ct_Chain cert)" "ct_Chain cert \<noteq> []"
    using l(7) by (auto simp: cleanChain_def split: sum.splits if_splits)
  ultimately show ?thesis
    using l leaf_fault_None[OF l(3)] clean_blocks_sound by fastforce
qed

text \<open>A signer's answer for the witness: a leaf \<^verbatim>\<open>L\<close> and a chain of an issuing CA \<^verbatim>\<open>I\<close> and a root \<^verbatim>\<open>R\<close>.\<close>

definition plain_x509 :: "string \<Rightarrow> x509" where
  "plain_x509 raw = \<lparr>x_Raw = raw, x_RawSubjectPublicKeyInfo = ''key'', x_RawSubject = raw, x_RawIssuer = ''R'',
     x_CommonName = ''app.eds.deevnet.net'', x_DNSNames = [''app.dvnt.eds.deevnet.net'', ''app.eds.deevnet.net''],
     x_IPAddresses = [], x_URIs = [], x_EmailAddresses = [], x_IsCA = (raw \<noteq> ''L''), x_ExtKeyUsage = [1],
     x_UnknownExtKeyUsage = [], x_KeyUsage = 1, x_NotBefore = 0, x_NotAfter = 1000, x_SerialBytes = ''s''\<rparr>"

definition checking_service :: service where
  "checking_service = sample_service\<lparr>
     sv_pem_decode := (\<lambda>s. case s of [] \<Rightarrow> None | c # cs \<Rightarrow> Some (\<lparr>pb_type = ''CERTIFICATE'', pb_bytes = [c]\<rparr>, cs)),
     sv_pem_encode := pb_bytes, sv_parse_cert := (\<lambda>s. Some (plain_x509 s))\<rparr>"

section \<open>Issuing\<close>

text \<open>Asking again is free: with the certificate in the registry for the same key and the same names and
  more than 60 days to its expiry, \<^verbatim>\<open>PutCertificate\<close> returns it, calls no signer and changes nothing.\<close>

lemma certificate_repeat_unchanged:
  assumes "alone S" "sv_Signer S \<noteq> None" "certificate_request S tn name req = Inr (ct_Names old, csr, ct_KeyFingerprint old)"
    and "get_row ct_key (tn, name) (tbl_certificates (reg w)) = Some old" "\<And>n. sv_now S n < RenewAfter old"
  shows "wp (PutCertificate S c tn name req)
    (\<lambda>r w'. reg w' = reg w \<and> sent w w' = [] \<and> (case r of Inr x \<Rightarrow> x = (old, False) | Inl e \<Rightarrow> True)) w"
  using assms unfolding PutCertificate_def Store_GetCertificate_def tx_certificate_def now_def
  by (auto simp: wp_simps same_def intro!: wp_Store_Get wp_get split: option.splits)

definition held_certificate :: Certificate where
  "held_certificate = no_certificate\<lparr>ct_Tenant := ''eds'', ct_Name := ''app'',
     ct_Names := certificateNames sample_site ''eds'' [''app'', ''www''] [''dvnt''],
     ct_KeyFingerprint := hexEncode ''key'', ct_NotAfter := CertificateRenewBefore + 10\<rparr>"

definition certified_world :: world where
  "certified_world = sample_world\<lparr>reg := (reg sample_world)\<lparr>tbl_certificates := [held_certificate]\<rparr>\<rparr>"

lemma put_certificate_row:
  assumes "tx_put_certificate x r = Inr (out, r')"
  shows "get_row ct_key (ct_Tenant x, ct_Name x) (tbl_certificates r') = Some out" "ct_Names out = ct_Names x"
    "ct_KeyFingerprint out = ct_KeyFingerprint x"
  using assms
  by (auto simp: tx_put_certificate_def Let_def certificates.get_upsert ct_key_def ct_update_def
      split: if_splits option.splits dest: get_row_Some)

definition issued_ok :: "service \<Rightarrow> string \<Rightarrow> string \<Rightarrow> CertificateRequest \<Rightarrow> world \<Rightarrow> (err + Certificate \<times> bool) \<Rightarrow> world \<Rightarrow> bool" where
  "issued_ok S tn name req w r w' =
     (length (sent w w') \<le> 1 \<and>
      list_all (\<lambda>ev. \<exists>names csr fp. certificate_request S tn name req = Inr (names, csr, fp) \<and>
        ev_call ev = CSignServer csr names) (sent w w') \<and>
      (case r of Inr (cert, True) \<Rightarrow> get_row ct_key (tn, name) (tbl_certificates (reg w')) = Some cert \<and>
         (\<exists>csr. certificate_request S tn name req = Inr (ct_Names cert, csr, ct_KeyFingerprint cert)) | _ \<Rightarrow> True))"

lemma wp_Store_PutCertificate:
  assumes "alone S" "\<And>e w'. trace w' = trace w \<Longrightarrow> Q (Inl e) w'"
    and "\<And>out w'. trace w' = trace w \<Longrightarrow> get_row ct_key (ct_Tenant x, ct_Name x) (tbl_certificates (reg w')) = Some out \<Longrightarrow>
      ct_Names out = ct_Names x \<Longrightarrow> ct_KeyFingerprint out = ct_KeyFingerprint x \<Longrightarrow> Q (Inr out) w'"
  shows "wp (Store_PutCertificate S x) Q w"
  unfolding Store_PutCertificate_def
  by (rule wp_write[OF assms(1)]) (auto simp: same_def assms(2) intro!: assms(3) dest: put_certificate_row)

lemma wp_issue_certificate:
  assumes "alone S" "trace v = trace w" "certificate_request S tn name req = Inr (names, csr, fp)"
  shows "wp (issue_certificate S c sg tn name names csr fp) (issued_ok S tn name req w) v"
proof -
  have asked: "ct_Names cert = names \<and> ct_KeyFingerprint cert = fp" if "checkSigned S sgn_cert names fp t = Inr cert" for sgn_cert t cert
    using checkSigned_leaf[OF that] by blast
  show ?thesis
    unfolding issue_certificate_def now_def
    by (auto simp: wp_simps issued_ok_def assms(2,3) same_def split: sum.split simp del: wp_invoke
        intro!: wp_call wp_Store_PutCertificate[OF assms(1)] wp_audit[OF assms(1)] dest!: asked)
qed

text \<open>The signer is asked at most once in a call, for the names the request stands for and nothing else,
  and a certificate the call issued is in the registry, for those names and that key.\<close>

lemma signer_asked_for_request_only:
  assumes "alone S"
  shows "wp (PutCertificate S c tn name req) (issued_ok S tn name req w) w"
proof -
  have quiet: "trace w' = trace w \<Longrightarrow> issued_ok S tn name req w (Inl e) w'"
    "trace w' = trace w \<Longrightarrow> issued_ok S tn name req w (Inr (x, False)) w'" for e x w'
    by (simp_all add: issued_ok_def)
  show ?thesis
    using assms
    unfolding PutCertificate_def Store_GetCertificate_def tx_certificate_def Store_ListCertificates_def tx_certificates_def now_def
    by (auto simp: wp_simps same_def quiet split: option.split sum.split
        intro!: wp_Store_Get wp_get wp_read wp_issue_certificate)
qed

end
