(* ===== verification/Views.thy ===== *)
theory Views
  imports Lifecycle Certificates
begin

text \<open>
  What the API answers with (\<^verbatim>\<open>internal/server\<close>): the view types, how a record is rendered, and the bodies a
  response can carry. The time stamps are left out; a JSON \<^verbatim>\<open>omitempty\<close> is the empty value of the field. An
  error body is its message: a text of the source, the reason of an \<^verbatim>\<open>InvalidError\<close>, or the step a
  \<^verbatim>\<open>StepError\<close> names.
\<close>

section \<open>Tenants\<close>

record networkView =
  nv_VRFVNI :: int
  nv_VNetVNIBase :: int
  nv_Subnet :: string
  nv_Gateway :: string

record fabricView =
  fv_ControllerID :: string
  fv_Node :: string

record dnsView =
  vd_Zone :: string
  vd_ReverseZone :: string
  vd_UpdateServer :: string
  vd_TSIGKeyName :: string
  vd_TSIGAlgorithm :: string
  vd_TSIGSecret :: string

record stateView =
  sv_Endpoint :: string
  sv_Bucket :: string
  sv_KeyPrefix :: string
  sv_AccessKey :: string
  sv_SecretKey :: string

record logView =
  lv_Endpoint :: string
  lv_AccountID :: int
  lv_IngestToken :: string
  lv_ReadToken :: string
  lv_SelectHeader :: string

record dashboardView =
  dv_URL :: string
  dv_OrgID :: int
  dv_Username :: string
  dv_Password :: string

record stepView =
  sp_Name :: step
  sp_OK :: bool

record tenantView =
  tv_Name :: string
  tv_Index :: int
  tv_Status :: status
  tv_Outcome :: "Outcome option"
  tv_Network :: networkView
  tv_Fabric :: fabricView
  tv_DNS :: dnsView
  tv_State :: stateView
  tv_Log :: logView
  tv_Dashboard :: dashboardView
  tv_APIToken :: string
  tv_SecretsStored :: bool
  tv_Steps :: "stepView list"

definition no_dashboard :: dashboardView where
  "no_dashboard = \<lparr>dv_URL = [], dv_OrgID = 0, dv_Username = [], dv_Password = []\<rparr>"

definition dashboard_view :: "Site \<Rightarrow> Record \<Rightarrow> dashboardView" where
  "dashboard_view site rec =
     (if site_DashboardURL site = [] \<or> rec_DashboardOrg rec = 0 then no_dashboard
      else \<lparr>dv_URL = site_DashboardURL site, dv_OrgID = rec_DashboardOrg rec, dv_Username = rec_Name rec, dv_Password = []\<rparr>)"

definition plain_view :: "Site \<Rightarrow> Record \<Rightarrow> Outcome option \<Rightarrow> tenantView" where
  "plain_view site rec outcome =
     (let n = Numbering_of site (rec_Index rec) in
      \<lparr>tv_Name = rec_Name rec, tv_Index = rec_Index rec, tv_Status = rec_Status rec, tv_Outcome = outcome,
       tv_Network = \<lparr>nv_VRFVNI = num_VRFVNI n, nv_VNetVNIBase = num_VNetVNIBase n, nv_Subnet = num_Subnet n, nv_Gateway = num_Gateway n\<rparr>,
       tv_Fabric = \<lparr>fv_ControllerID = site_ControllerID site, fv_Node = site_Node site\<rparr>,
       tv_DNS = \<lparr>vd_Zone = Zone site (rec_Name rec), vd_ReverseZone = num_ReverseZone n, vd_UpdateServer = site_DNSUpdateServer site,
         vd_TSIGKeyName = rec_Name rec, vd_TSIGAlgorithm = ''hmac-sha256'', vd_TSIGSecret = []\<rparr>,
       tv_State = \<lparr>sv_Endpoint = site_StateEndpoint site, sv_Bucket = site_StateBucket site,
         sv_KeyPrefix = ''tenants/'' @ rec_Name rec @ ''/'', sv_AccessKey = rec_Name rec, sv_SecretKey = []\<rparr>,
       tv_Log = \<lparr>lv_Endpoint = site_LogEndpoint site, lv_AccountID = rec_Index rec, lv_IngestToken = [], lv_ReadToken = [],
         lv_SelectHeader = ''X-Deevnet-Partition''\<rparr>,
       tv_Dashboard = dashboard_view site rec,
       tv_APIToken = [], tv_SecretsStored = (\<not> sec_Unreadable (rec_Secrets rec)),
       tv_Steps = map (\<lambda>s. \<lparr>sp_Name = st_Name s, sp_OK = st_OK s\<rparr>) (rec_Steps rec)\<rparr>)"

text \<open>The \<^verbatim>\<open>if issued != nil\<close> of \<^verbatim>\<open>view\<close>.\<close>

definition with_issued :: "tenantView \<Rightarrow> Issued \<Rightarrow> tenantView" where
  "with_issued v issued =
     v\<lparr>tv_DNS := (tv_DNS v)\<lparr>vd_TSIGSecret := is_TSIGSecret issued\<rparr>,
       tv_State := (tv_State v)\<lparr>sv_SecretKey := is_StateSecret issued\<rparr>,
       tv_APIToken := is_APIToken issued,
       tv_Log := (tv_Log v)\<lparr>lv_IngestToken := is_LogIngestToken issued, lv_ReadToken := is_LogReadToken issued\<rparr>,
       tv_Dashboard := (if dv_Username (tv_Dashboard v) \<noteq> [] then (tv_Dashboard v)\<lparr>dv_Password := is_DashboardPassword issued\<rparr>
         else tv_Dashboard v)\<rparr>"

definition view :: "Site \<Rightarrow> Record \<Rightarrow> Outcome option \<Rightarrow> Issued option \<Rightarrow> tenantView" where
  "view site rec outcome issued =
     (case issued of None \<Rightarrow> plain_view site rec outcome | Some i \<Rightarrow> with_issued (plain_view site rec outcome) i)"

section \<open>What a tenant holds\<close>

record workloadView =
  vw_Tenant :: string
  vw_Name :: string
  vw_FQDN :: string
  vw_LoginUser :: string
  vw_Status :: status
  vw_Ordinal :: int
  vw_VMID :: int
  vw_MAC :: string
  vw_Address :: string
  vw_Cores :: int
  vw_MemoryMB :: int
  vw_DiskGB :: int

definition workloadView_of :: "Site \<Rightarrow> Workload \<Rightarrow> workloadView" where
  "workloadView_of site w = \<lparr>vw_Tenant = wl_Tenant w, vw_Name = wl_Name w, vw_FQDN = wl_Name w @ ''.'' @ Zone site (wl_Tenant w),
     vw_LoginUser = site_CIUser site, vw_Status = wl_Status w, vw_Ordinal = wl_Ordinal w, vw_VMID = wl_VMID w, vw_MAC = wl_MAC w,
     vw_Address = wl_Address w, vw_Cores = wl_Cores w, vw_MemoryMB = wl_MemoryMB w, vw_DiskGB = wl_DiskGB w\<rparr>"

record recordView =
  rw_Name :: string
  rw_FQDN :: string
  rw_Address :: string

definition recordView_of :: "Site \<Rightarrow> string \<Rightarrow> string \<Rightarrow> string \<Rightarrow> recordView" where
  "recordView_of site tn name address = \<lparr>rw_Name = name, rw_FQDN = name @ ''.'' @ Zone site tn, rw_Address = address\<rparr>"

record wifiKeyView =
  kv_Tenant :: string
  kv_Name :: string
  kv_TrustClass :: string
  kv_SSID :: string
  kv_VLAN :: int
  kv_MAC :: string
  kv_Status :: status
  kv_PSK :: string
  kv_SecretsStored :: bool

definition wifiKeyViewOf :: "IssuedWiFiKey \<Rightarrow> bool \<Rightarrow> wifiKeyView" where
  "wifiKeyViewOf ik issued =
     (let k = iw_Key ik in
      \<lparr>kv_Tenant = wk_Tenant k, kv_Name = wk_Name k, kv_TrustClass = wk_TrustClass k, kv_SSID = iw_SSID ik, kv_VLAN = iw_VLAN ik,
       kv_MAC = wk_MAC k, kv_Status = wk_Status k, kv_PSK = (if issued then wk_PSK k else []), kv_SecretsStored = (\<not> wk_Unreadable k)\<rparr>)"

record deviceView =
  ev_Tenant :: string
  ev_Name :: string
  ev_TrustClass :: string
  ev_MAC :: string
  ev_Status :: status

definition deviceViewOf :: "Device \<Rightarrow> deviceView" where
  "deviceViewOf d = \<lparr>ev_Tenant = dv_Tenant d, ev_Name = dv_Name d, ev_TrustClass = dv_TrustClass d, ev_MAC = dv_MAC d, ev_Status = dv_Status d\<rparr>"

record addressView =
  av_Tenant :: string
  av_Device :: string
  av_TrustClass :: string
  av_Address :: string
  av_MAC :: string
  av_FQDN :: string
  av_Status :: status

definition addressViewOf :: "IssuedAddress \<Rightarrow> addressView" where
  "addressViewOf ia =
     (let a = ia_Address ia in
      \<lparr>av_Tenant = da_Tenant a, av_Device = da_Device a, av_TrustClass = da_TrustClass a, av_Address = da_Address a,
       av_MAC = da_MAC a, av_FQDN = ia_FQDN ia, av_Status = da_Status a\<rparr>)"

record brokerAccountView =
  bv_Tenant :: string
  bv_Name :: string
  bv_Device :: string
  bv_Username :: string
  bv_Publish :: "string list"
  bv_Subscribe :: "string list"
  bv_Status :: status
  bv_Password :: string

definition brokerAccountViewOf :: "IssuedBrokerAccount \<Rightarrow> bool \<Rightarrow> brokerAccountView" where
  "brokerAccountViewOf ib issued =
     (let a = ib_Account ib in
      \<lparr>bv_Tenant = ba_Tenant a, bv_Name = ba_Name a, bv_Device = ba_Device a, bv_Username = ib_Username ib,
       bv_Publish = ba_Publish a, bv_Subscribe = ba_Subscribe a, bv_Status = ba_Status a,
       bv_Password = (if issued then ib_Password ib else [])\<rparr>)"

record certificateView =
  cv_Tenant :: string
  cv_Name :: string
  cv_FQDN :: string
  cv_Names :: "string list"
  cv_Certificate :: string
  cv_CAChain :: string
  cv_Serial :: string
  cv_KeyFingerprint :: string
  cv_NotBefore :: int
  cv_NotAfter :: int
  cv_RenewAfter :: int

definition certificateViewOf :: "Certificate \<Rightarrow> certificateView" where
  "certificateViewOf c = \<lparr>cv_Tenant = ct_Tenant c, cv_Name = ct_Name c,
     cv_FQDN = (case ct_Names c of [] \<Rightarrow> [] | n # _ \<Rightarrow> n), cv_Names = ct_Names c, cv_Certificate = ct_PEM c, cv_CAChain = ct_Chain c,
     cv_Serial = ct_Serial c, cv_KeyFingerprint = ct_KeyFingerprint c, cv_NotBefore = ct_NotBefore c, cv_NotAfter = ct_NotAfter c,
     cv_RenewAfter = RenewAfter c\<rparr>"

section \<open>Responses\<close>

datatype message = MText string | MInvalid reason | MStep step

datatype body =
    NoBody
  | BError message
  | BAdmission string string int "AdmissionWiFi option"
  | BTenant tenantView
  | BTenants "tenantView list"
  | BTenantStep message tenantView
  | BEgress "EgressVRF list"
  | BWorkload workloadView
  | BWorkloads "workloadView list"
  | BWorkloadStep message workloadView
  | BRecord recordView
  | BRecords "recordView list"
  | BWiFiKey wifiKeyView
  | BWiFiKeys "wifiKeyView list"
  | BWiFiKeyStep message wifiKeyView
  | BDevice deviceView
  | BDevices "deviceView list"
  | BAddress addressView
  | BAddressStep message addressView
  | BAccount brokerAccountView
  | BAccounts "brokerAccountView list"
  | BAccountStep message brokerAccountView
  | BCertificate certificateView
  | BCertificates "certificateView list"
  | BStatus "(string \<times> string) list"

record response =
  resp_Status :: nat
  resp_Body :: body

text \<open>What a response discloses: every secret any of its views carries.\<close>

definition tenant_secrets :: "tenantView \<Rightarrow> string list" where
  "tenant_secrets v = [vd_TSIGSecret (tv_DNS v), sv_SecretKey (tv_State v), tv_APIToken v, lv_IngestToken (tv_Log v),
     lv_ReadToken (tv_Log v), dv_Password (tv_Dashboard v)]"

fun disclosed :: "body \<Rightarrow> string list" where
  "disclosed (BAdmission _ tok _ wifi) = tok # (case wifi of None \<Rightarrow> [] | Some a \<Rightarrow> [aw_PSK a])"
| "disclosed (BTenant v) = tenant_secrets v"
| "disclosed (BTenants vs) = concat (map tenant_secrets vs)"
| "disclosed (BTenantStep _ v) = tenant_secrets v"
| "disclosed (BWiFiKey k) = [kv_PSK k]"
| "disclosed (BWiFiKeys ks) = map kv_PSK ks"
| "disclosed (BWiFiKeyStep _ k) = [kv_PSK k]"
| "disclosed (BAccount a) = [bv_Password a]"
| "disclosed (BAccounts as) = map bv_Password as"
| "disclosed (BAccountStep _ a) = [bv_Password a]"
| "disclosed _ = []"

lemma plain_view_secrets: "list_all (\<lambda>s. s = []) (tenant_secrets (plain_view site rec oc))"
  by (simp add: tenant_secrets_def plain_view_def Let_def dashboard_view_def no_dashboard_def)

end
