(* ===== verification/Server.thy ===== *)
theory Server
  imports Views
begin

text \<open>
  The HTTP surface (\<^verbatim>\<open>internal/server\<close> and \<^verbatim>\<open>internal/auth\<close>): who a token speaks for, the routes with their
  guards and handlers, and the mapping of errors to statuses. A route is a pattern of the mux with its path
  values and its decoded body, \<open>None\<close> where the JSON does not decode; anything else under \<^verbatim>\<open>/v1/\<close> is \<open>RtOther\<close>.
  A request is the \<^verbatim>\<open>Authorization\<close> header and a route.
\<close>

section \<open>Principals\<close>

record principal =
  p_operator :: bool
  p_agent :: bool
  p_tenant :: string
  p_registered :: bool
  p_presented :: string

definition nobody :: principal where
  "nobody = \<lparr>p_operator = False, p_agent = False, p_tenant = [], p_registered = False, p_presented = []\<rparr>"

definition actor :: "principal \<Rightarrow> string" where
  "actor p = (if p_operator p then ''operator'' else if p_agent p then ''egress-agent''
     else if p_tenant p \<noteq> [] then ''tenant:'' @ p_tenant p else ''enrollment'')"

text \<open>\<^verbatim>\<open>auth.Token\<close> and \<^verbatim>\<open>auth.Equal\<close>.\<close>

definition Token :: "string \<Rightarrow> string option" where
  "Token header = (if HasPrefix header ''Bearer '' \<and> drop 7 header \<noteq> [] then Some (drop 7 header) else None)"

definition Equal :: "string \<Rightarrow> string \<Rightarrow> bool" where
  "Equal presented known = (known \<noteq> [] \<and> presented = known)"

section \<open>Answers\<close>

definition answer :: "nat \<Rightarrow> body \<Rightarrow> response io" where
  "answer st b = ret \<lparr>resp_Status = st, resp_Body = b\<rparr>"

definition Deny :: "response io" where
  "Deny = answer 401 (BError (MText ''unauthorized''))"

definition writeUnavailable :: "response io" where
  "writeUnavailable = answer 503 (BError (MText ''OpenBao is sealed or unreachable; tenant work waits until it is opened''))"

text \<open>\<^verbatim>\<open>errors.As\<close> for the two error types with fields.\<close>

fun as_step :: "err \<Rightarrow> (step \<times> err) option" where
  "as_step (StepError s e) = Some (s, e)"
| "as_step (Wrapped m e) = as_step e"
| "as_step _ = None"

fun as_invalid :: "err \<Rightarrow> reason option" where
  "as_invalid (InvalidError r) = Some r"
| "as_invalid (StepError s e) = as_invalid e"
| "as_invalid (Wrapped m e) = as_invalid e"
| "as_invalid _ = None"

definition fail :: "err \<Rightarrow> response io" where
  "fail e =
     (if errors_is e ErrSecretsUnavailable then writeUnavailable
      else if errors_is e ErrNotFound then answer 404 (BError (MText ''tenant not found''))
      else if errors_is e ErrExists then answer 409 (BError (MText ''tenant already exists''))
      else if errors_is e ErrExhausted then answer 409 (BError (MText ''no free tenant index''))
      else if errors_is e ErrNoEnrollment then answer 501 (BError (MText ''enrollment is not configured on this API''))
      else if errors_is e ErrHasWorkloads then answer 409 (BError (MText ''the tenant still has workloads; destroy them first''))
      else if errors_is e ErrWorkloadsExhausted then answer 409 (BError (MText ''no free workload ordinal''))
      else if errors_is e ErrAddressConflict then answer 409 (BError (MText ''that MAC or address is already reserved on this network''))
      else if errors_is e ErrAddressesExhausted then answer 409 (BError (MText ''no free address on this network''))
      else if errors_is e ErrAddressQuota then answer 409 (BError (MText ''the tenant holds its full share of addresses on this network''))
      else if errors_is e ErrFabricInUse
      then answer 409 (BError (MText ''the fabric still carries this tenant's zone; destroy the tenant's resources first''))
      else (case as_invalid e of Some r \<Rightarrow> answer 400 (BError (MInvalid r))
        | None \<Rightarrow> (case as_step e of Some (s, _) \<Rightarrow> answer 502 (BError (MStep s))
          | None \<Rightarrow> answer 500 (BError (MText ''internal error'')))))"

text \<open>The shapes most handlers share: an error through \<open>fail\<close>, a result as a body, an empty 204.\<close>

definition render :: "(err + 'a) io \<Rightarrow> ('a \<Rightarrow> body) \<Rightarrow> response io" where
  "render m f = tryc m fail (\<lambda>x. answer 200 (f x))"

definition no_content :: "(err + unit) io \<Rightarrow> response io" where
  "no_content m = tryc m fail (\<lambda>_. answer 204 NoBody)"

text \<open>\<^verbatim>\<open>if !decode(w, r, &body) { return }\<close>.\<close>

definition decode :: "'a option \<Rightarrow> ('a \<Rightarrow> response io) \<Rightarrow> response io" where
  "decode b k = (case b of None \<Rightarrow> answer 400 (BError (MText ''request body is not the expected JSON'')) | Some x \<Rightarrow> k x)"

text \<open>An operation that hands back an object beside its error: with a failed step and an object, both go out.\<close>

definition partial :: "('a \<times> err option) io \<Rightarrow> ('a \<Rightarrow> string) \<Rightarrow> (message \<Rightarrow> 'a \<Rightarrow> body) \<Rightarrow> ('a \<Rightarrow> response io) \<Rightarrow> response io" where
  "partial m name step_body ok =
     do {
       (x, e) \<leftarrow> m;
       (case e of None \<Rightarrow> ok x
        | Some e \<Rightarrow> (case as_step e of Some (s, _) \<Rightarrow> if name x \<noteq> [] then answer 502 (step_body (MStep s) x) else fail e
            | None \<Rightarrow> fail e))
     }"

section \<open>Handlers\<close>

definition h_admit :: "service \<Rightarrow> ctx \<Rightarrow> (string \<times> string) option \<Rightarrow> response io" where
  "h_admit S c b =
     (case b of None \<Rightarrow> answer 400 (BError (MText ''request body must be {\"name\": ...[, \"mac\": ...]}''))
      | Some (name, mac) \<Rightarrow> tryc (Admit S c name mac) fail (\<lambda>adm.
          answer 201 (BAdmission (am_Name adm) (am_EnrollmentToken adm) (am_ExpiresAt adm) (am_WiFi adm))))"

definition h_revokeAdmission :: "service \<Rightarrow> ctx \<Rightarrow> string \<Rightarrow> response io" where
  "h_revokeAdmission S c name = no_content (RevokeAdmission S c name)"

text \<open>The end of \<^verbatim>\<open>create\<close>, once the caller may create the name.\<close>

definition created :: "service \<Rightarrow> ctx \<Rightarrow> CreateRequest \<Rightarrow> response io" where
  "created S c req =
     partial (Create S c req) (\<lambda>res. rec_Name (rs_Record res))
       (\<lambda>m res. BTenantStep m (view (sv_Site S) (rs_Record res) (rs_Outcome res) (Some (rs_Issued res))))
       (\<lambda>res. answer (case rs_Outcome res of Some OutcomeCreated \<Rightarrow> 201 | Some OutcomeRestored \<Rightarrow> 201 | Some OutcomeReissued \<Rightarrow> 201 | _ \<Rightarrow> 200)
          (BTenant (view (sv_Site S) (rs_Record res) (rs_Outcome res) (Some (rs_Issued res)))))"

definition h_create :: "service \<Rightarrow> ctx \<Rightarrow> principal \<Rightarrow> CreateRequest option \<Rightarrow> response io" where
  "h_create S c p b =
     (case b of None \<Rightarrow> answer 400 (BError (MText ''request body must be a JSON tenant''))
      | Some req \<Rightarrow>
          if p_operator p then created S c req
          else if p_tenant p \<noteq> [] then
            (if p_tenant p \<noteq> cr_Name req then answer 403 (BError (MText ''a tenant token only creates its own tenant''))
             else created S c req)
          else tryc (Redeem S c (p_presented p) (cr_Name req)) (\<lambda>e. case as_step e of Some _ \<Rightarrow> fail e | None \<Rightarrow> Deny)
            (\<lambda>_. created S c req))"

definition h_list :: "service \<Rightarrow> response io" where
  "h_list S = render (List_tenants S) (\<lambda>recs. BTenants (map (\<lambda>rec. view (sv_Site S) rec None None) recs))"

definition h_get :: "service \<Rightarrow> string \<Rightarrow> response io" where
  "h_get S name = render (Get S name) (\<lambda>rec. BTenant (view (sv_Site S) rec None None))"

definition h_delete :: "service \<Rightarrow> ctx \<Rightarrow> string \<Rightarrow> response io" where
  "h_delete S c name = no_content (Delete S c name)"

definition h_reconcile :: "service \<Rightarrow> ctx \<Rightarrow> string \<Rightarrow> response io" where
  "h_reconcile S c name =
     partial (Reconcile S c name) (\<lambda>res. rec_Name (rs_Record res))
       (\<lambda>m res. BTenantStep m (view (sv_Site S) (rs_Record res) (rs_Outcome res) None))
       (\<lambda>res. answer 200 (BTenant (view (sv_Site S) (rs_Record res) (rs_Outcome res)
          (Some (no_issued\<lparr>is_LogIngestToken := is_LogIngestToken (rs_Issued res), is_LogReadToken := is_LogReadToken (rs_Issued res),
             is_DashboardPassword := is_DashboardPassword (rs_Issued res)\<rparr>)))))"

definition h_egress :: "service \<Rightarrow> response io" where
  "h_egress S = render (Egress S) BEgress"

definition h_createWorkload :: "service \<Rightarrow> ctx \<Rightarrow> string \<Rightarrow> WorkloadRequest option \<Rightarrow> response io" where
  "h_createWorkload S c tn b = decode b (\<lambda>req.
     partial (CreateWorkload S c tn req) wl_Name (\<lambda>m w. BWorkloadStep m (workloadView_of (sv_Site S) w))
       (\<lambda>w. answer 201 (BWorkload (workloadView_of (sv_Site S) w))))"

definition h_listWorkloads :: "service \<Rightarrow> string \<Rightarrow> response io" where
  "h_listWorkloads S tn = render (ListWorkloads S tn) (\<lambda>ws. BWorkloads (map (workloadView_of (sv_Site S)) ws))"

definition h_getWorkload :: "service \<Rightarrow> string \<Rightarrow> string \<Rightarrow> response io" where
  "h_getWorkload S tn name = render (GetWorkload S tn name) (\<lambda>w. BWorkload (workloadView_of (sv_Site S) w))"

definition h_deleteWorkload :: "service \<Rightarrow> ctx \<Rightarrow> string \<Rightarrow> string \<Rightarrow> response io" where
  "h_deleteWorkload S c tn name = no_content (DeleteWorkload S c tn name)"

definition h_putRecord :: "service \<Rightarrow> ctx \<Rightarrow> string \<Rightarrow> string \<Rightarrow> string option \<Rightarrow> response io" where
  "h_putRecord S c tn name b = decode b (\<lambda>address.
     render (PutRecord S c tn name address) (\<lambda>_. BRecord (recordView_of (sv_Site S) tn name address)))"

definition h_listRecords :: "service \<Rightarrow> string \<Rightarrow> response io" where
  "h_listRecords S tn = render (ListRecords S tn)
     (\<lambda>recs. BRecords (map (\<lambda>r. recordView_of (sv_Site S) (er_Tenant r) (er_Name r) (er_Address r)) recs))"

definition h_deleteRecord :: "service \<Rightarrow> ctx \<Rightarrow> string \<Rightarrow> string \<Rightarrow> response io" where
  "h_deleteRecord S c tn name = no_content (DeleteRecord S c tn name)"

definition h_createWiFiKey :: "service \<Rightarrow> ctx \<Rightarrow> string \<Rightarrow> WiFiKeyRequest option \<Rightarrow> response io" where
  "h_createWiFiKey S c tn b = decode b (\<lambda>req.
     partial (CreateWiFiKey S c tn req) (\<lambda>k. wk_Name (iw_Key k)) (\<lambda>m k. BWiFiKeyStep m (wifiKeyViewOf k True))
       (\<lambda>k. answer 201 (BWiFiKey (wifiKeyViewOf k True))))"

definition h_listWiFiKeys :: "service \<Rightarrow> string \<Rightarrow> response io" where
  "h_listWiFiKeys S tn = render (ListWiFiKeys S tn) (\<lambda>ks. BWiFiKeys (map (\<lambda>k. wifiKeyViewOf k False) ks))"

definition h_getWiFiKey :: "service \<Rightarrow> string \<Rightarrow> string \<Rightarrow> response io" where
  "h_getWiFiKey S tn name = render (GetWiFiKey S tn name) (\<lambda>k. BWiFiKey (wifiKeyViewOf k False))"

definition h_deleteWiFiKey :: "service \<Rightarrow> ctx \<Rightarrow> string \<Rightarrow> string \<Rightarrow> response io" where
  "h_deleteWiFiKey S c tn name = no_content (DeleteWiFiKey S c tn name)"

text \<open>\<^verbatim>\<open>createDevice\<close> sends any error through \<^verbatim>\<open>fail\<close>, the device beside it or not.\<close>

definition h_createDevice :: "service \<Rightarrow> ctx \<Rightarrow> string \<Rightarrow> DeviceRequest option \<Rightarrow> response io" where
  "h_createDevice S c tn b = decode b (\<lambda>req.
     do { (d, e) \<leftarrow> CreateDevice S c tn req;
          (case e of None \<Rightarrow> answer 201 (BDevice (deviceViewOf d)) | Some e \<Rightarrow> fail e) })"

definition h_listDevices :: "service \<Rightarrow> string \<Rightarrow> response io" where
  "h_listDevices S tn = render (ListDevices S tn) (\<lambda>ds. BDevices (map deviceViewOf ds))"

definition h_getDevice :: "service \<Rightarrow> string \<Rightarrow> string \<Rightarrow> response io" where
  "h_getDevice S tn name = render (GetDevice S tn name) (\<lambda>d. BDevice (deviceViewOf d))"

definition h_deleteDevice :: "service \<Rightarrow> ctx \<Rightarrow> string \<Rightarrow> string \<Rightarrow> response io" where
  "h_deleteDevice S c tn name = no_content (DeleteDevice S c tn name)"

definition h_createAddress :: "service \<Rightarrow> ctx \<Rightarrow> string \<Rightarrow> string \<Rightarrow> string option \<Rightarrow> response io" where
  "h_createAddress S c tn dev b = decode b (\<lambda>address.
     partial (CreateDeviceAddress S c tn dev address) (\<lambda>a. da_Address (ia_Address a)) (\<lambda>m a. BAddressStep m (addressViewOf a))
       (\<lambda>a. answer 201 (BAddress (addressViewOf a))))"

definition h_getAddress :: "service \<Rightarrow> string \<Rightarrow> string \<Rightarrow> response io" where
  "h_getAddress S tn dev = render (GetDeviceAddress S tn dev) (\<lambda>a. BAddress (addressViewOf a))"

definition h_deleteAddress :: "service \<Rightarrow> ctx \<Rightarrow> string \<Rightarrow> string \<Rightarrow> response io" where
  "h_deleteAddress S c tn dev = no_content (DeleteDeviceAddress S c tn dev)"

definition h_createBrokerAccount :: "service \<Rightarrow> ctx \<Rightarrow> string \<Rightarrow> BrokerAccountRequest option \<Rightarrow> response io" where
  "h_createBrokerAccount S c tn b = decode b (\<lambda>req.
     partial (CreateBrokerAccount S c tn req) (\<lambda>a. ba_Name (ib_Account a)) (\<lambda>m a. BAccountStep m (brokerAccountViewOf a True))
       (\<lambda>a. answer 201 (BAccount (brokerAccountViewOf a True))))"

definition h_listBrokerAccounts :: "service \<Rightarrow> string \<Rightarrow> response io" where
  "h_listBrokerAccounts S tn = render (ListBrokerAccounts S tn) (\<lambda>as. BAccounts (map (\<lambda>a. brokerAccountViewOf a False) as))"

definition h_getBrokerAccount :: "service \<Rightarrow> string \<Rightarrow> string \<Rightarrow> response io" where
  "h_getBrokerAccount S tn name = render (GetBrokerAccount S tn name) (\<lambda>a. BAccount (brokerAccountViewOf a False))"

definition h_deleteBrokerAccount :: "service \<Rightarrow> ctx \<Rightarrow> string \<Rightarrow> string \<Rightarrow> response io" where
  "h_deleteBrokerAccount S c tn name = no_content (DeleteBrokerAccount S c tn name)"

definition h_putCertificate :: "service \<Rightarrow> ctx \<Rightarrow> string \<Rightarrow> string \<Rightarrow> CertificateRequest option \<Rightarrow> response io" where
  "h_putCertificate S c tn name b = decode b (\<lambda>req.
     tryc (PutCertificate S c tn name req) fail (\<lambda>(cert, issued).
       answer (if issued then 201 else 200) (BCertificate (certificateViewOf cert))))"

definition h_listCertificates :: "service \<Rightarrow> string \<Rightarrow> response io" where
  "h_listCertificates S tn = render (ListCertificates S tn) (\<lambda>cs. BCertificates (map certificateViewOf cs))"

definition h_getCertificate :: "service \<Rightarrow> string \<Rightarrow> string \<Rightarrow> response io" where
  "h_getCertificate S tn name = render (GetCertificate S tn name) (\<lambda>c. BCertificate (certificateViewOf c))"

definition h_deleteCertificate :: "service \<Rightarrow> ctx \<Rightarrow> string \<Rightarrow> string \<Rightarrow> response io" where
  "h_deleteCertificate S c tn name = no_content (DeleteCertificate S c tn name)"

section \<open>Guards\<close>

definition operatorOnly :: "principal \<Rightarrow> response io \<Rightarrow> response io" where
  "operatorOnly p k =
     (if p_operator p then k else if p_tenant p \<noteq> [] then answer 403 (BError (MText ''operator only'')) else Deny)"

definition egressReader :: "principal \<Rightarrow> response io \<Rightarrow> response io" where
  "egressReader p k =
     (if p_operator p \<or> p_agent p then k else if p_tenant p \<noteq> [] then answer 403 (BError (MText ''operator only'')) else Deny)"

definition knownCaller :: "principal \<Rightarrow> response io \<Rightarrow> response io" where
  "knownCaller p k = (if p_operator p \<or> p_tenant p \<noteq> [] \<and> p_registered p then k else Deny)"

definition ownTenant :: "principal \<Rightarrow> string \<Rightarrow> response io \<Rightarrow> response io" where
  "ownTenant p name k =
     (if p_operator p then k
      else if p_tenant p \<noteq> [] then
        (if p_tenant p \<noteq> name \<or> \<not> p_registered p then answer 404 (BError (MText ''tenant not found'')) else k)
      else Deny)"

definition notImplemented :: "response io" where
  "notImplemented = answer 501 (BError (MText ''not implemented''))"

section \<open>Routes\<close>

text \<open>
  The patterns of the mux, grouped as the source registers them. Every pattern of a group below is under
  \<^verbatim>\<open>/v1/tenants/{name}\<close>, and the group is given that name.
\<close>

datatype workload_route =
    WCreate "WorkloadRequest option" | WList | WGet string | WDelete string
  | WPutRecord string "string option" | WListRecords | WDeleteRecord string

datatype wifi_route = KCreate "WiFiKeyRequest option" | KList | KGet string | KDelete string

datatype device_route = DCreate "DeviceRequest option" | DList | DGet string | DDelete string

datatype address_route = ACreate "string option" | AGet | ADelete

datatype broker_route = BCreate "BrokerAccountRequest option" | BList | BGet string | BDelete string

datatype certificate_route = CPut string "CertificateRequest option" | CList | CGet string | CDelete string

datatype route =
    RtAdmit "(string \<times> string) option"
  | RtRevokeAdmission string
  | RtCreate "CreateRequest option"
  | RtList
  | RtGet string
  | RtDelete string
  | RtReconcile string
  | RtEgress
  | RtWorkload string workload_route
  | RtWiFiKey string wifi_route
  | RtDevice string device_route
  | RtAddress string string address_route
  | RtBroker string broker_route
  | RtCertificate string certificate_route
  | RtOther

fun workloadRoutes :: "service \<Rightarrow> ctx \<Rightarrow> principal \<Rightarrow> string \<Rightarrow> workload_route \<Rightarrow> response io" where
  "workloadRoutes S c p tn (WCreate b) = ownTenant p tn (h_createWorkload S c tn b)"
| "workloadRoutes S c p tn WList = ownTenant p tn (h_listWorkloads S tn)"
| "workloadRoutes S c p tn (WGet n) = ownTenant p tn (h_getWorkload S tn n)"
| "workloadRoutes S c p tn (WDelete n) = ownTenant p tn (h_deleteWorkload S c tn n)"
| "workloadRoutes S c p tn (WPutRecord n b) = ownTenant p tn (h_putRecord S c tn n b)"
| "workloadRoutes S c p tn WListRecords = ownTenant p tn (h_listRecords S tn)"
| "workloadRoutes S c p tn (WDeleteRecord n) = ownTenant p tn (h_deleteRecord S c tn n)"

fun wifiKeyRoutes :: "service \<Rightarrow> ctx \<Rightarrow> principal \<Rightarrow> string \<Rightarrow> wifi_route \<Rightarrow> response io" where
  "wifiKeyRoutes S c p tn (KCreate b) = ownTenant p tn (h_createWiFiKey S c tn b)"
| "wifiKeyRoutes S c p tn KList = ownTenant p tn (h_listWiFiKeys S tn)"
| "wifiKeyRoutes S c p tn (KGet n) = ownTenant p tn (h_getWiFiKey S tn n)"
| "wifiKeyRoutes S c p tn (KDelete n) = ownTenant p tn (h_deleteWiFiKey S c tn n)"

fun deviceRoutes :: "service \<Rightarrow> ctx \<Rightarrow> principal \<Rightarrow> string \<Rightarrow> device_route \<Rightarrow> response io" where
  "deviceRoutes S c p tn (DCreate b) = ownTenant p tn (h_createDevice S c tn b)"
| "deviceRoutes S c p tn DList = ownTenant p tn (h_listDevices S tn)"
| "deviceRoutes S c p tn (DGet n) = ownTenant p tn (h_getDevice S tn n)"
| "deviceRoutes S c p tn (DDelete n) = ownTenant p tn (h_deleteDevice S c tn n)"

fun addressRoutes :: "service \<Rightarrow> ctx \<Rightarrow> principal \<Rightarrow> string \<Rightarrow> string \<Rightarrow> address_route \<Rightarrow> response io" where
  "addressRoutes S c p tn dev (ACreate b) = ownTenant p tn (h_createAddress S c tn dev b)"
| "addressRoutes S c p tn dev AGet = ownTenant p tn (h_getAddress S tn dev)"
| "addressRoutes S c p tn dev ADelete = ownTenant p tn (h_deleteAddress S c tn dev)"

fun brokerAccountRoutes :: "service \<Rightarrow> ctx \<Rightarrow> principal \<Rightarrow> string \<Rightarrow> broker_route \<Rightarrow> response io" where
  "brokerAccountRoutes S c p tn (BCreate b) = ownTenant p tn (h_createBrokerAccount S c tn b)"
| "brokerAccountRoutes S c p tn BList = ownTenant p tn (h_listBrokerAccounts S tn)"
| "brokerAccountRoutes S c p tn (BGet n) = ownTenant p tn (h_getBrokerAccount S tn n)"
| "brokerAccountRoutes S c p tn (BDelete n) = ownTenant p tn (h_deleteBrokerAccount S c tn n)"

fun certificateRoutes :: "service \<Rightarrow> ctx \<Rightarrow> principal \<Rightarrow> string \<Rightarrow> certificate_route \<Rightarrow> response io" where
  "certificateRoutes S c p tn (CPut n b) = ownTenant p tn (h_putCertificate S c tn n b)"
| "certificateRoutes S c p tn CList = ownTenant p tn (h_listCertificates S tn)"
| "certificateRoutes S c p tn (CGet n) = ownTenant p tn (h_getCertificate S tn n)"
| "certificateRoutes S c p tn (CDelete n) = ownTenant p tn (h_deleteCertificate S c tn n)"

text \<open>\<open>RtOther\<close> is every path no pattern names, which the route \<^verbatim>\<open>/v1/\<close> of \<^verbatim>\<open>New\<close> takes.\<close>

fun tenantRoutes :: "service \<Rightarrow> ctx \<Rightarrow> principal \<Rightarrow> route \<Rightarrow> response io" where
  "tenantRoutes S c p (RtAdmit b) = operatorOnly p (h_admit S c b)"
| "tenantRoutes S c p (RtRevokeAdmission n) = operatorOnly p (h_revokeAdmission S c n)"
| "tenantRoutes S c p (RtCreate b) = h_create S c p b"
| "tenantRoutes S c p RtList = operatorOnly p (h_list S)"
| "tenantRoutes S c p (RtGet n) = ownTenant p n (h_get S n)"
| "tenantRoutes S c p (RtDelete n) = ownTenant p n (h_delete S c n)"
| "tenantRoutes S c p (RtReconcile n) = operatorOnly p (h_reconcile S c n)"
| "tenantRoutes S c p RtEgress = egressReader p (h_egress S)"
| "tenantRoutes S c p (RtWorkload tn r) = workloadRoutes S c p tn r"
| "tenantRoutes S c p (RtWiFiKey tn r) = wifiKeyRoutes S c p tn r"
| "tenantRoutes S c p (RtDevice tn r) = deviceRoutes S c p tn r"
| "tenantRoutes S c p (RtAddress tn dev r) = addressRoutes S c p tn dev r"
| "tenantRoutes S c p (RtBroker tn r) = brokerAccountRoutes S c p tn r"
| "tenantRoutes S c p (RtCertificate tn r) = certificateRoutes S c p tn r"
| "tenantRoutes S c p RtOther = knownCaller p notImplemented"

section \<open>What the handlers' shapes keep\<close>

context world_preorder
begin

lemma answer_keeps: "keeps (answer st b)"
  unfolding answer_def by (rule keeps_return)

lemma refusals_keep: "keeps Deny" "keeps writeUnavailable" "keeps notImplemented" "keeps (fail e)"
  unfolding Deny_def writeUnavailable_def notImplemented_def fail_def by (intro keeps_intros answer_keeps)+

lemma render_keeps: "keeps m \<Longrightarrow> keeps (render m f)" "keeps m' \<Longrightarrow> keeps (no_content m')"
  unfolding render_def no_content_def by (intro tryc_keeps answer_keeps refusals_keep; assumption)+

lemma decode_keeps: "(\<And>x. keeps (k x)) \<Longrightarrow> keeps (decode b k)"
  unfolding decode_def by (intro keeps_intros answer_keeps)

lemma partial_keeps: "keeps m \<Longrightarrow> (\<And>x. keeps (ok x)) \<Longrightarrow> keeps (partial m name f ok)"
  unfolding partial_def by (intro keeps_intros answer_keeps refusals_keep)

lemma guards_keep:
  assumes "keeps k"
  shows "keeps (operatorOnly p k)" "keeps (ownTenant p n k)" "keeps (egressReader p k)" "keeps (knownCaller p k)"
  unfolding operatorOnly_def ownTenant_def egressReader_def knownCaller_def
  by (intro keeps_intros answer_keeps refusals_keep assms)+

lemmas http_keeps = answer_keeps refusals_keep render_keeps decode_keeps partial_keeps guards_keep

end

section \<open>The server\<close>

text \<open>\<^verbatim>\<open>Config\<close>, with what \<^verbatim>\<open>Ping\<close>, \<^verbatim>\<open>Migrated\<close>, \<^verbatim>\<open>Health\<close> and \<^verbatim>\<open>SecretsLoaded\<close> answer at the time of the request.\<close>

record Config =
  cfg_Token :: string
  cfg_AgentToken :: string
  cfg_Tenants :: "service option"
  cfg_Ping :: bool
  cfg_Migrated :: bool
  cfg_Secrets :: "string option"
  cfg_SecretsLoaded :: bool

definition v1_mux :: "Config \<Rightarrow> ctx \<Rightarrow> principal \<Rightarrow> route \<Rightarrow> response io" where
  "v1_mux cfg c p r =
     (case cfg_Tenants cfg of None \<Rightarrow> knownCaller p notImplemented
      | Some S \<Rightarrow> tenantRoutes S c p r)"

definition as_principal :: "Config \<Rightarrow> principal \<Rightarrow> route \<Rightarrow> response io" where
  "as_principal cfg p r = v1_mux cfg (WithActor [] (actor p)) p r"

definition identify :: "Config \<Rightarrow> string \<Rightarrow> route \<Rightarrow> response io" where
  "identify cfg tok r =
     (if Equal tok (cfg_Token cfg) then as_principal cfg (nobody\<lparr>p_operator := True\<rparr>) r
      else if Equal tok (cfg_AgentToken cfg) then as_principal cfg (nobody\<lparr>p_agent := True\<rparr>) r
      else (case cfg_Tenants cfg of None \<Rightarrow> as_principal cfg (nobody\<lparr>p_presented := tok\<rparr>) r
        | Some S \<Rightarrow> tryc (Authenticate S tok) (\<lambda>_. writeUnavailable) (\<lambda>c.
            (case c of Some caller \<Rightarrow> as_principal cfg (nobody\<lparr>p_tenant := ca_Tenant caller, p_registered := ca_Registered caller\<rparr>) r
             | None \<Rightarrow> as_principal cfg (nobody\<lparr>p_presented := tok\<rparr>) r))))"

definition requireSecrets :: "Config \<Rightarrow> response io \<Rightarrow> response io" where
  "requireSecrets cfg k = (if \<not> cfg_SecretsLoaded cfg then writeUnavailable else k)"

definition requireMigrated :: "Config \<Rightarrow> response io \<Rightarrow> response io" where
  "requireMigrated cfg k = (if \<not> cfg_Migrated cfg then answer 503 (BError (MText ''database not migrated yet'')) else k)"

definition requireToken :: "string \<Rightarrow> (string \<Rightarrow> response io) \<Rightarrow> response io" where
  "requireToken header k = (case Token header of None \<Rightarrow> Deny | Some tok \<Rightarrow> k tok)"

definition v1 :: "Config \<Rightarrow> string \<Rightarrow> route \<Rightarrow> response io" where
  "v1 cfg header r = requireToken header (\<lambda>tok. requireMigrated cfg (requireSecrets cfg (identify cfg tok r)))"

definition healthz :: "response io" where
  "healthz = answer 200 (BStatus [(''status'', ''ok'')])"

definition readyz :: "Config \<Rightarrow> response io" where
  "readyz cfg =
     (if \<not> cfg_Ping cfg then answer 503 (BStatus [(''status'', ''unavailable''), (''database'', ''unreachable'')])
      else if \<not> cfg_Migrated cfg then answer 503 (BStatus [(''status'', ''unavailable''), (''database'', ''migrating'')])
      else (case cfg_Secrets cfg of None \<Rightarrow> answer 200 (BStatus [(''status'', ''ok''), (''database'', ''ok'')])
        | Some health \<Rightarrow>
            if health \<noteq> ''ok'' then answer 503 (BStatus [(''status'', ''unavailable''), (''database'', ''ok''), (''openbao'', health)])
            else answer 200 (BStatus [(''status'', ''ok''), (''database'', ''ok''), (''openbao'', ''ok'')])))"

datatype http = Healthz | Readyz | V1 string route

text \<open>\<^verbatim>\<open>New\<close> panics with an empty operator token, here \<open>None\<close>.\<close>

definition serve :: "Config \<Rightarrow> (http \<Rightarrow> response io) option" where
  "serve cfg = (if cfg_Token cfg = [] then None
     else Some (\<lambda>q. case q of Healthz \<Rightarrow> healthz | Readyz \<Rightarrow> readyz cfg | V1 header r \<Rightarrow> v1 cfg header r))"

section \<open>Who a request runs as\<close>

text \<open>
  The answer the API owes: whom a token stands for, given the registry it is looked up in. The
  operator and the egress agent have their own tokens. Any other token stands for the tenant it names if the API
  issued it: registered when the registry holds the hash of that very token, and not yet when the registry has
  no such tenant (it may only restore itself). A token that does not verify, or that was replaced, is unknown.
\<close>

definition unknown :: "string \<Rightarrow> principal" where
  "unknown tok = nobody\<lparr>p_presented := tok\<rparr>"

definition tenant_speaker :: "service \<Rightarrow> string \<Rightarrow> registry \<Rightarrow> principal" where
  "tenant_speaker S tok r =
     (case Tokens_Verify S tok of None \<Rightarrow> unknown tok
      | Some name \<Rightarrow>
     (case get_row tn_name name (tbl_tenants r) of None \<Rightarrow> nobody\<lparr>p_tenant := name\<rparr>
      | Some t \<Rightarrow> if sec_APITokenHash (tn_secrets t) = HashToken S tok
                  then nobody\<lparr>p_tenant := name, p_registered := True\<rparr> else unknown tok))"

definition speaker :: "Config \<Rightarrow> string \<Rightarrow> registry \<Rightarrow> principal" where
  "speaker cfg tok r =
     (if tok = cfg_Token cfg then nobody\<lparr>p_operator := True\<rparr>
      else if tok = cfg_AgentToken cfg then nobody\<lparr>p_agent := True\<rparr>
      else (case cfg_Tenants cfg of None \<Rightarrow> unknown tok | Some S \<Rightarrow> tenant_speaker S tok r))"

text \<open>
  The registry as the lookup finds it, with what other instances wrote until then. \<open>looked\<close>: nothing was sent,
  and the registry is as it was unless others changed it. \<open>lost\<close>, \<open>away\<close>: in between, the database lost
  a statement, or the secret store said it cannot be reached.
\<close>

definition seen :: "Config \<Rightarrow> world \<Rightarrow> registry" where
  "seen cfg w = (case cfg_Tenants cfg of None \<Rightarrow> reg w | Some S \<Rightarrow> sv_others S (clock w) (reg w))"

definition looked :: "Config \<Rightarrow> world \<Rightarrow> world \<Rightarrow> bool" where
  "looked cfg w w' = (trace w' = trace w \<and> (pred_option alone (cfg_Tenants cfg) \<longrightarrow> reg w' = reg w))"

definition lost :: "service \<Rightarrow> world \<Rightarrow> world \<Rightarrow> bool" where
  "lost S w w' = (\<exists>n. clock w \<le> n \<and> n < clock w' \<and> sv_db S n \<noteq> DBOk)"

definition away :: "service \<Rightarrow> world \<Rightarrow> world \<Rightarrow> bool" where
  "away S w w' = (\<exists>sl n c e. sv_sealer S = Some sl \<and> clock w \<le> n \<and> n < clock w' \<and> sl_Open sl n c = Inl e \<and>
     errors_is e ErrSecretsUnavailable)"

definition unavailable_answer :: response where
  "unavailable_answer = \<lparr>resp_Status = 503, resp_Body = BError
     (MText ''OpenBao is sealed or unreachable; tenant work waits until it is opened'')\<rparr>"

lemma writeUnavailable_answer [simp]: "run_state writeUnavailable w = (unavailable_answer, w)"
  by (simp add: writeUnavailable_def answer_def unavailable_answer_def)

lemma wp_answer: "wp (answer st b) Q = Q \<lparr>resp_Status = st, resp_Body = b\<rparr>"
  by (simp add: answer_def wp_simps)

lemma wp_refusals: "wp Deny Q = Q \<lparr>resp_Status = 401, resp_Body = BError (MText ''unauthorized'')\<rparr>"
  "wp notImplemented Q = Q \<lparr>resp_Status = 501, resp_Body = BError (MText ''not implemented'')\<rparr>"
  by (simp_all add: Deny_def notImplemented_def wp_answer)

section \<open>The tenant a route is about\<close>

fun target :: "route \<Rightarrow> string option" where
  "target (RtCreate b) = map_option cr_Name b"
| "target (RtGet n) = Some n"
| "target (RtDelete n) = Some n"
| "target (RtWorkload n _) = Some n"
| "target (RtWiFiKey n _) = Some n"
| "target (RtDevice n _) = Some n"
| "target (RtAddress n _ _) = Some n"
| "target (RtBroker n _) = Some n"
| "target (RtCertificate n _) = Some n"
| "target _ = None"

fun creates :: "route \<Rightarrow> bool" where
  "creates (RtCreate _) = True"
| "creates _ = False"

lemma own_routes:
  "\<exists>k. workloadRoutes S c p tn wr = ownTenant p tn k" "\<exists>k. wifiKeyRoutes S c p tn kr = ownTenant p tn k"
  "\<exists>k. deviceRoutes S c p tn dr = ownTenant p tn k" "\<exists>k. addressRoutes S c p tn dev ar = ownTenant p tn k"
  "\<exists>k. brokerAccountRoutes S c p tn br = ownTenant p tn k" "\<exists>k. certificateRoutes S c p tn cr = ownTenant p tn k"
proof -
  show "\<exists>k. workloadRoutes S c p tn wr = ownTenant p tn k" by (cases wr; simp; blast)
  show "\<exists>k. wifiKeyRoutes S c p tn kr = ownTenant p tn k" by (cases kr; simp; blast)
  show "\<exists>k. deviceRoutes S c p tn dr = ownTenant p tn k" by (cases dr; simp; blast)
  show "\<exists>k. addressRoutes S c p tn dev ar = ownTenant p tn k" by (cases ar; simp; blast)
  show "\<exists>k. brokerAccountRoutes S c p tn br = ownTenant p tn k" by (cases br; simp; blast)
  show "\<exists>k. certificateRoutes S c p tn cr = ownTenant p tn k" by (cases cr; simp; blast)
qed

lemma guarded_route:
  assumes "\<not> creates r" "target r = Some n"
  shows "\<exists>k. tenantRoutes S c p r = ownTenant p n k"
  using assms own_routes by (cases r) auto

section \<open>Who is asking\<close>

lemma wp_db_read:
  "wp (db S (get_tx g)) Q w =
     (let w' = w\<lparr>clock := Suc (clock w), reg := sv_others S (clock w) (reg w)\<rparr> in
      case sv_db S (clock w) of DBLost m \<Rightarrow> Q (Inl (ErrOther m)) w'
      | DBOk \<Rightarrow> (case g (reg w') of None \<Rightarrow> Q (Inl ErrNotFound) w' | Some x \<Rightarrow> Q (Inr x) w')
      | DBUnacked m \<Rightarrow> (case g (reg w') of None \<Rightarrow> Q (Inl ErrNotFound) w' | Some x \<Rightarrow> Q (Inl (ErrOther m)) w'))"
  "wp (db S (read_tx f)) Q w =
     (let w' = w\<lparr>clock := Suc (clock w), reg := sv_others S (clock w) (reg w)\<rparr> in
      case sv_db S (clock w) of DBOk \<Rightarrow> Q (Inr (f (reg w'))) w'
      | DBLost m \<Rightarrow> Q (Inl (ErrOther m)) w' | DBUnacked m \<Rightarrow> Q (Inl (ErrOther m)) w')"
  by (simp_all add: db_def wp_simps get_tx_def Let_def split: dbout.splits option.splits)

text \<open>Opening the secrets changes nothing and says who is to blame when it fails.\<close>

definition onward :: "world \<Rightarrow> world \<Rightarrow> bool" where
  "onward w w' = (same w w' \<and> clock w \<le> clock w')"

lemma wp_openOne_away:
  assumes "sv_sealer S = Some sl" "onward w v"
    and "\<And>e w'. onward w w' \<Longrightarrow> errors_is e ErrSecretsUnavailable \<Longrightarrow> away S w w' \<Longrightarrow> Q (Inl e) w'"
    and "\<And>x w'. onward w w' \<Longrightarrow> Q (Inr x) w'"
  shows "wp (openOne sl c) Q v"
proof -
  define v' where "v' = v\<lparr>clock := Suc (clock v)\<rparr>"
  have v': "onward w v'" using assms(2) by (simp add: onward_def same_def v'_def)
  have "away S w v'" if "sl_Open sl (clock v) c = Inl e" "errors_is e ErrSecretsUnavailable" for e
    using that assms(1,2) unfolding away_def onward_def v'_def by (intro exI[of _ sl] exI[of _ "clock v"]) auto
  then show ?thesis
    using assms(3,4)[OF v'] by (auto simp: openOne_def wp_simps v'_def split: sum.splits)
qed

lemma wp_open_away:
  assumes "\<And>e w'. onward w w' \<Longrightarrow> errors_is e ErrSecretsUnavailable \<Longrightarrow> away S w w' \<Longrightarrow> Q (Inl e) w'"
    and "\<And>s' w'. onward w w' \<Longrightarrow> sec_APITokenHash s' = sec_APITokenHash s \<Longrightarrow> Q (Inr s') w'"
  shows "wp (open_secrets S s) Q w"
proof (cases "sv_sealer S")
  case (Some sl)
  have "onward w w" by (simp add: onward_def)
  then show ?thesis
    using assms(1) unfolding open_secrets_def Some option.case
    by (auto simp: wp_simps split: prod.splits intro!: wp_openOne_away[OF Some] assms(2))
qed (simp add: open_secrets_def wp_simps assms(2) onward_def)

text \<open>What came of reading the tenant a token names.\<close>

definition read_tenant :: "service \<Rightarrow> string \<Rightarrow> world \<Rightarrow> err + Record \<Rightarrow> world \<Rightarrow> bool" where
  "read_tenant S name w out w' = (trace w' = trace w \<and> (alone S \<longrightarrow> reg w' = reg w) \<and>
     (case out of
        Inr rec \<Rightarrow> \<exists>t. get_row tn_name name (tbl_tenants (sv_others S (clock w) (reg w))) = Some t \<and>
          sec_APITokenHash (rec_Secrets rec) = sec_APITokenHash (tn_secrets t)
      | Inl e \<Rightarrow>
          if errors_is e ErrNotFound then get_row tn_name name (tbl_tenants (sv_others S (clock w) (reg w))) = None
          else if errors_is e ErrSecretsUnavailable then away S w w' else lost S w w'))"

lemma wp_read_tenant: "wp (Store_Get S name) (read_tenant S name w) w"
proof -
  define v where "v = w\<lparr>clock := Suc (clock w), reg := sv_others S (clock w) (reg w)\<rparr>"
  have seen: "sv_others S (clock w) (reg w) = reg v" by (simp add: v_def)
  have first: "lost S w v" if "sv_db S (clock w) \<noteq> DBOk"
    using that by (auto simp: lost_def v_def)
  have opened: "trace w' = trace w \<and> (alone S \<longrightarrow> reg w' = reg w) \<and> clock w \<le> clock w' \<and> (away S v w' \<longrightarrow> away S w w')"
    if "onward v w'" for w'
    using that by (auto simp: v_def onward_def same_def alone_def away_def) (meson Suc_leD)+
  have second: "lost S w (w'\<lparr>clock := Suc (clock w'), reg := r\<rparr>)" if "sv_db S (clock w') \<noteq> DBOk" "clock w \<le> clock w'" for w' r
    using that by (auto simp: lost_def)
  have here: "trace v = trace w" "alone S \<Longrightarrow> reg v = reg w" by (simp_all add: v_def alone_def)
  have kept: "alone S \<longrightarrow> sv_others S n r = r" for n r by (simp add: alone_def)
  show ?thesis
    unfolding Store_Get_def wp_orerr wp_wrap tx_tenant_def tx_steps_def wp_db_read wp_return Let_def seen[symmetric] v_def[symmetric]
    using first
    by (auto simp: read_tenant_def seen wp_simps record_of_def wp_db_read Let_def kept here dest!: opened intro!: wp_open_away second
        split: dbout.splits option.splits)
qed

definition caller_principal :: "string \<Rightarrow> Caller option \<Rightarrow> principal" where
  "caller_principal tok found = (case found of None \<Rightarrow> unknown tok
     | Some caller \<Rightarrow> nobody\<lparr>p_tenant := ca_Tenant caller, p_registered := ca_Registered caller\<rparr>)"

lemma wp_Authenticate_speaker:
  "wp (Authenticate S tok) (\<lambda>out w'. trace w' = trace w \<and> (alone S \<longrightarrow> reg w' = reg w) \<and>
     (case out of Inl _ \<Rightarrow> away S w w'
      | Inr found \<Rightarrow> caller_principal tok found = tenant_speaker S tok (sv_others S (clock w) (reg w)) \<or>
          found = None \<and> lost S w w')) w"
proof (cases "Tokens_Verify S tok")
  case (Some name)
  show ?thesis
    unfolding Authenticate_def Some option.case wp_tryc
    by (rule wp_mono[OF wp_read_tenant[of S name w]])
      (auto simp: read_tenant_def wp_simps tenant_speaker_def Some caller_principal_def subtleEqual_def nobody_def
        split: sum.splits option.splits if_splits)
qed (simp add: Authenticate_def wp_simps tenant_speaker_def caller_principal_def)

text \<open>\<^verbatim>\<open>identify\<close> hands on to the principal, or the lookup failed.\<close>

lemma identified:
  assumes "tok \<noteq> []"
  shows "\<exists>w'. looked cfg w w' \<and>
    (run_state (identify cfg tok r) w = run_state (as_principal cfg (speaker cfg tok (seen cfg w)) r) w' \<or>
     tok \<notin> {cfg_Token cfg, cfg_AgentToken cfg} \<and>
     (\<exists>S. cfg_Tenants cfg = Some S \<and>
       (away S w w' \<and> run_state (identify cfg tok r) w = (unavailable_answer, w') \<or>
        lost S w w' \<and> run_state (identify cfg tok r) w = run_state (as_principal cfg (unknown tok) r) w')))"
proof (cases "tok \<in> {cfg_Token cfg, cfg_AgentToken cfg} \<or> cfg_Tenants cfg = None")
  case True
  then have "run_state (identify cfg tok r) w = run_state (as_principal cfg (speaker cfg tok (seen cfg w)) r) w"
    using assms by (auto simp: identify_def speaker_def Equal_def unknown_def)
  moreover have "looked cfg w w" by (simp add: looked_def)
  ultimately show ?thesis by blast
next
  case False
  then obtain S where S: "cfg_Tenants cfg = Some S" and other: "tok \<notin> {cfg_Token cfg, cfg_AgentToken cfg}" by blast
  obtain out w' where out: "run_state (Authenticate S tok) w = (out, w')" by fastforce
  note found = wp_run[OF out wp_Authenticate_speaker]
  have looked: "looked cfg w w'" using found by (simp add: looked_def S)
  have run: "run_state (identify cfg tok r) w = run_state (case out of Inl _ \<Rightarrow> writeUnavailable
      | Inr found \<Rightarrow> as_principal cfg (caller_principal tok found) r) w'"
    using other by (simp add: identify_def Equal_def S tryc_def out caller_principal_def unknown_def split: sum.split option.split)
  have spk: "speaker cfg tok (seen cfg w) = tenant_speaker S tok (sv_others S (clock w) (reg w))"
    using other by (simp add: speaker_def seen_def S)
  show ?thesis
    using found looked run other unfolding spk
    by (intro exI[of _ w']) (auto simp: S caller_principal_def split: sum.splits)
qed

section \<open>Properties of the component\<close>

text \<open>C28. Every \<^verbatim>\<open>/v1\<close> request runs as the one its token stands for. Without a bearer token it gets a 401,
  before the database is migrated or the secrets are read a 503, and nothing is touched. Otherwise it
  runs as \<open>speaker\<close> says for the registry as the lookup finds it, whatever other instances write meanwhile; nothing has been
  sent to a backend by then, and the registry is as it was where no other instance writes. The exceptions concern neither the operator's nor the agent's
  token: when the secret store said meanwhile that it cannot be reached, the answer may be a 503 that names OpenBao; and when the
  database lost a statement, the request may run as one whose token is unknown.\<close>

theorem request_runs_as_speaker:
  "case Token header of
     None \<Rightarrow> run_state (v1 cfg header r) w = (\<lparr>resp_Status = 401, resp_Body = BError (MText ''unauthorized'')\<rparr>, w)
   | Some tok \<Rightarrow>
       if \<not> cfg_Migrated cfg
       then run_state (v1 cfg header r) w = (\<lparr>resp_Status = 503, resp_Body = BError (MText ''database not migrated yet'')\<rparr>, w)
       else if \<not> cfg_SecretsLoaded cfg then run_state (v1 cfg header r) w = (unavailable_answer, w)
       else \<exists>w'. looked cfg w w' \<and>
         (run_state (v1 cfg header r) w = run_state (as_principal cfg (speaker cfg tok (seen cfg w)) r) w' \<or>
          tok \<notin> {cfg_Token cfg, cfg_AgentToken cfg} \<and>
          (\<exists>S. cfg_Tenants cfg = Some S \<and>
            (away S w w' \<and> run_state (v1 cfg header r) w = (unavailable_answer, w') \<or>
             lost S w w' \<and> run_state (v1 cfg header r) w = run_state (as_principal cfg (unknown tok) r) w')))"
proof (cases "Token header")
  case None
  then show ?thesis by (simp add: v1_def requireToken_def Deny_def answer_def)
next
  case (Some tok)
  then have tok: "tok \<noteq> []" by (auto simp: Token_def split: if_splits)
  show ?thesis
  proof (cases "cfg_Migrated cfg \<and> cfg_SecretsLoaded cfg")
    case False
    then show ?thesis
      using Some by (simp add: v1_def requireToken_def requireMigrated_def requireSecrets_def answer_def)
  next
    case True
    then have v1: "v1 cfg header r = identify cfg tok r"
      using Some by (simp add: v1_def requireToken_def requireMigrated_def requireSecrets_def)
    show ?thesis using True Some identified[OF tok, of cfg w r] by (simp add: v1)
  qed
qed

definition sample_config :: Config where
  "sample_config = \<lparr>cfg_Token = ''operator-token'', cfg_AgentToken = ''agent-token'', cfg_Tenants = Some sample_service, cfg_Ping = True,
     cfg_Migrated = True, cfg_Secrets = None, cfg_SecretsLoaded = True\<rparr>"

theorem request_runs_as_speaker_witness:
  "run_state (v1 sample_config ''Basic b3A='' RtEgress) sample_world =
     (\<lparr>resp_Status = 401, resp_Body = BError (MText ''unauthorized'')\<rparr>, sample_world) \<and>
   (\<exists>w'. looked sample_config sample_world w' \<and>
     run_state (v1 sample_config ''Bearer agent-token'' RtEgress) sample_world =
     run_state (as_principal sample_config (nobody\<lparr>p_agent := True\<rparr>) RtEgress) w')"
  using request_runs_as_speaker[of sample_config "''Basic b3A=''" RtEgress sample_world]
    request_runs_as_speaker[of sample_config "''Bearer agent-token''" RtEgress sample_world]
  by (simp add: Token_def HasPrefix_def sample_config_def speaker_def)

text \<open>C5. A tenant reaches its own routes and nothing else: a request that runs as a tenant and is about another
  one, about no tenant at all (the operator's routes), or about the tenant itself before it is registered and
  not to create it, is answered without reading or writing anything, without a backend call, and with an
  error that says no more than that the route is not there or not allowed.\<close>

theorem tenant_confined:
  assumes "p_tenant p \<noteq> []" "\<not> p_operator p" "\<not> p_agent p"
    and "target r \<noteq> Some (p_tenant p) \<or> \<not> p_registered p \<and> \<not> creates r"
  shows "\<exists>resp. run_state (tenantRoutes S c p r) w = (resp, w) \<and>
    (resp_Status resp, resp_Body resp) \<in> {(401, BError (MText ''unauthorized'')), (403, BError (MText ''operator only'')),
      (403, BError (MText ''a tenant token only creates its own tenant'')), (404, BError (MText ''tenant not found'')),
      (400, BError (MText ''request body must be a JSON tenant'')), (501, BError (MText ''not implemented''))}"
proof (cases "\<exists>n. target r = Some n \<and> \<not> creates r")
  case True
  then obtain n where n: "target r = Some n" "\<not> creates r" by blast
  obtain k where "tenantRoutes S c p r = ownTenant p n k" using guarded_route[OF n(2,1)] by blast
  then show ?thesis using assms n by (auto simp: ownTenant_def answer_def)
next
  case False
  then show ?thesis
    using assms by (cases r) (auto simp: operatorOnly_def egressReader_def knownCaller_def notImplemented_def Deny_def answer_def h_create_def split: option.splits)
qed

theorem tenant_confined_witness:
  "\<exists>resp. run_state (tenantRoutes sample_service ''tenant:mqx'' (nobody\<lparr>p_tenant := ''mqx'', p_registered := True\<rparr>) (RtWiFiKey ''eds'' KList)) sample_world =
      (resp, sample_world) \<and>
    (resp_Status resp, resp_Body resp) \<in> {(401, BError (MText ''unauthorized'')), (403, BError (MText ''operator only'')),
      (403, BError (MText ''a tenant token only creates its own tenant'')), (404, BError (MText ''tenant not found'')),
      (400, BError (MText ''request body must be a JSON tenant'')), (501, BError (MText ''not implemented''))}"
  by (rule tenant_confined) (simp_all add: nobody_def)

section \<open>What a response discloses\<close>

definition discloses :: "response \<Rightarrow> string set" where
  "discloses resp = set (disclosed (resp_Body resp)) - {[]}"

lemma wp_any: "(\<And>r w'. Q r w') \<Longrightarrow> wp m Q w"
  by (rule wp_runI) simp

lemma answer_empty: "set (disclosed b) \<subseteq> {[]} \<Longrightarrow> wp (answer st b) (\<lambda>resp w'. discloses resp = {}) w"
  by (auto simp: wp_answer discloses_def)

lemma wp_ifI: "(b \<Longrightarrow> wp m Q w) \<Longrightarrow> (\<not> b \<Longrightarrow> wp n Q w) \<Longrightarrow> wp (if b then m else n) Q w"
  by simp

lemma answer_silent: "disclosed b = [] \<Longrightarrow> wp (answer st b) (\<lambda>resp w'. discloses resp = {}) w"
  by (simp add: wp_answer discloses_def)

lemma fail_silent: "wp (fail e) (\<lambda>resp w'. discloses resp = {}) w"
  unfolding fail_def writeUnavailable_def
  by (intro wp_ifI answer_silent) (auto intro!: answer_silent split: option.split)

lemma render_silent: "(\<And>x. set (disclosed (f x)) \<subseteq> {[]}) \<Longrightarrow> wp (render m f) (\<lambda>resp w'. discloses resp = {}) w"
  unfolding render_def wp_tryc by (rule wp_any) (auto intro: fail_silent answer_empty split: sum.split)

lemma no_content_silent: "wp (no_content m) (\<lambda>resp w'. discloses resp = {}) w"
  unfolding no_content_def wp_tryc by (rule wp_any) (auto simp: fail_silent intro!: answer_silent split: sum.split)

lemma partial_silent:
  "(\<And>m x. disclosed (f m x) = []) \<Longrightarrow> (\<And>x w'. wp (ok x) (\<lambda>resp w'. discloses resp = {}) w') \<Longrightarrow>
     wp (partial m name f ok) (\<lambda>resp w'. discloses resp = {}) w"
  unfolding partial_def wp_bind
  by (rule wp_any) (auto simp: wp_simps fail_silent intro!: answer_silent split: option.split prod.split)

lemma decode_silent: "(\<And>x. wp (k x) (\<lambda>resp w'. discloses resp = {}) w) \<Longrightarrow> wp (decode b k) (\<lambda>resp w'. discloses resp = {}) w"
  unfolding decode_def by (cases b) (auto intro!: answer_silent)

lemma plain_views_silent: "set (concat (map (\<lambda>rec. tenant_secrets (view site rec oc None)) recs)) \<subseteq> {[]}"
  using plain_view_secrets[of site _ oc] by (auto simp: view_def list_all_iff)

lemma guard_silent:
  "wp k (\<lambda>resp w'. discloses resp = {}) w \<Longrightarrow> wp (operatorOnly p k) (\<lambda>resp w'. discloses resp = {}) w"
  "wp k (\<lambda>resp w'. discloses resp = {}) w \<Longrightarrow> wp (ownTenant p n k) (\<lambda>resp w'. discloses resp = {}) w"
  "wp k (\<lambda>resp w'. discloses resp = {}) w \<Longrightarrow> wp (egressReader p k) (\<lambda>resp w'. discloses resp = {}) w"
  "wp k (\<lambda>resp w'. discloses resp = {}) w \<Longrightarrow> wp (knownCaller p k) (\<lambda>resp w'. discloses resp = {}) w"
  unfolding operatorOnly_def ownTenant_def egressReader_def knownCaller_def Deny_def by (auto intro!: answer_silent)

fun issues :: "route \<Rightarrow> bool" where
  "issues (RtAdmit _) = True"
| "issues (RtCreate _) = True"
| "issues (RtReconcile _) = True"
| "issues (RtWiFiKey _ (KCreate _)) = True"
| "issues (RtBroker _ (BCreate _)) = True"
| "issues _ = False"

lemma view_silent: "set (disclosed (BTenants (map (\<lambda>rec. view site rec oc None) recs))) \<subseteq> {[]}"
  "set (disclosed (BTenant (view site rec oc None))) \<subseteq> {[]}"
  using plain_views_silent[of site oc recs] plain_views_silent[of site oc "[rec]"] by (auto simp: comp_def)

lemma plain_secret: "x \<in> set (tenant_secrets (view site rec oc None)) \<Longrightarrow> x = []"
  using view_silent(2)[of site rec oc] by auto

lemmas silent = guard_silent render_silent no_content_silent decode_silent partial_silent answer_silent fail_silent view_silent

lemma component_routes_silent:
  "wp (workloadRoutes S c p tn wr) (\<lambda>resp w'. discloses resp = {}) w"
  "\<not> issues (RtWiFiKey tn kr) \<Longrightarrow> wp (wifiKeyRoutes S c p tn kr) (\<lambda>resp w'. discloses resp = {}) w"
  "wp (deviceRoutes S c p tn dr) (\<lambda>resp w'. discloses resp = {}) w"
  "wp (addressRoutes S c p tn dev ar) (\<lambda>resp w'. discloses resp = {}) w"
  "\<not> issues (RtBroker tn br) \<Longrightarrow> wp (brokerAccountRoutes S c p tn br) (\<lambda>resp w'. discloses resp = {}) w"
  "wp (certificateRoutes S c p tn cr) (\<lambda>resp w'. discloses resp = {}) w"
proof -
  show "wp (workloadRoutes S c p tn wr) (\<lambda>resp w'. discloses resp = {}) w"
    by (cases wr) (auto simp: h_createWorkload_def h_listWorkloads_def h_getWorkload_def h_deleteWorkload_def h_putRecord_def
        h_listRecords_def h_deleteRecord_def intro!: silent)
  show "wp (wifiKeyRoutes S c p tn kr) (\<lambda>resp w'. discloses resp = {}) w" if "\<not> issues (RtWiFiKey tn kr)"
    using that by (cases kr) (auto simp: h_listWiFiKeys_def h_getWiFiKey_def h_deleteWiFiKey_def wifiKeyViewOf_def Let_def intro!: silent)
  have device: "wp (h_createDevice S c tn b) (\<lambda>resp w'. discloses resp = {}) w" for b
    unfolding h_createDevice_def
    by (rule decode_silent) (auto simp: wp_simps intro!: wp_any answer_silent fail_silent split: option.split prod.split)
  show "wp (deviceRoutes S c p tn dr) (\<lambda>resp w'. discloses resp = {}) w"
    by (cases dr) (auto simp: h_listDevices_def h_getDevice_def h_deleteDevice_def intro!: silent device)
  show "wp (addressRoutes S c p tn dev ar) (\<lambda>resp w'. discloses resp = {}) w"
    by (cases ar) (auto simp: h_createAddress_def h_getAddress_def h_deleteAddress_def intro!: silent)
  show "wp (brokerAccountRoutes S c p tn br) (\<lambda>resp w'. discloses resp = {}) w" if "\<not> issues (RtBroker tn br)"
    using that by (cases br) (auto simp: h_listBrokerAccounts_def h_getBrokerAccount_def h_deleteBrokerAccount_def brokerAccountViewOf_def
        Let_def intro!: silent)
  have cert: "wp (h_putCertificate S c tn n b) (\<lambda>resp w'. discloses resp = {}) w" for n b
    unfolding h_putCertificate_def
    by (rule decode_silent) (auto simp: wp_simps intro!: wp_any answer_silent fail_silent split: sum.split prod.split)
  show "wp (certificateRoutes S c p tn cr) (\<lambda>resp w'. discloses resp = {}) w"
    by (cases cr) (auto simp: h_listCertificates_def h_getCertificate_def h_deleteCertificate_def intro!: silent cert)
qed

text \<open>C6. Secrets leave the API only where it issues them: no read, list, update or delete answers with a zone key, a
  state key, an API, log or enrollment token, a dashboard or broker password or a Wi-Fi key, whoever asks and
  whatever the backends and the registry did meanwhile. Only admission, create, reconcile and the two
  credential creates do.\<close>

theorem secrets_only_when_issued:
  assumes "\<not> issues r"
  shows "wp (tenantRoutes S c p r) (\<lambda>resp w'. discloses resp = {}) w"
  using assms component_routes_silent
  by (cases r) (auto simp: h_revokeAdmission_def h_list_def h_get_def h_delete_def h_egress_def notImplemented_def
      intro!: guard_silent no_content_silent answer_silent render_silent dest: plain_secret)

theorem secrets_only_when_issued_witness:
  "wp (tenantRoutes sample_service ''operator'' (nobody\<lparr>p_operator := True\<rparr>) (RtGet ''eds'')) (\<lambda>resp w'. discloses resp = {}) sample_world"
  by (rule secrets_only_when_issued) simp

end
