(* ===== verification/System.thy ===== *)
theory System
  imports Server
begin

text \<open>
  The whole program over time: a session is a sequence of HTTP requests, each with the configuration
  the server answers it under, and with whatever other instances do to the registry between two statements of
  a request (the parameter \<^verbatim>\<open>sv_others\<close>, under \<open>others_ok\<close>). The theory shows that every request, whoever sends
  it and however it fails, moves the registry by the statements of the store only, and draws what follows for
  every registry a deployment can reach: its invariant, that no two workloads meet in a number, a MAC or an
  address, and that no statement changes an identity once it is given.
\<close>

section \<open>Sessions\<close>

definition handled :: "Config \<Rightarrow> http \<Rightarrow> world \<Rightarrow> world" where
  "handled cfg q w = (case serve cfg of None \<Rightarrow> w | Some h \<Rightarrow> snd (run_state (h q) w))"

definition session :: "(Config \<times> http) list \<Rightarrow> world \<Rightarrow> world" where
  "session qs w = fold (\<lambda>(cfg, q). handled cfg q) qs w"

text \<open>A configuration that serves \<open>site\<close>.\<close>

definition serves :: "Site \<Rightarrow> Config \<Rightarrow> bool" where
  "serves site cfg = (case cfg_Tenants cfg of None \<Rightarrow> True | Some S \<Rightarrow> sv_Site S = site \<and> others_ok S)"

section \<open>Every handler moves the registry by the store's statements\<close>

lemmas keeps_http = run.http_keeps

lemma keeps_tenant_handlers:
  assumes "others_ok S"
  shows "run.keeps (sv_Site S) (h_admit S c ab)" "run.keeps (sv_Site S) (h_revokeAdmission S c n)"
    "run.keeps (sv_Site S) (h_create S c p cb)" "run.keeps (sv_Site S) (h_list S)" "run.keeps (sv_Site S) (h_get S n)"
    "run.keeps (sv_Site S) (h_delete S c n)" "run.keeps (sv_Site S) (h_reconcile S c n)" "run.keeps (sv_Site S) (h_egress S)"
  unfolding h_admit_def h_revokeAdmission_def h_create_def created_def h_list_def h_get_def h_delete_def h_reconcile_def h_egress_def
  by (intro keeps_http keeps_intros run.tryc_keeps keeps_lifecycle keeps_Delete keeps_wifi assms)+

lemma keeps_component_routes:
  assumes "others_ok S"
  shows "run.keeps (sv_Site S) (workloadRoutes S c p tn wr)" "run.keeps (sv_Site S) (wifiKeyRoutes S c p tn kr)"
    "run.keeps (sv_Site S) (deviceRoutes S c p tn dr)" "run.keeps (sv_Site S) (addressRoutes S c p tn dev ar)"
    "run.keeps (sv_Site S) (brokerAccountRoutes S c p tn br)" "run.keeps (sv_Site S) (certificateRoutes S c p tn cr)"
proof -
  note ops = keeps_http keeps_intros run.tryc_keeps keeps_workloads keeps_wifi keeps_devices keeps_CreateDeviceAddress keeps_broker
    keeps_certificates assms
  show "run.keeps (sv_Site S) (workloadRoutes S c p tn wr)"
    by (cases wr; simp only: workloadRoutes.simps h_createWorkload_def h_listWorkloads_def h_getWorkload_def h_deleteWorkload_def
        h_putRecord_def h_listRecords_def h_deleteRecord_def; intro ops)
  show "run.keeps (sv_Site S) (wifiKeyRoutes S c p tn kr)"
    by (cases kr; simp only: wifiKeyRoutes.simps h_createWiFiKey_def h_listWiFiKeys_def h_getWiFiKey_def h_deleteWiFiKey_def; intro ops)
  show "run.keeps (sv_Site S) (deviceRoutes S c p tn dr)"
    by (cases dr; simp only: deviceRoutes.simps h_createDevice_def h_listDevices_def h_getDevice_def h_deleteDevice_def; intro ops)
  show "run.keeps (sv_Site S) (addressRoutes S c p tn dev ar)"
    by (cases ar; simp only: addressRoutes.simps h_createAddress_def h_getAddress_def h_deleteAddress_def; intro ops)
  show "run.keeps (sv_Site S) (brokerAccountRoutes S c p tn br)"
    by (cases br; simp only: brokerAccountRoutes.simps h_createBrokerAccount_def h_listBrokerAccounts_def h_getBrokerAccount_def
        h_deleteBrokerAccount_def; intro ops)
  show "run.keeps (sv_Site S) (certificateRoutes S c p tn cr)"
    by (cases cr; simp only: certificateRoutes.simps h_putCertificate_def h_listCertificates_def h_getCertificate_def
        h_deleteCertificate_def; intro ops)
qed

lemma keeps_tenantRoutes: "others_ok S \<Longrightarrow> run.keeps (sv_Site S) (tenantRoutes S c p r)"
  by (cases r; simp only: tenantRoutes.simps;
      intro keeps_component_routes keeps_http keeps_tenant_handlers)

lemma keeps_as_principal: "serves site cfg \<Longrightarrow> run.keeps site (as_principal cfg p r)"
  unfolding as_principal_def v1_mux_def
  by (auto simp: serves_def split: option.splits intro: keeps_tenantRoutes keeps_http)

lemma keeps_identify: "serves site cfg \<Longrightarrow> run.keeps site (identify cfg tok r)"
  unfolding identify_def
  by (cases "cfg_Tenants cfg")
    (auto simp: serves_def split: option.split intro!: keeps_as_principal run.tryc_keeps keeps_http keeps_lifecycle)

lemma keeps_v1: "serves site cfg \<Longrightarrow> run.keeps site (v1 cfg header r)"
  unfolding v1_def requireToken_def requireMigrated_def requireSecrets_def
  by (intro keeps_intros keeps_identify keeps_http)

lemma keeps_serve: "serves site cfg \<Longrightarrow> serve cfg = Some h \<Longrightarrow> run.keeps site (h q)"
  unfolding serve_def healthz_def readyz_def
  by (cases q) (auto split: if_splits option.split intro!: keeps_v1 keeps_http)

lemma handled_steps: "serves site cfg \<Longrightarrow> (store_step site)\<^sup>*\<^sup>* (reg w) (reg (handled cfg q w))"
  unfolding handled_def by (auto split: option.split intro: run.keepsD keeps_serve)

lemma session_steps: "list_all (serves site \<circ> fst) qs \<Longrightarrow> (store_step site)\<^sup>*\<^sup>* (reg w) (reg (session qs w))"
  unfolding session_def
proof (induction qs arbitrary: w)
  case (Cons q qs)
  then have "(store_step site)\<^sup>*\<^sup>* (reg w) (reg (handled (fst q) (snd q) w))" by (simp add: handled_steps)
  also have "(store_step site)\<^sup>*\<^sup>* \<dots> (reg (fold (\<lambda>(cfg, q). handled cfg q) qs (handled (fst q) (snd q) w)))"
    using Cons by simp
  finally show ?case by (cases q) simp
qed simp

lemma session_inv:
  "list_all (serves site \<circ> fst) qs \<Longrightarrow> Validate_site site = None \<Longrightarrow> reg w = empty_registry \<Longrightarrow> reg_inv site (reg (session qs w))"
  using registry.inv_reachable[of "reg w" site] session_steps by blast

section \<open>What the invariant gives\<close>

lemma placed_index:
  "reg_inv site r \<Longrightarrow> w \<in> set (tbl_workloads r) \<Longrightarrow> \<exists>i. (wl_Tenant w, i) \<in> set (idents r) \<and> 1 \<le> i \<and> i \<le> 62 \<and>
     0 \<le> wl_Ordinal w \<and> wl_Ordinal w < MaxWorkloads \<and> wl_VMID w = WorkloadVMID site i (wl_Ordinal w) \<and>
     wl_MAC w = MAC site (wl_VMID w) \<and> wl_Address w = WorkloadAddress site i (wl_Ordinal w)"
  by (fastforce simp: reg_inv_def Let_def workloads_ok_def placed_def idents_ok_def)

lemma same_place:
  assumes "reg_inv site r" "v \<in> set (tbl_workloads r)" "w \<in> set (tbl_workloads r)"
    and "(wl_Tenant v, i) \<in> set (idents r)" "(wl_Tenant w, i) \<in> set (idents r)" "wl_Ordinal v = wl_Ordinal w"
  shows "v = w"
proof -
  have "wl_Tenant v = wl_Tenant w"
    using assms idents_ok_name by (auto simp: reg_inv_def Let_def)
  moreover have "unique_on (\<lambda>w. (wl_Tenant w, wl_Ordinal w)) (tbl_workloads r)"
    using assms(1) by (simp add: reg_inv_def Let_def workloads_ok_def)
  ultimately show ?thesis
    using assms by (auto simp: unique_on_def distinct_map inj_on_def)
qed

lemma workload_identity:
  assumes "reg_inv site r" "v \<in> set (tbl_workloads r)" "w \<in> set (tbl_workloads r)"
  shows "wl_VMID v = wl_VMID w \<Longrightarrow> v = w" "wl_Address v = wl_Address w \<Longrightarrow> v = w"
    "wl_MAC v = wl_MAC w \<Longrightarrow> 0 < site_TenantVMIDBase site \<Longrightarrow> site_TenantVMIDBase site \<le> 16774696 \<Longrightarrow> v = w"
proof -
  obtain i where i: "(wl_Tenant v, i) \<in> set (idents r)" "1 \<le> i" "i \<le> 62" "0 \<le> wl_Ordinal v" "wl_Ordinal v < MaxWorkloads"
      "wl_VMID v = WorkloadVMID site i (wl_Ordinal v)" "wl_MAC v = MAC site (wl_VMID v)" "wl_Address v = WorkloadAddress site i (wl_Ordinal v)"
    using placed_index assms(1,2) by blast
  obtain j where j: "(wl_Tenant w, j) \<in> set (idents r)" "1 \<le> j" "j \<le> 62" "0 \<le> wl_Ordinal w" "wl_Ordinal w < MaxWorkloads"
      "wl_VMID w = WorkloadVMID site j (wl_Ordinal w)" "wl_MAC w = MAC site (wl_VMID w)" "wl_Address w = WorkloadAddress site j (wl_Ordinal w)"
    using placed_index assms(1,3) by blast
  show vmid: "v = w" if "wl_VMID v = wl_VMID w"
    using that i j WorkloadVMID_inj[OF i(4,5) j(4,5)] same_place[OF assms] by metis
  show "v = w" if "wl_Address v = wl_Address w"
    using that i j WorkloadAddress_inj same_place[OF assms] by metis
  show "v = w" if mac: "wl_MAC v = wl_MAC w" and base: "0 < site_TenantVMIDBase site" "site_TenantVMIDBase site \<le> 16774696"
  proof (rule vmid)
    show "wl_VMID v = wl_VMID w"
      using mac i j MAC_inj WorkloadVMID_bounds[OF base i(2-5)] WorkloadVMID_bounds[OF base j(2-5)] by metis
  qed
qed

lemma unique_workloads:
  assumes "reg_inv site r" "\<And>v w. v \<in> set (tbl_workloads r) \<Longrightarrow> w \<in> set (tbl_workloads r) \<Longrightarrow> f v = f w \<Longrightarrow> v = w"
  shows "unique_on f (tbl_workloads r)"
proof -
  have "distinct (tbl_workloads r)"
    using assms(1) by (auto simp: reg_inv_def Let_def workloads_ok_def unique_on_def distinct_map)
  then show ?thesis using assms(2) by (auto simp: unique_on_def distinct_map inj_on_def)
qed

section \<open>A session for the witnesses\<close>

text \<open>Another instance creates the tenant \<open>eds\<close> and makes it ready; this one gives it two workloads.\<close>

definition applied :: "'a tx \<Rightarrow> registry \<Rightarrow> registry" where
  "applied t r = (case t r of Inl _ \<Rightarrow> r | Inr (_, r') \<Rightarrow> r')"

definition shared_service :: service where
  "shared_service = quiet_service\<lparr>sv_others := (\<lambda>_ r. applied (tx_set_status ''eds'' StatusReady)
     (applied (tx_create ''eds'' no_secrets (\<lambda>held. pickIndex ''eds'' 0 held [])) r))\<rparr>"

definition shared_config :: Config where
  "shared_config = sample_config\<lparr>cfg_Tenants := Some shared_service\<rparr>"

definition workload_request :: "string \<Rightarrow> http" where
  "workload_request name = V1 ''Bearer operator-token'' (RtWorkload ''eds'' (WCreate (Some (web_workload\<lparr>wq_Name := name\<rparr>))))"

definition first_day :: "(Config \<times> http) list" where
  "first_day = [(shared_config, workload_request ''web''), (shared_config, workload_request ''db'')]"

lemma applied_steps: "(\<And>x r'. t r = Inr (x, r') \<Longrightarrow> store_step site r r') \<Longrightarrow> (store_step site)\<^sup>*\<^sup>* r (applied t r)"
  by (auto simp: applied_def split: sum.split)

lemma shared_serves: "serves sample_site shared_config"
proof -
  have "(store_step site)\<^sup>*\<^sup>* r (applied (tx_set_status ''eds'' StatusReady) (applied (tx_create ''eds'' no_secrets (\<lambda>held. pickIndex ''eds'' 0 held [])) r))"
    for site r
    by (rule rtranclp_trans; rule applied_steps) (auto intro: store_step.create store_step.set_status)
  then show ?thesis
    by (simp add: serves_def shared_config_def shared_service_def others_ok_def quiet_service_def)
qed

lemma first_day_serves: "list_all (serves sample_site \<circ> fst) first_day"
  by (simp add: first_day_def shared_serves)

lemma first_day_works: "map wl_VMID (tbl_workloads (reg (session first_day empty_world))) = [5040, 5041]"
  by code_simp

lemma sample_site_valid: "Validate_site sample_site = None"
  by (simp add: Validate_site_def sample_site_def check_class_def check_range_def class_name_def prefix_IsValid_def Is4_def
      prefix_Contains_def Compare_def addr_zone_def addr_bits_def addr_value_def)

section \<open>Columns no statement changes\<close>

text \<open>\<open>fixed key col rows rows'\<close>: a row that is still there has the same \<open>col\<close>.\<close>

definition fixed :: "('r \<Rightarrow> 'k) \<Rightarrow> ('r \<Rightarrow> 'c) \<Rightarrow> 'r list \<Rightarrow> 'r list \<Rightarrow> bool" where
  "fixed key col rows rows' =
     (\<forall>k x y. get_row key k rows = Some x \<longrightarrow> get_row key k rows' = Some y \<longrightarrow> col y = col x)"

lemma fixed_refl: "fixed key col rows rows"
  by (simp add: fixed_def)

lemma fixed_append: "fixed key col rows (rows @ [x])"
  by (auto simp: fixed_def get_row_append)

lemma fixed_update: "(\<And>x. key (f x) = key x) \<Longrightarrow> (\<And>x. col (f x) = col x) \<Longrightarrow> fixed key col rows (update_row key k f rows)"
  by (auto simp: fixed_def get_update_row split: if_splits)

lemma fixed_delete: "fixed key col rows (delete_row key j rows)"
  by (auto simp: fixed_def get_delete_row split: if_splits)

lemma fixed_delete_owner:
  "(\<And>x. owner x = fst (key x)) \<Longrightarrow> fixed key col rows (delete_row owner j rows)"
proof -
  assume owner: "\<And>x. owner x = fst (key x)"
  have "get_row key k (delete_row owner j rows) = (if fst k = j then None else get_row key k rows)" for k
    by (induction rows) (auto simp: get_row_def delete_row_def owner)
  then show ?thesis by (auto simp: fixed_def split: if_splits)
qed

lemma fixed_upsert:
  "(\<And>old. key (upd old x) = key old) \<Longrightarrow> (\<And>old. col (upd old x) = col old) \<Longrightarrow> fixed key col rows (upsert_row key upd x rows)"
  by (auto simp: upsert_row_def intro: fixed_append fixed_update)

definition given :: "registry \<Rightarrow> registry \<Rightarrow> bool" where
  "given r r' =
     (fixed tn_name tn_idx (tbl_tenants r) (tbl_tenants r') \<and>
      fixed wl_key (\<lambda>w. (wl_Ordinal w, wl_VMID w, wl_MAC w, wl_Address w)) (tbl_workloads r) (tbl_workloads r') \<and>
      fixed wk_key wk_TrustClass (tbl_wifi_keys r) (tbl_wifi_keys r') \<and>
      fixed dv_key dv_TrustClass (tbl_devices r) (tbl_devices r') \<and>
      fixed ad_key (\<lambda>a. (ad_class a, ad_address a)) (tbl_addresses r) (tbl_addresses r'))"

section \<open>Properties of the system\<close>

text \<open>C9. Refinement: whatever HTTP request is served, by whoever is asking, with whatever the backends, the
  database and the other instances do meanwhile, the registry moves only by the statements of the store: the
  abstract machine \<open>store_step\<close> simulates the server.\<close>

theorem server_refines_store:
  assumes "serves site cfg"
  shows "(store_step site)\<^sup>*\<^sup>* (reg w) (reg (handled cfg q w))"
  using assms by (rule handled_steps)

theorem server_refines_store_witness:
  "map tn_name (tbl_tenants (reg (handled shared_config (workload_request ''web'') empty_world))) = [''eds''] \<and>
   (store_step sample_site)\<^sup>*\<^sup>* empty_registry (reg (handled shared_config (workload_request ''web'') empty_world))"
proof
  show "map tn_name (tbl_tenants (reg (handled shared_config (workload_request ''web'') empty_world))) = [''eds'']" by code_simp
  show "(store_step sample_site)\<^sup>*\<^sup>* empty_registry (reg (handled shared_config (workload_request ''web'') empty_world))"
    using server_refines_store[OF shared_serves, of empty_world] by (simp add: empty_world_def)
qed

text \<open>C2. The registry is sound at every moment of a deployment: from the empty registry, after any sequence of
  requests, its keys are unique, every row belongs to a registered tenant, every tenant holds an index of its
  own between 1 and 62, a workload has the number, MAC and address its place derives, and a fixed address is in
  the range of its class, held once, and within its tenant's share.\<close>

theorem registry_always_sound:
  assumes "Validate_site site = None" "list_all (serves site \<circ> fst) qs" "reg w = empty_registry"
  shows "reg_inv site (reg (session qs w))"
  using assms by (intro session_inv)

theorem registry_always_sound_witness:
  "map wl_VMID (tbl_workloads (reg (session first_day empty_world))) = [5040, 5041] \<and>
   reg_inv sample_site (reg (session first_day empty_world))"
  using registry_always_sound[OF sample_site_valid first_day_serves, of empty_world] first_day_works by (simp add: empty_world_def)

text \<open>C10. No two tenants of a site ever share an index, no two workloads a VMID or an address, whichever tenants they
  belong to and however they came to be; nor a MAC, on a site whose VMIDs all fit in the three bytes of the MAC, which is when they start
  at 16774696 or below. Other instances may write at any time.\<close>

theorem workload_identities_unique:
  assumes "Validate_site site = None" "list_all (serves site \<circ> fst) qs" "reg w = empty_registry"
  shows "unique_on tn_idx (tbl_tenants (reg (session qs w))) \<and> unique_on wl_VMID (tbl_workloads (reg (session qs w))) \<and>
    unique_on wl_Address (tbl_workloads (reg (session qs w))) \<and>
    (site_TenantVMIDBase site \<le> 16774696 \<longrightarrow> unique_on wl_MAC (tbl_workloads (reg (session qs w))))"
proof -
  note inv = session_inv[OF assms(2,1,3)]
  have "unique_on tn_idx (tbl_tenants (reg (session qs w)))"
    using inv by (auto simp: reg_inv_def Let_def idents_ok_def idents_def unique_on_def comp_def)
  then show ?thesis
    using workload_identity[OF inv] Validate_site_numbers[OF assms(1)] by (auto intro!: unique_workloads[OF inv])
qed

theorem workload_identities_unique_witness:
  "map wl_VMID (tbl_workloads (reg (session first_day empty_world))) = [5040, 5041] \<and>
   unique_on wl_MAC (tbl_workloads (reg (session first_day empty_world))) \<and>
   unique_on wl_Address (tbl_workloads (reg (session first_day empty_world)))"
  using workload_identities_unique[OF sample_site_valid first_day_serves, of empty_world] first_day_works
  by (simp add: empty_world_def sample_site_def)

text \<open>An identity is given once: no statement of the store, whoever runs it, changes a tenant's index, a
  workload's ordinal, VMID, MAC or address, the trust class of a Wi-Fi key or of a device, or the class and the address
  reserved for a device; each is the same for as long as its row exists.\<close>

lemma identity_given_once:
  assumes "store_step site r r'"
  shows "given r r'"
  using assms
  by cases (auto simp: given_def tx_defs tx_create_def tx_record_step_def tx_delete_tenant_def cascade_tenant_def tx_create_workload_def
      tx_put_record_def tx_put_wifi_key_def tx_put_device_def tx_delete_device_def tx_create_address_def tx_put_broker_account_def
      tx_put_certificate_def upd_tenant_def Let_def key_defs wl_resize_def wk_update_def dv_update_def
      intro!: fixed_refl fixed_append fixed_update fixed_delete fixed_delete_owner fixed_upsert split: if_splits option.splits sum.splits)

end
