(* ===== verification/Isolation.thy ===== *)
theory Isolation
  imports Server
begin

text \<open>
  What a request about a tenant can reach. \<open>without n\<close> is the registry with everything of the tenant \<open>n\<close>
  taken out; \<open>about site n i\<close> says that a backend call names nothing but what belongs to the tenant \<open>n\<close> with
  index \<open>i\<close>. The locale \<open>guarded_world\<close> follows a run that starts in a sound state, with what the results
  of its reads are known to be; its instance \<open>own\<close> shows that every operation for \<open>n\<close> leaves \<open>without n\<close> as it
  was and makes only calls about \<open>n\<close>.
\<close>

section \<open>Runs from a sound state\<close>

locale guarded_world = world_preorder "\<lambda>w w'. I w \<longrightarrow> I w' \<and> R w w'" for I :: "world \<Rightarrow> bool" and R :: "world \<Rightarrow> world \<Rightarrow> bool"
begin

definition yields :: "('a \<Rightarrow> bool) \<Rightarrow> (err + 'a) io \<Rightarrow> bool" where
  "yields P m = (keeps m \<and> (\<forall>w x. I w \<longrightarrow> fst (run_state m w) = Inr x \<longrightarrow> P x))"

lemma yields_keeps: "yields P m \<Longrightarrow> keeps m"
  by (simp add: yields_def)

lemma yieldsI: "keeps m \<Longrightarrow> (\<And>w. I w \<Longrightarrow> wp m (\<lambda>r w'. \<forall>x. r = Inr x \<longrightarrow> P x) w) \<Longrightarrow> yields P m"
  by (auto simp: yields_def wp_def case_prod_beta)

lemma tryc_yields:
  assumes "yields P m" "\<And>e. keeps (h e)" "\<And>x. P x \<Longrightarrow> keeps (k x)"
  shows "keeps (tryc m h k)"
proof (rule keepsI)
  fix w
  obtain r w' where run: "run_state m w = (r, w')" by fastforce
  have m: "I w \<longrightarrow> I w' \<and> R w w'"
    using keepsD[OF yields_keeps[OF assms(1)], of w] run by simp
  have next_step: "I w' \<longrightarrow> I w'' \<and> R w' w''" if "w'' = snd (run_state (case r of Inl e \<Rightarrow> h e | Inr x \<Rightarrow> k x) w')" "I w" for w''
    using that assms(1,2,3) run by (auto simp: yields_def keeps_def split: sum.split)
  show "I w \<longrightarrow> I (snd (run_state (tryc m h k) w)) \<and> R w (snd (run_state (tryc m h k) w))"
  proof
    assume "I w"
    have eq: "snd (run_state (tryc m h k) w) = snd (run_state (case r of Inl e \<Rightarrow> h e | Inr x \<Rightarrow> k x) w')"
      by (simp add: tryc_def run)
    show "I (snd (run_state (tryc m h k) w)) \<and> R w (snd (run_state (tryc m h k) w))"
      unfolding eq using R_trans[of w w' "snd (run_state (case r of Inl e \<Rightarrow> h e | Inr x \<Rightarrow> k x) w')"] m next_step \<open>I w\<close> by blast
  qed
qed

lemma orerr_yields: "yields P m \<Longrightarrow> (\<And>x. P x \<Longrightarrow> keeps (k x)) \<Longrightarrow> keeps (orerr m k)"
  unfolding orerr_def by (intro tryc_yields keeps_return)

lemma getOrNone_yields: "yields P m \<Longrightarrow> yields (pred_option P) (getOrNone m)"
  using getOrNone_keeps[of m]
  by (auto simp: yields_def getOrNone_def case_prod_beta split: sum.splits if_splits)

end

section \<open>What belongs to a tenant\<close>

definition without :: "string \<Rightarrow> registry \<Rightarrow> registry" where
  "without n r = (cascade_tenant n r)\<lparr>tbl_audit := [], tbl_admission_keys := delete_row ak_Tenant n (tbl_admission_keys r)\<rparr>"

definition numbered :: "Site \<Rightarrow> int \<Rightarrow> int \<Rightarrow> string \<Rightarrow> bool" where
  "numbered site i vmid address = (\<exists>m. 0 \<le> m \<and> m < MaxWorkloads \<and> vmid = WorkloadVMID site i m \<and> address = WorkloadAddress site i m)"

definition at_index :: "Site \<Rightarrow> int \<Rightarrow> Workload \<Rightarrow> bool" where
  "at_index site i w = numbered site i (wl_VMID w) (wl_Address w)"

definition indexed :: "Site \<Rightarrow> string \<Rightarrow> int \<Rightarrow> registry \<Rightarrow> bool" where
  "indexed site n i r =
     ((\<forall>t. get_row tn_name n (tbl_tenants r) = Some t \<longrightarrow> tn_idx t = i) \<and>
      (\<forall>w \<in> set (tbl_workloads r). wl_Tenant w = n \<longrightarrow> at_index site i w))"

definition tenant_zones :: "Site \<Rightarrow> string \<Rightarrow> int \<Rightarrow> string list" where
  "tenant_zones site n i = [Zone site n, num_ReverseZone (Numbering_of site i)]"

text \<open>A name on a controller, of a reservation, or on a certificate.\<close>

definition own_name :: "string \<Rightarrow> string \<Rightarrow> bool" where
  "own_name n x = (\<exists>rest. x = n @ ''-'' @ rest)"

fun about :: "Site \<Rightarrow> string \<Rightarrow> int \<Rightarrow> call \<Rightarrow> bool" where
  "about site n i (CDNSEnsure d) = (dns_KeyName d = n \<and> dns_Zones d = tenant_zones site n i)"
| "about site n i (CDNSRemove d) = (dns_KeyName d = n \<and> dns_Zones d = tenant_zones site n i)"
| "about site n i (CEnsureRecords z rz _) = ([z, rz] = tenant_zones site n i)"
| "about site n i (CRemoveRecords z rz _) = ([z, rz] = tenant_zones site n i)"
| "about site n i (CResolverEnsure fws) = (map fw_Domain fws = tenant_zones site n i)"
| "about site n i (CResolverRemove zs) = (zs = tenant_zones site n i)"
| "about site n i (CStateEnsure st) = (ss_User st = n \<and> ss_Prefix st = statePrefix site n)"
| "about site n i (CStateRemove u) = (u = n)"
| "about site n i (CNetworkEnsure nw) = (nw = Network site n i)"
| "about site n i (CNetworkRemove nw) = (nw = Network site n i)"
| "about site n i (CEnsureWorkload sp) = (own_name n (WorkloadSpec.sp_Name sp) \<and> sp_Tags sp = [''tenant'', n] \<and>
     (\<exists>a. sp_Address sp = a @ ''/24'' \<and> numbered site i (sp_VMID sp) a))"
| "about site n i (CRemoveWorkload node vmid) = (\<exists>a. numbered site i vmid a)"
| "about site n i (CEnsureKey k) = own_name n (ws_Name k)"
| "about site n i (CRemoveKey ssid k) = own_name n k"
| "about site n i (CEnsureReservation rv) = (\<exists>dev. rv_Description rv = reservationDescription n dev)"
| "about site n i (CRemoveReservation d) = (\<exists>dev. d = reservationDescription n dev)"
| "about site n i (CBrokerPut a) = (ba_Tenant a = n)"
| "about site n i (CBrokerRemove t _) = (t = n)"
| "about site n i (CLogPut l) = (lt_Name l = n \<and> lt_Index l = i)"
| "about site n i (CLogRemove t j) = (t = n \<and> j = i)"
| "about site n i (CDashEnsure d) = (dt_Name d = n \<and> dt_Index d = i)"
| "about site n i (CDashRemove t) = (t = n)"
| "about site n i (CSignServer csr names) = list_all (\<lambda>x. \<exists>l z. x = l @ ''.'' @ z \<and> own_zone site n z) names"
| "about site n i CClaims = True"
| "about site n i (CWrap _ _) = False"
| "about site n i (CUnwrap _) = False"

definition reaches :: "Site \<Rightarrow> string \<Rightarrow> int \<Rightarrow> world \<Rightarrow> world \<Rightarrow> bool" where
  "reaches site n i w w' = (without n (reg w') = without n (reg w) \<and>
     (\<exists>evs. trace w' = trace w @ evs \<and> list_all (\<lambda>ev. about site n i (ev_call ev)) evs))"

lemma reaches_trans: "reaches site n i w w' \<Longrightarrow> reaches site n i w' w'' \<Longrightarrow> reaches site n i w w''"
  by (auto simp: reaches_def)

lemma reaches_same: "reaches site n i w (w\<lparr>clock := m\<rparr>)"
  by (simp add: reaches_def)

interpretation own: guarded_world "\<lambda>w. indexed site n i (reg w)" "reaches site n i" for site n i
  by unfold_locales (auto simp: reaches_same intro: reaches_trans simp: reaches_def)

section \<open>Statements\<close>

text \<open>A transaction that touches nothing but the tenant's own.\<close>

definition owned :: "Site \<Rightarrow> string \<Rightarrow> int \<Rightarrow> 'a tx \<Rightarrow> bool" where
  "owned site n i f = (\<forall>r x r'. f r = Inr (x, r') \<longrightarrow> indexed site n i r \<longrightarrow> indexed site n i r' \<and> without n r' = without n r)"

lemma own_db: "alone S \<Longrightarrow> owned site n i f \<Longrightarrow> own.keeps site n i (db S f)"
  by (rule own.keepsI) (auto simp: owned_def db_def Let_def alone_def reaches_def split: dbout.splits sum.splits)

lemma own_call: "about site n i c \<Longrightarrow> own.keeps site n i (invoke b c)"
  by (rule own.keepsI) (simp add: invoke_def Let_def reaches_def)

lemma owned_read: "owned site n i (get_tx f)" "owned site n i (read_tx g)"
  by (auto simp: owned_def get_tx_def split: option.splits)

lemma delete_update:
  "(\<And>x. key x = k \<Longrightarrow> owner x = n \<and> owner (f x) = n) \<Longrightarrow> delete_row owner n (update_row key k f rows) = delete_row owner n rows"
  by (induction rows) (auto simp: delete_row_def update_row_def)

lemma delete_append: "owner x = n \<Longrightarrow> delete_row owner n (rows @ [x]) = delete_row owner n rows"
  by (simp add: delete_row_def)

lemma delete_delete: "(\<And>x. key x = k \<Longrightarrow> owner x = n) \<Longrightarrow> delete_row owner n (delete_row key k rows) = delete_row owner n rows"
  by (induction rows) (auto simp: delete_row_def)

lemma delete_upsert:
  "owner x = n \<Longrightarrow> (\<And>old. key old = key x \<Longrightarrow> owner old = n \<and> owner (upd old x) = n) \<Longrightarrow>
     delete_row owner n (upsert_row key upd x rows) = delete_row owner n rows"
  by (auto simp: upsert_row_def delete_append delete_update)

lemmas delete_own = delete_update delete_append delete_delete delete_upsert

lemma withoutI:
  assumes "delete_row tn_name n (tbl_tenants r') = delete_row tn_name n (tbl_tenants r)"
    and "delete_row sr_tenant n (tbl_steps r') = delete_row sr_tenant n (tbl_steps r)"
    and "delete_row wl_Tenant n (tbl_workloads r') = delete_row wl_Tenant n (tbl_workloads r)"
    and "delete_row er_Tenant n (tbl_records r') = delete_row er_Tenant n (tbl_records r)"
    and "delete_row wk_Tenant n (tbl_wifi_keys r') = delete_row wk_Tenant n (tbl_wifi_keys r)"
    and "delete_row ak_Tenant n (tbl_admission_keys r') = delete_row ak_Tenant n (tbl_admission_keys r)"
    and "delete_row dv_Tenant n (tbl_devices r') = delete_row dv_Tenant n (tbl_devices r)"
    and "delete_row ba_Tenant n (tbl_broker_accounts r') = delete_row ba_Tenant n (tbl_broker_accounts r)"
    and "delete_row ad_tenant n (tbl_addresses r') = delete_row ad_tenant n (tbl_addresses r)"
    and "delete_row ct_Tenant n (tbl_certificates r') = delete_row ct_Tenant n (tbl_certificates r)"
  shows "without n r' = without n r"
  using assms by (simp add: without_def cascade_tenant_def)

text \<open>A statement that leaves the tenants' indexes and the tenant's workloads as they are keeps \<open>indexed\<close>.\<close>

lemma indexed_same:
  "indexed site n i (r\<lparr>tbl_steps := steps\<rparr>) = indexed site n i r" "indexed site n i (r\<lparr>tbl_records := recs\<rparr>) = indexed site n i r"
  "indexed site n i (r\<lparr>tbl_wifi_keys := keys\<rparr>) = indexed site n i r" "indexed site n i (r\<lparr>tbl_admission_keys := aks\<rparr>) = indexed site n i r"
  "indexed site n i (r\<lparr>tbl_devices := devs\<rparr>) = indexed site n i r" "indexed site n i (r\<lparr>tbl_broker_accounts := accs\<rparr>) = indexed site n i r"
  "indexed site n i (r\<lparr>tbl_addresses := ads\<rparr>) = indexed site n i r" "indexed site n i (r\<lparr>tbl_certificates := certs\<rparr>) = indexed site n i r"
  by (simp_all add: indexed_def)

lemma indexed_tenant:
  "(\<And>t. tn_name (f t) = tn_name t \<and> tn_idx (f t) = tn_idx t) \<Longrightarrow>
     indexed site n i (r\<lparr>tbl_tenants := update_row tn_name k f (tbl_tenants r)\<rparr>) = indexed site n i r"
  by (auto simp: indexed_def get_update_row)

lemma owned_tenant:
  "(\<And>t. tn_name (f t) = tn_name t \<and> tn_idx (f t) = tn_idx t) \<Longrightarrow> owned site n i (upd_tenant n f)"
  by (auto simp: owned_def upd_tenant_def execOne_def indexed_tenant intro!: withoutI delete_own split: if_splits)

lemma owned_tenant_writes:
  "owned site n i (tx_set_status n st)" "owned site n i (tx_set_secrets n sealed)" "owned site n i (tx_set_org n org)"
  unfolding tx_set_status_def tx_set_secrets_def tx_set_org_def by (rule owned_tenant, simp)+

lemma owned_record_step: "owned site n i (tx_record_step n st e)"
proof -
  have "delete_row sr_tenant n (delete_row sr_key (n, st) rows @ [x]) = delete_row sr_tenant n rows" if "sr_tenant x = n" for rows x
    using that delete_append[of sr_tenant x n] delete_delete[of sr_key "(n, st)" sr_tenant n] by (simp add: sr_key_def)
  then show ?thesis
    by (auto simp: owned_def tx_record_step_def Let_def indexed_def intro!: withoutI split: if_splits)
qed

lemma owned_delete_tenant: "owned site n i (tx_delete_tenant n)"
  by (auto simp: owned_def tx_delete_tenant_def execOne_def cascade_tenant_def indexed_def get_delete_row set_delete_row
      intro!: withoutI delete_own split: if_splits)

lemma owned_audit: "owned site n i (tx_audit entry)"
  by (auto simp: owned_def tx_audit_def indexed_def intro!: withoutI)

lemma owned_workload:
  "owned site n i (tx_set_workload_status n name st)" "owned site n i (tx_delete_workload n name)"
  by (auto simp: owned_def tx_set_workload_status_def tx_delete_workload_def execOne_def wl_key_def at_index_def indexed_def set_delete_row
      intro!: withoutI delete_own dest!: set_update_row split: if_splits)

lemma next_ordinal_bounds: "next_ordinal taken 0 = Some m \<Longrightarrow> 0 \<le> m \<and> m < MaxWorkloads"
  by (auto simp: next_ordinal_find find_Some_iff)

lemma owned_create_workload:
  assumes "wl_Tenant w = n"
  shows "owned site n i (tx_create_workload site w)"
proof -
  have old: "indexed site n i r' \<and> without n r' = without n r"
    if "r' = r\<lparr>tbl_workloads := update_row wl_key (wl_key w) (\<lambda>x. wl_resize x w) (tbl_workloads r)\<rparr>" "indexed site n i r" for r r'
    using that assms
    by (auto simp: wl_key_def wl_resize_def at_index_def indexed_def intro!: withoutI delete_own dest!: set_update_row)
  have fresh: "indexed site n i r' \<and> without n r' = without n r"
    if "r' = r\<lparr>tbl_workloads := tbl_workloads r @ [w']\<rparr>" "wl_Tenant w' = n" "at_index site i w'" "indexed site n i r" for r r' w'
    using that by (auto simp: indexed_def intro!: withoutI delete_own)
  have placed: "at_index site i (w\<lparr>wl_Ordinal := m, wl_VMID := WorkloadVMID site (tn_idx t) m, wl_MAC := mac,
      wl_Address := WorkloadAddress site (tn_idx t) m\<rparr>)"
    if "get_row tn_name n (tbl_tenants r) = Some t" "indexed site n i r" "next_ordinal taken 0 = Some m" for t r m mac taken
    using that next_ordinal_bounds[OF that(3)] by (auto simp: at_index_def numbered_def indexed_def)
  show ?thesis
  proof (unfold owned_def, intro allI impI)
    fix r x r' assume run: "tx_create_workload site w r = Inr (x, r')" "indexed site n i r"
    show "indexed site n i r' \<and> without n r' = without n r"
    proof (cases "get_row wl_key (wl_key w) (tbl_workloads r)")
      case None
      then show ?thesis
        using run assms by (intro fresh[where w' = x]) (auto simp: tx_create_workload_def Let_def split: option.splits if_splits intro: placed)
    next
      case (Some o)
      then show ?thesis using run by (intro old) (auto simp: tx_create_workload_def split: if_splits)
    qed
  qed
qed

text \<open>The other tables: the statement's owner is the tenant, and the tenants and workloads stay.\<close>

lemma owned_records:
  "er_Tenant x = n \<Longrightarrow> owned site n i (tx_put_record x)" "owned site n i (tx_delete_record n name)"
  by (auto simp: owned_def tx_put_record_def tx_delete_record_def execOne_def indexed_same er_key_def er_update_def
      intro!: withoutI delete_own split: if_splits)

lemma owned_wifi:
  "wk_Tenant k = n \<Longrightarrow> owned site n i (tx_put_wifi_key k)" "owned site n i (tx_set_wifi_key_status n name st)"
  "owned site n i (tx_delete_wifi_key n name)"
  by (auto simp: owned_def tx_put_wifi_key_def tx_set_wifi_key_status_def tx_delete_wifi_key_def execOne_def Let_def indexed_same wk_key_def
      wk_update_def intro!: withoutI delete_own split: if_splits option.splits)

lemma owned_admission: "owned site n i (tx_delete_admission_key n)"
  by (auto simp: owned_def tx_delete_admission_key_def indexed_same intro!: withoutI delete_own)

lemma owned_devices:
  "dv_Tenant d = n \<Longrightarrow> owned site n i (tx_put_device d)" "owned site n i (tx_delete_device n name)"
  by (auto simp: owned_def tx_put_device_def tx_delete_device_def Let_def indexed_same dv_key_def ad_key_def dv_update_def
      intro!: withoutI delete_own split: if_splits option.splits)

lemma owned_addresses:
  "da_Tenant a = n \<Longrightarrow> owned site n i (tx_create_address a pick)" "owned site n i (tx_set_address_status n name st)"
  "owned site n i (tx_delete_address n name)"
  by (auto simp: owned_def tx_create_address_def tx_set_address_status_def set_address_status_def tx_delete_address_def execOne_def
      indexed_same ad_key_def intro!: withoutI delete_own split: if_splits sum.splits)

lemma owned_accounts:
  "ba_Tenant b = n \<Longrightarrow> owned site n i (tx_put_broker_account b)" "owned site n i (tx_set_broker_account_status n name st)"
  "owned site n i (tx_delete_broker_account n name)"
  by (auto simp: owned_def tx_put_broker_account_def tx_set_broker_account_status_def tx_delete_broker_account_def execOne_def Let_def
      indexed_same ba_key_def ba_update_def intro!: withoutI delete_own split: if_splits option.splits)

lemma owned_certificates:
  "ct_Tenant x = n \<Longrightarrow> owned site n i (tx_put_certificate x)" "owned site n i (tx_delete_certificate n name)"
  by (auto simp: owned_def tx_put_certificate_def tx_delete_certificate_def Let_def indexed_same ct_key_def ct_update_def
      intro!: withoutI delete_own split: if_splits option.splits)

lemmas owned_writes = owned_read owned_tenant_writes owned_record_step owned_delete_tenant owned_audit owned_workload owned_create_workload
  owned_records owned_wifi owned_admission owned_devices owned_addresses owned_accounts owned_certificates

section \<open>Methods of the store\<close>

lemmas own_intros = own.world_intros own.sealing_keeps own.open_keys_keeps own.getOrNone_keeps own.random_keeps own.draw_psk_keeps

lemma own_reads:
  assumes "alone S"
  shows "own.keeps site n i (Store_Get S name)" "own.keeps site n i (Store_List S)" "own.keeps site n i (Store_GetWorkload S tn name)"
    "own.keeps site n i (Store_ListWorkloads S tn)" "own.keeps site n i (Store_ListRecords S tn)" "own.keeps site n i (Store_GetWiFiKey S tn name)"
    "own.keeps site n i (Store_ListWiFiKeys S tn)" "own.keeps site n i (Store_GetDevice S tn name)" "own.keeps site n i (Store_ListDevices S tn)"
    "own.keeps site n i (Store_GetDeviceAddress S tn name)" "own.keeps site n i (Store_ListDeviceAddresses S tn)"
    "own.keeps site n i (Store_ListClassAddresses S cls)" "own.keeps site n i (Store_GetBrokerAccount S tn name)"
    "own.keeps site n i (Store_ListBrokerAccounts S tn)" "own.keeps site n i (Store_GetCertificate S tn name)"
    "own.keeps site n i (Store_ListCertificates S tn)"
  unfolding Store_Get_def Store_List_def Store_GetWorkload_def Store_ListWorkloads_def Store_ListRecords_def Store_GetWiFiKey_def
    Store_ListWiFiKeys_def Store_GetDevice_def Store_ListDevices_def Store_GetDeviceAddress_def Store_ListDeviceAddresses_def
    Store_ListClassAddresses_def Store_GetBrokerAccount_def Store_ListBrokerAccounts_def Store_GetCertificate_def Store_ListCertificates_def
    tx_tenant_def tx_steps_def tx_tenants_def tx_workload_def tx_workloads_def tx_records_def tx_wifi_key_def tx_wifi_keys_def tx_device_def
    tx_devices_def tx_address_def tx_tenant_addresses_def tx_class_addresses_def tx_broker_account_def tx_broker_accounts_def
    tx_certificate_def tx_certificates_def
  by (intro own_intros own_db owned_read assms)+

lemma own_tenant_writes:
  assumes "alone S"
  shows "own.keeps site n i (Store_SetStatus S n st)" "own.keeps site n i (Store_SetSecrets S n secrets)"
    "own.keeps site n i (Store_SetDashboardOrg S n org)" "own.keeps site n i (Store_RecordStep S n sp e)" "own.keeps site n i (Store_Delete S n)"
    "own.keeps site n i (Store_Audit S entry)" "own.keeps site n i (Store_DeleteAdmissionKey S n)"
  unfolding Store_SetStatus_def Store_SetSecrets_def Store_SetDashboardOrg_def Store_RecordStep_def Store_Delete_def Store_Audit_def
    Store_DeleteAdmissionKey_def
  by (intro own_intros own_db owned_writes assms)+

lemma own_writes:
  assumes "alone S"
  shows "wl_Tenant w = n \<Longrightarrow> own.keeps (sv_Site S) n i (Store_CreateWorkload S w)" "own.keeps site n i (Store_SetWorkloadStatus S n name st)"
    "own.keeps site n i (Store_DeleteWorkload S n name)" "er_Tenant x = n \<Longrightarrow> own.keeps site n i (Store_PutRecord S x)"
    "own.keeps site n i (Store_DeleteRecord S n name)" "wk_Tenant k = n \<Longrightarrow> own.keeps site n i (Store_PutWiFiKey S k)"
    "own.keeps site n i (Store_SetWiFiKeyStatus S n name st)" "own.keeps site n i (Store_DeleteWiFiKey S n name)"
    "dv_Tenant d = n \<Longrightarrow> own.keeps site n i (Store_PutDevice S d)" "own.keeps site n i (Store_DeleteDevice S n name)"
    "da_Tenant a = n \<Longrightarrow> own.keeps site n i (Store_CreateDeviceAddress S a pick)"
    "own.keeps site n i (Store_SetDeviceAddressStatus S n name st)" "own.keeps site n i (Store_DeleteDeviceAddress S n name)"
    "ba_Tenant b = n \<Longrightarrow> own.keeps site n i (Store_PutBrokerAccount S b)" "own.keeps site n i (Store_SetBrokerAccountStatus S n name st)"
    "own.keeps site n i (Store_DeleteBrokerAccount S n name)" "ct_Tenant c = n \<Longrightarrow> own.keeps site n i (Store_PutCertificate S c)"
    "own.keeps site n i (Store_DeleteCertificate S n name)"
  unfolding Store_CreateWorkload_def Store_SetWorkloadStatus_def Store_DeleteWorkload_def Store_PutRecord_def Store_DeleteRecord_def
    Store_PutWiFiKey_def Store_SetWiFiKeyStatus_def Store_DeleteWiFiKey_def Store_PutDevice_def Store_DeleteDevice_def
    Store_CreateDeviceAddress_def Store_SetDeviceAddressStatus_def Store_DeleteDeviceAddress_def Store_PutBrokerAccount_def
    Store_SetBrokerAccountStatus_def Store_DeleteBrokerAccount_def Store_PutCertificate_def Store_DeleteCertificate_def
  by (intro own_intros own_db own_reads owned_writes assms; simp)+

subsection \<open>What the results are known to be\<close>

lemma own_Get:
  assumes "alone S"
  shows "own.yields site n i (\<lambda>rec. rec_Name rec = n \<and> rec_Index rec = i) (Store_Get S n)"
  by (rule own.yieldsI[OF own_reads(1)[OF assms]], rule wp_Store_Get[OF assms])
    (auto simp: record_of_def indexed_def dest: get_row_Some)

lemma own_GetWorkload:
  assumes "alone S"
  shows "own.yields site n i (\<lambda>w. wl_Tenant w = n \<and> at_index site i w) (Store_GetWorkload S n name)"
proof (rule own.yieldsI[OF own_reads(3)[OF assms]])
  fix w :: world assume "indexed site n i (reg w)"
  then show "wp (Store_GetWorkload S n name) (\<lambda>r w'. \<forall>x. r = Inr x \<longrightarrow> wl_Tenant x = n \<and> at_index site i x) w"
    unfolding Store_GetWorkload_def tx_workload_def
    by (intro wp_get[OF assms]) (auto simp: indexed_def wl_key_def dest!: get_row_Some)
qed

lemma own_GetWiFiKey:
  assumes "alone S"
  shows "own.yields site n i (\<lambda>k. wk_Tenant k = n) (Store_GetWiFiKey S n name)"
  by (rule own.yieldsI[OF own_reads(6)[OF assms]], rule wp_Store_GetWiFiKey[OF assms])
    (auto simp: wk_key_def dest!: get_row_Some)

lemma own_GetDeviceAddress:
  assumes "alone S"
  shows "own.yields site n i (\<lambda>a. da_Tenant a = n) (Store_GetDeviceAddress S n name)"
  by (rule own.yieldsI[OF own_reads(10)[OF assms]], rule wp_Store_GetDeviceAddress[OF assms]) (auto simp: address_of_row_def)

lemma own_CreateDeviceAddress:
  assumes "alone S" "da_Tenant a = n"
  shows "own.yields site n i (\<lambda>x. da_Tenant x = n) (Store_CreateDeviceAddress S a pick)"
  by (rule own.yieldsI[OF own_writes(11)[OF assms]], rule wp_Store_CreateDeviceAddress[OF assms(1)])
    (auto simp: address_of_row_def assms(2))

lemma own_PutBrokerAccount:
  assumes "alone S" "ba_Tenant a = n"
  shows "own.yields site n i (\<lambda>x. ba_Tenant x = n) (Store_PutBrokerAccount S a)"
  by (rule own.yieldsI[OF own_writes(14)[OF assms]], rule wp_Store_PutBrokerAccount[OF assms(1)])
    (auto simp: assms(2) ba_key_def dest!: get_row_Some)

lemma own_ListWiFiKeys:
  assumes "alone S"
  shows "own.yields site n i (list_all (\<lambda>k. wk_Tenant k = n)) (Store_ListWiFiKeys S n)"
proof (rule own.yieldsI[OF own_reads(7)[OF assms]])
  fix w :: world
  have opened: "wp (open_keys S ks) (case_sum (\<lambda>e w'. True) (\<lambda>xs w'. list_all (\<lambda>k. wk_Tenant k = n) xs)) v"
    if "list_all (\<lambda>k. wk_Tenant k = n) ks" for ks v
    using that
    by (induction ks arbitrary: v)
      (auto simp: wp_simps openWiFiKey_def openOne_def tick_def wp_State split: option.split sum.split)
  show "wp (Store_ListWiFiKeys S n) (\<lambda>r w'. \<forall>xs. r = Inr xs \<longrightarrow> list_all (\<lambda>k. wk_Tenant k = n) xs) w"
    unfolding Store_ListWiFiKeys_def tx_wifi_keys_def wp_orerr
    by (rule wp_read[OF assms]) (auto intro!: wp_mono[OF opened] simp: list_all_iff split: sum.splits)
qed

lemma own_ListDeviceAddresses:
  assumes "alone S"
  shows "own.yields site n i (list_all (\<lambda>a. da_Tenant a = n)) (Store_ListDeviceAddresses S n)"
proof (rule own.yieldsI[OF own_reads(11)[OF assms]])
  show "wp (Store_ListDeviceAddresses S n) (\<lambda>r w'. \<forall>xs. r = Inr xs \<longrightarrow> list_all (\<lambda>a. da_Tenant a = n) xs) w" for w
    unfolding Store_ListDeviceAddresses_def tx_tenant_addresses_def
    by (rule wp_read[OF assms]) (auto simp: list_all_iff select_addresses_def address_join_def split: option.splits)
qed

section \<open>Operations\<close>

lemma own_service:
  assumes "alone S"
  shows "own.keeps site n i (audit S c act name)" "own.keeps site n i (recordStep S n st e)" "own.keeps site n i (reload S rec)"
  unfolding audit_def recordStep_def reload_def
  by (intro own_intros own_reads own_tenant_writes assms)+

lemma own_wifi:
  assumes "alone S"
  shows "own.keeps site n i (CreateWiFiKey S c n req)" "own.keeps site n i (GetWiFiKey S n name)" "own.keeps site n i (ListWiFiKeys S n)"
    "wk_Tenant k = n \<Longrightarrow> own.keeps site n i (removeKeyFromController S k)" "own.keeps site n i (DeleteWiFiKey S c n name)"
proof -
  have remove: "own.keeps site n i (removeKeyFromController S k)" if "wk_Tenant k = n" for k
    unfolding removeKeyFromController_def using that by (intro own_intros own_call) (simp add: own_name_def)
  then show "wk_Tenant k = n \<Longrightarrow> own.keeps site n i (removeKeyFromController S k)" .
  show "own.keeps site n i (CreateWiFiKey S c n req)"
    unfolding CreateWiFiKey_def issue_key_def choosePSK_def
    by (intro own_intros own_reads own_service own_writes own_call assms) (simp_all add: own_name_def key_spec_def)
  show "own.keeps site n i (GetWiFiKey S n name)" "own.keeps site n i (ListWiFiKeys S n)"
    unfolding GetWiFiKey_def ListWiFiKeys_def by (intro own_intros own_reads assms)+
  show "own.keeps site n i (DeleteWiFiKey S c n name)"
    unfolding DeleteWiFiKey_def
    by (rule own.orerr_yields[OF own_GetWiFiKey[OF assms]]) (intro own_intros own_service own_writes remove assms)
qed

text \<open>The rules for an action whose result matters, before those that forget it.\<close>

lemmas own_known = own.tryc_yields[OF own_Get] own.orerr_yields[OF own_Get]
  own.tryc_yields[OF own.getOrNone_yields[OF own_GetWorkload]] own.orerr_yields[OF own.getOrNone_yields[OF own_GetWorkload]]
  own.orerr_yields[OF own_GetWorkload] own.orerr_yields[OF own_GetDeviceAddress] own.tryc_yields[OF own.getOrNone_yields[OF own_GetDeviceAddress]]
  own.tryc_yields[OF own_CreateDeviceAddress] own.tryc_yields[OF own_PutBrokerAccount] own.orerr_yields[OF own_ListWiFiKeys]
  own.orerr_yields[OF own_ListDeviceAddresses] own.tryc_yields[OF own_ListDeviceAddresses]

lemma own_records_call:
  "rec_Name rec = n \<and> rec_Index rec = i \<Longrightarrow> own.keeps (sv_Site S) n i (invoke b (CEnsureRecords (Zone (sv_Site S) n) (reverse_zone S rec) rs))"
  "rec_Name rec = n \<and> rec_Index rec = i \<Longrightarrow> own.keeps (sv_Site S) n i (invoke b (CRemoveRecords (Zone (sv_Site S) n) (reverse_zone S rec) rs))"
  by (auto intro!: own_call simp: tenant_zones_def reverse_zone_def)

lemma own_reservation_call:
  "da_Tenant a = n \<Longrightarrow> own.keeps site n i (invoke b (CEnsureReservation (reservation S a)))"
  "da_Tenant a = n \<Longrightarrow> own.keeps site n i (removeReservation S a)"
  unfolding removeReservation_def by (auto intro!: own_intros own_call simp: reservation_def)

lemma own_pushAddress:
  assumes "alone S" "da_Tenant a = n"
  shows "own.keeps (sv_Site S) n i (pushAddress S rv a fresh)"
  unfolding pushAddress_def Let_def assms(2)
  by (intro own_known own_intros own_records_call own_reservation_call own_writes assms)

lemma own_address_parts:
  assumes "alone S"
  shows "own.keeps site n i (nameIsFree S n name)" "own.keeps site n i (deviceHoldsName S n name)" "own.keeps site n i (holdsAddress S n address)"
    "own.keeps site n i (check_moved S n name mac held)"
  unfolding nameIsFree_def deviceHoldsName_def holdsAddress_def check_moved_def
  by (intro own_intros own_reads assms)+

lemma own_addresses:
  assumes "alone S"
  shows "own.keeps (sv_Site S) n i (CreateDeviceAddress S c n dev requested)" "own.keeps (sv_Site S) n i (GetDeviceAddress S n dev)"
    "own.keeps (sv_Site S) n i (DeleteDeviceAddress S c n dev)"
  unfolding CreateDeviceAddress_def GetDeviceAddress_def DeleteDeviceAddress_def Let_def
  by (intro own_known own_intros own_reads own_service own_address_parts own_writes own_records_call own_reservation_call own_pushAddress assms; simp)+

lemma own_put_device:
  assumes "alone S"
  shows "own.keeps (sv_Site S) n i (put_device S c n req mac existing)"
proof -
  have push: "own.keeps (sv_Site S) n i (pushAddress S rv (h\<lparr>da_MAC := m\<rparr>) fresh)" if "pred_option (\<lambda>a. da_Tenant a = n) (Some h)" for h rv m fresh
    using that own_pushAddress[OF assms] by simp
  show ?thesis
    unfolding put_device_def Let_def prod.case
    by (intro own_known own_intros own_reads own_service own_address_parts own_writes push assms; simp)
qed

lemma own_devices:
  assumes "alone S"
  shows "own.keeps (sv_Site S) n i (CreateDevice S c n req)" "own.keeps (sv_Site S) n i (GetDevice S n dev)" "own.keeps (sv_Site S) n i (ListDevices S n)"
    "own.keeps (sv_Site S) n i (DeleteDevice S c n dev)"
  unfolding CreateDevice_def GetDevice_def ListDevices_def DeleteDevice_def
  by (intro own_intros own_reads own_service own_writes own_put_device assms)+

lemma own_place_workload:
  assumes "alone S"
  shows "own.yields (sv_Site S) n i (at_index (sv_Site S) i) (place_workload S c n req)"
proof (rule own.yieldsI)
  show keeps: "own.keeps (sv_Site S) n i (place_workload S c n req)"
    unfolding place_workload_def
    by (intro own_known own_intros own_reads own_service own_address_parts own_writes assms)
      (auto simp: new_workload_def resized_def)
  fix w :: world assume inv: "indexed (sv_Site S) n i (reg w)"
  obtain r w' where run: "run_state (place_workload S c n req) w = (r, w')" by fastforce
  have after: "indexed (sv_Site S) n i (reg w')" using own.keepsD[OF keeps, of w] inv run by simp
  have row: "\<exists>row. get_row wl_key (n, wq_Name req) (tbl_workloads (reg w')) = Some row \<and> same_identity row x" if "r = Inr x" for x
    using wp_run[OF run wp_place_workload[OF assms]] that by blast
  have "at_index (sv_Site S) i x" if "r = Inr x" for x
    using row[OF that] after by (auto simp: indexed_def wl_key_def at_index_def same_identity_def dest!: get_row_Some)
  then show "wp (place_workload S c n req) (\<lambda>r w'. \<forall>x. r = Inr x \<longrightarrow> at_index (sv_Site S) i x) w"
    using run by (simp add: wp_def)
qed

lemma own_workload_call:
  "rec_Name rec = n \<and> rec_Index rec = i \<Longrightarrow> at_index (sv_Site S) i w \<Longrightarrow>
     own.keeps (sv_Site S) n i (invoke b (CEnsureWorkload (workloadSpec S rec w)))"
  "wl_Tenant w = n \<and> at_index (sv_Site S) i w \<Longrightarrow> own.keeps (sv_Site S) n i (invoke b' (CRemoveWorkload node (wl_VMID w)))"
  by (auto intro!: own_call simp: workloadSpec_def Let_def own_name_def at_index_def)

lemma own_workloads:
  assumes "alone S"
  shows "own.keeps (sv_Site S) n i (CreateWorkload S c n req)" "own.keeps (sv_Site S) n i (GetWorkload S n name)"
    "own.keeps (sv_Site S) n i (ListWorkloads S n)" "own.keeps (sv_Site S) n i (DeleteWorkload S c n name)"
    "own.keeps (sv_Site S) n i (PutRecord S c n name address)" "own.keeps (sv_Site S) n i (ListRecords S n)"
    "own.keeps (sv_Site S) n i (DeleteRecord S c n name)"
proof -
  show "own.keeps (sv_Site S) n i (CreateWorkload S c n req)"
    unfolding CreateWorkload_def
    by (intro own_known own.tryc_yields[OF own_place_workload] own_intros own_writes own_records_call own_workload_call assms; assumption)
  show "own.keeps (sv_Site S) n i (DeleteWorkload S c n name)"
    unfolding DeleteWorkload_def
    by (intro own_known own_intros own_service own_writes own_records_call own_workload_call assms; assumption)
  show "own.keeps (sv_Site S) n i (PutRecord S c n name address)"
    unfolding PutRecord_def
    by (intro own_known own_intros own_service own_writes own_records_call own_address_parts assms) simp_all
  show "own.keeps (sv_Site S) n i (DeleteRecord S c n name)"
    unfolding DeleteRecord_def
    by (intro own_known own_intros own_reads own_service own_writes own_records_call assms)
  show "own.keeps (sv_Site S) n i (GetWorkload S n name)" "own.keeps (sv_Site S) n i (ListWorkloads S n)" "own.keeps (sv_Site S) n i (ListRecords S n)"
    unfolding GetWorkload_def ListWorkloads_def ListRecords_def by (intro own_intros own_reads assms)+
qed

lemma own_broker:
  assumes "alone S"
  shows "own.keeps site n i (CreateBrokerAccount S c n req)" "own.keeps site n i (GetBrokerAccount S n name)"
    "own.keeps site n i (ListBrokerAccounts S n)" "own.keeps site n i (DeleteBrokerAccount S c n name)"
proof -
  have parts: "own.keeps site n i (checkBrokerDevice S n dev)" "own.keeps site n i (chooseBrokerSecret S pw a)" for dev pw a
    unfolding checkBrokerDevice_def chooseBrokerSecret_def bcrypt_hash_def by (intro own_intros own_reads assms)+
  show "own.keeps site n i (CreateBrokerAccount S c n req)"
    unfolding CreateBrokerAccount_def Let_def
    by (intro own_known own_intros own_reads own_service own_writes own_call parts assms) simp_all
  show "own.keeps site n i (GetBrokerAccount S n name)" "own.keeps site n i (ListBrokerAccounts S n)"
    unfolding GetBrokerAccount_def ListBrokerAccounts_def by (intro own_intros own_reads assms)+
  show "own.keeps site n i (DeleteBrokerAccount S c n name)"
    unfolding DeleteBrokerAccount_def by (intro own_intros own_reads own_service own_writes own_call assms) simp
qed

lemma certificate_request_about:
  assumes "certificate_request S n name req = Inr (names, csr, fp)"
  shows "about (sv_Site S) n i (CSignServer csr' names)"
proof -
  obtain labels sites where l: "certificateLabels name (cq_Names req) = Inr labels" "certificateSites (sv_Site S) (cq_Sites req) = Inr sites"
      "names = certificateNames (sv_Site S) n labels sites"
    using assms by (auto simp: certificate_request_def split: sum.splits)
  show ?thesis
    using certificateNames_own_zone[OF l(1,2)] unfolding l(3) about.simps list_all_iff by blast
qed

lemma own_issue_certificate:
  assumes "alone S" "certificate_request S n name req = Inr (names, csr, fp)"
  shows "own.keeps (sv_Site S) n i (issue_certificate S c sg n name names csr fp)"
  unfolding issue_certificate_def now_def
  by (intro own_intros own_service own_writes own_call certificate_request_about[OF assms(2)] assms(1)) simp

lemma own_certificates:
  assumes "alone S"
  shows "own.keeps (sv_Site S) n i (PutCertificate S c n name req)" "own.keeps (sv_Site S) n i (GetCertificate S n name)"
    "own.keeps (sv_Site S) n i (ListCertificates S n)" "own.keeps (sv_Site S) n i (DeleteCertificate S c n name)"
proof -
  show "own.keeps (sv_Site S) n i (PutCertificate S c n name req)"
    unfolding PutCertificate_def now_def
    by (cases "certificate_request S n name req") (auto intro!: own_intros own_reads own_issue_certificate assms)
  show "own.keeps (sv_Site S) n i (GetCertificate S n name)" "own.keeps (sv_Site S) n i (ListCertificates S n)"
    "own.keeps (sv_Site S) n i (DeleteCertificate S c n name)"
    unfolding GetCertificate_def ListCertificates_def DeleteCertificate_def by (intro own_intros own_reads own_service own_writes assms)+
qed

section \<open>Reconcile and delete\<close>

definition own_record :: "string \<Rightarrow> int \<Rightarrow> Record \<Rightarrow> bool" where
  "own_record n i rec = (rec_Name rec = n \<and> rec_Index rec = i)"

lemma own_lifecycle_calls:
  assumes "own_record n i rec"
  shows "own.keeps (sv_Site S) n i (invoke b1 (CDNSEnsure (dnsTenant S rec)))" "own.keeps (sv_Site S) n i (invoke b2 (CDNSRemove (dnsTenant S rec)))"
    "own.keeps (sv_Site S) n i (invoke b3 (CResolverEnsure (forwards S rec)))" "own.keeps (sv_Site S) n i (invoke b4 (CResolverRemove (zones S rec)))"
    "own.keeps (sv_Site S) n i (invoke b5 (CStateEnsure (stateTenant S rec)))" "own.keeps (sv_Site S) n i (invoke b6 (CStateRemove (rec_Name rec)))"
    "own.keeps (sv_Site S) n i (network S rec)" "own.keeps (sv_Site S) n i (removeNetwork S rec)"
  unfolding network_def removeNetwork_def using assms
  by (intro own_intros own_call;
      simp add: own_record_def dnsTenant_def zones_def tenant_zones_def forwards_def stateTenant_def Let_def)+

lemma own_log_dash:
  assumes "alone S" "own_record n i rec"
  shows "own.keeps site n i (ensureLogTokens S rec)" "own.keeps site n i (removeLogTokens S rec)" "own.keeps site n i (ensureDashboards S rec)"
    "own.keeps site n i (removeDashboards S rec)"
proof -
  have n: "rec_Name rec = n" "rec_Index rec = i" using assms(2) by (simp_all add: own_record_def)
  show "own.keeps site n i (ensureLogTokens S rec)" "own.keeps site n i (removeLogTokens S rec)"
    unfolding ensureLogTokens_def removeLogTokens_def Let_def n
    by (intro own_intros own_tenant_writes own_call assms(1); simp add: log_tenant_def n)+
  show "own.keeps site n i (ensureDashboards S rec)" "own.keeps site n i (removeDashboards S rec)"
    unfolding ensureDashboards_def put_dashboards_def removeDashboards_def Let_def n
    by (intro own_intros own_tenant_writes own_call assms(1); simp)+
qed

lemma own_reload:
  assumes "alone S" "own_record n i rec" "\<And>fresh. own_record n i fresh \<Longrightarrow> own.keeps site n i (k fresh)"
  shows "own.keeps site n i (State_Monad.bind (reload S rec) k)"
proof -
  have n: "rec_Name rec = n" using assms(2) by (simp add: own_record_def)
  have "State_Monad.bind (reload S rec) k = tryc (Store_Get S n) (\<lambda>_. k rec) k"
    unfolding reload_def n tryc_def by (rule state_ext) (simp add: case_prod_beta split: sum.split)
  then show ?thesis
    using assms by (simp add: own.tryc_yields[OF own_Get] own_record_def)
qed

lemma own_each: "list_all (\<lambda>x. own.keeps site n i (f x)) xs \<Longrightarrow> own.keeps site n i (each f xs)"
  by (induction xs) (auto intro!: own_intros)

lemma own_ensureAddresses:
  assumes "alone S" "own_record n i rec"
  shows "own.keeps (sv_Site S) n i (ensureAddresses S rv rec)"
proof -
  have n: "rec_Name rec = n" "rec_Name rec = n \<and> rec_Index rec = i" using assms(2) by (simp_all add: own_record_def)
  have one: "own.keeps (sv_Site S) n i (ensure_address S rv rec a)" if "da_Tenant a = n" for a
    unfolding ensure_address_def n(1) by (intro own_intros own_reservation_call own_records_call n(2) that)
  have all: "own.keeps (sv_Site S) n i (each (ensure_address S rv rec) addrs)" if "list_all (\<lambda>a. da_Tenant a = n) addrs" for addrs
    using that one by (intro own_each) (simp add: list_all_iff)
  show ?thesis
    unfolding ensureAddresses_def n(1) by (intro all own_known own_intros assms(1))
qed

lemma own_ensure_steps:
  assumes "alone S" "own_record n i rec"
  shows "list_all (\<lambda>st. own.keeps (sv_Site S) n i (snd st)) (ensure_steps S rec)"
  unfolding ensure_steps_def
  by (auto split: option.split intro!: own_reload own.erro_keeps own_lifecycle_calls own_log_dash own_ensureAddresses assms)

lemma own_ensure_loop:
  assumes "alone S" "own_record n i rec" "list_all (\<lambda>st. own.keeps (sv_Site S) n i (snd st)) sts"
  shows "own.keeps (sv_Site S) n i (ensure_loop S rec sts)"
proof -
  have n: "rec_Name rec = n" using assms(2) by (simp add: own_record_def)
  show ?thesis
    using assms(3)
    by (induction sts) (auto simp: n intro!: own_intros own_service own_tenant_writes assms(1))
qed

lemma own_Reconcile:
  assumes "alone S"
  shows "own.keeps (sv_Site S) n i (Reconcile S c n)"
  unfolding Reconcile_def ensure_def Let_def
  by (intro own_known own_intros own_service own_ensure_loop own_ensure_steps assms) (simp_all add: own_record_def)

lemma own_delete_steps:
  assumes "alone S" "own_record n i rec" "list_all (\<lambda>k. wk_Tenant k = n) keys" "list_all (\<lambda>a. da_Tenant a = n) addrs"
  shows "list_all (\<lambda>st. own.keeps (sv_Site S) n i (delete_step S n st)) (delete_steps S n rec keys accounts addrs)"
proof -
  have keys: "own.keeps (sv_Site S) n i (each (\<lambda>k. erro (removeKeyFromController S k)) keys)"
    using assms(3) by (intro own_each) (auto simp: list_all_iff intro!: own.erro_keeps own_wifi(4)[OF assms(1)])
  have addrs: "own.keeps (sv_Site S) n i (each (\<lambda>a. erro (removeReservation S a)) addrs)"
    using assms(4) by (intro own_each) (auto simp: list_all_iff intro!: own.erro_keeps own_reservation_call)
  have accounts: "own.keeps (sv_Site S) n i (each (\<lambda>a. erro (invoke bw (CBrokerRemove n (ba_Name a)))) accounts)" for bw
    by (intro own_each) (auto simp: list_all_iff intro!: own.erro_keeps own_call)
  have "list_all (\<lambda>st. own.keeps (sv_Site S) n i (snd st)) (delete_steps S n rec keys accounts addrs)"
    unfolding delete_steps_def
    by (auto split: option.split intro!: own.erro_keeps own_lifecycle_calls own_log_dash keys addrs accounts own_intros assms)
  then show ?thesis
    by (auto simp: list_all_iff delete_step_def intro!: own_intros own_service[OF assms(1)])
qed

lemma own_Delete:
  assumes "alone S"
  shows "own.keeps (sv_Site S) n i (Delete S c n)"
proof -
  have get: "own.yields (sv_Site S) n i (\<lambda>rec. rec_Name rec = n \<and> rec_Index rec = i) (Get S n)"
    using own_Get[OF assms, of "sv_Site S" n i] by (auto simp: Get_def own.yields_def own_intros)
  show ?thesis
    unfolding Delete_def
    by (intro own.orerr_yields[OF get] own_each own_delete_steps own_known own_intros own_reads own_service own_tenant_writes own_call assms)
      (simp_all add: own_record_def)
qed

section \<open>Routes\<close>

fun subject :: "route \<Rightarrow> string option" where
  "subject (RtReconcile n) = Some n"
| "subject r = target r"

lemma own_component_routes:
  assumes "alone S"
  shows "own.keeps (sv_Site S) n i (workloadRoutes S c p n wr)" "own.keeps (sv_Site S) n i (wifiKeyRoutes S c p n kr)"
    "own.keeps (sv_Site S) n i (deviceRoutes S c p n dr)" "own.keeps (sv_Site S) n i (addressRoutes S c p n dev ar)"
    "own.keeps (sv_Site S) n i (brokerAccountRoutes S c p n br)" "own.keeps (sv_Site S) n i (certificateRoutes S c p n cr)"
proof -
  note ops = own.http_keeps own_workloads own_wifi own_devices own_addresses own_broker own_certificates own_intros assms
  show "own.keeps (sv_Site S) n i (workloadRoutes S c p n wr)"
    by (cases wr; simp only: workloadRoutes.simps h_createWorkload_def h_listWorkloads_def h_getWorkload_def h_deleteWorkload_def
        h_putRecord_def h_listRecords_def h_deleteRecord_def; intro ops)
  show "own.keeps (sv_Site S) n i (wifiKeyRoutes S c p n kr)"
    by (cases kr; simp only: wifiKeyRoutes.simps h_createWiFiKey_def h_listWiFiKeys_def h_getWiFiKey_def h_deleteWiFiKey_def; intro ops)
  show "own.keeps (sv_Site S) n i (deviceRoutes S c p n dr)"
    by (cases dr; simp only: deviceRoutes.simps h_createDevice_def h_listDevices_def h_getDevice_def h_deleteDevice_def; intro ops)
  show "own.keeps (sv_Site S) n i (addressRoutes S c p n dev ar)"
    by (cases ar; simp only: addressRoutes.simps h_createAddress_def h_getAddress_def h_deleteAddress_def; intro ops)
  show "own.keeps (sv_Site S) n i (brokerAccountRoutes S c p n br)"
    by (cases br; simp only: brokerAccountRoutes.simps h_createBrokerAccount_def h_listBrokerAccounts_def h_getBrokerAccount_def
        h_deleteBrokerAccount_def; intro ops)
  show "own.keeps (sv_Site S) n i (certificateRoutes S c p n cr)"
    by (cases cr; simp only: certificateRoutes.simps h_putCertificate_def h_listCertificates_def h_getCertificate_def
        h_deleteCertificate_def; intro ops)
qed

lemma own_tenant_handlers:
  assumes "alone S"
  shows "own.keeps (sv_Site S) n i (h_get S n)" "own.keeps (sv_Site S) n i (h_delete S c n)" "own.keeps (sv_Site S) n i (h_reconcile S c n)"
  unfolding h_get_def h_delete_def h_reconcile_def Get_def
  by (intro own.http_keeps own_Delete own_Reconcile own_reads own_intros assms)+

lemma own_tenantRoutes:
  "alone S \<Longrightarrow> subject r = Some n \<Longrightarrow> \<not> creates r \<Longrightarrow> own.keeps (sv_Site S) n i (tenantRoutes S c p r)"
  by (cases r) (auto intro!: own_component_routes own.guards_keep own_tenant_handlers)

lemma reg_inv_indexed:
  assumes "reg_inv site r" "get_row tn_name n (tbl_tenants r) = Some t"
  shows "indexed site n (tn_idx t) r"
proof -
  have ids: "idents_ok (idents r)" "workloads_ok site (idents r) (tbl_workloads r)" using assms(1) by (simp_all add: reg_inv_def Let_def)
  have "tn_idx t = j" if "(n, j) \<in> set (idents r)" for j
    using idents_ok_index[OF ids(1) get_tenant_idents[OF assms(2)] that] .
  then show ?thesis
    using ids(2) assms(2) by (fastforce simp: indexed_def workloads_ok_def placed_def at_index_def numbered_def)
qed

section \<open>Properties of the component\<close>

text \<open>C1. Tenants are isolated from end to end. Whoever sends it, a request about a registered tenant (any route under its
  name, the create apart), run while no other request writes the registry (\<open>alone\<close>), leaves the rows of every other tenant exactly as
  they were (the audit log, which names whom it was about, is not compared), and every call it makes to
  a backend is about that tenant and its index: its zones, its state prefix, its network, VMIDs and
  addresses of its own block, keys, reservations, accounts and logins under its name, certificates for its
  own zones. This holds on every path, failed backends and a failing database included.\<close>

theorem tenant_request_isolated:
  assumes "alone S" "subject r = Some n" "\<not> creates r"
    and "reg_inv (sv_Site S) (reg w)" "get_row tn_name n (tbl_tenants (reg w)) = Some t"
  shows "wp (tenantRoutes S c p r) (\<lambda>resp w'. without n (reg w') = without n (reg w) \<and>
    list_all (\<lambda>ev. about (sv_Site S) n (tn_idx t) (ev_call ev)) (sent w w')) w"
proof -
  have "reaches (sv_Site S) n (tn_idx t) w (snd (run_state (tenantRoutes S c p r) w))"
    using own.keepsD[OF own_tenantRoutes[OF assms(1-3)]] reg_inv_indexed[OF assms(4,5)] by blast
  then show ?thesis by (auto simp: wp_def reaches_def sent_def case_prod_beta)
qed

definition pair_world :: world where
  "pair_world = empty_world\<lparr>reg := empty_registry\<lparr>tbl_tenants := [sample_tenant ''eds'' 3, sample_tenant ''mqx'' 4]\<rparr>\<rparr>"

lemma pair_names: "ValidName ''eds''" "ValidName ''mqx''"
  by code_simp+

lemma pair_world_inv: "reg_inv sample_site (reg pair_world)"
  using pair_names
  by (simp add: reg_inv_def Let_def pair_world_def empty_world_def empty_registry_def idents_def idents_ok_def sample_tenant_def table_ok_def
      workloads_ok_def addresses_ok_def unique_on_def share_def less_imp_le[OF AddressQuota_pos])

definition operator_web :: "response io" where
  "operator_web = tenantRoutes sample_service ''operator'' (nobody\<lparr>p_operator := True\<rparr>) (RtWorkload ''eds'' (WCreate (Some web_workload)))"

theorem tenant_request_isolated_witness:
  "(case run_state operator_web pair_world of (resp, w') \<Rightarrow> resp_Status resp = 201 \<and> length (sent pair_world w') = 2) \<and>
   wp operator_web (\<lambda>resp w'. without ''eds'' (reg w') = without ''eds'' (reg pair_world) \<and>
     list_all (\<lambda>ev. about sample_site ''eds'' 3 (ev_call ev)) (sent pair_world w')) pair_world"
proof
  show "case run_state operator_web pair_world of (resp, w') \<Rightarrow> resp_Status resp = 201 \<and> length (sent pair_world w') = 2"
    by code_simp
  have row: "get_row tn_name ''eds'' (tbl_tenants (reg pair_world)) = Some (sample_tenant ''eds'' 3)"
    by (simp add: pair_world_def get_row_def sample_tenant_def)
  then show "wp operator_web (\<lambda>resp w'. without ''eds'' (reg w') = without ''eds'' (reg pair_world) \<and>
     list_all (\<lambda>ev. about sample_site ''eds'' 3 (ev_call ev)) (sent pair_world w')) pair_world"
    using tenant_request_isolated[OF sample_alone(1) _ _ _ row,
        where r = "RtWorkload ''eds'' (WCreate (Some web_workload))" and c = "''operator''" and p = "nobody\<lparr>p_operator := True\<rparr>"] pair_world_inv
    by (simp add: operator_web_def sample_tenant_def)
qed

end
