(* ===== verification/Teardown.thy ===== *)
theory Teardown
  imports Lifecycle "HOL-Library.Sublist"
begin

text \<open>
  Deleting a tenant: the exact backend calls of \<^verbatim>\<open>Service.Delete\<close> (\<^verbatim>\<open>internal/tenant/service.go\<close>), in
  order, and what the registry holds while they are made. \<open>removals\<close> is the reference: the calls as a list,
  read off the rows of the registry; the lemmas show that a run makes a prefix of it, all of it when it
  succeeds, and that the tenant's row outlives them.
\<close>

section \<open>Runs that make a given list of calls\<close>

text \<open>
  \<open>emits m cs\<close>: \<open>m\<close> leaves the tenants alone and makes the calls \<open>cs\<close> in order, all of them successfully if
  it reports no error, and otherwise up to the one that failed.
\<close>

definition made :: "world \<Rightarrow> call list \<Rightarrow> bool \<Rightarrow> world \<Rightarrow> bool" where
  "made w cs d w' = (tbl_tenants (reg w') = tbl_tenants (reg w) \<and>
     (\<exists>evs. trace w' = trace w @ evs \<and> list_all (\<lambda>ev. tbl_tenants (ev_reg ev) = tbl_tenants (reg w)) evs \<and>
        prefix (map ev_call evs) cs \<and> list_all succeeded (butlast evs) \<and>
        (d \<longrightarrow> map ev_call evs = cs \<and> list_all succeeded evs)))"

definition emits :: "('e option) io \<Rightarrow> call list \<Rightarrow> bool" where
  "emits m cs = (\<forall>w. wp m (\<lambda>e w'. made w cs (e = None) w') w)"

lemma emitsD: "emits m cs \<Longrightarrow> wp m (\<lambda>e w'. made w cs (e = None) w') w"
  by (simp add: emits_def)

lemma made_trans:
  assumes "made w as True v" "made v bs d w'"
  shows "made w (as @ bs) d w'"
proof -
  obtain a b where "trace v = trace w @ a" "list_all (\<lambda>ev. tbl_tenants (ev_reg ev) = tbl_tenants (reg w)) a"
      "map ev_call a = as" "list_all succeeded a" "trace w' = trace v @ b"
      "list_all (\<lambda>ev. tbl_tenants (ev_reg ev) = tbl_tenants (reg v)) b" "prefix (map ev_call b) bs"
      "list_all succeeded (butlast b)" "d \<longrightarrow> map ev_call b = bs \<and> list_all succeeded b"
      "tbl_tenants (reg v) = tbl_tenants (reg w)" "tbl_tenants (reg w') = tbl_tenants (reg v)"
    using assms by (auto simp: made_def)
  then show ?thesis
    unfolding made_def
    by (intro conjI exI[of _ "a @ b"]) (auto simp: butlast_append list_all_iff dest: in_set_butlastD)
qed

lemma made_more: "made w as False v \<Longrightarrow> made w (as @ bs) False v"
  by (auto simp: made_def)

lemma made_weaken: "made w as True v \<Longrightarrow> made w as d v"
  by (auto simp: made_def)

lemma made_quiet: "tbl_tenants (reg w') = tbl_tenants (reg v) \<Longrightarrow> trace w' = trace v \<Longrightarrow> made w as d v \<Longrightarrow> made w as d w'"
  by (simp add: made_def)

lemma emits_ret: "emits (ret None) []"
  by (simp add: emits_def made_def wp_simps)

lemma emits_call: "emits (erro (invoke b c)) [c]"
  by (auto simp: emits_def wp_erro made_def succeeded_def intro!: wp_call)

lemma emits_skip: "emits (erro (ret (Inr ()))) []"
  by (simp add: emits_def made_def wp_simps wp_erro)

lemma emits_call_unit: "emits (erro (orerr (invoke b c) (\<lambda>_. ret (Inr ())))) [c]"
  unfolding emits_def wp_erro wp_orerr
  by (auto simp: wp_simps made_def succeeded_def simp del: wp_invoke intro!: wp_call)

lemma emits_bind:
  assumes "emits m as" "emits k bs"
    and "\<And>e w. wp (h e) (\<lambda>r w'. r \<noteq> None \<and> tbl_tenants (reg w') = tbl_tenants (reg w) \<and> trace w' = trace w) w"
  shows "emits (do { e \<leftarrow> m; (case e of None \<Rightarrow> k | Some e \<Rightarrow> h e) }) (as @ bs)"
  unfolding emits_def wp_bind
proof
  fix w
  have "wp (case e of None \<Rightarrow> k | Some e \<Rightarrow> h e) (\<lambda>e w'. made w (as @ bs) (e = None) w') v" if "made w as (e = None) v" for e v
  proof (cases e)
    case None
    then show ?thesis using that made_trans wp_mono[OF emitsD[OF assms(2)]] by (auto intro: made_trans)
  next
    case (Some x)
    then show ?thesis
      using that by (auto intro!: wp_mono[OF assms(3)] intro: made_quiet[OF _ _ made_more])
  qed
  then show "wp m (\<lambda>e. wp (case e of None \<Rightarrow> k | Some e \<Rightarrow> h e) (\<lambda>e w'. made w (as @ bs) (e = None) w')) w"
    by (rule wp_mono[OF emitsD[OF assms(1)]])
qed

lemma emits_each: "(\<And>x. x \<in> set xs \<Longrightarrow> emits (f x) (g x)) \<Longrightarrow> emits (each f xs) (concat (map g xs))"
proof (induction xs)
  case (Cons x xs)
  have "emits (do { e \<leftarrow> f x; (case e of None \<Rightarrow> each f xs | Some e \<Rightarrow> ret (Some e)) }) (g x @ concat (map g xs))"
    using Cons by (intro emits_bind) (auto simp: wp_simps)
  then show ?case by simp
qed (simp add: emits_ret)

section \<open>The calls of a deletion\<close>

text \<open>What each row of the registry stands for in the backends.\<close>

definition key_removal :: "service \<Rightarrow> WiFiKey \<Rightarrow> call list" where
  "key_removal S k = (case (sv_Wireless S, site_TrustClass (sv_Site S) (wk_TrustClass k)) of
     (Some _, Some tc) \<Rightarrow> [CRemoveKey (tc_SSID tc) (wk_Tenant k @ ''-'' @ wk_Name k)] | _ \<Rightarrow> [])"

definition removals :: "service \<Rightarrow> string \<Rightarrow> Record \<Rightarrow> WiFiKey list \<Rightarrow> BrokerAccount list \<Rightarrow> DeviceAddress list \<Rightarrow> call list" where
  "removals S name rec keys accounts addrs =
     (if sv_Dashboards S = None then [] else [CDashRemove (rec_Name rec)]) @
     (if sv_LogWriter S = None then [] else [CLogRemove (rec_Name rec) (rec_Index rec)]) @
     (if sv_BrokerWriter S = None then [] else map (\<lambda>a. CBrokerRemove name (ba_Name a)) accounts) @
     concat (map (key_removal S) keys) @
     (if sv_Reservations S = None then []
      else map (\<lambda>a. CRemoveReservation (reservationDescription (da_Tenant a) (da_Device a))) addrs) @
     (if sv_Network S = None then [] else [CNetworkRemove (Network (sv_Site S) (rec_Name rec) (rec_Index rec))]) @
     [CResolverRemove (zones S rec), CDNSRemove (dnsTenant S rec), CStateRemove (rec_Name rec)]"

lemma emits_delete_step:
  assumes "alone S" "emits (snd st) cs"
  shows "emits (delete_step S name st) cs"
proof -
  have "tbl_tenants r' = tbl_tenants r" if "tx_record_step name sp e r = Inr (u, r')" for sp e r r' u
    using that by (auto simp: tx_record_step_def Let_def split: if_splits)
  then have "wp (do { recordStep S name (fst st) (Some e); ret (Some (StepError (fst st) e)) })
      (\<lambda>r w'. r \<noteq> None \<and> tbl_tenants (reg w') = tbl_tenants (reg w) \<and> trace w' = trace w) w" for e w
    unfolding recordStep_def Store_RecordStep_def wp_bind wp_return
    by (intro wp_write assms(1)) (auto simp: same_def)
  from emits_bind[OF assms(2) emits_ret this] show ?thesis by (simp add: delete_step_def)
qed

lemma emits_Cons: "emits (delete_step S name st) a \<Longrightarrow> emits (each (delete_step S name) sts) b \<Longrightarrow>
    emits (each (delete_step S name) (st # sts)) (a @ b)"
  unfolding each.simps
  using emits_bind[of "delete_step S name st" a "each (delete_step S name) sts" b "\<lambda>e. ret (Some e)"]
  by (simp add: wp_simps)

lemma emits_removal:
  "emits (erro (removeDashboards S rec)) (if sv_Dashboards S = None then [] else [CDashRemove (rec_Name rec)])"
  "emits (erro (removeLogTokens S rec)) (if sv_LogWriter S = None then [] else [CLogRemove (rec_Name rec) (rec_Index rec)])"
  "emits (erro (removeKeyFromController S k)) (key_removal S k)"
  "emits (erro (removeReservation S a))
     (if sv_Reservations S = None then [] else [CRemoveReservation (reservationDescription (da_Tenant a) (da_Device a))])"
  "emits (erro (removeNetwork S rec))
     (if sv_Network S = None then [] else [CNetworkRemove (Network (sv_Site S) (rec_Name rec) (rec_Index rec))])"
  by (auto simp: removeDashboards_def removeLogTokens_def removeKeyFromController_def key_removal_def removeReservation_def
      removeNetwork_def emits_skip emits_call emits_call_unit split: option.splits)

lemma emits_each_single: "(\<And>x. emits (f x) [g x]) \<Longrightarrow> emits (each f xs) (map g xs)"
  using emits_each[of xs f "\<lambda>x. [g x]"] by (simp add: concat_map_singleton)

lemma emits_steps:
  assumes "alone S"
  shows "list_all2 (\<lambda>st cs. emits (snd st) cs) sts css \<Longrightarrow> emits (each (delete_step S name) sts) (concat css)"
proof (induction rule: list_all2_induct)
  case (Cons st sts cs css)
  then show ?case using emits_Cons[OF emits_delete_step[OF assms]] by (simp del: each.simps)
qed (simp add: emits_ret)

lemma emits_delete:
  assumes "alone S"
  shows "emits (each (delete_step S name) (delete_steps S name rec keys accounts addrs)) (removals S name rec keys accounts addrs)"
proof -
  have none: "concat (map (\<lambda>a. []) addrs) = ([] :: call list)" by (induction addrs) auto
  have accounts: "emits (case sv_BrokerWriter S of None \<Rightarrow> ret None | Some bw \<Rightarrow> each (\<lambda>a. erro (invoke bw (CBrokerRemove name (ba_Name a)))) accounts)
      (if sv_BrokerWriter S = None then [] else map (\<lambda>a. CBrokerRemove name (ba_Name a)) accounts)"
    by (auto split: option.splits intro!: emits_ret emits_each_single emits_call)
  have keys: "emits (each (\<lambda>k. erro (removeKeyFromController S k)) keys) (concat (map (key_removal S) keys))"
    by (rule emits_each) (rule emits_removal(3))
  have addrs: "emits (each (\<lambda>a. erro (removeReservation S a)) addrs)
      (if sv_Reservations S = None then [] else map (\<lambda>a. CRemoveReservation (reservationDescription (da_Tenant a) (da_Device a))) addrs)"
    using emits_each[of addrs "\<lambda>a. erro (removeReservation S a)", OF emits_removal(4)] none
    by (cases "sv_Reservations S") (auto simp: concat_map_singleton)
  let ?dash = "case sv_Dashboards S of None \<Rightarrow> [] | Some _ \<Rightarrow> [[CDashRemove (rec_Name rec)]]"
  let ?log = "case sv_LogWriter S of None \<Rightarrow> [] | Some _ \<Rightarrow> [[CLogRemove (rec_Name rec) (rec_Index rec)]]"
  note first = emits_removal(1)[of S rec] emits_removal(2)[of S rec]
  have dash: "list_all2 (\<lambda>st cs. emits (snd st) cs)
      (case sv_Dashboards S of None \<Rightarrow> [] | Some _ \<Rightarrow> [(StepDashboard, erro (removeDashboards S rec))]) ?dash"
    using first by (auto split: option.splits)
  have log: "list_all2 (\<lambda>st cs. emits (snd st) cs)
      (case sv_LogWriter S of None \<Rightarrow> [] | Some _ \<Rightarrow> [(StepLogStore, erro (removeLogTokens S rec))]) ?log"
    using first by (auto split: option.splits)
  have "emits (each (delete_step S name) (delete_steps S name rec keys accounts addrs)) (concat (?dash @ ?log @
      [if sv_BrokerWriter S = None then [] else map (\<lambda>a. CBrokerRemove name (ba_Name a)) accounts,
       concat (map (key_removal S) keys),
       if sv_Reservations S = None then [] else map (\<lambda>a. CRemoveReservation (reservationDescription (da_Tenant a) (da_Device a))) addrs,
       if sv_Network S = None then [] else [CNetworkRemove (Network (sv_Site S) (rec_Name rec) (rec_Index rec))],
       [CResolverRemove (zones S rec)], [CDNSRemove (dnsTenant S rec)], [CStateRemove (rec_Name rec)]]))"
    unfolding delete_steps_def
    by (intro emits_steps[OF assms] list_all2_appendI dash log)
      (simp only: list_all2_Cons list_all2_Nil snd_conv accounts keys addrs emits_removal(5) emits_call simp_thms)
  then show ?thesis by (cases "sv_Dashboards S"; cases "sv_LogWriter S") (simp_all add: removals_def)
qed

section \<open>The whole deletion\<close>

text \<open>The calls the rows of a registry stand for, and what a run of \<^verbatim>\<open>Delete\<close> from \<open>w\<close> leaves.\<close>

definition teardown :: "service \<Rightarrow> string \<Rightarrow> registry \<Rightarrow> Record \<Rightarrow> call list" where
  "teardown S name r rec = removals S name rec (filter (\<lambda>k. wk_Tenant k = name) (tbl_wifi_keys r))
     (filter (\<lambda>a. ba_Tenant a = name) (tbl_broker_accounts r)) (select_addresses r (\<lambda>a. ad_tenant a = name))"

definition deleted :: "service \<Rightarrow> string \<Rightarrow> world \<Rightarrow> err + unit \<Rightarrow> world \<Rightarrow> bool" where
  "deleted S name w res w' = (case res of
     Inl e \<Rightarrow> db_up S \<and> has_tenant (reg w) name \<longrightarrow> has_tenant (reg w') name
   | Inr _ \<Rightarrow> \<not> has_tenant (reg w') name \<and> filter (\<lambda>x. wl_Tenant x = name) (tbl_workloads (reg w)) = [] \<and>
       list_all (\<lambda>ev. succeeded ev \<and> has_tenant (ev_reg ev) name) (sent w w') \<and>
       (\<exists>t s st. get_row tn_name name (tbl_tenants (reg w)) = Some t \<and>
          map ev_call (sent w w') = CClaims # teardown S name (reg w) (record_of t s st)))"

lemma key_removal_opened: "key_removal S (k\<lparr>wk_PSK := p, wk_Unreadable := b\<rparr>) = key_removal S k"
  by (simp add: key_removal_def split: option.splits)

lemma wp_open_keys:
  assumes "\<And>e w'. same w w' \<Longrightarrow> Q (Inl e) w'"
    and "\<And>ks' w'. same w w' \<Longrightarrow> map (key_removal S) ks' = map (key_removal S) ks \<Longrightarrow> Q (Inr ks') w'"
  shows "wp (open_keys S ks) Q w"
  using assms
proof (induction ks arbitrary: w Q)
  case (Cons k ks)
  have one: "wp (openWiFiKey S k) R w" if "\<And>e w'. same w w' \<Longrightarrow> R (Inl e) w'"
    "\<And>k' w'. same w w' \<Longrightarrow> key_removal S k' = key_removal S k \<Longrightarrow> R (Inr k') w'" for R
    using that by (cases "sv_sealer S") (auto simp: openWiFiKey_def openOne_def wp_simps same_def key_removal_opened split: sum.splits)
  show ?case
    unfolding open_keys.simps wp_orerr wp_return
  proof (rule one, goal_cases)
    case (2 k' v)
    then show ?case
      using Cons.prems by (auto simp: wp_simps intro!: Cons.IH dest: same_trans)
  qed (simp add: Cons.prems(1))
qed (simp add: wp_simps)

lemma has_tenant_tables: "tbl_tenants r = tbl_tenants r' \<Longrightarrow> has_tenant r name = has_tenant r' name"
  by (simp add: has_tenant_def)

lemma has_tenant_update:
  "(\<And>t. tn_name (f t) = tn_name t) \<Longrightarrow>
     has_tenant (r\<lparr>tbl_tenants := update_row tn_name n f (tbl_tenants r)\<rparr>) name = has_tenant r name"
proof -
  assume "\<And>t. tn_name (f t) = tn_name t"
  then have "map tn_name (update_row tn_name n f (tbl_tenants r)) = map tn_name (tbl_tenants r)"
    by (auto simp: update_row_def)
  then have "tn_name ` set (update_row tn_name n f (tbl_tenants r)) = tn_name ` set (tbl_tenants r)"
    by (metis set_map)
  then show ?thesis by (simp add: has_tenant_def get_row_None)
qed

lemma gone_after_delete: "tx_delete_tenant name r = Inr (x, r') \<Longrightarrow> \<not> has_tenant r' name"
  by (auto simp: tx_delete_tenant_def execOne_def has_tenant_def cascade_tenant_def get_row_None delete_row_def split: if_splits)

lemma removals_keys:
  "map (key_removal S) keys = map (key_removal S) keys' \<Longrightarrow>
     removals S name rec keys accounts addrs = removals S name rec keys' accounts addrs"
  by (simp add: removals_def)

lemma wp_delete_run:
  assumes "alone S" "has_tenant (reg v) name" "trace v = trace w @ [ev]" "ev_call ev = CClaims" "succeeded ev" "has_tenant (ev_reg ev) name"
    and "get_row tn_name name (tbl_tenants (reg w)) = Some t" "filter (\<lambda>x. wl_Tenant x = name) (tbl_workloads (reg w)) = []"
    and "removals S name (record_of t s st) keys accounts addrs = teardown S name (reg w) (record_of t s st)"
  shows "wp (do {
      e \<leftarrow> each (delete_step S name) (delete_steps S name (record_of t s st) keys accounts addrs);
      (case e of Some e \<Rightarrow> ret (Inl e) | None \<Rightarrow> Store_Delete S name) }) (deleted S name w) v"
proof -
  let ?cs = "removals S name (record_of t s st) keys accounts addrs"
  have "wp (case e of Some e \<Rightarrow> ret (Inl e) | None \<Rightarrow> Store_Delete S name) (deleted S name w) u" if made: "made v ?cs (e = None) u" for e u
  proof (cases e)
    case (Some x)
    then show ?thesis using made assms(2) has_tenant_tables[of "reg u" "reg v"] by (simp add: wp_simps deleted_def made_def)
  next
    case None
    obtain evs where evs: "trace u = trace w @ ev # evs" "list_all (\<lambda>ev. tbl_tenants (ev_reg ev) = tbl_tenants (reg v)) evs"
        "map ev_call evs = ?cs" "list_all succeeded evs" "tbl_tenants (reg u) = tbl_tenants (reg v)"
      using made None assms(3) by (auto simp: made_def)
    have kept: "has_tenant (ev_reg x) name" if "x \<in> set evs" for x
      using that evs(2) assms(2) has_tenant_tables[of "ev_reg x" "reg v" name] by (auto simp: list_all_iff)
    have gone: "deleted S name w (Inr y) w'" if "trace w' = trace u" "\<not> has_tenant (reg w') name" for w' y
      using that evs kept assms(4-9) unfolding deleted_def by (auto simp: list_all_iff)
    have failed: "deleted S name w (Inl x) w'" if "same u w'" for x w'
      using that evs(5) assms(2) has_tenant_tables[of "reg w'" "reg v" name] by (auto simp: deleted_def same_def)
    have down: "\<not> db_up S \<Longrightarrow> deleted S name w (Inl x) w'" for x w' by (simp add: deleted_def)
    have "wp (db S (tx_delete_tenant name)) (deleted S name w) u"
    proof (cases "db_up S")
      case True
      show ?thesis by (rule wp_write_up[OF assms(1) True]) (auto intro: failed gone dest: gone_after_delete)
    next
      case False
      show ?thesis by (rule wp_write[OF assms(1)]) (auto intro: down[OF False] gone dest: gone_after_delete)
    qed
    then show ?thesis unfolding None option.case Store_Delete_def .
  qed
  then show ?thesis unfolding wp_bind by (rule wp_mono[OF emitsD[OF emits_delete[OF assms(1)]]])
qed

lemma has_tenant_status:
  "tx_set_status n st r = Inr (u, r') \<Longrightarrow> has_tenant r' name = has_tenant r name"
  unfolding tx_set_status_def upd_tenant_def by (auto simp: execOne_def has_tenant_update split: if_splits)

lemma set_status_tables:
  "tx_set_status n st r = Inr (u, r') \<Longrightarrow> tbl_wifi_keys r' = tbl_wifi_keys r \<and> tbl_broker_accounts r' = tbl_broker_accounts r \<and>
     tbl_addresses r' = tbl_addresses r \<and> tbl_devices r' = tbl_devices r"
  unfolding tx_set_status_def upd_tenant_def by (auto simp: execOne_def split: if_splits)

lemma select_addresses_tables:
  "tbl_addresses r' = tbl_addresses r \<Longrightarrow> tbl_devices r' = tbl_devices r \<Longrightarrow> select_addresses r' P = select_addresses r P"
  by (simp add: select_addresses_def address_join_def[abs_def])

lemma wp_delete_lists:
  assumes "alone S" "has_tenant (reg v) name" "trace v = trace w @ [ev]" "ev_call ev = CClaims" "succeeded ev" "has_tenant (ev_reg ev) name"
    and "get_row tn_name name (tbl_tenants (reg w)) = Some t" "filter (\<lambda>x. wl_Tenant x = name) (tbl_workloads (reg w)) = []"
    and "tbl_wifi_keys (reg v) = tbl_wifi_keys (reg w)" "tbl_broker_accounts (reg v) = tbl_broker_accounts (reg w)"
    and "tbl_addresses (reg v) = tbl_addresses (reg w)" "tbl_devices (reg v) = tbl_devices (reg w)"
  shows "wp (orerr (Store_ListWiFiKeys S name) (\<lambda>keys.
       orerr (Store_ListBrokerAccounts S name) (\<lambda>accounts.
       orerr (Store_ListDeviceAddresses S name) (\<lambda>addrs.
       do {
         e \<leftarrow> each (delete_step S name) (delete_steps S name (record_of t s st) keys accounts addrs);
         (case e of Some e \<Rightarrow> ret (Inl e) | None \<Rightarrow> Store_Delete S name)
       })))) (deleted S name w) v"
proof -
  have late: "deleted S name w (Inl e) w'" if "same v w'" for e w'
    using that assms(2) by (simp add: deleted_def same_def)
  have rows: "removals S name (record_of t s st) keys (filter (\<lambda>a. ba_Tenant a = name) (tbl_broker_accounts (reg v)))
      (select_addresses (reg v) (\<lambda>a. ad_tenant a = name)) = teardown S name (reg w) (record_of t s st)"
    if "map (key_removal S) keys = map (key_removal S) (filter (\<lambda>k. wk_Tenant k = name) (tbl_wifi_keys (reg v)))" for keys
    using removals_keys[OF that] select_addresses_tables[OF assms(11,12)] assms(9,10) by (simp add: teardown_def)
  have run: "wp (do {
      e \<leftarrow> each (delete_step S name) (delete_steps S name (record_of t s st) keys (filter (\<lambda>a. ba_Tenant a = name) (tbl_broker_accounts (reg v)))
        (select_addresses (reg v) (\<lambda>a. ad_tenant a = name)));
      (case e of Some e \<Rightarrow> ret (Inl e) | None \<Rightarrow> Store_Delete S name) }) (deleted S name w) u"
    if "same v u" "map (key_removal S) keys = map (key_removal S) (filter (\<lambda>k. wk_Tenant k = name) (tbl_wifi_keys (reg v)))" for u keys
    using that(1) assms(2,3) by (intro wp_delete_run[OF assms(1) _ _ assms(4-8) rows[OF that(2)]]) (auto simp: same_def)
  have accounts: "wp (orerr (Store_ListBrokerAccounts S name) (\<lambda>accounts. orerr (Store_ListDeviceAddresses S name) (\<lambda>addrs.
       do {
         e \<leftarrow> each (delete_step S name) (delete_steps S name (record_of t s st) keys accounts addrs);
         (case e of Some e \<Rightarrow> ret (Inl e) | None \<Rightarrow> Store_Delete S name)
       }))) (deleted S name w) u"
    if "same v u" "map (key_removal S) keys = map (key_removal S) (filter (\<lambda>k. wk_Tenant k = name) (tbl_wifi_keys (reg v)))" for u keys
    unfolding Store_ListBrokerAccounts_def tx_broker_accounts_def Store_ListDeviceAddresses_def tx_tenant_addresses_def wp_orerr
    using that by (auto intro!: wp_read[OF assms(1)] late run simp: same_def)
  show ?thesis
    unfolding Store_ListWiFiKeys_def tx_wifi_keys_def wp_orerr
    by (rule wp_read[OF assms(1)]) (auto intro!: wp_open_keys late accounts[unfolded wp_orerr] intro: same_trans)
qed

section \<open>Properties of the component\<close>

text \<open>C11. A tenant is deleted completely or is still there to be deleted. While no other request writes the registry
  (\<open>alone\<close>), when \<^verbatim>\<open>Delete\<close> reports success, it
  made exactly the calls that remove what the registry said the tenant has: the dashboards, the log users,
  each broker account, each Wi-Fi key of a class the site serves, each reservation, the network, the resolver
  forwards, the zones and the state bucket, in that order; every one of them succeeded, the tenant had no
  workload, the row was in the registry at each call, and it is gone afterwards. When it reports an error and the database takes
  its writes, the row is still there.\<close>

theorem delete_complete:
  assumes "alone S"
  shows "wp (Delete S c name) (deleted S name w) w"
proof -
  have early: "deleted S name w (Inl e) w'" if "reg w' = reg w" for e w'
    using that by (simp add: deleted_def)
  have late: "deleted S name w (Inl e) w'" if "has_tenant (reg w') name" for e w'
    using that by (simp add: deleted_def)
  have none: "sort_key f xs = [] \<longleftrightarrow> xs = []" for f :: "Workload \<Rightarrow> int" and xs by (metis length_0_conv length_sort)
  have marked: "has_tenant (reg u) name" if "tx_set_status name StatusDeleting (reg w) = Inr (x, reg u)"
      "get_row tn_name name (tbl_tenants (reg w)) = Some t" for x u t
    using has_tenant_status[OF that(1)] that(2) by (simp add: has_tenant_def)
  have lists: "wp (Store_ListWiFiKeys S name) (\<lambda>r. case r of Inl e \<Rightarrow> deleted S name w (Inl e) | Inr keys \<Rightarrow>
      wp (Store_ListBrokerAccounts S name) (\<lambda>r. case r of Inl e \<Rightarrow> deleted S name w (Inl e) | Inr accounts \<Rightarrow>
      wp (Store_ListDeviceAddresses S name) (\<lambda>r. case r of Inl e \<Rightarrow> deleted S name w (Inl e) | Inr addrs \<Rightarrow>
      wp (do {
         e \<leftarrow> each (delete_step S name) (delete_steps S name (record_of t s st) keys accounts addrs);
         (case e of Some e \<Rightarrow> ret (Inl e) | None \<Rightarrow> Store_Delete S name)
       }) (deleted S name w)))) u"
    if "tx_set_status name StatusDeleting (reg w) = Inr (x, reg v)" "reg u = (reg v)\<lparr>tbl_audit := au\<rparr>"
      "trace u = trace w @ [\<lparr>ev_call = CClaims, ev_err = None, ev_reg = reg w\<rparr>]" "get_row tn_name name (tbl_tenants (reg w)) = Some t"
      "filter (\<lambda>w. wl_Tenant w = name) (tbl_workloads (reg w)) = []" for x v u au t s st
    by (rule wp_delete_lists[unfolded wp_orerr, OF assms _ that(3)])
      (use that marked[OF that(1,4)] set_status_tables[OF that(1)] in \<open>auto simp: succeeded_def has_tenant_def\<close>)
  show ?thesis
    unfolding Delete_def Get_def Store_ListWorkloads_def tx_workloads_def Store_SetStatus_def
    by (auto simp: wp_simps same_def early none simp del: wp_invoke
        intro!: wp_Store_Get[OF assms] wp_read[OF assms] wp_call wp_write[OF assms] late[OF marked] wp_audit[OF assms] lists) (rule refl)+
qed

theorem delete_complete_witness:
  "(case run_state (Delete sample_service ''op'' ''eds'') sample_world of (r, w') \<Rightarrow> r = Inr () \<and> length (sent sample_world w') = 7) \<and>
   wp (Delete sample_service ''op'' ''eds'') (deleted sample_service ''eds'' sample_world) sample_world"
proof
  show "case run_state (Delete sample_service ''op'' ''eds'') sample_world of (r, w') \<Rightarrow> r = Inr () \<and> length (sent sample_world w') = 7"
    by code_simp
qed (rule delete_complete[OF sample_alone(1)])

end
