(* ===== verification/Creation.thy ===== *)
theory Creation
  imports Lifecycle
begin

text \<open>
  What a create hands back (\<^verbatim>\<open>Service.Create\<close>, \<^verbatim>\<open>createNew\<close>, \<^verbatim>\<open>restoreExisting\<close> and \<^verbatim>\<open>secretsFor\<close> of
  \<^verbatim>\<open>internal/tenant/service.go\<close>): the secrets pass the validation of a restore, and the token is one the
  registry will authenticate.
\<close>

section \<open>Fresh secrets\<close>

lemma wp_drawn_bytes:
  assumes "\<And>e w'. same w w' \<Longrightarrow> Q (Inl e) w'" "\<And>b w'. same w w' \<Longrightarrow> length b = n \<Longrightarrow> Q (Inr b) w'"
  shows "wp (rand_bytes S n) Q w"
  using assms by (auto simp: rand_bytes_def wp_simps same_def split: option.split)

lemma wp_randomHex_length:
  assumes "\<And>e w'. same w w' \<Longrightarrow> Q (Inl e) w'" "\<And>b w'. same w w' \<Longrightarrow> length b = 2 * n \<Longrightarrow> Q (Inr b) w'"
  shows "wp (randomHex S n) Q w"
  unfolding randomHex_def wp_orerr wp_return by (rule wp_drawn_bytes) (auto intro: assms)

lemma wp_issue_token:
  assumes "ValidName n" "\<And>e w'. same w w' \<Longrightarrow> Q (Inl e) w'" "\<And>tok w'. same w w' \<Longrightarrow> Tokens_Verify S tok = Some n \<Longrightarrow> Q (Inr tok) w'"
  shows "wp (Tokens_Issue S n) Q w"
proof -
  have issued: "Tokens_Verify S (Issue (sv_hmac S) t n r) = Some n" if "sv_Tokens S = Some t" "length r = 24" for t r
    using Verify_Issue[OF assms(1), of r "sv_hmac S" t] that by (cases r) (auto simp: Tokens_Verify_def)
  show ?thesis
    unfolding Tokens_Issue_def wp_orerr
    by (rule wp_drawn_bytes) (auto simp: wp_simps issued split: option.split intro!: assms(2,3))
qed

lemma verified_nonempty: "Tokens_Verify S tok = Some n \<Longrightarrow> tok \<noteq> []"
  using Verify_sound[of "sv_hmac S" _ tok n] by (fastforce simp: Tokens_Verify_def tokenVersion_def split: option.splits)

lemma fresh_tsig:
  assumes "length b = 32"
  shows "StdEncoding_EncodeToString b \<noteq> []" "StdEncoding_DecodeString (StdEncoding_EncodeToString b) = Some b"
  using assms b64encode_Nil[of b64std "''=''" b] StdEncoding_roundtrip[of b] by (auto simp: StdEncoding_EncodeToString_def)

text \<open>The request a tenant restores itself with: its name and index, and the secrets it was handed.\<close>

definition restore_request :: "CreateRequest \<Rightarrow> int \<Rightarrow> Issued \<Rightarrow> CreateRequest" where
  "restore_request req i issued = \<lparr>cr_Name = cr_Name req, cr_Index = i, cr_TSIGSecret = is_TSIGSecret issued,
     cr_StateSecret = is_StateSecret issued, cr_APIToken = is_APIToken issued\<rparr>"

definition own_token :: "service \<Rightarrow> CreateRequest \<Rightarrow> bool" where
  "own_token S req = (cr_APIToken req = [] \<or> Tokens_Verify S (cr_APIToken req) = Some (cr_Name req))"

definition restorable :: "service \<Rightarrow> CreateRequest \<Rightarrow> int \<Rightarrow> Issued \<Rightarrow> Secrets \<Rightarrow> bool" where
  "restorable S req i issued s =
     (let again = restore_request req i issued in
      validateCreate again = None \<and> suppliesAllSecrets again \<and> own_token S again \<and>
      sec_TSIG s = is_TSIGSecret issued \<and> sec_State s = is_StateSecret issued \<and>
      sec_APITokenHash s = HashToken S (is_APIToken issued) \<and>
      sec_LogIngest s = is_LogIngestToken issued \<and> sec_LogRead s = is_LogReadToken issued)"

lemma restorable_supplied:
  assumes "validateCreate req = None" "suppliesAllSecrets req" "own_token S req" "i = 0 \<or> MinIndex \<le> i \<and> i \<le> MaxAllocatable"
  shows "restorable S req i ((supplied_issued req)\<lparr>is_LogIngestToken := li, is_LogReadToken := lr\<rparr>)
    ((supplied_secrets S req)\<lparr>sec_LogIngest := li, sec_LogRead := lr\<rparr>)"
  using assms
  by (auto simp: restorable_def Let_def own_token_def validateCreate_def restore_request_def suppliesAllSecrets_def suppliesSecrets_def
      supplied_issued_def supplied_secrets_def no_issued_def no_secrets_def split: if_splits)

lemma restorable_fresh:
  assumes "validateCreate req = None" "i = 0 \<or> MinIndex \<le> i \<and> i \<le> MaxAllocatable"
    "length b = 32" "length state = 40" "Tokens_Verify S tok = Some (cr_Name req)"
  shows "restorable S req i \<lparr>is_LogIngestToken = li, is_LogReadToken = lr, is_DashboardPassword = [],
       is_TSIGSecret = StdEncoding_EncodeToString b, is_StateSecret = state, is_APIToken = tok\<rparr>
     (no_secrets\<lparr>sec_TSIG := StdEncoding_EncodeToString b, sec_State := state, sec_APITokenHash := HashToken S tok,
       sec_LogIngest := li, sec_LogRead := lr\<rparr>)"
  using assms fresh_tsig[OF assms(3)] verified_nonempty[OF assms(5)]
  by (auto simp: restorable_def Let_def own_token_def validateCreate_def restore_request_def suppliesAllSecrets_def suppliesSecrets_def
      split: if_splits)

lemma validated_name: "validateCreate req = None \<Longrightarrow> ValidName (cr_Name req)"
  by (auto simp: validateCreate_def split: if_splits)

lemma wp_secretsFor:
  assumes "validateCreate req = None" "own_token S req" "i = 0 \<or> MinIndex \<le> i \<and> i \<le> MaxAllocatable"
  shows "wp (secretsFor S req) (\<lambda>r w'. reg w' = reg w \<and> sent w w' = [] \<and>
    (case r of Inl e \<Rightarrow> True | Inr (issued, s) \<Rightarrow> restorable S req i issued s)) w"
  unfolding secretsFor_def
  using restorable_supplied[OF assms(1) _ assms(2,3)] restorable_fresh[OF assms(1,3)] validated_name[OF assms(1)]
  by (auto simp: wp_simps same_def Let_def split: sum.split option.splits intro!: wp_quiet(4) wp_drawn_bytes wp_randomHex_length wp_issue_token)

section \<open>Properties of the component\<close>

text \<open>C13. What a create hands out is what a restore takes back: the secrets \<^verbatim>\<open>secretsFor\<close> chooses for a request
  that passed validation, fresh or supplied, pass the validation of a restore of the same tenant at any index
  a tenant can have, with all three present; the token is one the API verifies for that tenant; and what goes
  into the registry is the same zone key, the same state secret, the hash of that token and the same log
  tokens.\<close>

theorem issued_secrets_restore:
  assumes "validateCreate req = None" "own_token S req" "i = 0 \<or> MinIndex \<le> i \<and> i \<le> MaxAllocatable"
  shows "wp (secretsFor S req) (\<lambda>r w'. reg w' = reg w \<and> sent w w' = [] \<and>
    (case r of Inl e \<Rightarrow> True | Inr (issued, s) \<Rightarrow> restorable S req i issued s)) w"
  by (rule wp_secretsFor[OF assms])

theorem issued_secrets_restore_witness:
  "wp (secretsFor sample_service create_eds) (\<lambda>r w'. reg w' = reg empty_world \<and> sent empty_world w' = [] \<and>
    (case r of Inl e \<Rightarrow> True | Inr (issued, s) \<Rightarrow> restorable sample_service create_eds 3 issued s)) empty_world"
proof -
  have "validateCreate create_eds = None" by code_simp
  then show ?thesis
    by (rule issued_secrets_restore) (simp_all add: own_token_def create_eds_def MinIndex_def MaxAllocatable_def)
qed

section \<open>The token a create hands back\<close>

text \<open>The outcome of a create that got as far as a row: the token is the tenant's, and the registry holds its hash.\<close>

definition usable :: "service \<Rightarrow> string \<Rightarrow> Result \<times> err option \<Rightarrow> world \<Rightarrow> bool" where
  "usable S n out w' = (is_APIToken (rs_Issued (fst out)) \<noteq> [] \<longrightarrow>
     Tokens_Verify S (is_APIToken (rs_Issued (fst out))) = Some n \<and>
     hashed n (HashToken S (is_APIToken (rs_Issued (fst out)))) (reg w'))"

lemma usable_no_result: "usable S n (no_result, e) w'"
  by (simp add: usable_def no_result_def no_issued_def)

lemma wp_finish:
  assumes "alone S" "hashed n h (reg v)" "rec_Name rec = n" "sec_APITokenHash (rec_Secrets rec) = h"
    and "Tokens_Verify S (is_APIToken issued) = Some n" "h = HashToken S (is_APIToken issued)"
  shows "wp (finish S rec oc issued) (usable S n) v"
proof -
  have "wp (ensure S rec) (ensured S n h v) v"
    unfolding ensure_def by (rule wp_ensure_loop[OF assms(1,3,4) ensure_steps_ok[OF assms(1,3,4)] assms(2) trace_ok_refl])
  then show ?thesis
    unfolding finish_def wp_bind
    by (rule wp_mono) (auto simp: wp_simps usable_def ensured_def assms(5,6) split: prod.splits)
qed

lemma tx_create_hashed:
  "tx_create n s pick r = Inr (t, r') \<Longrightarrow> tn_name t = n \<and> hashed n (sec_APITokenHash s) r'"
  by (auto simp: tx_create_def Let_def hashed_def has_tenant_def get_row_append get_row_single split: if_splits sum.splits option.splits)

lemma hashed_audit: "hashed n h (r\<lparr>tbl_audit := au\<rparr>) = hashed n h r"
  by (simp add: hashed_def)

lemma wp_Store_Create:
  assumes "alone S" "\<And>e w'. Q (Inl e) w'"
    and "\<And>t w'. hashed n (sec_APITokenHash s) (reg w') \<Longrightarrow> tn_name t = n \<Longrightarrow> Q (Inr (record_of t s [])) w'"
  shows "wp (Store_Create S n s pick) Q w"
  unfolding Store_Create_def wp_orerr wp_wrap wp_return
  using assms(2,3) by (intro wp_seal) (auto intro!: wp_write[OF assms(1)] dest!: tx_create_hashed)

lemma wp_createNew:
  assumes "alone S" "validateCreate req = None" "own_token S req"
  shows "wp (createNew S c req) (usable S (cr_Name req)) w"
proof -
  have tok: "Tokens_Verify S (is_APIToken issued) = Some (cr_Name req)" "sec_APITokenHash s = HashToken S (is_APIToken issued)"
    if "restorable S req 0 issued s" for issued s
    using that by (auto simp: restorable_def Let_def own_token_def restore_request_def suppliesAllSecrets_def)
  have fin: "wp (finish S (record_of t s []) oc issued) (usable S (cr_Name req)) v'"
    if "restorable S req 0 issued s" "hashed (cr_Name req) (sec_APITokenHash s) (reg v)" "tn_name t = cr_Name req" "reg v' = (reg v)\<lparr>tbl_audit := au\<rparr>"
    for issued s t oc v v' au
    using that tok[OF that(1)] by (intro wp_finish[OF assms(1)]) (auto simp: hashed_audit record_of_def)
  show ?thesis
    unfolding createNew_def
    by (auto simp: wp_simps usable_no_result Let_def split: sum.split simp del: wp_invoke
        intro!: wp_call wp_mono[OF wp_secretsFor[OF assms(2,3), of 0]] wp_Store_Create[OF assms(1)] wp_audit[OF assms(1)] fin) (assumption | rule refl)+
qed

lemma wp_restoreExisting:
  assumes "alone S" "ValidName n" "hashed n h (reg w)" "rec_Name rec = n" "suppliesAllSecrets req \<Longrightarrow> Tokens_Verify S (cr_APIToken req) = Some n"
  shows "wp (restoreExisting S c rec req oc) (usable S n) w"
proof -
  have secrets: "wp (restore_secrets S rec req) (\<lambda>r w'. same w w' \<and> (case r of Inl e \<Rightarrow> True
      | Inr (issued, s) \<Rightarrow> Tokens_Verify S (is_APIToken issued) = Some n \<and> sec_APITokenHash s = HashToken S (is_APIToken issued))) w"
    unfolding restore_secrets_def
    using assms(2,4,5) by (auto simp: wp_simps supplied_issued_def supplied_secrets_def no_issued_def intro!: wp_issue_token)
  have set: "wp (Store_SetSecrets S n s) (\<lambda>r w'. r = Inr () \<longrightarrow> hashed n (sec_APITokenHash s) (reg w')) v" if "hashed n h (reg v)" for s v
  proof -
    have "hashed n (sec_APITokenHash s) r'" if "tx_set_secrets n s' r = Inr (u, r')" "sec_APITokenHash s' = sec_APITokenHash s" "hashed n h r" for r r' s' u
      using that by (auto simp: tx_set_secrets_def upd_tenant_def execOne_def hashed_def get_row_update split: if_splits)
    then show ?thesis
      unfolding Store_SetSecrets_def wp_orerr wp_wrap
      using that by (intro wp_seal) (auto simp: same_def intro!: wp_write[OF assms(1)])
  qed
  have fin: "wp (finish S (rec\<lparr>rec_Secrets := s\<rparr>) oc issued) (usable S n) v'"
    if "Tokens_Verify S (is_APIToken issued) = Some n" "sec_APITokenHash s = HashToken S (is_APIToken issued)"
      "hashed n (HashToken S (is_APIToken issued)) (reg v)" "reg v' = (reg v)\<lparr>tbl_audit := au\<rparr>" for issued s v v' au
    using that assms(4) by (intro wp_finish[OF assms(1)]) (auto simp: hashed_audit)
  show ?thesis
    unfolding restoreExisting_def assms(4)
    using assms(3)
    by (auto simp: wp_simps usable_no_result same_def split: sum.split
        intro!: wp_mono[OF secrets] wp_mono[OF set] wp_audit[OF assms(1)] fin)
qed

lemma wp_adopt:
  assumes "alone S" "usable S n out w"
  shows "wp (adoptAdmissionKey S n') (\<lambda>_. usable S n out) w"
proof -
  have keep: "usable S n out w'" if "tbl_tenants (reg w') = tbl_tenants (reg w)" for w'
    using assms(2) that by (simp add: usable_def hashed_def)
  have put: "tbl_tenants r' = tbl_tenants r" if "tx_put_wifi_key k r = Inr (x, r')" for k r x r'
    using that by (auto simp: tx_put_wifi_key_def Let_def split: if_splits option.splits)
  have del: "tbl_tenants r' = tbl_tenants r" if "tx_delete_admission_key k r = Inr (x, r')" for k r x r'
    using that by (auto simp: tx_delete_admission_key_def)
  show ?thesis
    unfolding adoptAdmissionKey_def getOrNone_def Store_GetAdmissionKey_def tx_admission_key_def Store_PutWiFiKey_def Store_DeleteAdmissionKey_def
    by (auto simp: wp_simps same_def keep openOne_def split: sum.split option.split
        intro!: wp_get[OF assms(1)] wp_sealOne wp_write[OF assms(1)] dest!: put del)
qed

text \<open>C12. The token a create answers with works. While no other request writes the registry (\<open>alone\<close>), whenever
  \<^verbatim>\<open>Create\<close> returns an API token, on every path
  (new, restored or resumed, and also when a later step failed), the API verifies it for that tenant and the registry holds
  its hash, which is what \<^verbatim>\<open>Authenticate\<close> compares.\<close>

theorem created_token_works:
  assumes "alone S"
  shows "wp (Create S c req) (\<lambda>(res, e) w'. is_APIToken (rs_Issued res) \<noteq> [] \<longrightarrow>
    Tokens_Verify S (is_APIToken (rs_Issued res)) = Some (cr_Name req) \<and>
    (\<exists>t. get_row tn_name (cr_Name req) (tbl_tenants (reg w')) = Some t \<and>
       sec_APITokenHash (tn_secrets t) = HashToken S (is_APIToken (rs_Issued res)))) w"
proof -
  have own: "own_token S req" if "\<not> (cr_APIToken req \<noteq> [] \<and> Tokens_Verify S (cr_APIToken req) \<noteq> Some (cr_Name req))"
    using that by (auto simp: own_token_def)
  have supplied: "Tokens_Verify S (cr_APIToken req) = Some (cr_Name req)" if "own_token S req" "suppliesAllSecrets req"
    using that by (auto simp: own_token_def suppliesAllSecrets_def)
  have row: "\<exists>h. hashed (cr_Name req) h (reg w)" if "get_row tn_name (cr_Name req) (tbl_tenants (reg w)) = Some t" for t
    using that by (auto simp: hashed_def)
  have restore: "wp (restoreExisting S c (record_of t s st) req oc) (usable S (cr_Name req)) v"
    if "validateCreate req = None" "own_token S req" "same w v" "get_row tn_name (cr_Name req) (tbl_tenants (reg w)) = Some t" for t s st oc v
    using that row[OF that(4)] validated_name get_row_Some[OF that(4)] supplied
    by (auto simp: same_def record_of_def intro!: wp_restoreExisting[OF assms])
  have "wp (Create S c req) (usable S (cr_Name req)) w"
    unfolding Create_def
    using own
    by (auto simp: wp_simps usable_no_result getOrNone_def split: option.split status.split
        intro!: wp_Store_Get[OF assms] wp_mono[OF wp_createNew[OF assms]] restore wp_mono[OF restore] wp_mono[OF wp_adopt[OF assms]])
  then show ?thesis by (rule wp_mono) (auto simp: usable_def hashed_def)
qed

theorem created_token_works_witness:
  "wp (Create sample_service ''op'' create_eds) (\<lambda>(res, e) w'. is_APIToken (rs_Issued res) = [] \<or>
    Tokens_Verify sample_service (is_APIToken (rs_Issued res)) = Some ''eds'' \<and>
    (\<exists>t. get_row tn_name ''eds'' (tbl_tenants (reg w')) = Some t \<and>
       sec_APITokenHash (tn_secrets t) = HashToken sample_service (is_APIToken (rs_Issued res)))) empty_world"
  by (rule wp_mono[OF created_token_works[OF sample_alone(1)]]) (auto simp: create_eds_def)

end
