(* ===== verification/LogWriter.thy ===== *)
theory LogWriter
  imports LogContract
begin

text \<open>
  \<^verbatim>\<open>cmd/deevnet-log-user\<close>: the program that keeps the users of the log store's proxy. It stores one file per
  tenant, renders the whole configuration from the base file and every tenant file, and has the proxy
  reload it. The files, the rendered document and the document the proxy runs on are the state; what the
  host answers to each operation on a file and to the reload is a parameter of a run. A reader of the rendered text
  (\<open>read_document\<close>) finds in it what the contract with the API grants.
\<close>

section \<open>Configuration\<close>

record log_base =
  lb_Backend :: string
  lb_OperatorToken :: string
  lb_BridgeToken :: string

record tenantFile =
  lf_Version :: int
  lf_Tenant :: string
  lf_Index :: int
  lf_IngestToken :: string
  lf_ReadToken :: string

datatype writer_error = NoBackend | BadTenantFile string log_error | BadToken string log_error

definition file_request :: "tenantFile \<Rightarrow> LogRequest" where
  "file_request t = \<lparr>lr_Version = log_Version, lr_Op = log_OpPut, lr_Tenant = lf_Tenant t, lr_Index = lf_Index t,
     lr_IngestToken = lf_IngestToken t, lr_ReadToken = lf_ReadToken t\<rparr>"

definition validTenant :: "tenantFile \<Rightarrow> writer_error option" where
  "validTenant t = map_option (BadTenantFile (lf_Tenant t)) (Validate_log (file_request t))"

text \<open>\<^verbatim>\<open>validToken\<close> of the writer: a request for a tenant of its own, the token twice, once with an \<open>x\<close>.\<close>

definition writer_validToken :: "string \<Rightarrow> string \<Rightarrow> writer_error option" where
  "writer_validToken field tok = map_option (BadToken field) (Validate_log
     \<lparr>lr_Version = log_Version, lr_Op = log_OpPut, lr_Tenant = ''x'', lr_Index = 1, lr_IngestToken = tok, lr_ReadToken = tok @ ''x''\<rparr>)"

section \<open>Routes\<close>

definition selectPaths :: string where "selectPaths = ''[\"/select/.*\"]''"
definition insertPaths :: string where "insertPaths = ''[\"/insert/.*\"]''"
definition partitionHeader :: string where "partitionHeader = ''X-Deevnet-Partition''"
definition tenantHeader :: string where "tenantHeader = ''X-Deevnet-Tenant''"

record proxy_route =
  pr_paths :: string
  pr_selector :: string
  pr_account :: int
  pr_project :: int

definition partition_selector :: "int \<Rightarrow> int \<Rightarrow> string" where
  "partition_selector account project = partitionHeader @ '': '' @ itoa account @ ''-'' @ itoa project"

definition tenantSelector :: "string \<Rightarrow> string" where
  "tenantSelector name = tenantHeader @ '': '' @ name"

definition withSelectorsFirst :: "proxy_route list \<Rightarrow> proxy_route list" where
  "withSelectorsFirst rs = filter (\<lambda>r. pr_selector r \<noteq> []) rs @ filter (\<lambda>r. pr_selector r = []) rs"

text \<open>The entries a reader selects among: the three partitions of one tenant.\<close>

definition selected :: "tenantFile \<Rightarrow> proxy_route list" where
  "selected t = map (\<lambda>p. \<lparr>pr_paths = selectPaths, pr_selector = partition_selector (lf_Index t) p, pr_account = lf_Index t, pr_project = p\<rparr>) [0, 1, 2]"

definition operator_routes :: "tenantFile list \<Rightarrow> proxy_route list" where
  "operator_routes ts = \<lparr>pr_paths = selectPaths, pr_selector = [], pr_account = 0, pr_project = 0\<rparr> # concat (map selected ts)"

definition ingest_routes :: "tenantFile \<Rightarrow> proxy_route list" where
  "ingest_routes t = [\<lparr>pr_paths = insertPaths, pr_selector = [], pr_account = lf_Index t, pr_project = 0\<rparr>]"

definition read_routes :: "tenantFile \<Rightarrow> proxy_route list" where
  "read_routes t = \<lparr>pr_paths = selectPaths, pr_selector = [], pr_account = lf_Index t, pr_project = 0\<rparr> # selected t"

definition bridge_routes :: "tenantFile list \<Rightarrow> proxy_route list" where
  "bridge_routes ts = map (\<lambda>t. \<lparr>pr_paths = insertPaths, pr_selector = tenantSelector (lf_Tenant t), pr_account = lf_Index t, pr_project = 2\<rparr>) ts"

section \<open>The users\<close>

record proxy_user =
  pu_name :: string
  pu_token :: string
  pu_routes :: "proxy_route list"

definition operator_user :: "log_base \<Rightarrow> tenantFile list \<Rightarrow> proxy_user" where
  "operator_user b ts = \<lparr>pu_name = ''operator-read'', pu_token = lb_OperatorToken b, pu_routes = withSelectorsFirst (operator_routes ts)\<rparr>"

definition tenant_users :: "tenantFile \<Rightarrow> proxy_user list" where
  "tenant_users t =
     [\<lparr>pu_name = ''ingest-'' @ lf_Tenant t, pu_token = lf_IngestToken t, pu_routes = ingest_routes t\<rparr>,
      \<lparr>pu_name = ''read-'' @ lf_Tenant t, pu_token = lf_ReadToken t, pu_routes = withSelectorsFirst (read_routes t)\<rparr>]"

definition bridge_users :: "log_base \<Rightarrow> tenantFile list \<Rightarrow> proxy_user list" where
  "bridge_users b ts =
     (if bridge_routes ts = [] then [] else [\<lparr>pu_name = ''mqtt-bridge'', pu_token = lb_BridgeToken b, pu_routes = bridge_routes ts\<rparr>])"

fun first_bad :: "tenantFile list \<Rightarrow> writer_error option" where
  "first_bad [] = None"
| "first_bad (t # ts) = (case validTenant t of Some e \<Rightarrow> Some e | None \<Rightarrow> first_bad ts)"

text \<open>The users \<^verbatim>\<open>render\<close> writes, in the order it writes them, or the error it stops at.\<close>

definition render_users :: "log_base \<Rightarrow> tenantFile list \<Rightarrow> writer_error + proxy_user list" where
  "render_users b ts =
     (if lb_Backend b = [] then Inl NoBackend
      else (case writer_validToken ''operator_token'' (lb_OperatorToken b) of Some e \<Rightarrow> Inl e
      | None \<Rightarrow> (case first_bad ts of Some e \<Rightarrow> Inl e
      | None \<Rightarrow>
         if lb_BridgeToken b = [] then Inr (operator_user b ts # concat (map tenant_users ts))
         else (case writer_validToken ''bridge_token'' (lb_BridgeToken b) of Some e \<Rightarrow> Inl e
           | None \<Rightarrow> Inr (operator_user b ts # concat (map tenant_users ts) @ bridge_users b ts)))))"

section \<open>The document\<close>

text \<open>
  Go's \<^verbatim>\<open>%q\<close> for ASCII text, which is all the validated values and a URL are made of: quotes and
  backslashes are escaped, and so is every control character.
\<close>

definition NL :: char where "NL = CHR 0x0A"

definition quote_char :: "char \<Rightarrow> string" where
  "quote_char c =
     (if c = CHR 0x22 \<or> c = CHR 0x5C then [CHR 0x5C, c]
      else if c = CHR 0x07 then [CHR 0x5C, CHR ''a''] else if c = CHR 0x08 then [CHR 0x5C, CHR ''b'']
      else if c = CHR 0x0C then [CHR 0x5C, CHR ''f''] else if c = NL then [CHR 0x5C, CHR ''n'']
      else if c = CHR 0x0D then [CHR 0x5C, CHR ''r''] else if c = CHR 0x09 then [CHR 0x5C, CHR ''t'']
      else if c = CHR 0x0B then [CHR 0x5C, CHR ''v'']
      else if CHR '' '' \<le> c \<and> c \<le> CHR ''~'' then [c]
      else [CHR 0x5C, CHR ''x''] @ hexEncode [c])"

definition Quote :: "string \<Rightarrow> string" where
  "Quote s = [CHR 0x22] @ concat (map quote_char s) @ [CHR 0x22]"

text \<open>The lines \<^verbatim>\<open>writeUser\<close> prints.\<close>

definition route_lines :: "string \<Rightarrow> proxy_route \<Rightarrow> string list" where
  "route_lines backend r =
     [''      - src_paths: '' @ pr_paths r] @
     (if pr_selector r \<noteq> [] then [''        src_headers: ['' @ Quote (pr_selector r) @ '']''] else []) @
     [''        url_prefix: '' @ Quote backend,
      ''        headers:'',
      ''          - \"AccountID: '' @ itoa (pr_account r) @ [CHR 0x22],
      ''          - \"ProjectID: '' @ itoa (pr_project r) @ [CHR 0x22],
      ''          - '' @ Quote (partitionHeader @ '':''),
      ''          - '' @ Quote (tenantHeader @ '':'')]"

definition writeUser :: "string \<Rightarrow> proxy_user \<Rightarrow> string list" where
  "writeUser backend u =
     [''  - name: '' @ Quote (pu_name u), ''    bearer_token: '' @ Quote (pu_token u), ''    url_map:''] @
     concat (map (route_lines backend) (pu_routes u))"

definition header_lines :: "nat \<Rightarrow> string list" where
  "header_lines n =
     [''# Generated by deevnet-log-user. Do not edit.'', ''#'',
      ''# Sources: the base file (Ansible) and '' @ dec n @ '' tenant file(s) (the Deevnet API).'',
      ''# Editing this file by hand lasts until the next tenant is created.'', [], ''users:'']"

definition doc_lines :: "log_base \<Rightarrow> tenantFile list \<Rightarrow> proxy_user list \<Rightarrow> string list" where
  "doc_lines b ts us = header_lines (length ts) @ concat (map (writeUser (lb_Backend b)) us)"

definition log_render :: "log_base \<Rightarrow> tenantFile list \<Rightarrow> writer_error + string" where
  "log_render b ts = (case render_users b ts of Inl e \<Rightarrow> Inl e
     | Inr us \<Rightarrow> Inr (concat (map (\<lambda>l. l @ [NL]) (doc_lines b ts us))))"

section \<open>The state and a run\<close>

text \<open>
  The directory of tenant files, by file name (\<open>None\<close> is a file that does not parse), the rendered document, and
  the one the proxy has loaded.
\<close>

record log_state =
  ls_files :: "(string \<times> tenantFile option) list"
  ls_auth :: string
  ls_live :: string

text \<open>What the host answers: the base file, and whether each operation succeeds.\<close>

record log_host =
  lh_config :: bool
  lh_base :: "log_base option"
  lh_put :: bool
  lh_remove :: bool
  lh_list :: bool
  lh_auth :: bool
  lh_reload :: bool

datatype log_message = NoMessage | Fixed string | Invalid log_error

record LogResponse =
  lp_OK :: bool
  lp_Existed :: bool
  lp_Message :: log_message

fun read_all :: "(string \<times> tenantFile option) list \<Rightarrow> string list \<Rightarrow> tenantFile list option" where
  "read_all files [] = Some []"
| "read_all files (n # ns) =
     (case map_of files n of Some (Some t) \<Rightarrow> map_option (Cons t) (read_all files ns) | _ \<Rightarrow> None)"

definition loadTenants :: "log_host \<Rightarrow> log_state \<Rightarrow> tenantFile list option" where
  "loadTenants h s = (if \<not> lh_list h then None
     else read_all (ls_files s) (sort (filter (\<lambda>n. HasSuffix n ''.json'') (map fst (ls_files s)))))"

definition regenerate :: "log_host \<Rightarrow> bool \<Rightarrow> log_state \<Rightarrow> bool \<times> log_state" where
  "regenerate h noReload s =
     (case lh_base h of None \<Rightarrow> (False, s)
      | Some b \<Rightarrow> (case loadTenants h s of None \<Rightarrow> (False, s)
      | Some ts \<Rightarrow> (case log_render b ts of Inl e \<Rightarrow> (False, s)
      | Inr doc \<Rightarrow>
          if \<not> lh_auth h then (False, s)
          else let s = s\<lparr>ls_auth := doc\<rparr> in
            if noReload then (True, s)
            else if lh_reload h then (True, s\<lparr>ls_live := ls_auth s\<rparr>) else (False, s))))"

definition user_file :: "string \<Rightarrow> string" where
  "user_file tenant = tenant @ ''.json''"

definition put_file :: "string \<Rightarrow> tenantFile \<Rightarrow> (string \<times> tenantFile option) list \<Rightarrow> (string \<times> tenantFile option) list" where
  "put_file name t files = (name, Some t) # filter (\<lambda>f. fst f \<noteq> name) files"

definition log_failed :: "log_message \<Rightarrow> LogResponse" where
  "log_failed m = \<lparr>lp_OK = False, lp_Existed = False, lp_Message = m\<rparr>"

text \<open>The end of \<^verbatim>\<open>run\<close>, once the tenant's file is written or gone.\<close>

definition log_finish :: "log_host \<Rightarrow> bool \<Rightarrow> log_state \<Rightarrow> LogResponse \<times> log_state" where
  "log_finish h existed s =
     (let (ok, s') = regenerate h False s in
      if ok then (\<lparr>lp_OK = True, lp_Existed = existed, lp_Message = NoMessage\<rparr>, s')
      else (log_failed (Fixed ''the store's configuration could not be regenerated''), s'))"

definition log_run :: "log_host \<Rightarrow> LogRequest option \<Rightarrow> log_state \<Rightarrow> LogResponse \<times> log_state" where
  "log_run h request s =
     (if \<not> lh_config h then (log_failed (Fixed ''the writer is not configured correctly''), s)
      else (case request of None \<Rightarrow> (log_failed (Fixed ''the request could not be read''), s)
      | Some req \<Rightarrow>
        (case Validate_log req of Some e \<Rightarrow> (log_failed (Invalid e), s)
         | None \<Rightarrow>
           let name = user_file (lr_Tenant req); existed = (map_of (ls_files s) name \<noteq> None) in
           if lr_Op req = log_OpPut then
             (if \<not> lh_put h then (log_failed (Fixed ''the tenant's users could not be written''), s)
              else log_finish h existed (s\<lparr>ls_files := put_file name
                \<lparr>lf_Version = log_Version, lf_Tenant = lr_Tenant req, lf_Index = lr_Index req, lf_IngestToken = lr_IngestToken req,
                 lf_ReadToken = lr_ReadToken req\<rparr> (ls_files s)\<rparr>))
           else
             (if existed \<and> \<not> lh_remove h then (log_failed (Fixed ''the tenant's users could not be removed''), s)
              else log_finish h existed (s\<lparr>ls_files := filter (\<lambda>f. fst f \<noteq> name) (ls_files s)\<rparr>)))))"

definition renderOnly :: "log_host \<Rightarrow> bool \<Rightarrow> log_state \<Rightarrow> bool \<times> log_state" where
  "renderOnly h noReload s = (if \<not> lh_config h then (False, s) else regenerate h noReload s)"

section \<open>The document is its users\<close>

lemma quote_char_line: "NL \<notin> set (quote_char c)"
  using set_hexEncode[of "[c]"] by (auto simp: quote_char_def NL_def hexdigits_def)

lemma Quote_line: "NL \<notin> set (Quote s)"
  using quote_char_line by (auto simp: Quote_def NL_def)

lemma itoa_line: "NL \<notin> set (itoa i)" "NL \<notin> set (dec n)"
proof -
  show dec: "NL \<notin> set (dec n)" for n using set_dec[of n] by (auto simp: NL_def digits_def)
  then show "NL \<notin> set (itoa i)" by (auto simp: itoa_def NL_def)
qed

definition known_paths :: "proxy_user \<Rightarrow> bool" where
  "known_paths u = list_all (\<lambda>r. pr_paths r \<in> {selectPaths, insertPaths}) (pu_routes u)"

lemma route_lines_line:
  assumes "pr_paths r \<in> {selectPaths, insertPaths}" "l \<in> set (route_lines backend r)"
  shows "NL \<notin> set l \<and> \<not> HasPrefix l ''  - name: ''"
  using assms Quote_line itoa_line
  by (auto simp: route_lines_def HasPrefix_def selectPaths_def insertPaths_def NL_def split: if_splits)

lemma user_lines:
  assumes "known_paths u"
  shows "\<forall>l \<in> set (writeUser backend u). NL \<notin> set l"
    "filter (\<lambda>l. HasPrefix l ''  - name: '') (writeUser backend u) = [''  - name: '' @ Quote (pu_name u)]"
proof -
  have routes: "NL \<notin> set l \<and> \<not> HasPrefix l ''  - name: ''" if "l \<in> set (concat (map (route_lines backend) (pu_routes u)))" for l
    using that assms route_lines_line by (fastforce simp: known_paths_def list_all_iff)
  then show "\<forall>l \<in> set (writeUser backend u). NL \<notin> set l"
    using Quote_line by (auto simp: writeUser_def NL_def)
  have "filter (\<lambda>l. HasPrefix l ''  - name: '') (concat (map (route_lines backend) (pu_routes u))) = []"
    using routes by (simp only: filter_empty_conv) blast
  then show "filter (\<lambda>l. HasPrefix l ''  - name: '') (writeUser backend u) = [''  - name: '' @ Quote (pu_name u)]"
    by (simp add: writeUser_def HasPrefix_def del: filter_concat)
qed

lemma render_users_shape:
  assumes "render_users b ts = Inr us"
  shows "us = operator_user b ts # concat (map tenant_users ts) @ (if lb_BridgeToken b = [] then [] else bridge_users b ts)" "first_bad ts = None"
  using assms unfolding render_users_def by (auto split: if_splits option.splits)

lemma set_withSelectorsFirst: "set (withSelectorsFirst rs) = set rs"
  by (auto simp: withSelectorsFirst_def)

lemma user_routes:
  "r \<in> set (pu_routes (operator_user b ts)) \<Longrightarrow> pr_paths r = selectPaths"
  "u \<in> set (tenant_users t) \<Longrightarrow> r \<in> set (pu_routes u) \<Longrightarrow> pr_account r = lf_Index t \<and>
     (pu_name u = ''ingest-'' @ lf_Tenant t \<and> pu_token u = lf_IngestToken t \<and> pr_paths r = insertPaths \<and> pr_project r = 0 \<or>
      pu_name u = ''read-'' @ lf_Tenant t \<and> pu_token u = lf_ReadToken t \<and> pr_paths r = selectPaths \<and> pr_project r \<in> {0, 1, 2})"
  "u \<in> set (bridge_users b ts) \<Longrightarrow> r \<in> set (pu_routes u) \<Longrightarrow> pu_name u = ''mqtt-bridge'' \<and> pr_paths r = insertPaths \<and> pr_project r = 2 \<and>
     (\<exists>t \<in> set ts. pr_account r = lf_Index t \<and> pr_selector r = tenantSelector (lf_Tenant t))"
proof -
  show "r \<in> set (pu_routes (operator_user b ts)) \<Longrightarrow> pr_paths r = selectPaths"
    by (auto simp: operator_user_def set_withSelectorsFirst operator_routes_def selected_def)
  show "u \<in> set (tenant_users t) \<Longrightarrow> r \<in> set (pu_routes u) \<Longrightarrow> pr_account r = lf_Index t \<and>
     (pu_name u = ''ingest-'' @ lf_Tenant t \<and> pu_token u = lf_IngestToken t \<and> pr_paths r = insertPaths \<and> pr_project r = 0 \<or>
      pu_name u = ''read-'' @ lf_Tenant t \<and> pu_token u = lf_ReadToken t \<and> pr_paths r = selectPaths \<and> pr_project r \<in> {0, 1, 2})"
    by (auto simp: tenant_users_def set_withSelectorsFirst ingest_routes_def read_routes_def selected_def)
  show "u \<in> set (bridge_users b ts) \<Longrightarrow> r \<in> set (pu_routes u) \<Longrightarrow> pu_name u = ''mqtt-bridge'' \<and> pr_paths r = insertPaths \<and> pr_project r = 2 \<and>
     (\<exists>t \<in> set ts. pr_account r = lf_Index t \<and> pr_selector r = tenantSelector (lf_Tenant t))"
    by (auto simp: bridge_users_def bridge_routes_def split: if_splits)
qed

lemma render_paths:
  assumes "render_users b ts = Inr us" "u \<in> set us"
  shows "known_paths u"
proof -
  have "u = operator_user b ts \<or> (\<exists>t. u \<in> set (tenant_users t)) \<or> u \<in> set (bridge_users b ts)"
    using assms(2) unfolding render_users_shape(1)[OF assms(1)] by (auto split: if_splits)
  then show ?thesis using user_routes unfolding known_paths_def list_all_iff by blast
qed

lemma header_names: "filter (\<lambda>l. HasPrefix l ''  - name: '') (header_lines n) = []"
  by (simp add: header_lines_def HasPrefix_def)

lemma split_lines: "\<forall>l \<in> set ls. NL \<notin> set l \<Longrightarrow> SplitOn NL (concat (map (\<lambda>l. l @ [NL]) ls)) = ls @ [[]]"
  by (induction ls) (simp_all add: SplitOn_append)

section \<open>The files\<close>

definition file_ok :: "string \<times> tenantFile option \<Rightarrow> bool" where
  "file_ok f = (HasSuffix (fst f) ''.json'' \<longrightarrow> (\<exists>t. snd f = Some t \<and> fst f = user_file (lf_Tenant t) \<and> validTenant t = None))"

definition files_ok :: "log_state \<Rightarrow> bool" where
  "files_ok s = (list_all file_ok (ls_files s) \<and> distinct (map fst (ls_files s)))"

definition stored :: "log_state \<Rightarrow> tenantFile set" where
  "stored s = {t. (user_file (lf_Tenant t), Some t) \<in> set (ls_files s)}"

lemma user_file_suffix [simp]: "HasSuffix (user_file n) ''.json''" "user_file a = user_file b \<longleftrightarrow> a = b"
  by (simp_all add: user_file_def HasSuffix_append)

lemma read_all_set:
  "read_all files ns = Some ts \<Longrightarrow> set ts = {t. \<exists>n \<in> set ns. map_of files n = Some (Some t)}"
  by (induction ns arbitrary: ts) (auto split: option.splits)

lemma loadTenants_stored:
  assumes "files_ok s" "loadTenants h s = Some ts"
  shows "set ts = stored s"
proof -
  have ok: "map_of (ls_files s) n = Some (Some t) \<longleftrightarrow> (n, Some t) \<in> set (ls_files s)" for n t
    using assms(1) by (auto simp: files_ok_def)
  have name: "n = user_file (lf_Tenant t)" if "(n, Some t) \<in> set (ls_files s)" "HasSuffix n ''.json''" for n t
    using assms(1) that by (auto simp: files_ok_def list_all_iff file_ok_def)
  have "set ts = {t. \<exists>n. n \<in> fst ` set (ls_files s) \<and> HasSuffix n ''.json'' \<and> (n, Some t) \<in> set (ls_files s)}"
    using assms(2) read_all_set by (auto simp: loadTenants_def ok split: if_splits)
  also have "\<dots> = stored s"
    using name by (force simp: stored_def)
  finally show ?thesis .
qed

lemma regenerate_files: "regenerate h nr s = (ok, s') \<Longrightarrow> ls_files s' = ls_files s"
  by (auto simp: regenerate_def Let_def split: option.splits sum.splits if_splits)

lemma regenerate_live:
  assumes "regenerate h False s = (True, s')" "files_ok s"
  shows "\<exists>b ts us. lh_base h = Some b \<and> render_users b ts = Inr us \<and> set ts = stored s \<and> ls_live s' = ls_auth s' \<and>
    ls_live s' = concat (map (\<lambda>l. l @ [NL]) (doc_lines b ts us))"
proof -
  obtain b ts doc where run: "lh_base h = Some b" "loadTenants h s = Some ts" "log_render b ts = Inr doc"
      "s' = s\<lparr>ls_auth := doc, ls_live := doc\<rparr>"
    using assms(1) by (auto simp: regenerate_def Let_def split: option.splits sum.splits if_splits)
  obtain us where us: "render_users b ts = Inr us" "doc = concat (map (\<lambda>l. l @ [NL]) (doc_lines b ts us))"
    using run(3) by (auto simp: log_render_def split: sum.splits)
  have "set ts = stored s" using loadTenants_stored[OF assms(2) run(2)] .
  moreover have "ls_live s' = doc" "ls_auth s' = doc" using run(4) by simp_all
  ultimately show ?thesis using run(1) us by metis
qed

lemma files_ok_put:
  "files_ok s \<Longrightarrow> validTenant t = None \<Longrightarrow> files_ok (s\<lparr>ls_files := put_file (user_file (lf_Tenant t)) t (ls_files s)\<rparr>)"
  by (auto simp: files_ok_def put_file_def file_ok_def list_all_iff distinct_map_filter)

lemma files_ok_delete: "files_ok s \<Longrightarrow> files_ok (s\<lparr>ls_files := filter (\<lambda>f. fst f \<noteq> n) (ls_files s)\<rparr>)"
  by (auto simp: files_ok_def list_all_iff distinct_map_filter)

lemma stored_put:
  "stored (s\<lparr>ls_files := put_file (user_file (lf_Tenant t)) t (ls_files s)\<rparr>) = insert t {x \<in> stored s. lf_Tenant x \<noteq> lf_Tenant t}"
  by (auto simp: stored_def put_file_def)

lemma stored_delete: "stored (s\<lparr>ls_files := filter (\<lambda>f. fst f \<noteq> user_file n) (ls_files s)\<rparr>) = {x \<in> stored s. lf_Tenant x \<noteq> n}"
  by (auto simp: stored_def)

definition sent_file :: "LogRequest \<Rightarrow> tenantFile" where
  "sent_file req = \<lparr>lf_Version = log_Version, lf_Tenant = lr_Tenant req, lf_Index = lr_Index req, lf_IngestToken = lr_IngestToken req,
     lf_ReadToken = lr_ReadToken req\<rparr>"

definition after_request :: "LogRequest \<Rightarrow> tenantFile set \<Rightarrow> tenantFile set" where
  "after_request req old =
     {x \<in> old. lf_Tenant x \<noteq> lr_Tenant req} \<union> (if lr_Op req = log_OpPut then {sent_file req} else {})"

lemma sent_file_valid: "Validate_log req = None \<Longrightarrow> lr_Op req = log_OpPut \<Longrightarrow> validTenant (sent_file req) = None"
proof -
  assume valid: "Validate_log req = None" "lr_Op req = log_OpPut"
  then have "lr_Version req = log_Version" by (simp add: Validate_log_def split: if_splits)
  then have "file_request (sent_file req) = req" using valid(2) by (simp add: file_request_def sent_file_def)
  then show ?thesis using valid(1) by (simp add: validTenant_def)
qed

text \<open>A run leaves the directory as it was, or changes the requested tenant's file alone.\<close>

lemma log_run_cases:
  assumes "log_run h (Some req) s = (resp, s')" "files_ok s"
  shows "s' = s \<and> \<not> lp_OK resp \<or>
    (\<exists>s1 existed. files_ok s1 \<and> stored s1 = after_request req (stored s) \<and> log_finish h existed s1 = (resp, s'))"
proof (cases "s' = s \<and> \<not> lp_OK resp")
  case False
  let ?n = "user_file (lr_Tenant req)"
  let ?put = "s\<lparr>ls_files := put_file ?n (sent_file req) (ls_files s)\<rparr>" and ?del = "s\<lparr>ls_files := filter (\<lambda>f. fst f \<noteq> ?n) (ls_files s)\<rparr>"
  have valid: "Validate_log req = None" and finish: "log_finish h (map_of (ls_files s) ?n \<noteq> None) (if lr_Op req = log_OpPut then ?put else ?del) = (resp, s')"
    using False assms(1) by (auto simp: log_run_def log_failed_def Let_def sent_file_def split: if_splits option.splits)
  have put: "files_ok ?put \<and> stored ?put = after_request req (stored s)" if "lr_Op req = log_OpPut"
    using files_ok_put[OF assms(2) sent_file_valid[OF valid that]] stored_put[where s = s and t = "sent_file req"] that
    by (auto simp: after_request_def sent_file_def)
  have del: "files_ok ?del \<and> stored ?del = after_request req (stored s)" if "lr_Op req \<noteq> log_OpPut"
    using files_ok_delete[OF assms(2)] stored_delete[where s = s and n = "lr_Tenant req"] that by (auto simp: after_request_def)
  show ?thesis using put del finish by (cases "lr_Op req = log_OpPut") auto
qed simp

lemma log_finish_files: "log_finish h existed s1 = (resp, s') \<Longrightarrow> files_ok s1 \<Longrightarrow> files_ok s' \<and> stored s' = stored s1"
  by (auto simp: log_finish_def Let_def files_ok_def stored_def dest!: regenerate_files split: prod.splits if_splits)

lemma first_bad_None: "first_bad ts = None \<Longrightarrow> t \<in> set ts \<Longrightarrow> 1 \<le> lf_Index t"
  by (induction ts)
    (auto simp: validTenant_def file_request_def dest!: Validate_log_index split: option.splits)

section \<open>Reading the document back\<close>

text \<open>
  What a reader of the document finds in its text, line by line as the generated file is laid out: a list entry begins with its first
  key and goes on up to the next entry; a key's value is the rest of its line, and is taken to be missing if the key occurs twice.
  The values stay the quoted texts they are. Headers the proxy adds or, with nothing after the colon, removes are listed under a route.
\<close>

record doc_route =
  dr_paths :: string
  dr_selectors :: string
  dr_url :: string
  dr_headers :: "string list"

record doc_user =
  du_name :: string
  du_token :: string
  du_routes :: "doc_route list"

definition starts_with :: "string \<Rightarrow> string \<Rightarrow> bool" where
  "starts_with key l = HasPrefix l key"

fun list_entries :: "(string \<Rightarrow> bool) \<Rightarrow> string list \<Rightarrow> string list list" where
  "list_entries p [] = []"
| "list_entries p (l # ls) = (if p l then (l # takeWhile (\<lambda>l. \<not> p l) ls) # list_entries p ls else list_entries p ls)"

definition line_values :: "string \<Rightarrow> string list \<Rightarrow> string list" where
  "line_values key ls = map (drop (length key)) (filter (starts_with key) ls)"

definition line_value :: "string \<Rightarrow> string list \<Rightarrow> string" where
  "line_value key ls = (case line_values key ls of [v] \<Rightarrow> v | _ \<Rightarrow> [])"

definition read_route :: "string list \<Rightarrow> doc_route" where
  "read_route ls = \<lparr>dr_paths = line_value ''      - src_paths: '' ls, dr_selectors = line_value ''        src_headers: '' ls,
     dr_url = line_value ''        url_prefix: '' ls, dr_headers = line_values ''          - '' ls\<rparr>"

definition read_user :: "string list \<Rightarrow> doc_user" where
  "read_user ls = \<lparr>du_name = line_value ''  - name: '' ls, du_token = line_value ''    bearer_token: '' ls,
     du_routes = map read_route (list_entries (starts_with ''      - src_paths: '') ls)\<rparr>"

definition read_document :: "string \<Rightarrow> doc_user list" where
  "read_document doc = map read_user (list_entries (starts_with ''  - name: '') (butlast (SplitOn NL doc)))"

text \<open>
  What the contract with the API grants: partitions of the store by account and project, a route to one of them under some paths, chosen
  by a header or (with no selector) whatever the headers are; the headers that choose are not passed on.
\<close>

definition leads_to :: "string \<Rightarrow> string \<Rightarrow> string \<Rightarrow> int \<times> int \<Rightarrow> doc_route" where
  "leads_to url paths selector part = \<lparr>dr_paths = paths, dr_selectors = (if selector = [] then [] else ''['' @ Quote selector @ '']''),
     dr_url = Quote url,
     dr_headers = map Quote [''AccountID: '' @ itoa (fst part), ''ProjectID: '' @ itoa (snd part), ''X-Deevnet-Partition:'', ''X-Deevnet-Tenant:'']\<rparr>"

definition reads_chosen :: "string \<Rightarrow> LogRequest \<Rightarrow> doc_route list" where
  "reads_chosen url q = map (\<lambda>part. leads_to url selectPaths (''X-Deevnet-Partition: '' @ itoa (fst part) @ ''-'' @ itoa (snd part)) part) (ReadPartitions q)"

definition granted_tenant :: "string \<Rightarrow> LogRequest \<Rightarrow> doc_user list" where
  "granted_tenant url q =
     [\<lparr>du_name = Quote (IngestUser q), du_token = Quote (lr_IngestToken q), du_routes = [leads_to url insertPaths [] (IngestPartition q)]\<rparr>,
      \<lparr>du_name = Quote (ReadUser q), du_token = Quote (lr_ReadToken q),
       du_routes = reads_chosen url q @ [leads_to url selectPaths [] (IngestPartition q)]\<rparr>]"

definition granted_operator :: "string \<Rightarrow> string \<Rightarrow> LogRequest list \<Rightarrow> doc_user" where
  "granted_operator url token qs = \<lparr>du_name = Quote ''operator-read'', du_token = Quote token,
     du_routes = concat (map (reads_chosen url) qs) @ [leads_to url selectPaths [] (0, 0)]\<rparr>"

definition granted_bridge :: "string \<Rightarrow> string \<Rightarrow> LogRequest list \<Rightarrow> doc_user list" where
  "granted_bridge url token qs = (if token = [] \<or> qs = [] then [] else [\<lparr>du_name = Quote ''mqtt-bridge'', du_token = Quote token,
     du_routes = map (\<lambda>q. leads_to url insertPaths (''X-Deevnet-Tenant: '' @ BridgeRoute q) (DevicePartition q)) qs\<rparr>])"

text \<open>The reader undoes the writer.\<close>

lemma list_entries_skip: "\<forall>l \<in> set xs. \<not> p l \<Longrightarrow> list_entries p (xs @ ys) = list_entries p ys"
  by (induction xs) auto

lemma takeWhile_block: "\<forall>l \<in> set xs. \<not> p l \<Longrightarrow> ys = [] \<or> p (hd ys) \<Longrightarrow> takeWhile (\<lambda>l. \<not> p l) (xs @ ys) = xs"
  by (induction xs) (cases ys, auto)

lemma list_entries_concat:
  assumes "\<forall>x \<in> set xs. f x \<noteq> [] \<and> p (hd (f x)) \<and> (\<forall>l \<in> set (tl (f x)). \<not> p l)"
  shows "list_entries p (concat (map f xs)) = map f xs"
  using assms
proof (induction xs)
  case (Cons x xs)
  obtain h t where f: "f x = h # t" "p h" "\<forall>l \<in> set t. \<not> p l"
    using Cons.prems by (cases "f x") auto
  have "concat (map f xs) = [] \<or> p (hd (concat (map f xs)))"
    using Cons.prems by (cases xs) auto
  then have "takeWhile (\<lambda>l. \<not> p l) (t @ concat (map f xs)) = t" using takeWhile_block f(3) by blast
  then show ?case using Cons f list_entries_skip[of t p] by simp
qed simp

lemma Quote_plain: "list_all (\<lambda>c. quote_char c = [c]) s \<Longrightarrow> Quote s = [CHR 0x22] @ s @ [CHR 0x22]"
  unfolding Quote_def by (induction s) simp_all

lemma plain_number: "list_all (\<lambda>c. quote_char c = [c]) (itoa i)"
proof -
  have "set (itoa i) \<subseteq> set (CHR ''-'' # digits)" using set_dec by (auto simp: itoa_def)
  moreover have "\<forall>c \<in> set (CHR ''-'' # digits). quote_char c = [c]" by code_simp
  ultimately show ?thesis unfolding list_all_iff by blast
qed

lemma Quote_number:
  "Quote (''AccountID: '' @ itoa i) = ''\"AccountID: '' @ itoa i @ [CHR 0x22]"
  "Quote (''ProjectID: '' @ itoa i) = ''\"ProjectID: '' @ itoa i @ [CHR 0x22]"
proof -
  have "list_all (\<lambda>c. quote_char c = [c]) ''AccountID: ''" "list_all (\<lambda>c. quote_char c = [c]) ''ProjectID: ''" by code_simp+
  then show "Quote (''AccountID: '' @ itoa i) = ''\"AccountID: '' @ itoa i @ [CHR 0x22]"
    "Quote (''ProjectID: '' @ itoa i) = ''\"ProjectID: '' @ itoa i @ [CHR 0x22]"
    using plain_number[of i] by (simp_all only: Quote_plain list_all_append) simp_all
qed

definition route_read :: "string \<Rightarrow> proxy_route \<Rightarrow> doc_route" where
  "route_read url r = leads_to url (pr_paths r) (pr_selector r) (pr_account r, pr_project r)"

lemma read_route_lines: "read_route (route_lines url r) = route_read url r"
  unfolding route_read_def leads_to_def list.map fst_conv snd_conv Quote_number
  by (simp add: read_route_def route_lines_def line_values_def line_value_def starts_with_def HasPrefix_def Quote_number partitionHeader_def tenantHeader_def)

lemma route_lines_block:
  "route_lines url r \<noteq> [] \<and> starts_with ''      - src_paths: '' (hd (route_lines url r)) \<and>
     (\<forall>l \<in> set (tl (route_lines url r)). \<not> starts_with ''      - src_paths: '' l)"
  by (auto simp: route_lines_def starts_with_def HasPrefix_def)

lemma route_lines_keys:
  "l \<in> set (route_lines url r) \<Longrightarrow> \<not> starts_with ''  - name: '' l \<and> \<not> starts_with ''    bearer_token: '' l"
  by (auto simp: route_lines_def starts_with_def HasPrefix_def split: if_splits)

definition user_read :: "string \<Rightarrow> proxy_user \<Rightarrow> doc_user" where
  "user_read url u = \<lparr>du_name = Quote (pu_name u), du_token = Quote (pu_token u), du_routes = map (route_read url) (pu_routes u)\<rparr>"

lemma read_writeUser: "read_user (writeUser url u) = user_read url u"
proof -
  have "filter (starts_with k) (concat (map (route_lines url) (pu_routes u))) = []" if "k \<in> {''  - name: '', ''    bearer_token: ''}" for k
    using that route_lines_keys by (fastforce simp: filter_empty_conv)
  then have keys: "line_value ''  - name: '' (writeUser url u) = Quote (pu_name u)" "line_value ''    bearer_token: '' (writeUser url u) = Quote (pu_token u)"
    unfolding line_value_def line_values_def writeUser_def by (simp_all add: starts_with_def HasPrefix_def del: filter_concat)
  have "list_entries (starts_with ''      - src_paths: '') (writeUser url u) = map (route_lines url) (pu_routes u)"
    unfolding writeUser_def using list_entries_concat[of "pu_routes u" "route_lines url"] route_lines_block
    by (simp add: starts_with_def HasPrefix_def)
  then show ?thesis by (simp add: read_user_def user_read_def keys read_route_lines)
qed

lemma writeUser_block:
  "writeUser url u \<noteq> [] \<and> starts_with ''  - name: '' (hd (writeUser url u)) \<and> (\<forall>l \<in> set (tl (writeUser url u)). \<not> starts_with ''  - name: '' l)"
  using route_lines_keys by (fastforce simp: writeUser_def starts_with_def HasPrefix_def)

lemma read_rendered:
  assumes "render_users b ts = Inr us"
  shows "read_document (concat (map (\<lambda>l. l @ [NL]) (doc_lines b ts us))) = map (user_read (lb_Backend b)) us"
proof -
  have "\<forall>l \<in> set (header_lines (length ts)). NL \<notin> set l"
    using itoa_line(2)[of "length ts"] by (simp add: header_lines_def NL_def)
  moreover have "\<forall>l \<in> set (concat (map (writeUser (lb_Backend b)) us)). NL \<notin> set l"
    using user_lines(1) render_paths[OF assms] by auto
  ultimately have lines: "\<forall>l \<in> set (doc_lines b ts us). NL \<notin> set l"
    unfolding doc_lines_def set_append by blast
  have head: "\<forall>l \<in> set (header_lines (length ts)). \<not> starts_with ''  - name: '' l"
    by (simp add: header_lines_def starts_with_def HasPrefix_def)
  show ?thesis
    unfolding read_document_def split_lines[OF lines] butlast_snoc
    unfolding doc_lines_def list_entries_skip[OF head]
    using list_entries_concat[of us "writeUser (lb_Backend b)" "starts_with ''  - name: ''"] writeUser_block by (simp add: read_writeUser)
qed

lemma selected_granted:
  "map (route_read url) (selected t) = reads_chosen url (file_request t)" "filter (\<lambda>r. pr_selector r = []) (selected t) = []"
  "filter (\<lambda>r. pr_selector r \<noteq> []) (selected t) = selected t"
  by (simp_all add: selected_def reads_chosen_def ReadPartitions_def file_request_def route_read_def partition_selector_def partitionHeader_def)

lemma users_granted:
  "map (user_read url) (tenant_users t) = granted_tenant url (file_request t)"
  "user_read url (operator_user b ts) = granted_operator url (lb_OperatorToken b) (map file_request ts)"
  "map (user_read url) (if lb_BridgeToken b = [] then [] else bridge_users b ts) = granted_bridge url (lb_BridgeToken b) (map file_request ts)"
proof -
  have concat: "filter (\<lambda>r. pr_selector r = []) (concat (map selected ts)) = []"
    "filter (\<lambda>r. pr_selector r \<noteq> []) (concat (map selected ts)) = concat (map selected ts)"
    by (induction ts) (simp_all only: concat.simps list.map filter.simps filter_append selected_granted append_Nil)
  show "map (user_read url) (tenant_users t) = granted_tenant url (file_request t)"
    by (simp add: tenant_users_def granted_tenant_def user_read_def ingest_routes_def read_routes_def withSelectorsFirst_def
        selected_granted IngestUser_def ReadUser_def IngestPartition_def)
      (simp add: file_request_def route_read_def)
  show "user_read url (operator_user b ts) = granted_operator url (lb_OperatorToken b) (map file_request ts)"
    by (simp add: operator_user_def granted_operator_def user_read_def operator_routes_def withSelectorsFirst_def concat
        map_concat selected_granted comp_def route_read_def del: filter_concat)
  show "map (user_read url) (if lb_BridgeToken b = [] then [] else bridge_users b ts) = granted_bridge url (lb_BridgeToken b) (map file_request ts)"
    by (simp add: bridge_users_def granted_bridge_def user_read_def bridge_routes_def route_read_def tenantSelector_def tenantHeader_def
        BridgeRoute_def DevicePartition_def file_request_def)
qed

lemma granted_accounts:
  "u \<in> set (granted_tenant url q) \<Longrightarrow> r \<in> set (du_routes u) \<Longrightarrow> hd (dr_headers r) = Quote (''AccountID: '' @ itoa (lr_Index q))"
  "u \<in> set (granted_bridge url token qs) \<Longrightarrow> r \<in> set (du_routes u) \<Longrightarrow>
     \<exists>q \<in> set qs. hd (dr_headers r) = Quote (''AccountID: '' @ itoa (lr_Index q))"
  by (auto simp: granted_tenant_def granted_bridge_def reads_chosen_def ReadPartitions_def IngestPartition_def DevicePartition_def
      leads_to_def split: if_splits)

section \<open>Two limits of the checks\<close>

text \<open>The writer's own check of a token appends an \<open>x\<close> to it, so a token of exactly the greatest length is refused there.\<close>

lemma longest_token_refused:
  "validToken IngestField tok = None \<Longrightarrow> length tok = MaxTokenLen \<Longrightarrow>
     writer_validToken field tok = Some (BadToken field (TokenLong ReadField))"
  by (simp add: writer_validToken_def Validate_log_def validToken_def log_Version_def log_OpPut_def log_OpDelete_def log_maxTenant_def
      nameRE_def lowers_def MaxIndex_def MinTokenLen_def MaxTokenLen_def split: if_splits)

section \<open>A host for the witnesses\<close>

definition sample_host :: log_host where
  "sample_host = \<lparr>lh_config = True, lh_base = Some \<lparr>lb_Backend = ''http://logs:9428'', lb_OperatorToken = replicate 40 CHR ''o'',
     lb_BridgeToken = replicate 40 CHR ''m''\<rparr>, lh_put = True, lh_remove = True, lh_list = True, lh_auth = True, lh_reload = True\<rparr>"

definition no_users :: log_state where
  "no_users = \<lparr>ls_files = [], ls_auth = [], ls_live = []\<rparr>"

lemma no_users_ok: "files_ok no_users" "stored no_users = {}"
  by (simp_all add: no_users_def files_ok_def stored_def)

text \<open>Nothing compares the index of a request with those already there: a second tenant is accepted with the first one's.\<close>

lemma shared_index_accepted:
  "case log_run sample_host (Some (sample_log ''eds'' 3)) no_users of (r1, s1) \<Rightarrow>
     case log_run sample_host (Some (sample_log ''mqx'' 3)) s1 of (r2, s2) \<Rightarrow>
       lp_OK r1 \<and> lp_OK r2 \<and> map (map_option lf_Index \<circ> snd) (ls_files s2) = [Some 3, Some 3]"
  by code_simp

section \<open>Properties of the component\<close>

text \<open>An answer of success is true of the running store: after it, the proxy serves a document rendered from exactly the
  tenants' files there now; the tenant of the request has the tokens and the index it sent, or nothing if it was deleted, and
  every other tenant has what it had.\<close>

lemma log_answer_is_live:
  assumes "files_ok s" "log_run h (Some req) s = (resp, s')" "lp_OK resp"
  shows "\<exists>b ts us. lh_base h = Some b \<and> render_users b ts = Inr us \<and> set ts = after_request req (stored s) \<and>
    ls_live s' = concat (map (\<lambda>l. l @ [NL]) (doc_lines b ts us)) \<and> stored s' = after_request req (stored s)"
proof -
  obtain s1 existed where s1: "files_ok s1" "stored s1 = after_request req (stored s)" "log_finish h existed s1 = (resp, s')"
    using log_run_cases[OF assms(2,1)] assms(3) by blast
  have "regenerate h False s1 = (True, s')"
    using s1(3) assms(3) by (auto simp: log_finish_def log_failed_def Let_def split: prod.splits if_splits)
  then show ?thesis using regenerate_live[OF _ s1(1)] log_finish_files[OF s1(3,1)] s1(2) by metis
qed

text \<open>C32. The rendered configuration, read back from its text, grants each user its own and no more, as the contract with the
  API has it: the document has an entry for the operator, who reads every tenant's partitions and the substrate's; for each tenant one that
  writes to its partition 0 and one that reads its three, each under the token of that tenant's file; and, where the site has a
  token for the bridge, one that writes to the device partition of the tenant a header names. There is no other entry, and no entry
  has another route: none but the operator's leads to the substrate's account 0, and all go to the backend, whatever the
  values in the files are.\<close>

theorem log_document_confined:
  assumes "log_render b ts = Inr doc"
  shows "read_document doc =
      granted_operator (lb_Backend b) (lb_OperatorToken b) (map file_request ts) #
      concat (map (granted_tenant (lb_Backend b) \<circ> file_request) ts) @
      granted_bridge (lb_Backend b) (lb_BridgeToken b) (map file_request ts) \<and>
    (\<forall>u \<in> set (tl (read_document doc)). \<forall>r \<in> set (du_routes u). \<exists>t \<in> set ts. 1 \<le> lf_Index t \<and>
       hd (dr_headers r) = Quote (''AccountID: '' @ itoa (lf_Index t)))"
proof -
  obtain us where us: "render_users b ts = Inr us" "doc = concat (map (\<lambda>l. l @ [NL]) (doc_lines b ts us))"
    using assms by (auto simp: log_render_def split: sum.splits)
  have doc: "read_document doc =
      granted_operator (lb_Backend b) (lb_OperatorToken b) (map file_request ts) #
      concat (map (granted_tenant (lb_Backend b) \<circ> file_request) ts) @
      granted_bridge (lb_Backend b) (lb_BridgeToken b) (map file_request ts)"
    unfolding us(2) read_rendered[OF us(1)]
    unfolding render_users_shape(1)[OF us(1)] list.map map_append map_concat users_granted(2,3)
    by (simp add: users_granted(1) comp_def)
  have index: "1 \<le> lf_Index t" "lr_Index (file_request t) = lf_Index t" if "t \<in> set ts" for t
    using first_bad_None[OF render_users_shape(2)[OF us(1)] that] by (simp_all add: file_request_def)
  have "\<exists>t \<in> set ts. 1 \<le> lf_Index t \<and> hd (dr_headers r) = Quote (''AccountID: '' @ itoa (lf_Index t))"
    if "u \<in> set (tl (read_document doc))" "r \<in> set (du_routes u)" for u r
    using that granted_accounts index unfolding doc by fastforce
  then show ?thesis using doc by blast
qed

theorem log_document_confined_witness:
  "\<exists>doc. log_render (the (lh_base sample_host)) [sent_file (sample_log ''eds'' 3)] = Inr doc \<and>
    map du_name (read_document doc) = map Quote [''operator-read'', ''ingest-eds'', ''read-eds'', ''mqtt-bridge'']"
proof -
  have "case log_render (the (lh_base sample_host)) [sent_file (sample_log ''eds'' 3)] of Inl _ \<Rightarrow> False | Inr doc \<Rightarrow> True" by code_simp
  then obtain doc where doc: "log_render (the (lh_base sample_host)) [sent_file (sample_log ''eds'' 3)] = Inr doc"
    by (auto split: sum.splits)
  show ?thesis
    using log_document_confined[OF doc] doc
    by (simp add: granted_operator_def granted_tenant_def granted_bridge_def IngestUser_def ReadUser_def file_request_def sent_file_def
        sample_log_def sample_host_def)
qed

text \<open>No run harms another tenant: whatever the request and whatever the host answers, the writer's
  directory holds one valid file per tenant afterwards, under its own name, and the files of every other tenant
  are the ones that were there.\<close>

lemma log_writer_touches_own:
  assumes "files_ok s" "log_run h request s = (resp, s')"
  shows "files_ok s' \<and> (case request of None \<Rightarrow> s' = s
    | Some req \<Rightarrow> {x \<in> stored s'. lf_Tenant x \<noteq> lr_Tenant req} = {x \<in> stored s. lf_Tenant x \<noteq> lr_Tenant req})"
proof (cases request)
  case None
  then show ?thesis using assms by (auto simp: log_run_def split: if_splits)
next
  case (Some req)
  then show ?thesis
    using log_run_cases[OF _ assms(1), of h req resp s'] assms log_finish_files by (fastforce simp: after_request_def sent_file_def)
qed

end
