(* ===== verification/Client.thy ===== *)
theory Client
  imports Prelude
begin

text \<open>
  The clients of \<^verbatim>\<open>internal/backend\<close> talk to a server over HTTP: they ask, read the answer and ask again. A server
  is a parameter, a function that answers a request, takes some time over it and moves to a next state;
  nothing is assumed of it. What a client asked, and the answer to each request, is kept in the order it asked.
\<close>

section \<open>Requests and answers\<close>

text \<open>\<^verbatim>\<open>errNotFound\<close>, and every other error of a request with its text.\<close>

datatype http_error = NotFound | Failed string

type_synonym ('s, 'q, 'r) server = "'q \<Rightarrow> 's \<Rightarrow> (http_error + 'r) \<times> nat \<times> 's"

type_synonym ('q, 'r) request_log = "('q \<times> (http_error + 'r)) list"

text \<open>Time is counted in nanoseconds, Go's \<^verbatim>\<open>time.Duration\<close>, a 64-bit integer.\<close>

definition int64 :: "int \<Rightarrow> int" where "int64 n = (n + 2 ^ 63) mod 2 ^ 64 - 2 ^ 63"

record ('s, 'q, 'r) conn =
  cn_server :: 's
  cn_now :: nat
  cn_log :: "('q, 'r) request_log"

type_synonym ('s, 'q, 'r, 'a) client = "(('s, 'q, 'r) conn, 'a) state"

definition conn_start :: "'s \<Rightarrow> ('s, 'q, 'r) conn" where
  "conn_start s = \<lparr>cn_server = s, cn_now = 0, cn_log = []\<rparr>"

definition ask :: "('s, 'q, 'r) server \<Rightarrow> 'q \<Rightarrow> ('s, 'q, 'r, http_error + 'r) client" where
  "ask srv q = State (\<lambda>w. case srv q (cn_server w) of (r, d, s') \<Rightarrow>
     (r, \<lparr>cn_server = s', cn_now = cn_now w + d, cn_log = cn_log w @ [(q, r)]\<rparr>))"

text \<open>A request whose answer is decoded into a value; an answer of another shape is an error.\<close>

definition ask_as :: "('r \<Rightarrow> 'a option) \<Rightarrow> ('s, 'q, 'r) server \<Rightarrow> 'q \<Rightarrow> ('s, 'q, 'r, http_error + 'a) client" where
  "ask_as read srv q =
     do {
       r \<leftarrow> ask srv q;
       ret (case r of Inl e \<Rightarrow> Inl e
            | Inr rep \<Rightarrow> (case read rep of None \<Rightarrow> Inl (Failed ''decoding data'') | Some x \<Rightarrow> Inr x))
     }"

text \<open>\<^verbatim>\<open>x, err := m; if err != nil { return err }\<close>.\<close>

definition andthen :: "('w, 'e + 'a) state \<Rightarrow> ('a \<Rightarrow> ('w, 'e + 'b) state) \<Rightarrow> ('w, 'e + 'b) state" where
  "andthen m k = do { r \<leftarrow> m; (case r of Inl f \<Rightarrow> ret (Inl f) | Inr x \<Rightarrow> k x) }"

text \<open>\<^verbatim>\<open>if err := m; err != nil { return err }\<close> where nothing else is returned.\<close>

definition unless :: "('w, 'e option) state \<Rightarrow> ('w, 'e option) state \<Rightarrow> ('w, 'e option) state" where
  "unless m k = do { e \<leftarrow> m; (case e of Some f \<Rightarrow> ret (Some f) | None \<Rightarrow> k) }"

definition granted :: "http_error + 'a \<Rightarrow> bool" where
  "granted r = (case r of Inl _ \<Rightarrow> False | Inr _ \<Rightarrow> True)"

text \<open>\<^verbatim>\<open>strings.EqualFold\<close> on ASCII text.\<close>

definition lower :: "char \<Rightarrow> char" where
  "lower c = (if c \<in> set uppers then char_of ((of_char c :: nat) + 32) else c)"

definition EqualFold :: "string \<Rightarrow> string \<Rightarrow> bool" where
  "EqualFold a b = (map lower a = map lower b)"

section \<open>Weakest preconditions\<close>

lemma wp_ask [wp_simps]:
  "wp (ask srv q) Q w = (case srv q (cn_server w) of (r, d, s') \<Rightarrow>
     Q r \<lparr>cn_server = s', cn_now = cn_now w + d, cn_log = cn_log w @ [(q, r)]\<rparr>)"
  by (simp add: ask_def wp_State case_prod_beta split: prod.split)

lemma wp_ask_as [wp_simps]:
  "wp (ask_as rd srv q) Q = wp (ask srv q) (\<lambda>r. Q (case r of Inl e \<Rightarrow> Inl e
     | Inr rep \<Rightarrow> (case rd rep of None \<Rightarrow> Inl (Failed ''decoding data'') | Some x \<Rightarrow> Inr x)))"
  by (simp add: ask_as_def wp_bind wp_return)

lemma wp_andthen [wp_simps]: "wp (andthen m k) Q = wp m (\<lambda>r. case r of Inl f \<Rightarrow> Q (Inl f) | Inr x \<Rightarrow> wp (k x) Q)"
  unfolding andthen_def by (simp add: wp_bind wp_return wp_case_sum cong: sum.case_cong)

lemma wp_unless [wp_simps]: "wp (unless m k) Q = wp m (\<lambda>r. case r of Some f \<Rightarrow> Q (Some f) | None \<Rightarrow> wp k Q)"
  unfolding unless_def by (simp add: wp_bind wp_return wp_case_option cong: option.case_cong)

lemma granted_simps [simp]: "granted (Inl e) = False" "granted (Inr x) = True"
  by (simp_all add: granted_def)

section \<open>What a client asks\<close>

text \<open>
  A condition on a list of requests and their answers that the empty list meets and that two lists meet together
  when each does. A run meets it as soon as each part of the run does.
\<close>

locale request_rule =
  fixes srv :: "('s, 'q, 'r) server" and fits :: "('q, 'r) request_log \<Rightarrow> bool"
  assumes fits_Nil: "fits []"
    and fits_append: "fits a \<Longrightarrow> fits b \<Longrightarrow> fits (a @ b)"
begin

definition asked :: "('s, 'q, 'r) conn \<Rightarrow> ('s, 'q, 'r) conn \<Rightarrow> bool" where
  "asked w w' = (\<exists>ext. cn_log w' = cn_log w @ ext \<and> fits ext)"

lemma asked_refl: "asked w w"
  by (simp add: asked_def fits_Nil)

lemma asked_trans: "asked u v \<Longrightarrow> asked v w \<Longrightarrow> asked u w"
  unfolding asked_def by (metis append_assoc fits_append)

end

sublocale request_rule \<subseteq> io_preorder asked
  by unfold_locales (rule asked_refl, rule asked_trans)

context request_rule
begin

lemma keeps_wp: "(\<And>w. wp m (\<lambda>r w'. asked w w') w) \<Longrightarrow> keeps m"
  by (rule keepsI) (simp add: wp_def case_prod_beta)

lemma keeps_andthen: "keeps m \<Longrightarrow> (\<And>x. keeps (k x)) \<Longrightarrow> keeps (andthen m k)"
  unfolding andthen_def by (intro keeps_intros)

lemma keeps_ask: "(\<And>r. fits [(q, r)]) \<Longrightarrow> keeps (ask srv q)"
  by (rule keeps_wp) (auto simp: wp_ask asked_def split: prod.split)

lemma keeps_ask_as: "(\<And>r. fits [(q, r)]) \<Longrightarrow> keeps (ask_as rd srv q)"
  unfolding ask_as_def by (intro keeps_intros keeps_ask)

lemma asked_from_start: "keeps m \<Longrightarrow> run_state m (conn_start s) = (r, w) \<Longrightarrow> fits (cn_log w)"
  using keepsD[of m "conn_start s"] by (simp add: asked_def conn_start_def)

end

text \<open>Every request of the run meets a condition.\<close>

definition each_request :: "('q \<Rightarrow> bool) \<Rightarrow> ('q, 'r) request_log \<Rightarrow> bool" where
  "each_request p log = list_all (p \<circ> fst) log"

lemma each_request_simps [simp]:
  "each_request p []" "each_request p (x # xs) = (p (fst x) \<and> each_request p xs)"
  "each_request p (a @ b) = (each_request p a \<and> each_request p b)"
  by (simp_all add: each_request_def)

lemma each_request_mono: "each_request p log \<Longrightarrow> (\<And>q. p q \<Longrightarrow> p' q) \<Longrightarrow> each_request p' log"
  by (auto simp: each_request_def list_all_iff)

interpretation req: request_rule srv "each_request p" for srv p
  by unfold_locales simp_all

section \<open>What a run adds to the log\<close>

text \<open>\<open>logs P m\<close>: wherever \<open>m\<close> starts, its result and the requests it adds with their answers meet \<open>P\<close>.\<close>

definition logs :: "('a \<Rightarrow> ('q, 'r) request_log \<Rightarrow> bool) \<Rightarrow> ('s, 'q, 'r, 'a) client \<Rightarrow> bool" where
  "logs P m = (\<forall>w. wp m (\<lambda>r w'. \<exists>ext. cn_log w' = cn_log w @ ext \<and> P r ext) w)"

named_theorems logs_intros \<open>how a client's log is composed\<close>

lemma logs_ret [logs_intros]: "P x [] \<Longrightarrow> logs P (ret x)"
  by (simp add: logs_def wp_return)

lemma logs_bind_mono:
  assumes "logs P m" "\<And>r ext. P r ext \<Longrightarrow> logs (\<lambda>r' e. Q r' (ext @ e)) (f r)"
  shows "logs Q (State_Monad.bind m f)"
proof -
  have after: "wp (f r) (\<lambda>r' w''. \<exists>e. cn_log w'' = cn_log w @ e \<and> Q r' e) w'" if "cn_log w' = cn_log w @ ext" "P r ext" for r w w' ext
    using assms(2)[OF that(2)] that(1) by (auto simp: logs_def intro: wp_mono)
  have "wp m (\<lambda>r. wp (f r) (\<lambda>r' w''. \<exists>e. cn_log w'' = cn_log w @ e \<and> Q r' e)) w" for w
    by (rule wp_mono[OF assms(1)[unfolded logs_def, rule_format]]) (auto intro: after)
  then show ?thesis by (simp add: logs_def wp_bind)
qed

lemma logs_mono: "logs P m \<Longrightarrow> (\<And>r ext. P r ext \<Longrightarrow> Q r ext) \<Longrightarrow> logs Q m"
  unfolding logs_def by (blast intro: wp_mono)

lemma logs_ask: "logs (\<lambda>r ext. ext = [(q, r)]) (ask srv q)"
  by (auto simp: logs_def wp_ask split: prod.split)

lemma logs_ask_as:
  "logs (\<lambda>r ext. \<exists>a. ext = [(q, a)] \<and> r = (case a of Inl e \<Rightarrow> Inl e
     | Inr rep \<Rightarrow> (case rd rep of None \<Rightarrow> Inl (Failed ''decoding data'') | Some x \<Rightarrow> Inr x))) (ask_as rd srv q)"
  by (auto simp: logs_def wp_ask_as wp_ask split: prod.split)

lemma logs_unless_mono:
  assumes "logs P m" "\<And>f ext. P (Some f) ext \<Longrightarrow> Q (Some f) ext" "\<And>ext. P None ext \<Longrightarrow> logs (\<lambda>r e. Q r (ext @ e)) k"
  shows "logs Q (unless m k)"
  unfolding unless_def
  by (rule logs_bind_mono[OF assms(1)]) (auto intro!: logs_ret assms(2,3) split: option.split)

lemma logs_andthen_mono:
  assumes "logs P m" "\<And>e ext. P (Inl e) ext \<Longrightarrow> Q (Inl e) ext" "\<And>x ext. P (Inr x) ext \<Longrightarrow> logs (\<lambda>r e. Q r (ext @ e)) (k x)"
  shows "logs Q (andthen m k)"
  unfolding andthen_def by (rule logs_bind_mono[OF assms(1)]) (auto intro!: logs_ret assms(2,3) split: sum.split)

lemma logs_keeps: "req.keeps p m \<Longrightarrow> logs (\<lambda>r ext. each_request p ext) m"
  using req.keepsD[of p m] by (simp add: logs_def wp_def req.asked_def case_prod_beta)

lemma logs_if [logs_intros]: "(b \<Longrightarrow> logs P m) \<Longrightarrow> (\<not> b \<Longrightarrow> logs P n) \<Longrightarrow> logs P (if b then m else n)"
  by simp

lemma logs_run: "logs P m \<Longrightarrow> run_state m w = (r, w') \<Longrightarrow> \<exists>ext. cn_log w' = cn_log w @ ext \<and> P r ext"
  unfolding logs_def wp_def by (drule spec[of _ w]) simp

lemma logs_from_start: "logs P m \<Longrightarrow> run_state m (conn_start s) = (r, w') \<Longrightarrow> P r (cn_log w')"
  using logs_run[of P m "conn_start s" r w'] by (simp add: conn_start_def)

end
