(* ===== verification/Fabric.thy ===== *)
theory Fabric
  imports Allocation Client
begin

text \<open>
  \<^verbatim>\<open>internal/backend/proxmox\<close>: the client of the SDN fabric. \<open>claims\<close> reads the indexes the fabric uses from its zones and
  VNets; \<open>fabric_Ensure\<close> and \<open>fabric_Remove\<close> build and remove a tenant's network. The Proxmox API is a
  parameter: a function that answers a request and moves the cluster, about which nothing is assumed. What the
  client asked for is kept, with whether it was granted, in the order it asked.
\<close>

section \<open>Claims\<close>

record px_zone =
  zo_Zone :: string
  zo_VRFVXLAN :: int
  zo_Pending :: "int option"

record px_vnet =
  vt_VNet :: string
  vt_Zone :: string
  vt_Tag :: int
  vt_Pending :: "(string \<times> int) option"

definition add_claim :: "Claim list \<Rightarrow> Claim \<Rightarrow> Claim list" where
  "add_claim out c = (if cl_Index c \<noteq> 0 \<and> c \<notin> set out then out @ [c] else out)"

definition claim :: "int \<Rightarrow> string \<Rightarrow> Claim" where
  "claim i z = \<lparr>cl_Index = i, cl_Zone = z\<rparr>"

definition zone_claims :: "Site \<Rightarrow> px_zone \<Rightarrow> Claim list" where
  "zone_claims site z = claim (IndexForVRFVNI site (zo_VRFVXLAN z)) (zo_Zone z) #
     (case zo_Pending z of None \<Rightarrow> [] | Some v \<Rightarrow> [claim (IndexForVRFVNI site v) (zo_Zone z)])"

definition vnet_claims :: "Site \<Rightarrow> px_vnet \<Rightarrow> Claim list" where
  "vnet_claims site v = claim (IndexForVNetTag site (vt_Tag v)) (vt_Zone v) #
     (case vt_Pending v of None \<Rightarrow> []
      | Some (z, t) \<Rightarrow> [claim (IndexForVNetTag site t) (if z = [] then vt_Zone v else z)])"

definition claims :: "Site \<Rightarrow> px_zone list \<Rightarrow> px_vnet list \<Rightarrow> Claim list" where
  "claims site zs vs = foldl add_claim [] (concat (map (zone_claims site) zs) @ concat (map (vnet_claims site) vs))"

section \<open>The cluster\<close>

record vmEntry =
  vm_VMID :: int
  vm_Name :: string
  vm_Template :: int
  vm_Status :: string

text \<open>One constructor per method and path of the Proxmox API, with the parts of the body that vary.\<close>

datatype px_request =
    ListZones | ListVNets
  | GetZone string | PostZone NetworkSpec
  | GetVNet string | PostVNet string string int
  | GetSubnets string | PostSubnet string string string
  | DeleteSubnet string string | DeleteVNet string | DeleteZone string
  | PutSDN | GetTask string string
  | ListVMs string | PostClone string int "(string \<times> string) list" | PostConfig string int "(string \<times> string) list"
  | PutResize string int string string | PostStart string int | PostStop string int | DeleteVM string int

datatype px_reply =
    PxNone | PxZones "px_zone list" | PxVNets "px_vnet list" | PxZone int | PxVNet string int
  | PxSubnets "(string \<times> string) list" | PxTask string | PxStatus string string | PxVMs "vmEntry list"

text \<open>An answer without data leaves the value it would fill as it was declared.\<close>

definition as_zones :: "px_reply \<Rightarrow> px_zone list option" where
  "as_zones r = (case r of PxNone \<Rightarrow> Some [] | PxZones zs \<Rightarrow> Some zs | _ \<Rightarrow> None)"

definition as_vnets :: "px_reply \<Rightarrow> px_vnet list option" where
  "as_vnets r = (case r of PxNone \<Rightarrow> Some [] | PxVNets vs \<Rightarrow> Some vs | _ \<Rightarrow> None)"

definition as_zone :: "px_reply \<Rightarrow> int option" where
  "as_zone r = (case r of PxNone \<Rightarrow> Some 0 | PxZone v \<Rightarrow> Some v | _ \<Rightarrow> None)"

definition as_vnet :: "px_reply \<Rightarrow> (string \<times> int) option" where
  "as_vnet r = (case r of PxNone \<Rightarrow> Some ([], 0) | PxVNet z t \<Rightarrow> Some (z, t) | _ \<Rightarrow> None)"

definition as_subnets :: "px_reply \<Rightarrow> (string \<times> string) list option" where
  "as_subnets r = (case r of PxNone \<Rightarrow> Some [] | PxSubnets xs \<Rightarrow> Some xs | _ \<Rightarrow> None)"

definition as_task :: "px_reply \<Rightarrow> string option" where
  "as_task r = (case r of PxNone \<Rightarrow> Some [] | PxTask u \<Rightarrow> Some u | _ \<Rightarrow> None)"

definition as_status :: "px_reply \<Rightarrow> (string \<times> string) option" where
  "as_status r = (case r of PxNone \<Rightarrow> Some ([], []) | PxStatus s x \<Rightarrow> Some (s, x) | _ \<Rightarrow> None)"

definition as_vms :: "px_reply \<Rightarrow> vmEntry list option" where
  "as_vms r = (case r of PxNone \<Rightarrow> Some [] | PxVMs vs \<Rightarrow> Some vs | _ \<Rightarrow> None)"

lemmas reply_defs = as_zones_def as_vnets_def as_zone_def as_vnet_def as_subnets_def as_task_def as_status_def as_vms_def

text \<open>
  The client: the API, what happens while it sleeps (the context ends first, or it sleeps two seconds and so
  many nanoseconds more), and the configured bound on a task, in nanoseconds.
\<close>

record 's proxmox =
  px_api :: "('s, px_request, px_reply) server"
  px_pause :: "'s \<Rightarrow> nat option \<times> 's"
  px_TaskTimeout :: int

type_synonym 's px_conn = "('s, px_request, px_reply) conn"

type_synonym ('s, 'a) px = "('s px_conn, 'a) state"

datatype px_failure =
    AtStep px_request http_error | ZoneTaken string int int | VNetTaken string string int string int
  | TaskExit string string | TaskLate string | ContextEnded
  | VMTaken int string string | NoTemplate string

definition Claims :: "'s proxmox \<Rightarrow> Site \<Rightarrow> ('s, http_error + Claim list) px" where
  "Claims px site =
     andthen (ask_as as_zones (px_api px) ListZones) (\<lambda>zs.
       andthen (ask_as as_vnets (px_api px) ListVNets) (\<lambda>vs. ret (Inr (claims site zs vs))))"

section \<open>Tasks\<close>

definition second :: nat where "second = 1000000000"

definition taskTimeout :: "'s proxmox \<Rightarrow> nat" where
  "taskTimeout px = (if px_TaskTimeout px > 0 then nat (px_TaskTimeout px) else 600 * second)"

lemma ask_as_log:
  "run_state (ask_as rd srv q) w = (r, w1) \<Longrightarrow> cn_now w \<le> cn_now w1 \<and> (\<exists>a. cn_log w1 = cn_log w @ [(q, a)])"
  by (auto simp: ask_as_def ask_def split: prod.splits)

lemma ask_as_now: "(r, w1) = run_state (ask_as rd srv q) w \<Longrightarrow> cn_now w \<le> cn_now w1"
  using ask_as_log by metis

function wait_loop :: "'s proxmox \<Rightarrow> string \<Rightarrow> string \<Rightarrow> nat \<Rightarrow> 's px_conn \<Rightarrow> px_failure option \<times> 's px_conn" where
  "wait_loop px node upid deadline w =
     (case run_state (ask_as as_status (px_api px) (GetTask node upid)) w of
        (Inl e, w1) \<Rightarrow> (Some (AtStep (GetTask node upid) e), w1)
      | (Inr (status, exitstatus), w1) \<Rightarrow>
          if status = ''stopped'' then (if exitstatus \<noteq> ''OK'' then Some (TaskExit upid exitstatus) else None, w1)
          else if deadline < cn_now w1 then (Some (TaskLate upid), w1)
          else (case px_pause px (cn_server w1) of
                  (None, s) \<Rightarrow> (Some ContextEnded, w1\<lparr>cn_server := s\<rparr>)
                | (Some d, s) \<Rightarrow> wait_loop px node upid deadline (w1\<lparr>cn_server := s, cn_now := cn_now w1 + 2 * second + d\<rparr>)))"
  by pat_completeness auto
termination
  by (relation "measure (\<lambda>(px, node, upid, deadline, w). Suc deadline - cn_now w)")
     (auto simp: second_def dest!: ask_as_now)

declare wait_loop.simps [simp del]

definition waitTask :: "'s proxmox \<Rightarrow> string \<Rightarrow> string \<Rightarrow> ('s, px_failure option) px" where
  "waitTask px node upid =
     (if upid = [] then ret None else State (\<lambda>w. wait_loop px node upid (cn_now w + taskTimeout px) w))"

section \<open>Applying\<close>

definition upidNode :: "string \<Rightarrow> string" where
  "upidNode upid = (let parts = SplitOn CHR '':'' upid in if length parts < 2 \<or> parts ! 0 \<noteq> ''UPID'' then [] else parts ! 1)"

definition Apply :: "'s proxmox \<Rightarrow> ('s, px_failure option) px" where
  "Apply px =
     do {
       r \<leftarrow> ask_as as_task (px_api px) PutSDN;
       (case r of Inl e \<Rightarrow> ret (Some (AtStep PutSDN e))
        | Inr upid \<Rightarrow> let node = upidNode upid in if node \<noteq> [] then waitTask px node upid else ret None)
     }"

definition finish_change :: "'s proxmox \<Rightarrow> bool \<Rightarrow> ('s, px_failure option) px" where
  "finish_change px changed = (if changed then Apply px else ret None)"

section \<open>Building a network\<close>

text \<open>A step of \<^verbatim>\<open>Ensure\<close> hands on whether something changed, or stops with a failure.\<close>

definition create :: "'s proxmox \<Rightarrow> px_request \<Rightarrow> ('s, px_failure + bool) px" where
  "create px q = do { r \<leftarrow> ask (px_api px) q; ret (case r of Inl e \<Rightarrow> Inl (AtStep q e) | Inr _ \<Rightarrow> Inr True) }"

definition ensure_zone :: "'s proxmox \<Rightarrow> NetworkSpec \<Rightarrow> ('s, px_failure + bool) px" where
  "ensure_zone px n =
     do {
       r \<leftarrow> ask_as as_zone (px_api px) (GetZone (nw_Zone n));
       (case r of
          Inl NotFound \<Rightarrow> create px (PostZone n)
        | Inl e \<Rightarrow> ret (Inl (AtStep (GetZone (nw_Zone n)) e))
        | Inr vni \<Rightarrow>
            if vni \<noteq> nw_VRFVNI n then ret (Inl (ZoneTaken (nw_Zone n) vni (nw_VRFVNI n))) else ret (Inr False))
     }"

definition ensure_vnet :: "'s proxmox \<Rightarrow> string \<Rightarrow> VNetSpec \<Rightarrow> ('s, px_failure + bool) px" where
  "ensure_vnet px zone v =
     do {
       r \<leftarrow> ask_as as_vnet (px_api px) (GetVNet (vn_ID v));
       (case r of
          Inl NotFound \<Rightarrow> create px (PostVNet (vn_ID v) zone (vn_Tag v))
        | Inl e \<Rightarrow> ret (Inl (AtStep (GetVNet (vn_ID v)) e))
        | Inr (z, t) \<Rightarrow>
            if z \<noteq> zone \<or> t \<noteq> vn_Tag v then ret (Inl (VNetTaken (vn_ID v) z t zone (vn_Tag v))) else ret (Inr False))
     }"

fun ensure_vnets :: "'s proxmox \<Rightarrow> string \<Rightarrow> bool \<Rightarrow> VNetSpec list \<Rightarrow> ('s, px_failure + bool) px" where
  "ensure_vnets px zone changed [] = ret (Inr changed)"
| "ensure_vnets px zone changed (v # vs) = andthen (ensure_vnet px zone v) (\<lambda>c. ensure_vnets px zone (changed \<or> c) vs)"

definition dashed :: "string \<Rightarrow> string" where
  "dashed s = map (\<lambda>c. if c = CHR ''/'' \<or> c = CHR ''.'' then CHR ''-'' else c) s"

definition subnet_there :: "string \<Rightarrow> (string \<times> string) list \<Rightarrow> bool" where
  "subnet_there subnet subs = list_ex (\<lambda>(sub, cidr). cidr = subnet \<or> HasSuffix sub (dashed subnet)) subs"

definition ensure_subnet :: "'s proxmox \<Rightarrow> NetworkSpec \<Rightarrow> bool \<Rightarrow> ('s, px_failure + bool) px" where
  "ensure_subnet px n changed =
     (if nw_Subnet n = [] \<or> nw_VNets n = [] then ret (Inr changed)
      else let vnet = vn_ID (nw_VNets n ! 0) in
        do {
          r \<leftarrow> ask_as as_subnets (px_api px) (GetSubnets vnet);
          (case r of
             Inl (Failed m) \<Rightarrow> ret (Inl (AtStep (GetSubnets vnet) (Failed m)))
           | _ \<Rightarrow>
               let subs = (case r of Inr xs \<Rightarrow> xs | _ \<Rightarrow> []) in
               if subnet_there (nw_Subnet n) subs then ret (Inr changed)
               else create px (PostSubnet vnet (nw_Subnet n) (nw_Gateway n)))
        })"

definition fabric_Ensure :: "'s proxmox \<Rightarrow> NetworkSpec \<Rightarrow> ('s, px_failure option) px" where
  "fabric_Ensure px n =
     do {
       r \<leftarrow> andthen (ensure_zone px n) (\<lambda>c1. andthen (ensure_vnets px (nw_Zone n) c1 (nw_VNets n)) (\<lambda>c2. ensure_subnet px n c2));
       (case r of Inl f \<Rightarrow> ret (Some f) | Inr changed \<Rightarrow> finish_change px changed)
     }"

section \<open>Removing a network\<close>

text \<open>A delete that answers \<^verbatim>\<open>errNotFound\<close> is none, and changes nothing.\<close>

definition remove :: "'s proxmox \<Rightarrow> px_request \<Rightarrow> bool \<Rightarrow> ('s, px_failure + bool) px" where
  "remove px q changed =
     do {
       r \<leftarrow> ask (px_api px) q;
       ret (case r of Inl NotFound \<Rightarrow> Inr changed | Inl e \<Rightarrow> Inl (AtStep q e) | Inr _ \<Rightarrow> Inr True)
     }"

fun remove_subnets :: "'s proxmox \<Rightarrow> string \<Rightarrow> bool \<Rightarrow> string list \<Rightarrow> ('s, px_failure + bool) px" where
  "remove_subnets px vnet changed [] = ret (Inr changed)"
| "remove_subnets px vnet changed (sub # subs) =
     andthen (remove px (DeleteSubnet vnet sub) changed) (\<lambda>_. remove_subnets px vnet True subs)"

fun remove_vnets :: "'s proxmox \<Rightarrow> bool \<Rightarrow> VNetSpec list \<Rightarrow> ('s, px_failure + bool) px" where
  "remove_vnets px changed [] = ret (Inr changed)"
| "remove_vnets px changed (v # vs) =
     do {
       r \<leftarrow> ask_as as_subnets (px_api px) (GetSubnets (vn_ID v));
       andthen (remove_subnets px (vn_ID v) changed (case r of Inr xs \<Rightarrow> map fst xs | _ \<Rightarrow> [])) (\<lambda>c1.
         andthen (remove px (DeleteVNet (vn_ID v)) c1) (\<lambda>c2. remove_vnets px c2 vs))
     }"

definition fabric_Remove :: "'s proxmox \<Rightarrow> NetworkSpec \<Rightarrow> ('s, px_failure option) px" where
  "fabric_Remove px n =
     do {
       r \<leftarrow> andthen (remove_vnets px False (nw_VNets n)) (\<lambda>c. remove px (DeleteZone (nw_Zone n)) c);
       (case r of Inl f \<Rightarrow> ret (Some f) | Inr changed \<Rightarrow> finish_change px changed)
     }"

section \<open>The claims are what the fabric carries\<close>

lemma foldl_add: "set (foldl add_claim out cs) = set out \<union> {c \<in> set cs. cl_Index c \<noteq> 0}" "distinct out \<Longrightarrow> distinct (foldl add_claim out cs)"
  by (induction cs arbitrary: out) (auto simp: add_claim_def)

lemma claims_set:
  "set (claims site zs vs) = {c. cl_Index c \<noteq> 0 \<and> ((\<exists>z \<in> set zs. c \<in> set (zone_claims site z)) \<or> (\<exists>v \<in> set vs. c \<in> set (vnet_claims site v)))}"
  by (auto simp: claims_def foldl_add)

text \<open>The numbers of a zone, and the tags of a VNet with the zone each is in, pending ones included.\<close>

definition zone_numbers :: "px_zone \<Rightarrow> int set" where
  "zone_numbers z = {zo_VRFVXLAN z} \<union> set_option (zo_Pending z)"

definition vnet_tags :: "px_vnet \<Rightarrow> (int \<times> string) set" where
  "vnet_tags v = {(vt_Tag v, vt_Zone v)} \<union> (\<lambda>(z, t). (t, if z = [] then vt_Zone v else z)) ` set_option (vt_Pending v)"

lemma zone_claim_mem:
  "z \<in> set zs \<Longrightarrow> n \<in> zone_numbers z \<Longrightarrow> IndexForVRFVNI site n \<noteq> 0 \<Longrightarrow> claim (IndexForVRFVNI site n) (zo_Zone z) \<in> set (claims site zs vs)"
  by (fastforce simp: claims_set zone_claims_def zone_numbers_def claim_def split: option.split)

lemma vnet_claim_mem:
  "v \<in> set vs \<Longrightarrow> (t, zone) \<in> vnet_tags v \<Longrightarrow> IndexForVNetTag site t \<noteq> 0 \<Longrightarrow> claim (IndexForVNetTag site t) zone \<in> set (claims site zs vs)"
  by (fastforce simp: claims_set vnet_claims_def vnet_tags_def claim_def split: option.split)

section \<open>Waiting for a task ends\<close>

definition task_done :: "string \<Rightarrow> string \<Rightarrow> px_request \<times> (http_error + px_reply)" where
  "task_done node upid = (GetTask node upid, Inr (PxStatus ''stopped'' ''OK''))"

lemma poll_cases:
  assumes "run_state (ask_as as_status (px_api px) (GetTask node upid)) w = (r, w1)"
  shows "\<exists>a. cn_log w1 = cn_log w @ [(GetTask node upid, a)] \<and> cn_now w \<le> cn_now w1 \<and>
    (r = Inr (''stopped'', ''OK'') \<longleftrightarrow> a = Inr (PxStatus ''stopped'' ''OK''))"
  using assms by (auto simp: ask_as_def ask_def as_status_def split: prod.splits sum.splits option.splits px_reply.splits)

lemma one_more_poll: "now \<le> deadline \<Longrightarrow> (deadline + 2 * second - now) div (2 * second) = (deadline - now) div (2 * second) + 1"
proof -
  assume "now \<le> deadline"
  then have "deadline + 2 * second - now = 2 * second + (deadline - now)" by simp
  moreover have "(2 * second :: nat) \<noteq> 0" by (simp add: second_def)
  ultimately show ?thesis by (metis div_add_self1)
qed

text \<open>Two seconds pass between two polls, and no poll starts later than two seconds after the deadline.\<close>

lemma wait_loop_polls:
  "wait_loop px node upid deadline w = (r, w') \<Longrightarrow>
    \<exists>ext. cn_log w' = cn_log w @ ext \<and> each_request ((=) (GetTask node upid)) ext \<and> ext \<noteq> [] \<and>
      length ext \<le> (deadline + 2 * second - cn_now w) div (2 * second) + 1 \<and> (r = None \<longleftrightarrow> last ext = task_done node upid)"
proof (induction px node upid deadline w arbitrary: r w' rule: wait_loop.induct)
  case (1 px node upid deadline w)
  obtain a w1 where poll: "run_state (ask_as as_status (px_api px) (GetTask node upid)) w = (a, w1)" by fastforce
  from poll_cases[OF poll] obtain x where log: "cn_log w1 = cn_log w @ [(GetTask node upid, x)]" and now: "cn_now w \<le> cn_now w1"
    and ok: "a = Inr (''stopped'', ''OK'') \<longleftrightarrow> x = Inr (PxStatus ''stopped'' ''OK'')" by blast
  show ?case
  proof (cases "\<exists>status y d s. a = Inr (status, y) \<and> status \<noteq> ''stopped'' \<and> \<not> deadline < cn_now w1 \<and> px_pause px (cn_server w1) = (Some d, s)")
    case True
    then obtain status y d s where c: "a = Inr (status, y)" "status \<noteq> ''stopped''" "\<not> deadline < cn_now w1"
      "px_pause px (cn_server w1) = (Some d, s)" by blast
    let ?w2 = "w1\<lparr>cn_server := s, cn_now := cn_now w1 + 2 * second + d\<rparr>"
    have "wait_loop px node upid deadline ?w2 = (r, w')"
      using 1(2) unfolding wait_loop.simps[of px node upid deadline w] poll using c by simp
    from 1(1)[OF poll[symmetric] c(1) refl c(2,3) c(4)[symmetric] refl this]
    obtain ext where e: "cn_log w' = cn_log w1 @ ext" "each_request ((=) (GetTask node upid)) ext" "ext \<noteq> []"
      "length ext \<le> (deadline + 2 * second - (cn_now w1 + 2 * second + d)) div (2 * second) + 1"
      "r = None \<longleftrightarrow> last ext = task_done node upid" by auto
    have "(deadline + 2 * second - (cn_now w1 + 2 * second + d)) div (2 * second) \<le> (deadline - cn_now w) div (2 * second)"
      using now by (intro div_le_mono) simp
    moreover have "(deadline + 2 * second - cn_now w) div (2 * second) = (deadline - cn_now w) div (2 * second) + 1"
      using c(3) now by (intro one_more_poll) simp
    ultimately have "length ((GetTask node upid, x) # ext) \<le> (deadline + 2 * second - cn_now w) div (2 * second) + 1"
      using e(4) by simp
    then show ?thesis
      using e log by (intro exI[of _ "(GetTask node upid, x) # ext"]) simp
  next
    case False
    then have "cn_log w' = cn_log w1 \<and> (r = None \<longleftrightarrow> a = Inr (''stopped'', ''OK''))"
      using 1(2) unfolding wait_loop.simps[of px node upid deadline w] poll
      by (auto split: sum.splits if_splits prod.splits option.splits)
    then show ?thesis
      using log ok by (intro exI[of _ "[(GetTask node upid, x)]"]) (auto simp: task_done_def)
  qed
qed

lemma waitTask_polls:
  "wp (waitTask px node upid) (\<lambda>r w'. \<exists>ext. cn_log w' = cn_log w @ ext \<and> each_request ((=) (GetTask node upid)) ext \<and>
     length ext \<le> taskTimeout px div (2 * second) + 2 \<and> (r = None \<longleftrightarrow> upid = [] \<or> ext \<noteq> [] \<and> last ext = task_done node upid)) w"
proof (cases "upid = []")
  case False
  obtain r w' where run: "wait_loop px node upid (cn_now w + taskTimeout px) w = (r, w')" by fastforce
  have "(cn_now w + taskTimeout px + 2 * second - cn_now w) div (2 * second) = taskTimeout px div (2 * second) + 1"
    by (simp add: second_def)
  with wait_loop_polls[OF run] False run show ?thesis
    by (simp add: waitTask_def wp_simps) fastforce
qed (simp add: waitTask_def wp_simps)

section \<open>What the client asks for\<close>

fun posts :: "px_request \<Rightarrow> bool" where
  "posts (PostZone _) = True"
| "posts (PostVNet _ _ _) = True"
| "posts (PostSubnet _ _ _) = True"
| "posts _ = False"

definition posted :: "(px_request, px_reply) request_log \<Rightarrow> bool" where
  "posted log = list_ex (\<lambda>(q, a). granted a \<and> posts q) log"

text \<open>The requests \<open>fabric_Ensure\<close> may make for a network: to read, to create what is its own, to apply.\<close>

fun ensures :: "NetworkSpec \<Rightarrow> px_request \<Rightarrow> bool" where
  "ensures n (GetZone z) = (z = nw_Zone n)"
| "ensures n (PostZone m) = (m = n)"
| "ensures n (GetVNet v) = (v \<in> vn_ID ` set (nw_VNets n))"
| "ensures n (PostVNet v z t) = (z = nw_Zone n \<and> \<lparr>vn_ID = v, vn_Tag = t\<rparr> \<in> set (nw_VNets n))"
| "ensures n (GetSubnets v) = (nw_VNets n \<noteq> [] \<and> v = vn_ID (nw_VNets n ! 0))"
| "ensures n (PostSubnet v c g) = (nw_VNets n \<noteq> [] \<and> v = vn_ID (nw_VNets n ! 0) \<and> c = nw_Subnet n \<and> g = nw_Gateway n)"
| "ensures n PutSDN = True"
| "ensures n (GetTask _ _) = True"
| "ensures n _ = False"

text \<open>A zone or a VNet is created only right after the cluster answered that it does not have it.\<close>

definition missed :: "(px_request \<times> (http_error + px_reply)) option \<Rightarrow> px_request \<Rightarrow> bool" where
  "missed prev q = (case q of
       PostZone m \<Rightarrow> prev = Some (GetZone (nw_Zone m), Inl NotFound)
     | PostVNet v _ _ \<Rightarrow> prev = Some (GetVNet v, Inl NotFound)
     | _ \<Rightarrow> True)"

fun after_miss :: "(px_request \<times> (http_error + px_reply)) option \<Rightarrow> (px_request, px_reply) request_log \<Rightarrow> bool" where
  "after_miss prev [] = True"
| "after_miss prev (x # log) = (missed prev (fst x) \<and> after_miss (Some x) log)"

lemma after_miss_any: "after_miss None log \<Longrightarrow> after_miss prev log"
  by (cases log) (auto simp: missed_def split: px_request.splits)

lemma after_miss_append: "after_miss prev a \<Longrightarrow> after_miss None b \<Longrightarrow> after_miss prev (a @ b)"
  by (induction a arbitrary: prev) (auto simp: after_miss_any)

definition building :: "NetworkSpec \<Rightarrow> (px_request, px_reply) request_log \<Rightarrow> bool" where
  "building n log = (each_request (ensures n) log \<and> after_miss None log)"

interpretation sdn: request_rule "px_api px" "building n" for px n
  by unfold_locales (auto simp: building_def intro: after_miss_append)

lemma wait_building: "each_request ((=) (GetTask node upid)) ext \<Longrightarrow> building n ext"
proof -
  assume polls: "each_request ((=) (GetTask node upid)) ext"
  then have "after_miss prev ext" for prev
    by (induction ext arbitrary: prev) (auto simp: missed_def)
  moreover have "each_request (ensures n) ext"
    using polls by (induction ext) auto
  ultimately show ?thesis by (simp add: building_def)
qed

lemmas sdn_simps = wp_simps sdn.asked_def building_def missed_def

lemma waitTask_asked: "sdn.keeps n (waitTask px node upid)"
  by (rule sdn.keeps_wp, rule wp_mono[OF waitTask_polls]) (auto simp: sdn.asked_def intro: wait_building)

lemma ensure_zone_asked: "sdn.keeps n (ensure_zone px n)"
  unfolding ensure_zone_def create_def
  by (rule sdn.keeps_wp) (auto simp: sdn_simps split: prod.split sum.split option.split http_error.split)

lemma vnet_parts: "\<lparr>vn_ID = vn_ID v, vn_Tag = vn_Tag v\<rparr> = v"
  by simp

lemma ensure_vnet_asked: "v \<in> set (nw_VNets n) \<Longrightarrow> sdn.keeps n (ensure_vnet px (nw_Zone n) v)"
  unfolding ensure_vnet_def create_def
  by (rule sdn.keeps_wp) (auto simp: vnet_parts sdn_simps split: prod.split sum.split option.split http_error.split)

lemma ensure_vnets_asked: "set vs \<subseteq> set (nw_VNets n) \<Longrightarrow> sdn.keeps n (ensure_vnets px (nw_Zone n) changed vs)"
  by (induction vs arbitrary: changed) (auto intro!: sdn.keeps_return sdn.keeps_andthen ensure_vnet_asked)

lemma ensure_subnet_asked: "sdn.keeps n (ensure_subnet px n changed)"
  unfolding ensure_subnet_def create_def Let_def
  by (rule sdn.keeps_wp) (auto simp: sdn_simps split: prod.split sum.split option.split http_error.split)

lemma Apply_asked: "sdn.keeps n (Apply px)"
  unfolding Apply_def by (intro sdn.keeps_intros sdn.keeps_ask_as waitTask_asked) (simp add: building_def missed_def)

lemma fabric_Ensure_asked: "sdn.keeps n (fabric_Ensure px n)"
  unfolding fabric_Ensure_def finish_change_def
  by (intro sdn.keeps_intros sdn.keeps_andthen ensure_zone_asked ensure_vnets_asked ensure_subnet_asked Apply_asked) simp

text \<open>\<open>changed\<close> says whether the cluster granted a create.\<close>

definition tracks :: "bool \<Rightarrow> (px_request, px_reply) request_log \<Rightarrow> px_failure + bool \<Rightarrow> 's px_conn \<Rightarrow> bool" where
  "tracks c0 log r w' = (\<exists>ext. cn_log w' = log @ ext \<and> (\<forall>c. r = Inr c \<longrightarrow> (c \<longleftrightarrow> c0 \<or> posted ext)))"

lemma posted_simps [simp]:
  "posted [] = False" "posted (x # log) = (granted (snd x) \<and> posts (fst x) \<or> posted log)" "posted (a @ b) = (posted a \<or> posted b)"
  by (auto simp: posted_def)

lemma ensure_zone_tracks: "wp (ensure_zone px n) (tracks False (cn_log w)) w"
  unfolding ensure_zone_def create_def
  by (auto simp: wp_simps tracks_def split: prod.split sum.split option.split http_error.split)

lemma ensure_vnet_tracks: "wp (ensure_vnet px z v) (tracks False (cn_log w)) w"
  unfolding ensure_vnet_def create_def
  by (auto simp: wp_simps tracks_def split: prod.split sum.split option.split http_error.split)

lemma tracks_then: "tracks False log (Inr c) w \<Longrightarrow> tracks (c0 \<or> c) (cn_log w) r w' \<Longrightarrow> tracks c0 log r w'"
  by (auto simp: tracks_def)

lemma tracks_stop: "tracks c log (Inl f) w \<Longrightarrow> tracks c0 log (Inl f) w"
  by (auto simp: tracks_def)

lemma ensure_vnets_tracks: "wp (ensure_vnets px z c0 vs) (tracks c0 (cn_log w)) w"
proof (induction vs arbitrary: c0 w)
  case (Cons v vs)
  have go: "wp (ensure_vnets px z (c0 \<or> c) vs) (tracks c0 (cn_log w)) w'" if "tracks False (cn_log w) (Inr c) w'" for c w'
    using that by (auto intro: wp_mono[OF Cons] tracks_then)
  show ?case
    by (simp add: wp_andthen) (rule wp_mono[OF ensure_vnet_tracks], auto intro: tracks_stop go split: sum.split)
qed (simp add: wp_simps tracks_def)

lemma ensure_subnet_tracks: "wp (ensure_subnet px n c0) (tracks c0 (cn_log w)) w"
  unfolding ensure_subnet_def create_def Let_def
  by (auto simp: wp_simps tracks_def split: prod.split sum.split option.split http_error.split)

lemma polls_not_posted: "each_request ((=) (GetTask node upid)) ext \<Longrightarrow> \<not> posted ext"
  by (induction ext) auto

lemma Apply_granted:
  "wp (Apply px) (\<lambda>r w'. \<exists>ext. cn_log w' = cn_log w @ ext \<and> \<not> posted ext \<and> (r = None \<longrightarrow> (\<exists>u. (PutSDN, Inr u) \<in> set ext))) w"
  unfolding Apply_def Let_def
  by (auto simp: wp_simps split: prod.split sum.split option.split intro!: wp_mono[OF waitTask_polls] dest: polls_not_posted)

lemma ensure_steps_track:
  "wp (andthen (ensure_zone px n) (\<lambda>c1. andthen (ensure_vnets px (nw_Zone n) c1 (nw_VNets n)) (\<lambda>c2. ensure_subnet px n c2)))
     (tracks False (cn_log w)) w"
proof -
  have sub: "wp (ensure_subnet px n c2) (tracks False (cn_log w)) w2" if "tracks False (cn_log w) (Inr c2) w2" for c2 w2
    by (rule wp_mono[OF ensure_subnet_tracks]) (use tracks_then[OF that, of False] in simp)
  have vnets: "wp (ensure_vnets px (nw_Zone n) c1 (nw_VNets n)) (\<lambda>r. case r of Inl f \<Rightarrow> tracks False (cn_log w) (Inl f)
      | Inr c2 \<Rightarrow> wp (ensure_subnet px n c2) (tracks False (cn_log w))) w1" if "tracks False (cn_log w) (Inr c1) w1" for c1 w1
    by (rule wp_mono[OF ensure_vnets_tracks]) (use tracks_then[OF that, of False] sub in \<open>auto split: sum.split\<close>)
  show ?thesis
    unfolding wp_andthen by (rule wp_mono[OF ensure_zone_tracks]) (auto intro: vnets split: sum.split)
qed

definition fabric_applied :: "(px_request, px_reply) request_log \<Rightarrow> px_failure option \<Rightarrow> 's px_conn \<Rightarrow> bool" where
  "fabric_applied log r w' = (\<exists>ext. cn_log w' = log @ ext \<and> (r = None \<longrightarrow> posted ext \<longrightarrow> (\<exists>u. (PutSDN, Inr u) \<in> set ext)))"

lemma finish_applied:
  assumes "tracks False log (Inr c) w'"
  shows "wp (finish_change px c) (fabric_applied log) w'"
proof -
  obtain ext where ext: "cn_log w' = log @ ext" "c \<longleftrightarrow> posted ext" using assms unfolding tracks_def by blast
  then show ?thesis
    unfolding finish_change_def fabric_applied_def
    by (auto simp: wp_simps intro!: wp_mono[OF Apply_granted])
qed

lemma fabric_Ensure_applied: "wp (fabric_Ensure px n) (fabric_applied (cn_log w)) w"
proof -
  have failed: "fabric_applied log (Some f) w'" if "tracks c0 log (Inl f') w'" for f f' c0 log and w' :: "'a px_conn"
    using that by (auto simp: tracks_def fabric_applied_def)
  show ?thesis
    unfolding fabric_Ensure_def wp_bind
    by (rule wp_mono[OF ensure_steps_track]) (auto simp: wp_simps intro: failed finish_applied split: sum.split)
qed

section \<open>Removing\<close>

text \<open>Where \<open>remove_subnets\<close> fails, it is at a subnet of the VNet.\<close>

lemma remove_subnets_fails:
  "wp (remove_subnets px vnet c subs) (\<lambda>r w'. \<forall>f. r = Inl f \<longrightarrow> (\<exists>sub e. f = AtStep (DeleteSubnet vnet sub) e)) w"
proof (induction subs arbitrary: c w)
  case (Cons sub subs)
  show ?case
    by (auto simp: wp_simps remove_def intro!: Cons split: prod.split sum.split http_error.split)
qed (simp add: wp_simps)

interpretation any_px: request_rule "px_api px" "\<lambda>_. True" for px
  by unfold_locales simp_all

lemma grows: "any_px.keeps m \<Longrightarrow> x \<in> set (cn_log w) \<Longrightarrow> wp m (\<lambda>r w'. x \<in> set (cn_log w')) w"
  using any_px.keepsD[of m w] by (auto simp: wp_def any_px.asked_def split: prod.splits)

lemma waitTask_grows: "any_px.keeps (waitTask px node upid)"
  by (rule any_px.keeps_wp, rule wp_mono[OF waitTask_polls]) (auto simp: any_px.asked_def)

lemma finish_grows: "any_px.keeps (finish_change px c)"
  unfolding finish_change_def Apply_def by (intro any_px.keeps_intros any_px.keeps_ask_as waitTask_grows) simp

text \<open>A network of one VNet: its VNet is asked to be deleted, or the removal stopped at a subnet of it.\<close>

definition vnet_attacked :: "string \<Rightarrow> px_failure option \<Rightarrow> 's px_conn \<Rightarrow> bool" where
  "vnet_attacked v r w = ((\<exists>a. (DeleteVNet v, a) \<in> set (cn_log w)) \<or> (\<exists>sub e. r = Some (AtStep (DeleteSubnet v sub) e)))"

lemma finish_attacked: "\<exists>a. (DeleteVNet v, a) \<in> set (cn_log w) \<Longrightarrow> wp (finish_change px c) (vnet_attacked v) w"
proof (erule exE)
  fix a
  assume "(DeleteVNet v, a) \<in> set (cn_log w)"
  then show ?thesis by (rule wp_mono[OF grows[OF finish_grows]]) (auto simp: vnet_attacked_def)
qed

lemma fabric_Remove_attacks:
  assumes "nw_VNets n = [v]"
  shows "wp (fabric_Remove px n) (vnet_attacked (vn_ID v)) w"
proof -
  have after: "wp (remove_subnets px (vn_ID v) c subs) (\<lambda>r. case r of Inl f \<Rightarrow> vnet_attacked (vn_ID v) (Some f)
      | Inr c1 \<Rightarrow> wp (remove px (DeleteVNet (vn_ID v)) c1) (\<lambda>r. case r of Inl f \<Rightarrow> vnet_attacked (vn_ID v) (Some f)
        | Inr c2 \<Rightarrow> wp (remove px (DeleteZone (nw_Zone n)) c2) (\<lambda>r. case r of Inl f \<Rightarrow> vnet_attacked (vn_ID v) (Some f)
          | Inr changed \<Rightarrow> wp (finish_change px changed) (vnet_attacked (vn_ID v))))) w1" for c subs w1
    by (rule wp_mono[OF remove_subnets_fails])
       (auto simp: vnet_attacked_def remove_def wp_simps intro!: finish_attacked split: prod.split sum.split http_error.split)
  show ?thesis
    unfolding fabric_Remove_def assms by (simp add: wp_simps after split: sum.split prod.split cong: sum.case_cong)
qed

section \<open>Building again\<close>

fun reads :: "px_request \<Rightarrow> bool" where
  "reads (GetZone _) = True"
| "reads (GetVNet _) = True"
| "reads (GetSubnets _) = True"
| "reads _ = False"

text \<open>In this state the reads of the network's objects answer that they are there, as they should be, and leave the state.\<close>

definition answers :: "'s proxmox \<Rightarrow> 's \<Rightarrow> px_request \<Rightarrow> px_reply \<Rightarrow> bool" where
  "answers px s q rep = (case px_api px q s of (r, d, s') \<Rightarrow> r = Inr rep \<and> s' = s)"

definition network_there :: "'s proxmox \<Rightarrow> NetworkSpec \<Rightarrow> 's \<Rightarrow> bool" where
  "network_there px n s =
     (answers px s (GetZone (nw_Zone n)) (PxZone (nw_VRFVNI n)) \<and>
      (\<forall>v \<in> set (nw_VNets n). answers px s (GetVNet (vn_ID v)) (PxVNet (nw_Zone n) (vn_Tag v))) \<and>
      (nw_VNets n \<noteq> [] \<longrightarrow> (\<exists>xs. answers px s (GetSubnets (vn_ID (nw_VNets n ! 0))) (PxSubnets xs) \<and> subnet_there (nw_Subnet n) xs)))"

definition read_only :: "'s px_conn \<Rightarrow> 's px_conn \<Rightarrow> bool" where
  "read_only w w' = (cn_server w' = cn_server w \<and> (\<exists>ext. cn_log w' = cn_log w @ ext \<and> each_request reads ext))"

lemma read_only_trans: "read_only u v \<Longrightarrow> read_only v w \<Longrightarrow> read_only u w"
  unfolding read_only_def by (metis append_assoc each_request_simps(3))

lemma read_only_server: "read_only w w' \<Longrightarrow> cn_server w' = cn_server w"
  by (simp add: read_only_def)

lemma wp_answered:
  assumes "answers px (cn_server w) q rep" "reads q" "\<And>w'. read_only w w' \<Longrightarrow> Q (Inr rep) w'"
  shows "wp (ask (px_api px) q) Q w"
  using assms by (auto simp: wp_ask answers_def read_only_def split: prod.splits)

lemma there_zone: "network_there px n (cn_server w) \<Longrightarrow> wp (ensure_zone px n) (\<lambda>r w'. r = Inr False \<and> read_only w w') w"
  unfolding ensure_zone_def wp_bind wp_ask_as
  by (rule wp_answered) (auto simp: network_there_def as_zone_def wp_simps)

lemma there_vnet:
  "answers px (cn_server w) (GetVNet (vn_ID v)) (PxVNet z (vn_Tag v)) \<Longrightarrow>
     wp (ensure_vnet px z v) (\<lambda>r w'. r = Inr False \<and> read_only w w') w"
  unfolding ensure_vnet_def wp_bind wp_ask_as
  by (erule wp_answered) (auto simp: as_vnet_def wp_simps)

lemma read_only_refl: "read_only w w"
  by (simp add: read_only_def)

lemma there_vnets:
  "\<forall>v \<in> set vs. answers px (cn_server w) (GetVNet (vn_ID v)) (PxVNet z (vn_Tag v)) \<Longrightarrow>
     wp (ensure_vnets px z False vs) (\<lambda>r w'. r = Inr False \<and> read_only w w') w"
proof (induction vs arbitrary: w)
  case (Cons v vs)
  have "wp (ensure_vnets px z False vs) (\<lambda>r w'. r = Inr False \<and> read_only w w') w1" if "read_only w w1" for w1
    using that Cons.prems by (intro wp_mono[OF Cons.IH]) (auto simp: read_only_server intro: read_only_trans)
  then show ?case
    using Cons.prems by (simp add: wp_andthen) (rule wp_mono[OF there_vnet], auto)
qed (simp add: wp_simps read_only_refl)

lemma there_subnet:
  assumes "network_there px n (cn_server w)"
  shows "wp (ensure_subnet px n False) (\<lambda>r w'. r = Inr False \<and> read_only w w') w"
proof (cases "nw_Subnet n = [] \<or> nw_VNets n = []")
  case False
  then obtain xs where "answers px (cn_server w) (GetSubnets (vn_ID (nw_VNets n ! 0))) (PxSubnets xs)" "subnet_there (nw_Subnet n) xs"
    using assms by (auto simp: network_there_def)
  then show ?thesis
    using False unfolding ensure_subnet_def Let_def wp_if wp_bind wp_ask_as
    by (simp, intro wp_answered) (auto simp: as_subnets_def wp_simps)
qed (simp add: ensure_subnet_def wp_simps read_only_refl)

lemma fabric_Ensure_there:
  assumes "network_there px n (cn_server w)"
  shows "wp (fabric_Ensure px n) (\<lambda>r w'. r = None \<and> read_only w w') w"
proof -
  have sub: "wp (ensure_subnet px n False) (\<lambda>r w'. r = Inr False \<and> read_only w w') w2" if "read_only w w2" for w2
    using that assms by (intro wp_mono[OF there_subnet]) (auto simp: read_only_server intro: read_only_trans)
  have vnets: "wp (ensure_vnets px (nw_Zone n) False (nw_VNets n)) (\<lambda>r w'. r = Inr False \<and> read_only w w') w1" if "read_only w w1" for w1
    using that assms by (intro wp_mono[OF there_vnets]) (auto simp: read_only_server network_there_def intro: read_only_trans)
  show ?thesis
    unfolding fabric_Ensure_def wp_bind wp_andthen
    by (rule wp_mono[OF there_zone[OF assms]])
       (auto simp: wp_simps finish_change_def intro!: wp_mono[OF vnets] wp_mono[OF sub])
qed

section \<open>The properties\<close>

text \<open>The index a tenant is given is clear of the fabric: no zone of another name carries its VRF VNI, and no VNet of
  another zone one of its ten VNet tags, among what the cluster has applied and what it has pending.\<close>

lemma picked_index_clear_of_fabric:
  assumes "pickIndex name requested held (claims site zs vs) = Inr i"
    and "requested = 0 \<or> MinIndex \<le> requested \<and> requested \<le> MaxAllocatable"
  shows "(\<forall>z \<in> set zs. num_VRFVNI (Numbering_of site i) \<in> zone_numbers z \<longrightarrow> zo_Zone z = name) \<and>
    (\<forall>v \<in> set vs. \<forall>t zone. (t, zone) \<in> vnet_tags v \<and> num_VNetVNIBase (Numbering_of site i) \<le> t \<and>
       t < num_VNetVNIBase (Numbering_of site i) + 10 \<longrightarrow> zone = name)"
proof -
  have i: "1 \<le> i" "i \<le> 62" using pickIndex_bounds[OF assms] by simp_all
  have clear: "cl_Zone c = name" if "c \<in> set (claims site zs vs)" "cl_Index c = i" for c
    using pickIndex_cases[OF assms(1)] that by (auto simp: index_free_def fabric_zones_def list_all_iff)
  have idx: "MinIndex = 1" "ReservedIndex = 63" "vnetsPerTenant = 10"
    by (simp_all add: MinIndex_def ReservedIndex_def vnetsPerTenant_def)
  have zone: "IndexForVRFVNI site (num_VRFVNI (Numbering_of site i)) = i"
    using i IndexForVRFVNI_inverse[of i site] idx by simp
  have tag: "IndexForVNetTag site t = i" if "num_VNetVNIBase (Numbering_of site i) \<le> t" "t < num_VNetVNIBase (Numbering_of site i) + 10" for t
    using that i IndexForVNetTag_inverse[of i "t - num_VNetVNIBase (Numbering_of site i)" site] idx by simp
  show ?thesis
    using zone_claim_mem[of _ zs _ site vs] vnet_claim_mem[of _ vs _ _ site zs] zone tag clear i by (fastforce simp: claim_def)
qed

text \<open>A cluster that keeps what was created, and fails to apply once when told to.\<close>

fun sample_api :: "(px_request list \<times> bool, px_request, px_reply) server" where
  "sample_api (GetZone z) (c, ok) =
     (case find (\<lambda>q. case q of PostZone m \<Rightarrow> nw_Zone m = z | _ \<Rightarrow> False) c of
        Some (PostZone m) \<Rightarrow> Inr (PxZone (nw_VRFVNI m)) | _ \<Rightarrow> Inl NotFound, 5, c, ok)"
| "sample_api (GetVNet v) (c, ok) =
     (case find (\<lambda>q. case q of PostVNet i _ _ \<Rightarrow> i = v | _ \<Rightarrow> False) c of
        Some (PostVNet _ z t) \<Rightarrow> Inr (PxVNet z t) | _ \<Rightarrow> Inl NotFound, 5, c, ok)"
| "sample_api (GetSubnets v) (c, ok) =
     (Inr (PxSubnets (concat (map (\<lambda>q. case q of PostSubnet i cidr _ \<Rightarrow> if i = v then [([], cidr)] else [] | _ \<Rightarrow> []) c))), 5, c, ok)"
| "sample_api (PostZone m) (c, ok) = (Inr PxNone, 5, PostZone m # c, ok)"
| "sample_api (PostVNet v z t) (c, ok) = (Inr PxNone, 5, PostVNet v z t # c, ok)"
| "sample_api (PostSubnet v n g) (c, ok) = (Inr PxNone, 5, PostSubnet v n g # c, ok)"
| "sample_api PutSDN (c, ok) = (if ok then (Inr (PxTask ''UPID:hv1:1''), 5, c, True) else (Inl (Failed ''596''), 5, c, True))"
| "sample_api (GetTask node upid) (c, ok) = (Inr (PxStatus ''stopped'' ''OK''), 5, c, ok)"
| "sample_api q (c, ok) = (Inl NotFound, 5, c, ok)"

definition sample_px :: "(px_request list \<times> bool) proxmox" where
  "sample_px = \<lparr>px_api = sample_api, px_pause = \<lambda>s. (Some 0, s), px_TaskTimeout = 0\<rparr>"

lemmas px_run = fabric_Ensure_def ensure_zone_def create_def ensure_vnet_def ensure_subnet_def andthen_def ask_as_def
  ask_def finish_change_def Apply_def waitTask_def wait_loop.simps upidNode_def taskTimeout_def second_def reply_defs sample_px_def
  Network_def subnet_there_def conn_start_def Let_def

definition sample_net :: NetworkSpec where
  "sample_net = \<lparr>nw_Zone = ''eds'', nw_Controller = ''evpn1'', nw_Node = ''hv1'', nw_VRFVNI = 10005,
     nw_VNets = [\<lparr>vn_ID = ''eds0'', vn_Tag = 20050\<rparr>], nw_Subnet = ''10.20.133.0/24'', nw_Gateway = ''10.20.133.1''\<rparr>"

lemma sample_built:
  "run_state (fabric_Ensure sample_px sample_net) (conn_start ([], True)) =
    (None, \<lparr>cn_server = ([PostSubnet ''eds0'' ''10.20.133.0/24'' ''10.20.133.1'', PostVNet ''eds0'' ''eds'' 20050, PostZone sample_net], True),
      cn_now = 40, cn_log = [(GetZone ''eds'', Inl NotFound), (PostZone sample_net, Inr PxNone),
        (GetVNet ''eds0'', Inl NotFound), (PostVNet ''eds0'' ''eds'' 20050, Inr PxNone),
        (GetSubnets ''eds0'', Inr (PxSubnets [])), (PostSubnet ''eds0'' ''10.20.133.0/24'' ''10.20.133.1'', Inr PxNone),
        (PutSDN, Inr (PxTask ''UPID:hv1:1'')), (GetTask ''hv1'' ''UPID:hv1:1'', Inr (PxStatus ''stopped'' ''OK''))]\<rparr>)"
  by (simp add: px_run sample_net_def)

text \<open>C20. A tenant's network is built safely whatever the cluster answers: the client asks only to read and to create
  that network's zone, VNets and subnet; a zone or a VNet it creates only right after the cluster answered that it
  has none of that name; and when it reports success after the cluster granted a create, the cluster has granted
  the request to apply it.\<close>

theorem network_built_safely:
  "case run_state (fabric_Ensure px n) (conn_start s) of (r, w) \<Rightarrow>
     each_request (ensures n) (cn_log w) \<and> after_miss None (cn_log w) \<and>
     (r = None \<and> posted (cn_log w) \<longrightarrow> (\<exists>u. (PutSDN, Inr u) \<in> set (cn_log w)))"
proof -
  obtain r w where run: "run_state (fabric_Ensure px n) (conn_start s) = (r, w)" by fastforce
  have "building n (cn_log w)" by (rule sdn.asked_from_start[OF fabric_Ensure_asked run])
  moreover have "fabric_applied [] r w"
    using wp_run[OF run fabric_Ensure_applied] by (simp add: conn_start_def)
  ultimately show ?thesis using run by (auto simp: building_def fabric_applied_def)
qed

theorem network_built_safely_witness:
  "\<exists>w u. run_state (fabric_Ensure sample_px sample_net) (conn_start ([], True)) = (None, w) \<and>
    posted (cn_log w) \<and> (PutSDN, Inr u) \<in> set (cn_log w)"
  using network_built_safely[where px = sample_px and n = sample_net and s = "([], True)"] by (auto simp: sample_built)

text \<open>C31. A network that is there is left alone: when the cluster's reads show the zone, the VNets and the subnet as they
  should be, building it again succeeds, asks for reads only, and in particular does not apply. The reads do not
  tell a network that was applied from one that was created and whose apply failed, so the retry after a failed
  apply reports a network that was never applied as built.\<close>

theorem unapplied_network_reported_built:
  assumes "network_there px n s"
  shows "case run_state (fabric_Ensure px n) (conn_start s) of (r, w) \<Rightarrow> r = None \<and> each_request reads (cn_log w)"
  using fabric_Ensure_there[of px n "conn_start s"] assms
  by (auto simp: wp_def read_only_def conn_start_def split: prod.splits)

theorem unapplied_network_reported_built_witness:
  "\<exists>w w'. run_state (fabric_Ensure sample_px sample_net) (conn_start ([], False)) = (Some (AtStep PutSDN (Failed ''596'')), w) \<and>
    run_state (fabric_Ensure sample_px sample_net) (conn_start (cn_server w)) = (None, w') \<and>
    each_request reads (cn_log w')"
proof -
  let ?s = "([PostSubnet ''eds0'' ''10.20.133.0/24'' ''10.20.133.1'', PostVNet ''eds0'' ''eds'' 20050, PostZone sample_net], True)"
  have first: "\<exists>w. run_state (fabric_Ensure sample_px sample_net) (conn_start ([], False)) = (Some (AtStep PutSDN (Failed ''596'')), w) \<and>
      cn_server w = ?s"
    by (simp add: px_run sample_net_def)
  have "network_there sample_px sample_net ?s"
    by (simp add: network_there_def answers_def sample_px_def sample_net_def subnet_there_def)
  from unapplied_network_reported_built[OF this] first show ?thesis by (auto split: prod.splits)
qed

text \<open>Removing a tenant's network takes the VNet of every tenant whose name begins with the same six characters:
  whatever the cluster answers, the removal asks it to delete that VNet, or has failed at deleting a subnet of it.\<close>

lemma remove_takes_shared_vnet:
  assumes "take 6 a = take 6 b"
  shows "case run_state (fabric_Remove px (Network site a i)) (conn_start s) of (r, w) \<Rightarrow>
    \<forall>v \<in> set (nw_VNets (Network site b j)). vnet_attacked (vn_ID v) r w"
proof -
  have short: "(if length m > 6 then take 6 m else m) = take 6 m" for m :: string by simp
  have "nw_VNets (Network site m k) = [\<lparr>vn_ID = take 6 m @ itoa 0, vn_Tag = num_VNetVNIBase (Numbering_of site k)\<rparr>]" for m k
    by (simp add: Network_def Let_def short)
  then show ?thesis
    using assms fabric_Remove_attacks[of "Network site a i" _ px "conn_start s"] by (auto simp: wp_def split: prod.splits)
qed

text \<open>C29. Waiting for a task ends, whatever the cluster answers and however long it takes: the client polls that task at
  most once every two seconds of the bound and twice more, and reports success exactly when the last answer was
  that the task has stopped with exit status OK, or when there was no task.\<close>

theorem task_wait_bounded:
  "case run_state (waitTask px node upid) w of (r, w') \<Rightarrow>
     \<exists>polls. cn_log w' = cn_log w @ polls \<and> each_request ((=) (GetTask node upid)) polls \<and>
       length polls \<le> taskTimeout px div (2 * second) + 2 \<and>
       (r = None \<longleftrightarrow> upid = [] \<or> polls \<noteq> [] \<and> last polls = task_done node upid)"
  using waitTask_polls[of px node upid w] by (auto simp: wp_def split: prod.splits)

end
