(* ===== verification/Compute.thy ===== *)
theory Compute
  imports Fabric
begin

text \<open>
  \<^verbatim>\<open>internal/backend/proxmox/compute.go\<close>: a workload's virtual machine, cloned from the newest template of the site
  or adopted, configured and started, and its removal. The cluster is the parameter of \<open>Fabric\<close>.
\<close>

section \<open>The newest template\<close>

text \<open>\<^verbatim>\<open>strconv.Atoi\<close> of a run of digits; out of range it answers the largest \<^verbatim>\<open>int\<close> with its error, which is dropped.\<close>

definition Atoi_digits :: "string \<Rightarrow> nat" where
  "Atoi_digits s = min (undec s) (2 ^ 63 - 1)"

fun numbers_loop :: "string \<Rightarrow> string \<Rightarrow> nat list" where
  "numbers_loop cur [] = (if cur \<noteq> [] then [Atoi_digits cur] else [])"
| "numbers_loop cur (r # rs) =
     (if r \<in> set digits then numbers_loop (cur @ [r]) rs
      else if cur \<noteq> [] then Atoi_digits cur # numbers_loop [] rs
      else numbers_loop [] rs)"

definition numbersIn :: "string \<Rightarrow> nat list" where
  "numbersIn s = numbers_loop [] s"

text \<open>The loop over the common length, then the lengths, then the names.\<close>

fun versionLess_loop :: "nat list \<Rightarrow> nat list \<Rightarrow> bool option" where
  "versionLess_loop (x # xs) (y # ys) = (if x \<noteq> y then Some (x < y) else versionLess_loop xs ys)"
| "versionLess_loop _ _ = None"

definition versionLess :: "string \<Rightarrow> string \<Rightarrow> bool" where
  "versionLess a b =
     (let na = numbersIn a; nb = numbersIn b in
      case versionLess_loop na nb of
        Some l \<Rightarrow> l
      | None \<Rightarrow> if length na \<noteq> length nb then length na < length nb else a < b)"

text \<open>\<^verbatim>\<open>sort.Slice\<close>: insertion sort, which is what it is on short slices; where two names are equal their order is not specified.\<close>

fun insert_by :: "('a \<Rightarrow> 'a \<Rightarrow> bool) \<Rightarrow> 'a \<Rightarrow> 'a list \<Rightarrow> 'a list" where
  "insert_by lt x [] = [x]"
| "insert_by lt x (y # ys) = (if lt x y then x # y # ys else y # insert_by lt x ys)"

definition sort_Slice :: "('a \<Rightarrow> 'a \<Rightarrow> bool) \<Rightarrow> 'a list \<Rightarrow> 'a list" where
  "sort_Slice lt xs = fold (insert_by lt) xs []"

definition newestTemplate :: "vmEntry list \<Rightarrow> string \<Rightarrow> int option" where
  "newestTemplate vms prefix =
     (let candidates = filter (\<lambda>vm. vm_Template vm = 1 \<and> HasPrefix (vm_Name vm) prefix) vms in
      if candidates = [] then None
      else Some (vm_VMID (last (sort_Slice (\<lambda>a b. versionLess (vm_Name a) (vm_Name b)) candidates))))"

section \<open>Configuration\<close>

text \<open>\<^verbatim>\<open>url.QueryEscape\<close>, and \<^verbatim>\<open>strings.ReplaceAll\<close> of one character.\<close>

definition upperhex :: string where "upperhex = ''0123456789ABCDEF''"

definition unreserved :: "char \<Rightarrow> bool" where
  "unreserved c = (c \<in> set (lowers @ uppers @ digits @ ''-_.~''))"

definition escape_char :: "char \<Rightarrow> string" where
  "escape_char c =
     (if unreserved c then [c] else if c = CHR '' '' then ''+''
      else [CHR ''%'', upperhex ! (of_char c div 16), upperhex ! (of_char c mod 16)])"

definition QueryEscape :: "string \<Rightarrow> string" where
  "QueryEscape s = concat (map escape_char s)"

definition ReplaceChar :: "char \<Rightarrow> string \<Rightarrow> string \<Rightarrow> string" where
  "ReplaceChar old new s = concat (map (\<lambda>c. if c = old then new else [c]) s)"

definition ssh_text :: "string list \<Rightarrow> string" where
  "ssh_text keys = Join keys [CHR 0x0A] @ [CHR 0x0A]"

definition sshkeys :: "string list \<Rightarrow> string" where
  "sshkeys keys = ReplaceChar CHR ''+'' ''%20'' (QueryEscape (ssh_text keys))"

definition workload_config :: "WorkloadSpec \<Rightarrow> (string \<times> string) list" where
  "workload_config w =
     [(''cores'', itoa (sp_Cores w)), (''memory'', itoa (sp_MemoryMB w)), (''agent'', ''enabled=1''), (''onboot'', ''1''),
      (''net0'', ''virtio='' @ sp_MAC w @ '',bridge='' @ sp_Bridge w),
      (''ipconfig0'', ''ip='' @ sp_Address w @ '',gw='' @ sp_Gateway w),
      (''tags'', Join (sp_Tags w) '';''), (''ciupgrade'', ''0'')] @
     (if sp_Nameserver w \<noteq> [] then [(''nameserver'', sp_Nameserver w)] else []) @
     (if sp_SSHKeys w \<noteq> [] then [(''sshkeys'', sshkeys (sp_SSHKeys w))] else []) @
     (if sp_CIUser w \<noteq> [] then [(''ciuser'', sp_CIUser w)] else [])"

definition Contains :: "string \<Rightarrow> string \<Rightarrow> bool" where
  "Contains s sub = list_ex (\<lambda>i. HasPrefix (drop i s) sub) [0..<Suc (length s)]"

text \<open>\<^verbatim>\<open>err.Error()\<close>.\<close>

definition error_text :: "http_error \<Rightarrow> string" where
  "error_text e = (case e of NotFound \<Rightarrow> ''proxmox: not found'' | Failed m \<Rightarrow> m)"

section \<open>Operations\<close>

definition postTask :: "'s proxmox \<Rightarrow> string \<Rightarrow> px_request \<Rightarrow> ('s, px_failure option) px" where
  "postTask px node q =
     do {
       r \<leftarrow> ask_as as_task (px_api px) q;
       (case r of Inl e \<Rightarrow> ret (Some (AtStep q e)) | Inr upid \<Rightarrow> waitTask px node upid)
     }"

definition resize :: "'s proxmox \<Rightarrow> WorkloadSpec \<Rightarrow> ('s, px_failure option) px" where
  "resize px w =
     (if sp_DiskGB w > 0 then
        let q = PutResize (sp_Node w) (sp_VMID w) (sp_Disk w) (itoa (sp_DiskGB w) @ ''G'') in
        do {
          r \<leftarrow> ask (px_api px) q;
          ret (case r of Inl e \<Rightarrow> if Contains (error_text e) ''smaller'' then None else Some (AtStep q e) | Inr _ \<Rightarrow> None)
        }
      else ret None)"

definition configureWorkload :: "'s proxmox \<Rightarrow> WorkloadSpec \<Rightarrow> bool \<Rightarrow> ('s, px_failure option) px" where
  "configureWorkload px w start =
     (let q = PostConfig (sp_Node w) (sp_VMID w) (workload_config w) in
      do {
        r \<leftarrow> ask (px_api px) q;
        (case r of
           Inl e \<Rightarrow> ret (Some (AtStep q e))
         | Inr _ \<Rightarrow> unless (resize px w) (if start then postTask px (sp_Node w) (PostStart (sp_Node w) (sp_VMID w)) else ret None))
      })"

definition clone_body :: "WorkloadSpec \<Rightarrow> (string \<times> string) list" where
  "clone_body w = [(''newid'', itoa (sp_VMID w)), (''name'', sp_Name w), (''full'', ''1'')] @
     (if sp_Storage w \<noteq> [] then [(''storage'', sp_Storage w)] else [])"

definition listVMs :: "'s proxmox \<Rightarrow> string \<Rightarrow> ('s, px_failure + vmEntry list) px" where
  "listVMs px node =
     do {
       r \<leftarrow> ask_as as_vms (px_api px) (ListVMs node);
       ret (case r of Inl e \<Rightarrow> Inl (AtStep (ListVMs node) e) | Inr vms \<Rightarrow> Inr vms)
     }"

definition place_vm :: "'s proxmox \<Rightarrow> WorkloadSpec \<Rightarrow> vmEntry list \<Rightarrow> ('s, px_failure option) px" where
  "place_vm px w vms =
     (case find (\<lambda>vm. vm_VMID vm = sp_VMID w) vms of
        Some vm \<Rightarrow>
          if vm_Name vm \<noteq> sp_Name w then ret (Some (VMTaken (sp_VMID w) (vm_Name vm) (sp_Name w)))
          else configureWorkload px w (vm_Status vm \<noteq> ''running'')
      | None \<Rightarrow>
          (case newestTemplate vms (sp_TemplatePrefix w) of
             None \<Rightarrow> ret (Some (NoTemplate (sp_TemplatePrefix w)))
           | Some tmpl \<Rightarrow>
               unless (postTask px (sp_Node w) (PostClone (sp_Node w) tmpl (clone_body w))) (configureWorkload px w True)))"

definition EnsureWorkload :: "'s proxmox \<Rightarrow> WorkloadSpec \<Rightarrow> ('s, px_failure option) px" where
  "EnsureWorkload px w =
     do { r \<leftarrow> listVMs px (sp_Node w); (case r of Inl f \<Rightarrow> ret (Some f) | Inr vms \<Rightarrow> place_vm px w vms) }"

text \<open>The loop keeps the last entry with the id.\<close>

definition delete_vm :: "'s proxmox \<Rightarrow> string \<Rightarrow> int \<Rightarrow> ('s, px_failure option) px" where
  "delete_vm px node vmid = postTask px node (DeleteVM node vmid)"

definition RemoveWorkload :: "'s proxmox \<Rightarrow> string \<Rightarrow> int \<Rightarrow> ('s, px_failure option) px" where
  "RemoveWorkload px node vmid =
     do {
       r \<leftarrow> listVMs px node;
       (case r of
          Inl f \<Rightarrow> ret (Some f)
        | Inr vms \<Rightarrow>
            (case find (\<lambda>vm. vm_VMID vm = vmid) (rev vms) of
               None \<Rightarrow> ret None
             | Some vm \<Rightarrow>
                 unless (if vm_Status vm = ''running'' then postTask px node (PostStop node vmid) else ret None)
                   (delete_vm px node vmid)))
     }"

section \<open>Versions are ordered\<close>

lemma versionLess_loop_lex:
  "versionLess_loop xs ys = Some l \<Longrightarrow> l = (xs < ys) \<and> xs \<noteq> ys"
  "versionLess_loop xs ys = None \<Longrightarrow> length xs < length ys \<Longrightarrow> xs < ys"
  "versionLess_loop xs ys = None \<Longrightarrow> length ys < length xs \<Longrightarrow> ys < xs"
  "versionLess_loop xs ys = None \<Longrightarrow> length xs = length ys \<Longrightarrow> xs = ys"
  by (induction xs ys rule: versionLess_loop.induct) (auto split: if_splits simp: neq_Nil_conv)

lemma versionLess_lex: "versionLess a b = (numbersIn a < numbersIn b \<or> numbersIn a = numbersIn b \<and> a < b)"
proof (cases "versionLess_loop (numbersIn a) (numbersIn b)")
  case None
  then show ?thesis
    using versionLess_loop_lex(2-4)[OF None]
    by (cases "length (numbersIn a)" "length (numbersIn b)" rule: linorder_cases) (auto simp: versionLess_def Let_def)
next
  case (Some l)
  then show ?thesis
    using versionLess_loop_lex(1)[OF Some] by (auto simp: versionLess_def Let_def)
qed

lemma versionLess_trans: "versionLess a b \<Longrightarrow> versionLess b c \<Longrightarrow> versionLess a c"
  by (auto simp: versionLess_lex intro: less_trans)

lemma versionLess_total: "\<not> versionLess a b \<Longrightarrow> a = b \<or> versionLess b a"
  by (auto simp: versionLess_lex)

text \<open>A sort by a strict total preorder: what the last element is.\<close>

locale strict_preorder =
  fixes lt :: "'a \<Rightarrow> 'a \<Rightarrow> bool"
  assumes asym: "lt a b \<Longrightarrow> \<not> lt b a"
    and negtrans: "\<not> lt a b \<Longrightarrow> \<not> lt b c \<Longrightarrow> \<not> lt a c"
begin

definition ordered :: "'a list \<Rightarrow> bool" where
  "ordered xs = sorted_wrt (\<lambda>a b. \<not> lt b a) xs"

lemma set_insert_by: "set (insert_by lt x xs) = insert x (set xs)"
  by (induction xs) auto

lemma ordered_insert: "ordered xs \<Longrightarrow> ordered (insert_by lt x xs)"
proof (induction xs)
  case (Cons y ys)
  then show ?case
    by (auto simp: ordered_def set_insert_by dest: asym) (metis asym negtrans)
qed (simp add: ordered_def)

lemma fold_insert: "ordered acc \<Longrightarrow> ordered (fold (insert_by lt) xs acc) \<and> set (fold (insert_by lt) xs acc) = set xs \<union> set acc"
  by (induction xs arbitrary: acc) (auto simp: ordered_insert set_insert_by)

lemma sort_Slice_correct: "ordered (sort_Slice lt xs)" "set (sort_Slice lt xs) = set xs"
  using fold_insert[of "[]" xs] by (auto simp: sort_Slice_def ordered_def)

lemma last_greatest: "xs \<noteq> [] \<Longrightarrow> last (sort_Slice lt xs) \<in> set xs \<and> (\<forall>x \<in> set xs. \<not> lt (last (sort_Slice lt xs)) x)"
proof -
  assume "xs \<noteq> []"
  then have ne: "sort_Slice lt xs \<noteq> []" using sort_Slice_correct(2)[of xs] by force
  then obtain ys y where y: "sort_Slice lt xs = ys @ [y]" by (metis rev_exhaust)
  with sort_Slice_correct[of xs] asym[of y y] show ?thesis
    by (auto simp: ordered_def sorted_wrt_append) (metis insertE)
qed

end

interpretation versions: strict_preorder "\<lambda>a b. versionLess (vm_Name a) (vm_Name b)"
  by unfold_locales (auto simp: versionLess_lex)

section \<open>Keys survive the form\<close>

text \<open>What the cluster does with the parameter, by the comment in the code: \<^verbatim>\<open>%XX\<close> becomes its character, everything else stays.\<close>

fun uri_unescape :: "string \<Rightarrow> string" where
  "uri_unescape (c # a # b # s) =
     (if c = CHR ''%'' \<and> a \<in> set upperhex \<and> b \<in> set upperhex
      then char_of (16 * digit_index a upperhex + digit_index b upperhex) # uri_unescape s
      else c # uri_unescape (a # b # s))"
| "uri_unescape s = s"

lemma upperhex_distinct: "distinct upperhex" and upperhex_length: "length upperhex = 16"
  by (simp_all add: upperhex_def)

lemma upperhex_plain: "n < 16 \<Longrightarrow> upperhex ! n \<noteq> CHR ''+''"
proof -
  assume "n < 16"
  then have "upperhex ! n \<in> set upperhex" by (simp add: upperhex_length)
  then show ?thesis by (auto simp: upperhex_def)
qed

lemma unescape_plain: "c \<noteq> CHR ''%'' \<Longrightarrow> uri_unescape (c # s) = c # uri_unescape s"
  by (cases s; cases "tl s") (auto simp: neq_Nil_conv)

lemma unescape_hex: "n < 256 \<Longrightarrow> uri_unescape (CHR ''%'' # upperhex ! (n div 16) # upperhex ! (n mod 16) # s) = char_of n # uri_unescape s"
proof -
  assume "n < 256"
  then have "n div 16 < 16" "n mod 16 < 16" by simp_all
  then show ?thesis by (simp add: upperhex_length digit_index_nth[OF upperhex_distinct])
qed

definition key_char :: "char \<Rightarrow> string" where
  "key_char c = ReplaceChar CHR ''+'' ''%20'' (escape_char c)"

lemma of_char_small: "(of_char (c :: char) :: nat) < 256"
  by (cases c) (simp add: of_bool_def)

lemma unescape_key_char: "uri_unescape (key_char c @ s) = c # uri_unescape s"
proof (cases "unreserved c")
  case True
  then have "c \<noteq> CHR ''+''" "c \<noteq> CHR ''%''" by (auto simp: unreserved_def lowers_def uppers_def digits_def)
  with True show ?thesis by (simp add: key_char_def ReplaceChar_def escape_char_def unescape_plain)
next
  case False
  let ?n = "of_char c :: nat"
  have hex: "?n div 16 < 16" "?n mod 16 < 16" using of_char_small[of c] by (simp_all add: less_mult_imp_div_less)
  show ?thesis
  proof (cases "c = CHR '' ''")
    case True
    have "(of_char (CHR '' '') :: nat) = 32" by simp
    then have "char_of (32 :: nat) = CHR '' ''" by (metis char_of_char)
    then have "uri_unescape (''%20'' @ s) = CHR '' '' # uri_unescape s"
      using unescape_hex[of 32 s] by (simp add: upperhex_def)
    with True False show ?thesis by (simp add: key_char_def ReplaceChar_def escape_char_def)
  next
    case sp: False
    then have "key_char c = [CHR ''%'', upperhex ! (?n div 16), upperhex ! (?n mod 16)]"
      using False hex by (simp add: key_char_def ReplaceChar_def escape_char_def upperhex_plain)
    then show ?thesis using unescape_hex[OF of_char_small[of c]] by simp
  qed
qed

lemma sshkeys_chars: "sshkeys keys = concat (map key_char (ssh_text keys))"
proof -
  have "ReplaceChar c r (QueryEscape s) = concat (map (\<lambda>x. ReplaceChar c r (escape_char x)) s)" for c r s
    by (induction s) (auto simp: QueryEscape_def ReplaceChar_def)
  then show ?thesis by (simp add: sshkeys_def key_char_def[abs_def])
qed

text \<open>A tenant's keys reach the virtual machine as they were given: the form value the client sends, unescaped as the
  cluster does it, is the \<^verbatim>\<open>authorized_keys\<close> text, spaces and plus signs included.\<close>

lemma ssh_keys_survive: "uri_unescape (sshkeys keys) = ssh_text keys"
proof -
  have "uri_unescape (concat (map key_char s)) = s" for s
    by (induction s) (simp_all add: unescape_key_char)
  then show ?thesis by (simp add: sshkeys_chars)
qed

text \<open>A workload is cloned from the newest template: what \<^verbatim>\<open>newestTemplate\<close> picks is a template of the site's prefix, and
  the numbers in its name are, compared one after the other, the greatest of all such templates; it fails only when
  the node has none.\<close>

lemma newest_template_is_newest:
  "case newestTemplate vms prefix of
     None \<Rightarrow> \<forall>vm \<in> set vms. vm_Template vm = 1 \<longrightarrow> \<not> HasPrefix (vm_Name vm) prefix
   | Some i \<Rightarrow> \<exists>vm \<in> set vms. vm_VMID vm = i \<and> vm_Template vm = 1 \<and> HasPrefix (vm_Name vm) prefix \<and>
       (\<forall>other \<in> set vms. vm_Template other = 1 \<and> HasPrefix (vm_Name other) prefix \<longrightarrow>
          numbersIn (vm_Name other) \<le> numbersIn (vm_Name vm))"
proof -
  let ?c = "filter (\<lambda>vm. vm_Template vm = 1 \<and> HasPrefix (vm_Name vm) prefix) vms"
  show ?thesis
  proof (cases "?c = []")
    case True
    then show ?thesis by (auto simp: newestTemplate_def filter_empty_conv)
  next
    case False
    let ?v = "last (sort_Slice (\<lambda>a b. versionLess (vm_Name a) (vm_Name b)) ?c)"
    from versions.last_greatest[OF False] have v: "?v \<in> set ?c"
      and best: "\<And>x. x \<in> set ?c \<Longrightarrow> \<not> versionLess (vm_Name ?v) (vm_Name x)" by auto
    have "numbersIn (vm_Name x) \<le> numbersIn (vm_Name ?v)" if "x \<in> set ?c" for x
      using best[OF that] by (auto simp: versionLess_lex not_less)
    with v False show ?thesis by (auto simp: newestTemplate_def Let_def)
  qed
qed

section \<open>A machine of the tenant's own\<close>

text \<open>The requests that configure a workload's machine: its own id, on its own node.\<close>

fun configures :: "WorkloadSpec \<Rightarrow> px_request \<Rightarrow> bool" where
  "configures w (PostConfig n i c) = (n = sp_Node w \<and> i = sp_VMID w \<and> c = workload_config w)"
| "configures w (PutResize n i d sz) = (n = sp_Node w \<and> i = sp_VMID w \<and> d = sp_Disk w)"
| "configures w (PostStart n i) = (n = sp_Node w \<and> i = sp_VMID w)"
| "configures w (GetTask n _) = (n = sp_Node w)"
| "configures w _ = False"

text \<open>A machine is started only after the cluster took its configuration.\<close>

fun starts :: "px_request \<Rightarrow> bool" where
  "starts (PostStart _ _) = True"
| "starts _ = False"

fun sets_config :: "px_request \<Rightarrow> bool" where
  "sets_config (PostConfig _ _ _) = True"
| "sets_config _ = False"

fun configured_first :: "bool \<Rightarrow> (px_request, px_reply) request_log \<Rightarrow> bool" where
  "configured_first c [] = True"
| "configured_first c ((q, a) # log) = ((starts q \<longrightarrow> c) \<and> configured_first (c \<or> sets_config q \<and> granted a) log)"

lemma configured_weaken: "configured_first c log \<Longrightarrow> c \<longrightarrow> d \<Longrightarrow> configured_first d log"
proof (induction log arbitrary: c d)
  case (Cons x log)
  then show ?case
    by (cases x) (auto intro: Cons.IH)
qed simp

lemma configured_any: "configured_first False log \<Longrightarrow> configured_first c log"
  by (erule configured_weaken) simp

lemma configured_append: "configured_first c a \<Longrightarrow> configured_first False b \<Longrightarrow> configured_first c (a @ b)"
  by (induction c a rule: configured_first.induct) (auto simp: configured_any)

lemma polls_configured: "each_request ((=) (GetTask node u)) polls \<Longrightarrow> configured_first c polls"
  by (induction polls arbitrary: c) auto

lemma polls_of_node: "each_request ((=) (GetTask (sp_Node w) u)) polls \<Longrightarrow> each_request (configures w) polls"
  by (induction polls) auto

lemma postTask_log:
  "wp (postTask px node q) (\<lambda>r w'. \<exists>a polls u. cn_log w' = cn_log w @ (q, a) # polls \<and> each_request ((=) (GetTask node u)) polls) w"
  unfolding postTask_def
  by (auto simp: wp_simps split: prod.split sum.split option.split intro!: wp_mono[OF waitTask_polls])

definition follows :: "(px_request \<Rightarrow> bool) \<Rightarrow> bool \<Rightarrow> (px_request, px_reply) request_log \<Rightarrow> 's px_conn \<Rightarrow> bool" where
  "follows p c log w' = (\<exists>ext. cn_log w' = log @ ext \<and> each_request p ext \<and> configured_first c ext)"

lemma follows_same: "follows p c (cn_log w) w"
  by (simp add: follows_def)

lemma start_follows: "wp (postTask px (sp_Node w) (PostStart (sp_Node w) (sp_VMID w))) (\<lambda>r w'. follows (configures w) True (cn_log w0) w') w0"
  by (rule wp_mono[OF postTask_log]) (auto simp: follows_def polls_of_node polls_configured)

lemma resize_follows: "wp (resize px w) (\<lambda>r w'. follows (configures w) True (cn_log w0) w') w0"
  unfolding resize_def by (auto simp: wp_simps follows_def split: prod.split)

lemma follows_trans: "follows p True log w1 \<Longrightarrow> follows p True (cn_log w1) w2 \<Longrightarrow> follows p True log w2"
proof -
  assume "follows p True log w1" "follows p True (cn_log w1) w2"
  then obtain a b where ab: "cn_log w1 = log @ a" "cn_log w2 = log @ a @ b" "each_request p (a @ b)"
    "configured_first True a" "configured_first True b" by (auto simp: follows_def)
  have "configured_first True (a @ b)" using ab(4,5) by (induction True a rule: configured_first.induct) auto
  with ab show ?thesis by (auto simp: follows_def)
qed

lemma configure_follows: "wp (configureWorkload px w start) (\<lambda>r w'. follows (configures w) False (cn_log w0) w') w0"
proof -
  have rest: "wp (unless (resize px w) (if start then postTask px (sp_Node w) (PostStart (sp_Node w) (sp_VMID w)) else ret None))
      (\<lambda>r w'. follows (configures w) True (cn_log w1) w') w1" for w1
  proof -
    have "wp (if start then postTask px (sp_Node w) (PostStart (sp_Node w) (sp_VMID w)) else ret None)
        (\<lambda>r w'. follows (configures w) True (cn_log w1) w') w2" if "follows (configures w) True (cn_log w1) w2" for w2
      using that by (auto simp: wp_simps intro: wp_mono[OF start_follows] follows_trans)
    then show ?thesis
      unfolding unless_def wp_bind by (rule_tac wp_mono[OF resize_follows]) (auto simp: wp_simps split: option.split)
  qed
  have after: "wp (unless (resize px w) (if start then postTask px (sp_Node w) (PostStart (sp_Node w) (sp_VMID w)) else ret None))
      (\<lambda>r w'. follows (configures w) False (cn_log w0) w') w1"
    if "cn_log w1 = cn_log w0 @ [(PostConfig (sp_Node w) (sp_VMID w) (workload_config w), Inr x)]" for w1 x
    using that by (intro wp_mono[OF rest]) (auto simp: follows_def)
  obtain a d s' where "px_api px (PostConfig (sp_Node w) (sp_VMID w) (workload_config w)) (cn_server w0) = (a, d, s')"
    by (metis surj_pair)
  then show ?thesis
    unfolding configureWorkload_def Let_def wp_bind wp_ask
    by (cases a) (simp_all add: after wp_return follows_def split del: if_split)
qed

text \<open>What the rest of a run may ask once the machines of the node are listed.\<close>

definition vm_rule :: "WorkloadSpec \<Rightarrow> vmEntry list \<Rightarrow> px_failure option \<Rightarrow> (px_request, px_reply) request_log \<Rightarrow> bool" where
  "vm_rule w vms r rest =
     (case find (\<lambda>vm. vm_VMID vm = sp_VMID w) vms of
        Some vm \<Rightarrow> if vm_Name vm = sp_Name w then each_request (configures w) rest
                   else rest = [] \<and> r = Some (VMTaken (sp_VMID w) (vm_Name vm) (sp_Name w))
      | None \<Rightarrow> each_request (\<lambda>q. configures w q \<or>
          (\<exists>t. newestTemplate vms (sp_TemplatePrefix w) = Some t \<and> q = PostClone (sp_Node w) t (clone_body w))) rest)"

lemma clone_follows:
  assumes "p (PostClone (sp_Node w) t (clone_body w))" "\<And>q. configures w q \<Longrightarrow> p q"
  shows "wp (unless (postTask px (sp_Node w) (PostClone (sp_Node w) t (clone_body w))) (configureWorkload px w True))
    (\<lambda>r w'. follows p False (cn_log w0) w') w0"
proof -
  have first: "follows p False (cn_log w0) w1"
    if "cn_log w1 = cn_log w0 @ (PostClone (sp_Node w) t (clone_body w), a) # polls" "each_request ((=) (GetTask (sp_Node w) u)) polls" for w1 a polls u
    using that assms polls_of_node[OF that(2)] polls_configured[OF that(2)] by (auto simp: follows_def intro: each_request_mono)
  have "wp (configureWorkload px w True) (\<lambda>r w'. follows p False (cn_log w0) w') w1" if one: "follows p False (cn_log w0) w1" for w1
  proof (rule wp_mono[OF configure_follows])
    fix r :: "px_failure option" and w2 :: "'a px_conn"
    assume "follows (configures w) False (cn_log w1) w2"
    with one assms(2) show "follows p False (cn_log w0) w2"
      unfolding follows_def by (metis append_assoc configured_append each_request_mono each_request_simps(3))
  qed
  with first show ?thesis
    unfolding unless_def wp_bind
    by (rule_tac wp_mono[OF postTask_log]) (auto simp: wp_simps split: option.split)
qed

lemma place_vm_rule:
  "wp (place_vm px w vms) (\<lambda>r w'. \<exists>rest. cn_log w' = cn_log w0 @ rest \<and> vm_rule w vms r rest \<and> configured_first False rest) w0"
proof (cases "find (\<lambda>vm. vm_VMID vm = sp_VMID w) vms")
  case None
  show ?thesis
  proof (cases "newestTemplate vms (sp_TemplatePrefix w)")
    case (Some t)
    show ?thesis
      unfolding place_vm_def None Some option.case
      by (rule wp_mono[OF clone_follows[where p = "\<lambda>q. configures w q \<or> q = PostClone (sp_Node w) t (clone_body w)"]])
         (auto simp: follows_def vm_rule_def None Some)
  qed (simp add: place_vm_def None vm_rule_def wp_simps)
next
  case (Some vm)
  show ?thesis
    unfolding place_vm_def Some option.case
    by (auto simp: vm_rule_def Some wp_simps intro!: wp_mono[OF configure_follows] simp: follows_def)
qed

text \<open>C19. Building a workload touches no other machine, whatever the cluster answers. The client first lists the machines
  of the node; where the workload's id belongs to a machine of another name it stops there and says so; where it belongs
  to one of its name it only configures, resizes and starts that machine; where it belongs to none it also clones it, from
  the newest template. It starts a machine only after the cluster took its configuration.\<close>

theorem workload_machine_only:
  "case run_state (EnsureWorkload px w) (conn_start s) of (r, c) \<Rightarrow>
     \<exists>a rest. cn_log c = (ListVMs (sp_Node w), a) # rest \<and> configured_first False rest \<and>
       (\<forall>vms. a = Inr (PxVMs vms) \<longrightarrow> vm_rule w vms r rest) \<and> ((\<nexists>vms. a = Inr (PxVMs vms)) \<longrightarrow> rest = [] \<and> r \<noteq> None)"
proof -
  have none: "newestTemplate [] p = None" for p by (simp add: newestTemplate_def)
  have "wp (EnsureWorkload px w) (\<lambda>r c. \<exists>a rest. cn_log c = cn_log w0 @ (ListVMs (sp_Node w), a) # rest \<and> configured_first False rest \<and>
       (\<forall>vms. a = Inr (PxVMs vms) \<longrightarrow> vm_rule w vms r rest) \<and> ((\<nexists>vms. a = Inr (PxVMs vms)) \<longrightarrow> rest = [] \<and> r \<noteq> None)) w0" for w0
    unfolding EnsureWorkload_def listVMs_def
    by (auto simp: wp_simps as_vms_def place_vm_def[of px w "[]"] none split: prod.split sum.split px_reply.split option.split
        intro!: wp_mono[OF place_vm_rule])
  from this[of "conn_start s"] show ?thesis by (auto simp: wp_def conn_start_def split: prod.splits)
qed

text \<open>A cluster with one machine that grants every request.\<close>

definition other_vm :: vmEntry where
  "other_vm = \<lparr>vm_VMID = 5041, vm_Name = ''router'', vm_Template = 0, vm_Status = ''stopped''\<rparr>"

definition vm_api :: "(unit, px_request, px_reply) server" where
  "vm_api q s = (case q of ListVMs _ \<Rightarrow> Inr (PxVMs [other_vm]) | _ \<Rightarrow> Inr PxNone, 1, s)"

definition vm_px :: "unit proxmox" where
  "vm_px = \<lparr>px_api = vm_api, px_pause = \<lambda>s. (Some 0, s), px_TaskTimeout = 0\<rparr>"

definition sample_spec :: WorkloadSpec where
  "sample_spec = \<lparr>sp_Name = ''eds-web'', sp_Node = ''hv1'', sp_VMID = 5041, sp_MAC = ''02:de:ee:00:13:b1'', sp_Bridge = ''eds0'',
     sp_Address = ''10.20.129.11/24'', sp_Gateway = ''10.20.129.1'', sp_Nameserver = [], sp_Cores = 2, sp_MemoryMB = 2048,
     sp_DiskGB = 20, sp_Disk = ''scsi0'', sp_Storage = [], sp_CIUser = [], sp_SSHKeys = [], sp_Tags = [''tenant''],
     sp_TemplatePrefix = ''fedora''\<rparr>"

theorem workload_machine_only_witness:
  "case run_state (EnsureWorkload vm_px sample_spec) (conn_start ()) of (r, c) \<Rightarrow>
     cn_log c = [(ListVMs ''hv1'', Inr (PxVMs [other_vm]))] \<and> r = Some (VMTaken 5041 ''router'' ''eds-web'')"
proof -
  obtain r c where run: "run_state (EnsureWorkload vm_px sample_spec) (conn_start ()) = (r, c)" by fastforce
  then obtain a rest where log: "cn_log c = (ListVMs ''hv1'', a) # rest" "\<forall>vms. a = Inr (PxVMs vms) \<longrightarrow> vm_rule sample_spec vms r rest"
    using workload_machine_only[where px = vm_px and w = sample_spec and s = "()"] by (auto simp: sample_spec_def)
  have "hd (cn_log c) = (ListVMs ''hv1'', Inr (PxVMs [other_vm]))"
    using run by (auto simp: EnsureWorkload_def listVMs_def ask_as_def ask_def conn_start_def vm_px_def vm_api_def as_vms_def place_vm_def
        other_vm_def sample_spec_def)
  with log run show ?thesis by (auto simp: vm_rule_def other_vm_def sample_spec_def)
qed

lemma other_vm_listed: "answers vm_px () (ListVMs node) (PxVMs [other_vm])"
  by (simp add: answers_def vm_px_def vm_api_def)

lemma foreign_machine_refused:
  assumes "answers px s (ListVMs (sp_Node w)) (PxVMs vms)"
    and "find (\<lambda>vm. vm_VMID vm = sp_VMID w) vms = Some vm" "vm_Name vm \<noteq> sp_Name w"
  shows "fst (run_state (EnsureWorkload px w) (conn_start s)) = Some (VMTaken (sp_VMID w) (vm_Name vm) (sp_Name w))"
  using assms by (auto simp: EnsureWorkload_def listVMs_def ask_as_def ask_def conn_start_def answers_def as_vms_def place_vm_def split: prod.splits)

definition deletes_vm :: "string \<Rightarrow> int \<Rightarrow> px_failure option \<Rightarrow> 's px_conn \<Rightarrow> bool" where
  "deletes_vm node vmid r c = ((\<exists>a. (DeleteVM node vmid, a) \<in> set (cn_log c)) \<or> r \<noteq> None \<and> (\<exists>a. (PostStop node vmid, a) \<in> set (cn_log c)))"

lemma listed_machine_removed:
  assumes "answers px s (ListVMs node) (PxVMs vms)" "vm \<in> set vms" "vm_VMID vm = vmid"
  shows "wp (RemoveWorkload px node vmid) (deletes_vm node vmid) (conn_start s)"
proof -
  obtain v where v: "find (\<lambda>vm. vm_VMID vm = vmid) (rev vms) = Some v"
    using assms(2,3) by (cases "find (\<lambda>vm. vm_VMID vm = vmid) (rev vms)") (auto simp: find_None_iff)
  have del: "wp (delete_vm px node vmid) (deletes_vm node vmid) c" for c
    unfolding delete_vm_def deletes_vm_def by (rule wp_mono[OF postTask_log]) fastforce
  show ?thesis
    unfolding RemoveWorkload_def listVMs_def unless_def
    using assms(1) v del
    by (auto simp: wp_simps answers_def conn_start_def as_vms_def deletes_vm_def split: prod.splits option.splits
        intro!: wp_mono[OF postTask_log])
qed

text \<open>C30. The client refuses to build a workload whose id belongs to a machine of another name, but removing that workload
  goes by the id alone: it asks the cluster to delete the other machine, unless that machine runs and stopping it
  fails.\<close>

theorem foreign_machine_deleted:
  assumes "answers px s (ListVMs (sp_Node w)) (PxVMs vms)"
    and "find (\<lambda>vm. vm_VMID vm = sp_VMID w) vms = Some vm" "vm_Name vm \<noteq> sp_Name w"
  shows "fst (run_state (EnsureWorkload px w) (conn_start s)) = Some (VMTaken (sp_VMID w) (vm_Name vm) (sp_Name w)) \<and>
    (case run_state (RemoveWorkload px (sp_Node w) (sp_VMID w)) (conn_start s) of (r, c) \<Rightarrow> deletes_vm (sp_Node w) (sp_VMID w) r c)"
proof -
  have "vm \<in> set vms" "vm_VMID vm = sp_VMID w" using assms(2) by (auto simp: find_Some_iff)
  from listed_machine_removed[OF assms(1) this] foreign_machine_refused[OF assms] show ?thesis
    by (auto simp: wp_def split: prod.splits)
qed

theorem foreign_machine_deleted_witness:
  "fst (run_state (EnsureWorkload vm_px sample_spec) (conn_start ())) = Some (VMTaken 5041 ''router'' ''eds-web'') \<and>
   (DeleteVM ''hv1'' 5041, Inr PxNone) \<in> set (cn_log (snd (run_state (RemoveWorkload vm_px ''hv1'' 5041) (conn_start ()))))"
proof -
  have "find (\<lambda>vm. vm_VMID vm = sp_VMID sample_spec) [other_vm] = Some other_vm" "vm_Name other_vm \<noteq> sp_Name sample_spec"
    by (simp_all add: other_vm_def sample_spec_def)
  from foreign_machine_deleted[OF other_vm_listed this]
  have "fst (run_state (EnsureWorkload vm_px sample_spec) (conn_start ())) = Some (VMTaken 5041 ''router'' ''eds-web'')"
    by (simp add: sample_spec_def other_vm_def)
  moreover have "(DeleteVM ''hv1'' 5041, Inr PxNone) \<in> set (cn_log (snd (run_state (RemoveWorkload vm_px ''hv1'' 5041) (conn_start ()))))"
    by (simp add: RemoveWorkload_def listVMs_def ask_as_def ask_def conn_start_def vm_px_def vm_api_def as_vms_def unless_def delete_vm_def
        postTask_def as_task_def waitTask_def other_vm_def)
  ultimately show ?thesis ..
qed

end
