(* ===== verification/NameServer.thy ===== *)
theory NameServer
  imports Client Tenant LogContract "HOL-Library.Multiset"
begin

text \<open>
  \<^verbatim>\<open>internal/backend/powerdns\<close>: a tenant's TSIG key, its zones with their apex and update policy, and the records of
  its workloads, on the PowerDNS server. The server is a parameter.
\<close>

section \<open>Requests\<close>

record dns_record =
  rc_Content :: string
  rc_Disabled :: bool

record rrset =
  rr_Name :: string
  rr_Type :: string
  rr_TTL :: int
  rr_Change :: string
  rr_Records :: "dns_record list"

datatype pdns_request =
    GetKey string | PostKey string string string | PutKey string string string | DeleteKey string
  | ReadZone string | CreateZone string "string list" | PatchZone string "rrset list" | DropZone string
  | GetMeta string string | PutMeta string string "string list"

datatype pdns_reply = PdnsNone | PdnsKey string string | PdnsZone "rrset list" | PdnsMeta "string list"

definition as_key :: "pdns_reply \<Rightarrow> (string \<times> string) option" where
  "as_key r = (case r of PdnsNone \<Rightarrow> Some ([], []) | PdnsKey alg key \<Rightarrow> Some (alg, key) | _ \<Rightarrow> None)"

definition as_rrsets :: "pdns_reply \<Rightarrow> rrset list option" where
  "as_rrsets r = (case r of PdnsNone \<Rightarrow> Some [] | PdnsZone rrs \<Rightarrow> Some rrs | _ \<Rightarrow> None)"

definition as_meta :: "pdns_reply \<Rightarrow> string list option" where
  "as_meta r = (case r of PdnsNone \<Rightarrow> Some [] | PdnsMeta ks \<Rightarrow> Some ks | _ \<Rightarrow> None)"

datatype pdns_failure = PdnsAt pdns_request http_error | BadSerial string | NotIPv4 string

type_synonym 's pdns = "('s, pdns_request, pdns_reply) server"

type_synonym ('s, 'a) pdns_client = "('s, pdns_request, pdns_reply, 'a) client"

definition tell :: "'s pdns \<Rightarrow> pdns_request \<Rightarrow> ('s, pdns_failure option) pdns_client" where
  "tell srv q = do { r \<leftarrow> ask srv q; ret (case r of Inl e \<Rightarrow> Some (PdnsAt q e) | Inr _ \<Rightarrow> None) }"

text \<open>A delete of what is not there is no error.\<close>

definition forget :: "'s pdns \<Rightarrow> pdns_request \<Rightarrow> ('s, pdns_failure option) pdns_client" where
  "forget srv q =
     do { r \<leftarrow> ask srv q; ret (case r of Inl NotFound \<Rightarrow> None | Inl e \<Rightarrow> Some (PdnsAt q e) | Inr _ \<Rightarrow> None) }"

definition fqdn :: "string \<Rightarrow> string" where
  "fqdn name = TrimSuffix name ''.'' @ ''.''"

section \<open>The key\<close>

definition ensureKey :: "'s pdns \<Rightarrow> DNSTenant \<Rightarrow> ('s, pdns_failure option) pdns_client" where
  "ensureKey srv t =
     (let key = fqdn (dns_KeyName t) in
      do {
        r \<leftarrow> ask_as as_key srv (GetKey key);
        (case r of
           Inl NotFound \<Rightarrow> tell srv (PostKey (dns_KeyName t) (dns_Algorithm t) (dns_Secret t))
         | Inl e \<Rightarrow> ret (Some (PdnsAt (GetKey key) e))
         | Inr (alg, secret) \<Rightarrow>
             if secret = dns_Secret t \<and> TrimSuffix alg ''.'' = dns_Algorithm t then ret None
             else tell srv (PutKey key (dns_Algorithm t) (dns_Secret t)))
      })"

section \<open>The apex\<close>

definition apexTTL :: int where "apexTTL = 3600"

definition ttlOr :: "int \<Rightarrow> int" where
  "ttlOr ttl = (if ttl \<le> 0 then apexTTL else ttl)"

text \<open>\<^verbatim>\<open>strings.Fields\<close> on ASCII text, and \<^verbatim>\<open>strconv.ParseUint(s, 10, 32)\<close>.\<close>

fun fields_loop :: "string \<Rightarrow> string \<Rightarrow> string list" where
  "fields_loop cur [] = (if cur = [] then [] else [cur])"
| "fields_loop cur (c # s) =
     (if is_space c then (if cur = [] then fields_loop [] s else cur # fields_loop [] s) else fields_loop (cur @ [c]) s)"

definition Fields :: "string \<Rightarrow> string list" where
  "Fields s = fields_loop [] s"

definition ParseUint32 :: "string \<Rightarrow> nat option" where
  "ParseUint32 s = (if s \<noteq> [] \<and> list_all (\<lambda>c. c \<in> set digits) s \<and> undec s < 2 ^ 32 then Some (undec s) else None)"

definition replace_set :: "string \<Rightarrow> string \<Rightarrow> int \<Rightarrow> string \<Rightarrow> rrset" where
  "replace_set name type ttl content =
     \<lparr>rr_Name = name, rr_Type = type, rr_TTL = ttl, rr_Change = ''REPLACE'', rr_Records = [\<lparr>rc_Content = content, rc_Disabled = False\<rparr>]\<rparr>"

text \<open>What one record set of the zone needs: nothing, a replacement, or the error its serial causes.\<close>

definition apex_change :: "string \<Rightarrow> string \<Rightarrow> rrset \<Rightarrow> pdns_failure + rrset option" where
  "apex_change apex apexNS rr =
     (if rr_Name rr \<noteq> apex then Inr None
      else if rr_Type rr = ''SOA'' then
        (if length (rr_Records rr) \<noteq> 1 then Inr None
         else let f = Fields (rc_Content (rr_Records rr ! 0)) in
           if length f \<noteq> 7 \<or> f ! 0 = apexNS then Inr None
           else (case ParseUint32 (f ! 2) of
                   None \<Rightarrow> Inl (BadSerial (f ! 2))
                 | Some serial \<Rightarrow> Inr (Some (replace_set apex ''SOA'' (ttlOr (rr_TTL rr)) (Join (f[0 := apexNS, 2 := dec (serial + 1)]) '' '')))))
      else if rr_Type rr = ''NS'' then
        (if length (rr_Records rr) = 1 \<and> rc_Content (rr_Records rr ! 0) = apexNS then Inr None
         else Inr (Some (replace_set apex ''NS'' (ttlOr (rr_TTL rr)) apexNS)))
      else Inr None)"

fun apex_loop :: "string \<Rightarrow> string \<Rightarrow> rrset list \<Rightarrow> pdns_failure + rrset list" where
  "apex_loop apex apexNS [] = Inr []"
| "apex_loop apex apexNS (rr # rrs) =
     (case apex_change apex apexNS rr of
        Inl e \<Rightarrow> Inl e
      | Inr c \<Rightarrow> (case apex_loop apex apexNS rrs of
          Inl e \<Rightarrow> Inl e
        | Inr cs \<Rightarrow> Inr ((case c of None \<Rightarrow> [] | Some x \<Rightarrow> [x]) @ cs)))"

definition hasNS :: "string \<Rightarrow> rrset list \<Rightarrow> bool" where
  "hasNS apex rrs = list_ex (\<lambda>rr. rr_Name rr = apex \<and> rr_Type rr = ''NS'') rrs"

definition apex_changes :: "string \<Rightarrow> string \<Rightarrow> rrset list \<Rightarrow> pdns_failure + rrset list" where
  "apex_changes apex apexNS rrs =
     (case apex_loop apex apexNS rrs of
        Inl e \<Rightarrow> Inl e
      | Inr cs \<Rightarrow> Inr (cs @ (if hasNS apex rrs then [] else [replace_set apex ''NS'' apexTTL apexNS])))"

definition ensureApex :: "'s pdns \<Rightarrow> string \<Rightarrow> string \<Rightarrow> rrset list \<Rightarrow> ('s, pdns_failure option) pdns_client" where
  "ensureApex srv apex apexNS rrs =
     (case apex_changes apex apexNS rrs of
        Inl e \<Rightarrow> ret (Some e)
      | Inr changes \<Rightarrow> if changes = [] then ret None else tell srv (PatchZone apex changes))"

section \<open>The update policy\<close>

definition sameSet :: "string list \<Rightarrow> string list \<Rightarrow> bool" where
  "sameSet a b = (length a = length b \<and> sort a = sort b)"

definition tsigKind :: string where "tsigKind = ''TSIG-ALLOW-DNSUPDATE''"

definition fromKind :: string where "fromKind = ''ALLOW-DNSUPDATE-FROM''"

definition read_meta :: "'s pdns \<Rightarrow> string \<Rightarrow> string \<Rightarrow> ('s, pdns_failure + string list) pdns_client" where
  "read_meta srv zone kind =
     do {
       r \<leftarrow> ask_as as_meta srv (GetMeta zone kind);
       ret (case r of Inl NotFound \<Rightarrow> Inr [] | Inl e \<Rightarrow> Inl (PdnsAt (GetMeta zone kind) e) | Inr ks \<Rightarrow> Inr ks)
     }"

definition foreign_sets :: "string \<Rightarrow> rrset list \<Rightarrow> rrset list" where
  "foreign_sets apex rrs = filter (\<lambda>rr. \<not> (rr_Name rr = apex \<and> (rr_Type rr = ''SOA'' \<or> rr_Type rr = ''NS''))) rrs"

definition delete_set :: "rrset \<Rightarrow> rrset" where
  "delete_set rr = \<lparr>rr_Name = rr_Name rr, rr_Type = rr_Type rr, rr_TTL = 0, rr_Change = ''DELETE'', rr_Records = []\<rparr>"

definition purgeIfHandedOver :: "'s pdns \<Rightarrow> string \<Rightarrow> string \<Rightarrow> rrset list \<Rightarrow> ('s, pdns_failure option) pdns_client" where
  "purgeIfHandedOver srv apex keyName rrs =
     do {
       r \<leftarrow> read_meta srv apex tsigKind;
       (case r of
          Inl e \<Rightarrow> ret (Some e)
        | Inr bound \<Rightarrow>
            if length bound = 0 \<or> sameSet bound [keyName] then ret None
            else let deletes = map delete_set (foreign_sets apex rrs) in
              if deletes = [] then ret None else tell srv (PatchZone apex deletes))
     }"

definition ensureMeta :: "'s pdns \<Rightarrow> string \<Rightarrow> string \<Rightarrow> string list \<Rightarrow> ('s, pdns_failure option) pdns_client" where
  "ensureMeta srv zone kind want =
     do {
       r \<leftarrow> read_meta srv zone kind;
       (case r of Inl e \<Rightarrow> ret (Some e) | Inr have \<Rightarrow> if sameSet have want then ret None else tell srv (PutMeta zone kind want))
     }"

section \<open>Zones\<close>

definition zone_steps :: "'s pdns \<Rightarrow> string \<Rightarrow> DNSTenant \<Rightarrow> rrset list \<Rightarrow> ('s, pdns_failure option) pdns_client" where
  "zone_steps srv zone t have =
     unless (ensureApex srv zone (fqdn (dns_ApexNS t)) have)
       (unless (purgeIfHandedOver srv zone (dns_KeyName t) have)
         (unless (ensureMeta srv zone tsigKind [dns_KeyName t]) (ensureMeta srv zone fromKind (dns_UpdateFrom t))))"

definition ensureZone :: "'s pdns \<Rightarrow> string \<Rightarrow> DNSTenant \<Rightarrow> ('s, pdns_failure option) pdns_client" where
  "ensureZone srv name t =
     (let zone = fqdn name in
      do {
        r \<leftarrow> ask_as as_rrsets srv (ReadZone zone);
        (case r of
           Inl NotFound \<Rightarrow>
             do {
               r2 \<leftarrow> ask_as as_rrsets srv (CreateZone zone [fqdn (dns_ApexNS t)]);
               (case r2 of
                  Inl e \<Rightarrow> ret (Some (PdnsAt (CreateZone zone [fqdn (dns_ApexNS t)]) e))
                | Inr have \<Rightarrow> zone_steps srv zone t have)
             }
         | Inl e \<Rightarrow> ret (Some (PdnsAt (ReadZone zone) e))
         | Inr have \<Rightarrow> zone_steps srv zone t have)
      })"

definition dns_Ensure :: "'s pdns \<Rightarrow> DNSTenant \<Rightarrow> ('s, pdns_failure option) pdns_client" where
  "dns_Ensure srv t = unless (ensureKey srv t) (each (\<lambda>z. ensureZone srv z t) (dns_Zones t))"

definition dns_Remove :: "'s pdns \<Rightarrow> DNSTenant \<Rightarrow> ('s, pdns_failure option) pdns_client" where
  "dns_Remove srv t =
     unless (each (\<lambda>z. forget srv (DropZone (fqdn z))) (dns_Zones t)) (forget srv (DeleteKey (fqdn (dns_KeyName t))))"

section \<open>Records\<close>

definition recordTTL :: int where "recordTTL = 300"

definition record_contents :: "string \<Rightarrow> string \<Rightarrow> dns_record list" where
  "record_contents change content = (if change = ''DELETE'' then [] else [\<lparr>rc_Content = content, rc_Disabled = False\<rparr>])"

text \<open>\<^verbatim>\<open>net.ParseIP\<close> and \<^verbatim>\<open>To4\<close>: an IPv4 address, plain or mapped into IPv6.\<close>

definition To4 :: "addr \<Rightarrow> 32 word option" where
  "To4 a = (case a of Addr4 w \<Rightarrow> Some w
     | Addr6 w z \<Rightarrow> if z = [] \<and> unat w div 2 ^ 32 = 65535 then Some (word_of_nat (unat w mod 2 ^ 32)) else None
     | AddrZero \<Rightarrow> None)"

definition ptrName :: "string \<Rightarrow> pdns_failure + string" where
  "ptrName address =
     (case Option.bind (ParseAddr address) To4 of
        None \<Rightarrow> Inl (NotIPv4 address)
      | Some w \<Rightarrow> let o4 = SplitOn CHR ''.'' (quad w) in
          Inr (o4 ! 3 @ ''.'' @ o4 ! 2 @ ''.'' @ o4 ! 1 @ ''.'' @ o4 ! 0 @ ''.in-addr.arpa.''))"

definition record_set :: "string \<Rightarrow> string \<Rightarrow> string \<Rightarrow> string \<Rightarrow> rrset" where
  "record_set change name type content =
     \<lparr>rr_Name = name, rr_Type = type, rr_TTL = recordTTL, rr_Change = change, rr_Records = record_contents change content\<rparr>"

fun record_sets :: "string \<Rightarrow> string \<Rightarrow> DNSRecord list \<Rightarrow> pdns_failure + rrset list \<times> rrset list" where
  "record_sets change zone [] = Inr ([], [])"
| "record_sets change zone (r # rs) =
     (let fqName = dr_Name r @ ''.'' @ fqdn zone; forward = record_set change fqName ''A'' (dr_Address r) in
      case (if dr_Reverse r then map_sum id (\<lambda>ptr. [record_set change ptr ''PTR'' fqName]) (ptrName (dr_Address r)) else Inr []) of
        Inl e \<Rightarrow> Inl e
      | Inr reverse \<Rightarrow> (case record_sets change zone rs of Inl e \<Rightarrow> Inl e | Inr (fs, revs) \<Rightarrow> Inr (forward # fs, reverse @ revs)))"

definition dns_records :: "'s pdns \<Rightarrow> string \<Rightarrow> string \<Rightarrow> DNSRecord list \<Rightarrow> string \<Rightarrow> ('s, pdns_failure option) pdns_client" where
  "dns_records srv zone reverseZone recs change =
     (if recs = [] then ret None
      else case record_sets change zone recs of
        Inl e \<Rightarrow> ret (Some e)
      | Inr (forward, reverse) \<Rightarrow>
          unless (tell srv (PatchZone (fqdn zone) forward))
            (if reverse \<noteq> [] then tell srv (PatchZone (fqdn reverseZone) reverse) else ret None))"

definition EnsureRecords :: "'s pdns \<Rightarrow> string \<Rightarrow> string \<Rightarrow> DNSRecord list \<Rightarrow> ('s, pdns_failure option) pdns_client" where
  "EnsureRecords srv zone reverseZone recs = dns_records srv zone reverseZone recs ''REPLACE''"

definition RemoveRecords :: "'s pdns \<Rightarrow> string \<Rightarrow> string \<Rightarrow> DNSRecord list \<Rightarrow> ('s, pdns_failure option) pdns_client" where
  "RemoveRecords srv zone reverseZone recs = dns_records srv zone reverseZone recs ''DELETE''"

lemma sameSet_mset: "sameSet a b \<longleftrightarrow> mset a = mset b"
  unfolding sameSet_def by (metis mset_sort properties_for_sort size_mset sorted_sort)

section \<open>Reverse names\<close>

lemma base256: "d < 256 \<Longrightarrow> (x * 256 + d) div 256 = (x :: nat)" "d < 256 \<Longrightarrow> (x * 256 + d) mod 256 = (d :: nat)"
  by simp_all

lemma word_of_octets:
  assumes "a < 256" "b < 256" "c < 256" "d < 256"
  obtains w where "octet w 0 = a" "octet w 1 = b" "octet w 2 = c" "octet w 3 = d"
proof -
  define n where "n = ((a * 256 + b) * 256 + c) * 256 + d"
  have "n < 4294967296" using assms by (simp add: n_def)
  then have n: "unat (word_of_nat n :: 32 word) = n" by (simp add: unsigned_of_nat take_bit_eq_mod)
  have p1: "n div 256 = (a * 256 + b) * 256 + c" using assms(4) unfolding n_def by (rule base256(1))
  have "n div 65536 = n div 256 div 256" using div_mult2_eq[of n 256 256] by simp
  then have p2: "n div 65536 = a * 256 + b" using base256(1)[OF assms(3)] p1 by simp
  have "n div 16777216 = n div 65536 div 256" using div_mult2_eq[of n 65536 256] by simp
  then have p3: "n div 16777216 = a" using base256(1)[OF assms(2)] p2 by simp
  have "n mod 256 = d" using assms(4) unfolding n_def by (rule base256(2))
  moreover have "n div 256 mod 256 = c" "n div 65536 mod 256 = b"
    unfolding p1 p2 using base256(2)[OF assms(3)] base256(2)[OF assms(2)] by blast+
  ultimately have "octet (word_of_nat n) 0 = a" "octet (word_of_nat n) 1 = b" "octet (word_of_nat n) 2 = c" "octet (word_of_nat n) 3 = d"
    using assms(1) by (simp_all add: octet_def n p3)
  then show ?thesis by (rule that)
qed

lemma ptrName_quad: "ptrName (quad w) = Inr (dec (octet w 3) @ ''.'' @ dec (octet w 2) @ ''.'' @ dec (octet w 1) @ ''.'' @ dec (octet w 0) @ ''.in-addr.arpa.'')"
  by (simp add: ptrName_def ParseAddr_quad To4_def SplitOn_quad)

lemma fqdn_plain: "name \<noteq> [] \<Longrightarrow> last name \<noteq> CHR ''.'' \<Longrightarrow> fqdn name = name @ ''.''"
  by (auto simp: fqdn_def TrimSuffix_def HasSuffix_iff)

text \<open>The reverse name of a workload's address lies in its tenant's reverse zone.\<close>

lemma workload_ptr:
  assumes "0 \<le> site_Octet s" "site_Octet s < 256" "0 \<le> i" "i < 128" "0 \<le> n" "n < 240"
  shows "ptrName (WorkloadAddress s i n) = Inr (itoa (10 + n) @ ''.'' @ fqdn (num_ReverseZone (Numbering_of s i)))"
proof -
  have addr: "WorkloadAddress s i n = dec 10 @ ''.'' @ dec (nat (site_Octet s)) @ ''.'' @ dec (nat (128 + i)) @ ''.'' @ dec (nat (10 + n))"
    using assms by (simp add: WorkloadAddress_def itoa_nonneg dec.simps[of 10] dec_small digits_def)
  have rev: "fqdn (num_ReverseZone (Numbering_of s i)) = dec (nat (128 + i)) @ ''.'' @ dec (nat (site_Octet s)) @ ''.'' @ dec 10 @ ''.in-addr.arpa.''"
    using assms by (simp add: Numbering_of_def Let_def fqdn_plain itoa_nonneg dec.simps[of 10] dec_small digits_def)
  have "10 < (256 :: nat)" "nat (site_Octet s) < 256" "nat (128 + i) < 256" "nat (10 + n) < 256" using assms by linarith+
  then obtain w where "octet w 0 = 10" "octet w 1 = nat (site_Octet s)" "octet w 2 = nat (128 + i)" "octet w 3 = nat (10 + n)"
    by (rule word_of_octets)
  moreover from this have "WorkloadAddress s i n = quad w" by (simp add: addr quad_eq)
  ultimately show ?thesis
    using assms by (simp add: ptrName_quad rev itoa_nonneg)
qed

section \<open>Published names\<close>

lemma record_sets_shape:
  "record_sets change zone recs = Inr (fs, revs) \<Longrightarrow>
     fs = map (\<lambda>r. record_set change (dr_Name r @ ''.'' @ fqdn zone) ''A'' (dr_Address r)) recs \<and>
     (\<forall>rr \<in> set revs. \<exists>r \<in> set recs. dr_Reverse r \<and>
        (\<exists>ptr. ptrName (dr_Address r) = Inr ptr \<and> rr = record_set change ptr ''PTR'' (dr_Name r @ ''.'' @ fqdn zone)))"
proof (induction recs arbitrary: fs revs)
  case (Cons r recs)
  then show ?case
    by (cases "ptrName (dr_Address r)") (fastforce simp: Let_def split: sum.splits if_splits prod.splits)+
qed simp

lemma record_sets_ok: "\<forall>r \<in> set recs. dr_Reverse r \<longrightarrow> (\<exists>ptr. ptrName (dr_Address r) = Inr ptr) \<Longrightarrow> \<exists>x. record_sets change zone recs = Inr x"
  by (induction recs) (auto simp: Let_def split: sum.splits prod.splits)

lemma logs_tell: "logs (\<lambda>r ext. \<exists>a. ext = [(q, a)] \<and> r = (case a of Inl e \<Rightarrow> Some (PdnsAt q e) | Inr _ \<Rightarrow> None)) (tell srv q)"
  unfolding tell_def by (rule logs_bind_mono[OF logs_ask]) (auto intro!: logs_ret)

lemma dns_records_logs:
  assumes "record_sets change zone recs = Inr (fs, revs)" "recs \<noteq> []"
  shows "logs (\<lambda>r log. each_request (\<lambda>q. q = PatchZone (fqdn zone) fs \<or> q = PatchZone (fqdn rz) revs) log \<and>
      (\<forall>a. r \<noteq> Some (NotIPv4 a)) \<and> (r = None \<longrightarrow> (\<exists>a. (PatchZone (fqdn zone) fs, Inr a) \<in> set log)))
    (dns_records srv zone rz recs change)"
  using assms unfolding dns_records_def
  by (auto intro!: logs_unless_mono[OF logs_tell] logs_ret logs_mono[OF logs_tell] split: sum.splits)

text \<open>A patch of the forward zone that publishes, or takes back, the names of \<open>recs\<close> and nothing else; one of the reverse zone
  that does so for the addresses among them that carry a reverse name.\<close>

definition forward_patch :: "string \<Rightarrow> string \<Rightarrow> DNSRecord list \<Rightarrow> pdns_request \<Rightarrow> bool" where
  "forward_patch change zone recs q =
     (q = PatchZone (fqdn zone) (map (\<lambda>r. record_set change (dr_Name r @ ''.'' @ fqdn zone) ''A'' (dr_Address r)) recs))"

definition reverse_patch :: "string \<Rightarrow> string \<Rightarrow> string \<Rightarrow> DNSRecord list \<Rightarrow> pdns_request \<Rightarrow> bool" where
  "reverse_patch change zone reverseZone recs q =
     (\<exists>rrs. q = PatchZone (fqdn reverseZone) rrs \<and>
        (\<forall>rr \<in> set rrs. \<exists>r \<in> set recs. dr_Reverse r \<and>
           (\<exists>h. rr = record_set change (h @ ''.'' @ fqdn reverseZone) ''PTR'' (dr_Name r @ ''.'' @ fqdn zone))))"

text \<open>Publishing a tenant's records reaches that tenant's names only, whatever the server answers: one patch of its zone
  with an A record per name given, and one of its reverse zone with a PTR below that zone for each workload's own address.
  It never fails for an address, and when it succeeds the server has granted the patch of the zone.\<close>

lemma published_names_own:
  assumes "0 \<le> site_Octet s" "site_Octet s < 256" "1 \<le> i" "i \<le> 63"
    and "\<forall>r \<in> set recs. dr_Reverse r \<longrightarrow> (\<exists>n. 0 \<le> n \<and> n < MaxWorkloads \<and> dr_Address r = WorkloadAddress s i n)"
  shows "case run_state (dns_records srv zone (num_ReverseZone (Numbering_of s i)) recs change) (conn_start st) of (r, w) \<Rightarrow>
     each_request (\<lambda>q. forward_patch change zone recs q \<or> reverse_patch change zone (num_ReverseZone (Numbering_of s i)) recs q) (cn_log w) \<and>
     (\<forall>a. r \<noteq> Some (NotIPv4 a)) \<and>
     (r = None \<and> recs \<noteq> [] \<longrightarrow> (\<exists>q a. forward_patch change zone recs q \<and> (q, Inr a) \<in> set (cn_log w)))"
proof (cases "recs = []")
  case False
  let ?rz = "num_ReverseZone (Numbering_of s i)"
  have ptr: "\<exists>h. ptrName (dr_Address r) = Inr (h @ ''.'' @ fqdn ?rz)" if own: "r \<in> set recs" "dr_Reverse r" for r
  proof -
    obtain n where "0 \<le> n" "n < MaxWorkloads" "dr_Address r = WorkloadAddress s i n" using assms(5) own by blast
    then show ?thesis using workload_ptr[of s i n] assms(1-4) by (auto simp: MaxWorkloads_def)
  qed
  obtain fs revs where sets: "record_sets change zone recs = Inr (fs, revs)"
    using record_sets_ok[of recs change zone] ptr by (metis surj_pair)
  have f: "forward_patch change zone recs (PatchZone (fqdn zone) fs)"
    using record_sets_shape[OF sets] by (simp add: forward_patch_def)
  have b: "reverse_patch change zone ?rz recs (PatchZone (fqdn ?rz) revs)"
    unfolding reverse_patch_def using record_sets_shape[OF sets] ptr by fastforce
  obtain r w where run: "run_state (dns_records srv zone ?rz recs change) (conn_start st) = (r, w)" by fastforce
  note log = logs_from_start[OF dns_records_logs[OF sets False] run]
  have "each_request (\<lambda>q. forward_patch change zone recs q \<or> reverse_patch change zone ?rz recs q) (cn_log w)"
    using log f b by (auto simp: each_request_def list_all_iff)
  then show ?thesis using log f run False by auto
qed (simp add: dns_records_def conn_start_def)

definition granting_pdns :: "unit pdns" where
  "granting_pdns q s = (Inr PdnsNone, 1, s)"

definition sample_recs :: "DNSRecord list" where
  "sample_recs = [\<lparr>dr_Name = ''web'', dr_Address = ''10.20.129.10'', dr_Reverse = True\<rparr>]"

section \<open>A zone that changes hands\<close>

definition bound_of :: "http_error + pdns_reply \<Rightarrow> string list" where
  "bound_of a = (case a of Inr (PdnsMeta ks) \<Rightarrow> ks | _ \<Rightarrow> [])"

definition handed_over :: "string \<Rightarrow> string list \<Rightarrow> bool" where
  "handed_over key bound = (bound \<noteq> [] \<and> \<not> sameSet bound [key])"

definition emptied :: "string \<Rightarrow> rrset list \<Rightarrow> (pdns_request, pdns_reply) request_log \<Rightarrow> bool" where
  "emptied zone rrs log = (\<forall>rr \<in> set (foreign_sets zone rrs). \<exists>ds x. (PatchZone zone ds, Inr x) \<in> set log \<and> delete_set rr \<in> set ds)"

definition deletes :: "pdns_request \<Rightarrow> bool" where
  "deletes q = (case q of PatchZone _ rrs \<Rightarrow> list_ex (\<lambda>rr. rr_Change rr = ''DELETE'') rrs | _ \<Rightarrow> False)"

definition binds :: "string \<Rightarrow> pdns_request \<Rightarrow> bool" where
  "binds zone q = (\<exists>ks. q = PutMeta zone tsigKind ks)"

lemma request_kinds [simp]:
  "deletes (GetMeta z k) = False" "deletes (PutMeta z k ks) = False" "deletes (ReadZone z) = False" "deletes (CreateZone z ns) = False"
  "deletes (PatchZone z rrs) = list_ex (\<lambda>rr. rr_Change rr = ''DELETE'') rrs"
  "binds zone (GetMeta z k) = False" "binds zone (PatchZone z rrs) = False" "binds zone (ReadZone z) = False" "binds zone (CreateZone z ns) = False"
  "binds zone (PutMeta z k ks) = (z = zone \<and> k = tsigKind)"
  by (auto simp: deletes_def binds_def)

lemma kinds_differ [simp]: "tsigKind \<noteq> fromKind" "fromKind \<noteq> tsigKind"
  by (simp_all add: tsigKind_def fromKind_def)

lemma as_meta_bound: "as_meta rep = Some ks \<Longrightarrow> ks = bound_of (Inr rep)"
  by (cases rep) (simp_all add: as_meta_def bound_of_def)

lemma bound_of_Inl: "bound_of (Inl e) = []"
  by (simp add: bound_of_def)

lemma read_meta_logs: "logs (\<lambda>r ext. \<exists>a. ext = [(GetMeta zone kind, a)] \<and> (\<forall>ks. r = Inr ks \<longrightarrow> ks = bound_of a)) (read_meta srv zone kind)"
  unfolding read_meta_def
proof (rule logs_bind_mono[OF logs_ask_as], elim exE conjE)
  fix r :: "http_error + string list" and ext a
  assume "ext = [(GetMeta zone kind, a)]" and "r = (case a of Inl e \<Rightarrow> Inl e
    | Inr rep \<Rightarrow> (case as_meta rep of None \<Rightarrow> Inl (Failed ''decoding data'') | Some x \<Rightarrow> Inr x))"
  then show "logs (\<lambda>r' e. \<exists>a. ext @ e = [(GetMeta zone kind, a)] \<and> (\<forall>ks. r' = Inr ks \<longrightarrow> ks = bound_of a))
      (ret (case r of Inl NotFound \<Rightarrow> Inr [] | Inl e \<Rightarrow> Inl (PdnsAt (GetMeta zone kind) e) | Inr ks \<Rightarrow> Inr ks))"
    by (cases a) (auto intro!: logs_ret dest: as_meta_bound simp: bound_of_Inl split: sum.splits http_error.splits option.splits)
qed

lemma apex_replaces: "apex_loop apex ns rrs = Inr cs \<Longrightarrow> list_all (\<lambda>rr. rr_Change rr = ''REPLACE'') cs"
  by (induction rrs arbitrary: cs) (auto simp: apex_change_def Let_def replace_set_def split: sum.splits option.splits if_splits)

lemma ensureApex_logs: "logs (\<lambda>r ext. each_request (\<lambda>q. \<exists>cs. q = PatchZone zone cs \<and> \<not> deletes q) ext) (ensureApex srv zone ns rrs)"
  unfolding ensureApex_def apex_changes_def
  by (auto intro!: logs_ret logs_mono[OF logs_tell] dest!: apex_replaces
      simp: list_all_iff list_ex_iff replace_set_def split: sum.splits if_splits)

lemma purge_logs:
  "logs (\<lambda>r ext. \<exists>m rest. ext = (GetMeta zone tsigKind, m) # rest \<and>
      each_request (\<lambda>q. \<exists>ds. q = PatchZone zone ds \<and> handed_over key (bound_of m)) rest \<and>
      (r = None \<and> handed_over key (bound_of m) \<longrightarrow> emptied zone rrs rest)) (purgeIfHandedOver srv zone key rrs)"
  unfolding purgeIfHandedOver_def
proof (rule logs_bind_mono[OF read_meta_logs], elim exE conjE)
  fix r :: "pdns_failure + string list" and ext :: "(pdns_request, pdns_reply) request_log" and a
  assume ext: "ext = [(GetMeta zone tsigKind, a)]" and r: "\<forall>ks. r = Inr ks \<longrightarrow> ks = bound_of a"
  show "logs (\<lambda>r' e. \<exists>m rest. ext @ e = (GetMeta zone tsigKind, m) # rest \<and>
      each_request (\<lambda>q. \<exists>ds. q = PatchZone zone ds \<and> handed_over key (bound_of m)) rest \<and>
      (r' = None \<and> handed_over key (bound_of m) \<longrightarrow> emptied zone rrs rest))
     (case r of Inl e \<Rightarrow> ret (Some e) | Inr bound \<Rightarrow>
        if length bound = 0 \<or> sameSet bound [key] then ret None
        else let deletes = map delete_set (foreign_sets zone rrs) in if deletes = [] then ret None else tell srv (PatchZone zone deletes))"
  proof (cases r)
    case (Inr b)
    with r have b: "b = bound_of a" by simp
    show ?thesis
      unfolding Inr sum.case b Let_def using ext
      by (auto intro!: logs_ret logs_mono[OF logs_tell] simp: handed_over_def emptied_def split: sum.splits)
  qed (auto intro!: logs_ret simp: ext)
qed

lemma ensureMeta_logs:
  "logs (\<lambda>r ext. each_request (\<lambda>q. q = GetMeta zone kind \<or> q = PutMeta zone kind want) ext) (ensureMeta srv zone kind want)"
  unfolding ensureMeta_def
proof (rule logs_bind_mono[OF read_meta_logs], elim exE conjE)
  fix r :: "pdns_failure + string list" and ext :: "(pdns_request, pdns_reply) request_log" and a
  assume "ext = [(GetMeta zone kind, a)]"
  then show "logs (\<lambda>r' e. each_request (\<lambda>q. q = GetMeta zone kind \<or> q = PutMeta zone kind want) (ext @ e))
      (case r of Inl e \<Rightarrow> ret (Some e) | Inr have \<Rightarrow> if sameSet have want then ret None else tell srv (PutMeta zone kind want))"
    by (cases r) (auto intro!: logs_ret logs_mono[OF logs_tell])
qed

text \<open>
  A log that binds the tenant's key to a zone only after the zone's binding was read and, where another key was bound,
  after the server granted the deletion of every record set the zone had, the apex ones apart; and that deletes
  record sets only where another key was bound.
\<close>

definition hands_over :: "string \<Rightarrow> string \<Rightarrow> rrset list \<Rightarrow> (pdns_request, pdns_reply) request_log \<Rightarrow> bool" where
  "hands_over zone key rrs log =
     ((\<forall>pre q a post. log = pre @ (q, a) # post \<and> binds zone q \<longrightarrow> q = PutMeta zone tsigKind [key] \<and>
         (\<exists>before m after. pre = before @ (GetMeta zone tsigKind, m) # after \<and> GetMeta zone tsigKind \<notin> fst ` set before \<and>
            (handed_over key (bound_of m) \<longrightarrow> emptied zone rrs after))) \<and>
      ((\<exists>x \<in> set log. deletes (fst x)) \<longrightarrow> (\<exists>m. (GetMeta zone tsigKind, m) \<in> set log \<and> handed_over key (bound_of m))))"

lemma split_after: "P @ R = pre @ x # post \<Longrightarrow> x \<notin> set P \<Longrightarrow> \<exists>pre'. pre = P @ pre' \<and> R = pre' @ x # post"
  by (auto simp: append_eq_append_conv2 append_eq_Cons_conv)

lemma emptied_more: "emptied zone rrs log \<Longrightarrow> emptied zone rrs (log @ log2)"
  unfolding emptied_def by fastforce

lemma hands_over_quiet: "each_request (\<lambda>q. \<not> binds zone q \<and> \<not> deletes q) log \<Longrightarrow> hands_over zone key rrs log"
  by (auto simp: hands_over_def each_request_def list_all_iff)

lemma hands_over_steps:
  assumes apx: "each_request (\<lambda>q. \<exists>cs. q = PatchZone zone cs \<and> \<not> deletes q) apx"
    and pg: "each_request (\<lambda>q. \<exists>ds. q = PatchZone zone ds \<and> handed_over key (bound_of m)) pg"
    and purged: "rest \<noteq> [] \<Longrightarrow> handed_over key (bound_of m) \<longrightarrow> emptied zone rrs pg"
    and rest: "each_request (\<lambda>q. \<not> deletes q \<and> (binds zone q \<longrightarrow> q = PutMeta zone tsigKind [key])) rest"
  shows "hands_over zone key rrs (apx @ (GetMeta zone tsigKind, m) # pg @ rest)"
proof -
  let ?P = "apx @ (GetMeta zone tsigKind, m) # pg"
  have P: "\<not> binds zone (fst x)" if "x \<in> set ?P" for x
    using that apx pg by (auto simp: each_request_def list_all_iff)
  have noread: "GetMeta zone tsigKind \<notin> fst ` set apx"
    using apx by (fastforce simp: each_request_def list_all_iff)
  have "q = PutMeta zone tsigKind [key] \<and> (\<exists>before m after. pre = before @ (GetMeta zone tsigKind, m) # after \<and>
      GetMeta zone tsigKind \<notin> fst ` set before \<and> (handed_over key (bound_of m) \<longrightarrow> emptied zone rrs after))"
    if log: "?P @ rest = pre @ (q, a) # post" and b: "binds zone q" for pre q a post
  proof -
    from split_after[OF log] P b obtain pre' where pre: "pre = ?P @ pre'" "rest = pre' @ (q, a) # post" by force
    then have "q = PutMeta zone tsigKind [key]" using rest b by (auto simp: each_request_def)
    moreover have "pre = apx @ (GetMeta zone tsigKind, m) # pg @ pre'" using pre by simp
    ultimately show ?thesis using purged pre(2) emptied_more[of zone rrs pg pre'] noread by blast
  qed
  moreover have "handed_over key (bound_of m)" if "x \<in> set (?P @ rest)" "deletes (fst x)" for x
    using that apx pg rest by (auto simp: each_request_def list_all_iff)
  ultimately show ?thesis unfolding hands_over_def by fastforce
qed

lemma metas_rest:
  "logs (\<lambda>r ext. each_request (\<lambda>q. \<not> deletes q \<and> (binds zone q \<longrightarrow> q = PutMeta zone tsigKind [key])) ext)
     (unless (ensureMeta srv zone tsigKind [key]) (ensureMeta srv zone fromKind from))"
  by (rule logs_unless_mono[OF ensureMeta_logs], erule each_request_mono, force)
     (rule logs_mono[OF ensureMeta_logs], simp, intro conjI; erule each_request_mono; force)

lemma zone_steps_logs: "logs (\<lambda>r ext. hands_over zone (dns_KeyName t) rrs ext) (zone_steps srv zone t rrs)"
  unfolding zone_steps_def
proof (rule logs_unless_mono[OF ensureApex_logs])
  fix apx :: "(pdns_request, pdns_reply) request_log"
  assume apx: "each_request (\<lambda>q. \<exists>cs. q = PatchZone zone cs \<and> \<not> deletes q) apx"
  show "hands_over zone (dns_KeyName t) rrs apx"
    by (rule hands_over_quiet, rule each_request_mono[OF apx]) auto
  show "logs (\<lambda>r e. hands_over zone (dns_KeyName t) rrs (apx @ e)) (unless (purgeIfHandedOver srv zone (dns_KeyName t) rrs)
      (unless (ensureMeta srv zone tsigKind [dns_KeyName t]) (ensureMeta srv zone fromKind (dns_UpdateFrom t))))"
  proof (rule logs_unless_mono[OF purge_logs])
    show "hands_over zone (dns_KeyName t) rrs (apx @ ext)"
      if "\<exists>m pg. ext = (GetMeta zone tsigKind, m) # pg \<and>
        each_request (\<lambda>q. \<exists>ds. q = PatchZone zone ds \<and> handed_over (dns_KeyName t) (bound_of m)) pg \<and>
        (Some f = None \<and> handed_over (dns_KeyName t) (bound_of m) \<longrightarrow> emptied zone rrs pg)" for f :: pdns_failure and ext
      using that hands_over_steps[OF apx, of "dns_KeyName t" _ _ "[]"] by auto
    show "logs (\<lambda>r e. hands_over zone (dns_KeyName t) rrs (apx @ ext @ e))
        (unless (ensureMeta srv zone tsigKind [dns_KeyName t]) (ensureMeta srv zone fromKind (dns_UpdateFrom t)))"
      if "\<exists>m pg. ext = (GetMeta zone tsigKind, m) # pg \<and>
        each_request (\<lambda>q. \<exists>ds. q = PatchZone zone ds \<and> handed_over (dns_KeyName t) (bound_of m)) pg \<and>
        ((None :: pdns_failure option) = None \<and> handed_over (dns_KeyName t) (bound_of m) \<longrightarrow> emptied zone rrs pg)" for ext
      using that hands_over_steps[OF apx] by (intro logs_mono[OF metas_rest]) auto
  qed
qed

definition zone_read :: "(pdns_request, pdns_reply) request_log \<Rightarrow> rrset list" where
  "zone_read head = (case snd (last head) of Inr (PdnsZone rrs) \<Rightarrow> rrs | _ \<Rightarrow> [])"

definition opens_zone :: "string \<Rightarrow> string \<Rightarrow> (pdns_request, pdns_reply) request_log \<Rightarrow> bool" where
  "opens_zone zone ns head =
     (\<exists>a. head = [(ReadZone zone, a)] \<or> head = [(ReadZone zone, Inl NotFound), (CreateZone zone [ns], a)])"

lemma as_rrsets_read: "as_rrsets rep = Some rrs \<Longrightarrow> zone_read (h @ [(q, Inr rep)]) = rrs"
  by (cases rep) (simp_all add: as_rrsets_def zone_read_def)

lemma hands_over_Nil: "hands_over zone key rrs []"
  by (simp add: hands_over_def)

definition zone_run :: "string \<Rightarrow> string \<Rightarrow> string \<Rightarrow> (pdns_request, pdns_reply) request_log \<Rightarrow> bool" where
  "zone_run zone ns key log = (\<exists>head tail. log = head @ tail \<and> opens_zone zone ns head \<and> hands_over zone key (zone_read head) tail)"

lemma zone_run_stops: "opens_zone zone ns head \<Longrightarrow> zone_run zone ns key head"
  using hands_over_Nil by (force simp: zone_run_def)

lemma zone_run_goes:
  assumes "opens_zone zone (fqdn (dns_ApexNS t)) (h @ [(q, Inr rep)])" "as_rrsets rep = Some rrs"
  shows "logs (\<lambda>r e. zone_run zone (fqdn (dns_ApexNS t)) (dns_KeyName t) (h @ (q, Inr rep) # e)) (zone_steps srv zone t rrs)"
proof (rule logs_mono[OF zone_steps_logs])
  fix e :: "(pdns_request, pdns_reply) request_log"
  assume "hands_over zone (dns_KeyName t) rrs e"
  then show "zone_run zone (fqdn (dns_ApexNS t)) (dns_KeyName t) (h @ (q, Inr rep) # e)"
    unfolding zone_run_def using assms as_rrsets_read[OF assms(2)] by (intro exI[of _ "h @ [(q, Inr rep)]"] exI[of _ e]) simp
qed

lemma create_zone_logs:
  "logs (\<lambda>r e. zone_run zone (fqdn (dns_ApexNS t)) (dns_KeyName t) ((ReadZone zone, Inl NotFound) # e))
     (do { r2 \<leftarrow> ask_as as_rrsets srv (CreateZone zone [fqdn (dns_ApexNS t)]);
           (case r2 of Inl e \<Rightarrow> ret (Some (PdnsAt (CreateZone zone [fqdn (dns_ApexNS t)]) e)) | Inr have \<Rightarrow> zone_steps srv zone t have) })"
proof (rule logs_bind_mono[OF logs_ask_as], elim exE conjE)
  let ?ns = "fqdn (dns_ApexNS t)"
  fix r2 :: "http_error + rrset list" and ext and a :: "http_error + pdns_reply"
  assume ext: "ext = [(CreateZone zone [?ns], a)]" and r2: "r2 = (case a of Inl e \<Rightarrow> Inl e
    | Inr rep \<Rightarrow> (case as_rrsets rep of None \<Rightarrow> Inl (Failed ''decoding data'') | Some x \<Rightarrow> Inr x))"
  have open2: "opens_zone zone ?ns ([(ReadZone zone, Inl NotFound)] @ [(CreateZone zone [?ns], a)])" for a
    by (simp add: opens_zone_def)
  show "logs (\<lambda>r' e. zone_run zone ?ns (dns_KeyName t) ((ReadZone zone, Inl NotFound) # ext @ e))
      (case r2 of Inl e \<Rightarrow> ret (Some (PdnsAt (CreateZone zone [?ns]) e)) | Inr have \<Rightarrow> zone_steps srv zone t have)"
    using zone_run_goes[OF open2] zone_run_stops[OF open2] unfolding ext r2
    by (auto intro!: logs_ret split: sum.split option.split)
qed

lemma ensureZone_logs: "logs (\<lambda>r. zone_run (fqdn name) (fqdn (dns_ApexNS t)) (dns_KeyName t)) (ensureZone srv name t)"
  unfolding ensureZone_def Let_def
proof (rule logs_bind_mono[OF logs_ask_as], elim exE conjE)
  let ?z = "fqdn name" and ?ns = "fqdn (dns_ApexNS t)"
  fix r :: "http_error + rrset list" and ext and a :: "http_error + pdns_reply"
  assume ext: "ext = [(ReadZone ?z, a)]" and r: "r = (case a of Inl e \<Rightarrow> Inl e
    | Inr rep \<Rightarrow> (case as_rrsets rep of None \<Rightarrow> Inl (Failed ''decoding data'') | Some x \<Rightarrow> Inr x))"
  have open1: "opens_zone ?z ?ns ([] @ [(ReadZone ?z, a)])" for a by (simp add: opens_zone_def)
  show "logs (\<lambda>r' e. zone_run ?z ?ns (dns_KeyName t) (ext @ e))
      (case r of Inl NotFound \<Rightarrow> do { r2 \<leftarrow> ask_as as_rrsets srv (CreateZone ?z [?ns]);
          (case r2 of Inl e \<Rightarrow> ret (Some (PdnsAt (CreateZone ?z [?ns]) e)) | Inr have \<Rightarrow> zone_steps srv ?z t have) }
       | Inl e \<Rightarrow> ret (Some (PdnsAt (ReadZone ?z) e)) | Inr have \<Rightarrow> zone_steps srv ?z t have)"
    using zone_run_goes[OF open1] zone_run_stops[OF open1] create_zone_logs unfolding ext r
    by (auto intro!: logs_ret split: sum.split option.split http_error.split)
qed

text \<open>C18. A zone that changes hands is emptied before its new tenant may write it, whatever the server answers: the tenant's key
  is bound to a zone only after the zone's binding was read and, where another tenant's key was bound, after the
  server granted the deletion of every record set it had shown, the apex SOA and NS apart. Record sets are deleted
  only where another key was bound: a zone bound to the tenant's own key, or to none, keeps its records.\<close>

theorem handed_over_zone_emptied:
  "case run_state (ensureZone srv name t) (conn_start s) of (r, w) \<Rightarrow>
     \<exists>head tail. cn_log w = head @ tail \<and> opens_zone (fqdn name) (fqdn (dns_ApexNS t)) head \<and>
       hands_over (fqdn name) (dns_KeyName t) (zone_read head) tail"
  using logs_from_start[OF ensureZone_logs[of name t srv], of s] by (simp add: zone_run_def split: prod.split)

section \<open>The apex settles\<close>

text \<open>What the server documents of a patch: a \<^verbatim>\<open>REPLACE\<close> puts the record set in the place of the one of its name and type, a
  \<^verbatim>\<open>DELETE\<close> takes that one away.\<close>

definition rr_key :: "rrset \<Rightarrow> string \<times> string" where
  "rr_key rr = (rr_Name rr, rr_Type rr)"

definition patch_one :: "rrset list \<Rightarrow> rrset \<Rightarrow> rrset list" where
  "patch_one rrs c =
     (if rr_Change c = ''DELETE'' then filter (\<lambda>r. rr_key r \<noteq> rr_key c) rrs
      else let c' = c\<lparr>rr_Change := []\<rparr> in
        if rr_key c \<in> rr_key ` set rrs then map (\<lambda>r. if rr_key r = rr_key c then c' else r) rrs else rrs @ [c'])"

definition apply_patch :: "rrset list \<Rightarrow> rrset list \<Rightarrow> rrset list" where
  "apply_patch rrs cs = foldl patch_one rrs cs"

text \<open>Words: not empty, no white space.\<close>

definition word_text :: "string \<Rightarrow> bool" where
  "word_text s = (s \<noteq> [] \<and> list_all (\<lambda>c. \<not> is_space c) s)"

lemma fields_loop_words: "list_all (\<lambda>c. \<not> is_space c) cur \<Longrightarrow> x \<in> set (fields_loop cur s) \<Longrightarrow> word_text x"
  by (induction cur s rule: fields_loop.induct) (auto simp: word_text_def split: if_splits)

lemma Fields_words: "x \<in> set (Fields s) \<Longrightarrow> word_text x"
  unfolding Fields_def by (rule fields_loop_words) simp_all

lemma fields_loop_word: "list_all (\<lambda>c. \<not> is_space c) x \<Longrightarrow> fields_loop cur (x @ s) = fields_loop (cur @ x) s"
  by (induction x arbitrary: cur) auto

lemma Fields_Join: "list_all word_text fs \<Longrightarrow> Fields (Join fs '' '') = fs"
proof (induction fs)
  case (Cons x fs)
  have sp: "is_space CHR '' ''" by (simp add: is_space_def)
  show ?case
  proof (cases fs)
    case Nil
    then show ?thesis using Cons.prems fields_loop_word[of x "[]" "[]"] by (simp add: Fields_def word_text_def)
  next
    case more: (Cons y ys)
    then show ?thesis
      using Cons.prems Cons.IH sp fields_loop_word[of x "[]" "'' '' @ Join fs '' ''"] by (simp add: Fields_def word_text_def)
  qed
qed (simp add: Fields_def)

lemma dec_word: "word_text (dec n)"
proof -
  have "\<not> is_space c" if "c \<in> set digits" for c
    using that by (auto simp: is_space_def digits_def)
  then show ?thesis using set_dec[of n] by (auto simp: word_text_def list_all_iff)
qed

definition fix_set :: "string \<Rightarrow> string \<Rightarrow> rrset \<Rightarrow> rrset" where
  "fix_set apex ns rr = (case apex_change apex ns rr of Inr (Some c) \<Rightarrow> c\<lparr>rr_Change := []\<rparr> | _ \<Rightarrow> rr)"

lemma apex_change_key: "apex_change apex ns rr = Inr (Some c) \<Longrightarrow> rr_key c = rr_key rr \<and> rr_Change c = ''REPLACE''"
  by (auto simp: apex_change_def replace_set_def rr_key_def Let_def split: if_splits option.splits)

lemma fix_set_key [simp]: "rr_key (fix_set apex ns rr) = rr_key rr"
  by (auto simp: fix_set_def rr_key_def dest: apex_change_key[unfolded rr_key_def] split: sum.split option.split)

lemma apply_loop:
  "apex_loop apex ns rrs2 = Inr cs \<Longrightarrow> distinct (map rr_key (rrs1 @ rrs2)) \<Longrightarrow>
     apply_patch (rrs1 @ rrs2) cs = rrs1 @ map (fix_set apex ns) rrs2"
proof (induction rrs2 arbitrary: rrs1 cs)
  case (Cons rr rrs)
  from Cons.prems(1) obtain c cs' where c: "apex_change apex ns rr = Inr c" "apex_loop apex ns rrs = Inr cs'"
    "cs = (case c of None \<Rightarrow> [] | Some x \<Rightarrow> [x]) @ cs'" by (auto split: sum.splits)
  have keys: "distinct (map rr_key ((rrs1 @ [fix_set apex ns rr]) @ rrs))" using Cons.prems(2) by simp
  have step: "foldl patch_one (rrs1 @ rr # rrs) (case c of None \<Rightarrow> [] | Some x \<Rightarrow> [x]) = (rrs1 @ [fix_set apex ns rr]) @ rrs"
  proof (cases c)
    case (Some x)
    then have "rr_key x = rr_key rr" "rr_Change x = ''REPLACE''" using apex_change_key c(1) by auto
    moreover have "map (\<lambda>r. if rr_key r = rr_key rr then y else r) (rrs1 @ rr # rrs) = rrs1 @ y # rrs" for y
    proof -
      have "rr_key r \<noteq> rr_key rr" if "r \<in> set (rrs1 @ rrs)" for r
        using that Cons.prems(2) by (force simp: image_iff)
      then show ?thesis by (simp, intro conjI map_idI) auto
    qed
    ultimately show ?thesis using Some c(1) by (simp add: patch_one_def fix_set_def)
  qed (simp add: fix_set_def c(1))
  show ?case
    using Cons.IH[OF c(2) keys] step by (simp add: apply_patch_def c(3) del: map_append)
qed (simp add: apply_patch_def)

lemma apex_change_cases:
  "apex_change apex ns rr = Inr (Some x) \<Longrightarrow>
    (\<exists>ttl f n. length (Fields f) = 7 \<and> x = replace_set apex ''SOA'' ttl (Join ((Fields f)[0 := ns, 2 := dec n]) '' '')) \<or>
    (\<exists>ttl. x = replace_set apex ''NS'' ttl ns)"
  by (auto simp: apex_change_def Let_def split: if_splits option.splits)

lemma soa_words: "word_text ns \<Longrightarrow> list_all word_text ((Fields f)[0 := ns, 2 := dec n])"
  using dec_word Fields_words[of _ f] by (auto simp: list_all_iff dest!: set_update_subset_insert[THEN subsetD])

lemma soa_done:
  assumes "word_text ns" "length (Fields f) = 7"
  shows "apex_change apex ns ((replace_set apex ''SOA'' ttl (Join ((Fields f)[0 := ns, 2 := dec n]) '' ''))\<lparr>rr_Change := []\<rparr>) = Inr None"
  using Fields_Join[OF soa_words[OF assms(1)], of f n] assms(2) by (simp add: apex_change_def replace_set_def)

lemma ns_done: "apex_change apex ns ((replace_set apex ''NS'' ttl ns)\<lparr>rr_Change := []\<rparr>) = Inr None"
  by (simp add: apex_change_def replace_set_def)

lemma fix_set_done:
  assumes "word_text ns" "\<forall>e. apex_change apex ns rr \<noteq> Inl e"
  shows "apex_change apex ns (fix_set apex ns rr) = Inr None"
proof -
  obtain c where c: "apex_change apex ns rr = Inr c" using assms(2) by (cases "apex_change apex ns rr") auto
  show ?thesis
  proof (cases c)
    case (Some x)
    then have "fix_set apex ns rr = x\<lparr>rr_Change := []\<rparr>" by (simp add: fix_set_def c)
    then show ?thesis using apex_change_cases[of apex ns rr x] c Some soa_done[OF assms(1)] ns_done by auto
  qed (use c in \<open>simp add: fix_set_def\<close>)
qed

lemma apex_loop_ok: "apex_loop apex ns rrs = Inr cs \<Longrightarrow> rr \<in> set rrs \<Longrightarrow> \<forall>e. apex_change apex ns rr \<noteq> Inl e"
  by (induction rrs arbitrary: cs) (auto split: sum.splits)

lemma apex_loop_none: "\<forall>rr \<in> set rrs. apex_change apex ns rr = Inr None \<Longrightarrow> apex_loop apex ns rrs = Inr []"
  by (induction rrs) auto

lemma hasNS_keys: "hasNS apex rrs \<longleftrightarrow> (apex, ''NS'') \<in> rr_key ` set rrs"
  by (auto simp: hasNS_def list_ex_iff rr_key_def)

lemma foreign_sets_append: "foreign_sets apex (a @ b) = foreign_sets apex a @ foreign_sets apex b"
  by (simp add: foreign_sets_def)

lemma foreign_fix: "foreign_sets apex (map (fix_set apex ns) rrs) = foreign_sets apex rrs"
proof (induction rrs)
  case (Cons rr rrs)
  have "rr_Name (fix_set apex ns rr) = rr_Name rr" "rr_Type (fix_set apex ns rr) = rr_Type rr"
    using fix_set_key[of apex ns rr] by (simp_all add: rr_key_def del: fix_set_key)
  moreover have "fix_set apex ns rr = rr" if "\<not> (rr_Name rr = apex \<and> (rr_Type rr = ''SOA'' \<or> rr_Type rr = ''NS''))"
    using that by (auto simp: fix_set_def apex_change_def)
  ultimately show ?case using Cons by (auto simp: foreign_sets_def)
qed (simp add: foreign_sets_def)

text \<open>The zone after the patch.\<close>

lemma patched_zone:
  assumes "apex_changes apex ns rrs = Inr changes" "distinct (map rr_key rrs)"
  shows "\<exists>cs. apex_loop apex ns rrs = Inr cs \<and> apply_patch rrs changes = map (fix_set apex ns) rrs @
    (if hasNS apex rrs then [] else [(replace_set apex ''NS'' apexTTL ns)\<lparr>rr_Change := []\<rparr>])"
proof -
  obtain cs where cs: "apex_loop apex ns rrs = Inr cs" "changes = cs @ (if hasNS apex rrs then [] else [replace_set apex ''NS'' apexTTL ns])"
    using assms(1) by (auto simp: apex_changes_def split: sum.splits)
  have "foldl patch_one rrs cs = map (fix_set apex ns) rrs"
    using apply_loop[OF cs(1), of "[]"] assms(2) by (simp add: apply_patch_def)
  moreover have "rr_key ` set (map (fix_set apex ns) rrs) = rr_key ` set rrs" by (force simp: image_iff)
  ultimately show ?thesis
    using cs by (simp add: apply_patch_def patch_one_def hasNS_keys replace_set_def rr_key_def)
qed

text \<open>The SOA of the apex after the patch, field by field.\<close>

definition soa_fields :: "string \<Rightarrow> rrset \<Rightarrow> string list option" where
  "soa_fields apex rr =
     (if rr_key rr = (apex, ''SOA'') \<and> length (rr_Records rr) = 1 \<and> length (Fields (rc_Content (rr_Records rr ! 0))) = 7
      then Some (Fields (rc_Content (rr_Records rr ! 0))) else None)"

lemma fix_soa:
  assumes "word_text ns" "\<forall>e. apex_change apex ns rr \<noteq> Inl e" "soa_fields apex rr = Some f"
  shows "soa_fields apex (fix_set apex ns rr) = Some (if f ! 0 = ns then f else f[0 := ns, 2 := dec (undec (f ! 2) + 1)])"
proof -
  have rr: "rr_Name rr = apex" "rr_Type rr = ''SOA''" "length (rr_Records rr) = 1" "Fields (rc_Content (rr_Records rr ! 0)) = f" "length f = 7"
    using assms(3) by (auto simp: soa_fields_def rr_key_def split: if_splits)
  show ?thesis
  proof (cases "f ! 0 = ns")
    case True
    then show ?thesis using rr assms(3) by (simp add: fix_set_def apex_change_def)
  next
    case False
    then obtain serial where "ParseUint32 (f ! 2) = Some serial"
      using assms(2) rr by (auto simp: apex_change_def split: option.splits)
    moreover from this have "serial = undec (f ! 2)" by (auto simp: ParseUint32_def split: if_splits)
    ultimately show ?thesis
      using False rr Fields_Join[OF soa_words[OF assms(1), of "rc_Content (rr_Records rr ! 0)" "serial + 1"]]
      by (simp add: fix_set_def apex_change_def replace_set_def soa_fields_def rr_key_def)
  qed
qed

text \<open>The apex settles in one patch. Where the changes \<^verbatim>\<open>ensureApex\<close> asks for are applied as the server documents, the apex
  NS set is the substrate's and nothing else, a SOA that named another primary names the substrate's with its serial
  one higher and its other fields kept, every record set below the apex or of another type is as it was, and the
  next run finds nothing to change.\<close>

lemma apex_settles:
  assumes "apex_changes apex ns rrs = Inr changes" "distinct (map rr_key rrs)" "word_text ns"
  shows "(\<exists>rr \<in> set (apply_patch rrs changes). rr_key rr = (apex, ''NS'') \<and> map rc_Content (rr_Records rr) = [ns]) \<and>
    (\<forall>rr \<in> set rrs. \<forall>f. soa_fields apex rr = Some f \<longrightarrow> (\<exists>rr' \<in> set (apply_patch rrs changes).
       soa_fields apex rr' = Some (if f ! 0 = ns then f else f[0 := ns, 2 := dec (undec (f ! 2) + 1)]))) \<and>
    foreign_sets apex (apply_patch rrs changes) = foreign_sets apex rrs \<and>
    apex_changes apex ns (apply_patch rrs changes) = Inr []"
proof -
  let ?ns = "(replace_set apex ''NS'' apexTTL ns)\<lparr>rr_Change := []\<rparr>"
  let ?rrs = "map (fix_set apex ns) rrs @ (if hasNS apex rrs then [] else [?ns])"
  obtain cs where loop: "apex_loop apex ns rrs = Inr cs" and rrs: "apply_patch rrs changes = ?rrs" using patched_zone[OF assms(1,2)] by blast
  note ok = apex_loop_ok[OF loop]
  have settled: "apex_change apex ns rr = Inr None" if "rr \<in> set ?rrs" for rr
    using that fix_set_done[OF assms(3) ok] ns_done by (auto split: if_splits)
  have nsset: "rr_key ?ns = (apex, ''NS'')" by (simp add: rr_key_def replace_set_def)
  have "(apex, ''NS'') \<in> rr_key ` set ?rrs"
    using nsset by (cases "hasNS apex rrs") (force simp: hasNS_keys image_iff)+
  then obtain rr where rr: "rr \<in> set ?rrs" "rr_key rr = (apex, ''NS'')" by force
  have "map rc_Content (rr_Records rr) = [ns]"
    using rr(2) settled[OF rr(1)] by (auto simp: apex_change_def rr_key_def length_Suc_conv split: if_splits)
  with rr(2) have "\<exists>rr \<in> set ?rrs. rr_key rr = (apex, ''NS'') \<and> map rc_Content (rr_Records rr) = [ns]"
    by (intro bexI[OF _ rr(1)] conjI)
  moreover have "\<exists>rr' \<in> set ?rrs. soa_fields apex rr' = Some (if f ! 0 = ns then f else f[0 := ns, 2 := dec (undec (f ! 2) + 1)])"
    if "rr \<in> set rrs" "soa_fields apex rr = Some f" for rr f
    using fix_soa[OF assms(3) ok that(2)] that(1) by auto
  moreover have "foreign_sets apex ?rrs = foreign_sets apex rrs"
    by (simp add: foreign_sets_append foreign_fix) (simp add: foreign_sets_def replace_set_def)
  moreover have "apex_changes apex ns ?rrs = Inr []"
    using \<open>(apex, ''NS'') \<in> rr_key ` set ?rrs\<close> apex_loop_none[of ?rrs apex ns] settled
    by (simp add: apex_changes_def hasNS_keys[of apex ?rrs])
  ultimately show ?thesis unfolding rrs by (intro conjI ballI allI impI)
qed

text \<open>A serial at its largest is carried to one that is no longer a 32-bit number.\<close>

lemma serial_overflow:
  "soa_fields apex rr = Some f \<Longrightarrow> f ! 0 \<noteq> ns \<Longrightarrow> f ! 2 = ''4294967295'' \<Longrightarrow> word_text ns \<Longrightarrow>
     \<exists>g. soa_fields apex (fix_set apex ns rr) = Some g \<and> g ! 2 = ''4294967296'' \<and> ParseUint32 (g ! 2) = None"
proof -
  assume soa: "soa_fields apex rr = Some f" "f ! 0 \<noteq> ns" "f ! 2 = ''4294967295''" "word_text ns"
  have n: "ParseUint32 ''4294967295'' = Some 4294967295" "undec ''4294967295'' = 4294967295"
    by (simp_all add: ParseUint32_def undec_def digits_def)
  have "dec 4294967296 = ''4294967296''" by (simp add: dec.simps digits_def)
  moreover have "ParseUint32 ''4294967296'' = None" by (simp add: ParseUint32_def undec_def digits_def)
  moreover have "\<forall>e. apex_change apex ns rr \<noteq> Inl e" "length f = 7"
    using soa n by (auto simp: soa_fields_def apex_change_def rr_key_def split: if_splits)
  ultimately show ?thesis using fix_soa[OF soa(4) _ soa(1)] soa n by simp
qed

end
