(* ===== verification/Router.thy ===== *)
theory Router
  imports Client Addresses
begin

text \<open>
  \<^verbatim>\<open>internal/backend/opnsense\<close>: the core router. \<open>resolver_Ensure\<close> and \<open>resolver_Remove\<close> keep the resolver's forwards of the
  tenants' zones, \<open>EnsureReservation\<close> and \<open>RemoveReservation\<close> their devices' address reservations, in tables the router
  shares with other writers. The router is a parameter.
\<close>

section \<open>Requests\<close>

record forwardRow =
  fr_UUID :: string
  fr_Enabled :: string
  fr_Type :: string
  fr_Domain :: string
  fr_Server :: string
  fr_Description :: string

record dotRow =
  dt_Enabled :: string
  dt_Type :: string
  dt_Domain :: string
  dt_Server :: string
  dt_Description :: string

record reservationRow =
  rr_UUID :: string
  rr_HWAddress :: string
  rr_IPAddress :: string
  rr_Hostname :: string
  rr_Description :: string

record reservationBody =
  rb_Subnet :: string
  rb_HWAddress :: string
  rb_IPAddress :: string
  rb_Hostname :: string
  rb_Description :: string

datatype op_request =
    SearchForward | AddForward dotRow | SetForward string dotRow | DelForward string
  | SearchReservation | SearchSubnet | AddReservation reservationBody | SetReservation string reservationBody | DelReservation string
  | Reconfigure string

text \<open>An answer without the field that is read leaves it absent, or empty.\<close>

datatype op_reply =
    OpNone | OpForwards "forwardRow list" | OpReservations "reservationRow list" | OpSubnets "(string \<times> string) list"
  | OpResult string | OpStatus string

definition as_result :: "op_reply \<Rightarrow> string option" where
  "as_result r = (case r of OpResult s \<Rightarrow> Some s | _ \<Rightarrow> Some [])"

definition as_service_status :: "op_reply \<Rightarrow> string option" where
  "as_service_status r = (case r of OpStatus s \<Rightarrow> Some s | _ \<Rightarrow> Some [])"

definition as_forwards :: "op_reply \<Rightarrow> forwardRow list option option" where
  "as_forwards r = (case r of OpForwards rows \<Rightarrow> Some (Some rows) | OpReservations _ \<Rightarrow> None | OpSubnets _ \<Rightarrow> None | _ \<Rightarrow> Some None)"

definition as_reservations :: "op_reply \<Rightarrow> reservationRow list option option" where
  "as_reservations r = (case r of OpReservations rows \<Rightarrow> Some (Some rows) | OpForwards _ \<Rightarrow> None | OpSubnets _ \<Rightarrow> None | _ \<Rightarrow> Some None)"

definition as_subnet_rows :: "op_reply \<Rightarrow> (string \<times> string) list option option" where
  "as_subnet_rows r = (case r of OpSubnets rows \<Rightarrow> Some (Some rows) | OpForwards _ \<Rightarrow> None | OpReservations _ \<Rightarrow> None | _ \<Rightarrow> Some None)"

datatype op_failure =
    OpAt op_request http_error | OpRefused op_request string | NoRows op_request
  | BadSubnet string | NoSubnet string | AddressConflict string string

type_synonym 's router = "('s, op_request, op_reply) server"

type_synonym ('s, 'a) router_client = "('s, op_request, op_reply, 'a) client"

definition op_write :: "'s router \<Rightarrow> op_request \<Rightarrow> string list \<Rightarrow> ('s, op_failure option) router_client" where
  "op_write srv q want =
     do {
       r \<leftarrow> ask_as as_result srv q;
       ret (case r of Inl e \<Rightarrow> Some (OpAt q e) | Inr res \<Rightarrow> if res \<notin> set want then Some (OpRefused q res) else None)
     }"

definition reconfigure :: "'s router \<Rightarrow> string \<Rightarrow> ('s, op_failure option) router_client" where
  "reconfigure srv service =
     (let q = Reconfigure service in
      do {
        r \<leftarrow> ask_as as_service_status srv q;
        ret (case r of Inl e \<Rightarrow> Some (OpAt q e) | Inr st \<Rightarrow> if st \<noteq> ''ok'' then Some (OpRefused q st) else None)
      })"

definition read_rows :: "(op_reply \<Rightarrow> 'a list option option) \<Rightarrow> 's router \<Rightarrow> op_request \<Rightarrow> ('s, op_failure + 'a list) router_client" where
  "read_rows read srv q =
     do {
       r \<leftarrow> ask_as read srv q;
       ret (case r of Inl e \<Rightarrow> Inl (OpAt q e) | Inr None \<Rightarrow> Inl (NoRows q) | Inr (Some rows) \<Rightarrow> Inr rows)
     }"

section \<open>Forwards\<close>

abbreviation forward_rows :: "'s router \<Rightarrow> ('s, op_failure + forwardRow list) router_client" where
  "forward_rows srv \<equiv> read_rows as_forwards srv SearchForward"

text \<open>\<^verbatim>\<open>List\<close>: the map keeps the last plain forward of a domain.\<close>

definition forward_of :: "forwardRow list \<Rightarrow> string \<Rightarrow> forwardRow option" where
  "forward_of rows d = find (\<lambda>r. fr_Type r = ''forward'' \<and> fr_Domain r = d) (rev rows)"

definition dot_row :: "Forward \<Rightarrow> string \<Rightarrow> dotRow" where
  "dot_row f description =
     \<lparr>dt_Enabled = ''1'', dt_Type = ''forward'', dt_Domain = fw_Domain f, dt_Server = fw_Server f, dt_Description = description\<rparr>"

definition forward_request :: "forwardRow list \<Rightarrow> Forward \<Rightarrow> op_request option" where
  "forward_request rows f =
     (case forward_of rows (fw_Domain f) of
        None \<Rightarrow> Some (AddForward (dot_row f (fw_Description f)))
      | Some cur \<Rightarrow>
          if fr_Server cur \<noteq> fw_Server f \<or> fr_Enabled cur \<noteq> ''1''
          then Some (SetForward (fr_UUID cur) (dot_row f (fr_Description cur))) else None)"

fun ensure_forwards :: "'s router \<Rightarrow> forwardRow list \<Rightarrow> bool \<Rightarrow> Forward list \<Rightarrow> ('s, op_failure option) router_client" where
  "ensure_forwards srv rows changed [] = (if changed then reconfigure srv ''unbound'' else ret None)"
| "ensure_forwards srv rows changed (f # fs) =
     (case forward_request rows f of
        None \<Rightarrow> ensure_forwards srv rows changed fs
      | Some q \<Rightarrow> unless (op_write srv q [''saved'']) (ensure_forwards srv rows True fs))"

definition resolver_Ensure :: "'s router \<Rightarrow> Forward list \<Rightarrow> ('s, op_failure option) router_client" where
  "resolver_Ensure srv fwds =
     do { r \<leftarrow> forward_rows srv; (case r of Inl e \<Rightarrow> ret (Some e) | Inr rows \<Rightarrow> ensure_forwards srv rows False fwds) }"

fun remove_forwards :: "'s router \<Rightarrow> forwardRow list \<Rightarrow> bool \<Rightarrow> string list \<Rightarrow> ('s, op_failure option) router_client" where
  "remove_forwards srv rows changed [] = (if changed then reconfigure srv ''unbound'' else ret None)"
| "remove_forwards srv rows changed (d # ds) =
     (case forward_of rows d of
        None \<Rightarrow> remove_forwards srv rows changed ds
      | Some cur \<Rightarrow> unless (op_write srv (DelForward (fr_UUID cur)) [''deleted'', ''not found'']) (remove_forwards srv rows True ds))"

definition resolver_Remove :: "'s router \<Rightarrow> string list \<Rightarrow> ('s, op_failure option) router_client" where
  "resolver_Remove srv domains =
     do { r \<leftarrow> forward_rows srv; (case r of Inl e \<Rightarrow> ret (Some e) | Inr rows \<Rightarrow> remove_forwards srv rows False domains) }"

section \<open>Reservations\<close>

abbreviation reservations :: "'s router \<Rightarrow> ('s, op_failure + reservationRow list) router_client" where
  "reservations srv \<equiv> read_rows as_reservations srv SearchReservation"

text \<open>\<^verbatim>\<open>netip.ParsePrefix\<close>.\<close>

definition ParsePrefix :: "string \<Rightarrow> prefix option" where
  "ParsePrefix s =
     (let parts = SplitOn CHR ''/'' s; b = last parts in
      if length parts < 2 then None
      else case ParseAddr (Join (butlast parts) ''/'') of
        None \<Rightarrow> None
      | Some a \<Rightarrow>
          if addr_zone a \<noteq> [] \<or> b = [] \<or> \<not> list_all (\<lambda>c. c \<in> set digits) b \<or> (length b > 1 \<and> hd b = CHR ''0'') \<or> undec b > addr_bits a
          then None else Some \<lparr>pfx_addr = a, pfx_bits = int (undec b)\<rparr>)"

definition on_subnet :: "prefix \<Rightarrow> reservationRow \<Rightarrow> bool" where
  "on_subnet p row = (case ParseAddr (rr_IPAddress row) of None \<Rightarrow> False | Some a \<Rightarrow> prefix_Contains p a)"

text \<open>The loop over the rows: the last row of this description, or the first conflict.\<close>

fun scan_rows :: "prefix \<Rightarrow> Reservation \<Rightarrow> reservationRow option \<Rightarrow> reservationRow list \<Rightarrow> op_failure + reservationRow option" where
  "scan_rows p r own [] = Inr own"
| "scan_rows p r own (row # rows) =
     (if rr_Description row = rv_Description r then scan_rows p r (Some row) rows
      else if \<not> on_subnet p row then scan_rows p r own rows
      else if rr_IPAddress row = rv_Address r then Inl (AddressConflict (rv_Address r) (rr_Description row))
      else if EqualFold (rr_HWAddress row) (rv_MAC r) then Inl (AddressConflict (rv_MAC r) (rr_Description row))
      else scan_rows p r own rows)"

definition subnetUUID :: "'s router \<Rightarrow> string \<Rightarrow> ('s, op_failure + string) router_client" where
  "subnetUUID srv cidr =
     andthen (read_rows as_subnet_rows srv SearchSubnet)
       (\<lambda>rows. ret (case find (\<lambda>(uuid, subnet). subnet = cidr) rows of None \<Rightarrow> Inl (NoSubnet cidr) | Some (uuid, _) \<Rightarrow> Inr uuid))"

definition reservation_body :: "Reservation \<Rightarrow> string \<Rightarrow> reservationBody" where
  "reservation_body r uuid = \<lparr>rb_Subnet = uuid, rb_HWAddress = rv_MAC r, rb_IPAddress = rv_Address r, rb_Hostname = rv_Hostname r,
     rb_Description = rv_Description r\<rparr>"

definition in_place :: "Reservation \<Rightarrow> reservationRow option \<Rightarrow> bool" where
  "in_place r own = (case own of None \<Rightarrow> False
     | Some row \<Rightarrow> EqualFold (rr_HWAddress row) (rv_MAC r) \<and> rr_IPAddress row = rv_Address r \<and> rr_Hostname row = rv_Hostname r)"

definition put_reservation :: "'s router \<Rightarrow> Reservation \<Rightarrow> reservationRow option \<Rightarrow> ('s, op_failure option) router_client" where
  "put_reservation srv r own =
     do {
       u \<leftarrow> subnetUUID srv (rv_Subnet r);
       (case u of
          Inl e \<Rightarrow> ret (Some e)
        | Inr uuid \<Rightarrow>
            let q = (case own of None \<Rightarrow> AddReservation (reservation_body r uuid) | Some row \<Rightarrow> SetReservation (rr_UUID row) (reservation_body r uuid)) in
            unless (op_write srv q [''saved'']) (reconfigure srv ''kea''))
     }"

definition EnsureReservation :: "'s router \<Rightarrow> Reservation \<Rightarrow> ('s, op_failure option) router_client" where
  "EnsureReservation srv r =
     (case ParsePrefix (rv_Subnet r) of
        None \<Rightarrow> ret (Some (BadSubnet (rv_Subnet r)))
      | Some subnet \<Rightarrow>
          do {
            rr \<leftarrow> reservations srv;
            (case rr of
               Inl e \<Rightarrow> ret (Some e)
             | Inr rows \<Rightarrow>
                 (case scan_rows subnet r None rows of
                    Inl e \<Rightarrow> ret (Some e)
                  | Inr own \<Rightarrow> if in_place r own then ret None else put_reservation srv r own))
          })"

fun remove_reservations :: "'s router \<Rightarrow> string \<Rightarrow> bool \<Rightarrow> reservationRow list \<Rightarrow> ('s, op_failure option) router_client" where
  "remove_reservations srv description changed [] = (if changed then reconfigure srv ''kea'' else ret None)"
| "remove_reservations srv description changed (row # rows) =
     (if rr_Description row \<noteq> description then remove_reservations srv description changed rows
      else unless (op_write srv (DelReservation (rr_UUID row)) [''deleted'', ''not found'']) (remove_reservations srv description True rows))"

definition RemoveReservation :: "'s router \<Rightarrow> string \<Rightarrow> ('s, op_failure option) router_client" where
  "RemoveReservation srv description =
     do {
       r \<leftarrow> reservations srv;
       (case r of Inl e \<Rightarrow> ret (Some e) | Inr rows \<Rightarrow> remove_reservations srv description False rows)
     }"

section \<open>Forwards of the tenant's own domains\<close>

lemma op_write_logs: "logs (\<lambda>r ext. \<exists>a. ext = [(q, a)] \<and> (r = None \<longrightarrow> (\<exists>res. a = Inr (OpResult res) \<and> res \<in> set want))) (op_write srv q want)"
  if "[] \<notin> set want"
  unfolding op_write_def using that
  by (intro logs_bind_mono[OF logs_ask_as], elim exE conjE)
     (auto intro!: logs_ret simp: as_result_def split: sum.splits op_reply.splits)

lemma reconfigure_logs: "logs (\<lambda>r ext. \<exists>a. ext = [(Reconfigure service, a)] \<and> (r = None \<longrightarrow> a = Inr (OpStatus ''ok''))) (reconfigure srv service)"
  unfolding reconfigure_def Let_def
  by (intro logs_bind_mono[OF logs_ask_as], elim exE conjE)
     (auto intro!: logs_ret simp: as_service_status_def split: sum.splits op_reply.splits)

lemma read_rows_logs:
  "logs (\<lambda>r ext. \<exists>a. ext = [(q, a)] \<and> (\<forall>rows. r = Inr rows \<longleftrightarrow> (\<exists>rep. a = Inr rep \<and> read rep = Some (Some rows)))) (read_rows read srv q)"
  unfolding read_rows_def
  by (intro logs_bind_mono[OF logs_ask_as], elim exE conjE)
     (auto intro!: logs_ret split: sum.splits option.splits)

text \<open>What a successful run has done for one forward: nothing was needed, or the router saved it.\<close>

definition forward_settled :: "forwardRow list \<Rightarrow> (op_request, op_reply) request_log \<Rightarrow> Forward \<Rightarrow> bool" where
  "forward_settled rows log f =
     (case forward_request rows f of None \<Rightarrow> True | Some q \<Rightarrow> (q, Inr (OpResult ''saved'')) \<in> set log)"

lemma ensure_forwards_logs:
  "logs (\<lambda>r ext. each_request (\<lambda>q. q = Reconfigure ''unbound'' \<or> (\<exists>f \<in> set fs. forward_request rows f = Some q)) ext \<and>
      (r = None \<longrightarrow> (\<forall>f \<in> set fs. forward_settled rows ext f) \<and>
         (changed \<or> ext \<noteq> [] \<longrightarrow> ext \<noteq> [] \<and> last ext = (Reconfigure ''unbound'', Inr (OpStatus ''ok'')))))
    (ensure_forwards srv rows changed fs)"
proof (induction fs arbitrary: changed)
  case Nil
  then show ?case by (auto intro!: logs_ret logs_mono[OF reconfigure_logs])
next
  case (Cons f fs)
  have more: "forward_settled rows ext g \<Longrightarrow> forward_settled rows (x # ext) g" for x ext g
    by (auto simp: forward_settled_def split: option.splits)
  show ?case
  proof (cases "forward_request rows f")
    case None
    then show ?thesis
      by (auto intro!: logs_mono[OF Cons] elim!: each_request_mono simp: forward_settled_def)
  next
    case (Some q)
    let ?ok = "Inr (OpResult ''saved'') :: http_error + op_reply"
    have go: "logs (\<lambda>r e. each_request (\<lambda>q'. q' = Reconfigure ''unbound'' \<or> (\<exists>g \<in> set (f # fs). forward_request rows g = Some q')) e \<and>
        (r = None \<longrightarrow> (\<forall>g \<in> set (f # fs). forward_settled rows ((q, ?ok) # e) g) \<and> e \<noteq> [] \<and> last e = (Reconfigure ''unbound'', Inr (OpStatus ''ok''))))
        (ensure_forwards srv rows True fs)"
      using Some by (intro logs_mono[OF Cons]) (auto elim!: each_request_mono simp: more forward_settled_def[of _ _ f])
    show ?thesis
      unfolding ensure_forwards.simps Some option.case
      by (rule logs_unless_mono[OF op_write_logs]) (use Some in \<open>auto intro!: logs_mono[OF go]\<close>)
  qed
qed

definition resolver_run :: "Forward list \<Rightarrow> op_failure option \<Rightarrow> (op_request, op_reply) request_log \<Rightarrow> bool" where
  "resolver_run fwds r log =
     (\<exists>a rest. log = (SearchForward, a) # rest \<and>
        (case a of
           Inr (OpForwards rows) \<Rightarrow>
             each_request (\<lambda>q. q = Reconfigure ''unbound'' \<or> (\<exists>f \<in> set fwds. forward_request rows f = Some q)) rest \<and>
             (r = None \<longrightarrow> (\<forall>f \<in> set fwds. forward_settled rows rest f) \<and>
                (rest \<noteq> [] \<longrightarrow> last rest = (Reconfigure ''unbound'', Inr (OpStatus ''ok''))))
         | _ \<Rightarrow> rest = [] \<and> r \<noteq> None))"

lemma forwards_read: "as_forwards rep = Some (Some rows) \<longleftrightarrow> rep = OpForwards rows"
  by (cases rep) (auto simp: as_forwards_def)

lemma resolver_logs: "logs (resolver_run fwds) (resolver_Ensure srv fwds)"
  unfolding resolver_Ensure_def
proof (rule logs_bind_mono[OF read_rows_logs], elim exE conjE)
  fix r :: "op_failure + forwardRow list" and ext and a :: "http_error + op_reply"
  assume ext: "ext = [(SearchForward, a)]" and r: "\<forall>rows. r = Inr rows \<longleftrightarrow> (\<exists>rep. a = Inr rep \<and> as_forwards rep = Some (Some rows))"
  show "logs (\<lambda>r' e. resolver_run fwds r' (ext @ e)) (case r of Inl e \<Rightarrow> ret (Some e) | Inr rows \<Rightarrow> ensure_forwards srv rows False fwds)"
  proof (cases r)
    case (Inr rows)
    with r have "a = Inr (OpForwards rows)" by (auto simp: forwards_read)
    then show ?thesis
      unfolding Inr sum.case ext by (intro logs_mono[OF ensure_forwards_logs]) (auto simp: resolver_run_def)
  next
    case (Inl e)
    with r have "a \<noteq> Inr (OpForwards rows)" for rows by (auto simp: forwards_read)
    then show ?thesis
      unfolding Inl sum.case ext by (auto intro!: logs_ret simp: resolver_run_def split: sum.splits op_reply.splits)
  qed
qed

text \<open>The resolver's forwards are kept for the tenant's own domains only, whatever the router answers: after the list of rows
  every request adds a row for one of the tenant's domains, corrects the row that already forwards that domain, or
  applies. When it succeeds, every domain was forwarded to its server already or the router saved it, and where
  anything was saved the last thing the router did was to apply it.\<close>

lemma resolver_keeps_own_domains:
  "case run_state (resolver_Ensure srv fwds) (conn_start s) of (r, w) \<Rightarrow> resolver_run fwds r (cn_log w)"
  using logs_from_start[OF resolver_logs[of fwds srv], of s] by (simp split: prod.split)

section \<open>Reservations kept apart\<close>

lemma scan_rows_conflict:
  assumes "row \<in> set rows" "rr_Description row \<noteq> rv_Description r" "on_subnet p row"
    "rr_IPAddress row = rv_Address r \<or> EqualFold (rr_HWAddress row) (rv_MAC r)"
  shows "\<exists>x y. scan_rows p r own rows = Inl (AddressConflict x y)"
  using assms by (induction rows arbitrary: own) auto

lemma scan_rows_own: "scan_rows p r own rows = Inr (Some row) \<Longrightarrow> own = Some row \<or> row \<in> set rows \<and> rr_Description row = rv_Description r"
  by (induction rows arbitrary: own) (auto split: if_splits)

text \<open>The reads and the writes a run may make once the rows are known.\<close>

fun reserves :: "Reservation \<Rightarrow> reservationRow list \<Rightarrow> op_request \<Rightarrow> bool" where
  "reserves r rows SearchSubnet = True"
| "reserves r rows (AddReservation b) = (\<exists>u. b = reservation_body r u)"
| "reserves r rows (SetReservation i b) = (\<exists>u. b = reservation_body r u \<and> (\<exists>row \<in> set rows. rr_UUID row = i \<and> rr_Description row = rv_Description r))"
| "reserves r rows (Reconfigure sv) = (sv = ''kea'')"
| "reserves r rows _ = False"

fun writes_row :: "op_request \<Rightarrow> bool" where
  "writes_row (AddReservation _) = True"
| "writes_row (SetReservation _ _) = True"
| "writes_row _ = False"

definition saved_applied :: "(op_request, op_reply) request_log \<Rightarrow> bool" where
  "saved_applied log = (\<exists>q pre. log = pre @ [(q, Inr (OpResult ''saved'')), (Reconfigure ''kea'', Inr (OpStatus ''ok''))] \<and> writes_row q)"

lemma put_reservation_logs:
  assumes "own = None \<or> (\<exists>row \<in> set rows. own = Some row \<and> rr_Description row = rv_Description r)"
  shows "logs (\<lambda>res ext. each_request (reserves r rows) ext \<and> (res = None \<longrightarrow> saved_applied ext)) (put_reservation srv r own)"
proof -
  have sub: "logs (\<lambda>u ext. each_request (reserves r rows) ext) (subnetUUID srv (rv_Subnet r))"
    unfolding subnetUUID_def andthen_def
    by (rule logs_bind_mono[OF read_rows_logs], elim exE conjE) (auto intro!: logs_ret split: sum.split)
  have w: "logs (\<lambda>res e. each_request (reserves r rows) (pre @ e) \<and> (res = None \<longrightarrow> saved_applied (pre @ e)))
      (unless (op_write srv q [''saved'']) (reconfigure srv ''kea''))" if q: "reserves r rows q" "writes_row q" "each_request (reserves r rows) pre" for q pre
  proof (rule logs_unless_mono[OF op_write_logs])
    show "logs (\<lambda>res e. each_request (reserves r rows) (pre @ ext @ e) \<and> (res = None \<longrightarrow> saved_applied (pre @ ext @ e))) (reconfigure srv ''kea'')"
      if "\<exists>a. ext = [(q, a)] \<and> ((None :: op_failure option) = None \<longrightarrow> (\<exists>res. a = Inr (OpResult res) \<and> res \<in> set [''saved'']))" for ext
      using that q by (intro logs_mono[OF reconfigure_logs]) (auto simp: saved_applied_def)
  qed (use q in auto)
  show ?thesis
    unfolding put_reservation_def
  proof (rule logs_bind_mono[OF sub])
    fix u :: "op_failure + string" and pre :: "(op_request, op_reply) request_log"
    assume pre: "each_request (reserves r rows) pre"
    show "logs (\<lambda>res e. each_request (reserves r rows) (pre @ e) \<and> (res = None \<longrightarrow> saved_applied (pre @ e)))
      (case u of Inl e \<Rightarrow> ret (Some e) | Inr uuid \<Rightarrow>
        let q = (case own of None \<Rightarrow> AddReservation (reservation_body r uuid) | Some row \<Rightarrow> SetReservation (rr_UUID row) (reservation_body r uuid)) in
        unless (op_write srv q [''saved'']) (reconfigure srv ''kea''))"
      using assms by (cases u) (auto intro!: logs_ret w[OF _ _ pre] simp: Let_def pre simp del: each_request_simps(3))
  qed
qed

text \<open>Another row of the subnet that holds the address or the MAC.\<close>

definition conflicts :: "prefix \<Rightarrow> Reservation \<Rightarrow> reservationRow \<Rightarrow> bool" where
  "conflicts p r row = (rr_Description row \<noteq> rv_Description r \<and> on_subnet p row \<and>
     (rr_IPAddress row = rv_Address r \<or> EqualFold (rr_HWAddress row) (rv_MAC r)))"

definition reservation_run :: "Reservation \<Rightarrow> prefix \<Rightarrow> op_failure option \<Rightarrow> (op_request, op_reply) request_log \<Rightarrow> bool" where
  "reservation_run r p res log =
     (\<exists>a rest. log = (SearchReservation, a) # rest \<and>
        (case a of
           Inr (OpReservations rows) \<Rightarrow>
             each_request (reserves r rows) rest \<and>
             (list_ex (conflicts p r) rows \<longrightarrow> rest = [] \<and> (\<exists>x y. res = Some (AddressConflict x y))) \<and>
             (res = None \<longrightarrow> saved_applied rest \<or>
                rest = [] \<and> (\<exists>row \<in> set rows. rr_Description row = rv_Description r \<and> in_place r (Some row)))
         | _ \<Rightarrow> rest = [] \<and> res \<noteq> None))"

lemma reservations_read: "as_reservations rep = Some (Some rows) \<longleftrightarrow> rep = OpReservations rows"
  by (cases rep) (auto simp: as_reservations_def)

lemma scan_conflict_iff: "list_ex (conflicts p r) rows \<Longrightarrow> \<exists>x y. scan_rows p r own rows = Inl (AddressConflict x y)"
  using scan_rows_conflict by (fastforce simp: list_ex_iff conflicts_def)

lemma scanned_logs:
  "logs (\<lambda>res e. reservation_run r p res ((SearchReservation, Inr (OpReservations rows)) # e))
     (case scan_rows p r None rows of Inl e \<Rightarrow> ret (Some e) | Inr own \<Rightarrow> if in_place r own then ret None else put_reservation srv r own)"
proof (cases "scan_rows p r None rows")
  case (Inl e)
  then show ?thesis
    using scan_conflict_iff[of p r rows None] by (auto intro!: logs_ret simp: reservation_run_def)
next
  case (Inr own)
  then have clear: "\<not> list_ex (conflicts p r) rows" using scan_conflict_iff[of p r rows None] by auto
  have own: "own = None \<or> (\<exists>row \<in> set rows. own = Some row \<and> rr_Description row = rv_Description r)"
    using scan_rows_own[of p r None rows] Inr by (cases own) auto
  show ?thesis
  proof (cases "in_place r own")
    case True
    then have "\<exists>row \<in> set rows. rr_Description row = rv_Description r \<and> in_place r (Some row)"
      using own by (auto simp: in_place_def)
    then show ?thesis using True Inr clear by (auto intro!: logs_ret simp: reservation_run_def)
  next
    case False
    then show ?thesis
      unfolding Inr using clear by (auto intro!: logs_mono[OF put_reservation_logs[OF own]] simp: reservation_run_def)
  qed
qed

lemma reservation_logs:
  assumes "ParsePrefix (rv_Subnet r) = Some p"
  shows "logs (reservation_run r p) (EnsureReservation srv r)"
  unfolding EnsureReservation_def assms option.case
proof (rule logs_bind_mono[OF read_rows_logs], elim exE conjE)
  fix rr :: "op_failure + reservationRow list" and ext and a :: "http_error + op_reply"
  assume ext: "ext = [(SearchReservation, a)]" and rr: "\<forall>rows. rr = Inr rows \<longleftrightarrow> (\<exists>rep. a = Inr rep \<and> as_reservations rep = Some (Some rows))"
  show "logs (\<lambda>res e. reservation_run r p res (ext @ e)) (case rr of Inl e \<Rightarrow> ret (Some e) | Inr rows \<Rightarrow>
      (case scan_rows p r None rows of Inl e \<Rightarrow> ret (Some e) | Inr own \<Rightarrow> if in_place r own then ret None else put_reservation srv r own))"
  proof (cases rr)
    case (Inr rows)
    with rr have "a = Inr (OpReservations rows)" by (auto simp: reservations_read)
    then show ?thesis unfolding Inr sum.case ext using scanned_logs by simp
  next
    case (Inl e)
    with rr have "a \<noteq> Inr (OpReservations rows)" for rows by (auto simp: reservations_read)
    then show ?thesis
      unfolding Inl sum.case ext by (auto intro!: logs_ret simp: reservation_run_def split: sum.splits op_reply.splits)
  qed
qed

text \<open>C21. A reservation takes nothing from another writer of the DHCP server's table, whatever the router answers: where a row of
  another description on the subnet holds the address or the MAC, nothing is written and the conflict is reported;
  otherwise the client writes the reservation it was given, into the row of its own description or a new one. It succeeds
  only when that row is in place already, or was saved and then applied.\<close>

theorem reservation_never_steals:
  "case run_state (EnsureReservation srv r) (conn_start s) of (res, w) \<Rightarrow>
     (case ParsePrefix (rv_Subnet r) of
        None \<Rightarrow> res = Some (BadSubnet (rv_Subnet r)) \<and> cn_log w = []
      | Some p \<Rightarrow> reservation_run r p res (cn_log w))"
proof (cases "ParsePrefix (rv_Subnet r)")
  case None
  then show ?thesis by (simp add: EnsureReservation_def conn_start_def)
next
  case (Some p)
  then show ?thesis using logs_from_start[OF reservation_logs[OF Some, of srv], of s] by (simp split: prod.split)
qed

section \<open>Devices kept apart\<close>

lemma reservationDescription_inj:
  "CHR ''/'' \<notin> set a \<Longrightarrow> CHR ''/'' \<notin> set b \<Longrightarrow> reservationDescription a x = reservationDescription b y \<longleftrightarrow> a = b \<and> x = y"
  using append_sep_inj[of "CHR ''/''" a b x y] by (simp add: reservationDescription_def)

lemma remove_reservations_logs:
  "logs (\<lambda>r ext. each_request (\<lambda>q. q = Reconfigure ''kea'' \<or> (\<exists>row \<in> set rows. rr_Description row = d \<and> q = DelReservation (rr_UUID row))) ext)
     (remove_reservations srv d changed rows)"
proof (induction rows arbitrary: changed)
  case Nil
  then show ?case by (auto intro!: logs_ret logs_mono[OF reconfigure_logs])
next
  case (Cons row rows)
  have go: "logs (\<lambda>r ext. each_request (\<lambda>q. q = Reconfigure ''kea'' \<or> (\<exists>x \<in> set (row # rows). rr_Description x = d \<and> q = DelReservation (rr_UUID x))) ext)
      (remove_reservations srv d c rows)" for c
    by (rule logs_mono[OF Cons]) (erule each_request_mono, auto)
  show ?case
  proof (cases "rr_Description row = d")
    case True
    have "remove_reservations srv d changed (row # rows) =
        unless (op_write srv (DelReservation (rr_UUID row)) [''deleted'', ''not found'']) (remove_reservations srv d True rows)"
      using True by simp
    moreover have "logs (\<lambda>r ext. each_request (\<lambda>q. q = Reconfigure ''kea'' \<or> (\<exists>x \<in> set (row # rows). rr_Description x = d \<and> q = DelReservation (rr_UUID x))) (pre @ ext))
        (remove_reservations srv d True rows)" if "\<exists>a. pre = [(DelReservation (rr_UUID row), a)]" for pre
      using that by (intro logs_mono[OF go]) (auto simp: True)
    ultimately show ?thesis
      by (simp only:) (rule logs_unless_mono[OF op_write_logs], auto simp: True)
  qed (use Cons in simp)
qed

text \<open>The requests on rows of the table, by uuid.\<close>

fun touches_row :: "string \<Rightarrow> op_request \<Rightarrow> bool" where
  "touches_row u (SetReservation i _) = (i = u)"
| "touches_row u (DelReservation i) = (i = u)"
| "touches_row u _ = False"

lemma reserves_own_row: "reserves r rows q \<Longrightarrow> touches_row u q \<Longrightarrow> \<exists>row \<in> set rows. rr_UUID row = u \<and> rr_Description row = rv_Description r"
  by (cases q) auto

lemma remove_logs:
  "logs (\<lambda>r ext. \<exists>a rest. ext = (SearchReservation, a) # rest \<and> (case a of
       Inr (OpReservations rows) \<Rightarrow> each_request (\<lambda>q. q = Reconfigure ''kea'' \<or> (\<exists>row \<in> set rows. rr_Description row = d \<and> q = DelReservation (rr_UUID row))) rest
     | _ \<Rightarrow> rest = [])) (RemoveReservation srv d)"
  unfolding RemoveReservation_def
proof (rule logs_bind_mono[OF read_rows_logs], elim exE conjE)
  fix rr :: "op_failure + reservationRow list" and ext and a :: "http_error + op_reply"
  assume ext: "ext = [(SearchReservation, a)]" and rr: "\<forall>rows. rr = Inr rows \<longleftrightarrow> (\<exists>rep. a = Inr rep \<and> as_reservations rep = Some (Some rows))"
  show "logs (\<lambda>r e. \<exists>a rest. ext @ e = (SearchReservation, a) # rest \<and> (case a of
       Inr (OpReservations rows) \<Rightarrow> each_request (\<lambda>q. q = Reconfigure ''kea'' \<or> (\<exists>row \<in> set rows. rr_Description row = d \<and> q = DelReservation (rr_UUID row))) rest
     | _ \<Rightarrow> rest = [])) (case rr of Inl e \<Rightarrow> ret (Some e) | Inr rows \<Rightarrow> remove_reservations srv d False rows)"
  proof (cases rr)
    case (Inr rows)
    with rr have "a = Inr (OpReservations rows)" by (auto simp: reservations_read)
    then show ?thesis unfolding Inr sum.case ext by (intro logs_mono[OF remove_reservations_logs]) auto
  next
    case (Inl e)
    with rr have "a \<noteq> Inr (OpReservations rows)" for rows by (auto simp: reservations_read)
    then show ?thesis
      unfolding Inl sum.case ext by (auto intro!: logs_ret split: sum.splits op_reply.splits)
  qed
qed

text \<open>Devices do not reach each other's reservations: neither setting nor removing the reservation of one device touches a row
  that another device's reservation is kept in, be it of another tenant, as long as the router's row ids are unique.\<close>

lemma reservations_kept_apart:
  assumes "ValidName (da_Tenant a)" "ValidName (da_Tenant b)" "(da_Tenant a, da_Device a) \<noteq> (da_Tenant b, da_Device b)"
    and "distinct (map rr_UUID rows)" "row \<in> set rows" "rr_Description row = reservationDescription (da_Tenant b) (da_Device b)"
    and "m \<in> {EnsureReservation srv (reservation S a), RemoveReservation srv (reservationDescription (da_Tenant a) (da_Device a))}"
  shows "case run_state m (conn_start s) of (res, w) \<Rightarrow>
    (SearchReservation, Inr (OpReservations rows)) \<in> set (take 1 (cn_log w)) \<longrightarrow> each_request (\<lambda>q. \<not> touches_row (rr_UUID row) q) (cn_log w)"
proof -
  let ?d = "reservationDescription (da_Tenant a) (da_Device a)"
  have other: "rr_Description row \<noteq> ?d"
    using assms(1-3,6) reservationDescription_inj[of "da_Tenant b" "da_Tenant a"] ValidName_no_dot by auto
  have mine: "rr_UUID x \<noteq> rr_UUID row" if "x \<in> set rows" "rr_Description x = ?d" for x
    using that other assms(4,5) by (metis distinct_map inj_onD)
  have d: "rv_Description (reservation S a) = ?d" by (simp add: reservation_def)
  have clear: "each_request (\<lambda>q. \<not> touches_row (rr_UUID row) q) rest"
    if "each_request (reserves (reservation S a) rows) rest \<or>
      each_request (\<lambda>q. q = Reconfigure ''kea'' \<or> (\<exists>row \<in> set rows. rr_Description row = ?d \<and> q = DelReservation (rr_UUID row))) rest"
    for rest :: "(op_request, op_reply) request_log"
    using that mine d by (auto elim!: each_request_mono dest: reserves_own_row)
  obtain res w where run: "run_state m (conn_start s) = (res, w)" by fastforce
  have "each_request (\<lambda>q. \<not> touches_row (rr_UUID row) q) (cn_log w)"
    if "(SearchReservation, Inr (OpReservations rows)) \<in> set (take 1 (cn_log w))"
  proof -
    from that obtain rest where log: "cn_log w = (SearchReservation, Inr (OpReservations rows)) # rest" by (cases "cn_log w") auto
    consider "m = EnsureReservation srv (reservation S a)" | "m = RemoveReservation srv ?d" using assms(7) by blast
    then show ?thesis
    proof cases
      case 1
      then obtain p where "ParsePrefix (rv_Subnet (reservation S a)) = Some p"
        using run log by (cases "ParsePrefix (rv_Subnet (reservation S a))") (auto simp: EnsureReservation_def conn_start_def)
      from logs_from_start[OF reservation_logs[OF this] run[unfolded 1]] show ?thesis
        using clear[of rest] by (simp add: log reservation_run_def)
    next
      case 2
      from logs_from_start[OF remove_logs run[unfolded 2]] show ?thesis using clear[of rest] by (simp add: log)
    qed
  qed
  then show ?thesis using run by simp
qed

end
