(* ===== verification/OpenBao.thy ===== *)
theory OpenBao
  imports Client LogContract Tokens
begin

text \<open>
  \<^verbatim>\<open>internal/openbao\<close>: the client of the secret store. It keeps an AppRole token, logs in when it has none or the one
  it has is about to lapse, and logs in once more when a token is refused. On top of that are the sealing of tenant
  secrets with Transit under a current and a previous key, the single-use enrollment tokens, and the Tenant Service CA.

  OpenBao is a parameter: it answers a request made with a token, takes some time and moves to a next state.
  \<open>transit\<close> is what the code relies on of its Transit engine, and is a hypothesis of the theorems that need it. The
  decoded body is part of the answer, as \<^verbatim>\<open>encoding/json\<close> reads it from at most 1 MiB; a field it does not have is zero.
\<close>

section \<open>Configuration\<close>

record bao_config =
  bo_Addr :: string
  bo_RoleID :: string
  bo_SecretID :: string
  bo_KVMount :: string
  bo_TransitKey :: string
  bo_TransitKeyPrevious :: string
  bo_ServiceMount :: string
  bo_ServiceRole :: string

text \<open>\<^verbatim>\<open>New\<close> refuses a configuration that lacks one of these.\<close>

definition config_complete :: "bao_config \<Rightarrow> bool" where
  "config_complete c =
     (\<not> (bo_Addr c = [] \<or> bo_RoleID c = [] \<or> bo_SecretID c = [] \<or> bo_KVMount c = [] \<or> bo_TransitKey c = []))"

section \<open>Requests and answers\<close>

datatype bao_request =
    PostLogin string string
  | GetKVData string string
  | PostEncrypt string string
  | PostDecrypt string string
  | PostWrap "(string \<times> string) list" int
  | PostUnwrap
  | PostSign string string string string "string option"
  | GetHealth

datatype json_value = JString string | JOther

record bao_body =
  bb_client_token :: string
  bb_lease_duration :: int
  bb_kv :: "(string \<times> json_value) list"
  bb_ciphertext :: string
  bb_plaintext :: string
  bb_wrap_token :: string
  bb_wrap_creation :: int
  bb_wrap_ttl :: int
  bb_certificate :: string
  bb_issuing_ca :: string
  bb_ca_chain :: "string list"

definition zero_body :: bao_body where
  "zero_body = \<lparr>bb_client_token = [], bb_lease_duration = 0, bb_kv = [], bb_ciphertext = [], bb_plaintext = [],
     bb_wrap_token = [], bb_wrap_creation = 0, bb_wrap_ttl = 0, bb_certificate = [], bb_issuing_ca = [], bb_ca_chain = []\<rparr>"

text \<open>
  The request could not be made or its caller gave up (\<open>NotSent\<close>), no answer came (\<open>NoAnswer\<close>), or an answer with its
  status, its text and what the text decodes to.
\<close>

datatype bao_answer = NotSent string | NoAnswer string | Answered int string "bao_body option"

type_synonym 's bao_server = "string \<Rightarrow> bao_request \<Rightarrow> 's \<Rightarrow> bao_answer \<times> nat \<times> 's"

section \<open>Errors\<close>

datatype bao_error =
    Forbidden | StatusError int string | Unavailable string | CallerGone string | NotDecoded | BaoFailed string
  | During string bao_error

fun unavailable :: "bao_error \<Rightarrow> bool" where
  "unavailable (Unavailable _) = True"
| "unavailable (StatusError code _) = (code \<ge> 500)"
| "unavailable (During _ e) = unavailable e"
| "unavailable _ = False"

fun is_forbidden :: "bao_error \<Rightarrow> bool" where
  "is_forbidden Forbidden = True"
| "is_forbidden (During _ e) = is_forbidden e"
| "is_forbidden _ = False"

fun bad_request :: "bao_error \<Rightarrow> bool" where
  "bad_request (StatusError code _) = (code = 400)"
| "bad_request (During _ e) = bad_request e"
| "bad_request _ = False"

section \<open>One call\<close>

record 's bao =
  ob_server :: 's
  ob_now :: int
  ob_token :: string
  ob_expiry :: int
  ob_log :: "(string \<times> bao_request \<times> bao_answer) list"

type_synonym ('s, 'a) bao_io = "('s bao, 'a) state"

definition bao_send :: "'s bao_server \<Rightarrow> string \<Rightarrow> bao_request \<Rightarrow> ('s, bao_answer) bao_io" where
  "bao_send srv tok q = State (\<lambda>w. case srv tok q (ob_server w) of (a, d, s) \<Rightarrow>
     (a, w\<lparr>ob_server := s, ob_now := ob_now w + int d, ob_log := ob_log w @ [(tok, q, a)]\<rparr>))"

definition read_answer :: "bao_answer \<Rightarrow> bao_error + bao_body" where
  "read_answer a =
     (case a of
        NotSent m \<Rightarrow> Inl (CallerGone m)
      | NoAnswer m \<Rightarrow> Inl (Unavailable m)
      | Answered code raw body \<Rightarrow>
          if code = 403 then Inl Forbidden
          else if code \<ge> 300 then
            (let s = TrimSpace raw in Inl (StatusError code (if length s > 200 then take 200 s @ ''...'' else s)))
          else if length raw > 0 then (case body of None \<Rightarrow> Inl NotDecoded | Some b \<Rightarrow> Inr b)
          else Inr zero_body)"

definition bao_call :: "'s bao_server \<Rightarrow> string \<Rightarrow> bao_request \<Rightarrow> ('s, bao_error + bao_body) bao_io" where
  "bao_call srv tok q = do { a \<leftarrow> bao_send srv tok q; ret (read_answer a) }"

definition during :: "string \<Rightarrow> ('s, bao_error + 'a) bao_io \<Rightarrow> ('s, bao_error + 'a) bao_io" where
  "during msg m = do { r \<leftarrow> m; ret (case r of Inl e \<Rightarrow> Inl (During msg e) | Inr x \<Rightarrow> Inr x) }"

section \<open>Logging in\<close>

definition minute :: int where "minute = 60 * 1000000000"

definition cached_token :: "'s bao \<Rightarrow> string option" where
  "cached_token w = (if ob_token w \<noteq> [] \<and> ob_now w < ob_expiry w - minute then Some (ob_token w) else None)"

definition keep_token :: "bao_body \<Rightarrow> ('s, bao_error + string) bao_io" where
  "keep_token b = State (\<lambda>w.
     (Inr (bb_client_token b),
      w\<lparr>ob_token := bb_client_token b, ob_expiry := ob_now w + int64 (bb_lease_duration b * 1000000000)\<rparr>))"

definition login :: "bao_config \<Rightarrow> 's bao_server \<Rightarrow> ('s, bao_error + string) bao_io" where
  "login cfg srv =
     do {
       cached \<leftarrow> State (\<lambda>w. (cached_token w, w));
       (case cached of Some tok \<Rightarrow> ret (Inr tok)
        | None \<Rightarrow>
            andthen (during ''openbao: AppRole login'' (bao_call srv [] (PostLogin (bo_RoleID cfg) (bo_SecretID cfg)))) (\<lambda>b.
              if bb_client_token b = [] then ret (Inl (BaoFailed ''openbao: AppRole login returned no token''))
              else keep_token b))
     }"

definition bao_forget :: "('s, unit) bao_io" where
  "bao_forget = State (\<lambda>w. ((), w\<lparr>ob_token := []\<rparr>))"

text \<open>The attempts that are left; the first of two forgets a token that is refused and goes round again.\<close>

fun do_attempts :: "nat \<Rightarrow> bao_config \<Rightarrow> 's bao_server \<Rightarrow> bao_request \<Rightarrow> ('s, bao_error + bao_body) bao_io" where
  "do_attempts 0 cfg srv q = ret (Inl Forbidden)"
| "do_attempts (Suc n) cfg srv q =
     andthen (login cfg srv) (\<lambda>tok.
       do {
         r \<leftarrow> bao_call srv tok q;
         (if r = Inl Forbidden \<and> n = 1 then do { _ \<leftarrow> bao_forget; do_attempts n cfg srv q } else ret r)
       })"

definition bao_do :: "bao_config \<Rightarrow> 's bao_server \<Rightarrow> bao_request \<Rightarrow> ('s, bao_error + bao_body) bao_io" where
  "bao_do cfg srv q = do_attempts 2 cfg srv q"

section \<open>Secrets at rest and in KV\<close>

definition string_fields :: "(string \<times> json_value) list \<Rightarrow> (string \<times> string) list" where
  "string_fields kvs = concat (map (\<lambda>(k, v). case v of JString s \<Rightarrow> [(k, s)] | JOther \<Rightarrow> []) kvs)"

definition ReadKV :: "bao_config \<Rightarrow> 's bao_server \<Rightarrow> string \<Rightarrow> ('s, bao_error + (string \<times> string) list) bao_io" where
  "ReadKV cfg srv path =
     andthen (during (''openbao: KV '' @ path) (bao_do cfg srv (GetKVData (bo_KVMount cfg) path)))
       (\<lambda>b. ret (Inr (string_fields (bb_kv b))))"

definition CiphertextPrefix :: string where "CiphertextPrefix = ''vault:v''"

definition bao_Seal :: "bao_config \<Rightarrow> 's bao_server \<Rightarrow> string \<Rightarrow> ('s, bao_error + string) bao_io" where
  "bao_Seal cfg srv plaintext =
     andthen (during ''openbao: encrypt'' (bao_do cfg srv (PostEncrypt (bo_TransitKey cfg) (StdEncoding_EncodeToString plaintext))))
       (\<lambda>b. ret (Inr (bb_ciphertext b)))"

definition bao_decrypt :: "bao_config \<Rightarrow> 's bao_server \<Rightarrow> string \<Rightarrow> string \<Rightarrow> ('s, bao_error + string) bao_io" where
  "bao_decrypt cfg srv key stored =
     andthen (during ''openbao: decrypt'' (bao_do cfg srv (PostDecrypt key stored))) (\<lambda>b.
       ret (case StdEncoding_DecodeString (bb_plaintext b) of
              None \<Rightarrow> Inl (During ''openbao: decrypt'' (BaoFailed ''illegal base64 data'')) | Some raw \<Rightarrow> Inr raw))"

definition bao_open :: "bao_config \<Rightarrow> 's bao_server \<Rightarrow> string \<Rightarrow> ('s, bao_error + string \<times> bool) bao_io" where
  "bao_open cfg srv stored =
     (if \<not> HasPrefix stored CiphertextPrefix then ret (Inr (stored, False))
      else do {
        r \<leftarrow> bao_decrypt cfg srv (bo_TransitKey cfg) stored;
        (case r of Inr out \<Rightarrow> ret (Inr (out, False))
         | Inl e \<Rightarrow>
             if bo_TransitKeyPrevious cfg = [] \<or> unavailable e then ret (Inl e)
             else do {
               p \<leftarrow> bao_decrypt cfg srv (bo_TransitKeyPrevious cfg) stored;
               ret (case p of Inr prev \<Rightarrow> Inr (prev, True) | Inl _ \<Rightarrow> Inl e)
             })
      })"

definition bao_Open :: "bao_config \<Rightarrow> 's bao_server \<Rightarrow> string \<Rightarrow> ('s, bao_error + string) bao_io" where
  "bao_Open cfg srv stored = andthen (bao_open cfg srv stored) (\<lambda>(out, _). ret (Inr out))"

definition reseal_opened :: "bao_config \<Rightarrow> 's bao_server \<Rightarrow> string \<Rightarrow> ('s, bao_error + string \<times> bool) bao_io" where
  "reseal_opened cfg srv stored =
     andthen (bao_open cfg srv stored) (\<lambda>(plain, _).
       andthen (bao_Seal cfg srv plain) (\<lambda>sealed. ret (Inr (sealed, True))))"

definition bao_Reseal :: "bao_config \<Rightarrow> 's bao_server \<Rightarrow> string \<Rightarrow> ('s, bao_error + string \<times> bool) bao_io" where
  "bao_Reseal cfg srv stored =
     (if stored = [] then ret (Inr (stored, False))
      else if HasPrefix stored CiphertextPrefix then do {
        r \<leftarrow> bao_decrypt cfg srv (bo_TransitKey cfg) stored;
        (case r of Inr _ \<Rightarrow> ret (Inr (stored, False))
         | Inl e \<Rightarrow> if unavailable e then ret (Inl e) else reseal_opened cfg srv stored)
      }
      else reseal_opened cfg srv stored)"

section \<open>Enrollment tokens\<close>

definition seconds :: "int \<Rightarrow> int" where
  "seconds ttl = (if ttl \<ge> 0 then ttl div 1000000000 else - (- ttl div 1000000000))"

definition bao_Wrap :: "bao_config \<Rightarrow> 's bao_server \<Rightarrow> (string \<times> string) list \<Rightarrow> int \<Rightarrow> ('s, bao_error + string \<times> int) bao_io" where
  "bao_Wrap cfg srv data ttl =
     andthen (login cfg srv) (\<lambda>tok.
       andthen (during ''openbao: wrap'' (bao_call srv tok (PostWrap data (seconds ttl)))) (\<lambda>b.
         if bb_wrap_token b = [] then ret (Inl (BaoFailed ''openbao: wrap returned no token''))
         else ret (Inr (bb_wrap_token b, bb_wrap_creation b + int64 (bb_wrap_ttl b * 1000000000)))))"

datatype unwrap_error = NotRedeemable | UnwrapFailed bao_error

definition bao_Unwrap :: "'s bao_server \<Rightarrow> string \<Rightarrow> ('s, unwrap_error + (string \<times> string) list) bao_io" where
  "bao_Unwrap srv wrappingToken =
     do {
       r \<leftarrow> bao_call srv wrappingToken PostUnwrap;
       ret (case r of
              Inl e \<Rightarrow> Inl (if is_forbidden e \<or> bad_request e then NotRedeemable else UnwrapFailed (During ''openbao: unwrap'' e))
            | Inr b \<Rightarrow> Inr (string_fields (bb_kv b)))
     }"

section \<open>Certificates and health\<close>

definition SignServer :: "bao_config \<Rightarrow> 's bao_server \<Rightarrow> string \<Rightarrow> string list \<Rightarrow> ('s, bao_error + SignedCertificate) bao_io" where
  "SignServer cfg srv csrPEM names =
     (if bo_ServiceMount cfg = [] \<or> bo_ServiceRole cfg = [] then
        ret (Inl (BaoFailed ''openbao: no Tenant Service CA is configured''))
      else (case names of [] \<Rightarrow> ret (Inl (BaoFailed ''openbao: a certificate needs a name''))
       | cn # alts \<Rightarrow>
           andthen (during ''openbao: sign'' (bao_do cfg srv
             (PostSign (bo_ServiceMount cfg) (bo_ServiceRole cfg) csrPEM cn (if alts \<noteq> [] then Some (Join alts '','') else None)))) (\<lambda>b.
             if bb_certificate b = [] then ret (Inl (BaoFailed ''openbao: sign returned no certificate''))
             else ret (Inr \<lparr>sg_Certificate = bb_certificate b,
               sg_Chain = (if bb_ca_chain b = [] \<and> bb_issuing_ca b \<noteq> [] then [bb_issuing_ca b] else bb_ca_chain b)\<rparr>))))"

definition Health :: "'s bao_server \<Rightarrow> ('s, string) bao_io" where
  "Health srv =
     do {
       a \<leftarrow> bao_send srv [] GetHealth;
       ret (case a of
              Answered code _ _ \<Rightarrow>
                if code = 200 then ''ok'' else if code = 503 then ''sealed'' else if code = 501 then ''uninitialized'' else ''unreachable''
            | _ \<Rightarrow> ''unreachable'')
     }"

section \<open>Weakest preconditions\<close>

lemma wp_bao_send [wp_simps]:
  "wp (bao_send srv tok q) Q w = (case srv tok q (ob_server w) of (a, d, s) \<Rightarrow>
     Q a (w\<lparr>ob_server := s, ob_now := ob_now w + int d, ob_log := ob_log w @ [(tok, q, a)]\<rparr>))"
  by (simp add: bao_send_def wp_State case_prod_beta split: prod.split)

lemma wp_bao_call [wp_simps]: "wp (bao_call srv tok q) Q = wp (bao_send srv tok q) (\<lambda>a. Q (read_answer a))"
  by (simp add: bao_call_def wp_bind wp_return)

lemma wp_during [wp_simps]:
  "wp (during msg m) Q = wp m (\<lambda>r. Q (case r of Inl e \<Rightarrow> Inl (During msg e) | Inr x \<Rightarrow> Inr x))"
  by (simp add: during_def wp_bind wp_return)

text \<open>An answer of \<open>bao_do\<close> is an answer to that request, and one of a call that logs in beforehand is read as it came.\<close>

definition bao_answers :: "'s bao_server \<Rightarrow> bao_request \<Rightarrow> bao_body \<Rightarrow> bool" where
  "bao_answers srv q b = (\<exists>tok s. read_answer (fst (srv tok q s)) = Inr b)"

lemma call_answers: "wp (bao_call srv tok q) (\<lambda>r _. \<forall>b. r = Inr b \<longrightarrow> bao_answers srv q b) w"
  by (auto simp: wp_simps bao_answers_def split: prod.split) (metis fst_conv)

lemma wp_andthenI:
  "wp m (\<lambda>r w'. (\<forall>e. r = Inl e \<longrightarrow> Q (Inl e) w') \<and> (\<forall>x. r = Inr x \<longrightarrow> wp (k x) Q w')) w \<Longrightarrow> wp (andthen m k) Q w"
  unfolding wp_andthen by (erule wp_mono) (auto split: sum.split)

lemma wp_True: "(\<And>r w'. Q r w') \<Longrightarrow> wp m Q w"
  by (simp add: wp_def case_prod_beta)

lemma attempts_answer: "wp (do_attempts n cfg srv q) (\<lambda>r _. \<forall>b. r = Inr b \<longrightarrow> bao_answers srv q b) w"
proof (induction n arbitrary: w)
  case 0
  then show ?case by (simp add: wp_return)
next
  case (Suc n)
  have again: "wp (do { _ \<leftarrow> bao_forget; do_attempts n cfg srv q }) (\<lambda>r _. \<forall>b. r = Inr b \<longrightarrow> bao_answers srv q b) w'" for w'
    by (simp add: wp_bind bao_forget_def wp_State Suc.IH)
  have "wp (do { r \<leftarrow> bao_call srv tok q;
                 if r = Inl Forbidden \<and> n = 1 then do { _ \<leftarrow> bao_forget; do_attempts n cfg srv q } else ret r })
            (\<lambda>r _. \<forall>b. r = Inr b \<longrightarrow> bao_answers srv q b) w'" for tok w'
    unfolding wp_bind by (rule wp_mono[OF call_answers]) (use again in \<open>auto simp: wp_bind wp_return\<close>)
  then show ?case
    unfolding do_attempts.simps by (intro wp_andthenI wp_True) auto
qed

lemma do_answers: "run_state (bao_do cfg srv q) w = (Inr b, w') \<Longrightarrow> bao_answers srv q b"
  using wp_run[OF _ attempts_answer[of 2 cfg srv q w]] by (simp add: bao_do_def)

section \<open>Sealing and opening\<close>

text \<open>
  What the code relies on of Transit: \<open>D key c\<close> is the plaintext that \<open>c\<close> holds under \<open>key\<close>. A ciphertext OpenBao
  hands out holds what was sent, and a decryption it answers gives what the ciphertext holds.
\<close>

definition transit :: "'s bao_server \<Rightarrow> (string \<Rightarrow> string \<rightharpoonup> string) \<Rightarrow> bool" where
  "transit srv D =
     ((\<forall>k p b. bao_answers srv (PostEncrypt k (StdEncoding_EncodeToString p)) b \<longrightarrow>
         HasPrefix (bb_ciphertext b) CiphertextPrefix \<and> D k (bb_ciphertext b) = Some p) \<and>
      (\<forall>k c b. bao_answers srv (PostDecrypt k c) b \<longrightarrow>
         (\<exists>p. D k c = Some p \<and> bb_plaintext b = StdEncoding_EncodeToString p)))"

text \<open>A ciphertext that both keys open holds one plaintext: it is authenticated, so it opens under the key it was made with.\<close>

definition keys_agree :: "bao_config \<Rightarrow> (string \<Rightarrow> string \<rightharpoonup> string) \<Rightarrow> bool" where
  "keys_agree cfg D = (\<forall>c p p'. D (bo_TransitKey cfg) c = Some p \<longrightarrow> D (bo_TransitKeyPrevious cfg) c = Some p' \<longrightarrow> p = p')"

text \<open>The secret a stored value stands for, and whether it is sealed under the current key.\<close>

definition plain :: "bao_config \<Rightarrow> (string \<Rightarrow> string \<rightharpoonup> string) \<Rightarrow> string \<Rightarrow> string option" where
  "plain cfg D stored =
     (if \<not> HasPrefix stored CiphertextPrefix then Some stored
      else (case D (bo_TransitKey cfg) stored of Some p \<Rightarrow> Some p
            | None \<Rightarrow> if bo_TransitKeyPrevious cfg = [] then None else D (bo_TransitKeyPrevious cfg) stored))"

definition current :: "bao_config \<Rightarrow> (string \<Rightarrow> string \<rightharpoonup> string) \<Rightarrow> string \<Rightarrow> bool" where
  "current cfg D stored = (HasPrefix stored CiphertextPrefix \<and> D (bo_TransitKey cfg) stored \<noteq> None)"

lemma run_andthen_Inr:
  "run_state (andthen m k) w = (Inr y, w') \<Longrightarrow> \<exists>x w1. run_state m w = (Inr x, w1) \<and> run_state (k x) w1 = (Inr y, w')"
  by (auto simp: andthen_def split: prod.splits sum.splits)

lemma run_during_Inr: "run_state (during msg m) w = (Inr x, w') \<Longrightarrow> run_state m w = (Inr x, w')"
  by (auto simp: during_def split: prod.splits sum.splits)

lemma Seal_sound:
  assumes "transit srv D" "run_state (bao_Seal cfg srv p) w = (Inr c, w')"
  shows "HasPrefix c CiphertextPrefix" "D (bo_TransitKey cfg) c = Some p"
proof -
  obtain b where "bao_answers srv (PostEncrypt (bo_TransitKey cfg) (StdEncoding_EncodeToString p)) b" "c = bb_ciphertext b"
    using assms(2) unfolding bao_Seal_def
    by (fastforce dest!: run_andthen_Inr run_during_Inr do_answers)
  then show "HasPrefix c CiphertextPrefix" "D (bo_TransitKey cfg) c = Some p"
    using assms(1) by (simp_all add: transit_def)
qed

lemma decrypt_sound:
  assumes "transit srv D" "run_state (bao_decrypt cfg srv key c) w = (Inr p, w')"
  shows "D key c = Some p"
proof -
  obtain b where "bao_answers srv (PostDecrypt key c) b" "StdEncoding_DecodeString (bb_plaintext b) = Some p"
    using assms(2) unfolding bao_decrypt_def
    by (fastforce dest!: run_andthen_Inr run_during_Inr do_answers split: option.splits)
  then show ?thesis
    using assms(1) StdEncoding_roundtrip by (fastforce simp: transit_def)
qed

lemma open_sound:
  assumes "transit srv D" "keys_agree cfg D" "run_state (bao_open cfg srv stored) w = (Inr (p, prev), w')"
  shows "plain cfg D stored = Some p"
  using assms(3) decrypt_sound[OF assms(1)] assms(2)
  by (fastforce simp: bao_open_def plain_def keys_agree_def split: if_splits prod.splits sum.splits option.splits)

lemma Open_sound:
  assumes "transit srv D" "keys_agree cfg D" "run_state (bao_Open cfg srv stored) w = (Inr p, w')"
  shows "plain cfg D stored = Some p"
  using assms(3) open_sound[OF assms(1,2)] unfolding bao_Open_def by (fastforce dest!: run_andthen_Inr)

lemma reseal_opened_sound:
  assumes "transit srv D" "keys_agree cfg D" "run_state (reseal_opened cfg srv stored) w = (Inr (c, changed), w')"
  shows "changed \<and> current cfg D c \<and> plain cfg D c = plain cfg D stored"
proof -
  obtain p prev w1 w2 where "run_state (bao_open cfg srv stored) w = (Inr (p, prev), w1)"
      "run_state (bao_Seal cfg srv p) w1 = (Inr c, w2)" "changed"
    using assms(3) unfolding reseal_opened_def by (fastforce dest!: run_andthen_Inr)
  then have "HasPrefix c CiphertextPrefix" "D (bo_TransitKey cfg) c = Some p" "plain cfg D stored = Some p"
    using Seal_sound[OF assms(1)] open_sound[OF assms(1,2)] by blast+
  with \<open>changed\<close> show ?thesis by (simp add: current_def plain_def)
qed

lemma Reseal_cases:
  assumes "run_state (bao_Reseal cfg srv stored) w = (Inr (c, changed), w')"
  obtains (kept) "c = stored" "\<not> changed" "stored = []"
  | (opens) p w1 where "c = stored" "\<not> changed" "HasPrefix stored CiphertextPrefix"
      "run_state (bao_decrypt cfg srv (bo_TransitKey cfg) stored) w = (Inr p, w1)"
  | (moved) w1 where "run_state (reseal_opened cfg srv stored) w1 = (Inr (c, changed), w')"
  using assms unfolding bao_Reseal_def by (auto split: if_splits prod.splits sum.splits)

lemma Reseal_sound:
  assumes "transit srv D" "keys_agree cfg D" "run_state (bao_Reseal cfg srv stored) w = (Inr (c, changed), w')"
  shows "plain cfg D c = plain cfg D stored \<and> (c = [] \<or> current cfg D c) \<and> (\<not> changed \<longrightarrow> c = stored)"
  using assms(3)
proof (cases rule: Reseal_cases)
  case kept
  then show ?thesis by simp
next
  case opens
  then show ?thesis using decrypt_sound[OF assms(1) opens(4)] by (simp add: current_def)
next
  case moved
  then show ?thesis using reseal_opened_sound[OF assms(1,2) moved] by simp
qed

lemma sealed_plain:
  assumes "transit srv D" "keys_agree cfg' D" "run_state (bao_Seal cfg srv p) w = (Inr c, w1)"
    and "bo_TransitKey cfg' = bo_TransitKey cfg \<or> bo_TransitKeyPrevious cfg' = bo_TransitKey cfg \<and> bo_TransitKey cfg \<noteq> []"
  shows "plain cfg' D c = Some p"
  using Seal_sound[OF assms(1,3)] assms(2,4) by (auto simp: plain_def keys_agree_def split: option.splits)

section \<open>Tokens\<close>

lemma login_run:
  "run_state (login cfg srv) w = (r, w') \<Longrightarrow>
     (\<exists>tok. cached_token w = Some tok \<and> r = Inr tok \<and> w' = w) \<or>
     (\<exists>a. cached_token w = None \<and> ob_log w' = ob_log w @ [([], PostLogin (bo_RoleID cfg) (bo_SecretID cfg), a)] \<and>
        r \<noteq> Inl Forbidden \<and> (\<forall>tok. r = Inr tok \<longrightarrow> tok \<noteq> [] \<and> (\<exists>b. read_answer a = Inr b \<and> tok = bb_client_token b)))"
  by (auto simp: login_def andthen_def during_def bao_call_def bao_send_def keep_token_def
      split: option.splits prod.splits sum.splits if_splits)

lemma cached_not_empty: "cached_token w = Some tok \<Longrightarrow> tok \<noteq> []"
  by (auto simp: cached_token_def split: if_splits)

lemma call_run: "run_state (bao_call srv tok q) w = (r, w') \<Longrightarrow> \<exists>a. ob_log w' = ob_log w @ [(tok, q, a)] \<and> r = read_answer a"
  by (auto simp: bao_call_def bao_send_def split: prod.splits)

text \<open>A request of \<open>bao_do\<close>: a login without a token, or the request itself with one.\<close>

definition do_request :: "bao_config \<Rightarrow> bao_request \<Rightarrow> string \<times> bao_request \<times> bao_answer \<Rightarrow> bool" where
  "do_request cfg q = (\<lambda>(tok, q', _). tok = [] \<and> q' = PostLogin (bo_RoleID cfg) (bo_SecretID cfg) \<or> tok \<noteq> [] \<and> q' = q)"

text \<open>The end of a run that asked for a token, was given one and saw that very token refused.\<close>

definition fresh_refused :: "bao_config \<Rightarrow> bao_request \<Rightarrow> (string \<times> bao_request \<times> bao_answer) list \<Rightarrow> bool" where
  "fresh_refused cfg q ext = (\<exists>pre a b a'.
     ext = pre @ [([], PostLogin (bo_RoleID cfg) (bo_SecretID cfg), a), (bb_client_token b, q, a')] \<and>
     read_answer a = Inr b \<and> read_answer a' = Inl Forbidden)"

definition attempt :: "bao_config \<Rightarrow> 's bao_server \<Rightarrow> bao_request \<Rightarrow> ('s, bao_error + bao_body) bao_io" where
  "attempt cfg srv q = andthen (login cfg srv) (\<lambda>tok. bao_call srv tok q)"

lemma attempt_run:
  assumes "run_state (attempt cfg srv q) w = (r, w')"
  shows "\<exists>ext. ob_log w' = ob_log w @ ext \<and> length ext \<le> 2 \<and> list_all (do_request cfg q) ext \<and>
    (r = Inl Forbidden \<longrightarrow> cached_token w = None \<longrightarrow> fresh_refused cfg q ext)"
proof -
  obtain r1 w1 where l: "run_state (login cfg srv) w = (r1, w1)" by fastforce
  show ?thesis
  proof (cases r1)
    case (Inl e)
    then show ?thesis using assms l login_run[OF l] by (fastforce simp: attempt_def andthen_def do_request_def)
  next
    case (Inr tok)
    then have "run_state (bao_call srv tok q) w1 = (r, w')" using assms l by (simp add: attempt_def andthen_def)
    then obtain a where a: "ob_log w' = ob_log w1 @ [(tok, q, a)]" "r = read_answer a" using call_run by blast
    from login_run[OF l] show ?thesis
    proof (elim disjE exE conjE)
      fix tok' assume "cached_token w = Some tok'" "r1 = Inr tok'" "w1 = w"
      then show ?thesis using a Inr cached_not_empty by (fastforce simp: do_request_def)
    next
      fix a' assume f: "ob_log w1 = ob_log w @ [([], PostLogin (bo_RoleID cfg) (bo_SecretID cfg), a')]"
        "\<forall>tok. r1 = Inr tok \<longrightarrow> tok \<noteq> [] \<and> (\<exists>b. read_answer a' = Inr b \<and> tok = bb_client_token b)"
      let ?ext = "[([], PostLogin (bo_RoleID cfg) (bo_SecretID cfg), a'), (tok, q, a)]"
      have "ob_log w' = ob_log w @ ?ext" using a f by simp
      moreover have "list_all (do_request cfg q) ?ext" using f Inr by (simp add: do_request_def)
      moreover have "r = Inl Forbidden \<longrightarrow> fresh_refused cfg q ?ext"
        using f a Inr unfolding fresh_refused_def by (metis append_Nil)
      ultimately show ?thesis by (intro exI[of _ ?ext]) simp
    qed
  qed
qed

text \<open>The loop is an attempt, and a second one without the token where the first was refused.\<close>

lemma do_twice:
  "run_state (bao_do cfg srv q) w =
     (case run_state (attempt cfg srv q) w of (r, w1) \<Rightarrow>
        if r = Inl Forbidden then run_state (attempt cfg srv q) (w1\<lparr>ob_token := []\<rparr>) else (r, w1))"
proof -
  have one: "run_state (do_attempts (Suc 0) cfg srv q) = run_state (attempt cfg srv q)"
    by (rule ext) (simp add: attempt_def andthen_def)
  have "run_state (login cfg srv) w \<noteq> (Inl Forbidden, w1)" for w1
    using login_run[of cfg srv w "Inl Forbidden" w1] by auto
  then show ?thesis
    unfolding bao_do_def numeral_2_eq_2 do_attempts.simps(2)[of "Suc 0"]
    by (auto simp: attempt_def andthen_def bao_forget_def one[unfolded attempt_def andthen_def] simp del: do_attempts.simps
        split: prod.splits sum.splits)
qed

text \<open>A call to OpenBao is at most four requests: each is a login, which carries no token, or the request itself with a
  token that is not empty. It ends in \<^verbatim>\<open>permission denied\<close> only when OpenBao refused the very token it had just issued,
  so a token that lapsed or was revoked in the cache never ends a call.\<close>

lemma cached_token_never_final:
  assumes "run_state (bao_do cfg srv q) w = (r, w')"
  shows "\<exists>ext. ob_log w' = ob_log w @ ext \<and> length ext \<le> 4 \<and> list_all (do_request cfg q) ext \<and>
    (r = Inl Forbidden \<longrightarrow> fresh_refused cfg q ext)"
proof -
  obtain r1 w1 where a1: "run_state (attempt cfg srv q) w = (r1, w1)" by fastforce
  obtain e1 where e1: "ob_log w1 = ob_log w @ e1" "length e1 \<le> 2" "list_all (do_request cfg q) e1"
    using attempt_run[OF a1] by blast
  show ?thesis
  proof (cases "r1 = Inl Forbidden")
    case False
    then show ?thesis using assms a1 e1 by (auto simp: do_twice)
  next
    case True
    then have a2: "run_state (attempt cfg srv q) (w1\<lparr>ob_token := []\<rparr>) = (r, w')" using assms a1 by (simp add: do_twice)
    obtain e2 where e2: "ob_log w' = ob_log w1 @ e2" "length e2 \<le> 2" "list_all (do_request cfg q) e2"
        "r = Inl Forbidden \<longrightarrow> fresh_refused cfg q e2"
      using attempt_run[OF a2] by (auto simp: cached_token_def)
    moreover have "fresh_refused cfg q e2 \<Longrightarrow> fresh_refused cfg q (e1 @ e2)"
      unfolding fresh_refused_def by (metis append_assoc)
    ultimately show ?thesis using e1 by (intro exI[of _ "e1 @ e2"]) simp
  qed
qed

text \<open>C24. Whatever token is in the cache, a request gets through: where OpenBao issues a token to each login and
  answers the request made with it, and refuses or answers a request made with any other token, the call returns the
  answer and no error.\<close>

theorem request_gets_through:
  assumes issued: "\<And>s. case srv [] (PostLogin (bo_RoleID cfg) (bo_SecretID cfg)) s of (a, d, s') \<Rightarrow>
      \<exists>b. read_answer a = Inr b \<and> bb_client_token b \<noteq> [] \<and> (\<exists>x. read_answer (fst (srv (bb_client_token b) q s')) = Inr x)"
    and stale: "\<And>tok s. read_answer (fst (srv tok q s)) = Inl Forbidden \<or> (\<exists>x. read_answer (fst (srv tok q s)) = Inr x)"
  shows "\<exists>x w'. run_state (bao_do cfg srv q) w = (Inr x, w')"
proof -
  have fresh: "\<exists>x w'. run_state (attempt cfg srv q) w = (Inr x, w')" if "cached_token w = None" for w
    using issued[of "ob_server w"] that
    by (auto simp: attempt_def andthen_def login_def during_def bao_call_def bao_send_def keep_token_def split: prod.splits)
  obtain r1 w1 where a1: "run_state (attempt cfg srv q) w = (r1, w1)" by fastforce
  have "r1 = Inl Forbidden \<or> (\<exists>x. r1 = Inr x)"
  proof (cases "cached_token w")
    case None
    then show ?thesis using fresh[of w] a1 by auto
  next
    case (Some tok)
    then show ?thesis using a1 stale[of tok "ob_server w"]
      by (auto simp: attempt_def andthen_def login_def bao_call_def bao_send_def split: prod.splits)
  qed
  then show ?thesis
    using a1 fresh[of "w1\<lparr>ob_token := []\<rparr>"] by (auto simp: do_twice cached_token_def)
qed

text \<open>
  A decryption that OpenBao does not refuse: it is answered, or not answered at all. A login is answered with a token
  that is then taken, or not answered; any other token may also be refused.
\<close>

definition no_refusal :: "bao_error + 'a \<Rightarrow> bool" where
  "no_refusal r = (case r of Inl e \<Rightarrow> unavailable e | Inr _ \<Rightarrow> True)"

definition dependable :: "bao_config \<Rightarrow> 's bao_server \<Rightarrow> bao_request \<Rightarrow> bool" where
  "dependable cfg srv q =
     ((\<forall>s. case srv [] (PostLogin (bo_RoleID cfg) (bo_SecretID cfg)) s of (a, d, s') \<Rightarrow>
        (case read_answer a of Inl e \<Rightarrow> unavailable e
         | Inr b \<Rightarrow> bb_client_token b \<noteq> [] \<and> no_refusal (read_answer (fst (srv (bb_client_token b) q s'))))) \<and>
      (\<forall>tok s. no_refusal (read_answer (fst (srv tok q s))) \<or> read_answer (fst (srv tok q s)) = Inl Forbidden))"

lemma dependable_do:
  assumes "dependable cfg srv q" "run_state (bao_do cfg srv q) w = (r, w')"
  shows "no_refusal r"
proof -
  have fresh: "no_refusal r" if none: "cached_token w = None" and run: "run_state (attempt cfg srv q) w = (r, w')" for w r w'
  proof -
    obtain a d s' where a: "srv [] (PostLogin (bo_RoleID cfg) (bo_SecretID cfg)) (ob_server w) = (a, d, s')" using prod_cases3 by blast
    have issued: "case read_answer a of Inl e \<Rightarrow> unavailable e
         | Inr b \<Rightarrow> bb_client_token b \<noteq> [] \<and> no_refusal (read_answer (fst (srv (bb_client_token b) q s')))"
      using assms(1) a unfolding dependable_def by (metis (no_types, lifting) case_prod_conv)
    show ?thesis
      using issued none run a
      by (cases "read_answer a") (auto simp: attempt_def andthen_def login_def during_def bao_call_def bao_send_def keep_token_def no_refusal_def
          split: prod.splits)
  qed
  have any: "no_refusal r \<or> r = Inl Forbidden" if run: "run_state (attempt cfg srv q) w = (r, w')" for w r w'
  proof (cases "cached_token w")
    case None
    then show ?thesis using fresh run by blast
  next
    case (Some tok)
    then have "\<exists>s. r = read_answer (fst (srv tok q s))"
      using run by (auto simp: attempt_def andthen_def login_def bao_call_def bao_send_def split: prod.splits) (metis fst_conv)
    then show ?thesis using assms(1) unfolding dependable_def by blast
  qed
  obtain r1 w1 where "run_state (attempt cfg srv q) w = (r1, w1)" by fastforce
  then show ?thesis
    using assms(2) any[of w r1 w1] fresh[of "w1\<lparr>ob_token := []\<rparr>" r w'] by (auto simp: do_twice cached_token_def split: if_splits)
qed

lemma sealed_opens_or_unavailable:
  assumes "transit srv D" "keys_agree cfg D" "\<And>c. D (bo_TransitKey cfg) c \<noteq> None \<Longrightarrow> dependable cfg srv (PostDecrypt (bo_TransitKey cfg) c)"
    and "run_state (bao_Seal cfg srv p) w = (Inr c, w1)" "run_state (bao_Open cfg srv c) w2 = (r, w3)"
  shows "case r of Inl e \<Rightarrow> unavailable e | Inr q \<Rightarrow> q = p"
proof (cases r)
  case (Inr q)
  then show ?thesis
    using sealed_plain[OF assms(1,2,4)] Open_sound[OF assms(1,2)] assms(5) by simp
next
  case (Inl e)
  have c: "HasPrefix c CiphertextPrefix" "D (bo_TransitKey cfg) c = Some p" using Seal_sound[OF assms(1,4)] by auto
  obtain d w4 where d: "run_state (bao_do cfg srv (PostDecrypt (bo_TransitKey cfg) c)) w2 = (d, w4)" by fastforce
  then have "no_refusal d" by (rule dependable_do[OF assms(3), rotated]) (simp add: c(2))
  moreover have "bb_plaintext b = StdEncoding_EncodeToString p" if "d = Inr b" for b
    using do_answers d that assms(1) c(2) unfolding transit_def by fastforce
  ultimately show ?thesis
    using Inl assms(5) d c(1)
    by (cases d) (auto simp: bao_Open_def bao_open_def bao_decrypt_def andthen_def during_def no_refusal_def StdEncoding_roundtrip
        split: if_splits)
qed

section \<open>Enrollment tokens and lost secrets\<close>

text \<open>A wrapping token is its own credential: one request carries it, and the client's token is neither used nor renewed.\<close>

lemma Unwrap_run:
  "run_state (bao_Unwrap srv tok) w = (r, w') \<Longrightarrow>
     ob_token w' = ob_token w \<and> (\<exists>a. ob_log w' = ob_log w @ [(tok, PostUnwrap, a)] \<and>
       (r = Inl NotRedeemable \<longleftrightarrow> (\<exists>raw body. a = Answered 403 raw body \<or> a = Answered 400 raw body)))"
  by (auto simp: bao_Unwrap_def bao_call_def bao_send_def read_answer_def Let_def
      split: prod.splits sum.splits bao_answer.splits if_splits option.splits)

text \<open>\<^verbatim>\<open>Wrap\<close> does not log in again when its token is refused: a token revoked in the cache makes it fail, the token
  stays, and the next \<^verbatim>\<open>Wrap\<close> before it lapses asks with it again.\<close>

lemma wrap_keeps_refused_token:
  assumes cached: "ob_token w = tok" "tok \<noteq> []" "ob_now w < ob_expiry w - minute"
    and refused: "srv tok (PostWrap data (seconds ttl)) (ob_server w) = (Answered 403 raw body, d, s)"
  shows "\<exists>w'. run_state (bao_Wrap cfg srv data ttl) w = (Inl (During ''openbao: wrap'' Forbidden), w') \<and>
    ob_token w' = tok \<and> ob_expiry w' = ob_expiry w \<and> ob_log w' = ob_log w @ [(tok, PostWrap data (seconds ttl), Answered 403 raw body)]"
  using assms
  by (simp add: bao_Wrap_def andthen_def login_def during_def bao_call_def bao_send_def cached_token_def read_answer_def)

text \<open>Where the current key refuses a ciphertext, what the previous key's request ends with is not looked at.\<close>

lemma Open_refused:
  assumes "HasPrefix stored CiphertextPrefix" "bo_TransitKeyPrevious cfg \<noteq> []"
    and "run_state (bao_decrypt cfg srv (bo_TransitKey cfg) stored) w = (Inl e, w1)" "\<not> unavailable e"
    and "run_state (bao_decrypt cfg srv (bo_TransitKeyPrevious cfg) stored) w1 = (Inl e', w2)"
  shows "run_state (bao_Open cfg srv stored) w = (Inl e, w2)"
  using assms by (simp add: bao_Open_def bao_open_def andthen_def)

text \<open>A secret sealed under a key opens as what was sealed for as long as that key is the current or the previous one,
  whatever OpenBao does in between.\<close>

lemma sealed_secret_opens:
  assumes "transit srv D" "keys_agree cfg' D"
    and "run_state (bao_Seal cfg srv p) w = (Inr c, w1)" "run_state (bao_Open cfg' srv c) w2 = (Inr p', w3)"
    and "bo_TransitKey cfg' = bo_TransitKey cfg \<or> bo_TransitKeyPrevious cfg' = bo_TransitKey cfg \<and> bo_TransitKey cfg \<noteq> []"
  shows "p' = p"
  using sealed_plain[OF assms(1,2,3,5)] Open_sound[OF assms(1,2,4)] by simp

section \<open>A sample OpenBao\<close>

text \<open>Its state is the number of logins; only the last token it issued is good. Its ciphertexts name their key.\<close>

definition sample_token :: "nat \<Rightarrow> string" where "sample_token n = CHR ''s'' # dec n"

definition sample_D :: "string \<Rightarrow> string \<rightharpoonup> string" where
  "sample_D key c = (let h = ''vault:v1:'' @ key @ '':'' in if HasPrefix c h then StdEncoding_DecodeString (drop (length h) c) else None)"

definition sample_bao :: "nat bao_server" where
  "sample_bao tok q n =
     (case q of PostLogin _ _ \<Rightarrow> (Answered 200 ''{}'' (Some (zero_body\<lparr>bb_client_token := sample_token (Suc n), bb_lease_duration := 3600\<rparr>)), 1, Suc n)
      | _ \<Rightarrow>
        if tok \<noteq> sample_token n then (Answered 403 [] None, 1, n)
        else (case q of
            PostEncrypt key p \<Rightarrow> (Answered 200 ''{}'' (Some (zero_body\<lparr>bb_ciphertext := ''vault:v1:'' @ key @ '':'' @ p\<rparr>)), 1, n)
          | PostDecrypt key c \<Rightarrow>
              (case sample_D key c of None \<Rightarrow> (Answered 400 ''cipher: message authentication failed'' None, 1, n)
               | Some p \<Rightarrow> (Answered 200 ''{}'' (Some (zero_body\<lparr>bb_plaintext := StdEncoding_EncodeToString p\<rparr>)), 1, n))
          | _ \<Rightarrow> (Answered 200 [] None, 1, n)))"

definition sample_bao_config :: bao_config where
  "sample_bao_config = \<lparr>bo_Addr = ''a'', bo_RoleID = ''r'', bo_SecretID = ''s'', bo_KVMount = ''kv'', bo_TransitKey = ''k2'',
     bo_TransitKeyPrevious = ''k1'', bo_ServiceMount = [], bo_ServiceRole = []\<rparr>"

definition sample_client :: "'s \<Rightarrow> 's bao" where
  "sample_client s = \<lparr>ob_server = s, ob_now = 0, ob_token = [], ob_expiry = 0, ob_log = []\<rparr>"

lemma sample_transit: "transit sample_bao sample_D"
proof -
  have "HasPrefix (''vault:v1:'' @ x) CiphertextPrefix" for x by (simp add: HasPrefix_def CiphertextPrefix_def)
  then show ?thesis
    by (auto simp: transit_def bao_answers_def sample_bao_def read_answer_def zero_body_def Let_def sample_D_def StdEncoding_roundtrip
        HasPrefix_def split: if_splits option.splits)
qed

lemma sample_keys_agree: "keys_agree sample_bao_config sample_D"
  by (auto simp: keys_agree_def sample_bao_config_def sample_D_def Let_def HasPrefix_iff split: if_splits)

text \<open>The claims above, on the sample.\<close>

lemma sample_read:
  "read_answer (fst (sample_bao tok (PostEncrypt k p) n)) = Inl Forbidden \<or> (\<exists>x. read_answer (fst (sample_bao tok (PostEncrypt k p) n)) = Inr x)"
  by (simp add: sample_bao_def read_answer_def)

theorem request_gets_through_witness:
  "\<exists>x w'. run_state (bao_do sample_bao_config sample_bao (PostEncrypt ''k2'' ''cA=='')) (sample_client 7) = (Inr x, w')"
  by (rule request_gets_through, simp_all only: sample_read) (simp add: sample_bao_def read_answer_def sample_token_def)

lemma sample_login:
  "\<exists>w. run_state (login cfg sample_bao) (sample_client n) = (Inr (sample_token (Suc n)), w) \<and> ob_server w = Suc n"
  by (simp add: login_def cached_token_def sample_client_def during_def andthen_def bao_call_def bao_send_def sample_bao_def
      read_answer_def keep_token_def sample_token_def)

lemma sample_do:
  "read_answer (fst (sample_bao (sample_token (Suc n)) q (Suc n))) = Inr b \<Longrightarrow>
     \<exists>w'. run_state (bao_do cfg sample_bao q) (sample_client n) = (Inr b, w')"
  using sample_login[of cfg n] by (auto simp: do_twice attempt_def andthen_def bao_call_def bao_send_def split: prod.splits)

lemma sample_Seal:
  "\<exists>w. run_state (bao_Seal cfg sample_bao p) (sample_client n) =
     (Inr (''vault:v1:'' @ bo_TransitKey cfg @ '':'' @ StdEncoding_EncodeToString p), w)"
  using sample_do[of n "PostEncrypt (bo_TransitKey cfg) (StdEncoding_EncodeToString p)" _ cfg]
  by (force simp: bao_Seal_def andthen_def during_def sample_bao_def read_answer_def)

end
