(* ===== verification/Resealing.thy ===== *)
theory Resealing
  imports OpenBao Sequential
begin

text \<open>
  \<^verbatim>\<open>internal/store/reseal.go\<close>: every stored secret is moved to the current Transit key, one value at a time, while
  requests go on writing. The \<^verbatim>\<open>Resealer\<close> of the code is OpenBao's client, in whatever state it is when it is called.
\<close>

section \<open>The sealed columns\<close>

datatype column =
    TSIGSecret | StateSecret | LogIngestToken | LogReadToken | DashboardPasswordColumn | WiFiPSK | AdmissionPSK

fun column_name :: "column \<Rightarrow> string" where
  "column_name TSIGSecret = ''tsig_secret''"
| "column_name StateSecret = ''state_secret''"
| "column_name LogIngestToken = ''log_ingest_token''"
| "column_name LogReadToken = ''log_read_token''"
| "column_name DashboardPasswordColumn = ''dashboard_password''"
| "column_name WiFiPSK = ''psk''"
| "column_name AdmissionPSK = ''psk''"

definition sealedColumns :: "(string \<times> column list) list" where
  "sealedColumns =
     [(''tenants'', [TSIGSecret, StateSecret, LogIngestToken, LogReadToken, DashboardPasswordColumn]),
      (''tenant_wifi_keys'', [WiFiPSK]),
      (''admission_keys'', [AdmissionPSK])]"

text \<open>A column of \<^verbatim>\<open>tenants\<close> in the record of the tenant's secrets.\<close>

fun secret_of :: "column \<Rightarrow> Secrets \<Rightarrow> string" where
  "secret_of TSIGSecret s = sec_TSIG s"
| "secret_of StateSecret s = sec_State s"
| "secret_of LogIngestToken s = sec_LogIngest s"
| "secret_of LogReadToken s = sec_LogRead s"
| "secret_of DashboardPasswordColumn s = sec_DashboardPassword s"
| "secret_of _ s = []"

fun set_secret :: "column \<Rightarrow> string \<Rightarrow> Secrets \<Rightarrow> Secrets" where
  "set_secret TSIGSecret v s = s\<lparr>sec_TSIG := v\<rparr>"
| "set_secret StateSecret v s = s\<lparr>sec_State := v\<rparr>"
| "set_secret LogIngestToken v s = s\<lparr>sec_LogIngest := v\<rparr>"
| "set_secret LogReadToken v s = s\<lparr>sec_LogRead := v\<rparr>"
| "set_secret DashboardPasswordColumn v s = s\<lparr>sec_DashboardPassword := v\<rparr>"
| "set_secret _ v s = s"

text \<open>The rows of a column: the key and the value of each.\<close>

definition column_rows :: "column \<Rightarrow> registry \<Rightarrow> (string list \<times> string) list" where
  "column_rows c r =
     (case c of
        WiFiPSK \<Rightarrow> map (\<lambda>k. ([wk_Tenant k, wk_Name k], wk_PSK k)) (tbl_wifi_keys r)
      | AdmissionPSK \<Rightarrow> map (\<lambda>k. ([ak_Tenant k], ak_PSK k)) (tbl_admission_keys r)
      | _ \<Rightarrow> map (\<lambda>t. ([tn_name t], secret_of c (tn_secrets t))) (tbl_tenants r))"

definition tx_sealed_rows :: "column \<Rightarrow> (string list \<times> string) list tx" where
  "tx_sealed_rows c = read_tx (\<lambda>r. filter (\<lambda>(_, stored). stored \<noteq> []) (column_rows c r))"

text \<open>\<^verbatim>\<open>UPDATE ... WHERE column = stored AND key = ...\<close>: a row that was rewritten since is left alone.\<close>

definition write_column :: "column \<Rightarrow> string list \<Rightarrow> string \<Rightarrow> string \<Rightarrow> registry \<Rightarrow> registry" where
  "write_column c key stored next r =
     (case c of
        WiFiPSK \<Rightarrow> r\<lparr>tbl_wifi_keys := map (\<lambda>k. if wk_PSK k = stored \<and> [wk_Tenant k, wk_Name k] = key
            then k\<lparr>wk_PSK := next\<rparr> else k) (tbl_wifi_keys r)\<rparr>
      | AdmissionPSK \<Rightarrow> r\<lparr>tbl_admission_keys := map (\<lambda>k. if ak_PSK k = stored \<and> [ak_Tenant k] = key
            then k\<lparr>ak_PSK := next\<rparr> else k) (tbl_admission_keys r)\<rparr>
      | _ \<Rightarrow> r\<lparr>tbl_tenants := map (\<lambda>t. if secret_of c (tn_secrets t) = stored \<and> [tn_name t] = key
            then t\<lparr>tn_secrets := set_secret c next (tn_secrets t)\<rparr> else t) (tbl_tenants r)\<rparr>)"

definition tx_reseal :: "column \<Rightarrow> string list \<Rightarrow> string \<Rightarrow> string \<Rightarrow> unit tx" where
  "tx_reseal c key stored next r = Inr ((), write_column c key stored next r)"

section \<open>Resealing\<close>

type_synonym resealer = "nat \<Rightarrow> string \<Rightarrow> err + string \<times> bool"

record ResealReport =
  rp_Resealed :: "string \<Rightarrow> nat"
  rp_Current :: nat
  rp_Failed :: "string \<Rightarrow> nat"

definition empty_report :: ResealReport where
  "empty_report = \<lparr>rp_Resealed = (\<lambda>_. 0), rp_Current = 0, rp_Failed = (\<lambda>_. 0)\<rparr>"

text \<open>One row: the error the whole call returns with, or none and the loop goes on.\<close>

definition reseal_row ::
  "service \<Rightarrow> resealer \<Rightarrow> string \<Rightarrow> column \<Rightarrow> string list \<Rightarrow> string \<Rightarrow> ResealReport \<Rightarrow> (ResealReport \<times> err option) io" where
  "reseal_row S rs label c key stored rep =
     do {
       r \<leftarrow> tick (\<lambda>t. rs t stored);
       (case r of
          Inl e \<Rightarrow>
            if errors_is e ErrSecretsUnavailable then ret (rep, Some e)
            else ret (rep\<lparr>rp_Failed := (rp_Failed rep)(label := Suc (rp_Failed rep label))\<rparr>, None)
        | Inr (next, changed) \<Rightarrow>
            if \<not> changed then ret (rep\<lparr>rp_Current := Suc (rp_Current rep)\<rparr>, None)
            else do {
              u \<leftarrow> db S (tx_reseal c key stored next);
              ret (case u of
                 Inl e \<Rightarrow> (rep, Some (Wrapped label e))
               | Inr _ \<Rightarrow> (rep\<lparr>rp_Resealed := (rp_Resealed rep)(label := Suc (rp_Resealed rep label))\<rparr>, None))
            })
     }"

fun reseal_rows ::
  "service \<Rightarrow> resealer \<Rightarrow> string \<Rightarrow> column \<Rightarrow> (string list \<times> string) list \<Rightarrow> ResealReport \<Rightarrow> (ResealReport \<times> err option) io" where
  "reseal_rows S rs label c [] rep = ret (rep, None)"
| "reseal_rows S rs label c ((key, stored) # rows) rep =
     do {
       out \<leftarrow> reseal_row S rs label c key stored rep;
       (case out of (rep', Some e) \<Rightarrow> ret (rep', Some e) | (rep', None) \<Rightarrow> reseal_rows S rs label c rows rep')
     }"

fun reseal_columns :: "service \<Rightarrow> resealer \<Rightarrow> (string \<times> column) list \<Rightarrow> ResealReport \<Rightarrow> (ResealReport \<times> err option) io" where
  "reseal_columns S rs [] rep = ret (rep, None)"
| "reseal_columns S rs ((table, c) # cols) rep =
     do {
       rows \<leftarrow> db S (tx_sealed_rows c);
       (case rows of
          Inl e \<Rightarrow> ret (rep, Some (Wrapped (table @ ''.'' @ column_name c) e))
        | Inr all \<Rightarrow>
            do {
              out \<leftarrow> reseal_rows S rs (table @ ''.'' @ column_name c) c all rep;
              (case out of (rep', Some e) \<Rightarrow> ret (rep', Some e) | (rep', None) \<Rightarrow> reseal_columns S rs cols rep')
            })
     }"

definition Store_Reseal :: "service \<Rightarrow> resealer \<Rightarrow> (ResealReport \<times> err option) io" where
  "Store_Reseal S rs =
     reseal_columns S rs (concat (map (\<lambda>(table, cols). map (Pair table) cols) sealedColumns)) empty_report"

section \<open>OpenBao as the sealer and the resealer\<close>

text \<open>At the \<open>t\<close>-th call the client is in the state \<open>at t\<close>.\<close>

definition secret_err :: "bao_error \<Rightarrow> err" where
  "secret_err e = (if unavailable e then Wrapped ''openbao'' ErrSecretsUnavailable else ErrOther ''openbao'')"

definition secret_result :: "bao_error + 'a \<Rightarrow> err + 'a" where
  "secret_result r = (case r of Inl e \<Rightarrow> Inl (secret_err e) | Inr x \<Rightarrow> Inr x)"

definition bao_resealer :: "bao_config \<Rightarrow> 's bao_server \<Rightarrow> (nat \<Rightarrow> 's bao) \<Rightarrow> resealer" where
  "bao_resealer cfg srv at t stored = secret_result (fst (run_state (bao_Reseal cfg srv stored) (at t)))"

definition bao_sealer :: "bao_config \<Rightarrow> 's bao_server \<Rightarrow> (nat \<Rightarrow> 's bao) \<Rightarrow> sealer" where
  "bao_sealer cfg srv at =
     \<lparr>sl_Seal = (\<lambda>t p. secret_result (fst (run_state (bao_Seal cfg srv p) (at t)))),
      sl_Open = (\<lambda>t c. secret_result (fst (run_state (bao_Open cfg srv c) (at t))))\<rparr>"

section \<open>What a registry says of its secrets\<close>

text \<open>
  The registry with its sealed columns cut out, and what \<open>f\<close> reads from each of them. A write that keeps both keeps every
  row, every key and every secret.
\<close>

definition tenant_columns :: "column list" where
  "tenant_columns = [TSIGSecret, StateSecret, LogIngestToken, LogReadToken, DashboardPasswordColumn]"

definition cut :: "registry \<Rightarrow> registry" where
  "cut r = r\<lparr>tbl_tenants := map (\<lambda>t. t\<lparr>tn_secrets := fold (\<lambda>c. set_secret c []) tenant_columns (tn_secrets t)\<rparr>) (tbl_tenants r),
     tbl_wifi_keys := map (\<lambda>k. k\<lparr>wk_PSK := []\<rparr>) (tbl_wifi_keys r),
     tbl_admission_keys := map (\<lambda>k. k\<lparr>ak_PSK := []\<rparr>) (tbl_admission_keys r)\<rparr>"

definition secrets_view :: "(string \<Rightarrow> 'a) \<Rightarrow> registry \<Rightarrow> registry \<times> (column \<Rightarrow> (string list \<times> 'a) list)" where
  "secrets_view f r = (cut r, \<lambda>c. map (\<lambda>(key, v). (key, f v)) (column_rows c r))"

lemma write_column_view:
  assumes "f next = f stored"
  shows "secrets_view f (write_column c key stored next r) = secrets_view f r"
proof -
  have "cut (write_column c key stored next r) = cut r"
    by (cases c) (auto simp: cut_def write_column_def tenant_columns_def)
  moreover have "map (\<lambda>(key, v). (key, f v)) (column_rows c' (write_column c key stored next r)) =
      map (\<lambda>(key, v). (key, f v)) (column_rows c' r)" for c'
    using assms by (cases c; cases c') (auto simp: column_rows_def write_column_def)
  ultimately show ?thesis by (simp add: secrets_view_def)
qed

lemma bao_resealer_sound:
  assumes "transit srv D" "keys_agree cfg D" "bao_resealer cfg srv at t stored = Inr (next, changed)"
  shows "plain cfg D next = plain cfg D stored \<and> (next = [] \<or> current cfg D next) \<and> (\<not> changed \<longrightarrow> next = stored)"
proof -
  have "run_state (bao_Reseal cfg srv stored) (at t) = (Inr (next, changed), snd (run_state (bao_Reseal cfg srv stored) (at t)))"
    using assms(3) by (auto simp: bao_resealer_def secret_result_def split: sum.splits intro: prod_eqI)
  then show ?thesis by (rule Reseal_sound[OF assms(1,2)])
qed

section \<open>Resealing keeps every secret\<close>

text \<open>A move of the registry while secrets are resealed: a write of another request, or one that keeps what each secret is.\<close>

definition reseal_move :: "service \<Rightarrow> (string \<Rightarrow> string option) \<Rightarrow> registry \<Rightarrow> registry \<Rightarrow> bool" where
  "reseal_move S f r r' = ((\<exists>n. r' = sv_others S n r) \<or> secrets_view f r' = secrets_view f r)"

interpretation reseal: world_preorder "\<lambda>(w :: world) w'. (reseal_move S f)\<^sup>*\<^sup>* (reg w) (reg w')" for S f
  by unfold_locales auto

lemma reseal_db:
  assumes "\<And>r x r'. t r = Inr (x, r') \<Longrightarrow> secrets_view f r' = secrets_view f r"
  shows "reseal.keeps S f (db S t)"
proof (rule reseal.keepsI)
  fix w :: world
  define r where "r = sv_others S (clock w) (reg w)"
  have others: "(reseal_move S f)\<^sup>*\<^sup>* (reg w) r" unfolding r_def by (rule r_into_rtranclp) (auto simp: reseal_move_def)
  have "t r = Inr (x, r') \<Longrightarrow> (reseal_move S f)\<^sup>*\<^sup>* (reg w) r'" for x r'
    using others assms[of r x r'] by (metis reseal_move_def rtranclp.rtrancl_into_rtrancl)
  then show "(reseal_move S f)\<^sup>*\<^sup>* (reg w) (reg (snd (run_state (db S t) w)))"
    using others by (simp add: db_def Let_def r_def[symmetric] split: dbout.splits sum.splits prod.splits)
qed

lemma reseal_sealed_rows: "reseal.keeps S f (db S (tx_sealed_rows c))"
  by (rule reseal_db) (simp add: tx_sealed_rows_def)

lemma reseal_tick: "(\<And>t. reseal.keeps S f (k (g t))) \<Longrightarrow> reseal.keeps S f (State_Monad.bind (tick g) k)"
  by (simp add: reseal.keeps_def tick_def) (metis world.select_convs(3) world.surjective world.update_convs(1))

lemma reseal_keeps_all:
  assumes "\<And>t v next changed. rs t v = Inr (next, changed) \<Longrightarrow> f next = f v"
  shows "reseal.keeps S f (reseal_row S rs label c key stored rep)"
    "reseal.keeps S f (reseal_rows S rs label c rows rep)"
    "reseal.keeps S f (reseal_columns S rs cols rep)"
proof -
  have moved: "reseal.keeps S f (db S (tx_reseal c key stored nx))" if "rs t stored = Inr (nx, changed)" for c key stored nx t changed
    using assms[OF that] by (intro reseal_db) (auto simp: tx_reseal_def write_column_view)
  have row: "reseal.keeps S f (reseal_row S rs label c key stored rep)" for label c key stored rep
    unfolding reseal_row_def
    by (rule reseal_tick) (auto intro!: reseal.keeps_intros moved split: sum.split)
  then show "reseal.keeps S f (reseal_row S rs label c key stored rep)" .
  have rows: "reseal.keeps S f (reseal_rows S rs label c rows rep)" for label c rows rep
    by (induction rows arbitrary: rep) (auto intro!: reseal.keeps_intros row)
  then show "reseal.keeps S f (reseal_rows S rs label c rows rep)" .
  show "reseal.keeps S f (reseal_columns S rs cols rep)"
    by (induction cols arbitrary: rep) (auto intro!: reseal.keeps_intros reseal_sealed_rows rows)
qed

text \<open>C14. Resealing never changes a secret, whatever other requests write meanwhile and wherever it stops: the registry
  moves only by writes of other requests and by writes that leave every row, every other column and the plaintext of
  every sealed value as they were. A value a request rewrote after it was read is left alone.\<close>

theorem reseal_keeps_secrets:
  assumes "transit srv D" "keys_agree cfg D" "run_state (Store_Reseal S (bao_resealer cfg srv at)) w = (out, w')"
  shows "(reseal_move S (plain cfg D))\<^sup>*\<^sup>* (reg w) (reg w')"
proof -
  have "reseal.keeps S (plain cfg D) (Store_Reseal S (bao_resealer cfg srv at))"
    unfolding Store_Reseal_def by (rule reseal_keeps_all(3)) (use bao_resealer_sound[OF assms(1,2)] in blast)
  from reseal.keepsD[OF this, of w] show ?thesis by (simp add: assms(3))
qed

section \<open>A complete run leaves nothing behind\<close>

lemma column_rows_write:
  "x \<in> set (column_rows c (write_column c key stored next r)) \<Longrightarrow>
     x = (key, next) \<or> x \<in> set (column_rows c r) \<and> x \<noteq> (key, stored)"
  by (cases c) (auto simp: column_rows_def write_column_def split: if_splits)

lemma column_rows_write_other: "c' \<noteq> c \<Longrightarrow> column_rows c' (write_column c key stored next r) = column_rows c' r"
  by (cases c; cases c') (auto simp: column_rows_def write_column_def)

text \<open>The rows of a column whose value is not under the current key; \<open>ok\<close> says which values are.\<close>

definition stale :: "(string \<Rightarrow> bool) \<Rightarrow> column \<Rightarrow> registry \<Rightarrow> (string list \<times> string) set" where
  "stale ok c r = {x \<in> set (column_rows c r). snd x \<noteq> [] \<and> \<not> ok (snd x)}"

text \<open>What the counts and the answers of a resealer promise, and a run that found no value it could not open.\<close>

definition reseals :: "resealer \<Rightarrow> (string \<Rightarrow> bool) \<Rightarrow> bool" where
  "reseals rs ok = (\<forall>t v next changed. rs t v = Inr (next, changed) \<longrightarrow> (next = [] \<or> ok next) \<and> (\<not> changed \<longrightarrow> next = v))"

lemma write_stale:
  assumes "next = [] \<or> ok next"
  shows "stale ok c' (write_column c key stored next r) \<subseteq> stale ok c' r - (if c' = c then {(key, stored)} else {})"
  using assms by (cases "c' = c") (auto simp: stale_def column_rows_write_other dest: column_rows_write)

lemma reseal_row_cases:
  assumes "run_state (reseal_row S rs label c key stored rep) w = ((rep', None), w')" "alone S"
  obtains (failed) "rp_Failed rep' = (rp_Failed rep)(label := Suc (rp_Failed rep label))" "reg w' = reg w"
  | (kept) n nx where "rs n stored = Inr (nx, False)" "rp_Failed rep' = rp_Failed rep" "reg w' = reg w"
  | (moved) n nx where "rs n stored = Inr (nx, True)" "rp_Failed rep' = rp_Failed rep" "reg w' = write_column c key stored nx (reg w)"
  using assms unfolding reseal_row_def
  by (auto simp: tick_def db_def tx_reseal_def alone_def Let_def split: sum.splits if_splits dbout.splits)

lemma reseal_row_run:
  assumes "alone S" "reseals rs ok" "run_state (reseal_row S rs label c key stored rep) w = ((rep', None), w')"
  shows "rp_Failed rep \<le> rp_Failed rep'"
    "rp_Failed rep' = rp_Failed rep \<Longrightarrow> stale ok c' (reg w') \<subseteq> stale ok c' (reg w) - (if c' = c then {(key, stored)} else {})"
proof -
  show "rp_Failed rep \<le> rp_Failed rep'"
    using assms(3,1) by (cases rule: reseal_row_cases) (auto simp: le_fun_def)
  assume same: "rp_Failed rep' = rp_Failed rep"
  show "stale ok c' (reg w') \<subseteq> stale ok c' (reg w) - (if c' = c then {(key, stored)} else {})"
    using assms(3,1)
  proof (cases rule: reseal_row_cases)
    case failed
    then show ?thesis using same by (metis fun_upd_same n_not_Suc_n)
  next
    case (kept n nx)
    then have "stored = [] \<or> ok stored" using assms(2) by (fastforce simp: reseals_def)
    then show ?thesis using kept by (auto simp: stale_def)
  next
    case (moved n nx)
    then have "nx = [] \<or> ok nx" using assms(2) by (fastforce simp: reseals_def)
    then show ?thesis using moved(3) write_stale by metis
  qed
qed

text \<open>A loop over a list whose parts may stop it, the reports they pass on and what they leave stale.\<close>

lemma reseal_rows_run:
  assumes "alone S" "reseals rs ok"
  shows "run_state (reseal_rows S rs label c rows rep) w = ((rep', None), w') \<Longrightarrow>
    rp_Failed rep \<le> rp_Failed rep' \<and> (rp_Failed rep' = rp_Failed rep \<longrightarrow>
      stale ok c' (reg w') \<subseteq> stale ok c' (reg w) - (if c' = c then set rows else {}))"
proof (induction rows arbitrary: rep w)
  case Nil
  then show ?case by simp
next
  case (Cons row rows)
  obtain key stored where row: "row = (key, stored)" by fastforce
  obtain rep1 w1 where one: "run_state (reseal_row S rs label c key stored rep) w = ((rep1, None), w1)"
      and rest: "run_state (reseal_rows S rs label c rows rep1) w1 = ((rep', None), w')"
    using Cons.prems by (auto simp: row split: prod.splits option.splits)
  note r1 = reseal_row_run[OF assms one] and r2 = Cons.IH[OF rest]
  show ?case
  proof (intro conjI impI)
    show le: "rp_Failed rep \<le> rp_Failed rep'" using r1(1) r2 by (auto intro: order_trans)
    assume "rp_Failed rep' = rp_Failed rep"
    then have "rp_Failed rep1 = rp_Failed rep" "rp_Failed rep' = rp_Failed rep1" using r1(1) r2 by (auto intro: antisym)
    then show "stale ok c' (reg w') \<subseteq> stale ok c' (reg w) - (if c' = c then set (row # rows) else {})"
      using r1(2)[of c'] r2 by (auto simp: row split: if_splits)
  qed
qed

lemma reseal_columns_run:
  assumes "alone S" "reseals rs ok"
  shows "run_state (reseal_columns S rs cols rep) w = ((rep', None), w') \<Longrightarrow>
    rp_Failed rep \<le> rp_Failed rep' \<and> (rp_Failed rep' = rp_Failed rep \<longrightarrow>
      (\<forall>c. stale ok c (reg w') \<subseteq> stale ok c (reg w)) \<and> (\<forall>c \<in> snd ` set cols. stale ok c (reg w') = {}))"
proof (induction cols arbitrary: rep w)
  case Nil
  then show ?case by simp
next
  case (Cons col cols)
  obtain table c where col: "col = (table, c)" by fastforce
  let ?all = "filter (\<lambda>(_, stored). stored \<noteq> []) (column_rows c (reg w))"
  obtain rep1 w1 where one: "run_state (reseal_rows S rs (table @ ''.'' @ column_name c) c ?all rep) (w\<lparr>clock := Suc (clock w)\<rparr>) = ((rep1, None), w1)"
      and rest: "run_state (reseal_columns S rs cols rep1) w1 = ((rep', None), w')"
    using Cons.prems assms(1)
    by (auto simp: col db_def tx_sealed_rows_def alone_def Let_def split: prod.splits option.splits sum.splits dbout.splits)
  note r1 = reseal_rows_run[OF assms one] and r2 = Cons.IH[OF rest]
  have none: "stale ok c (reg w) - set ?all = {}" by (auto simp: stale_def)
  show ?case
  proof (intro conjI impI)
    show "rp_Failed rep \<le> rp_Failed rep'" using r1 r2 by (auto intro: order_trans)
    assume "rp_Failed rep' = rp_Failed rep"
    then have same: "rp_Failed rep1 = rp_Failed rep" "rp_Failed rep' = rp_Failed rep1" using r1 r2 by (auto intro: antisym)
    have first: "stale ok c' (reg w1) \<subseteq> stale ok c' (reg w) - (if c' = c then set ?all else {})" for c'
      using r1[of c'] same by simp
    then show "\<forall>c. stale ok c (reg w') \<subseteq> stale ok c (reg w)" using r2 same by fastforce
    have "stale ok c (reg w1) = {}" using first[of c] none by auto
    then show "\<forall>c \<in> snd ` set (col # cols). stale ok c (reg w') = {}" using r2 same col by auto
  qed
qed

text \<open>C15. A reseal that returns without an error and counted no value it could not open, while nobody else wrote, has
  moved everything: every sealed column of every row is empty or opens under the current key, so the previous key can go.\<close>

theorem reseal_complete:
  assumes "transit srv D" "keys_agree cfg D" "alone S"
    and "run_state (Store_Reseal S (bao_resealer cfg srv at)) w = ((rep, None), w')" "rp_Failed rep = (\<lambda>_. 0)"
  shows "\<forall>(key, v) \<in> set (column_rows c (reg w')). v = [] \<or> current cfg D v"
proof -
  have ok: "reseals (bao_resealer cfg srv at) (current cfg D)"
    unfolding reseals_def using bao_resealer_sound[OF assms(1,2)] by blast
  have all: "c \<in> snd ` set (concat (map (\<lambda>(table, cols). map (Pair table) cols) sealedColumns))"
    by (cases c) (simp_all add: sealedColumns_def)
  have none: "rp_Failed rep = rp_Failed empty_report" by (simp add: assms(5) empty_report_def)
  have "stale (current cfg D) c (reg w') = {}"
    using reseal_columns_run[OF assms(3) ok assms(4)[unfolded Store_Reseal_def]] all none by blast
  then show ?thesis by (auto simp: stale_def)
qed

section \<open>The registry stays sound\<close>

lemma reg_inv_cut: "reg_inv site (cut r) = reg_inv site r"
  by (simp add: reg_inv_def cut_def idents_def table_ok_def unique_on_def Let_def wk_key_def[abs_def] comp_def)

lemma reg_inv_view: "secrets_view f r' = secrets_view f r \<Longrightarrow> reg_inv site r' = reg_inv site r"
  by (metis prod.inject reg_inv_cut secrets_view_def)

lemma reseal_keeps_inv:
  assumes "(reseal_move S f)\<^sup>*\<^sup>* r r'" "others_ok S" "Validate_site (sv_Site S) = None" "reg_inv (sv_Site S) r"
  shows "reg_inv (sv_Site S) r'"
  using assms(1)
proof (induction rule: rtranclp_induct)
  case base
  then show ?case by (rule assms(4))
next
  case (step y z)
  then show ?case
    using registry.inv_steps[of "sv_Site S" y z] assms(2,3) reg_inv_view[of f z y "sv_Site S"]
    unfolding reseal_move_def others_ok_def by blast
qed

section \<open>The client is the sealer the service relies on\<close>

text \<open>C23. The client of OpenBao keeps the contract the service relies on of its sealer (\<open>sealer_ok\<close>): what it sealed it opens as
  it was, or it reports OpenBao unavailable, whatever state it is in at each call and whatever its cached token is worth.
  OpenBao is taken to keep what Transit promises, and to answer or not answer a decryption that the current key can do.\<close>

theorem openbao_client_is_sealer:
  assumes "transit srv D" "keys_agree cfg D"
    and "\<And>c. D (bo_TransitKey cfg) c \<noteq> None \<Longrightarrow> dependable cfg srv (PostDecrypt (bo_TransitKey cfg) c)"
    and "sv_sealer S = Some (bao_sealer cfg srv at)"
  shows "sealer_ok S"
  unfolding sealer_ok_def
proof (intro allI impI)
  fix sl t p c t' assume sl: "sv_sealer S = Some sl" and sealed: "sl_Seal sl t p = Inr c"
  have "run_state (bao_Seal cfg srv p) (at t) = (Inr c, snd (run_state (bao_Seal cfg srv p) (at t)))"
    using sl sealed assms(4) by (auto simp: bao_sealer_def secret_result_def split: sum.splits intro: prod_eqI)
  from sealed_opens_or_unavailable[OF assms(1-3) this surjective_pairing[of "run_state (bao_Open cfg srv c) (at t')"]]
  show "case sl_Open sl t' c of Inl e \<Rightarrow> errors_is e ErrSecretsUnavailable | Inr q \<Rightarrow> q = p"
    using sl assms(4) by (auto simp: bao_sealer_def secret_result_def secret_err_def split: sum.splits)
qed

lemma sample_dependable:
  assumes "sample_D ''k2'' c \<noteq> None"
  shows "dependable sample_bao_config sample_bao (PostDecrypt ''k2'' c)"
  using assms by (auto simp: dependable_def no_refusal_def sample_bao_def read_answer_def sample_token_def)

theorem openbao_client_is_sealer_witness:
  "sealer_ok (sample_service\<lparr>sv_sealer := Some (bao_sealer sample_bao_config sample_bao (\<lambda>_. sample_client 0))\<rparr>)"
  by (rule openbao_client_is_sealer[OF sample_transit sample_keys_agree])
     (use sample_dependable in \<open>simp_all add: sample_bao_config_def\<close>)

section \<open>An outage that reads as a loss\<close>

text \<open>C26. While a previous key is configured, an outage of OpenBao between the two keys reads as a lost secret: where the
  current key refuses the ciphertext and the request with the previous key gets no answer, the store reads the value as
  empty and unreadable, without an error, though the previous key may open it.\<close>

theorem outage_between_keys_reads_lost:
  assumes "HasPrefix stored CiphertextPrefix" "bo_TransitKeyPrevious cfg \<noteq> []"
    and "run_state (bao_decrypt cfg srv (bo_TransitKey cfg) stored) (at (clock w)) = (Inl e, b1)" "\<not> unavailable e"
    and "run_state (bao_decrypt cfg srv (bo_TransitKeyPrevious cfg) stored) b1 = (Inl outage, b2)" "unavailable outage"
  shows "fst (run_state (openOne (bao_sealer cfg srv at) stored) w) = Inr ([], True)"
  using Open_refused[OF assms(1-5)] assms(4) by (simp add: openOne_def tick_def bao_sealer_def secret_result_def secret_err_def)

text \<open>Here OpenBao answers for the current key and not for the previous one.\<close>

definition failing_bao :: "nat bao_server" where
  "failing_bao tok q n =
     (case q of PostLogin _ _ \<Rightarrow> (Answered 200 ''{}'' (Some (zero_body\<lparr>bb_client_token := ''t'', bb_lease_duration := 3600\<rparr>)), 1, n)
      | PostDecrypt key _ \<Rightarrow> if key = ''k1'' then (NoAnswer ''connection refused'', 1, n) else (Answered 400 ''no'' None, 1, n)
      | _ \<Rightarrow> (Answered 200 [] None, 1, n))"

theorem outage_between_keys_reads_lost_witness:
  "fst (run_state (openOne (bao_sealer sample_bao_config failing_bao (\<lambda>_. sample_client 0)) ''vault:v1:k1:cA=='')
     \<lparr>clock = 0, trace = [], reg = empty_registry\<rparr>) = Inr ([], True)"
proof -
  let ?cur = "run_state (bao_decrypt sample_bao_config failing_bao ''k2'' ''vault:v1:k1:cA=='') (sample_client 0)"
  let ?prev = "run_state (bao_decrypt sample_bao_config failing_bao ''k1'' ''vault:v1:k1:cA=='') (snd ?cur)"
  have cur: "fst ?cur = Inl (During ''openbao: decrypt'' (StatusError 400 ''no''))" by code_simp
  have prev: "fst ?prev = Inl (During ''openbao: decrypt'' (Unavailable ''connection refused''))" by code_simp
  have keys: "HasPrefix ''vault:v1:k1:cA=='' CiphertextPrefix" "bo_TransitKey sample_bao_config = ''k2''"
      "bo_TransitKeyPrevious sample_bao_config = ''k1''"
    by (simp_all add: HasPrefix_def CiphertextPrefix_def sample_bao_config_def)
  have runs: "run_state (bao_decrypt sample_bao_config failing_bao (bo_TransitKey sample_bao_config) ''vault:v1:k1:cA=='') (sample_client 0)
      = (Inl (During ''openbao: decrypt'' (StatusError 400 ''no'')), snd ?cur)"
    "run_state (bao_decrypt sample_bao_config failing_bao (bo_TransitKeyPrevious sample_bao_config) ''vault:v1:k1:cA=='') (snd ?cur)
      = (Inl (During ''openbao: decrypt'' (Unavailable ''connection refused'')), snd ?prev)"
    using cur prev by (simp_all only: keys) (metis prod.collapse)+
  show ?thesis
    by (rule outage_between_keys_reads_lost[OF keys(1) _ runs(1) _ runs(2)]) (simp_all add: keys)
qed

text \<open>A registry with an admission key that was stored before sealing was on.\<close>

definition sample_sealed :: world where
  "sample_sealed = \<lparr>clock = 0, trace = [], reg = empty_registry\<lparr>tbl_admission_keys :=
     [\<lparr>ak_Tenant = ''red'', ak_PSK = ''pw'', ak_MAC = [], ak_Unreadable = False\<rparr>]\<rparr>\<rparr>"

abbreviation sample_resealer :: resealer where
  "sample_resealer \<equiv> bao_resealer sample_bao_config sample_bao (\<lambda>_. sample_client 0)"

theorem reseal_keeps_secrets_witness:
  "(reseal_move sample_service (plain sample_bao_config sample_D))\<^sup>*\<^sup>* (reg sample_sealed)
     (reg (snd (run_state (Store_Reseal sample_service sample_resealer) sample_sealed)))"
  by (rule reseal_keeps_secrets[OF sample_transit sample_keys_agree, where out = "fst _", OF surjective_pairing])

lemma sample_reseals: "\<exists>c. \<forall>t. sample_resealer t ''pw'' = Inr (c, True)"
  using sample_Seal[of sample_bao_config "''pw''" 0]
  by (auto simp: bao_resealer_def bao_Reseal_def reseal_opened_def bao_open_def andthen_def HasPrefix_def CiphertextPrefix_def
      secret_result_def)

lemma sample_run:
  "\<exists>rep w'. run_state (Store_Reseal sample_service sample_resealer) sample_sealed = ((rep, None), w') \<and> rp_Failed rep = (\<lambda>_. 0)"
proof -
  obtain c where "\<And>t. sample_resealer t ''pw'' = Inr (c, True)" using sample_reseals by blast
  then show ?thesis
    by (simp add: Store_Reseal_def sealedColumns_def db_def tx_sealed_rows_def column_rows_def sample_sealed_def empty_registry_def
        sample_service_def reseal_row_def tick_def tx_reseal_def empty_report_def Let_def)
qed

theorem reseal_complete_witness:
  "\<exists>rep w'. run_state (Store_Reseal sample_service sample_resealer) sample_sealed = ((rep, None), w') \<and>
     (\<forall>(key, v) \<in> set (column_rows AdmissionPSK (reg w')). v = [] \<or> current sample_bao_config sample_D v)"
  using sample_run reseal_complete[OF sample_transit sample_keys_agree sample_alone(1)] by blast

end
