(* ===== verification/Wireless.thy ===== *)
theory Wireless
  imports Client Tenant
begin

text \<open>
  \<^verbatim>\<open>internal/backend/omada\<close>: the Wi-Fi keys in the profiles of the wireless controller. The client caches the
  controller's id, its site and a token; the controller refuses to delete a profile's last key, so a placeholder takes
  its place, and goes when a real key is issued.

  The controller and the random source are parameters. What is proved of the requests holds for every controller;
  \<open>controller\<close> is the behaviour the package's comment records of it, for the theorems on what a profile holds afterwards.
\<close>

section \<open>Requests and answers\<close>

record profileBrief =
  pf_ID :: string
  pf_ProfileName :: string
  pf_SSID :: "string list"

record pskEntry =
  pk_Name :: string
  pk_PSK :: string
  pk_MAC :: string
  pk_VLAN :: int

datatype om_request =
    GetInfo
  | PostToken string string string
  | ListSites
  | ListProfiles string
  | GetProfile string string
  | AddPSK string string pskEntry
  | DeletePSK string string "string list"

datatype om_result = RNone | RInfo string | RToken string int | RSites "string list" | RProfiles "profileBrief list" | RKeys "pskEntry list"

record envelope =
  ev_ErrorCode :: int
  ev_Msg :: string
  ev_Result :: om_result

text \<open>No answer, or a status and what the body decodes to.\<close>

datatype om_answer = OmNoAnswer string | OmAnswer int "envelope option"

type_synonym 's om_server = "string \<Rightarrow> string \<Rightarrow> om_request \<Rightarrow> 's \<Rightarrow> om_answer \<times> nat \<times> 's"

text \<open>The draws of \<^verbatim>\<open>crypto/rand\<close> are a function of the position, or an error.\<close>

record 's om_config =
  oc_srv :: "'s om_server"
  oc_id :: string
  oc_secret :: string
  oc_rand :: "'s \<Rightarrow> (nat \<Rightarrow> nat) option \<times> 's"

record 's omada =
  om_server :: 's
  om_now :: int
  om_omadacID :: string
  om_siteID :: string
  om_token :: string
  om_tokenExp :: int
  om_log :: "(string \<times> om_request \<times> om_answer) list"

datatype om_error =
    OmTransport string | Unauthorized401 | OmHTTP int | OmDecode | APIError int string | OmFailure string
  | OmDuring string om_error

fun isAuthFailure :: "om_error \<Rightarrow> bool" where
  "isAuthFailure (APIError code _) = (code = -44112 \<or> code = -44113 \<or> code = -1200)"
| "isAuthFailure Unauthorized401 = True"
| "isAuthFailure (OmDuring _ e) = isAuthFailure e"
| "isAuthFailure _ = False"

type_synonym ('s, 'a) om = "('s omada, om_error + 'a) state"

section \<open>Transport\<close>

definition om_read :: "om_answer \<Rightarrow> om_error + envelope" where
  "om_read a =
     (case a of OmNoAnswer m \<Rightarrow> Inl (OmTransport m)
      | OmAnswer code body \<Rightarrow>
          if code = 401 then Inl Unauthorized401
          else if code \<noteq> 200 then Inl (OmHTTP code)
          else (case body of None \<Rightarrow> Inl OmDecode | Some env \<Rightarrow> Inr env))"

definition om_do :: "'s om_config \<Rightarrow> string \<Rightarrow> string \<Rightarrow> om_request \<Rightarrow> ('s, envelope) om" where
  "om_do c i token q = State (\<lambda>w. case oc_srv c i token q (om_server w) of (a, d, s) \<Rightarrow>
     (om_read a, w\<lparr>om_server := s, om_now := om_now w + int d, om_log := om_log w @ [(token, q, a)]\<rparr>))"

definition om_during :: "string \<Rightarrow> ('s, 'a) om \<Rightarrow> ('s, 'a) om" where
  "om_during msg m = do { r \<leftarrow> m; ret (case r of Inl e \<Rightarrow> Inl (OmDuring msg e) | Inr x \<Rightarrow> Inr x) }"

text \<open>The result of an envelope decoded into what the caller expects; an absent one leaves it zero.\<close>

fun as_info :: "om_result \<Rightarrow> string option" where
  "as_info (RInfo i) = Some i" | "as_info RNone = Some []" | "as_info _ = None"

fun as_token :: "om_result \<Rightarrow> (string \<times> int) option" where
  "as_token (RToken t n) = Some (t, n)" | "as_token RNone = Some ([], 0)" | "as_token _ = None"

fun as_sites :: "om_result \<Rightarrow> string list option" where
  "as_sites (RSites xs) = Some xs" | "as_sites RNone = Some []" | "as_sites _ = None"

fun as_profiles :: "om_result \<Rightarrow> profileBrief list option" where
  "as_profiles (RProfiles xs) = Some xs" | "as_profiles RNone = Some []" | "as_profiles _ = None"

fun as_keys :: "om_result \<Rightarrow> pskEntry list option" where
  "as_keys (RKeys xs) = Some xs" | "as_keys RNone = Some []" | "as_keys _ = None"

definition decoded :: "'a option \<Rightarrow> om_error + 'a" where
  "decoded x = (case x of None \<Rightarrow> Inl OmDecode | Some y \<Rightarrow> Inr y)"

section \<open>Identity, token and site\<close>

definition om_get :: "('s omada \<Rightarrow> 'a) \<Rightarrow> ('s omada, 'a) state" where
  "om_get f = State (\<lambda>w. (f w, w))"

definition om_put :: "('s omada \<Rightarrow> 's omada) \<Rightarrow> 'a \<Rightarrow> ('s, 'a) om" where
  "om_put f x = State (\<lambda>w. (Inr x, f w))"

definition identity :: "'s om_config \<Rightarrow> ('s, string) om" where
  "identity c =
     do {
       known \<leftarrow> om_get om_omadacID;
       (if known \<noteq> [] then ret (Inr known)
        else andthen (om_during ''reading controller identity''
              (andthen (om_do c [] [] GetInfo) (\<lambda>env. ret (decoded (as_info (ev_Result env)))))) (\<lambda>i.
          if i = [] then ret (Inl (OmFailure ''controller returned no omadacId''))
          else om_put (\<lambda>w. w\<lparr>om_omadacID := i\<rparr>) i))
     }"

definition om_second :: int where "om_second = 1000000000"

definition defaultTokenTTL :: int where "defaultTokenTTL = 600 * om_second"
definition tokenSkew :: int where "tokenSkew = 60 * om_second"

definition token_ttl :: "int \<Rightarrow> int" where
  "token_ttl expiresIn =
     (let ttl = if expiresIn > 0 then int64 (expiresIn * om_second) else defaultTokenTTL in
      if ttl > tokenSkew then ttl - tokenSkew else ttl)"

definition auth :: "'s om_config \<Rightarrow> ('s, string) om" where
  "auth c =
     do {
       cached \<leftarrow> om_get (\<lambda>w. if om_token w \<noteq> [] \<and> om_now w < om_tokenExp w then Some (om_token w) else None);
       (case cached of Some tok \<Rightarrow> ret (Inr tok)
        | None \<Rightarrow>
            andthen (identity c) (\<lambda>i.
            andthen (om_during ''authenticating'' (andthen (om_do c [] [] (PostToken i (oc_id c) (oc_secret c)))
              (\<lambda>env. ret (map_sum id (Pair env) (decoded (as_token (ev_Result env))))))) (\<lambda>(env, tok, expiresIn).
            if ev_ErrorCode env \<noteq> 0 \<or> tok = [] then ret (Inl (APIError (ev_ErrorCode env) (ev_Msg env)))
            else om_put (\<lambda>w. w\<lparr>om_token := tok, om_tokenExp := om_now w + token_ttl expiresIn\<rparr>) tok)))
     }"

definition callOnce :: "'s om_config \<Rightarrow> (om_result \<Rightarrow> 'a option) \<Rightarrow> om_request \<Rightarrow> ('s, 'a) om" where
  "callOnce c rd q =
     andthen (identity c) (\<lambda>i.
     andthen (auth c) (\<lambda>tok.
     andthen (om_do c i tok q) (\<lambda>env.
       ret (if ev_ErrorCode env \<noteq> 0 then Inl (APIError (ev_ErrorCode env) (ev_Msg env)) else decoded (rd (ev_Result env))))))"

definition auth_failed :: "om_error + 'a \<Rightarrow> bool" where
  "auth_failed r = (case r of Inl e \<Rightarrow> isAuthFailure e | Inr _ \<Rightarrow> False)"

definition om_call :: "'s om_config \<Rightarrow> (om_result \<Rightarrow> 'a option) \<Rightarrow> om_request \<Rightarrow> ('s, 'a) om" where
  "om_call c rd q =
     do {
       r \<leftarrow> callOnce c rd q;
       (if auth_failed r
        then andthen (om_put (\<lambda>w. w\<lparr>om_token := [], om_tokenExp := 0\<rparr>) ()) (\<lambda>_. callOnce c rd q)
        else ret r)
     }"

definition om_site :: "'s om_config \<Rightarrow> ('s, string) om" where
  "om_site c =
     do {
       known \<leftarrow> om_get om_siteID;
       (if known \<noteq> [] then ret (Inr known)
        else andthen (om_call c as_sites ListSites) (\<lambda>sites.
          case sites of [i] \<Rightarrow> om_put (\<lambda>w. w\<lparr>om_siteID := i\<rparr>) i
          | _ \<Rightarrow> ret (Inl (OmFailure (''controller serves '' @ dec (length sites) @ '' sites, expected exactly 1'')))))
     }"

section \<open>Profiles and keys\<close>

definition profileForSSID :: "'s om_config \<Rightarrow> string \<Rightarrow> string \<Rightarrow> ('s, profileBrief) om" where
  "profileForSSID c siteID ssid =
     andthen (om_call c as_profiles (ListProfiles siteID)) (\<lambda>profiles.
       ret (case find (\<lambda>p. ssid \<in> set (pf_SSID p)) profiles of
              Some p \<Rightarrow> Inr p | None \<Rightarrow> Inl (OmFailure (''no PPSK profile is bound to SSID '' @ ssid))))"

definition keysIn :: "'s om_config \<Rightarrow> string \<Rightarrow> string \<Rightarrow> ('s, pskEntry list) om" where
  "keysIn c siteID profileID = om_call c as_keys (GetProfile siteID profileID)"

definition addKey :: "'s om_config \<Rightarrow> string \<Rightarrow> string \<Rightarrow> pskEntry \<Rightarrow> ('s, unit) om" where
  "addKey c siteID profileID e = om_call c (\<lambda>_. Some ()) (AddPSK siteID profileID e)"

definition deleteKeys :: "'s om_config \<Rightarrow> string \<Rightarrow> string \<Rightarrow> string list \<Rightarrow> ('s, unit) om" where
  "deleteKeys c siteID profileID names = om_call c (\<lambda>_. Some ()) (DeletePSK siteID profileID names)"

definition placeholderName :: string where "placeholderName = ''DEEVNET-PLACEHOLDER-DO-NOT-USE''"

definition hasPlaceholder :: "pskEntry list \<Rightarrow> bool" where
  "hasPlaceholder keys = list_ex (\<lambda>e. pk_Name e = placeholderName) keys"

definition vlanOf :: "pskEntry list \<Rightarrow> string \<Rightarrow> int" where
  "vlanOf existing name =
     (case find (\<lambda>e. pk_Name e = name \<and> pk_VLAN e \<ge> 1 \<and> pk_VLAN e \<le> 4094) existing of Some e \<Rightarrow> pk_VLAN e | None \<Rightarrow> 1)"

definition placeholder_alphabet :: string where
  "placeholder_alphabet = ''abcdefghjkmnpqrstuvwxyzACDEFGHJKLMNPQRSTUVWXYZ23456789''"

definition randomPlaceholderPSK :: "'s om_config \<Rightarrow> ('s, string) om" where
  "randomPlaceholderPSK c = State (\<lambda>w. case oc_rand c (om_server w) of
       (None, s) \<Rightarrow> (Inl (OmFailure ''random source''), w\<lparr>om_server := s\<rparr>)
     | (Some draw, s) \<Rightarrow>
         (Inr (map (\<lambda>i. placeholder_alphabet ! (draw i mod length placeholder_alphabet)) [0..<32]), w\<lparr>om_server := s\<rparr>))"

definition placeholder :: "string \<Rightarrow> int \<Rightarrow> pskEntry" where
  "placeholder psk vlan = \<lparr>pk_Name = placeholderName, pk_PSK = psk, pk_MAC = [], pk_VLAN = vlan\<rparr>"

definition guardMinimum :: "'s om_config \<Rightarrow> string \<Rightarrow> string \<Rightarrow> pskEntry list \<Rightarrow> string \<Rightarrow> ('s, bool) om" where
  "guardMinimum c siteID profileID existing name =
     (let others = length (filter (\<lambda>e. pk_Name e \<noteq> name \<and> pk_Name e \<noteq> placeholderName) existing) in
      if hasPlaceholder existing then ret (Inr True)
      else if others > 0 then ret (Inr False)
      else andthen (randomPlaceholderPSK c) (\<lambda>psk.
        andthen (om_during ''adding the placeholder that lets the last key be revoked''
            (addKey c siteID profileID (placeholder psk (vlanOf existing name)))) (\<lambda>_. ret (Inr True))))"

definition spec_entry :: "WiFiKeySpec \<Rightarrow> pskEntry" where
  "spec_entry k = \<lparr>pk_Name = ws_Name k, pk_PSK = ws_PSK k, pk_MAC = ws_MAC k, pk_VLAN = ws_VLAN k\<rparr>"

text \<open>The loop over the keys: it ends at the first of that name, which is right as it is or is deleted.\<close>

definition correct_key :: "'s om_config \<Rightarrow> string \<Rightarrow> string \<Rightarrow> pskEntry list \<Rightarrow> WiFiKeySpec \<Rightarrow> ('s, bool) om" where
  "correct_key c siteID profileID existing k =
     (case find (\<lambda>e. pk_Name e = ws_Name k) existing of
        None \<Rightarrow> ret (Inr True)
      | Some e \<Rightarrow>
          if pk_PSK e = ws_PSK k \<and> pk_VLAN e = ws_VLAN k \<and> pk_MAC e = ws_MAC k then ret (Inr False)
          else andthen (guardMinimum c siteID profileID existing (ws_Name k)) (\<lambda>_.
            andthen (deleteKeys c siteID profileID [ws_Name k]) (\<lambda>_. ret (Inr True))))"

definition drop_placeholder :: "'s om_config \<Rightarrow> string \<Rightarrow> string \<Rightarrow> ('s, unit) om" where
  "drop_placeholder c siteID profileID =
     andthen (keysIn c siteID profileID) (\<lambda>after.
       if hasPlaceholder after then deleteKeys c siteID profileID [placeholderName] else ret (Inr ()))"

definition EnsureKey :: "'s om_config \<Rightarrow> WiFiKeySpec \<Rightarrow> ('s, unit) om" where
  "EnsureKey c k =
     (if \<not> ValidPSK (ws_PSK k) then ret (Inl (OmFailure ''psk must be 8 to 63 visible ASCII characters''))
      else if ws_Name k = [] \<or> length (ws_Name k) > 64 then ret (Inl (OmFailure ''key name must be 1 to 64 characters''))
      else if ws_Name k = placeholderName then ret (Inl (OmFailure ''reserved''))
      else if ws_VLAN k < 1 \<or> ws_VLAN k > 4094 then ret (Inl (OmFailure ''vlan is outside 1-4094''))
      else
        andthen (om_site c) (\<lambda>siteID.
        andthen (profileForSSID c siteID (ws_SSID k)) (\<lambda>profile.
        andthen (keysIn c siteID (pf_ID profile)) (\<lambda>existing.
        andthen (correct_key c siteID (pf_ID profile) existing k) (\<lambda>needsWrite.
        andthen (if needsWrite then addKey c siteID (pf_ID profile) (spec_entry k) else ret (Inr ())) (\<lambda>_.
        drop_placeholder c siteID (pf_ID profile)))))))"

definition RemoveKey :: "'s om_config \<Rightarrow> string \<Rightarrow> string \<Rightarrow> ('s, unit) om" where
  "RemoveKey c ssid name =
     andthen (om_site c) (\<lambda>siteID.
     andthen (profileForSSID c siteID ssid) (\<lambda>profile.
     andthen (keysIn c siteID (pf_ID profile)) (\<lambda>existing.
       if \<not> list_ex (\<lambda>e. pk_Name e = name) existing then ret (Inr ())
       else andthen (guardMinimum c siteID (pf_ID profile) existing name) (\<lambda>_.
         deleteKeys c siteID (pf_ID profile) [name]))))"

section \<open>What is written, whatever the controller answers\<close>

text \<open>Every request a run adds to the log meets \<open>P\<close>.\<close>

definition om_asked :: "(om_request \<Rightarrow> bool) \<Rightarrow> 's omada \<Rightarrow> 's omada \<Rightarrow> bool" where
  "om_asked P w w' = (\<exists>ext. om_log w' = om_log w @ ext \<and> (\<forall>(_, q, _) \<in> set ext. P q))"

interpretation omq: io_preorder "om_asked P" for P
proof
  show "om_asked P s s" for s :: "'a omada" by (simp add: om_asked_def)
  show "om_asked P s u" if "om_asked P s t" "om_asked P t u" for s t u :: "'a omada"
    using that unfolding om_asked_def by (metis Un_iff append_assoc set_append)
qed

text \<open>The requests that read or log in.\<close>

fun om_reads :: "om_request \<Rightarrow> bool" where
  "om_reads (AddPSK _ _ _) = False"
| "om_reads (DeletePSK _ _ _) = False"
| "om_reads _ = True"

lemma omq_andthen: "omq.keeps P m \<Longrightarrow> (\<And>x. omq.keeps P (k x)) \<Longrightarrow> omq.keeps P (andthen m k)"
  unfolding andthen_def by (intro omq.keeps_intros)

lemma omq_during: "omq.keeps P m \<Longrightarrow> omq.keeps P (om_during msg m)"
  unfolding om_during_def by (intro omq.keeps_intros)

lemma omq_do: "P q \<Longrightarrow> omq.keeps P (om_do c i tok q)"
  by (rule omq.keepsI) (auto simp: om_do_def om_asked_def split: prod.split)

lemma omq_state:
  "omq.keeps P (om_get f)" "(\<And>w. om_log (g w) = om_log w) \<Longrightarrow> omq.keeps P (om_put g x)" "omq.keeps P (randomPlaceholderPSK c)"
  by (rule omq.keepsI, simp add: om_get_def om_put_def randomPlaceholderPSK_def om_asked_def split: prod.split option.split)+

lemmas omq_intros = omq.keeps_intros omq_andthen omq_during omq_do omq_state

lemma omq_call:
  assumes "\<And>q. om_reads q \<Longrightarrow> P q" "P q"
  shows "omq.keeps P (om_call c rd q)"
proof -
  have "omq.keeps P (identity c)" unfolding identity_def by (intro omq_intros) (simp_all add: assms(1))
  moreover from this have "omq.keeps P (auth c)"
    unfolding auth_def by (intro omq_intros) (simp_all add: assms(1) split: prod.split)
  ultimately show ?thesis
    unfolding om_call_def callOnce_def by (intro omq_intros) (simp_all add: assms(2))
qed

text \<open>What a call for the key \<open>name\<close> may write: that key's deletion, the placeholder, and the entries \<open>own\<close>.\<close>

definition own_writes :: "string \<Rightarrow> (pskEntry \<Rightarrow> bool) \<Rightarrow> om_request \<Rightarrow> bool" where
  "own_writes name own q =
     (case q of AddPSK _ _ e \<Rightarrow> own e \<or> pk_Name e = placeholderName
      | DeletePSK _ _ names \<Rightarrow> names = [name] \<or> names = [placeholderName]
      | _ \<Rightarrow> True)"

lemma own_writes_read: "om_reads q \<Longrightarrow> own_writes name own q"
  by (cases q) (simp_all add: own_writes_def)

lemma omq_own_call: "own_writes name own q \<Longrightarrow> omq.keeps (own_writes name own) (om_call c rd q)"
  by (rule omq_call[OF own_writes_read])

lemma omq_ops:
  "omq.keeps (own_writes name own) (om_site c)" "omq.keeps (own_writes name own) (profileForSSID c site ssid)"
  "omq.keeps (own_writes name own) (keysIn c site prof)"
  "names = [name] \<or> names = [placeholderName] \<Longrightarrow> omq.keeps (own_writes name own) (deleteKeys c site prof names)"
  "own e \<or> pk_Name e = placeholderName \<Longrightarrow> omq.keeps (own_writes name own) (addKey c site prof e)"
  unfolding om_site_def profileForSSID_def keysIn_def deleteKeys_def addKey_def
  by (intro omq_intros omq_own_call; simp add: own_writes_def)+

lemma omq_guard: "omq.keeps (own_writes name own) (guardMinimum c site prof existing name')"
  unfolding guardMinimum_def Let_def by (intro omq_intros omq_ops(5)) (simp add: placeholder_def)

lemma RemoveKey_writes: "omq.keeps (own_writes name (\<lambda>_. False)) (RemoveKey c ssid name)"
  unfolding RemoveKey_def by (intro omq_intros omq_ops omq_guard) simp

lemma EnsureKey_writes: "omq.keeps (own_writes (ws_Name k) (\<lambda>e. e = spec_entry k)) (EnsureKey c k)"
  unfolding EnsureKey_def correct_key_def drop_placeholder_def by (intro omq_intros omq_ops omq_guard) simp_all

text \<open>Issuing or revoking a Wi-Fi key never touches another one, whatever the controller answers: every key added is the
  one that was asked for or the placeholder, and every deletion names that key or the placeholder alone.\<close>

lemma wifi_writes_own_key:
  assumes "run_state (if issue then EnsureKey c k else RemoveKey c (ws_SSID k) (ws_Name k)) w = (r, w')"
  shows "\<exists>ext. om_log w' = om_log w @ ext \<and>
    (\<forall>(_, q, _) \<in> set ext. own_writes (ws_Name k) (\<lambda>e. issue \<and> e = spec_entry k) q)"
proof -
  have "omq.keeps (own_writes (ws_Name k) (\<lambda>e. issue \<and> e = spec_entry k))
      (if issue then EnsureKey c k else RemoveKey c (ws_SSID k) (ws_Name k))"
    by (cases issue) (simp_all add: EnsureKey_writes RemoveKey_writes)
  from omq.keepsD[OF this, of w] assms show ?thesis by (simp add: om_asked_def)
qed

section \<open>The documented controller\<close>

text \<open>
  The keys of each profile, what a request answers on them and what it makes of them. A deletion that would empty a
  profile is refused with -34044.
\<close>

type_synonym key_table = "string \<Rightarrow> pskEntry list"

definition om_ok :: "om_result \<Rightarrow> envelope" where
  "om_ok r = \<lparr>ev_ErrorCode = 0, ev_Msg = [], ev_Result = r\<rparr>"

definition last_key_refused :: envelope where
  "last_key_refused = \<lparr>ev_ErrorCode = -34044, ev_Msg = ''The PPSK Profile should have at least one PSK entry.'', ev_Result = RNone\<rparr>"

definition om_effect :: "string \<Rightarrow> profileBrief list \<Rightarrow> om_request \<Rightarrow> key_table \<Rightarrow> envelope \<times> key_table" where
  "om_effect site profiles q K =
     (case q of
        ListSites \<Rightarrow> (om_ok (RSites [site]), K)
      | ListProfiles _ \<Rightarrow> (om_ok (RProfiles profiles), K)
      | GetProfile _ p \<Rightarrow> (om_ok (RKeys (K p)), K)
      | AddPSK _ p e \<Rightarrow> (om_ok RNone, K(p := K p @ [e]))
      | DeletePSK _ p names \<Rightarrow>
          (let rest = filter (\<lambda>e. pk_Name e \<notin> set names) (K p) in
           if rest = [] then (last_key_refused, K) else (om_ok RNone, K(p := rest)))
      | _ \<Rightarrow> (om_ok RNone, K))"

text \<open>
  \<open>keys\<close> reads the profiles from the controller's state and \<open>good\<close> the tokens it takes. It hands out its id and good
  tokens, answers a request with a good token, and answers 401 to one without.
\<close>

fun om_authed :: "om_request \<Rightarrow> bool" where
  "om_authed GetInfo = False"
| "om_authed (PostToken _ _ _) = False"
| "om_authed _ = True"

definition controller_reply ::
  "string \<Rightarrow> profileBrief list \<Rightarrow> ('s \<Rightarrow> key_table) \<Rightarrow> ('s \<Rightarrow> string set) \<Rightarrow> string \<Rightarrow> om_request \<Rightarrow> 's \<Rightarrow> om_answer \<Rightarrow> 's \<Rightarrow> bool" where
  "controller_reply site profiles keys good tok q s a s' =
     (if \<not> om_authed q then
        keys s' = keys s \<and>
        (if q = GetInfo then good s' = good s \<and> (\<exists>i. i \<noteq> [] \<and> a = OmAnswer 200 (Some (om_ok (RInfo i))))
         else (\<exists>t n. t \<noteq> [] \<and> t \<in> good s' \<and> a = OmAnswer 200 (Some (om_ok (RToken t n)))))
      else if tok \<in> good s then
        a = OmAnswer 200 (Some (fst (om_effect site profiles q (keys s)))) \<and> keys s' = snd (om_effect site profiles q (keys s))
      else a = OmAnswer 401 None \<and> keys s' = keys s)"

definition controller :: "'s om_config \<Rightarrow> string \<Rightarrow> profileBrief list \<Rightarrow> ('s \<Rightarrow> key_table) \<Rightarrow> ('s \<Rightarrow> string set) \<Rightarrow> bool" where
  "controller c site profiles keys good =
     (site \<noteq> [] \<and>
      (\<forall>s. fst (oc_rand c s) \<noteq> None \<and> keys (snd (oc_rand c s)) = keys s) \<and>
      (\<forall>i tok q s. case oc_srv c i tok q s of (a, d, s') \<Rightarrow> controller_reply site profiles keys good tok q s a s'))"

lemma controller_answer:
  "controller c site profiles keys good \<Longrightarrow> oc_srv c i tok q s = (a, d, s') \<Longrightarrow> controller_reply site profiles keys good tok q s a s'"
  unfolding controller_def by (metis (no_types, lifting) case_prod_conv)

lemma identity_run:
  assumes "controller c site profiles keys good"
  shows "\<exists>i w'. run_state (identity c) w = (Inr i, w') \<and> i \<noteq> [] \<and> om_omadacID w' = i \<and> keys (om_server w') = keys (om_server w) \<and>
    good (om_server w') = good (om_server w) \<and> om_token w' = om_token w \<and> om_tokenExp w' = om_tokenExp w"
proof -
  obtain a d s' where q: "oc_srv c [] [] GetInfo (om_server w) = (a, d, s')" using prod_cases3 by blast
  moreover have "(\<exists>i. i \<noteq> [] \<and> a = OmAnswer 200 (Some (om_ok (RInfo i)))) \<and> keys s' = keys (om_server w) \<and> good s' = good (om_server w)"
    using controller_answer[OF assms q] by (simp add: controller_reply_def)
  ultimately show ?thesis
    by (auto simp: identity_def om_get_def om_put_def andthen_def om_during_def om_do_def om_read_def om_ok_def decoded_def)
qed

lemma auth_run:
  assumes "controller c site profiles keys good"
  shows "\<exists>tok w'. run_state (auth c) w = (Inr tok, w') \<and> keys (om_server w') = keys (om_server w) \<and>
    (tok \<in> good (om_server w') \<or> om_token w \<noteq> [])"
proof (cases "om_token w \<noteq> [] \<and> om_now w < om_tokenExp w")
  case True
  then show ?thesis by (simp add: auth_def om_get_def)
next
  case False
  obtain i w1 where i: "run_state (identity c) w = (Inr i, w1)" "keys (om_server w1) = keys (om_server w)"
    using identity_run[OF assms] by blast
  obtain a d s' where q: "oc_srv c [] [] (PostToken i (oc_id c) (oc_secret c)) (om_server w1) = (a, d, s')" using prod_cases3 by blast
  then obtain t n where "t \<noteq> []" "t \<in> good s'" "a = OmAnswer 200 (Some (om_ok (RToken t n)))" "keys s' = keys (om_server w1)"
    using controller_answer[OF assms q] by (auto simp: controller_reply_def)
  then show ?thesis
    using False i q by (auto simp: auth_def om_get_def om_put_def andthen_def om_during_def om_do_def om_read_def om_ok_def decoded_def)
qed

definition om_outcome :: "(om_result \<Rightarrow> 'a option) \<Rightarrow> envelope \<Rightarrow> om_error + 'a" where
  "om_outcome rd env = (if ev_ErrorCode env \<noteq> 0 then Inl (APIError (ev_ErrorCode env) (ev_Msg env)) else decoded (rd (ev_Result env)))"

lemma callOnce_run:
  assumes "controller c site profiles keys good" "om_authed q" "om_effect site profiles q (keys (om_server w)) = (env, K)"
  shows "\<exists>r w'. run_state (callOnce c rd q) w = (r, w') \<and>
    (r = om_outcome rd env \<and> keys (om_server w') = K \<or> om_token w \<noteq> [] \<and> r = Inl Unauthorized401 \<and> keys (om_server w') = keys (om_server w))"
proof -
  obtain i w1 where i: "run_state (identity c) w = (Inr i, w1)" "keys (om_server w1) = keys (om_server w)" "om_token w1 = om_token w"
    using identity_run[OF assms(1)] by blast
  obtain tok w2 where t: "run_state (auth c) w1 = (Inr tok, w2)" "keys (om_server w2) = keys (om_server w1)"
      "tok \<in> good (om_server w2) \<or> om_token w1 \<noteq> []"
    using auth_run[OF assms(1)] by blast
  obtain a d s' where q: "oc_srv c i tok q (om_server w2) = (a, d, s')" using prod_cases3 by blast
  show ?thesis
  proof (cases "tok \<in> good (om_server w2)")
    case True
    then have "a = OmAnswer 200 (Some env)" "keys s' = K"
      using controller_answer[OF assms(1) q] assms(2,3) i t by (simp_all add: controller_reply_def)
    then show ?thesis using i t q by (simp add: callOnce_def andthen_def om_do_def om_read_def om_outcome_def)
  next
    case False
    then have "a = OmAnswer 401 None" "keys s' = keys (om_server w2)"
      using controller_answer[OF assms(1) q] assms(2) by (simp_all add: controller_reply_def)
    then show ?thesis using False i t q by (simp add: callOnce_def andthen_def om_do_def om_read_def)
  qed
qed

text \<open>A call has its documented effect once, whether or not the cached token was still good.\<close>

lemma om_call_run:
  assumes "controller c site profiles keys good" "om_authed q" "om_effect site profiles q (keys (om_server w)) = (env, K)"
    and "ev_ErrorCode env = 0 \<or> ev_ErrorCode env = -34044"
  shows "\<exists>w'. run_state (om_call c rd q) w = (om_outcome rd env, w') \<and> keys (om_server w') = K"
proof -
  have "\<not> auth_failed (om_outcome rd env)"
    using assms(4) by (auto simp: auth_failed_def om_outcome_def decoded_def split: option.splits)
  obtain r w1 where one: "run_state (callOnce c rd q) w = (r, w1)"
      "r = om_outcome rd env \<and> keys (om_server w1) = K \<or> r = Inl Unauthorized401 \<and> keys (om_server w1) = keys (om_server w)"
    using callOnce_run[OF assms(1-3)] by blast
  from one(2) show ?thesis
  proof
    assume "r = om_outcome rd env \<and> keys (om_server w1) = K"
    then show ?thesis using one(1) \<open>\<not> auth_failed _\<close> by (simp add: om_call_def)
  next
    assume r: "r = Inl Unauthorized401 \<and> keys (om_server w1) = keys (om_server w)"
    have "\<exists>w'. run_state (callOnce c rd q) (w1\<lparr>om_token := [], om_tokenExp := 0\<rparr>) = (om_outcome rd env, w') \<and> keys (om_server w') = K"
      using callOnce_run[OF assms(1,2), of "w1\<lparr>om_token := [], om_tokenExp := 0\<rparr>" env K rd] assms(3) r by auto
    then show ?thesis using one(1) r by (auto simp: om_call_def andthen_def om_put_def auth_failed_def)
  qed
qed

text \<open>\<open>m\<close> returns \<open>x\<close> without an error and leaves the profiles at \<open>K\<close>.\<close>

definition om_runs :: "('s \<Rightarrow> key_table) \<Rightarrow> ('s, 'a) om \<Rightarrow> 's omada \<Rightarrow> 'a \<Rightarrow> key_table \<Rightarrow> bool" where
  "om_runs keys m w x K = (\<exists>w'. run_state m w = (Inr x, w') \<and> keys (om_server w') = K)"

lemma om_runs_andthen:
  "om_runs keys m w x K \<Longrightarrow> (\<And>w'. keys (om_server w') = K \<Longrightarrow> om_runs keys (k x) w' y K') \<Longrightarrow> om_runs keys (andthen m k) w y K'"
  unfolding om_runs_def andthen_def by auto

lemma om_runs_ret: "keys (om_server w) = K \<Longrightarrow> om_runs keys (ret (Inr x)) w x K"
  by (simp add: om_runs_def)

lemma om_runs_call:
  assumes "controller c site profiles keys good" "om_authed q" "om_effect site profiles q (keys (om_server w)) = (om_ok res, K)" "rd res = Some x"
  shows "om_runs keys (om_call c rd q) w x K"
  using om_call_run[OF assms(1-3), of rd] assms(4) by (simp add: om_runs_def om_outcome_def om_ok_def decoded_def)

lemma om_runs_ops:
  assumes "controller c site profiles keys good"
  shows "om_runs keys (keysIn c i p) w (keys (om_server w) p) (keys (om_server w))"
    and "om_runs keys (addKey c i p e) w () ((keys (om_server w))(p := keys (om_server w) p @ [e]))"
    and "filter (\<lambda>e. pk_Name e \<notin> set names) (keys (om_server w) p) \<noteq> [] \<Longrightarrow>
      om_runs keys (deleteKeys c i p names) w () ((keys (om_server w))(p := filter (\<lambda>e. pk_Name e \<notin> set names) (keys (om_server w) p)))"
    and "find (\<lambda>p. ssid \<in> set (pf_SSID p)) profiles = Some prof \<Longrightarrow>
      om_runs keys (profileForSSID c i ssid) w prof (keys (om_server w))"
  unfolding keysIn_def addKey_def deleteKeys_def profileForSSID_def
  by (rule om_runs_call[OF assms], simp, simp add: om_effect_def Let_def, simp,
      rule om_runs_call[OF assms], simp, simp add: om_effect_def Let_def, simp,
      rule om_runs_call[OF assms], simp, simp add: om_effect_def Let_def, simp,
      rule om_runs_andthen, rule om_runs_call[OF assms], simp, simp add: om_effect_def, simp, simp add: om_runs_def)

lemma om_site_runs:
  assumes "controller c site profiles keys good"
  shows "\<exists>i. om_runs keys (om_site c) w i (keys (om_server w))"
proof (cases "om_siteID w = []")
  case False
  then show ?thesis by (auto simp: om_runs_def om_site_def om_get_def)
next
  case True
  obtain w1 where "run_state (om_call c as_sites ListSites) w = (Inr [site], w1)" "keys (om_server w1) = keys (om_server w)"
    using om_runs_call[OF assms, of ListSites w "RSites [site]" _ as_sites "[site]"] by (auto simp: om_effect_def om_runs_def)
  then show ?thesis using True by (auto simp: om_runs_def om_site_def om_get_def andthen_def om_put_def)
qed

lemma random_runs:
  assumes "controller c site profiles keys good"
  shows "\<exists>psk. om_runs keys (randomPlaceholderPSK c) w psk (keys (om_server w))"
proof -
  obtain draw s where "oc_rand c (om_server w) = (Some draw, s)" "keys s = keys (om_server w)"
    using assms unfolding controller_def by (metis option.exhaust prod.collapse)
  then show ?thesis by (simp add: randomPlaceholderPSK_def om_runs_def)
qed

text \<open>After the guard the profile has a key beside \<open>name\<close>: another one it had, or a placeholder it has now.\<close>

lemma guard_runs:
  assumes "controller c site profiles keys good" "name \<noteq> placeholderName"
  shows "\<exists>b extra. om_runs keys (guardMinimum c i p (keys (om_server w) p) name) w b ((keys (om_server w))(p := keys (om_server w) p @ extra)) \<and>
    (\<forall>e \<in> set extra. pk_Name e = placeholderName) \<and>
    (extra \<noteq> [] \<longrightarrow> (\<forall>e \<in> set (keys (om_server w) p). pk_Name e = name)) \<and>
    filter (\<lambda>e. pk_Name e \<noteq> name) (keys (om_server w) p @ extra) \<noteq> []"
proof -
  let ?K = "keys (om_server w)"
  consider (has) "hasPlaceholder (?K p)" | (others) "\<not> hasPlaceholder (?K p)" "\<exists>e \<in> set (?K p). pk_Name e \<noteq> name \<and> pk_Name e \<noteq> placeholderName"
    | (last) "\<not> hasPlaceholder (?K p)" "\<forall>e \<in> set (?K p). pk_Name e = name"
    using assms(2) unfolding hasPlaceholder_def list_ex_iff by blast
  then show ?thesis
  proof cases
    case has
    then have "filter (\<lambda>e. pk_Name e \<noteq> name) (?K p) \<noteq> []" using assms(2) by (auto simp: hasPlaceholder_def list_ex_iff filter_empty_conv)
    then show ?thesis using has by (intro exI[of _ True] exI[of _ "[]"]) (simp add: guardMinimum_def om_runs_def)
  next
    case others
    then have "filter (\<lambda>e. pk_Name e \<noteq> name) (?K p) \<noteq> []" "filter (\<lambda>e. pk_Name e \<noteq> name \<and> pk_Name e \<noteq> placeholderName) (?K p) \<noteq> []"
      by (auto simp: filter_empty_conv)
    then show ?thesis using others by (intro exI[of _ False] exI[of _ "[]"]) (simp add: guardMinimum_def om_runs_def)
  next
    case last
    obtain psk w1 where r: "run_state (randomPlaceholderPSK c) w = (Inr psk, w1)" "keys (om_server w1) = ?K"
      using random_runs[OF assms(1)] unfolding om_runs_def by blast
    let ?ph = "placeholder psk (vlanOf (?K p) name)"
    obtain w2 where a: "run_state (addKey c i p ?ph) w1 = (Inr (), w2)" "keys (om_server w2) = ?K(p := ?K p @ [?ph])"
      using om_runs_ops(2)[OF assms(1), of i p ?ph w1] r(2) by (auto simp: om_runs_def)
    have "om_runs keys (guardMinimum c i p (?K p) name) w True (?K(p := ?K p @ [?ph]))"
      using last r a by (simp add: guardMinimum_def om_runs_def andthen_def om_during_def)
    then show ?thesis
      using last assms(2) by (intro exI[of _ True] exI[of _ "[?ph]"]) (simp add: placeholder_def)
  qed
qed

text \<open>Both operations find the profile and read its keys first.\<close>

lemma located:
  assumes "controller c site profiles keys good" "find (\<lambda>p. ssid \<in> set (pf_SSID p)) profiles = Some prof"
  shows "\<exists>i w'. keys (om_server w') = keys (om_server w) \<and>
    (\<forall>k. run_state (andthen (om_site c) (\<lambda>i. andthen (profileForSSID c i ssid) (\<lambda>p. andthen (keysIn c i (pf_ID p)) (k i p)))) w =
       run_state (k i prof (keys (om_server w) (pf_ID prof))) w')"
proof -
  let ?K = "keys (om_server w)"
  obtain i w1 where 1: "run_state (om_site c) w = (Inr i, w1)" "keys (om_server w1) = ?K"
    using om_site_runs[OF assms(1), of w] by (auto simp: om_runs_def)
  obtain w2 where 2: "run_state (profileForSSID c i ssid) w1 = (Inr prof, w2)" "keys (om_server w2) = ?K"
    using om_runs_ops(4)[OF assms, of i w1] 1 by (auto simp: om_runs_def)
  obtain w3 where "run_state (keysIn c i (pf_ID prof)) w2 = (Inr (?K (pf_ID prof)), w3)" "keys (om_server w3) = ?K"
    using om_runs_ops(1)[OF assms(1), of i "pf_ID prof" w2] 2 by (auto simp: om_runs_def)
  then show ?thesis using 1 2 by (intro exI[of _ i] exI[of _ w3]) (simp add: andthen_def)
qed

text \<open>The guard and the deletion together.\<close>

lemma guarded_delete:
  assumes "controller c site profiles keys good" "name \<noteq> placeholderName"
  shows "\<exists>w' extra. run_state (andthen (guardMinimum c i p (keys (om_server w) p) name) (\<lambda>_. deleteKeys c i p [name])) w = (Inr (), w') \<and>
    keys (om_server w') = (keys (om_server w))(p := filter (\<lambda>e. pk_Name e \<noteq> name) (keys (om_server w) p) @ extra) \<and>
    (\<forall>e \<in> set extra. pk_Name e = placeholderName) \<and> (extra \<noteq> [] \<longrightarrow> (\<forall>e \<in> set (keys (om_server w) p). pk_Name e = name))"
proof -
  let ?K = "keys (om_server w)"
  obtain b extra w1 where g: "run_state (guardMinimum c i p (?K p) name) w = (Inr b, w1)" "keys (om_server w1) = ?K(p := ?K p @ extra)"
      "\<forall>e \<in> set extra. pk_Name e = placeholderName" "extra \<noteq> [] \<longrightarrow> (\<forall>e \<in> set (?K p). pk_Name e = name)"
      "filter (\<lambda>e. pk_Name e \<noteq> name) (?K p @ extra) \<noteq> []"
    using guard_runs[OF assms, of i p w] unfolding om_runs_def by blast
  have kept: "filter (\<lambda>e. pk_Name e \<noteq> name) extra = extra" using g(3) assms(2) by (simp add: filter_id_conv)
  then have rest: "filter (\<lambda>e. pk_Name e \<notin> set [name]) (keys (om_server w1) p) = filter (\<lambda>e. pk_Name e \<noteq> name) (?K p) @ extra"
    using g(2) by simp
  have "filter (\<lambda>e. pk_Name e \<notin> set [name]) (keys (om_server w1) p) \<noteq> []" using g(5) kept rest by simp
  then obtain w2 where d: "run_state (deleteKeys c i p [name]) w1 = (Inr (), w2)"
      "keys (om_server w2) = (keys (om_server w1))(p := filter (\<lambda>e. pk_Name e \<notin> set [name]) (keys (om_server w1) p))"
    using om_runs_ops(3)[OF assms(1), of "[name]" w1 p i] unfolding om_runs_def by blast
  have "keys (om_server w2) = ?K(p := filter (\<lambda>e. pk_Name e \<noteq> name) (?K p) @ extra)"
    unfolding d(2) rest unfolding g(2) by simp
  moreover have "run_state (andthen (guardMinimum c i p (?K p) name) (\<lambda>_. deleteKeys c i p [name])) w = (Inr (), w2)"
    using g(1) d(1) by (simp add: andthen_def)
  ultimately show ?thesis using g(3,4) by blast
qed

text \<open>C16. Against the documented controller a Wi-Fi key can be revoked whatever else its profile holds, the last key
  included: the call succeeds, the key is gone, every other key and every other profile is as it was, and the only thing
  that may be left in its place is the placeholder, when it was the last.\<close>

theorem wifi_key_revoked:
  assumes "controller c site profiles keys good" "find (\<lambda>p. ssid \<in> set (pf_SSID p)) profiles = Some prof"
    and "name \<noteq> placeholderName" "keys (om_server w) (pf_ID prof) = ks"
  shows "\<exists>w' extra. run_state (RemoveKey c ssid name) w = (Inr (), w') \<and>
    keys (om_server w') = (keys (om_server w))(pf_ID prof := filter (\<lambda>e. pk_Name e \<noteq> name) ks @ extra) \<and>
    (\<forall>e \<in> set extra. pk_Name e = placeholderName) \<and> (extra \<noteq> [] \<longrightarrow> (\<forall>e \<in> set ks. pk_Name e = name))"
proof -
  let ?K = "keys (om_server w)" and ?p = "pf_ID prof"
  obtain i w3 where w3: "keys (om_server w3) = ?K" and run: "run_state (RemoveKey c ssid name) w =
      run_state (if \<not> list_ex (\<lambda>e. pk_Name e = name) (?K ?p) then ret (Inr ())
        else andthen (guardMinimum c i ?p (?K ?p) name) (\<lambda>_. deleteKeys c i ?p [name])) w3"
    using located[OF assms(1,2), of w] unfolding RemoveKey_def by fast
  show ?thesis
  proof (cases "list_ex (\<lambda>e. pk_Name e = name) ks")
    case False
    then have "filter (\<lambda>e. pk_Name e \<noteq> name) ks = ks" by (simp add: list_ex_iff filter_id_conv)
    then show ?thesis using False run assms(4) w3 by (intro exI[of _ w3] exI[of _ "[]"]) auto
  next
    case True
    then show ?thesis using guarded_delete[OF assms(1,3), of i ?p w3] run w3 assms(4) by simp
  qed
qed

lemma drop_runs:
  assumes "controller c site profiles keys good" "e \<in> set (keys (om_server w) p)" "pk_Name e \<noteq> placeholderName"
  shows "om_runs keys (drop_placeholder c i p) w ()
    ((keys (om_server w))(p := filter (\<lambda>e. pk_Name e \<noteq> placeholderName) (keys (om_server w) p)))"
proof -
  let ?K = "keys (om_server w)"
  obtain w1 where 1: "run_state (keysIn c i p) w = (Inr (?K p), w1)" "keys (om_server w1) = ?K"
    using om_runs_ops(1)[OF assms(1), of i p w] unfolding om_runs_def by blast
  show ?thesis
  proof (cases "hasPlaceholder (?K p)")
    case False
    then have "filter (\<lambda>e. pk_Name e \<noteq> placeholderName) (?K p) = ?K p" by (simp add: hasPlaceholder_def list_ex_iff filter_id_conv)
    then show ?thesis using 1 False by (simp add: drop_placeholder_def andthen_def om_runs_def)
  next
    case True
    have "filter (\<lambda>e. pk_Name e \<notin> set [placeholderName]) (keys (om_server w1) p) \<noteq> []"
      using assms(2,3) 1 by (auto simp: filter_empty_conv)
    from om_runs_ops(3)[OF assms(1) this, of i] show ?thesis
      using 1 True by (simp add: drop_placeholder_def andthen_def om_runs_def)
  qed
qed

lemma correct_runs:
  assumes "controller c site profiles keys good" "ws_Name k \<noteq> placeholderName" "keys (om_server w) p = ks"
  shows "\<exists>b w' ks' extra. run_state (correct_key c i p ks k) w = (Inr b, w') \<and> keys (om_server w') = (keys (om_server w))(p := ks') \<and>
    (\<not> b \<longrightarrow> spec_entry k \<in> set ks') \<and> filter (\<lambda>e. pk_Name e \<noteq> ws_Name k) ks' = filter (\<lambda>e. pk_Name e \<noteq> ws_Name k) ks @ extra \<and>
    (\<forall>e \<in> set extra. pk_Name e = placeholderName)"
proof (cases "find (\<lambda>e. pk_Name e = ws_Name k) ks")
  case None
  then show ?thesis using assms(3) by (intro exI[of _ True] exI[of _ w] exI[of _ ks] exI[of _ "[]"]) (auto simp: correct_key_def)
next
  case (Some e)
  then have e: "e \<in> set ks" "pk_Name e = ws_Name k" by (auto simp: find_Some_iff)
  show ?thesis
  proof (cases "pk_PSK e = ws_PSK k \<and> pk_VLAN e = ws_VLAN k \<and> pk_MAC e = ws_MAC k")
    case True
    then have "spec_entry k \<in> set ks" using e by (simp add: spec_entry_def) (metis pskEntry.surjective old.unit.exhaust)
    then show ?thesis using Some True assms(3)
      by (intro exI[of _ False] exI[of _ w] exI[of _ ks] exI[of _ "[]"]) (auto simp: correct_key_def)
  next
    case False
    obtain w1 extra where d: "run_state (andthen (guardMinimum c i p ks (ws_Name k)) (\<lambda>_. deleteKeys c i p [ws_Name k])) w = (Inr (), w1)"
        "keys (om_server w1) = (keys (om_server w))(p := filter (\<lambda>e. pk_Name e \<noteq> ws_Name k) ks @ extra)"
        "\<forall>e \<in> set extra. pk_Name e = placeholderName"
      using guarded_delete[OF assms(1,2), of i p w] assms(3) by blast
    have "run_state (correct_key c i p ks k) w = (Inr True, w1)"
      using d(1) Some False by (auto simp: correct_key_def andthen_def split: prod.splits sum.splits)
    moreover have "filter (\<lambda>e. pk_Name e \<noteq> ws_Name k) extra = extra" using d(3) assms(2) by (auto simp: filter_id_conv)
    ultimately show ?thesis
      using d by (intro exI[of _ True] exI[of _ w1] exI[of _ "filter (\<lambda>e. pk_Name e \<noteq> ws_Name k) ks @ extra"] exI[of _ extra]) simp
  qed
qed

text \<open>C17. Against the documented controller an accepted Wi-Fi key is in its SSID's profile afterwards, with its password, VLAN
  and MAC, whatever the profile held before: every other key is there as it was and in its order, no placeholder is
  left, and no other profile has changed.\<close>

theorem wifi_key_issued:
  assumes "controller c site profiles keys good" "find (\<lambda>p. ws_SSID k \<in> set (pf_SSID p)) profiles = Some prof"
    and "ValidPSK (ws_PSK k)" "ws_Name k \<noteq> []" "length (ws_Name k) \<le> 64" "ws_Name k \<noteq> placeholderName"
    and "1 \<le> ws_VLAN k" "ws_VLAN k \<le> 4094" "keys (om_server w) (pf_ID prof) = ks"
  shows "\<exists>w' ks'. run_state (EnsureKey c k) w = (Inr (), w') \<and> keys (om_server w') = (keys (om_server w))(pf_ID prof := ks') \<and>
    spec_entry k \<in> set ks' \<and>
    filter (\<lambda>e. pk_Name e \<noteq> ws_Name k) ks' = filter (\<lambda>e. pk_Name e \<noteq> ws_Name k \<and> pk_Name e \<noteq> placeholderName) ks"
proof -
  let ?K = "keys (om_server w)" and ?p = "pf_ID prof"
  obtain i w3 where w3: "keys (om_server w3) = ?K" and run: "run_state (EnsureKey c k) w =
      run_state (andthen (correct_key c i ?p ks k) (\<lambda>needsWrite.
        andthen (if needsWrite then addKey c i ?p (spec_entry k) else ret (Inr ())) (\<lambda>_. drop_placeholder c i ?p))) w3"
    using located[OF assms(1,2), of w] assms(3-9) unfolding EnsureKey_def by (simp add: not_less) fast
  obtain b w4 ks1 extra where c: "run_state (correct_key c i ?p ks k) w3 = (Inr b, w4)" "keys (om_server w4) = ?K(?p := ks1)"
      "\<not> b \<longrightarrow> spec_entry k \<in> set ks1" "filter (\<lambda>e. pk_Name e \<noteq> ws_Name k) ks1 = filter (\<lambda>e. pk_Name e \<noteq> ws_Name k) ks @ extra"
      "\<forall>e \<in> set extra. pk_Name e = placeholderName"
    using correct_runs[OF assms(1,6), of w3 ?p ks i] w3 assms(9) by auto
  let ?ks2 = "if b then ks1 @ [spec_entry k] else ks1"
  obtain w5 where a: "run_state (if b then addKey c i ?p (spec_entry k) else ret (Inr ())) w4 = (Inr (), w5)" "keys (om_server w5) = ?K(?p := ?ks2)"
    using om_runs_ops(2)[OF assms(1), of i ?p "spec_entry k" w4] c(2) by (cases b) (auto simp: om_runs_def)
  have name: "pk_Name (spec_entry k) = ws_Name k" by (simp add: spec_entry_def)
  have mem: "spec_entry k \<in> set (keys (om_server w5) ?p)" using a(2) c(3) by auto
  obtain w6 where d: "run_state (drop_placeholder c i ?p) w5 = (Inr (), w6)"
      "keys (om_server w6) = ?K(?p := filter (\<lambda>e. pk_Name e \<noteq> placeholderName) ?ks2)"
    using drop_runs[OF assms(1) mem, of i] name assms(6) a(2) unfolding om_runs_def by auto
  have "filter (\<lambda>e. pk_Name e \<noteq> ws_Name k) (filter (\<lambda>e. pk_Name e \<noteq> placeholderName) ?ks2) =
      filter (\<lambda>e. pk_Name e \<noteq> placeholderName) (filter (\<lambda>e. pk_Name e \<noteq> ws_Name k) ks1)"
    using name by (auto simp: conj_commute)
  also have "\<dots> = filter (\<lambda>e. pk_Name e \<noteq> ws_Name k \<and> pk_Name e \<noteq> placeholderName) ks"
    using c(5) unfolding c(4) by (simp add: conj_commute)
  finally show ?thesis
    using run c(1) a d mem name assms(6)
    by (intro exI[of _ w6] exI[of _ "filter (\<lambda>e. pk_Name e \<noteq> placeholderName) ?ks2"]) (auto simp: andthen_def)
qed

section \<open>A sample controller\<close>

definition sample_profiles :: "profileBrief list" where
  "sample_profiles = [\<lparr>pf_ID = ''p1'', pf_ProfileName = ''iot'', pf_SSID = [''iot'']\<rparr>]"

definition sample_wireless :: "key_table om_config" where
  "sample_wireless = \<lparr>oc_srv = (\<lambda>i tok q K.
       if q = GetInfo then (OmAnswer 200 (Some (om_ok (RInfo ''c1''))), 1, K)
       else if \<not> om_authed q then (OmAnswer 200 (Some (om_ok (RToken ''t'' 0))), 1, K)
       else if tok = ''t'' then (case om_effect ''s1'' sample_profiles q K of (env, K') \<Rightarrow> (OmAnswer 200 (Some env), 1, K'))
       else (OmAnswer 401 None, 1, K)),
     oc_id = ''id'', oc_secret = ''secret'', oc_rand = (\<lambda>s. (Some (\<lambda>i. i), s))\<rparr>"

lemma sample_controller: "controller sample_wireless ''s1'' sample_profiles (\<lambda>K. K) (\<lambda>_. {''t''})"
  by (auto simp: controller_def controller_reply_def sample_wireless_def split: prod.split)

definition sample_omada :: "key_table omada" where
  "sample_omada = \<lparr>om_server = (\<lambda>_. [\<lparr>pk_Name = ''red-cam'', pk_PSK = ''password1'', pk_MAC = [], pk_VLAN = 30\<rparr>]), om_now = 0, om_omadacID = [],
     om_siteID = [], om_token = ''old'', om_tokenExp = 5, om_log = []\<rparr>"

definition sample_key_spec :: WiFiKeySpec where
  "sample_key_spec = \<lparr>ws_SSID = ''iot'', ws_Name = ''red-cam'', ws_PSK = ''password2'', ws_VLAN = 31, ws_MAC = []\<rparr>"

theorem wifi_key_revoked_witness:
  "\<exists>w' extra. run_state (RemoveKey sample_wireless ''iot'' ''red-cam'') sample_omada = (Inr (), w') \<and>
     om_server w' ''p1'' = extra \<and> (\<forall>e \<in> set extra. pk_Name e = placeholderName)"
  using wifi_key_revoked[OF sample_controller, of "''iot''" "hd sample_profiles" "''red-cam''" sample_omada]
  by (auto simp: sample_profiles_def placeholderName_def sample_omada_def)

theorem wifi_key_issued_witness:
  "\<exists>w' ks'. run_state (EnsureKey sample_wireless sample_key_spec) sample_omada = (Inr (), w') \<and> om_server w' ''p1'' = ks' \<and>
     spec_entry sample_key_spec \<in> set ks' \<and> filter (\<lambda>e. pk_Name e \<noteq> ''red-cam'') ks' = []"
  using wifi_key_issued[OF sample_controller, of sample_key_spec "hd sample_profiles" sample_omada]
  by (fastforce simp: sample_profiles_def placeholderName_def sample_omada_def sample_key_spec_def ValidPSK_def visible_def)

end
