(* ===== verification/Dashboards.thy ===== *)
theory Dashboards
  imports Client Service
begin

text \<open>
  \<^verbatim>\<open>internal/backend/grafana\<close>: a tenant's organisation, login and data sources in the dashboard server, and
  \<^verbatim>\<open>internal/backend/minio\<close>: the user and policy that confine a tenant to its prefix of the state store. The servers are
  parameters; nothing is assumed of what they answer.
\<close>

section \<open>Requests\<close>

record DataSource =
  ds_UID :: string
  ds_Name :: string
  ds_Project :: int
  ds_Default :: bool

definition DataSources :: "DataSource list" where
  "DataSources =
     [\<lparr>ds_UID = ''deevnet-logs-workloads'', ds_Name = ''Workload logs'', ds_Project = 0, ds_Default = False\<rparr>,
      \<lparr>ds_UID = ''deevnet-logs-platform'', ds_Name = ''Platform logs'', ds_Project = 1, ds_Default = False\<rparr>,
      \<lparr>ds_UID = ''deevnet-logs-devices'', ds_Name = ''Device logs'', ds_Project = 2, ds_Default = True\<rparr>]"

definition PluginID :: string where "PluginID = ''victoriametrics-logs-datasource''"
definition PartitionHeader :: string where "PartitionHeader = ''X-Deevnet-Partition''"
definition TenantRole :: string where "TenantRole = ''Editor''"

record data_source_body =
  db_uid :: string
  db_name :: string
  db_type :: string
  db_access :: string
  db_url :: string
  db_isDefault :: bool
  db_header1 :: "string \<times> string"
  db_header2 :: "string \<times> string"
  db_tlsCACert :: string

definition DataSourceBody :: "DataSource \<Rightarrow> int \<Rightarrow> string \<Rightarrow> string \<Rightarrow> string \<Rightarrow> data_source_body" where
  "DataSourceBody ds index readToken logEndpoint logCA =
     \<lparr>db_uid = ds_UID ds, db_name = ds_Name ds, db_type = PluginID, db_access = ''proxy'', db_url = logEndpoint,
      db_isDefault = ds_Default ds, db_header1 = (''Authorization'', ''Bearer '' @ readToken),
      db_header2 = (PartitionHeader, itoa index @ ''-'' @ itoa (ds_Project ds)), db_tlsCACert = logCA\<rparr>"

record user =
  us_ID :: int
  us_Login :: string
  us_OrgID :: int
  us_IsGrafanaAdmin :: bool

datatype gf_request =
    GetOrg string | PostOrg string | DeleteOrg int | RenameOrg int string
  | PostOrgUser int string string | PatchOrgUser int int string | DeleteOrgUser int int
  | LookupUser string | PostUser string string int | DeleteUser int | UseOrg int int
  | SignIn string string | PutPassword int string | GetUserOrgs int
  | GetDataSource int string | PostDataSource int data_source_body | PutDataSource int string data_source_body
  | DeleteDataSource int string | GetDashboard int string | PostDashboard int string

text \<open>The status and what the body decodes to; a field it does not have is zero.\<close>

datatype gf_value = GNone | GOrg int | GUser user | GOrgs "(int \<times> string) list" | GUndecodable

type_synonym 's grafana = "('s, gf_request, int \<times> gf_value) server"

type_synonym 's gf_conn = "('s, gf_request, int \<times> gf_value) conn"

datatype gf_error = GfTransport string | GfStatus int | GfNotFound | GfDecode | GfFailure string | GfDuring string gf_error

type_synonym ('s, 'a) gf = "('s gf_conn, gf_error + 'a) state"

fun isStatus :: "gf_error \<Rightarrow> int \<Rightarrow> bool" where
  "isStatus (GfStatus code) n = (code = n)"
| "isStatus (GfDuring _ e) n = isStatus e n"
| "isStatus _ n = False"

record 's gf_config =
  gc_srv :: "'s grafana"
  gc_AdminUser :: string
  gc_LogEndpoint :: string
  gc_logCA :: string

section \<open>Transport\<close>

definition gf_read :: "(gf_value \<Rightarrow> 'a option) \<Rightarrow> http_error + int \<times> gf_value \<Rightarrow> gf_error + 'a" where
  "gf_read rd r =
     (case r of
        Inl _ \<Rightarrow> Inl (GfTransport ''no answer'')
      | Inr (code, v) \<Rightarrow>
          if code < 200 \<or> code > 299 then Inl (GfStatus code)
          else (case rd v of None \<Rightarrow> Inl GfDecode | Some x \<Rightarrow> Inr x))"

definition gf_do :: "'s gf_config \<Rightarrow> (gf_value \<Rightarrow> 'a option) \<Rightarrow> gf_request \<Rightarrow> ('s, 'a) gf" where
  "gf_do c rd q = do { r \<leftarrow> ask (gc_srv c) q; ret (gf_read rd r) }"

definition gf_ignore :: "gf_value \<Rightarrow> unit option" where "gf_ignore v = Some ()"

definition gf_id :: "gf_value \<Rightarrow> int option" where
  "gf_id v = (case v of GUndecodable \<Rightarrow> None | GOrg n \<Rightarrow> Some n | _ \<Rightarrow> Some 0)"

definition no_user :: user where
  "no_user = \<lparr>us_ID = 0, us_Login = [], us_OrgID = 0, us_IsGrafanaAdmin = False\<rparr>"

definition gf_user :: "gf_value \<Rightarrow> user option" where
  "gf_user v = (case v of GUndecodable \<Rightarrow> None | GUser u \<Rightarrow> Some u | _ \<Rightarrow> Some no_user)"

definition gf_orgs :: "gf_value \<Rightarrow> (int \<times> string) list option" where
  "gf_orgs v = (case v of GUndecodable \<Rightarrow> None | GOrgs xs \<Rightarrow> Some xs | _ \<Rightarrow> Some [])"

definition gf_during :: "string \<Rightarrow> ('s, 'a) gf \<Rightarrow> ('s, 'a) gf" where
  "gf_during msg m = do { r \<leftarrow> m; ret (case r of Inl e \<Rightarrow> Inl (GfDuring msg e) | Inr x \<Rightarrow> Inr x) }"

text \<open>\<^verbatim>\<open>err != nil && !isStatus(err, code)\<close>: that status is the goal already.\<close>

definition gf_or :: "int \<Rightarrow> ('s, unit) gf \<Rightarrow> ('s, unit) gf" where
  "gf_or code m = do { r \<leftarrow> m; ret (case r of Inl e \<Rightarrow> if isStatus e code then Inr () else Inl e | Inr _ \<Rightarrow> Inr ()) }"

text \<open>A 404 of a lookup is \<^verbatim>\<open>errNotFound\<close>.\<close>

definition gf_lookup :: "('s, 'a) gf \<Rightarrow> ('s, 'a) gf" where
  "gf_lookup m = do { r \<leftarrow> m; ret (case r of Inl e \<Rightarrow> if isStatus e 404 then Inl GfNotFound else Inl e | Inr x \<Rightarrow> Inr x) }"

section \<open>Organisation\<close>

definition refuseAdminName :: "'s gf_config \<Rightarrow> string \<Rightarrow> bool" where
  "refuseAdminName c name = (name = [] \<or> EqualFold name (gc_AdminUser c))"

definition lookupOrg :: "'s gf_config \<Rightarrow> string \<Rightarrow> ('s, int) gf" where
  "lookupOrg c name = gf_lookup (gf_do c gf_id (GetOrg name))"

definition ensureOrg :: "'s gf_config \<Rightarrow> string \<Rightarrow> ('s, int) gf" where
  "ensureOrg c name =
     andthen (do { r \<leftarrow> lookupOrg c name; (case r of Inl GfNotFound \<Rightarrow> gf_do c gf_id (PostOrg name) | _ \<Rightarrow> ret r) }) (\<lambda>org.
       if org \<le> 1 then ret (Inl (GfFailure ''the server gave the operator's organisation''))
       else andthen (gf_during ''adding the server admin'' (gf_or 409 (gf_do c gf_ignore (PostOrgUser org (gc_AdminUser c) ''Admin''))))
         (\<lambda>_. ret (Inr org)))"

section \<open>Login\<close>

definition lookupUser :: "'s gf_config \<Rightarrow> string \<Rightarrow> ('s, user) gf" where
  "lookupUser c login = gf_lookup (gf_do c gf_user (LookupUser login))"

text \<open>The password is tried as the login; the status alone is read.\<close>

definition ensurePassword :: "'s gf_config \<Rightarrow> user \<Rightarrow> string \<Rightarrow> ('s, unit) gf" where
  "ensurePassword c u password =
     do {
       r \<leftarrow> ask (gc_srv c) (SignIn (us_Login u) password);
       (case r of
          Inl _ \<Rightarrow> ret (Inl (GfTransport ''no answer''))
        | Inr (code, _) \<Rightarrow>
            if code = 200 then ret (Inr ())
            else if code = 401 then gf_do c gf_ignore (PutPassword (us_ID u) password)
            else ret (Inl (GfFailure ''checking the login's password'')))
     }"

fun set_roles :: "'s gf_config \<Rightarrow> int \<Rightarrow> int \<Rightarrow> (int \<times> string) list \<Rightarrow> ('s, unit) gf" where
  "set_roles c uid org [] = ret (Inr ())"
| "set_roles c uid org ((o', role) # orgs) =
     andthen (if o' = org \<and> role \<noteq> TenantRole
              then gf_during ''setting the login's role'' (gf_do c gf_ignore (PatchOrgUser org uid TenantRole))
              else ret (Inr ()))
       (\<lambda>_. set_roles c uid org orgs)"

fun leave_orgs :: "'s gf_config \<Rightarrow> int \<Rightarrow> int \<Rightarrow> (int \<times> string) list \<Rightarrow> ('s, unit) gf" where
  "leave_orgs c uid org [] = ret (Inr ())"
| "leave_orgs c uid org ((o', role) # orgs) =
     andthen (if o' = org then ret (Inr ())
              else gf_during ''removing the login from organisation'' (gf_or 404 (gf_do c gf_ignore (DeleteOrgUser o' uid))))
       (\<lambda>_. leave_orgs c uid org orgs)"

definition ensureMembership :: "'s gf_config \<Rightarrow> user \<Rightarrow> string \<Rightarrow> int \<Rightarrow> ('s, unit) gf" where
  "ensureMembership c u login org =
     andthen (gf_do c gf_orgs (GetUserOrgs (us_ID u))) (\<lambda>orgs.
     andthen (set_roles c (us_ID u) org orgs) (\<lambda>_.
     andthen (if list_ex (\<lambda>(o', _). o' = org) orgs then ret (Inr ())
              else gf_during ''adding the login to its organisation''
                (gf_or 409 (gf_do c gf_ignore (PostOrgUser org login TenantRole)))) (\<lambda>_.
     leave_orgs c (us_ID u) org orgs)))"

definition create_user :: "'s gf_config \<Rightarrow> DashTenant \<Rightarrow> int \<Rightarrow> ('s, user) gf" where
  "create_user c t org =
     andthen (gf_do c gf_id (PostUser (dt_Name t) (dt_Password t) org)) (\<lambda>_. lookupUser c (dt_Name t))"

definition place_user :: "'s gf_config \<Rightarrow> DashTenant \<Rightarrow> int \<Rightarrow> user \<Rightarrow> ('s, unit) gf" where
  "place_user c t org u =
     andthen (ensureMembership c u (dt_Name t) org) (\<lambda>_.
       if us_OrgID u \<noteq> org
       then gf_during ''switching the login to its organisation'' (gf_do c gf_ignore (UseOrg (us_ID u) org))
       else ret (Inr ()))"

definition ensureUser :: "'s gf_config \<Rightarrow> DashTenant \<Rightarrow> int \<Rightarrow> ('s, unit) gf" where
  "ensureUser c t org =
     do {
       r \<leftarrow> lookupUser c (dt_Name t);
       (case r of
          Inl GfNotFound \<Rightarrow> andthen (create_user c t org) (place_user c t org)
        | Inl e \<Rightarrow> ret (Inl e)
        | Inr u \<Rightarrow>
            if us_IsGrafanaAdmin u then ret (Inl (GfFailure ''login is a server admin; refusing to manage it as a tenant's''))
            else andthen (ensurePassword c u (dt_Password t)) (\<lambda>_. place_user c t org u))
     }"

section \<open>Data sources and dashboards\<close>

definition ensureDataSource :: "'s gf_config \<Rightarrow> int \<Rightarrow> DashTenant \<Rightarrow> DataSource \<Rightarrow> ('s, unit) gf" where
  "ensureDataSource c org t ds =
     (let body = DataSourceBody ds (dt_Index t) (dt_ReadToken t) (gc_LogEndpoint c) (gc_logCA c) in
      do {
        r \<leftarrow> gf_do c gf_ignore (GetDataSource org (ds_UID ds));
        (case r of
           Inl e \<Rightarrow> if isStatus e 404 then gf_do c gf_ignore (PostDataSource org body) else ret (Inl e)
         | Inr _ \<Rightarrow> gf_do c gf_ignore (PutDataSource org (ds_UID ds) body))
      })"

fun gf_each :: "('a \<Rightarrow> ('s, unit) gf) \<Rightarrow> 'a list \<Rightarrow> ('s, unit) gf" where
  "gf_each f [] = ret (Inr ())"
| "gf_each f (x # xs) = andthen (f x) (\<lambda>_. gf_each f xs)"

definition dash_Ensure :: "'s gf_config \<Rightarrow> DashTenant \<Rightarrow> ('s, int) gf" where
  "dash_Ensure c t =
     (if refuseAdminName c (dt_Name t) then ret (Inl (GfFailure ''tenant name cannot have a dashboard login: it is the server admin's''))
      else
        andthen (gf_during ''organisation'' (ensureOrg c (dt_Name t))) (\<lambda>org.
        andthen (gf_during ''login'' (ensureUser c t org)) (\<lambda>_.
        andthen (gf_each (\<lambda>ds. gf_during (''data source '' @ ds_UID ds) (ensureDataSource c org t ds)) DataSources) (\<lambda>_.
        ret (Inr org)))))"

definition remove_login :: "'s gf_config \<Rightarrow> string \<Rightarrow> ('s, unit) gf" where
  "remove_login c name =
     do {
       r \<leftarrow> lookupUser c name;
       (case r of
          Inl GfNotFound \<Rightarrow> ret (Inr ())
        | Inl e \<Rightarrow> ret (Inl (GfDuring ''login'' e))
        | Inr u \<Rightarrow>
            if us_IsGrafanaAdmin u then ret (Inl (GfFailure ''login is a server admin; refusing to delete it as a tenant's''))
            else gf_during ''login'' (gf_or 404 (gf_do c gf_ignore (DeleteUser (us_ID u)))))
     }"

definition retireOrg :: "'s gf_config \<Rightarrow> string \<Rightarrow> int \<Rightarrow> ('s, unit) gf" where
  "retireOrg c name org =
     gf_during ''organisation could not be deleted, nor renamed''
       (gf_do c gf_ignore (RenameOrg org (''deleted-'' @ name @ ''-'' @ itoa org)))"

definition delete_org :: "'s gf_config \<Rightarrow> string \<Rightarrow> int \<Rightarrow> ('s, unit) gf" where
  "delete_org c name org =
     do {
       r \<leftarrow> gf_do c gf_ignore (DeleteOrg org);
       (case r of
          Inr _ \<Rightarrow> ret (Inr ())
        | Inl e \<Rightarrow> if isStatus e 404 then ret (Inr ()) else if isStatus e 500 then retireOrg c name org
                   else ret (Inl (GfDuring ''organisation'' e)))
     }"

definition dash_Remove :: "'s gf_config \<Rightarrow> string \<Rightarrow> ('s, unit) gf" where
  "dash_Remove c name =
     (if refuseAdminName c name then ret (Inl (GfFailure ''tenant name cannot have a dashboard login: it is the server admin's''))
      else andthen (remove_login c name) (\<lambda>_.
        do {
          r \<leftarrow> lookupOrg c name;
          (case r of
             Inl GfNotFound \<Rightarrow> ret (Inr ())
           | Inl e \<Rightarrow> ret (Inl (GfDuring ''organisation'' e))
           | Inr org \<Rightarrow>
               if org = 1 then ret (Inl (GfFailure ''refusing to delete organisation 1, the operator's''))
               else andthen (gf_each (\<lambda>ds. gf_during (''data source '' @ ds_UID ds)
                   (gf_or 404 (gf_do c gf_ignore (DeleteDataSource org (ds_UID ds))))) DataSources) (\<lambda>_. delete_org c name org))
        }))"

text \<open>A dashboard is known here by its UID.\<close>

definition EnsureDashboard :: "'s gf_config \<Rightarrow> int \<Rightarrow> string \<Rightarrow> ('s, unit) gf" where
  "EnsureDashboard c org uid =
     (if uid = [] then ret (Inl (GfFailure ''a dashboard needs a uid to be ensured''))
      else do {
        r \<leftarrow> gf_do c gf_ignore (GetDashboard org uid);
        (case r of Inr _ \<Rightarrow> ret (Inr ())
         | Inl e \<Rightarrow> if \<not> isStatus e 404 then ret (Inl e) else gf_do c gf_ignore (PostDashboard org uid))
      })"

section \<open>What a run asks\<close>

lemma keeps_gf_do: "p q \<Longrightarrow> req.keeps p (gf_do c rd q)"
  unfolding gf_do_def by (intro req.keeps_intros req.keeps_ask) simp

lemma keeps_gf_wrap:
  "req.keeps p m \<Longrightarrow> req.keeps p (gf_during msg m)" "req.keeps p m' \<Longrightarrow> req.keeps p (gf_or code m')"
  "req.keeps p m \<Longrightarrow> req.keeps p (gf_lookup m)"
  unfolding gf_during_def gf_or_def gf_lookup_def by (intro req.keeps_intros, assumption)+

lemma keeps_gf_each: "(\<And>x. x \<in> set xs \<Longrightarrow> req.keeps p (f x)) \<Longrightarrow> req.keeps p (gf_each f xs)"
  by (induction xs) (auto intro!: req.keeps_return req.keeps_andthen)

lemmas gf_intros = req.keeps_return req.keeps_bind req.keeps_if req.keeps_Let req.keeps_case_prod req.keeps_andthen keeps_gf_wrap keeps_gf_each

text \<open>
  What \<open>dash_Ensure\<close> may ask for the tenant \<open>t\<close> in the organisation \<open>org\<close>. The server admin becomes an Admin, the
  tenant's login only ever an Editor, and the log read token goes into this organisation alone.
\<close>

definition tenant_body :: "'s gf_config \<Rightarrow> DashTenant \<Rightarrow> data_source_body \<Rightarrow> bool" where
  "tenant_body c t b = (\<exists>ds \<in> set DataSources. b = DataSourceBody ds (dt_Index t) (dt_ReadToken t) (gc_LogEndpoint c) (gc_logCA c))"

fun gf_fits :: "'s gf_config \<Rightarrow> DashTenant \<Rightarrow> int \<Rightarrow> gf_request \<Rightarrow> bool" where
  "gf_fits c t org (PostOrg name) = (name = dt_Name t)"
| "gf_fits c t org (PostOrgUser n login role) =
     (n = org \<and> (login = gc_AdminUser c \<and> role = ''Admin'' \<or> login = dt_Name t \<and> role = ''Editor''))"
| "gf_fits c t org (PatchOrgUser n uid role) = (n = org \<and> role = ''Editor'')"
| "gf_fits c t org (DeleteOrgUser n uid) = (n \<noteq> org)"
| "gf_fits c t org (PostUser name password n) = (name = dt_Name t \<and> password = dt_Password t \<and> n = org)"
| "gf_fits c t org (PutPassword uid password) = (password = dt_Password t)"
| "gf_fits c t org (UseOrg uid n) = (n = org)"
| "gf_fits c t org (PostDataSource n b) = (n = org \<and> tenant_body c t b)"
| "gf_fits c t org (PutDataSource n uid b) = (n = org \<and> tenant_body c t b)"
| "gf_fits c t org (GetDataSource n uid) = (n = org)"
| "gf_fits c t org (GetOrg _) = True"
| "gf_fits c t org (LookupUser _) = True"
| "gf_fits c t org (SignIn _ _) = True"
| "gf_fits c t org (GetUserOrgs _) = True"
| "gf_fits c t org _ = False"

lemma set_roles_fit: "req.keeps (gf_fits c t org) (set_roles c uid org orgs)"
  by (induction orgs) (auto simp: TenantRole_def intro!: gf_intros keeps_gf_do)

lemma leave_orgs_fit: "req.keeps (gf_fits c t org) (leave_orgs c uid org orgs)"
  by (induction orgs) (auto intro!: gf_intros keeps_gf_do)

lemma ensureUser_fit: "req.keeps (gf_fits c t org) (ensureUser c t org)"
proof -
  have look: "req.keeps (gf_fits c t org) (lookupUser c (dt_Name t))"
    unfolding lookupUser_def by (intro gf_intros keeps_gf_do) simp
  have place: "req.keeps (gf_fits c t org) (place_user c t org u)" for u
    unfolding place_user_def ensureMembership_def by (intro gf_intros keeps_gf_do set_roles_fit leave_orgs_fit) (simp_all add: TenantRole_def)
  have pw: "req.keeps (gf_fits c t org) (ensurePassword c u (dt_Password t))" for u
    unfolding ensurePassword_def by (intro gf_intros req.keeps_case_sum req.keeps_ask keeps_gf_do) simp_all
  have new: "req.keeps (gf_fits c t org) (create_user c t org)"
    unfolding create_user_def by (intro gf_intros keeps_gf_do look) simp
  have "req.keeps (gf_fits c t org) (case r of
       Inl GfNotFound \<Rightarrow> andthen (create_user c t org) (place_user c t org)
     | Inl e \<Rightarrow> ret (Inl e)
     | Inr u \<Rightarrow> if us_IsGrafanaAdmin u then ret (Inl (GfFailure ''login is a server admin; refusing to manage it as a tenant's''))
         else andthen (ensurePassword c u (dt_Password t)) (\<lambda>_. place_user c t org u))" for r
    by (auto split: sum.split gf_error.split intro!: gf_intros look place pw new)
  then show ?thesis unfolding ensureUser_def by (intro req.keeps_bind look)
qed

lemma ensureDataSource_fit: "ds \<in> set DataSources \<Longrightarrow> req.keeps (gf_fits c t org) (ensureDataSource c org t ds)"
  unfolding ensureDataSource_def Let_def
  by (intro gf_intros req.keeps_case_sum keeps_gf_do) (auto simp: tenant_body_def)

text \<open>The organisation is found or made before anything else, and is never the operator's.\<close>

lemma logs_gf_do: "logs (\<lambda>r ext. \<exists>a. ext = [(q, a)] \<and> r = gf_read rd a) (gf_do c rd q)"
  unfolding gf_do_def by (rule logs_bind_mono[OF logs_ask]) (auto intro: logs_ret)

lemma logs_gf_wrap:
  "logs P m \<Longrightarrow> logs (\<lambda>r ext. \<exists>r'. P r' ext \<and> r = (case r' of Inl e \<Rightarrow> Inl (GfDuring msg e) | Inr x \<Rightarrow> Inr x)) (gf_during msg m)"
  "logs P' m' \<Longrightarrow> logs (\<lambda>r ext. \<exists>r'. P' r' ext \<and> r = (case r' of Inl e \<Rightarrow> if isStatus e code then Inr () else Inl e | Inr _ \<Rightarrow> Inr ())) (gf_or code m')"
  "logs P m \<Longrightarrow> logs (\<lambda>r ext. \<exists>r'. P r' ext \<and> r = (case r' of Inl e \<Rightarrow> if isStatus e 404 then Inl GfNotFound else Inl e | Inr x \<Rightarrow> Inr x)) (gf_lookup m)"
  unfolding gf_during_def gf_or_def gf_lookup_def by (erule logs_bind_mono, rule logs_ret, fastforce)+

definition in_one_org :: "'s gf_config \<Rightarrow> DashTenant \<Rightarrow> gf_error + int \<Rightarrow> (gf_request, int \<times> gf_value) request_log \<Rightarrow> bool" where
  "in_one_org c t r ext = (\<exists>org > 1. each_request (gf_fits c t org) ext \<and> (\<forall>n. r = Inr n \<longrightarrow> n = org))"

lemma ensureOrg_logs: "logs (in_one_org c t) (ensureOrg c (dt_Name t))"
proof -
  let ?any = "\<lambda>q. \<forall>org. gf_fits c t org q"
  let ?found = "do { r \<leftarrow> lookupOrg c (dt_Name t); (case r of Inl GfNotFound \<Rightarrow> gf_do c gf_id (PostOrg (dt_Name t)) | _ \<Rightarrow> ret r) }"
  have "req.keeps ?any (lookupOrg c (dt_Name t))" "req.keeps ?any (gf_do c gf_id (PostOrg (dt_Name t)))"
    unfolding lookupOrg_def by (intro gf_intros keeps_gf_do, simp)+
  then have found: "req.keeps ?any ?found"
    by (intro req.keeps_bind) (auto split: sum.split gf_error.split intro: req.keeps_return)
  have rest: "logs (\<lambda>r e. in_one_org c t r (ext @ e)) (if org \<le> 1 then ret (Inl (GfFailure ''the server gave the operator's organisation''))
       else andthen (gf_during ''adding the server admin'' (gf_or 409 (gf_do c gf_ignore (PostOrgUser org (gc_AdminUser c) ''Admin''))))
         (\<lambda>_. ret (Inr org)))" if any: "each_request ?any ext" for org ext
  proof (cases "org \<le> 1")
    case True
    have "each_request (gf_fits c t 2) ext" using any by (rule each_request_mono) simp
    then show ?thesis using True by (auto simp: in_one_org_def intro!: logs_ret exI[of _ 2])
  next
    case False
    let ?m = "gf_during ''adding the server admin'' (gf_or 409 (gf_do c gf_ignore (PostOrgUser org (gc_AdminUser c) ''Admin'')))"
    have "req.keeps (gf_fits c t org) ?m" by (intro gf_intros keeps_gf_do) simp
    then have "logs (\<lambda>r e. each_request (gf_fits c t org) e) ?m" by (rule logs_keeps)
    then have "logs (\<lambda>r e. each_request (gf_fits c t org) e \<and> (\<forall>n. r = Inr n \<longrightarrow> n = org)) (andthen ?m (\<lambda>_. ret (Inr org)))"
      by (rule logs_andthen_mono) (auto intro!: logs_ret)
    moreover have "each_request (gf_fits c t org) ext" using any by (rule each_request_mono) simp
    ultimately show ?thesis using False by (auto simp: in_one_org_def intro: exI[of _ org] elim!: logs_mono)
  qed
  have "logs (\<lambda>r ext. each_request ?any ext) ?found" using found by (rule logs_keeps)
  then show ?thesis
    unfolding ensureOrg_def
  proof (rule logs_andthen_mono)
    show "in_one_org c t (Inl e) ext" if "each_request ?any ext" for e ext
      using each_request_mono[OF that, of "gf_fits c t 2"] by (auto simp: in_one_org_def intro!: exI[of _ 2])
  qed (rule rest)
qed

text \<open>C22. Everything a tenant's dashboards are built with stays in one organisation that is not the operator's, whatever the
  server answers: the tenant's login is only ever made an Editor, and only there, the only Admin that is added is the
  server's own, only the tenant's own password is set, and the data sources with its log read token are written nowhere
  else. The organisation returned is that one.\<close>

theorem dashboards_confined:
  assumes "run_state (dash_Ensure c t) (conn_start s) = (r, w)"
  shows "\<exists>org > 1. each_request (gf_fits c t org) (cn_log w) \<and> (\<forall>n. r = Inr n \<longrightarrow> n = org)"
proof -
  have part: "logs (\<lambda>r e. each_request (gf_fits c t org) e \<and> (\<forall>n. r = Inr n \<longrightarrow> n = org))
      (andthen (gf_during ''login'' (ensureUser c t org)) (\<lambda>_.
        andthen (gf_each (\<lambda>ds. gf_during (''data source '' @ ds_UID ds) (ensureDataSource c org t ds)) DataSources) (\<lambda>_.
        ret (Inr org))))" for org
  proof -
    have "req.keeps (gf_fits c t org) (gf_during ''login'' (ensureUser c t org))"
      "req.keeps (gf_fits c t org) (gf_each (\<lambda>ds. gf_during (''data source '' @ ds_UID ds) (ensureDataSource c org t ds)) DataSources)"
      by (intro gf_intros ensureUser_fit ensureDataSource_fit; assumption?)+
    note this[THEN logs_keeps]
    then show ?thesis
      by (elim logs_andthen_mono) (auto intro!: logs_ret elim!: logs_andthen_mono)
  qed
  have org: "logs (in_one_org c t) (gf_during ''organisation'' (ensureOrg c (dt_Name t)))"
  proof (rule logs_mono[OF logs_gf_wrap(1)[OF ensureOrg_logs]])
    fix r ext assume "\<exists>r'. in_one_org c t r' ext \<and> r = (case r' of Inl e \<Rightarrow> Inl (GfDuring ''organisation'' e) | Inr x \<Rightarrow> Inr x)"
    then obtain r' where "in_one_org c t r' ext" "r = (case r' of Inl e \<Rightarrow> Inl (GfDuring ''organisation'' e) | Inr x \<Rightarrow> Inr x)" by blast
    then show "in_one_org c t r ext" by (cases r') (auto simp: in_one_org_def)
  qed
  have "logs (in_one_org c t) (dash_Ensure c t)"
    unfolding dash_Ensure_def
  proof (intro logs_if)
    show "logs (in_one_org c t) (ret (Inl (GfFailure ''tenant name cannot have a dashboard login: it is the server admin's'')))"
      by (rule logs_ret) (auto simp: in_one_org_def intro!: exI[of _ 2])
    show "logs (in_one_org c t) (andthen (gf_during ''organisation'' (ensureOrg c (dt_Name t))) (\<lambda>org.
        andthen (gf_during ''login'' (ensureUser c t org)) (\<lambda>_.
        andthen (gf_each (\<lambda>ds. gf_during (''data source '' @ ds_UID ds) (ensureDataSource c org t ds)) DataSources) (\<lambda>_.
        ret (Inr org)))))"
    proof (rule logs_andthen_mono[OF org])
      show "in_one_org c t (Inl e) ext" if "in_one_org c t (Inl e) ext" for e ext using that by (simp add: in_one_org_def)
      show "logs (\<lambda>r e. in_one_org c t r (ext @ e)) (andthen (gf_during ''login'' (ensureUser c t org)) (\<lambda>_.
          andthen (gf_each (\<lambda>ds. gf_during (''data source '' @ ds_UID ds) (ensureDataSource c org t ds)) DataSources) (\<lambda>_.
          ret (Inr org))))" if "in_one_org c t (Inr org) ext" for org ext
        using that by (intro logs_mono[OF part]) (auto simp: in_one_org_def)
    qed
  qed
  from logs_from_start[OF this assms] show ?thesis by (simp add: in_one_org_def)
qed

section \<open>What an answer means\<close>

definition accepted :: "http_error + int \<times> gf_value \<Rightarrow> bool" where
  "accepted a = (case a of Inr (code, _) \<Rightarrow> 200 \<le> code \<and> code \<le> 299 | Inl _ \<Rightarrow> False)"

definition gone :: "http_error + int \<times> gf_value \<Rightarrow> bool" where
  "gone a = (accepted a \<or> (\<exists>v. a = Inr (404, v)))"

lemma gf_read_Inr: "gf_read rd a = Inr x \<Longrightarrow> accepted a"
  by (auto simp: gf_read_def accepted_def split: sum.splits if_splits)

lemma gf_read_status: "gf_read rd a = Inl e \<Longrightarrow> isStatus e code \<Longrightarrow> \<exists>v. a = Inr (code, v)"
  by (auto simp: gf_read_def split: sum.splits if_splits option.splits)

lemma logs_during_ok:
  "logs (\<lambda>r ext. r = Inr x \<longrightarrow> B ext) m \<Longrightarrow> logs (\<lambda>r ext. r = Inr x \<longrightarrow> B ext) (gf_during msg m)"
  by (drule logs_gf_wrap(1), erule logs_mono, elim exE, case_tac r', auto)

text \<open>Where each part of a loop leaves an entry \<open>P x\<close> when it succeeds, a loop that succeeds leaves one for each.\<close>

lemma logs_gf_each:
  assumes "\<And>x. x \<in> set xs \<Longrightarrow> logs (\<lambda>r ext. each_request p ext \<and> (r = Inr () \<longrightarrow> (\<exists>e \<in> set ext. P x e))) (f x)"
  shows "logs (\<lambda>r ext. each_request p ext \<and> (r = Inr () \<longrightarrow> (\<forall>x \<in> set xs. \<exists>e \<in> set ext. P x e))) (gf_each f xs)"
  using assms
proof (induction xs)
  case Nil
  then show ?case by (simp add: logs_ret)
next
  case (Cons x xs)
  have IH: "logs (\<lambda>r ext. each_request p ext \<and> (r = Inr () \<longrightarrow> (\<forall>x \<in> set xs. \<exists>e \<in> set ext. P x e))) (gf_each f xs)"
    by (rule Cons.IH) (simp add: Cons.prems)
  have "logs (\<lambda>r ext. each_request p ext \<and> (r = Inr () \<longrightarrow> (\<exists>e \<in> set ext. P x e))) (f x)"
    by (rule Cons.prems) simp
  then show ?case
    unfolding gf_each.simps by (rule logs_andthen_mono) (auto intro!: logs_mono[OF IH])
qed

definition writes_source :: "'s gf_config \<Rightarrow> DashTenant \<Rightarrow> int \<Rightarrow> DataSource \<Rightarrow> gf_request \<times> (http_error + int \<times> gf_value) \<Rightarrow> bool" where
  "writes_source c t org ds = (\<lambda>(q, a). accepted a \<and>
     (let body = DataSourceBody ds (dt_Index t) (dt_ReadToken t) (gc_LogEndpoint c) (gc_logCA c) in
      q = PostDataSource org body \<or> q = PutDataSource org (ds_UID ds) body))"

lemma gf_do_one: "logs (\<lambda>r ext. \<exists>a. ext = [(q, a)] \<and> (r = Inr () \<longrightarrow> accepted a)) (gf_do c gf_ignore q)"
  by (rule logs_mono[OF logs_gf_do]) (auto dest: gf_read_Inr)

lemma ensureDataSource_writes:
  "logs (\<lambda>r ext. r = Inr () \<longrightarrow> (\<exists>e \<in> set ext. writes_source c t org ds e)) (ensureDataSource c org t ds)"
proof -
  let ?body = "DataSourceBody ds (dt_Index t) (dt_ReadToken t) (gc_LogEndpoint c) (gc_logCA c)"
  have wr: "logs (\<lambda>r e. r = Inr () \<longrightarrow> (\<exists>x \<in> set e. writes_source c t org ds x)) (gf_do c gf_ignore q)"
    if "q = PostDataSource org ?body \<or> q = PutDataSource org (ds_UID ds) ?body" for q
    using that by (intro logs_mono[OF gf_do_one]) (auto simp: writes_source_def)
  show ?thesis
    unfolding ensureDataSource_def Let_def
    by (rule logs_bind_mono[OF logs_gf_do]) (auto split: sum.split intro!: logs_mono[OF wr] logs_ret)
qed

text \<open>When the dashboards of a tenant are reported in place, each of its data sources was written in its organisation with
  the tenant's current log read token and its own partition, and the server accepted each of those writes.\<close>

lemma data_sources_carry_token:
  assumes "run_state (dash_Ensure c t) (conn_start s) = (Inr org, w)" "ds \<in> set DataSources"
  shows "\<exists>e \<in> set (cn_log w). writes_source c t org ds e"
proof -
  let ?each = "\<lambda>n. gf_each (\<lambda>ds. gf_during (''data source '' @ ds_UID ds) (ensureDataSource c n t ds)) DataSources"
  let ?Q = "\<lambda>r ext. \<forall>n. r = Inr n \<longrightarrow> (\<forall>ds \<in> set DataSources. \<exists>e \<in> set ext. writes_source c t n ds e)"
  have each: "logs (\<lambda>r ext. each_request (\<lambda>_. True) ext \<and> (r = Inr () \<longrightarrow> (\<forall>ds \<in> set DataSources. \<exists>e \<in> set ext. writes_source c t n ds e))) (?each n)" for n
    by (rule logs_gf_each, rule logs_mono[OF logs_during_ok[OF ensureDataSource_writes]]) (auto simp: each_request_def list_all_iff)
  have sources: "logs ?Q (andthen (?each n) (\<lambda>_. ret (Inr n)))" for n
    by (rule logs_andthen_mono[OF each]) (auto intro!: logs_ret)
  have login: "logs (\<lambda>r ext. True) (gf_during ''login'' (ensureUser c t n))" for n
    by (rule logs_mono[OF logs_keeps]) (auto intro!: gf_intros ensureUser_fit)
  have rest: "logs ?Q (andthen (gf_during ''login'' (ensureUser c t n)) (\<lambda>_. andthen (?each n) (\<lambda>_. ret (Inr n))))" for n
    by (rule logs_andthen_mono[OF login], simp, rule logs_mono[OF sources], auto)
  have "logs ?Q (dash_Ensure c t)"
    unfolding dash_Ensure_def
    by (intro logs_if, simp add: logs_ret, rule logs_andthen_mono[OF logs_gf_wrap(1)[OF ensureOrg_logs]],
        simp, rule logs_mono[OF rest], auto)
  from logs_from_start[OF this assms(1)] assms(2) show ?thesis by blast
qed

section \<open>Removing a tenant\<close>

definition not_delete_org :: "gf_request \<Rightarrow> bool" where
  "not_delete_org q = (case q of DeleteOrg _ \<Rightarrow> False | _ \<Rightarrow> True)"

lemma gf_or_gone:
  "logs (\<lambda>r ext. \<exists>a. ext = [(q, a)] \<and> (r = Inr () \<longrightarrow> gone a)) (gf_during msg (gf_or 404 (gf_do c gf_ignore q)))"
proof -
  have "logs (\<lambda>r ext. \<exists>a. ext = [(q, a)] \<and> (r = Inr () \<longrightarrow> gone a)) (gf_or 404 (gf_do c gf_ignore q))"
  proof (rule logs_mono[OF logs_gf_wrap(2)[OF logs_gf_do]], elim exE conjE)
    fix r ext r' a
    assume "r = (case r' of Inl e \<Rightarrow> if isStatus e 404 then Inr () else Inl e | Inr _ \<Rightarrow> Inr ())" "ext = [(q, a)]" "r' = gf_read gf_ignore a"
    then show "\<exists>a. ext = [(q, a)] \<and> (r = Inr () \<longrightarrow> gone a)"
      by (cases "gf_read gf_ignore a") (auto simp: gone_def dest: gf_read_Inr gf_read_status)
  qed
  then show ?thesis by (rule logs_mono[OF logs_gf_wrap(1)]) (elim exE, case_tac r', auto)
qed

text \<open>Every deletion of an organisation comes after its data sources were deleted or found gone.\<close>

definition sources_first :: "(gf_request, int \<times> gf_value) request_log \<Rightarrow> bool" where
  "sources_first ext = (\<exists>e1 e2. ext = e1 @ e2 \<and> each_request not_delete_org e1 \<and>
     (\<forall>org a. (DeleteOrg org, a) \<in> set e2 \<longrightarrow>
        (\<forall>ds \<in> set DataSources. \<exists>a'. (DeleteDataSource org (ds_UID ds), a') \<in> set e1 \<and> gone a')))"

lemma sources_first_none: "each_request not_delete_org ext \<Longrightarrow> sources_first ext"
  unfolding sources_first_def by (rule exI[of _ ext], rule exI[of _ "[]"]) simp

lemma delete_org_logs: "logs (\<lambda>r ext. \<forall>org' a. (DeleteOrg org', a) \<in> set ext \<longrightarrow> org' = org) (delete_org c name org)"
proof -
  have "req.keeps (\<lambda>q. \<forall>n. q = DeleteOrg n \<longrightarrow> n = org) (delete_org c name org)"
    unfolding delete_org_def retireOrg_def by (intro req.keeps_intros gf_intros keeps_gf_do) simp_all
  from logs_keeps[OF this] show ?thesis by (rule logs_mono) (auto simp: each_request_def list_all_iff)
qed

lemma remove_login_fit: "req.keeps not_delete_org (remove_login c name)"
proof -
  have "req.keeps not_delete_org (lookupUser c name)"
    unfolding lookupUser_def by (intro gf_intros keeps_gf_do) (simp add: not_delete_org_def)
  then show ?thesis
    unfolding remove_login_def
    by (rule req.keeps_bind) (auto simp: not_delete_org_def split: sum.split gf_error.split intro!: gf_intros keeps_gf_do)
qed

lemma sources_then_org:
  "logs (\<lambda>r ext. each_request not_delete_org pre \<longrightarrow> sources_first (pre @ ext))
     (andthen (gf_each (\<lambda>ds. gf_during (''data source '' @ ds_UID ds) (gf_or 404 (gf_do c gf_ignore (DeleteDataSource org (ds_UID ds))))) DataSources)
       (\<lambda>_. delete_org c name org))"
proof (rule logs_andthen_mono)
  show "logs (\<lambda>r ext. each_request not_delete_org ext \<and> (r = Inr () \<longrightarrow>
      (\<forall>ds \<in> set DataSources. \<exists>e \<in> set ext. fst e = DeleteDataSource org (ds_UID ds) \<and> gone (snd e))))
    (gf_each (\<lambda>ds. gf_during (''data source '' @ ds_UID ds) (gf_or 404 (gf_do c gf_ignore (DeleteDataSource org (ds_UID ds))))) DataSources)"
    by (rule logs_gf_each, rule logs_mono[OF gf_or_gone]) (auto simp: not_delete_org_def)
next
  fix e ext assume "each_request not_delete_org ext \<and> (Inl e = Inr () \<longrightarrow>
      (\<forall>ds \<in> set DataSources. \<exists>e \<in> set ext. fst e = DeleteDataSource org (ds_UID ds) \<and> gone (snd e)))"
  then show "each_request not_delete_org pre \<longrightarrow> sources_first (pre @ ext)" by (simp add: sources_first_none)
next
  fix x :: unit and ext assume a: "each_request not_delete_org ext \<and> (Inr x = Inr () \<longrightarrow>
      (\<forall>ds \<in> set DataSources. \<exists>e \<in> set ext. fst e = DeleteDataSource org (ds_UID ds) \<and> gone (snd e)))"
  show "logs (\<lambda>r e. each_request not_delete_org pre \<longrightarrow> sources_first (pre @ ext @ e)) (delete_org c name org)"
  proof (rule logs_mono[OF delete_org_logs], intro impI)
    fix e :: "(gf_request, int \<times> gf_value) request_log"
    assume "\<forall>org' a. (DeleteOrg org', a) \<in> set e \<longrightarrow> org' = org" "each_request not_delete_org pre"
    then show "sources_first (pre @ ext @ e)"
      unfolding sources_first_def using a by (intro exI[of _ "pre @ ext"] exI[of _ e] conjI) (simp_all add: Bex_def, blast)
  qed
qed

lemma dash_Remove_logs: "logs (\<lambda>r ext. sources_first ext) (dash_Remove c name)" for c :: "'s gf_config"
proof -
  let ?tail = "\<lambda>org. andthen (gf_each (\<lambda>ds. gf_during (''data source '' @ ds_UID ds)
      (gf_or 404 (gf_do c gf_ignore (DeleteDataSource org (ds_UID ds))))) DataSources) (\<lambda>_. delete_org c name org)"
  let ?rest = "do { r \<leftarrow> lookupOrg c name;
      (case r of Inl GfNotFound \<Rightarrow> ret (Inr ()) | Inl e \<Rightarrow> ret (Inl (GfDuring ''organisation'' e))
       | Inr org \<Rightarrow> if org = 1 then ret (Inl (GfFailure ''refusing to delete organisation 1, the operator's'')) else ?tail org) }"
  have look: "req.keeps not_delete_org (lookupOrg c name)"
    unfolding lookupOrg_def by (intro gf_intros keeps_gf_do) (simp add: not_delete_org_def)
  have none: "logs (\<lambda>r e. sources_first (pre @ e)) (ret x :: ('s, unit) gf)" if "each_request not_delete_org pre" for pre x
    using that by (intro logs_ret) (simp add: sources_first_none)
  have after: "logs (\<lambda>r e. sources_first (pre @ e)) (case r of Inl GfNotFound \<Rightarrow> ret (Inr ()) | Inl e \<Rightarrow> ret (Inl (GfDuring ''organisation'' e))
       | Inr org \<Rightarrow> if org = 1 then ret (Inl (GfFailure ''refusing to delete organisation 1, the operator's'')) else ?tail org)"
    if p: "each_request not_delete_org pre" for pre r
  proof (cases r)
    case (Inl e)
    then show ?thesis using none[OF p] by (simp split: gf_error.split)
  next
    case (Inr org)
    have "logs (\<lambda>r e. sources_first (pre @ e)) (?tail org)" using p by (intro logs_mono[OF sources_then_org[of pre]]) simp
    then show ?thesis using none[OF p] Inr by simp
  qed
  have rest: "logs (\<lambda>r e. sources_first (pre @ e)) ?rest" if "each_request not_delete_org pre" for pre
    using that by (intro logs_bind_mono[OF logs_keeps[OF look]]) (simp only: append_assoc[symmetric], rule after, simp)
  show ?thesis
    unfolding dash_Remove_def
  proof (intro logs_if)
    show "logs (\<lambda>r ext. sources_first ext) (ret (Inl (GfFailure ''tenant name cannot have a dashboard login: it is the server admin's'')))"
      by (rule logs_ret) (simp add: sources_first_none)
    show "logs (\<lambda>r ext. sources_first ext) (andthen (remove_login c name) (\<lambda>_. ?rest))"
      by (rule logs_andthen_mono[OF logs_keeps[OF remove_login_fit]]) (rule sources_first_none, assumption, rule rest)
  qed
qed

text \<open>Deleting a tenant never leaves its log read token behind in the dashboard server: an organisation is only asked to be
  deleted after each of its data sources was deleted or found gone, so whether or not the server then deletes the
  organisation, no data source of the tenant is left in it.\<close>

lemma organisation_deleted_last:
  assumes "run_state (dash_Remove c name) (conn_start s) = (r, w)" "cn_log w = pre @ (DeleteOrg org, a) # post" "ds \<in> set DataSources"
  shows "\<exists>a'. (DeleteDataSource org (ds_UID ds), a') \<in> set pre \<and> gone a'"
proof -
  obtain e1 e2 where e: "cn_log w = e1 @ e2" "each_request not_delete_org e1"
      "\<And>org a. (DeleteOrg org, a) \<in> set e2 \<Longrightarrow> \<exists>a'. (DeleteDataSource org (ds_UID ds), a') \<in> set e1 \<and> gone a'"
    using logs_from_start[OF dash_Remove_logs assms(1)] assms(3) unfolding sources_first_def by blast
  have "(DeleteOrg org, a) \<notin> set e1" using e(2) by (auto simp: each_request_def list_all_iff not_delete_org_def)
  then have "(DeleteOrg org, a) \<in> set e2" "set e1 \<subseteq> set pre"
    using assms(2) e(1) by (auto simp: append_eq_append_conv2 append_eq_Cons_conv)
  with e(3) show ?thesis by blast
qed

section \<open>The state store\<close>

text \<open>
  A statement of a policy: its actions, the resources it covers and the prefix a listing must ask for. A pattern ends in
  a star, which stands for any text; the rest of it is literal.
\<close>

record statement =
  pm_Effect :: string
  pm_Action :: "string list"
  pm_Resource :: "string list"
  pm_Prefix :: "string list option"

definition PolicyName :: "string \<Rightarrow> string" where "PolicyName user = ''tenant-'' @ user"

definition Policy :: "string \<Rightarrow> string \<Rightarrow> statement list" where
  "Policy bucket prefix =
     [\<lparr>pm_Effect = ''Allow'', pm_Action = [''s3:ListBucket''], pm_Resource = [''arn:aws:s3:::'' @ bucket],
        pm_Prefix = Some [prefix @ ''*'']\<rparr>,
      \<lparr>pm_Effect = ''Allow'', pm_Action = [''s3:GetObject'', ''s3:PutObject'', ''s3:DeleteObject''],
        pm_Resource = [''arn:aws:s3:::'' @ bucket @ ''/'' @ prefix @ ''*''], pm_Prefix = None\<rparr>]"

datatype mc_request = AddCannedPolicy string "statement list" | AddUser string string | AttachPolicy string string
  | RemoveUser string | RemoveCannedPolicy string

text \<open>The code of an \<^verbatim>\<open>ErrorResponse\<close>; another error has none.\<close>

type_synonym 's minio = "mc_request \<Rightarrow> 's \<Rightarrow> string option option \<times> 's"

text \<open>The result of a call: done, or its error with what the client says it was doing.\<close>

datatype mc_error = McError string "string option"

type_synonym 's mc_state = "'s \<times> (mc_request \<times> string option option) list"

definition mc_call :: "'s minio \<Rightarrow> string \<Rightarrow> mc_request \<Rightarrow> string \<Rightarrow> ('s mc_state, mc_error option) state" where
  "mc_call srv msg q fine = State (\<lambda>(s, log). case srv q s of (r, s') \<Rightarrow>
     (case r of None \<Rightarrow> None | Some code \<Rightarrow> if fine \<noteq> [] \<and> code = Some fine then None else Some (McError msg code), (s', log @ [(q, r)])))"

definition state_Ensure :: "'s minio \<Rightarrow> StateTenant \<Rightarrow> ('s mc_state, mc_error option) state" where
  "state_Ensure srv t =
     unless (mc_call srv (''policy '' @ PolicyName (ss_User t)) (AddCannedPolicy (PolicyName (ss_User t)) (Policy (ss_Bucket t) (ss_Prefix t))) [])
    (unless (mc_call srv (''user '' @ ss_User t) (AddUser (ss_User t) (ss_Secret t)) [])
            (mc_call srv (''attach '' @ PolicyName (ss_User t)) (AttachPolicy (PolicyName (ss_User t)) (ss_User t)) ''XMinioAdminPolicyChangeAlreadyApplied''))"

definition state_Remove :: "'s minio \<Rightarrow> string \<Rightarrow> ('s mc_state, mc_error option) state" where
  "state_Remove srv user =
     unless (mc_call srv (''remove user '' @ user) (RemoveUser user) ''XMinioAdminNoSuchUser'')
            (mc_call srv (''remove policy '' @ PolicyName user) (RemoveCannedPolicy (PolicyName user)) ''XMinioAdminNoSuchPolicy'')"

definition like :: "string \<Rightarrow> string \<Rightarrow> bool" where
  "like pattern s = (if pattern \<noteq> [] \<and> last pattern = CHR ''*'' then HasPrefix s (butlast pattern) else s = pattern)"

text \<open>Whether a policy allows an action on a resource; \<open>asked\<close> is the prefix a listing asks for.\<close>

definition policy_allows :: "statement list \<Rightarrow> string \<Rightarrow> string \<Rightarrow> string \<Rightarrow> bool" where
  "policy_allows p act res asked =
     list_ex (\<lambda>st. pm_Effect st = ''Allow'' \<and> act \<in> set (pm_Action st) \<and> list_ex (\<lambda>pt. like pt res) (pm_Resource st) \<and>
       (case pm_Prefix st of None \<Rightarrow> True | Some ps \<Rightarrow> list_ex (\<lambda>pt. like pt asked) ps)) p"

definition object_arn :: "string \<Rightarrow> string \<Rightarrow> string" where "object_arn bucket key = ''arn:aws:s3:::'' @ bucket @ ''/'' @ key"

lemma like_star: "like (p @ ''*'') s = HasPrefix s p"
  by (simp add: like_def butlast_append)

lemma HasPrefix_same: "HasPrefix (p @ s) (p @ t) = HasPrefix s t"
  by (auto simp: HasPrefix_iff)

lemma policy_object_iff:
  "act \<noteq> ''s3:ListBucket'' \<Longrightarrow> policy_allows (Policy bucket prefix) act (object_arn bucket key) asked =
     (act \<in> {''s3:GetObject'', ''s3:PutObject'', ''s3:DeleteObject''} \<and> HasPrefix key prefix)"
  using like_star[of "''arn:aws:s3:::'' @ bucket @ ''/'' @ prefix" "object_arn bucket key"]
    HasPrefix_same[of "''arn:aws:s3:::'' @ bucket @ ''/''" key prefix]
  by (auto simp: policy_allows_def Policy_def object_arn_def)

lemma policy_list_only: "policy_allows (Policy bucket prefix) ''s3:ListBucket'' res asked \<Longrightarrow> HasPrefix asked prefix"
  by (auto simp: policy_allows_def Policy_def like_star)

text \<open>A tenant's policy in the state store covers its own prefix and nothing of another tenant's: for an object under a
  tenant's prefix it allows reading, writing and deleting exactly when that tenant is its own, it allows no other
  action on an object, and a listing it allows asks for keys under its own prefix.\<close>

lemma state_policy_confined:
  assumes "ValidName a" "ValidName b" "act \<noteq> ''s3:ListBucket''"
  shows "policy_allows (Policy bucket (statePrefix site a)) act (object_arn bucket (statePrefix site b @ key)) asked =
      (act \<in> {''s3:GetObject'', ''s3:PutObject'', ''s3:DeleteObject''} \<and> a = b) \<and>
    \<not> (policy_allows (Policy bucket (statePrefix site a)) ''s3:ListBucket'' res (statePrefix site b @ key) \<and> a \<noteq> b)"
proof -
  have "HasPrefix (statePrefix site b @ key) (statePrefix site a) = (a = b)"
    using statePrefix_disjoint[OF assms(2,1), of site key] by auto
  then show ?thesis
    using policy_object_iff[OF assms(3), of bucket "statePrefix site a" "statePrefix site b @ key" asked]
      policy_list_only[of bucket "statePrefix site a" res "statePrefix site b @ key"] by blast
qed

section \<open>A sample dashboard server\<close>

text \<open>It has no organisation or login of the tenant yet, and answers 404 to every lookup but the second of the login.\<close>

definition sample_grafana :: "nat gf_config" where
  "sample_grafana = \<lparr>gc_srv = (\<lambda>q n.
       case q of
         GetOrg _ \<Rightarrow> (Inr (if n = 99 then 200 else 404, GOrg 7), 1, n)
       | PostOrg _ \<Rightarrow> (Inr (200, GOrg 7), 1, n)
       | LookupUser _ \<Rightarrow> (if n = 0 then (Inr (404, GNone), 1, n)
           else (Inr (200, GUser \<lparr>us_ID = 5, us_Login = ''red'', us_OrgID = 7, us_IsGrafanaAdmin = False\<rparr>), 1, n))
       | PostUser _ _ _ \<Rightarrow> (Inr (200, GOrg 5), 1, 1)
       | GetUserOrgs _ \<Rightarrow> (Inr (200, GOrgs [(7, ''Viewer''), (9, ''Admin'')]), 1, n)
       | GetDataSource _ _ \<Rightarrow> (Inr (404, GNone), 1, n)
       | DeleteOrg _ \<Rightarrow> (Inr (500, GNone), 1, n)
       | _ \<Rightarrow> (Inr (200, GNone), 1, n)),
     gc_AdminUser = ''admin'', gc_LogEndpoint = ''https://logs'', gc_logCA = ''ca''\<rparr>"

definition sample_dash :: DashTenant where
  "sample_dash = \<lparr>dt_Name = ''red'', dt_Index = 3, dt_Password = ''pw'', dt_ReadToken = ''tok''\<rparr>"

theorem dashboards_confined_witness:
  "\<exists>org > 1. each_request (gf_fits sample_grafana sample_dash org)
     (cn_log (snd (run_state (dash_Ensure sample_grafana sample_dash) (conn_start 0))))"
  using dashboards_confined[of sample_grafana sample_dash 0, OF surjective_pairing] by (elim exE conjE) (intro exI conjI)

end
