(* ===== verification/Settings.thy ===== *)
theory Settings
  imports Router LogContract
begin

text \<open>
  The settings of \<^verbatim>\<open>cmd/deevnet-api/config.go\<close>: how a value of the environment is read (numbers, durations, lists), and
  the two that have a grammar of their own, the trust classes and the address ranges. The parts of \<^verbatim>\<open>strings\<close>, \<^verbatim>\<open>strconv\<close>
  and \<^verbatim>\<open>time\<close> they use are modelled here.
\<close>

lemma fold_steps: "(\<lambda>s t. \<exists>x. t = f x s)\<^sup>*\<^sup>* s (fold f xs s)"
  by (induction xs arbitrary: s) (auto intro: converse_rtranclp_into_rtranclp)

section \<open>Reading values\<close>

text \<open>\<^verbatim>\<open>strings.Cut\<close> at a single character.\<close>

definition Cut :: "char \<Rightarrow> string \<Rightarrow> (string \<times> string) option" where
  "Cut c s = (if c \<in> set s then Some (takeWhile (\<lambda>d. d \<noteq> c) s, tl (dropWhile (\<lambda>d. d \<noteq> c) s)) else None)"

text \<open>\<^verbatim>\<open>strconv.Atoi\<close>: an optional sign, decimal digits, and a value an \<^verbatim>\<open>int\<close> of 64 bits holds.\<close>

definition Atoi :: "string \<Rightarrow> int option" where
  "Atoi s =
     (let (neg, ds) = (case s of [] \<Rightarrow> (False, [])
          | c # cs \<Rightarrow> if c = CHR ''-'' then (True, cs) else if c = CHR ''+'' then (False, cs) else (False, s)) in
      if ds = [] \<or> \<not> list_all (\<lambda>c. c \<in> set digits) ds then None
      else let n = (if neg then - int (undec ds) else int (undec ds)) in
        if n < - 9223372036854775808 \<or> n > 9223372036854775807 then None else Some n)"

text \<open>\<^verbatim>\<open>strconv.ParseBool\<close>.\<close>

definition ParseBool :: "string \<Rightarrow> bool option" where
  "ParseBool s =
     (if s \<in> set [''1'', ''t'', ''T'', ''TRUE'', ''true'', ''True''] then Some True
      else if s \<in> set [''0'', ''f'', ''F'', ''FALSE'', ''false'', ''False''] then Some False
      else None)"

subsection \<open>Durations\<close>

text \<open>
  \<^verbatim>\<open>time.ParseDuration\<close>, in nanoseconds. The unit of micro is spelt with \<^verbatim>\<open>u\<close>, U+00B5 or U+03BC. The fraction is exact
  here, and a \<^verbatim>\<open>float64\<close> product in Go.
\<close>

definition unitMap :: "(string \<times> nat) list" where
  "unitMap = [(''ns'', 1), (''us'', 1000), ([CHR 0xC2, CHR 0xB5, CHR ''s''], 1000), ([CHR 0xCE, CHR 0xBC, CHR ''s''], 1000),
     (''ms'', 1000000), (''s'', 1000000000), (''m'', 60000000000), (''h'', 3600000000000)]"

definition too_long :: nat where "too_long = 9223372036854775808"

definition is_digit :: "char \<Rightarrow> bool" where "is_digit c = (c \<in> set digits)"

text \<open>The digits of \<^verbatim>\<open>leadingFraction\<close>: those past what 63 bits hold are dropped.\<close>

fun fraction_digits :: "nat \<Rightarrow> nat \<Rightarrow> string \<Rightarrow> nat \<times> nat" where
  "fraction_digits x scale [] = (x, scale)"
| "fraction_digits x scale (c # cs) =
     (let y = 10 * x + digit_index c digits in
      if x > 922337203685477580 \<or> y > too_long then (x, scale) else fraction_digits y (10 * scale) cs)"

text \<open>One number with its unit: its length in nanoseconds and what follows it.\<close>

definition duration_term :: "string \<Rightarrow> (nat \<times> string) option" where
  "duration_term s =
     (let whole = takeWhile is_digit s; s1 = dropWhile is_digit s;
          dot = HasPrefix s1 ''.'';
          frac = (if dot then takeWhile is_digit (tl s1) else []);
          s2 = (if dot then dropWhile is_digit (tl s1) else s1);
          u = takeWhile (\<lambda>c. c \<noteq> CHR ''.'' \<and> \<not> is_digit c) s2;
          rest = dropWhile (\<lambda>c. c \<noteq> CHR ''.'' \<and> \<not> is_digit c) s2 in
      if undec whole > too_long \<or> (whole = [] \<and> frac = []) \<or> u = [] then None
      else case map_of unitMap u of None \<Rightarrow> None
        | Some unit \<Rightarrow>
            if undec whole > too_long div unit then None
            else let (f, scale) = fraction_digits 0 1 frac; v = undec whole * unit + f * unit div scale in
              if f > 0 \<and> v > too_long then None else Some (v, rest))"

lemma duration_term_shorter: "duration_term s = Some (v, rest) \<Longrightarrow> length rest < length s"
proof -
  assume ran: "duration_term s = Some (v, rest)"
  let ?u = "\<lambda>c. c \<noteq> CHR ''.'' \<and> \<not> is_digit c"
  define s1 where "s1 = dropWhile is_digit s"
  define s2 where "s2 = (if HasPrefix s1 ''.'' then dropWhile is_digit (tl s1) else s1)"
  have rest: "rest = dropWhile ?u s2" "takeWhile ?u s2 \<noteq> []"
    using ran unfolding duration_term_def s2_def s1_def Let_def by (auto split: if_splits option.splits prod.splits)
  have "length s1 \<le> length s" unfolding s1_def by (rule length_dropWhile_le)
  moreover have "length (dropWhile is_digit (tl s1)) \<le> length s1"
    using length_dropWhile_le[of is_digit "tl s1"] by simp
  ultimately have "length s2 \<le> length s" by (simp add: s2_def)
  moreover have "length s2 = length (takeWhile ?u s2) + length rest"
    unfolding rest(1) by (metis length_append takeWhile_dropWhile_id)
  moreover have "length (takeWhile ?u s2) > 0" using rest(2) by simp
  ultimately show ?thesis by linarith
qed

function duration_terms :: "nat \<Rightarrow> string \<Rightarrow> nat option" where
  "duration_terms d s =
     (if s = [] then Some d
      else case duration_term s of None \<Rightarrow> None
        | Some (v, rest) \<Rightarrow> if d + v > too_long then None else duration_terms (d + v) rest)"
  by pat_completeness auto
termination by (relation "measure (length \<circ> snd)") (auto simp: duration_term_shorter)

declare duration_terms.simps [simp del]

definition ParseDuration :: "string \<Rightarrow> int option" where
  "ParseDuration s0 =
     (let (neg, s) = (case s0 of [] \<Rightarrow> (False, []) | c # cs \<Rightarrow>
          if c = CHR ''-'' \<or> c = CHR ''+'' then (c = CHR ''-'', cs) else (False, s0)) in
      if s = ''0'' then Some 0
      else if s = [] then None
      else case duration_terms 0 s of None \<Rightarrow> None
        | Some d \<Rightarrow> if neg then Some (- int d) else if d > too_long - 1 then None else Some (int d))"

section \<open>Settings of the environment\<close>

type_synonym env = "string \<Rightarrow> string"

definition empty_settings :: "env \<Rightarrow> string list \<Rightarrow> string list" where
  "empty_settings getenv keys = filter (\<lambda>k. getenv k = []) keys"

definition orDefault :: "string \<Rightarrow> string \<Rightarrow> string" where
  "orDefault v def = (if v = [] then def else v)"

datatype setting_error = BadDuration string | NotPositive string

definition durationEnv :: "env \<Rightarrow> string \<Rightarrow> int \<Rightarrow> setting_error + int" where
  "durationEnv getenv key def =
     (let v = getenv key in
      if v = [] then Inr def
      else case ParseDuration v of None \<Rightarrow> Inl (BadDuration key)
        | Some d \<Rightarrow> if d \<le> 0 then Inl (NotPositive key) else Inr d)"

definition boolEnv :: "env \<Rightarrow> string \<Rightarrow> bool \<Rightarrow> bool" where
  "boolEnv getenv key def = (case ParseBool (getenv key) of None \<Rightarrow> def | Some b \<Rightarrow> b)"

text \<open>\<^verbatim>\<open>list\<close>, and the same loop over \<^verbatim>\<open>DEEVNET_DNS_UPDATE_FROM\<close>.\<close>

definition list_setting :: "string \<Rightarrow> string list" where
  "list_setting v = filter (\<lambda>x. x \<noteq> []) (map TrimSpace (SplitOn CHR '','' v))"

section \<open>Trust classes and address ranges\<close>

datatype entry_error =
    NotShape string | BadVLAN string | BadSubnet string | BadFirst string | BadLast string
  | DeclaredTwice string | NoneDeclared

text \<open>The loop the two parsers share: blank entries are skipped, a name is declared once, and something is declared.\<close>

fun declare_entries ::
  "(string \<Rightarrow> entry_error + string \<times> 'v) \<Rightarrow> (string \<times> 'v) list \<Rightarrow> string list \<Rightarrow> entry_error + (string \<times> 'v) list" where
  "declare_entries rd out [] = (if out = [] then Inl NoneDeclared else Inr out)"
| "declare_entries rd out (e # es) =
     (let entry = TrimSpace e in
      if entry = [] then declare_entries rd out es
      else case rd entry of Inl err \<Rightarrow> Inl err
        | Inr (name, v) \<Rightarrow>
            if map_of out name \<noteq> None then Inl (DeclaredTwice name) else declare_entries rd (out @ [(name, v)]) es)"

definition trust_entry :: "string \<Rightarrow> entry_error + string \<times> TrustClass" where
  "trust_entry entry =
     (case Cut CHR ''='' entry of None \<Rightarrow> Inl (NotShape entry)
      | Some (name, rest) \<Rightarrow>
          (case Cut CHR '':'' rest of None \<Rightarrow> Inl (NotShape entry)
           | Some (ssid, vlanStr) \<Rightarrow>
               (case Atoi (TrimSpace vlanStr) of None \<Rightarrow> Inl (BadVLAN entry)
                | Some vlan \<Rightarrow> Inr (TrimSpace name, \<lparr>tc_Name = TrimSpace name, tc_SSID = TrimSpace ssid, tc_VLAN = vlan\<rparr>))))"

definition parseTrustClasses :: "string \<Rightarrow> entry_error + (string \<times> TrustClass) list" where
  "parseTrustClasses raw = declare_entries trust_entry [] (SplitOn CHR '','' raw)"

definition range_entry :: "string \<Rightarrow> entry_error + string \<times> AddressRange" where
  "range_entry entry =
     (case Cut CHR ''='' entry of None \<Rightarrow> Inl (NotShape entry)
      | Some (name, rest) \<Rightarrow>
     (case Cut CHR '':'' rest of None \<Rightarrow> Inl (NotShape entry)
      | Some (cidr, span) \<Rightarrow>
     (case Cut CHR ''-'' span of None \<Rightarrow> Inl (NotShape entry)
      | Some (lo, hi) \<Rightarrow>
     (case ParsePrefix (TrimSpace cidr) of None \<Rightarrow> Inl (BadSubnet entry)
      | Some subnet \<Rightarrow>
     (case ParseAddr (TrimSpace lo) of None \<Rightarrow> Inl (BadFirst entry)
      | Some a \<Rightarrow>
     (case ParseAddr (TrimSpace hi) of None \<Rightarrow> Inl (BadLast entry)
      | Some b \<Rightarrow> Inr (TrimSpace name, \<lparr>ar_Subnet = subnet, ar_First = a, ar_Last = b\<rparr>)))))))"

definition parseAddressRanges :: "string \<Rightarrow> entry_error + (string \<times> AddressRange) list" where
  "parseAddressRanges raw = declare_entries range_entry [] (SplitOn CHR '','' raw)"

section \<open>What the loop reads\<close>

text \<open>The entries the loop looks at.\<close>

definition entries :: "string \<Rightarrow> string list" where
  "entries raw = filter (\<lambda>e. e \<noteq> []) (map TrimSpace (SplitOn CHR '','' raw))"

lemma declare_entries_iff:
  "declare_entries rd out es = Inr res \<longleftrightarrow>
     res \<noteq> [] \<and> (\<exists>new. res = out @ new \<and> map rd (filter (\<lambda>e. e \<noteq> []) (map TrimSpace es)) = map Inr new \<and>
       distinct (map fst new) \<and> fst ` set new \<inter> fst ` set out = {})"
proof (induction es arbitrary: out)
  case (Cons e es)
  show ?case
  proof (cases "TrimSpace e = []")
    case False
    show ?thesis
    proof (cases "rd (TrimSpace e)")
      case (Inr x)
      obtain name v where x: "x = (name, v)" by force
      have "(\<exists>new. res = (out @ [x]) @ new \<and> P new \<and> distinct (map fst new) \<and> fst ` set new \<inter> fst ` set (out @ [x]) = {}) \<and>
          name \<notin> fst ` set out \<longleftrightarrow>
        (\<exists>new'. res = out @ new' \<and> (\<exists>new. new' = x # new \<and> P new) \<and> distinct (map fst new') \<and> fst ` set new' \<inter> fst ` set out = {})" for P
        by (auto simp: x)
      then show ?thesis
        using False Cons.IH[of "out @ [x]"]
        by (auto simp: Let_def x Inr map_of_eq_None_iff map_eq_Cons_conv Cons_eq_map_conv)
    qed (use False in \<open>auto simp: Let_def Cons_eq_map_conv\<close>)
  qed (use Cons.IH in \<open>simp add: Let_def\<close>)
qed auto

lemma declared_iff:
  "declare_entries rd [] (SplitOn CHR '','' raw) = Inr res \<longleftrightarrow> res \<noteq> [] \<and> map rd (entries raw) = map Inr res \<and> distinct (map fst res)"
  by (auto simp: declare_entries_iff entries_def)

section \<open>Printing\<close>

lemma Cut_append: "c \<notin> set a \<Longrightarrow> Cut c (a @ [c] @ b) = Some (a, b)"
  by (induction a) (auto simp: Cut_def)

lemma digits_plain: "c \<in> set digits \<Longrightarrow> \<not> is_space c \<and> c \<noteq> CHR ''-'' \<and> c \<noteq> CHR ''+'' \<and> c \<noteq> CHR '',''"
  by (auto simp: digits_def is_space_def)

lemma dec_plain: "c \<in> set (dec n) \<Longrightarrow> \<not> is_space c \<and> c \<noteq> CHR ''-'' \<and> c \<noteq> CHR ''+'' \<and> c \<noteq> CHR '',''"
  using set_dec[of n] digits_plain by blast

lemma Atoi_dec: "int n \<le> 9223372036854775807 \<Longrightarrow> Atoi (dec n) = Some (int n)"
proof -
  assume small: "int n \<le> 9223372036854775807"
  obtain c cs where dec: "dec n = c # cs" by (cases "dec n") auto
  have "list_all (\<lambda>c. c \<in> set digits) (c # cs)" "c \<noteq> CHR ''-''" "c \<noteq> CHR ''+''"
    using set_dec[of n] dec_plain[of c n] by (auto simp: dec list_all_iff)
  then show ?thesis using small undec_dec[of n] unfolding dec Atoi_def by (simp add: Let_def del: undec_dec)
qed

lemma TrimSpace_edges: "s = [] \<or> \<not> is_space (hd s) \<and> \<not> is_space (last s) \<Longrightarrow> TrimSpace s = s"
proof -
  assume edges: "s = [] \<or> \<not> is_space (hd s) \<and> \<not> is_space (last s)"
  have keep: "xs = [] \<or> \<not> is_space (hd xs) \<Longrightarrow> dropWhile is_space xs = xs" for xs by (cases xs) auto
  show ?thesis using edges by (auto simp: TrimSpace_def keep hd_rev)
qed

definition trimmed :: "string \<Rightarrow> bool" where
  "trimmed s = (s = [] \<or> \<not> is_space (hd s) \<and> \<not> is_space (last s))"

lemma TrimSpace_trimmed: "trimmed s \<Longrightarrow> TrimSpace s = s"
  unfolding trimmed_def by (rule TrimSpace_edges)

lemma TrimSpace_dec: "TrimSpace (dec n) = dec n"
  using dec_plain by (intro TrimSpace_id) blast

text \<open>An entry as the deployment role writes it, and what a class has to be like for that: its separators are not in its names.\<close>

definition class_text :: "TrustClass \<Rightarrow> string" where
  "class_text tc = tc_Name tc @ ''='' @ tc_SSID tc @ '':'' @ itoa (tc_VLAN tc)"

definition printable_class :: "TrustClass \<Rightarrow> bool" where
  "printable_class tc =
     (trimmed (tc_Name tc) \<and> CHR ''='' \<notin> set (tc_Name tc) \<and> CHR '','' \<notin> set (tc_Name tc) \<and>
      trimmed (tc_SSID tc) \<and> CHR '':'' \<notin> set (tc_SSID tc) \<and> CHR '','' \<notin> set (tc_SSID tc) \<and> 1 \<le> tc_VLAN tc \<and> tc_VLAN tc \<le> 4094)"

lemma class_text_reads:
  assumes "printable_class tc"
  shows "TrimSpace (class_text tc) = class_text tc" "class_text tc \<noteq> []" "CHR '','' \<notin> set (class_text tc)"
    "trust_entry (class_text tc) = Inr (tc_Name tc, tc)"
proof -
  note tc = assms[unfolded printable_class_def]
  have vlan: "itoa (tc_VLAN tc) = dec (nat (tc_VLAN tc))" using tc by (simp add: itoa_nonneg)
  have "\<not> is_space (last (class_text tc))" using dec_plain[of _ "nat (tc_VLAN tc)", OF last_in_set] by (simp add: class_text_def vlan)
  moreover have "\<not> is_space (hd (class_text tc))" using tc by (cases "tc_Name tc") (auto simp: class_text_def trimmed_def is_space_def)
  ultimately show "TrimSpace (class_text tc) = class_text tc" by (simp add: TrimSpace_edges)
  show "class_text tc \<noteq> []" by (simp add: class_text_def)
  show "CHR '','' \<notin> set (class_text tc)" using tc dec_plain by (auto simp: class_text_def vlan)
  have "Cut CHR ''='' (class_text tc) = Some (tc_Name tc, tc_SSID tc @ '':'' @ dec (nat (tc_VLAN tc)))"
    using tc Cut_append[of "CHR ''=''" "tc_Name tc"] by (simp add: class_text_def vlan)
  moreover have "Cut CHR '':'' (tc_SSID tc @ '':'' @ dec (nat (tc_VLAN tc))) = Some (tc_SSID tc, dec (nat (tc_VLAN tc)))"
    using tc Cut_append[of "CHR '':''" "tc_SSID tc"] by simp
  moreover have "Atoi (dec (nat (tc_VLAN tc))) = Some (tc_VLAN tc)" using tc Atoi_dec[of "nat (tc_VLAN tc)"] by simp
  ultimately show "trust_entry (class_text tc) = Inr (tc_Name tc, tc)"
    using tc by (simp add: trust_entry_def TrimSpace_dec TrimSpace_trimmed)
qed

section \<open>Properties of the component\<close>

text \<open>The classes a site serves are exactly the ones its setting declares: parsing succeeds with a result just when the
  result is not empty, it is what the non-blank entries read as, one for one and in their order, and no name comes
  twice. No entry is quietly dropped, and none overwrites another.\<close>

lemma trust_classes_as_declared:
  "parseTrustClasses raw = Inr classes \<longleftrightarrow>
     classes \<noteq> [] \<and> map trust_entry (entries raw) = map Inr classes \<and> distinct (map fst classes)"
  unfolding parseTrustClasses_def by (rule declared_iff)

text \<open>The address ranges likewise.\<close>

lemma address_ranges_as_declared:
  "parseAddressRanges raw = Inr ranges \<longleftrightarrow>
     ranges \<noteq> [] \<and> map range_entry (entries raw) = map Inr ranges \<and> distinct (map fst ranges)"
  unfolding parseAddressRanges_def by (rule declared_iff)

text \<open>The setting round-trips: trust classes with distinct names, printed in the form the deployment role writes, are
  read back as they were, each under its own name.\<close>

lemma trust_classes_roundtrip:
  assumes "tcs \<noteq> []" "distinct (map tc_Name tcs)" "list_all printable_class tcs"
  shows "parseTrustClasses (Join (map class_text tcs) '','') = Inr (map (\<lambda>tc. (tc_Name tc, tc)) tcs)"
proof -
  have each: "\<And>tc. tc \<in> set tcs \<Longrightarrow> printable_class tc" using assms(3) by (simp add: list_all_iff)
  have "SplitOn CHR '','' (Join (map class_text tcs) '','') = map class_text tcs"
    using assms(1) class_text_reads(3)[OF each] by (auto simp: SplitOn_eq_iff)
  moreover have "map TrimSpace (map class_text tcs) = map class_text tcs"
    using class_text_reads(1)[OF each] by simp
  moreover have "filter (\<lambda>e. e \<noteq> []) (map class_text tcs) = map class_text tcs"
    using class_text_reads(2)[OF each] by (auto intro!: filter_True)
  ultimately have "entries (Join (map class_text tcs) '','') = map class_text tcs"
    by (simp only: entries_def)
  then show ?thesis
    using assms(1,2) class_text_reads(4)[OF each] by (auto simp: parseTrustClasses_def declared_iff comp_def)
qed

definition site_classes :: "TrustClass list" where
  "site_classes = [\<lparr>tc_Name = ''iot'', tc_SSID = ''DVNTM-IOT'', tc_VLAN = 30\<rparr>,
     \<lparr>tc_Name = ''iot_vendor'', tc_SSID = ''DVNTM-IOTV'', tc_VLAN = 31\<rparr>]"

lemma site_classes_text: "Join (map class_text site_classes) '','' = ''iot=DVNTM-IOT:30,iot_vendor=DVNTM-IOTV:31''"
  by code_simp

text \<open>A timeout the environment sets is read as written or refused; a malformed switch falls back to its default.\<close>

lemma durationEnv_positive: "durationEnv getenv key def = Inr d \<Longrightarrow> 0 < def \<Longrightarrow> 0 < d"
  by (auto simp: durationEnv_def Let_def split: if_splits option.splits)

lemma malformed_switch_is_default: "ParseBool (getenv key) = None \<Longrightarrow> boolEnv getenv key def = def"
  by (simp add: boolEnv_def)

end
