(* ===== verification/Channel.thy ===== *)
theory Channel
  imports BrokerContract LogWriter Tenant
begin

text \<open>
  \<^verbatim>\<open>internal/backend/brokerwriter\<close> and \<^verbatim>\<open>internal/backend/logwriter\<close>: the two clients that carry one request over SSH to a
  pinned program and read one response back. The programs are those of \<open>BrokerContract\<close> and \<open>LogWriter\<close>; the network is a
  parameter of each exchange, which may end before the program ran, or after it and before its answer arrived. The host
  key is pinned, so an answer that arrives is the program's own.
\<close>

section \<open>Configuration\<close>

record ssh_config =
  sh_Addr :: string
  sh_User :: string
  sh_PrivateKey :: string
  sh_HostKey :: string
  sh_ConnectTimeout :: int
  sh_SessionTimeout :: int

text \<open>The two keys are parsed by \<^verbatim>\<open>golang.org/x/crypto/ssh\<close>, a parameter.\<close>

definition ssh_New ::
  "string \<Rightarrow> (string \<Rightarrow> 'k option) \<Rightarrow> (string \<Rightarrow> 'h option) \<Rightarrow> ssh_config \<Rightarrow> string + ssh_config \<times> 'k \<times> 'h" where
  "ssh_New writer parsePrivate parseHost cfg =
     (if sh_Addr cfg = [] then Inl (writer @ '' address is required'')
      else if sh_User cfg = [] then Inl (writer @ '' user is required'')
      else if length (sh_PrivateKey cfg) = 0 then Inl (writer @ '' private key is required'')
      else if sh_HostKey cfg = [] then Inl (writer @ '' host key is required; this client will not connect without one'')
      else if sh_ConnectTimeout cfg \<le> 0 \<or> sh_SessionTimeout cfg \<le> 0 then Inl (writer @ '' timeouts must be positive'')
      else (case parsePrivate (sh_PrivateKey cfg) of None \<Rightarrow> Inl (''parsing the '' @ writer @ '' private key'')
        | Some k \<Rightarrow> (case parseHost (sh_HostKey cfg) of None \<Rightarrow> Inl (''parsing the '' @ writer @ '' host key'')
          | Some h \<Rightarrow> Inr (cfg, k, h))))"

section \<open>One exchange\<close>

text \<open>
  Whether the host was reached and a session opened; the circumstances the program ran in, if it ran; whether its answer
  came back whole; and whether the session ended in an error (a timeout, a dropped connection, an exit status).
\<close>

record 'e exchange =
  xc_reached :: bool
  xc_session :: bool
  xc_ran :: "'e option"
  xc_answer :: bool
  xc_failed :: bool

datatype 'r send_error = Unreached | NoSession | Refused 'r | DidNotAnswer | NotAResponse

definition ssh_send ::
  "('r \<Rightarrow> bool) \<Rightarrow> ('e \<Rightarrow> 'q \<Rightarrow> 's \<Rightarrow> 'r \<times> 's) \<Rightarrow> 'e exchange \<Rightarrow> 'q \<Rightarrow> 's \<Rightarrow> 'r send_error option \<times> 's" where
  "ssh_send ok far x q s =
     (if \<not> xc_reached x then (Some Unreached, s)
      else if \<not> xc_session x then (Some NoSession, s)
      else
        let (resp, s') = (case xc_ran x of None \<Rightarrow> (None, s)
              | Some e \<Rightarrow> (case far e q s of (r, s1) \<Rightarrow> (if xc_answer x then Some r else None, s1))) in
        (case resp of
           Some r \<Rightarrow> if ok r then None else Some (Refused r)
         | None \<Rightarrow> if xc_failed x then Some DidNotAnswer else Some NotAResponse, s'))"

section \<open>The broker's writer\<close>

definition put_request :: "BrokerAccount \<Rightarrow> BrokerRequest" where
  "put_request a = \<lparr>br_Version = broker_Version, br_Op = OpPut, br_Tenant = ba_Tenant a, br_Account = ba_Name a,
     br_PasswordHash = ba_PasswordHash a, br_Publish = ba_Publish a, br_Subscribe = ba_Subscribe a\<rparr>"

definition delete_request :: "string \<Rightarrow> string \<Rightarrow> BrokerRequest" where
  "delete_request tenantName name = \<lparr>br_Version = broker_Version, br_Op = OpDelete, br_Tenant = tenantName, br_Account = name,
     br_PasswordHash = [], br_Publish = [], br_Subscribe = []\<rparr>"

definition broker_far :: "bool \<times> bool \<Rightarrow> BrokerRequest \<Rightarrow> vmq_row list \<Rightarrow> BrokerResponse \<times> vmq_row list" where
  "broker_far = (\<lambda>(up, ok). writer_run up ok)"

definition broker_send ::
  "(bool \<times> bool) exchange \<Rightarrow> BrokerRequest \<Rightarrow> vmq_row list \<Rightarrow> BrokerResponse send_error option \<times> vmq_row list" where
  "broker_send = ssh_send resp_OK broker_far"

definition broker_Put :: "(bool \<times> bool) exchange \<Rightarrow> BrokerAccount \<Rightarrow> vmq_row list \<Rightarrow> BrokerResponse send_error option \<times> vmq_row list" where
  "broker_Put x a = broker_send x (put_request a)"

definition broker_Remove ::
  "(bool \<times> bool) exchange \<Rightarrow> string \<Rightarrow> string \<Rightarrow> vmq_row list \<Rightarrow> BrokerResponse send_error option \<times> vmq_row list" where
  "broker_Remove x tenantName name = broker_send x (delete_request tenantName name)"

section \<open>The log store's writer\<close>

definition log_put_request :: "LogTenant \<Rightarrow> LogRequest" where
  "log_put_request t = \<lparr>lr_Version = log_Version, lr_Op = log_OpPut, lr_Tenant = lt_Name t, lr_Index = lt_Index t,
     lr_IngestToken = lt_IngestToken t, lr_ReadToken = lt_ReadToken t\<rparr>"

definition log_delete_request :: "string \<Rightarrow> int \<Rightarrow> LogRequest" where
  "log_delete_request name index = \<lparr>lr_Version = log_Version, lr_Op = log_OpDelete, lr_Tenant = name, lr_Index = index,
     lr_IngestToken = [], lr_ReadToken = []\<rparr>"

definition log_far :: "log_host \<Rightarrow> LogRequest \<Rightarrow> log_state \<Rightarrow> LogResponse \<times> log_state" where
  "log_far h req = log_run h (Some req)"

text \<open>Validated here as well as at the far end.\<close>

definition log_send ::
  "log_host exchange \<Rightarrow> LogRequest \<Rightarrow> log_state \<Rightarrow> (log_error + LogResponse send_error) option \<times> log_state" where
  "log_send x req s =
     (case Validate_log req of Some e \<Rightarrow> (Some (Inl e), s)
      | None \<Rightarrow> (case ssh_send lp_OK log_far x req s of (r, s') \<Rightarrow> (map_option Inr r, s')))"

definition log_Put :: "log_host exchange \<Rightarrow> LogTenant \<Rightarrow> log_state \<Rightarrow> (log_error + LogResponse send_error) option \<times> log_state" where
  "log_Put x t = log_send x (log_put_request t)"

definition log_Remove ::
  "log_host exchange \<Rightarrow> string \<Rightarrow> int \<Rightarrow> log_state \<Rightarrow> (log_error + LogResponse send_error) option \<times> log_state" where
  "log_Remove x name index = log_send x (log_delete_request name index)"

section \<open>Retrying a request\<close>

text \<open>
  A program whose run leaves what it keeps (\<open>view\<close>) as it was or makes the request's \<open>effect\<close> on it, makes it when it
  answers with success, and for which a second effect changes nothing. Sending the request again is then safe at any
  point, and once it is answered with success the effect is there, once.
\<close>

locale repeatable_program =
  fixes ok :: "'r \<Rightarrow> bool" and far :: "'e \<Rightarrow> 'q \<Rightarrow> 's \<Rightarrow> 'r \<times> 's" and inv :: "'s \<Rightarrow> bool" and view :: "'s \<Rightarrow> 'v"
    and effect :: "'q \<Rightarrow> 'v \<Rightarrow> 'v"
  assumes far_inv: "inv s \<Longrightarrow> inv (snd (far e q s))"
    and far_view: "inv s \<Longrightarrow> view (snd (far e q s)) = view s \<or> view (snd (far e q s)) = effect q (view s)"
    and far_ok: "inv s \<Longrightarrow> ok (fst (far e q s)) \<Longrightarrow> view (snd (far e q s)) = effect q (view s)"
    and effect_idem: "effect q (effect q v) = effect q v"
begin

lemma send_inv: "inv s \<Longrightarrow> inv (snd (ssh_send ok far x q s))"
  using far_inv by (auto simp: ssh_send_def Let_def split: option.split prod.splits) (metis snd_conv)

lemma send_view: "inv s \<Longrightarrow> view (snd (ssh_send ok far x q s)) = view s \<or> view (snd (ssh_send ok far x q s)) = effect q (view s)"
  using far_view by (auto simp: ssh_send_def Let_def split: option.split prod.splits) (metis snd_conv)+

lemma send_ok: "inv s \<Longrightarrow> fst (ssh_send ok far x q s) = None \<Longrightarrow> view (snd (ssh_send ok far x q s)) = effect q (view s)"
  using far_ok by (auto simp: ssh_send_def Let_def split: option.splits prod.splits if_splits) (metis fst_conv snd_conv)

lemma attempts:
  "inv s \<Longrightarrow> inv (fold (\<lambda>x s. snd (ssh_send ok far x q s)) xs s) \<and>
     (view (fold (\<lambda>x s. snd (ssh_send ok far x q s)) xs s) = view s \<or>
      view (fold (\<lambda>x s. snd (ssh_send ok far x q s)) xs s) = effect q (view s))"
proof (induction xs arbitrary: s)
  case (Cons x xs)
  let ?s = "snd (ssh_send ok far x q s)"
  have "view ?s = view s \<or> view ?s = effect q (view s)" by (rule send_view[OF Cons.prems])
  moreover note Cons.IH[OF send_inv[OF Cons.prems, of x q]]
  ultimately show ?case by (auto simp: effect_idem)
qed simp

lemma retry_converges:
  assumes "inv s" "fst (ssh_send ok far x q (fold (\<lambda>x s. snd (ssh_send ok far x q s)) xs s)) = None"
  shows "view (snd (ssh_send ok far x q (fold (\<lambda>x s. snd (ssh_send ok far x q s)) xs s))) = effect q (view s)"
  using attempts[OF assms(1), of q xs] send_ok[OF _ assms(2)] by (auto simp: effect_idem)

end

section \<open>The two programs are repeatable\<close>

text \<open>What a request makes of the broker's table.\<close>

definition broker_effect :: "BrokerRequest \<Rightarrow> vmq_row list \<Rightarrow> vmq_row list" where
  "broker_effect q tbl =
     (if Validate_broker q \<noteq> None then tbl else if br_Op q = OpPut then snd (writer_put q tbl)
      else if br_Op q = OpDelete then writer_del q tbl else tbl)"

lemma writer_put_idem: "snd (writer_put q (snd (writer_put q tbl))) = snd (writer_put q tbl)"
proof -
  let ?r = "vmq_row_of q" and ?tbl = "snd (writer_put q tbl)"
  have same: "x = ?r" if "x \<in> set ?tbl" "vmq_key x = vmq_key ?r" for x
    using that vmq_update_row_of
    by (auto simp: writer_put_def upsert_row_def update_row_def get_row_None image_iff split: if_splits)
  have "snd (writer_put q ?tbl) = update_row vmq_key (vmq_key ?r) (\<lambda>old. vmq_update old ?r) ?tbl"
    using writer_put_get[of q tbl] by (simp add: writer_put_def upsert_row_def)
  also have "\<dots> = ?tbl"
    unfolding update_row_def by (rule map_idI) (use same vmq_update_row_of in fastforce)
  finally show ?thesis .
qed

interpretation broker: repeatable_program resp_OK broker_far "\<lambda>_. True" id broker_effect
proof unfold_locales
  fix e :: "bool \<times> bool" and q :: BrokerRequest and tbl :: "vmq_row list"
  obtain up ok where e: "e = (up, ok)" by force
  have ran: "resp_OK (fst (writer_run up ok q tbl)) \<and> snd (writer_run up ok q tbl) = broker_effect q tbl \<or>
      \<not> resp_OK (fst (writer_run up ok q tbl)) \<and> snd (writer_run up ok q tbl) = tbl"
    by (auto simp: writer_run_def broker_effect_def writer_fail_def split: option.split prod.split)
  show "id (snd (broker_far e q tbl)) = id tbl \<or> id (snd (broker_far e q tbl)) = broker_effect q (id tbl)"
    using ran by (auto simp: e broker_far_def)
  show "id (snd (broker_far e q tbl)) = broker_effect q (id tbl)" if "resp_OK (fst (broker_far e q tbl))"
    using ran that by (auto simp: e broker_far_def)
  show "broker_effect q (broker_effect q tbl) = broker_effect q tbl"
    by (simp add: broker_effect_def writer_put_idem writer_del_def delete_row_def)
qed simp

interpretation logs: repeatable_program lp_OK log_far files_ok stored after_request
proof unfold_locales
  fix h :: log_host and q :: LogRequest and s :: log_state and old :: "tenantFile set"
  obtain resp s' where run: "log_run h (Some q) s = (resp, s')" by force
  assume ok: "files_ok s"
  have ran: "files_ok s' \<and> (stored s' = after_request q (stored s) \<or> stored s' = stored s \<and> \<not> lp_OK resp)"
    using log_run_cases[OF run ok] ok log_finish_files by metis
  show "files_ok (snd (log_far h q s))" using ran by (simp add: log_far_def run)
  show "stored (snd (log_far h q s)) = stored s \<or> stored (snd (log_far h q s)) = after_request q (stored s)"
    using ran by (auto simp: log_far_def run)
  show "stored (snd (log_far h q s)) = after_request q (stored s)" if "lp_OK (fst (log_far h q s))"
    using ran that by (auto simp: log_far_def run)
qed (auto simp: after_request_def sent_file_def)

section \<open>Properties of the component\<close>

text \<open>An exchange that reaches the writer, runs it with its database there, and brings the answer back.\<close>

definition goes_through :: "(bool \<times> bool) exchange \<Rightarrow> bool" where
  "goes_through x = (xc_reached x \<and> xc_session x \<and> xc_ran x = Some (True, True) \<and> xc_answer x)"

lemma valid_op: "Validate_broker q = None \<Longrightarrow> br_Op q = OpPut \<or> br_Op q = OpDelete"
  by (auto simp: Validate_broker_def split: if_splits)

lemma goes_through_succeeds:
  "Validate_broker q = None \<Longrightarrow> goes_through x \<Longrightarrow> broker_send x q tbl = (None, broker_effect q tbl)"
  using valid_op[of q]
  by (auto simp: broker_send_def ssh_send_def goes_through_def broker_far_def writer_run_def broker_effect_def Let_def
      split: prod.splits)

text \<open>An account is put to the broker once, however often it is sent: for a request the contract accepts, any
  number of exchanges, each ending before the writer ran, after it ran with its answer lost, or in the writer's refusal,
  leave the table as it was or with this one account's row put; the next exchange that goes through reports success, and
  the table is then the one a single put makes.\<close>

lemma broker_put_retried:
  assumes "Validate_broker (put_request a) = None"
  shows "let tbl' = fold (\<lambda>x tbl. snd (broker_Put x a tbl)) xs tbl in
    (tbl' = tbl \<or> tbl' = snd (writer_put (put_request a) tbl)) \<and>
    (goes_through x \<longrightarrow> broker_Put x a tbl' = (None, snd (writer_put (put_request a) tbl)))"
proof -
  let ?q = "put_request a"
  let ?t = "fold (\<lambda>x tbl. snd (broker_Put x a tbl)) xs tbl"
  have effect: "broker_effect ?q t = snd (writer_put ?q t)" for t
    using assms by (simp add: broker_effect_def put_request_def)
  have "?t = tbl \<or> ?t = broker_effect ?q tbl"
    using broker.attempts[where s = tbl and q = ?q and xs = xs] by (simp add: broker_Put_def broker_send_def)
  then show ?thesis
    using goes_through_succeeds[OF assms, of x ?t] broker.effect_idem[of ?q tbl] by (auto simp: effect broker_Put_def Let_def)
qed

definition sample_account :: BrokerAccount where
  "sample_account = \<lparr>ba_Tenant = ''eds'', ba_Name = ''meter'', ba_Device = [], ba_Publish = [''eds/power''], ba_Subscribe = [],
     ba_PasswordHash = ''$2a$10$'' @ replicate 53 CHR ''a'', ba_Status = StatusReady\<rparr>"

definition lost_answer :: "(bool \<times> bool) exchange" where
  "lost_answer = \<lparr>xc_reached = True, xc_session = True, xc_ran = Some (True, True), xc_answer = False, xc_failed = True\<rparr>"

definition whole_exchange :: "(bool \<times> bool) exchange" where
  "whole_exchange = lost_answer\<lparr>xc_answer := True, xc_failed := False\<rparr>"

lemma sample_account_valid: "Validate_broker (put_request sample_account) = None"
  by code_simp

text \<open>A delete behaves the same.\<close>

lemma broker_remove_retried:
  assumes "Validate_broker (delete_request tenantName name) = None"
  shows "let tbl' = fold (\<lambda>x tbl. snd (broker_Remove x tenantName name tbl)) xs tbl in
    goes_through x \<longrightarrow> broker_Remove x tenantName name tbl' = (None, writer_del (delete_request tenantName name) tbl)"
proof -
  let ?q = "delete_request tenantName name"
  have effect: "broker_effect ?q t = writer_del ?q t" for t
    using assms by (simp add: broker_effect_def delete_request_def OpPut_def OpDelete_def)
  show ?thesis
    using broker.attempts[where s = tbl and q = ?q and xs = xs] goes_through_succeeds[OF assms, of x] broker.effect_idem[of ?q tbl]
    by (auto simp: effect broker_Remove_def broker_send_def Let_def)
qed

text \<open>
  The log store's writer: repeated requests leave the files of every tenant as they were or as one request makes them,
  and a request answered with success has been carried out.
\<close>

lemma log_put_retried:
  assumes "files_ok s" "s' = fold (\<lambda>x s. snd (log_Put x t s)) xs s"
  shows "files_ok s' \<and> (stored s' = stored s \<or> stored s' = after_request (log_put_request t) (stored s)) \<and>
    (fst (log_Put x t s') = None \<longrightarrow> stored (snd (log_Put x t s')) = after_request (log_put_request t) (stored s))"
proof (cases "Validate_log (log_put_request t)")
  case None
  have send: "snd (log_Put x t s) = snd (ssh_send lp_OK log_far x (log_put_request t) s)"
    "fst (log_Put x t s) = None \<longleftrightarrow> fst (ssh_send lp_OK log_far x (log_put_request t) s) = None" for x s
    by (simp_all add: log_Put_def log_send_def None split: prod.split)
  show ?thesis
    using logs.attempts[OF assms(1), of "log_put_request t" xs] logs.retry_converges[OF assms(1), of x "log_put_request t" xs]
    by (simp add: send assms(2))
next
  case (Some e)
  then have "snd (log_Put x t s) = s" "fst (log_Put x t s) \<noteq> None" for x s by (simp_all add: log_Put_def log_send_def)
  moreover from this have "fold (\<lambda>x s. snd (log_Put x t s)) xs s = s" by (induction xs) simp_all
  ultimately show ?thesis using assms by (metis option.distinct(1))
qed

text \<open>
  The client words every answer that is not a success as the two ends disagreeing about what is valid. A valid request
  gets it too, whenever the writer's database is down.
\<close>

lemma outage_reported_as_disagreement:
  assumes "Validate_broker (put_request a) = None" "xc_reached x" "xc_session x" "xc_ran x = Some (False, ok)" "xc_answer x"
  shows "broker_Put x a tbl = (Some (Refused (writer_fail WUnavailable)), tbl)"
  using assms by (simp add: broker_Put_def broker_send_def ssh_send_def broker_far_def writer_run_def writer_fail_def)

end
