(* ===== verification/Startup.thy ===== *)
theory Startup
  imports Settings Channel OpenBao System
begin

text \<open>
  \<^verbatim>\<open>cmd/deevnet-api\<close>: the program. \<open>tenantService\<close> reads the environment and the backend credentials and wires the service;
  \<open>api_start\<close> is \<^verbatim>\<open>run\<close> up to its first build, and \<open>api_step\<close> the background retries while OpenBao is sealed. What is
  not in the repository is a parameter: the files of the host, the certificate and key parsers, and the MinIO client's
  own constructor. A client is represented by the settings it was made with; how the backends then answer is a
  \<open>service\<close>, as in the rest of the development.
\<close>

section \<open>Results\<close>

definition and_then :: "'e + 'a \<Rightarrow> ('a \<Rightarrow> 'e + 'b) \<Rightarrow> 'e + 'b" where
  "and_then m k = (case m of Inl e \<Rightarrow> Inl e | Inr x \<Rightarrow> k x)"

definition refuse_if :: "bool \<Rightarrow> 'e \<Rightarrow> 'e + 'a \<Rightarrow> 'e + 'a" where
  "refuse_if b e m = (if b then Inl e else m)"

definition or_fail :: "'e \<Rightarrow> 'a option \<Rightarrow> 'e + 'a" where
  "or_fail e x = (case x of None \<Rightarrow> Inl e | Some v \<Rightarrow> Inr v)"

definition as_error :: "('d \<Rightarrow> 'e) \<Rightarrow> 'd + 'a \<Rightarrow> 'e + 'a" where
  "as_error f m = (case m of Inl e \<Rightarrow> Inl (f e) | Inr x \<Rightarrow> Inr x)"

lemma and_then_Inr: "and_then m k = Inr y \<longleftrightarrow> (\<exists>x. m = Inr x \<and> k x = Inr y)"
  by (auto simp: and_then_def split: sum.splits)

lemma refuse_if_Inr: "refuse_if b e m = Inr y \<longleftrightarrow> \<not> b \<and> m = Inr y"
  by (simp add: refuse_if_def)

lemma or_fail_Inr: "or_fail e x = Inr y \<longleftrightarrow> x = Some y"
  by (auto simp: or_fail_def split: option.splits)

lemma as_error_Inr: "as_error f m = Inr y \<longleftrightarrow> m = Inr y"
  by (auto simp: as_error_def split: sum.splits)

lemmas result_Inr = and_then_Inr refuse_if_Inr or_fail_Inr as_error_Inr

section \<open>Settings and credentials\<close>

definition siteEnv :: "string list" where
  "siteEnv = [''DEEVNET_SITE'', ''DEEVNET_SITE_OCTET'', ''DEEVNET_ROOT_DOMAIN'', ''DEEVNET_VRF_VNI_BASE'', ''DEEVNET_VNET_VNI_BASE'',
     ''DEEVNET_FABRIC_CONTROLLER'', ''DEEVNET_FABRIC_NODE'', ''DEEVNET_DNS_UPDATE_SERVER'', ''DEEVNET_DNS_APEX_NS'',
     ''DEEVNET_DNS_UPDATE_FROM'', ''DEEVNET_STATE_ENDPOINT'', ''DEEVNET_STATE_BUCKET'', ''DEEVNET_RESOLVER_FORWARD_TO'',
     ''DEEVNET_WORKLOAD_RESOLVER'', ''POWERDNS_API_URL'', ''OPNSENSE_API_URL'', ''MINIO_ADMIN_ENDPOINT'', ''PROXMOX_API_URL'',
     ''DEEVNET_TENANT_VMID_BASE'', ''DEEVNET_MAC_NAMESPACE'', ''DEEVNET_TEMPLATE_PREFIX'', ''DEEVNET_TENANT_STORAGE'',
     ''DEEVNET_TENANT_DISK'', ''DEEVNET_TENANT_CIUSER'']"

definition credentials :: "string list" where
  "credentials = [''powerdns_api_key'', ''opnsense_api_key'', ''opnsense_api_secret'', ''minio_admin_access_key'', ''minio_admin_secret_key'',
     ''proxmox_token_id'', ''proxmox_token_secret'', ''token_hmac_key'']"

definition omadaEnv :: "string list" where "omadaEnv = [''OMADA_API_URL'', ''DEEVNET_IOT_TRUST_CLASSES'']"
definition omadaCredentials :: "string list" where "omadaCredentials = [''omada_client_id'', ''omada_client_secret'']"

definition brokerEnv :: "string list" where
  "brokerEnv = [''DEEVNET_BROKER_WRITER_ADDR'', ''DEEVNET_BROKER_WRITER_USER'', ''DEEVNET_BROKER_HOST_KEY'']"

definition brokerCredentials :: "string list" where "brokerCredentials = [''broker_writer_key'']"

definition logEnv :: "string list" where
  "logEnv = [''DEEVNET_LOG_WRITER_ADDR'', ''DEEVNET_LOG_WRITER_USER'', ''DEEVNET_LOG_HOST_KEY'']"

definition logCredentials :: "string list" where "logCredentials = [''log_writer_key'']"

definition grafanaEnv :: "string list" where
  "grafanaEnv = [''DEEVNET_GRAFANA_URL'', ''DEEVNET_GRAFANA_CACERT'', ''DEEVNET_LOG_ENDPOINT'', ''DEEVNET_LOG_WRITER_ADDR'']"

definition grafanaCredentials :: "string list" where "grafanaCredentials = [''grafana_admin_password'']"

definition openbaoEnv :: "string list" where
  "openbaoEnv = [''OPENBAO_ADDR'', ''OPENBAO_CACERT'', ''OPENBAO_ROLE_ID'', ''OPENBAO_SECRET_ID'']"

datatype start_error =
    EmptySettings string "string list"
  | MissingCredentials bool "string list"
  | MissingCredential string string
  | NotANumber string
  | BadClasses entry_error
  | BadRanges entry_error
  | BadShare string
  | BadSite site_error
  | NotBase64
  | BadTokenKey err
  | BadTTL
  | BadSetting setting_error
  | SignerWithoutOpenBao
  | ClientRefused string string
  | FromOpenBao bao_error

section \<open>The clients' constructors\<close>

record platform =
  pf_ReadFile :: "string \<Rightarrow> string option"
  pf_HoldsCertificate :: "string \<Rightarrow> bool"
  pf_NewWithOptions :: "string \<Rightarrow> bool \<Rightarrow> bool"
  pf_ParsePrivateKey :: "string \<Rightarrow> string option"
  pf_ParseAuthorizedKey :: "string \<Rightarrow> string option"

definition bao_New :: "platform \<Rightarrow> string \<Rightarrow> bao_config \<Rightarrow> string + bao_config" where
  "bao_New pf caFile cfg =
     (if bo_Addr cfg = [] \<or> bo_RoleID cfg = [] \<or> bo_SecretID cfg = [] \<or> bo_KVMount cfg = [] \<or> bo_TransitKey cfg = []
      then Inl ''openbao: address, AppRole, KV mount and Transit key are required''
      else if caFile = [] then Inr cfg
      else (case pf_ReadFile pf caFile of None \<Rightarrow> Inl ''openbao: CA file''
        | Some pem \<Rightarrow> if \<not> pf_HoldsCertificate pf pem then Inl ''openbao: CA file holds no certificate'' else Inr cfg))"

record state_client =
  sc_Endpoint :: string
  sc_AccessKey :: string
  sc_SecretKey :: string
  sc_Secure :: bool
  sc_RootCAs :: "string option"

definition state_New :: "platform \<Rightarrow> string \<Rightarrow> string \<Rightarrow> string \<Rightarrow> bool \<Rightarrow> string \<Rightarrow> string + state_client" where
  "state_New pf endpoint accessKey secretKey useTLS caFile =
     and_then
       (if \<not> useTLS then Inr None
        else if caFile = [] then Inl ''TLS needs a CA file; this client does not skip verification''
        else (case pf_ReadFile pf caFile of None \<Rightarrow> Inl ''state store CA''
          | Some raw \<Rightarrow> if \<not> pf_HoldsCertificate pf raw then Inl ''state store CA holds no certificate'' else Inr (Some raw)))
       (\<lambda>pool. if pf_NewWithOptions pf endpoint useTLS
          then Inr \<lparr>sc_Endpoint = endpoint, sc_AccessKey = accessKey, sc_SecretKey = secretKey, sc_Secure = useTLS, sc_RootCAs = pool\<rparr>
          else Inl ''endpoint'')"

record dash_client =
  dc_URL :: string
  dc_AdminUser :: string
  dc_AdminPassword :: string
  dc_LogEndpoint :: string
  dc_RootCAs :: string
  dc_logCA :: string

text \<open>\<^verbatim>\<open>LogCA\<close> and \<^verbatim>\<open>Timeout\<close> are left zero by the program, so the CA file's text is also what the data sources verify with.\<close>

definition TrimRightSlash :: "string \<Rightarrow> string" where
  "TrimRightSlash s = rev (dropWhile (\<lambda>c. c = CHR ''/'') (rev s))"

definition dash_New :: "platform \<Rightarrow> string \<Rightarrow> string \<Rightarrow> string \<Rightarrow> string \<Rightarrow> string \<Rightarrow> string + dash_client" where
  "dash_New pf url adminUser adminPassword caFile logEndpoint =
     (if url = [] then Inl ''dashboard server URL is required''
      else if adminUser = [] \<or> adminPassword = [] then Inl ''dashboard server admin credentials are required''
      else if logEndpoint = [] then Inl ''the log endpoint is required: the data sources point at it''
      else if caFile = [] then Inl ''a CA file is required; this client does not skip verification''
      else (case pf_ReadFile pf caFile of None \<Rightarrow> Inl ''dashboard CA''
        | Some pem \<Rightarrow> if \<not> pf_HoldsCertificate pf pem then Inl ''dashboard CA holds no certificate''
            else Inr \<lparr>dc_URL = TrimRightSlash url, dc_AdminUser = adminUser, dc_AdminPassword = adminPassword,
              dc_LogEndpoint = logEndpoint, dc_RootCAs = pem, dc_logCA = pem\<rparr>))"

section \<open>OpenBao and the credentials\<close>

definition openbaoClient :: "platform \<Rightarrow> env \<Rightarrow> start_error + bao_config option" where
  "openbaoClient pf getenv =
     (if getenv ''OPENBAO_ADDR'' = [] then Inr None
      else refuse_if (empty_settings getenv openbaoEnv \<noteq> []) (EmptySettings ''OPENBAO_ADDR'' (empty_settings getenv openbaoEnv))
        (and_then (as_error (ClientRefused ''openbao'') (bao_New pf (getenv ''OPENBAO_CACERT'')
           \<lparr>bo_Addr = getenv ''OPENBAO_ADDR'', bo_RoleID = getenv ''OPENBAO_ROLE_ID'', bo_SecretID = getenv ''OPENBAO_SECRET_ID'',
            bo_KVMount = orDefault (getenv ''OPENBAO_KV_MOUNT'') ''deevnet-api'',
            bo_TransitKey = orDefault (getenv ''OPENBAO_TRANSIT_KEY'') ''tenant-secrets'',
            bo_TransitKeyPrevious = getenv ''OPENBAO_TRANSIT_KEY_PREVIOUS'',
            bo_ServiceMount = getenv ''OPENBAO_TENANT_SERVICE_MOUNT'',
            bo_ServiceRole = orDefault (getenv ''OPENBAO_TENANT_SERVICE_ROLE'') ''tenant-service''\<rparr>))
         (\<lambda>c. Inr (Some c))))"

type_synonym creds = "string \<Rightarrow> string"
type_synonym kv = "bao_config \<Rightarrow> string \<Rightarrow> bao_error + (string \<times> string) list"

text \<open>\<open>kv\<close> is what \<^verbatim>\<open>ReadKV\<close> answers this time. A credential that is not there is the empty string.\<close>

definition read_credentials :: "platform \<Rightarrow> env \<Rightarrow> kv \<Rightarrow> start_error + bao_config option \<times> creds" where
  "read_credentials pf getenv kv =
     (if getenv ''OPENBAO_ADDR'' \<noteq> [] then
        and_then (openbaoClient pf getenv) (\<lambda>c. case c of None \<Rightarrow> Inr (None, \<lambda>_. [])
          | Some bao \<Rightarrow> and_then (as_error FromOpenBao (kv bao (orDefault (getenv ''OPENBAO_KV_PATH'') ''backends'')))
              (\<lambda>kvs. Inr (Some bao, \<lambda>k. case map_of kvs k of None \<Rightarrow> [] | Some v \<Rightarrow> v)))
      else Inr (None, \<lambda>k. if k \<in> set (credentials @ omadaCredentials @ brokerCredentials @ logCredentials @ grafanaCredentials)
        then getenv (map to_upper k) else []))"

section \<open>The site\<close>

text \<open>A gate that is set needs its settings and its credentials.\<close>

fun need_credentials :: "string \<Rightarrow> creds \<Rightarrow> string list \<Rightarrow> start_error + 'a \<Rightarrow> start_error + 'a" where
  "need_credentials gate creds [] m = m"
| "need_credentials gate creds (k # ks) m = refuse_if (creds k = []) (MissingCredential gate k) (need_credentials gate creds ks m)"

definition gated ::
  "env \<Rightarrow> creds \<Rightarrow> string \<Rightarrow> string list \<Rightarrow> string list \<Rightarrow> start_error + 'a \<Rightarrow> start_error + 'a" where
  "gated getenv creds gate settings cs m =
     (if getenv gate = [] then m
      else refuse_if (empty_settings getenv settings \<noteq> []) (EmptySettings gate (empty_settings getenv settings))
        (need_credentials gate creds cs m))"

definition number :: "env \<Rightarrow> string \<Rightarrow> start_error + int" where
  "number getenv k = or_fail (NotANumber k) (Atoi (getenv k))"

definition site_of :: "env \<Rightarrow> int \<Rightarrow> int \<Rightarrow> int \<Rightarrow> int \<Rightarrow> Site" where
  "site_of getenv oct vrf vnet vmid =
     \<lparr>site_Name = getenv ''DEEVNET_SITE'', site_Octet = oct, site_RootDomain = getenv ''DEEVNET_ROOT_DOMAIN'',
      site_CertificateSites = list_setting (getenv ''DEEVNET_CERTIFICATE_SITES''), site_VRFVNIBase = vrf, site_VNetVNIBase = vnet,
      site_ControllerID = getenv ''DEEVNET_FABRIC_CONTROLLER'', site_Node = getenv ''DEEVNET_FABRIC_NODE'',
      site_DNSUpdateServer = getenv ''DEEVNET_DNS_UPDATE_SERVER'', site_DNSApexNS = getenv ''DEEVNET_DNS_APEX_NS'',
      site_DNSUpdateFrom = list_setting (getenv ''DEEVNET_DNS_UPDATE_FROM''), site_StateEndpoint = getenv ''DEEVNET_STATE_ENDPOINT'',
      site_StateBucket = getenv ''DEEVNET_STATE_BUCKET'', site_LogEndpoint = getenv ''DEEVNET_LOG_ENDPOINT'',
      site_DashboardURL = getenv ''DEEVNET_GRAFANA_URL'', site_TrustClasses = [], site_AddressRanges = [], site_AddressesPerTenant = 0,
      site_AdmissionClass = [], site_ResolverForwardTo = getenv ''DEEVNET_RESOLVER_FORWARD_TO'',
      site_WorkloadResolver = getenv ''DEEVNET_WORKLOAD_RESOLVER'', site_TenantVMIDBase = vmid,
      site_MACNamespace = getenv ''DEEVNET_MAC_NAMESPACE'', site_TemplatePrefix = getenv ''DEEVNET_TEMPLATE_PREFIX'',
      site_Storage = getenv ''DEEVNET_TENANT_STORAGE'', site_Disk = getenv ''DEEVNET_TENANT_DISK'',
      site_CIUser = getenv ''DEEVNET_TENANT_CIUSER''\<rparr>"

definition with_classes :: "env \<Rightarrow> creds \<Rightarrow> Site \<Rightarrow> start_error + Site" where
  "with_classes getenv creds site =
     (if getenv ''OMADA_API_URL'' = [] then Inr site
      else refuse_if (empty_settings getenv omadaEnv \<noteq> []) (EmptySettings ''OMADA_API_URL'' (empty_settings getenv omadaEnv))
        (and_then (as_error BadClasses (parseTrustClasses (getenv ''DEEVNET_IOT_TRUST_CLASSES''))) (\<lambda>tcs.
           need_credentials ''OMADA_API_URL'' creds omadaCredentials
             (Inr (site\<lparr>site_TrustClasses := tcs, site_AdmissionClass := getenv ''DEEVNET_ADMISSION_WIFI_CLASS''\<rparr>)))))"

definition with_ranges :: "env \<Rightarrow> Site \<Rightarrow> start_error + Site" where
  "with_ranges getenv site =
     (let raw = getenv ''DEEVNET_IOT_ADDRESS_RANGES''; v = getenv ''DEEVNET_IOT_ADDRESSES_PER_TENANT'' in
      if raw = [] then Inr site
      else and_then (as_error BadRanges (parseAddressRanges raw)) (\<lambda>rs.
        if v = [] then Inr (site\<lparr>site_AddressRanges := rs\<rparr>)
        else case Atoi v of None \<Rightarrow> Inl (BadShare v)
          | Some n \<Rightarrow> if n < 1 then Inl (BadShare v) else Inr (site\<lparr>site_AddressRanges := rs, site_AddressesPerTenant := n\<rparr>)))"

definition site_from_env :: "env \<Rightarrow> creds \<Rightarrow> start_error + Site" where
  "site_from_env getenv creds =
     and_then (number getenv ''DEEVNET_SITE_OCTET'') (\<lambda>oct.
     and_then (number getenv ''DEEVNET_VRF_VNI_BASE'') (\<lambda>vrf.
     and_then (number getenv ''DEEVNET_VNET_VNI_BASE'') (\<lambda>vnet.
     and_then (number getenv ''DEEVNET_TENANT_VMID_BASE'') (\<lambda>vmid.
     and_then (with_classes getenv creds (site_of getenv oct vrf vnet vmid)) (\<lambda>s1.
     and_then (with_ranges getenv s1) (\<lambda>site.
     gated getenv creds ''DEEVNET_BROKER_WRITER_ADDR'' brokerEnv brokerCredentials
       (gated getenv creds ''DEEVNET_LOG_WRITER_ADDR'' logEnv logCredentials
         (gated getenv creds ''DEEVNET_GRAFANA_URL'' grafanaEnv grafanaCredentials
           (case Validate_site site of Some e \<Rightarrow> Inl (BadSite e) | None \<Rightarrow> Inr site)))))))))"

section \<open>The wiring\<close>

record api_client =
  ac_URL :: string
  ac_Key :: string
  ac_Secret :: string
  ac_InsecureTLS :: bool

record wiring =
  wr_Site :: Site
  wr_Tokens :: Tokens
  wr_EnrollmentTTL :: int
  wr_DNS :: "string \<times> string"
  wr_Router :: api_client
  wr_Proxmox :: api_client
  wr_State :: state_client
  wr_OpenBao :: "bao_config option"
  wr_Signer :: "bao_config option"
  wr_Reservations :: "api_client option"
  wr_Wireless :: "api_client option"
  wr_BrokerWriter :: "(ssh_config \<times> string \<times> string) option"
  wr_LogWriter :: "(ssh_config \<times> string \<times> string) option"
  wr_Dashboards :: "dash_client option"

definition seconds :: "int \<Rightarrow> int" where "seconds n = n * 1000000000"

definition enrollment_ttl :: "env \<Rightarrow> start_error + int" where
  "enrollment_ttl getenv =
     (let v = getenv ''DEEVNET_ENROLLMENT_TTL'' in
      if v = [] then Inr (seconds (72 * 3600)) else or_fail BadTTL (ParseDuration v))"

definition ssh_writer ::
  "platform \<Rightarrow> env \<Rightarrow> string \<Rightarrow> string \<times> string \<times> string \<Rightarrow> string \<times> string \<Rightarrow> string \<Rightarrow>
   start_error + (ssh_config \<times> string \<times> string) option" where
  "ssh_writer pf getenv who = (\<lambda>(addr, user, hostKey) (connectKey, sessionKey) key.
     if getenv addr = [] then Inr None
     else
       and_then (as_error BadSetting (durationEnv getenv connectKey (seconds 10))) (\<lambda>connect.
       and_then (as_error BadSetting (durationEnv getenv sessionKey (seconds 30))) (\<lambda>session.
       and_then (as_error (ClientRefused who) (ssh_New who (pf_ParsePrivateKey pf) (pf_ParseAuthorizedKey pf)
         \<lparr>sh_Addr = getenv addr, sh_User = getenv user, sh_PrivateKey = key, sh_HostKey = getenv hostKey,
          sh_ConnectTimeout = connect, sh_SessionTimeout = session\<rparr>)) (\<lambda>c. Inr (Some c)))))"

definition wire :: "platform \<Rightarrow> env \<Rightarrow> bao_config option \<Rightarrow> creds \<Rightarrow> Site \<Rightarrow> start_error + wiring" where
  "wire pf getenv bao creds site =
     and_then (or_fail NotBase64 (StdEncoding_DecodeString (creds ''token_hmac_key''))) (\<lambda>key.
     and_then (as_error BadTokenKey (NewTokens key)) (\<lambda>tokens.
     and_then (enrollment_ttl getenv) (\<lambda>ttl.
     and_then (as_error (ClientRefused ''MINIO_ADMIN_ENDPOINT'')
       (state_New pf (getenv ''MINIO_ADMIN_ENDPOINT'') (creds ''minio_admin_access_key'') (creds ''minio_admin_secret_key'')
         (boolEnv getenv ''MINIO_ADMIN_TLS'' False) (getenv ''MINIO_ADMIN_CACERT''))) (\<lambda>state.
     let mount = getenv ''OPENBAO_TENANT_SERVICE_MOUNT'';
         router = \<lparr>ac_URL = getenv ''OPNSENSE_API_URL'', ac_Key = creds ''opnsense_api_key'', ac_Secret = creds ''opnsense_api_secret'',
           ac_InsecureTLS = boolEnv getenv ''OPNSENSE_INSECURE_TLS'' False\<rparr> in
     refuse_if (mount \<noteq> [] \<and> bao = None) SignerWithoutOpenBao
     (and_then (ssh_writer pf getenv ''broker writer''
       (''DEEVNET_BROKER_WRITER_ADDR'', ''DEEVNET_BROKER_WRITER_USER'', ''DEEVNET_BROKER_HOST_KEY'')
       (''DEEVNET_BROKER_CONNECT_TIMEOUT'', ''DEEVNET_BROKER_SESSION_TIMEOUT'') (creds ''broker_writer_key'')) (\<lambda>broker.
     and_then (ssh_writer pf getenv ''log writer''
       (''DEEVNET_LOG_WRITER_ADDR'', ''DEEVNET_LOG_WRITER_USER'', ''DEEVNET_LOG_HOST_KEY'')
       (''DEEVNET_LOG_CONNECT_TIMEOUT'', ''DEEVNET_LOG_SESSION_TIMEOUT'') (creds ''log_writer_key'')) (\<lambda>logw.
     and_then (if getenv ''DEEVNET_GRAFANA_URL'' = [] then Inr None
       else and_then (as_error (ClientRefused ''dashboard server'') (dash_New pf (getenv ''DEEVNET_GRAFANA_URL'')
         (orDefault (getenv ''DEEVNET_GRAFANA_ADMIN_USER'') ''admin'') (creds ''grafana_admin_password'')
         (getenv ''DEEVNET_GRAFANA_CACERT'') (getenv ''DEEVNET_LOG_ENDPOINT''))) (\<lambda>d. Inr (Some d))) (\<lambda>dash.
     Inr \<lparr>wr_Site = site, wr_Tokens = tokens, wr_EnrollmentTTL = ttl, wr_DNS = (getenv ''POWERDNS_API_URL'', creds ''powerdns_api_key''),
       wr_Router = router,
       wr_Proxmox = \<lparr>ac_URL = getenv ''PROXMOX_API_URL'', ac_Key = creds ''proxmox_token_id'', ac_Secret = creds ''proxmox_token_secret'',
         ac_InsecureTLS = boolEnv getenv ''PROXMOX_INSECURE_TLS'' False\<rparr>,
       wr_State = state, wr_OpenBao = bao,
       wr_Signer = (if mount \<noteq> [] then bao else None),
       wr_Reservations = (if length (site_AddressRanges site) > 0 then Some router else None),
       wr_Wireless = (if getenv ''OMADA_API_URL'' \<noteq> [] then Some \<lparr>ac_URL = getenv ''OMADA_API_URL'', ac_Key = creds ''omada_client_id'',
         ac_Secret = creds ''omada_client_secret'', ac_InsecureTLS = boolEnv getenv ''OMADA_INSECURE_TLS'' False\<rparr> else None),
       wr_BrokerWriter = broker, wr_LogWriter = logw, wr_Dashboards = dash\<rparr>))))))))"

text \<open>Nothing is served without a site.\<close>

definition tenantService :: "platform \<Rightarrow> env \<Rightarrow> kv \<Rightarrow> start_error + wiring option" where
  "tenantService pf getenv kv =
     (if getenv ''DEEVNET_SITE'' = [] then Inr None
      else refuse_if (empty_settings getenv siteEnv \<noteq> []) (EmptySettings ''DEEVNET_SITE'' (empty_settings getenv siteEnv))
       (and_then (read_credentials pf getenv kv) (\<lambda>(bao, creds).
          let missing = filter (\<lambda>k. creds k = []) credentials in
          refuse_if (missing \<noteq> []) (MissingCredentials (bao \<noteq> None) missing)
            (and_then (site_from_env getenv creds) (\<lambda>site.
             and_then (wire pf getenv bao creds site) (\<lambda>w. Inr (Some w)))))))"

section \<open>The program\<close>

text \<open>
  The service the requests run on: the backends answer as \<open>pl\<close> says, and one that was not wired is not there. The router
  and the fabric's clients always are.
\<close>

definition wired :: "'c option \<Rightarrow> 'a option \<Rightarrow> 'a option" where
  "wired c a = (case c of None \<Rightarrow> None | Some _ \<Rightarrow> a)"

definition service_of :: "service \<Rightarrow> wiring \<Rightarrow> service" where
  "service_of pl w = pl\<lparr>sv_Site := wr_Site w, sv_sealer := wired (wr_OpenBao w) (sv_sealer pl), sv_Enroller := wired (wr_OpenBao w) (sv_Enroller pl),
     sv_Signer := wired (wr_Signer w) (sv_Signer pl), sv_Reservations := wired (wr_Reservations w) (sv_Reservations pl),
     sv_Wireless := wired (wr_Wireless w) (sv_Wireless pl), sv_BrokerWriter := wired (wr_BrokerWriter w) (sv_BrokerWriter pl),
     sv_LogWriter := wired (wr_LogWriter w) (sv_LogWriter pl), sv_Dashboards := wired (wr_Dashboards w) (sv_Dashboards pl),
     sv_Tokens := Some (wr_Tokens w), sv_EnrollmentTTL := wr_EnrollmentTTL w\<rparr>"

datatype exit_reason = NoAPIToken | NoDatabaseURL | BadDatabaseURL | HalfTLS | StartFailed start_error

datatype phase = Exited exit_reason | Waiting | Serving "service option"

text \<open>\<^verbatim>\<open>errors.Is(err, tenant.ErrSecretsUnavailable)\<close>.\<close>

definition secrets_unavailable :: "start_error \<Rightarrow> bool" where
  "secrets_unavailable e = (case e of FromOpenBao b \<Rightarrow> unavailable b | _ \<Rightarrow> False)"

definition build :: "platform \<Rightarrow> env \<Rightarrow> service \<Rightarrow> kv \<Rightarrow> start_error + service option" where
  "build pf getenv pl kv = and_then (tenantService pf getenv kv) (\<lambda>w. Inr (map_option (service_of pl) w))"

text \<open>\<^verbatim>\<open>run\<close> up to the first build; \<open>dsn_ok\<close> is what \<^verbatim>\<open>pgxpool.New\<close> makes of the connection string.\<close>

definition api_start :: "platform \<Rightarrow> env \<Rightarrow> service \<Rightarrow> (string \<Rightarrow> bool) \<Rightarrow> kv \<Rightarrow> phase" where
  "api_start pf getenv pl dsn_ok kv =
     (if getenv ''DEEVNET_API_TOKEN'' = [] then Exited NoAPIToken
      else if getenv ''DATABASE_URL'' = [] then Exited NoDatabaseURL
      else if \<not> dsn_ok (getenv ''DATABASE_URL'') then Exited BadDatabaseURL
      else if (getenv ''DEEVNET_API_TLS_CERT'' = []) \<noteq> (getenv ''DEEVNET_API_TLS_KEY'' = []) then Exited HalfTLS
      else case openbaoClient pf getenv of Inl e \<Rightarrow> Exited (StartFailed e)
        | Inr _ \<Rightarrow>
            (case build pf getenv pl kv of
               Inr t \<Rightarrow> Serving t
             | Inl e \<Rightarrow> if secrets_unavailable e then Waiting else Exited (StartFailed e)))"

text \<open>One round of the goroutine that waits: it ends when a build succeeds, and logs any other error.\<close>

definition retry_build :: "platform \<Rightarrow> env \<Rightarrow> service \<Rightarrow> kv \<Rightarrow> phase \<Rightarrow> phase" where
  "retry_build pf getenv pl kv p =
     (case p of Waiting \<Rightarrow> (case build pf getenv pl kv of Inr t \<Rightarrow> Serving t | Inl _ \<Rightarrow> Waiting) | _ \<Rightarrow> p)"

definition api_phase :: "platform \<Rightarrow> env \<Rightarrow> service \<Rightarrow> (string \<Rightarrow> bool) \<Rightarrow> kv \<Rightarrow> kv list \<Rightarrow> phase" where
  "api_phase pf getenv pl dsn_ok kv kvs = fold (retry_build pf getenv pl) kvs (api_start pf getenv pl dsn_ok kv)"

text \<open>What the probes answer when a request arrives, and the configuration it is served with; an exited program serves nothing.\<close>

record probes =
  pb_Ping :: bool
  pb_Migrated :: bool
  pb_Health :: string

definition config_at :: "env \<Rightarrow> probes \<Rightarrow> phase \<Rightarrow> Config option" where
  "config_at getenv pb p =
     (let cfg = \<lparr>cfg_Token = getenv ''DEEVNET_API_TOKEN'', cfg_AgentToken = getenv ''DEEVNET_AGENT_TOKEN'', cfg_Tenants = None,
        cfg_Ping = pb_Ping pb, cfg_Migrated = pb_Migrated pb,
        cfg_Secrets = (if getenv ''OPENBAO_ADDR'' = [] then None else Some (pb_Health pb)), cfg_SecretsLoaded = True\<rparr> in
      case p of Exited _ \<Rightarrow> None
      | Waiting \<Rightarrow> Some (cfg\<lparr>cfg_SecretsLoaded := False\<rparr>)
      | Serving t \<Rightarrow> Some (cfg\<lparr>cfg_Tenants := t\<rparr>))"

section \<open>What starts is well formed\<close>

lemma need_credentials_Inr: "need_credentials gate creds ks m = Inr x \<longleftrightarrow> (\<forall>k \<in> set ks. creds k \<noteq> []) \<and> m = Inr x"
  by (induction ks) (auto simp: refuse_if_Inr)

lemma gated_Inr:
  "gated getenv creds gate settings cs m = Inr x \<longleftrightarrow>
     m = Inr x \<and> (getenv gate \<noteq> [] \<longrightarrow> empty_settings getenv settings = [] \<and> (\<forall>k \<in> set cs. creds k \<noteq> []))"
  by (auto simp: gated_def refuse_if_Inr need_credentials_Inr)

lemmas start_Inr = result_Inr need_credentials_Inr gated_Inr

lemma validated_Inr: "(case Validate_site s of Some e \<Rightarrow> Inl (BadSite e) | None \<Rightarrow> Inr s) = Inr x \<longleftrightarrow> Validate_site s = None \<and> s = x"
  by (auto split: option.splits)

lemma site_from_env_steps:
  assumes "site_from_env getenv creds = Inr site"
  shows "\<exists>oct vrf vnet vmid s1. number getenv ''DEEVNET_SITE_OCTET'' = Inr oct \<and> number getenv ''DEEVNET_VRF_VNI_BASE'' = Inr vrf \<and>
    number getenv ''DEEVNET_VNET_VNI_BASE'' = Inr vnet \<and> number getenv ''DEEVNET_TENANT_VMID_BASE'' = Inr vmid \<and>
    with_classes getenv creds (site_of getenv oct vrf vnet vmid) = Inr s1 \<and> with_ranges getenv s1 = Inr site \<and>
    Validate_site site = None \<and> (getenv ''DEEVNET_GRAFANA_URL'' \<noteq> [] \<longrightarrow> empty_settings getenv grafanaEnv = [])"
  using assms unfolding site_from_env_def start_Inr validated_Inr by blast

lemma with_ranges_Inr: "with_ranges getenv s = Inr t \<Longrightarrow> t = s \<or> (\<exists>rs n. t = s\<lparr>site_AddressRanges := rs, site_AddressesPerTenant := n\<rparr>)"
proof -
  assume ran: "with_ranges getenv s = Inr t"
  show ?thesis
  proof (cases "getenv ''DEEVNET_IOT_ADDRESS_RANGES'' = []")
    case False
    then obtain rs where "(if getenv ''DEEVNET_IOT_ADDRESSES_PER_TENANT'' = [] then Inr (s\<lparr>site_AddressRanges := rs\<rparr>)
        else case Atoi (getenv ''DEEVNET_IOT_ADDRESSES_PER_TENANT'') of None \<Rightarrow> Inl (BadShare (getenv ''DEEVNET_IOT_ADDRESSES_PER_TENANT''))
          | Some n \<Rightarrow> if n < 1 then Inl (BadShare (getenv ''DEEVNET_IOT_ADDRESSES_PER_TENANT''))
              else Inr (s\<lparr>site_AddressRanges := rs, site_AddressesPerTenant := n\<rparr>)) = Inr t"
      using ran by (simp only: with_ranges_def Let_def if_False result_Inr) blast
    then have "t = s\<lparr>site_AddressRanges := rs, site_AddressesPerTenant := site_AddressesPerTenant s\<rparr> \<or>
        (\<exists>n. t = s\<lparr>site_AddressRanges := rs, site_AddressesPerTenant := n\<rparr>)"
      by (cases "Atoi (getenv ''DEEVNET_IOT_ADDRESSES_PER_TENANT'')") (simp_all split: if_split_asm, blast)
    then show ?thesis by blast
  qed (use ran in \<open>simp add: with_ranges_def\<close>)
qed

lemma with_ranges_keeps: "with_ranges getenv s = Inr t \<Longrightarrow> site_TrustClasses t = site_TrustClasses s"
  by (drule with_ranges_Inr) (elim disjE exE; simp)

lemma with_classes_Inr:
  "with_classes getenv creds s = Inr t \<longleftrightarrow>
     (if getenv ''OMADA_API_URL'' = [] then s = t
      else empty_settings getenv omadaEnv = [] \<and>
        (\<exists>tcs. parseTrustClasses (getenv ''DEEVNET_IOT_TRUST_CLASSES'') = Inr tcs \<and> (\<forall>k \<in> set omadaCredentials. creds k \<noteq> []) \<and>
          s\<lparr>site_TrustClasses := tcs, site_AdmissionClass := getenv ''DEEVNET_ADMISSION_WIFI_CLASS''\<rparr> = t))"
proof (cases "getenv ''OMADA_API_URL'' = []")
  case False
  then show ?thesis by (simp only: with_classes_def start_Inr if_False not_not sum.inject)
qed (simp add: with_classes_def)

lemma site_from_env_classes:
  assumes "site_from_env getenv creds = Inr site"
  shows "getenv ''OMADA_API_URL'' = [] \<Longrightarrow> site_TrustClasses site = []"
proof -
  obtain oct vrf vnet vmid s1 where "with_classes getenv creds (site_of getenv oct vrf vnet vmid) = Inr s1" "with_ranges getenv s1 = Inr site"
    using site_from_env_steps[OF assms] by blast
  then show "getenv ''OMADA_API_URL'' = [] \<Longrightarrow> site_TrustClasses site = []"
    using with_ranges_keeps[of getenv s1 site] by (auto simp: with_classes_Inr site_of_def)
qed

text \<open>The site is the environment's: the credentials decide whether it is served, not what it is.\<close>

lemma with_classes_unique: "with_classes getenv c s = Inr x \<Longrightarrow> with_classes getenv d s = Inr y \<Longrightarrow> x = y"
  unfolding with_classes_Inr by (metis sum.inject(2))

lemma site_from_env_unique:
  assumes "site_from_env getenv c = Inr s" "site_from_env getenv d = Inr t"
  shows "s = t"
proof -
  obtain oct vrf vnet vmid s1 where s: "number getenv ''DEEVNET_SITE_OCTET'' = Inr oct" "number getenv ''DEEVNET_VRF_VNI_BASE'' = Inr vrf"
      "number getenv ''DEEVNET_VNET_VNI_BASE'' = Inr vnet" "number getenv ''DEEVNET_TENANT_VMID_BASE'' = Inr vmid"
      "with_classes getenv c (site_of getenv oct vrf vnet vmid) = Inr s1" "with_ranges getenv s1 = Inr s"
    using site_from_env_steps[OF assms(1)] by blast
  obtain t1 where "with_classes getenv d (site_of getenv oct vrf vnet vmid) = Inr t1" "with_ranges getenv t1 = Inr t"
    using site_from_env_steps[OF assms(2)] s(1-4) by (metis sum.inject(2))
  with s(5,6) show ?thesis using with_classes_unique by (metis sum.inject(2))
qed

text \<open>A writer's client: the timeouts are positive and the far host's key is pinned.\<close>

definition pinned :: "(ssh_config \<times> string \<times> string) option \<Rightarrow> bool" where
  "pinned c = (case c of None \<Rightarrow> True | Some (cfg, k, h) \<Rightarrow>
     sh_HostKey cfg \<noteq> [] \<and> sh_PrivateKey cfg \<noteq> [] \<and> 0 < sh_ConnectTimeout cfg \<and> 0 < sh_SessionTimeout cfg)"

lemma ssh_writer_Inr:
  "ssh_writer pf getenv who (addr, user, hk) ts key = Inr c \<Longrightarrow> pinned c \<and> (c = None \<longleftrightarrow> getenv addr = [])"
  by (cases ts) (auto simp: ssh_writer_def ssh_New_def pinned_def start_Inr split: if_splits option.splits)

definition well_wired :: "env \<Rightarrow> wiring \<Rightarrow> bool" where
  "well_wired getenv w \<longleftrightarrow>
     Validate_site (wr_Site w) = None \<and> 32 \<le> length (tk_key (wr_Tokens w)) \<and>
     (wr_OpenBao w = None \<longleftrightarrow> getenv ''OPENBAO_ADDR'' = []) \<and>
     (wr_Signer w = None \<longleftrightarrow> getenv ''OPENBAO_TENANT_SERVICE_MOUNT'' = []) \<and> (wr_Signer w \<noteq> None \<longrightarrow> wr_Signer w = wr_OpenBao w) \<and>
     (wr_Wireless w = None \<longleftrightarrow> getenv ''OMADA_API_URL'' = []) \<and> (wr_Wireless w = None \<longrightarrow> site_TrustClasses (wr_Site w) = []) \<and>
     (wr_Reservations w = None \<longleftrightarrow> site_AddressRanges (wr_Site w) = []) \<and> (wr_Reservations w \<noteq> None \<longrightarrow> wr_Wireless w \<noteq> None) \<and>
     (wr_BrokerWriter w = None \<longleftrightarrow> getenv ''DEEVNET_BROKER_WRITER_ADDR'' = []) \<and> pinned (wr_BrokerWriter w) \<and>
     (wr_LogWriter w = None \<longleftrightarrow> getenv ''DEEVNET_LOG_WRITER_ADDR'' = []) \<and> pinned (wr_LogWriter w) \<and>
     (wr_Dashboards w = None \<longleftrightarrow> getenv ''DEEVNET_GRAFANA_URL'' = []) \<and> (wr_Dashboards w \<noteq> None \<longrightarrow> wr_LogWriter w \<noteq> None) \<and>
     (sc_Secure (wr_State w) \<longrightarrow> sc_RootCAs (wr_State w) \<noteq> None)"

lemma state_New_Inr: "state_New pf e a k tls ca = Inr c \<Longrightarrow> sc_Secure c \<longrightarrow> sc_RootCAs c \<noteq> None"
  unfolding state_New_def result_Inr by (cases "pf_ReadFile pf ca") (auto split: if_splits)

lemma NewTokens_Inr: "NewTokens key = Inr t \<Longrightarrow> 32 \<le> length (tk_key t)"
  by (auto simp: NewTokens_def split: if_splits)

lemma wire_Inr:
  assumes "wire pf getenv bao creds site = Inr w"
  shows "wr_Site w = site \<and> wr_OpenBao w = bao \<and> 32 \<le> length (tk_key (wr_Tokens w)) \<and>
    (sc_Secure (wr_State w) \<longrightarrow> sc_RootCAs (wr_State w) \<noteq> None) \<and>
    (getenv ''OPENBAO_TENANT_SERVICE_MOUNT'' \<noteq> [] \<longrightarrow> bao \<noteq> None) \<and>
    wr_Signer w = (if getenv ''OPENBAO_TENANT_SERVICE_MOUNT'' \<noteq> [] then bao else None) \<and>
    (wr_Reservations w = None \<longleftrightarrow> site_AddressRanges site = []) \<and> (wr_Wireless w = None \<longleftrightarrow> getenv ''OMADA_API_URL'' = []) \<and>
    pinned (wr_BrokerWriter w) \<and> (wr_BrokerWriter w = None \<longleftrightarrow> getenv ''DEEVNET_BROKER_WRITER_ADDR'' = []) \<and>
    pinned (wr_LogWriter w) \<and> (wr_LogWriter w = None \<longleftrightarrow> getenv ''DEEVNET_LOG_WRITER_ADDR'' = []) \<and>
    (wr_Dashboards w = None \<longleftrightarrow> getenv ''DEEVNET_GRAFANA_URL'' = [])"
proof -
  obtain key tokens ttl st broker logw dash where tokens: "NewTokens key = Inr tokens"
      and st: "state_New pf (getenv ''MINIO_ADMIN_ENDPOINT'') (creds ''minio_admin_access_key'') (creds ''minio_admin_secret_key'')
         (boolEnv getenv ''MINIO_ADMIN_TLS'' False) (getenv ''MINIO_ADMIN_CACERT'') = Inr st"
      and signer: "\<not> (getenv ''OPENBAO_TENANT_SERVICE_MOUNT'' \<noteq> [] \<and> bao = None)"
      and broker: "ssh_writer pf getenv ''broker writer''
       (''DEEVNET_BROKER_WRITER_ADDR'', ''DEEVNET_BROKER_WRITER_USER'', ''DEEVNET_BROKER_HOST_KEY'')
       (''DEEVNET_BROKER_CONNECT_TIMEOUT'', ''DEEVNET_BROKER_SESSION_TIMEOUT'') (creds ''broker_writer_key'') = Inr broker"
      and logw: "ssh_writer pf getenv ''log writer''
       (''DEEVNET_LOG_WRITER_ADDR'', ''DEEVNET_LOG_WRITER_USER'', ''DEEVNET_LOG_HOST_KEY'')
       (''DEEVNET_LOG_CONNECT_TIMEOUT'', ''DEEVNET_LOG_SESSION_TIMEOUT'') (creds ''log_writer_key'') = Inr logw"
      and dash: "(if getenv ''DEEVNET_GRAFANA_URL'' = [] then Inr None
       else and_then (as_error (ClientRefused ''dashboard server'') (dash_New pf (getenv ''DEEVNET_GRAFANA_URL'')
         (orDefault (getenv ''DEEVNET_GRAFANA_ADMIN_USER'') ''admin'') (creds ''grafana_admin_password'')
         (getenv ''DEEVNET_GRAFANA_CACERT'') (getenv ''DEEVNET_LOG_ENDPOINT''))) (\<lambda>d. Inr (Some d))) = Inr dash"
      and w: "wr_Site w = site" "wr_Tokens w = tokens" "wr_State w = st" "wr_OpenBao w = bao" "wr_BrokerWriter w = broker" "wr_LogWriter w = logw"
        "wr_Dashboards w = dash" "wr_Signer w = (if getenv ''OPENBAO_TENANT_SERVICE_MOUNT'' \<noteq> [] then bao else None)"
        "wr_Reservations w = (if length (site_AddressRanges site) > 0 then Some (wr_Router w) else None)"
        "wr_Wireless w = None \<longleftrightarrow> getenv ''OMADA_API_URL'' = []"
    using assms unfolding wire_def Let_def start_Inr sum.inject by (elim exE conjE) (drule sym, simp)
  have "dash = None \<longleftrightarrow> getenv ''DEEVNET_GRAFANA_URL'' = []"
    using dash by (cases "getenv ''DEEVNET_GRAFANA_URL'' = []") (simp_all add: result_Inr, blast)
  then show ?thesis
    using NewTokens_Inr[OF tokens] state_New_Inr[OF st] signer ssh_writer_Inr[OF broker] ssh_writer_Inr[OF logw]
    by (cases bao) (simp_all add: w)
qed

lemma tenantService_Inr:
  assumes "tenantService pf getenv kv = Inr (Some w)"
  shows "\<exists>bao creds. read_credentials pf getenv kv = Inr (bao, creds) \<and> (\<forall>k \<in> set credentials. creds k \<noteq> []) \<and>
    site_from_env getenv creds = Inr (wr_Site w) \<and> wire pf getenv bao creds (wr_Site w) = Inr w"
proof -
  have "getenv ''DEEVNET_SITE'' \<noteq> []" using assms by (cases "getenv ''DEEVNET_SITE'' = []") (simp_all add: tenantService_def)
  then obtain x site where x: "read_credentials pf getenv kv = Inr x" "\<forall>k \<in> set credentials. snd x k \<noteq> []"
      "site_from_env getenv (snd x) = Inr site" "wire pf getenv (fst x) (snd x) site = Inr w"
    using assms unfolding tenantService_def if_not_P[OF \<open>getenv ''DEEVNET_SITE'' \<noteq> []\<close>] Let_def start_Inr case_prod_beta sum.inject option.inject filter_empty_conv by blast
  moreover have "wr_Site w = site" using wire_Inr[OF x(4)] by blast
  ultimately show ?thesis by (cases x) auto
qed

lemma read_credentials_OpenBao:
  "read_credentials pf getenv kv = Inr (bao, creds) \<Longrightarrow> bao = None \<longleftrightarrow> getenv ''OPENBAO_ADDR'' = []"
proof (cases "getenv ''OPENBAO_ADDR'' = []")
  case False
  assume "read_credentials pf getenv kv = Inr (bao, creds)"
  then show ?thesis
    using False unfolding read_credentials_def openbaoClient_def if_P[OF False] if_not_P[OF False] result_Inr
    by (auto simp only: option.case result_Inr sum.inject prod.inject)
qed (simp add: read_credentials_def)

lemma ranges_need_classes: "Validate_site s = None \<Longrightarrow> site_AddressRanges s \<noteq> [] \<Longrightarrow> site_TrustClasses s \<noteq> []"
  by (cases "site_AddressRanges s")
    (auto simp: Validate_site_def first_error_None check_range_def class_name_def split: if_splits option.splits)

section \<open>The phases of the program\<close>

text \<open>What a serving program serves is what some build wired.\<close>

definition phase_ok :: "platform \<Rightarrow> env \<Rightarrow> service \<Rightarrow> phase \<Rightarrow> bool" where
  "phase_ok pf getenv pl p \<longleftrightarrow>
     (\<forall>S. p = Serving (Some S) \<longrightarrow> (\<exists>kv w. tenantService pf getenv kv = Inr (Some w) \<and> S = service_of pl w))"

lemma build_ok: "build pf getenv pl kv = Inr t \<Longrightarrow> phase_ok pf getenv pl (Serving t)"
  by (auto simp: build_def result_Inr phase_ok_def map_option_case split: option.splits)

lemma api_start_ok: "phase_ok pf getenv pl (api_start pf getenv pl dsn_ok kv)"
proof (cases "build pf getenv pl kv")
  case (Inr t)
  then show ?thesis
    using build_ok[OF Inr] unfolding api_start_def Inr by (auto simp: phase_ok_def split: sum.split)
qed (auto simp: api_start_def phase_ok_def split: sum.split)

lemma retry_build_ok: "phase_ok pf getenv pl p \<Longrightarrow> phase_ok pf getenv pl (retry_build pf getenv pl kv p)"
  using build_ok[of pf getenv pl kv] by (cases p) (auto simp: retry_build_def phase_ok_def split: sum.split)

interpretation api: state_machine "\<lambda>p. \<exists>kv. p = api_start pf getenv pl dsn_ok kv"
  "\<lambda>p q. \<exists>kv. q = retry_build pf getenv pl kv p" "phase_ok pf getenv pl"
  for pf getenv pl and dsn_ok :: "string \<Rightarrow> bool"
  by unfold_locales (auto simp: api_start_ok retry_build_ok)

lemma api_phase_ok: "phase_ok pf getenv pl (api_phase pf getenv pl dsn_ok kv kvs)"
  unfolding api_phase_def by (rule api.inv_reachable[OF _ fold_steps]) blast

lemma wired_site_unique:
  assumes "tenantService pf getenv kv = Inr (Some w)" "tenantService pf getenv kv' = Inr (Some w')"
  shows "wr_Site w = wr_Site w'"
  using tenantService_Inr[OF assms(1)] tenantService_Inr[OF assms(2)] site_from_env_unique by blast

text \<open>A run of the program: each request with the answers of OpenBao the program has had by then, and the probes.\<close>

type_synonym arrival = "kv \<times> kv list \<times> probes \<times> http"

definition arrived :: "platform \<Rightarrow> env \<Rightarrow> service \<Rightarrow> (string \<Rightarrow> bool) \<Rightarrow> arrival \<Rightarrow> (Config \<times> http) list" where
  "arrived pf getenv pl dsn_ok = (\<lambda>(kv, kvs, pb, q).
     (case config_at getenv pb (api_phase pf getenv pl dsn_ok kv kvs) of None \<Rightarrow> [] | Some cfg \<Rightarrow> [(cfg, q)]))"

definition program_run :: "platform \<Rightarrow> env \<Rightarrow> service \<Rightarrow> (string \<Rightarrow> bool) \<Rightarrow> arrival list \<Rightarrow> world \<Rightarrow> world" where
  "program_run pf getenv pl dsn_ok qs w = session (concat (map (arrived pf getenv pl dsn_ok) qs)) w"

lemma phase_serves:
  assumes "tenantService pf getenv kv = Inr (Some w)" "others_ok (pl\<lparr>sv_Site := wr_Site w\<rparr>)"
    and "phase_ok pf getenv pl p" "config_at getenv pb p = Some cfg"
  shows "serves (wr_Site w) cfg"
proof (cases "cfg_Tenants cfg")
  case (Some S)
  then have "p = Serving (Some S)" using assms(4) by (cases p) (auto simp: config_at_def Let_def)
  then obtain kv' w' where w': "tenantService pf getenv kv' = Inr (Some w')" "S = service_of pl w'"
    using assms(3) by (auto simp: phase_ok_def)
  have "wr_Site w' = wr_Site w" by (rule wired_site_unique[OF w'(1) assms(1)])
  then show ?thesis using assms(2) by (simp add: serves_def Some w'(2) service_of_def others_ok_def)
qed (simp add: serves_def)

lemma arrivals_serve:
  assumes "tenantService pf getenv kv = Inr (Some w)" "others_ok (pl\<lparr>sv_Site := wr_Site w\<rparr>)"
  shows "list_all (serves (wr_Site w) \<circ> fst) (concat (map (arrived pf getenv pl dsn_ok) qs))"
  using phase_serves[OF assms api_phase_ok]
  by (auto simp: list_all_iff arrived_def split: option.splits prod.splits)

lemma retry_waits: "list_all (\<lambda>kv. \<exists>e. tenantService pf getenv kv = Inl e) kvs \<Longrightarrow> fold (retry_build pf getenv pl) kvs Waiting = Waiting"
  by (induction kvs) (auto simp: retry_build_def build_def and_then_def)

lemma retry_serving: "fold (retry_build pf getenv pl) kvs (Serving t) = Serving t"
  by (induction kvs) (auto simp: retry_build_def)

section \<open>A deployment for the witnesses\<close>

definition sample_settings :: "(string \<times> string) list" where
  "sample_settings =
     [(''DEEVNET_API_TOKEN'', ''operator-token''), (''DATABASE_URL'', ''postgres://db''), (''DEEVNET_SITE'', ''dvntm''),
      (''DEEVNET_SITE_OCTET'', ''20''), (''DEEVNET_ROOT_DOMAIN'', ''deevnet.net''), (''DEEVNET_VRF_VNI_BASE'', ''100''),
      (''DEEVNET_VNET_VNI_BASE'', ''200''), (''DEEVNET_FABRIC_CONTROLLER'', ''evpn''), (''DEEVNET_FABRIC_NODE'', ''pve''),
      (''DEEVNET_DNS_UPDATE_SERVER'', ''10.20.25.53''), (''DEEVNET_DNS_APEX_NS'', ''ns.deevnet.net.''),
      (''DEEVNET_DNS_UPDATE_FROM'', ''10.20.0.0/16''), (''DEEVNET_STATE_ENDPOINT'', ''https://state:9000''), (''DEEVNET_STATE_BUCKET'', ''tfstate''),
      (''DEEVNET_RESOLVER_FORWARD_TO'', ''10.20.25.53''), (''DEEVNET_WORKLOAD_RESOLVER'', ''10.20.25.1''), (''POWERDNS_API_URL'', ''http://dns:8081''),
      (''OPNSENSE_API_URL'', ''https://router''), (''MINIO_ADMIN_ENDPOINT'', ''state:9000''), (''PROXMOX_API_URL'', ''https://pve:8006''),
      (''DEEVNET_TENANT_VMID_BASE'', ''50''), (''DEEVNET_MAC_NAMESPACE'', ''02:dd''), (''DEEVNET_TEMPLATE_PREFIX'', ''fedora''),
      (''DEEVNET_TENANT_STORAGE'', ''local-zfs''), (''DEEVNET_TENANT_DISK'', ''scsi0''), (''DEEVNET_TENANT_CIUSER'', ''deevnet''),
      (''OPENBAO_ADDR'', ''https://bao:8200''), (''OPENBAO_CACERT'', ''ca.pem''), (''OPENBAO_ROLE_ID'', ''role''), (''OPENBAO_SECRET_ID'', ''secret''),
      (''OMADA_API_URL'', ''https://omada''), (''DEEVNET_IOT_TRUST_CLASSES'', ''iot=DVNTM-IOT:30, iot_vendor=DVNTM-IOTV:31'')]"

definition sample_env :: env where
  "sample_env k = (case map_of sample_settings k of None \<Rightarrow> [] | Some v \<Rightarrow> v)"

definition sample_platform :: platform where
  "sample_platform = \<lparr>pf_ReadFile = (\<lambda>_. Some ''pem''), pf_HoldsCertificate = (\<lambda>_. True), pf_NewWithOptions = (\<lambda>_ _. True),
     pf_ParsePrivateKey = Some, pf_ParseAuthorizedKey = Some\<rparr>"

text \<open>32 times the letter k, in base64.\<close>

definition sample_key :: string where
  "sample_key = ''a2tra2tra2tra2tra2tra2tra2tra2tra2tra2tra2s=''"

definition sample_secret :: "(string \<times> string) list" where
  "sample_secret = map (\<lambda>k. (k, if k = ''token_hmac_key'' then sample_key else ''x'')) (credentials @ omadaCredentials)"

definition bao_opened :: kv where "bao_opened c path = Inr sample_secret"
definition bao_sealed :: kv where "bao_sealed c path = Inl (During ''openbao: KV backends'' (Unavailable ''sealed''))"

lemma sample_key_decodes: "StdEncoding_DecodeString sample_key = Some (replicate 32 CHR ''k'')"
proof -
  have k: "ord CHR ''k'' = 107" by (simp add: ord_def)
  have alphabet: "b64std ! 26 = CHR ''a''" "b64std ! 54 = CHR ''2''" "b64std ! 45 = CHR ''t''" "b64std ! 43 = CHR ''r''" "b64std ! 44 = CHR ''s''"
    by code_simp+
  have block: "b64encode b64std ''='' (CHR ''k'' # CHR ''k'' # CHR ''k'' # bs) = ''a2tr'' @ b64encode b64std ''='' bs" for bs
    by (simp add: k alphabet)
  have "b64encode b64std ''='' [CHR ''k'', CHR ''k''] = ''a2s=''" by (simp add: k alphabet)
  then have "b64encode b64std ''='' (concat (replicate n ''kkk'') @ ''kk'') = concat (replicate n ''a2tr'') @ ''a2s=''" for n
    by (induction n) (simp_all add: block del: b64encode.simps)
  moreover have "concat (replicate 10 ''kkk'') @ ''kk'' = replicate 32 CHR ''k''" "concat (replicate 10 ''a2tr'') @ ''a2s='' = sample_key"
    by code_simp+
  ultimately have "b64encode b64std ''='' (replicate 32 CHR ''k'') = sample_key" by metis
  then show ?thesis using StdEncoding_roundtrip unfolding StdEncoding_EncodeToString_def by metis
qed

definition sample_creds :: creds where
  "sample_creds k = (case map_of sample_secret k of None \<Rightarrow> [] | Some v \<Rightarrow> v)"

lemma sample_parts:
  "(case openbaoClient sample_platform sample_env of Inr (Some _) \<Rightarrow> True | _ \<Rightarrow> False)"
  "(case site_from_env sample_env sample_creds of Inr _ \<Rightarrow> True | _ \<Rightarrow> False)"
  "empty_settings sample_env siteEnv = []" "filter (\<lambda>k. sample_creds k = []) credentials = []"
  by code_simp+

lemma sample_values:
  "sample_env ''DEEVNET_SITE'' = ''dvntm''" "sample_env ''OPENBAO_ADDR'' = ''https://bao:8200''" "sample_creds ''token_hmac_key'' = sample_key"
  "enrollment_ttl sample_env = Inr (seconds 259200)" "boolEnv sample_env ''MINIO_ADMIN_TLS'' False = False"
  "sample_env ''OPENBAO_TENANT_SERVICE_MOUNT'' = []" "sample_env ''DEEVNET_BROKER_WRITER_ADDR'' = []"
  "sample_env ''DEEVNET_LOG_WRITER_ADDR'' = []" "sample_env ''DEEVNET_GRAFANA_URL'' = []"
  by code_simp+

lemma sample_wires: "\<exists>w. wire sample_platform sample_env bao sample_creds site = Inr w"
  by (simp add: wire_def sample_values sample_key_decodes NewTokens_def and_then_def or_fail_def as_error_def state_New_def
      sample_platform_def refuse_if_def ssh_writer_def Let_def)

lemma sample_opens: "\<exists>w. tenantService sample_platform sample_env bao_opened = Inr (Some w)"
proof -
  obtain c where c: "openbaoClient sample_platform sample_env = Inr (Some c)"
    using sample_parts(1) by (auto split: sum.splits option.splits)
  obtain site where site: "site_from_env sample_env sample_creds = Inr site"
    using sample_parts(2) by (auto split: sum.splits)
  have creds: "read_credentials sample_platform sample_env bao_opened = Inr (Some c, sample_creds)"
    unfolding sample_creds_def[abs_def] by (simp add: read_credentials_def sample_values c and_then_def as_error_def bao_opened_def)
  obtain w where "wire sample_platform sample_env (Some c) sample_creds site = Inr w" using sample_wires by blast
  then show ?thesis
    by (simp add: tenantService_def sample_values sample_parts(3,4) creds site and_then_def refuse_if_def Let_def)
qed

lemma sample_sealed: "tenantService sample_platform sample_env bao_sealed = Inl (FromOpenBao (During ''openbao: KV backends'' (Unavailable ''sealed'')))"
proof -
  obtain c where c: "openbaoClient sample_platform sample_env = Inr (Some c)"
    using sample_parts(1) by (auto split: sum.splits option.splits)
  show ?thesis
    by (simp add: tenantService_def sample_values sample_parts(3) read_credentials_def c and_then_def refuse_if_def as_error_def bao_sealed_def)
qed

section \<open>Properties of the component\<close>

text \<open>C3. What starts is well formed: a service that the environment and the credentials wire has a valid site, a token key of
  at least 32 bytes, and exactly the optional backends whose gates are set. The signer is OpenBao's; addresses are only
  reserved where Wi-Fi is served, dashboards only given where the log writer is; both writers pin their host's key and
  wait a bounded time; and the state store's certificate is verified when TLS is on.\<close>

theorem started_as_configured:
  assumes "tenantService pf getenv kv = Inr (Some w)"
  shows "well_wired getenv w"
proof -
  obtain bao creds where start: "read_credentials pf getenv kv = Inr (bao, creds)"
      and site: "site_from_env getenv creds = Inr (wr_Site w)" and wire: "wire pf getenv bao creds (wr_Site w) = Inr w"
    using tenantService_Inr[OF assms] by blast
  have valid: "Validate_site (wr_Site w) = None" and dash: "getenv ''DEEVNET_GRAFANA_URL'' \<noteq> [] \<Longrightarrow> empty_settings getenv grafanaEnv = []"
    using site_from_env_steps[OF site] by blast+
  have "getenv ''DEEVNET_GRAFANA_URL'' \<noteq> [] \<Longrightarrow> getenv ''DEEVNET_LOG_WRITER_ADDR'' \<noteq> []"
    using dash by (simp add: empty_settings_def grafanaEnv_def split: if_split_asm)
  then show ?thesis
    using wire_Inr[OF wire] read_credentials_OpenBao[OF start] valid ranges_need_classes[OF valid] site_from_env_classes[OF site]
    unfolding well_wired_def by metis
qed

theorem started_as_configured_witness:
  "\<exists>w. tenantService sample_platform sample_env bao_opened = Inr (Some w) \<and> well_wired sample_env w"
  using sample_opens started_as_configured by blast

text \<open>C4. A deployment keeps its registry sound from its first start: whatever OpenBao answered at each build, however often
  the program was waiting for it, and whatever requests arrived before and after, the registry of the site the
  environment describes satisfies its invariant. The site's own validity is not assumed; starting has checked it.\<close>

theorem running_program_registry_sound:
  assumes "tenantService pf getenv kv = Inr (Some s)" "others_ok (pl\<lparr>sv_Site := wr_Site s\<rparr>)" "reg w = empty_registry"
  shows "reg_inv (wr_Site s) (reg (program_run pf getenv pl dsn_ok qs w))"
proof -
  obtain creds where "site_from_env getenv creds = Inr (wr_Site s)" using tenantService_Inr[OF assms(1)] by blast
  then have "Validate_site (wr_Site s) = None" using site_from_env_steps by blast
  then show ?thesis unfolding program_run_def by (rule session_inv[OF arrivals_serve[OF assms(1,2)] _ assms(3)])
qed

theorem running_program_registry_sound_witness:
  "\<exists>s. tenantService sample_platform sample_env bao_opened = Inr (Some s) \<and>
     reg_inv (wr_Site s) (reg (program_run sample_platform sample_env sample_service (\<lambda>_. True)
       [(bao_sealed, [bao_opened], \<lparr>pb_Ping = True, pb_Migrated = True, pb_Health = ''ok''\<rparr>, V1 ''Bearer operator-token'' RtEgress)] empty_world))"
proof -
  obtain s where s: "tenantService sample_platform sample_env bao_opened = Inr (Some s)" using sample_opens by blast
  have "others_ok (sample_service\<lparr>sv_Site := wr_Site s\<rparr>)" by (simp add: others_ok_def sample_service_def)
  from running_program_registry_sound[OF s this, of empty_world] s show ?thesis by (auto simp: empty_world_def)
qed

text \<open>C25. The API opens with OpenBao: a program whose first build found it sealed waits through any number of builds that
  fail; meanwhile every request with a bearer token is answered 503 and reaches neither the registry nor a backend. The
  first build that succeeds makes it serve what that build wired, and it serves that from then on.\<close>

theorem api_opens_with_openbao:
  assumes "api_start pf getenv pl dsn_ok kv = Waiting" "list_all (\<lambda>kv. \<exists>e. tenantService pf getenv kv = Inl e) kvs"
    and "tenantService pf getenv open_kv = Inr t"
  shows "(\<exists>cfg. config_at getenv pb (api_phase pf getenv pl dsn_ok kv kvs) = Some cfg \<and>
      (\<forall>header r w tok. Token header = Some tok \<longrightarrow> (\<exists>body. run_state (v1 cfg header r) w = (\<lparr>resp_Status = 503, resp_Body = body\<rparr>, w)))) \<and>
    api_phase pf getenv pl dsn_ok kv (kvs @ open_kv # later) = Serving (map_option (service_of pl) t)"
proof (rule conjI)
  have waits: "api_phase pf getenv pl dsn_ok kv kvs = Waiting"
    unfolding api_phase_def assms(1) by (rule retry_waits[OF assms(2)])
  from waits show "\<exists>cfg. config_at getenv pb (api_phase pf getenv pl dsn_ok kv kvs) = Some cfg \<and>
      (\<forall>header r w tok. Token header = Some tok \<longrightarrow> (\<exists>body. run_state (v1 cfg header r) w = (\<lparr>resp_Status = 503, resp_Body = body\<rparr>, w)))"
    by (simp add: config_at_def Let_def v1_def requireToken_def requireMigrated_def requireSecrets_def writeUnavailable_def answer_def)
  have "retry_build pf getenv pl open_kv Waiting = Serving (map_option (service_of pl) t)"
    by (simp add: retry_build_def build_def assms(3) and_then_def)
  then show "api_phase pf getenv pl dsn_ok kv (kvs @ open_kv # later) = Serving (map_option (service_of pl) t)"
    using waits retry_serving[of pf getenv pl later] by (simp add: api_phase_def)
qed

lemma sample_waits: "api_start sample_platform sample_env pl (\<lambda>_. True) bao_sealed = Waiting"
proof -
  have env: "sample_env ''DEEVNET_API_TOKEN'' \<noteq> []" "sample_env ''DATABASE_URL'' \<noteq> []"
    "sample_env ''DEEVNET_API_TLS_CERT'' = []" "sample_env ''DEEVNET_API_TLS_KEY'' = []" by code_simp+
  obtain c where "openbaoClient sample_platform sample_env = Inr (Some c)"
    using sample_parts(1) by (auto split: sum.splits option.splits)
  then show ?thesis
    by (simp add: api_start_def env build_def sample_sealed and_then_def secrets_unavailable_def)
qed

theorem api_opens_with_openbao_witness:
  "\<exists>s. api_phase sample_platform sample_env sample_service (\<lambda>_. True) bao_sealed ([bao_sealed, bao_sealed] @ bao_opened # [bao_sealed]) =
     Serving (Some (service_of sample_service s))"
proof -
  obtain s where s: "tenantService sample_platform sample_env bao_opened = Inr (Some s)" using sample_opens by blast
  have "list_all (\<lambda>kv. \<exists>e. tenantService sample_platform sample_env kv = Inl e) [bao_sealed, bao_sealed]" by (simp add: sample_sealed)
  from api_opens_with_openbao[OF sample_waits[of sample_service] this s, where later = "[bao_sealed]"] show ?thesis by auto
qed

text \<open>C39. A configuration error is final only at the first build. When that build found OpenBao sealed, and every later one meets
  errors that are no outage of OpenBao, though each of them would end the program had it come first, the program
  stays up: with the database and OpenBao both in order its readiness probe answers 200, while every request with a
  bearer token is answered 503 with the text that OpenBao is sealed or unreachable, and nothing is touched.\<close>

theorem late_configuration_error_waits:
  assumes "api_start pf getenv pl dsn_ok kv = Waiting"
    and "list_all (\<lambda>kv'. \<exists>e. tenantService pf getenv kv' = Inl e \<and> \<not> secrets_unavailable e) kvs"
    and "pb_Ping pb" "pb_Migrated pb" "pb_Health pb = ''ok''"
  shows "list_all (\<lambda>kv'. \<exists>e. api_start pf getenv pl dsn_ok kv' = Exited (StartFailed e)) kvs \<and>
    (\<exists>cfg. config_at getenv pb (api_phase pf getenv pl dsn_ok kv kvs) = Some cfg \<and>
      (\<forall>w. \<exists>body. run_state (readyz cfg) w = (\<lparr>resp_Status = 200, resp_Body = body\<rparr>, w)) \<and>
      (\<forall>header r w tok. Token header = Some tok \<longrightarrow> run_state (v1 cfg header r) w = (unavailable_answer, w)))"
proof (rule conjI)
  show "list_all (\<lambda>kv'. \<exists>e. api_start pf getenv pl dsn_ok kv' = Exited (StartFailed e)) kvs"
    using assms(1,2) unfolding api_start_def build_def list_all_iff
    by (fastforce simp: and_then_def split: if_split_asm sum.splits)
  have "list_all (\<lambda>kv. \<exists>e. tenantService pf getenv kv = Inl e) kvs" using assms(2) by (auto simp: list_all_iff)
  then have "api_phase pf getenv pl dsn_ok kv kvs = Waiting"
    unfolding api_phase_def assms(1) by (rule retry_waits)
  then show "\<exists>cfg. config_at getenv pb (api_phase pf getenv pl dsn_ok kv kvs) = Some cfg \<and>
      (\<forall>w. \<exists>body. run_state (readyz cfg) w = (\<lparr>resp_Status = 200, resp_Body = body\<rparr>, w)) \<and>
      (\<forall>header r w tok. Token header = Some tok \<longrightarrow> run_state (v1 cfg header r) w = (unavailable_answer, w))"
    using assms(3-5)
    by (simp add: config_at_def Let_def readyz_def v1_def requireToken_def requireMigrated_def requireSecrets_def answer_def)
qed

definition bao_without_secret :: kv where "bao_without_secret c path = Inr []"

theorem late_configuration_error_waits_witness:
  "api_start sample_platform sample_env sample_service (\<lambda>_. True) bao_sealed = Waiting \<and>
   (\<exists>e. api_start sample_platform sample_env sample_service (\<lambda>_. True) bao_without_secret = Exited (StartFailed e)) \<and>
   (\<exists>cfg. config_at sample_env \<lparr>pb_Ping = True, pb_Migrated = True, pb_Health = ''ok''\<rparr>
       (api_phase sample_platform sample_env sample_service (\<lambda>_. True) bao_sealed (replicate 500 bao_without_secret)) = Some cfg \<and>
     run_state (v1 cfg ''Bearer operator-token'' RtEgress) empty_world = (unavailable_answer, empty_world))"
proof -
  obtain c where c: "openbaoClient sample_platform sample_env = Inr (Some c)"
    using sample_parts(1) by (auto split: sum.splits option.splits)
  have "credentials \<noteq> []" by (simp add: credentials_def)
  then have e: "tenantService sample_platform sample_env bao_without_secret = Inl (MissingCredentials True credentials)"
    by (simp add: tenantService_def sample_values sample_parts(3) read_credentials_def c and_then_def refuse_if_def as_error_def
        bao_without_secret_def Let_def)
  have "\<not> secrets_unavailable (MissingCredentials True credentials)" by (simp add: secrets_unavailable_def)
  with e have bad: "list_all (\<lambda>kv'. \<exists>e. tenantService sample_platform sample_env kv' = Inl e \<and> \<not> secrets_unavailable e)
      (replicate 500 bao_without_secret)" by (simp add: list_all_iff)
  have tok: "Token ''Bearer operator-token'' = Some ''operator-token''" by (simp add: Token_def HasPrefix_def)
  note late = late_configuration_error_waits[OF sample_waits[of sample_service] bad,
      of "\<lparr>pb_Ping = True, pb_Migrated = True, pb_Health = ''ok''\<rparr>"]
  have "\<exists>e. api_start sample_platform sample_env sample_service (\<lambda>_. True) bao_without_secret = Exited (StartFailed e)"
    using late by (simp add: list_all_iff)
  then show ?thesis using late tok sample_waits[of sample_service] by auto
qed

text \<open>A switch that is not spelt as Go spells it reads as off: the state store is then reached without TLS, no CA asked for.\<close>

lemma malformed_tls_switch_is_plain:
  assumes "getenv ''MINIO_ADMIN_TLS'' = ''yes''"
  shows "boolEnv getenv ''MINIO_ADMIN_TLS'' False = False"
  using assms by (simp add: boolEnv_def ParseBool_def)

end
