(* ===== verification/KitAccounts.thy ===== *)
theory KitAccounts
  imports LogWriter BrokerContract Settings
begin

text \<open>
  \<^verbatim>\<open>cmd/deevnet-kit\<close>: the broker accounts of a card (\<^verbatim>\<open>accounts.go\<close>, \<^verbatim>\<open>appcreds.go\<close>) and its state (\<^verbatim>\<open>kit.go\<close>). A card is
  the part of its disk these commands read and write: the state file, the account files by stem, and the password and
  ACL files Mosquitto reads. Writes succeed; PBKDF2 and the random bytes are parameters; what the flags parsed to is the
  argument of a command.
\<close>

section \<open>State\<close>

record card_state =
  ks_Tenant :: string
  ks_Index :: int
  ks_OperatorToken :: string
  ks_IngestToken :: string
  ks_ReadToken :: string
  ks_BridgeStoreToken :: string
  ks_BridgePassword :: string
  ks_GrafanaAdminPassword :: string
  ks_GrafanaSecretKey :: string
  ks_DashboardPassword :: string
  ks_DashboardOrg :: int
  ks_PKI :: string

record kit_account =
  ka_Name :: string
  ka_Device :: string
  ka_Publish :: "string list"
  ka_Subscribe :: "string list"
  ka_PasswordHash :: string

text \<open>A file that does not decode is \<open>None\<close> under its name.\<close>

record card =
  cd_state :: "card_state option option"
  cd_accounts :: "(string \<times> kit_account option) list"
  cd_passwd :: string
  cd_acl :: string

datatype kit_error =
    NotInitialised | BadState | InvalidState log_error
  | AddUsage | BadAccountName | BadDeviceName | BadPatternText | PatternRefused broker_error
  | AccountExists | BothPasswords | NoPasswordFile | NoPassword
  | BadAccountFile string | StoredAccount string kit_error | NotAName | NoAccount
  | FlagsTogether | WrongPassword

definition validState :: "card_state \<Rightarrow> log_error option" where
  "validState st = Validate_log \<lparr>lr_Version = log_Version, lr_Op = log_OpPut, lr_Tenant = ks_Tenant st, lr_Index = ks_Index st,
     lr_IngestToken = ks_IngestToken st, lr_ReadToken = ks_ReadToken st\<rparr>"

definition loadState :: "card \<Rightarrow> kit_error + card_state" where
  "loadState c =
     (case cd_state c of None \<Rightarrow> Inl NotInitialised
      | Some None \<Rightarrow> Inl BadState
      | Some (Some st) \<Rightarrow> (case validState st of Some e \<Rightarrow> Inl (InvalidState e) | None \<Rightarrow> Inr st))"

definition kit_username :: "card_state \<Rightarrow> string \<Rightarrow> string" where
  "kit_username st name = ks_Tenant st @ ''-'' @ name"

section \<open>Accounts\<close>

text \<open>\<^verbatim>\<open>unicode.IsControl\<close> on UTF-8: the ASCII controls, and U+0080 to U+009F after the byte C2.\<close>

fun has_control :: "string \<Rightarrow> bool" where
  "has_control [] = False"
| "has_control (c # cs) =
     (ord c < 32 \<or> ord c = 127 \<or> (c = CHR 0xC2 \<and> cs \<noteq> [] \<and> 128 \<le> ord (hd cs) \<and> ord (hd cs) < 160) \<or> has_control cs)"

definition newAccount :: "card_state \<Rightarrow> string \<Rightarrow> string \<Rightarrow> string list \<Rightarrow> string list \<Rightarrow> kit_error + kit_account" where
  "newAccount st name device pub sub =
     (if \<not> ValidWorkloadName name then Inl BadAccountName
      else if device \<noteq> [] \<and> \<not> ValidWorkloadName device then Inl BadDeviceName
      else if list_ex (\<lambda>p. has_control p \<or> TrimSpace p \<noteq> p) (pub @ sub) then Inl BadPatternText
      else case PrefixPatterns (ks_Tenant st) DPublish pub of Inl e \<Rightarrow> Inl (PatternRefused e)
      | Inr absPub \<Rightarrow>
     (case PrefixPatterns (ks_Tenant st) DSubscribe sub of Inl e \<Rightarrow> Inl (PatternRefused e)
      | Inr absSub \<Rightarrow>
     (case CheckGrant absPub absSub of Some e \<Rightarrow> Inl (PatternRefused e)
      | None \<Rightarrow>
     (case CheckLogGrants (ks_Tenant st) device absPub absSub of Some e \<Rightarrow> Inl (PatternRefused e)
      | None \<Rightarrow> Inr \<lparr>ka_Name = name, ka_Device = device, ka_Publish = absPub, ka_Subscribe = absSub, ka_PasswordHash = []\<rparr>))))"

text \<open>The files, sorted by the names in them.\<close>

fun read_accounts :: "(string \<times> kit_account option) list \<Rightarrow> kit_error + kit_account list" where
  "read_accounts [] = Inr []"
| "read_accounts ((stem, x) # fs) =
     (case x of None \<Rightarrow> Inl (BadAccountFile stem)
      | Some a \<Rightarrow> (case read_accounts fs of Inl e \<Rightarrow> Inl e | Inr as \<Rightarrow> Inr (a # as)))"

definition loadAccounts :: "card \<Rightarrow> kit_error + kit_account list" where
  "loadAccounts c = (case read_accounts (cd_accounts c) of Inl e \<Rightarrow> Inl e | Inr as \<Rightarrow> Inr (sort_key ka_Name as))"

definition TrimPrefix :: "string \<Rightarrow> string \<Rightarrow> string" where
  "TrimPrefix s p = (if HasPrefix s p then drop (length p) s else s)"

definition kit_relative :: "card_state \<Rightarrow> string list \<Rightarrow> string list" where
  "kit_relative st absolute = map (\<lambda>p. TrimPrefix p (ks_Tenant st @ ''/'')) absolute"

section \<open>Mosquitto\<close>

definition bridgeUser :: string where "bridgeUser = ''_log-bridge''"

text \<open>\<open>pb password salt iterations length\<close> is PBKDF2-SHA512.\<close>

type_synonym pbkdf2 = "string \<Rightarrow> string \<Rightarrow> int \<Rightarrow> nat \<Rightarrow> string"

definition mosquittoHash :: "pbkdf2 \<Rightarrow> string \<Rightarrow> string \<Rightarrow> string" where
  "mosquittoHash pb salt password =
     ''$7$'' @ itoa 101 @ ''$'' @ StdEncoding_EncodeToString salt @ ''$'' @ StdEncoding_EncodeToString (pb password salt 101 64)"

definition acl_header :: "string list" where
  "acl_header = [''# Generated by deevnet-kit from /etc/deevnet-kit/accounts. Do not edit;'',
     ''# use deevnet-kit account. Anything not granted here is denied.'', []]"

definition user_line :: "string \<Rightarrow> string" where "user_line u = ''user '' @ u"
definition write_line :: "string \<Rightarrow> string" where "write_line p = ''topic write '' @ p"
definition read_line :: "string \<Rightarrow> string" where "read_line p = ''topic read '' @ p"

definition account_lines :: "card_state \<Rightarrow> kit_account \<Rightarrow> string list" where
  "account_lines st a =
     [] # user_line (kit_username st (ka_Name a)) # map write_line (ka_Publish a) @ map read_line (ka_Subscribe a)"

definition file_text :: "string list \<Rightarrow> string" where
  "file_text ls = concat (map (\<lambda>l. l @ [NL]) ls)"

definition renderMosquitto :: "card_state \<Rightarrow> string \<Rightarrow> kit_account list \<Rightarrow> string \<times> string" where
  "renderMosquitto st bridgeHash accts =
     (file_text ((bridgeUser @ '':'' @ bridgeHash) # map (\<lambda>a. kit_username st (ka_Name a) @ '':'' @ ka_PasswordHash a) accts),
      file_text (acl_header @ [user_line bridgeUser, read_line (''+/'' @ LogLevel @ ''/#'')] @ concat (map (account_lines st) accts)))"

text \<open>Each stored account is put through the checks of a new one again, its patterns without the tenant's prefix.\<close>

fun recheck :: "card_state \<Rightarrow> kit_account list \<Rightarrow> kit_error option" where
  "recheck st [] = None"
| "recheck st (a # as) =
     (case newAccount st (ka_Name a) (ka_Device a) (kit_relative st (ka_Publish a)) (kit_relative st (ka_Subscribe a)) of
        Inl e \<Rightarrow> Some (StoredAccount (ka_Name a) e) | Inr _ \<Rightarrow> recheck st as)"

definition renderBroker :: "pbkdf2 \<Rightarrow> string \<Rightarrow> card_state \<Rightarrow> card \<Rightarrow> kit_error option \<times> card" where
  "renderBroker pb salt st c =
     (case loadAccounts c of Inl e \<Rightarrow> (Some e, c)
      | Inr accts \<Rightarrow>
          (case recheck st accts of Some e \<Rightarrow> (Some e, c)
           | None \<Rightarrow> (let (passwd, acl) = renderMosquitto st (mosquittoHash pb salt (ks_BridgePassword st)) accts in
               (None, c\<lparr>cd_passwd := passwd, cd_acl := acl\<rparr>))))"

section \<open>Commands\<close>

text \<open>The first line of the file, without its line end.\<close>

definition readPasswordFile :: "(string \<Rightarrow> string option) \<Rightarrow> string \<Rightarrow> kit_error + string" where
  "readPasswordFile files path =
     (case files path of None \<Rightarrow> Inl NoPasswordFile
      | Some text \<Rightarrow>
          (let pw = rev (dropWhile (\<lambda>c. c = CHR 0x0D \<or> c = NL) (rev (takeWhile (\<lambda>c. c \<noteq> NL) text))) in
           if pw = [] then Inl NoPassword else Inr pw))"

record add_request =
  ar_Name :: string
  ar_Device :: string
  ar_Publish :: "string list"
  ar_Subscribe :: "string list"
  ar_Password :: string
  ar_PasswordFile :: string

text \<open>The random bytes a command draws: for a password, and for the salts of the account and of the bridge.\<close>

record entropy =
  en_Password :: string
  en_Salt :: string
  en_BridgeSalt :: string

definition put_account_file :: "string \<Rightarrow> kit_account \<Rightarrow> (string \<times> kit_account option) list \<Rightarrow> (string \<times> kit_account option) list" where
  "put_account_file stem a fs = filter (\<lambda>f. fst f \<noteq> stem) fs @ [(stem, Some a)]"

definition given_password :: "(string \<Rightarrow> string option) \<Rightarrow> add_request \<Rightarrow> kit_error + string" where
  "given_password files q =
     (if ar_Password q \<noteq> [] \<and> ar_PasswordFile q \<noteq> [] then Inl BothPasswords
      else if ar_PasswordFile q \<noteq> [] then readPasswordFile files (ar_PasswordFile q)
      else Inr (ar_Password q))"

text \<open>The result is the error, or the password that is printed: a given one is not.\<close>

definition accountAdd ::
  "pbkdf2 \<Rightarrow> entropy \<Rightarrow> (string \<Rightarrow> string option) \<Rightarrow> add_request \<Rightarrow> card \<Rightarrow> (kit_error + string option) \<times> card" where
  "accountAdd pb en files q c =
     (if ar_Name q = [] \<or> HasPrefix (ar_Name q) ''-'' then (Inl AddUsage, c)
      else case loadState c of Inl e \<Rightarrow> (Inl e, c)
      | Inr st \<Rightarrow>
     (case newAccount st (ar_Name q) (ar_Device q) (ar_Publish q) (ar_Subscribe q) of Inl e \<Rightarrow> (Inl e, c)
      | Inr a \<Rightarrow>
          if map_of (cd_accounts c) (ar_Name q) \<noteq> None then (Inl AccountExists, c)
          else (case given_password files q of Inl e \<Rightarrow> (Inl e, c)
            | Inr given \<Rightarrow>
                (let pw = (if given = [] then hexEncode (en_Password en) else given);
                     a' = a\<lparr>ka_PasswordHash := mosquittoHash pb (en_Salt en) pw\<rparr>;
                     c' = c\<lparr>cd_accounts := put_account_file (ar_Name q) a' (cd_accounts c)\<rparr> in
                 (case renderBroker pb (en_BridgeSalt en) st c' of (Some e, c2) \<Rightarrow> (Inl e, c2)
                  | (None, c2) \<Rightarrow> (Inr (if given = [] then Some pw else None), c2))))))"

definition accountRemove :: "pbkdf2 \<Rightarrow> entropy \<Rightarrow> string \<Rightarrow> card \<Rightarrow> kit_error option \<times> card" where
  "accountRemove pb en name c =
     (case loadState c of Inl e \<Rightarrow> (Some e, c)
      | Inr st \<Rightarrow>
          if \<not> ValidWorkloadName name then (Some NotAName, c)
          else if map_of (cd_accounts c) name = None then (Some NoAccount, c)
          else renderBroker pb (en_BridgeSalt en) st (c\<lparr>cd_accounts := filter (\<lambda>f. fst f \<noteq> name) (cd_accounts c)\<rparr>))"

section \<open>The app's login\<close>

definition mosquittoVerify :: "pbkdf2 \<Rightarrow> string \<Rightarrow> string \<Rightarrow> bool" where
  "mosquittoVerify pb hash pw =
     (case SplitOn CHR ''$'' hash of
        [_, seven, iters, s, k] \<Rightarrow>
          seven = ''7'' \<and>
          (case (Atoi iters, StdEncoding_DecodeString s, StdEncoding_DecodeString k) of
             (Some n, Some salt, Some want) \<Rightarrow> 1 \<le> n \<and> want \<noteq> [] \<and> pb pw salt n (length want) = want
           | _ \<Rightarrow> False)
      | _ \<Rightarrow> False)"

record app_creds =
  ap_User :: string
  ap_Password :: string

definition appCredentials :: "pbkdf2 \<Rightarrow> string \<Rightarrow> string \<Rightarrow> card \<Rightarrow> kit_error + app_creds" where
  "appCredentials pb name pw c =
     (case loadState c of Inl e \<Rightarrow> Inl e
      | Inr st \<Rightarrow>
          (case map_of (cd_accounts c) name of None \<Rightarrow> Inl NoAccount
           | Some None \<Rightarrow> Inl (BadAccountFile name)
           | Some (Some a) \<Rightarrow>
               if \<not> mosquittoVerify pb (ka_PasswordHash a) pw then Inl WrongPassword
               else Inr \<lparr>ap_User = kit_username st name, ap_Password = pw\<rparr>))"

definition appEnv :: "app_creds option \<Rightarrow> string" where
  "appEnv c = (case c of None \<Rightarrow> ''# The app'' @ [CHR 0x27] @ ''s broker login: deevnet-kit export DIR --app NAME --password-file FILE'' @ [NL]
     | Some a \<Rightarrow> ''MQTT_USERNAME='' @ ap_User a @ [NL] @ ''MQTT_PASSWORD='' @ ap_Password a @ [NL])"

text \<open>\<^verbatim>\<open>--app\<close> and \<^verbatim>\<open>--password-file\<close>, empty where not given.\<close>

definition appFlags :: "pbkdf2 \<Rightarrow> (string \<Rightarrow> string option) \<Rightarrow> string \<Rightarrow> string \<Rightarrow> card \<Rightarrow> kit_error + app_creds option" where
  "appFlags pb files app pwFile c =
     (if (app = []) \<noteq> (pwFile = []) then Inl FlagsTogether
      else if app = [] then Inr None
      else case readPasswordFile files pwFile of Inl e \<Rightarrow> Inl e
      | Inr pw \<Rightarrow> (case appCredentials pb app pw c of Inl e \<Rightarrow> Inl e | Inr a \<Rightarrow> Inr (Some a)))"

section \<open>What a stored account is\<close>

text \<open>An account the commands wrote: what \<open>newAccount\<close> made of its relative patterns, and a hash that is one line.\<close>

definition kept :: "card_state \<Rightarrow> kit_account \<Rightarrow> bool" where
  "kept st a = (newAccount st (ka_Name a) (ka_Device a) (kit_relative st (ka_Publish a)) (kit_relative st (ka_Subscribe a)) =
     Inr (a\<lparr>ka_PasswordHash := []\<rparr>) \<and> NL \<notin> set (ka_PasswordHash a))"

lemma prefix_all_eq: "prefix_all tn field i out rels = Inr res \<Longrightarrow> res = out @ map (\<lambda>r. tn @ ''/'' @ r) rels"
proof (induction rels arbitrary: i out)
  case (Cons r rels)
  then obtain a where a: "PrefixPattern tn r = Inr a" "prefix_all tn field (i + 1) (out @ [a]) rels = Inr res"
    by (auto split: sum.splits)
  show ?case using Cons.IH[OF a(2)] PrefixPattern_prefix[OF a(1)] by simp
qed simp

lemma PrefixPatterns_eq: "PrefixPatterns tn field rels = Inr res \<Longrightarrow> res = map (\<lambda>r. tn @ ''/'' @ r) rels"
  using prefix_all_eq[of tn field 0 "[]" rels res] by (auto simp: PrefixPatterns_def split: if_splits)

lemma relative_absolute: "kit_relative st (map (\<lambda>r. ks_Tenant st @ ''/'' @ r) rels) = rels"
proof -
  have "TrimPrefix (ks_Tenant st @ ''/'' @ r) (ks_Tenant st @ ''/'') = r" for r
    using HasPrefix_append[of "ks_Tenant st @ ''/''" r] by (simp add: TrimPrefix_def)
  then show ?thesis by (simp add: kit_relative_def comp_def map_idI)
qed

lemma newAccount_Inr:
  assumes "newAccount st name device pub sub = Inr a"
  shows "ValidWorkloadName name" "device = [] \<or> ValidWorkloadName device" "\<forall>p \<in> set (pub @ sub). \<not> has_control p"
    "a = \<lparr>ka_Name = name, ka_Device = device, ka_Publish = map (\<lambda>r. ks_Tenant st @ ''/'' @ r) pub,
       ka_Subscribe = map (\<lambda>r. ks_Tenant st @ ''/'' @ r) sub, ka_PasswordHash = []\<rparr>"
    "CheckLogGrants (ks_Tenant st) device (ka_Publish a) (ka_Subscribe a) = None"
  using assms PrefixPatterns_eq by (auto simp: newAccount_def list_ex_iff split: if_splits sum.splits option.splits)

lemma newAccount_kept: "newAccount st name device pub sub = Inr a \<Longrightarrow> NL \<notin> set h \<Longrightarrow> kept st (a\<lparr>ka_PasswordHash := h\<rparr>)"
  using newAccount_Inr(4)[of st name device pub sub a] relative_absolute[of st pub] relative_absolute[of st sub] by (simp add: kept_def)

lemma has_control_NL: "\<not> has_control p \<Longrightarrow> NL \<notin> set p"
  by (induction p) (auto simp: NL_def ord_def)

lemma ValidName_lines: "ValidName tn \<Longrightarrow> NL \<notin> set tn"
proof -
  have plain: "NL \<notin> set lowers" "NL \<notin> set (lowers @ digits)" by code_simp+
  assume "ValidName tn"
  then show ?thesis using plain unfolding ValidName_def nameRE_def list_all_iff by (cases tn) auto
qed

lemma keptD:
  assumes "kept st a" "ValidName (ks_Tenant st)"
  shows "ValidWorkloadName (ka_Name a)" "ka_Device a = [] \<or> ValidWorkloadName (ka_Device a)"
    "\<forall>p \<in> set (ka_Publish a) \<union> set (ka_Subscribe a). HasPrefix p (ks_Tenant st @ ''/'') \<and> NL \<notin> set p"
    "CheckLogGrants (ks_Tenant st) (ka_Device a) (ka_Publish a) (ka_Subscribe a) = None"
proof -
  note a = newAccount_Inr[OF assms(1)[unfolded kept_def, THEN conjunct1]]
  show "ValidWorkloadName (ka_Name a)" "ka_Device a = [] \<or> ValidWorkloadName (ka_Device a)" using a(1,2) .
  have tn: "NL \<notin> set (ks_Tenant st @ ''/'')"
    using ValidName_lines[OF assms(2)] by (simp add: NL_def)
  let ?abs = "\<lambda>r. (ks_Tenant st @ ''/'') @ r"
  have fields: "ka_Publish a = map ?abs (kit_relative st (ka_Publish a))" "ka_Subscribe a = map ?abs (kit_relative st (ka_Subscribe a))"
    using arg_cong[OF a(4), of ka_Publish] arg_cong[OF a(4), of ka_Subscribe] by simp_all
  have good: "HasPrefix p (ks_Tenant st @ ''/'') \<and> NL \<notin> set p"
    if "p \<in> set (map ?abs rs)" "\<forall>r \<in> set rs. NL \<notin> set r" for p rs
    using that tn by (auto simp: HasPrefix_iff)
  have "\<forall>r \<in> set (kit_relative st (ka_Publish a)). NL \<notin> set r" "\<forall>r \<in> set (kit_relative st (ka_Subscribe a)). NL \<notin> set r"
    using a(3) has_control_NL by auto
  with good fields show "\<forall>p \<in> set (ka_Publish a) \<union> set (ka_Subscribe a). HasPrefix p (ks_Tenant st @ ''/'') \<and> NL \<notin> set p"
    by (metis UnE)
  show "CheckLogGrants (ks_Tenant st) (ka_Device a) (ka_Publish a) (ka_Subscribe a) = None" using a(5) by simp
qed

section \<open>What the broker reads\<close>

text \<open>
  Mosquitto's documented reading of an ACL file, line by line: a \<^verbatim>\<open>user\<close> line says whom the \<^verbatim>\<open>topic\<close> lines after it are
  for. A grant is the user, whether it is to write, and the filter.
\<close>

fun read_acl :: "string \<Rightarrow> string list \<Rightarrow> (string \<times> bool \<times> string) list" where
  "read_acl u [] = []"
| "read_acl u (l # ls) =
     (if HasPrefix l ''user '' then read_acl (drop 5 l) ls
      else if HasPrefix l ''topic write '' then (u, True, drop 12 l) # read_acl u ls
      else if HasPrefix l ''topic read '' then (u, False, drop 11 l) # read_acl u ls
      else read_acl u ls)"

definition acl_grants :: "string \<Rightarrow> (string \<times> bool \<times> string) list" where
  "acl_grants text = read_acl [] (SplitOn NL text)"

definition grants_of :: "card_state \<Rightarrow> kit_account \<Rightarrow> (string \<times> bool \<times> string) list" where
  "grants_of st a = map (\<lambda>p. (kit_username st (ka_Name a), True, p)) (ka_Publish a) @
     map (\<lambda>s. (kit_username st (ka_Name a), False, s)) (ka_Subscribe a)"

lemma acl_lines:
  "read_acl u ([] # ls) = read_acl u ls" "read_acl u (user_line v # ls) = read_acl v ls"
  "read_acl u (write_line p # ls) = (u, True, p) # read_acl u ls"
  "read_acl u (read_line p # ls) = (u, False, p) # read_acl u ls"
  by (simp_all add: HasPrefix_def user_line_def write_line_def read_line_def)

lemma read_acl_writes: "read_acl u (map write_line ps @ ls) = map (\<lambda>p. (u, True, p)) ps @ read_acl u ls"
  by (induction ps) (simp_all add: acl_lines del: read_acl.simps)

lemma read_acl_reads: "read_acl u (map read_line ps @ ls) = map (\<lambda>p. (u, False, p)) ps @ read_acl u ls"
  by (induction ps) (simp_all add: acl_lines del: read_acl.simps)

lemma read_acl_account:
  "read_acl u (account_lines st a @ ls) = grants_of st a @ read_acl (kit_username st (ka_Name a)) ls"
  by (simp add: account_lines_def grants_of_def acl_lines read_acl_writes read_acl_reads del: read_acl.simps)

lemma read_acl_accounts: "read_acl u (concat (map (account_lines st) as) @ [[]]) = concat (map (grants_of st) as)"
  by (induction as arbitrary: u) (simp_all add: read_acl_account acl_lines del: read_acl.simps(2))

lemma ValidWorkloadName_lines: "ValidWorkloadName n \<Longrightarrow> NL \<notin> set n"
proof -
  have plain: "NL \<notin> set lowers" "NL \<notin> set (lowers @ digits @ ''-'')" by code_simp+
  assume "ValidWorkloadName n"
  then show ?thesis using plain unfolding ValidWorkloadName_def workloadNameRE_def list_all_iff by (cases n) auto
qed

lemma account_lines_split:
  assumes "kept st a" "ValidName (ks_Tenant st)" "l \<in> set (account_lines st a)"
  shows "NL \<notin> set l"
  using assms(3) keptD(3)[OF assms(1,2)] ValidWorkloadName_lines[OF keptD(1)[OF assms(1,2)]] ValidName_lines[OF assms(2)]
  by (auto simp: account_lines_def kit_username_def user_line_def write_line_def read_line_def NL_def)

definition bridge_grant :: "string \<times> bool \<times> string" where
  "bridge_grant = (bridgeUser, False, ''+/log/#'')"

lemma rendered_lines:
  assumes "\<forall>a \<in> set as. \<forall>l \<in> set (account_lines st a). NL \<notin> set l"
  shows "acl_grants (snd (renderMosquitto st h as)) = bridge_grant # concat (map (grants_of st) as)"
proof -
  let ?ls = "acl_header @ [user_line bridgeUser, read_line (''+/'' @ LogLevel @ ''/#'')] @ concat (map (account_lines st) as)"
  have head: "\<forall>l \<in> set (acl_header @ [user_line bridgeUser, read_line (''+/'' @ LogLevel @ ''/#'')]). NL \<notin> set l" by code_simp
  have "\<forall>l \<in> set ?ls. NL \<notin> set l"
    using assms head by fastforce
  then have "SplitOn NL (file_text ?ls) = ?ls @ [[]]" unfolding file_text_def by (rule split_lines)
  moreover have "read_acl [] (?ls @ [[]]) = bridge_grant # concat (map (grants_of st) as)"
    using read_acl_accounts[of bridgeUser st as]
    by (simp add: acl_header_def bridge_grant_def HasPrefix_def LogLevel_def bridgeUser_def user_line_def read_line_def)
  ultimately show ?thesis by (simp add: acl_grants_def renderMosquitto_def)
qed

lemma rendered_grants:
  "list_all (kept st) as \<Longrightarrow> ValidName (ks_Tenant st) \<Longrightarrow>
     acl_grants (snd (renderMosquitto st h as)) = bridge_grant # concat (map (grants_of st) as)"
  using account_lines_split by (intro rendered_lines) (auto simp: list_all_iff)

text \<open>
  Mosquitto's documented reading of a password file: a line is a user name and its hash with a colon between them. A login is
  accepted if the password derives the key in the hash of that user.
\<close>

definition passwd_entries :: "string \<Rightarrow> (string \<times> string) list" where
  "passwd_entries text = List.map_filter (Cut CHR '':'') (SplitOn NL text)"

definition broker_accepts :: "pbkdf2 \<Rightarrow> string \<Rightarrow> string \<Rightarrow> string \<Rightarrow> bool" where
  "broker_accepts pb text user pw = (\<exists>h. (user, h) \<in> set (passwd_entries text) \<and> mosquittoVerify pb h pw)"

lemma username_plain: "ValidName (ks_Tenant st) \<Longrightarrow> ValidWorkloadName n \<Longrightarrow>
    CHR '':'' \<notin> set (kit_username st n) \<and> NL \<notin> set (kit_username st n) \<and> kit_username st n \<noteq> bridgeUser"
proof -
  have plain: "c \<noteq> CHR '':'' \<and> c \<noteq> NL" if "c \<in> set (lowers @ digits @ ''-'')" for c
  proof -
    have "list_all (\<lambda>c. c \<noteq> CHR '':'' \<and> c \<noteq> NL) (lowers @ digits @ ''-'')" by code_simp
    then show ?thesis using that by (simp only: list_all_iff) blast
  qed
  have first: "CHR ''_'' \<notin> set lowers" by code_simp
  assume names: "ValidName (ks_Tenant st)" "ValidWorkloadName n"
  then obtain c cs where tn: "ks_Tenant st = c # cs" "c \<in> set lowers" "set cs \<subseteq> set (lowers @ digits)"
    by (auto simp: ValidName_def nameRE_def list_all_iff split: list.splits)
  have "set n \<subseteq> set (lowers @ digits @ ''-'')"
    using names(2) by (cases n) (auto simp: ValidWorkloadName_def workloadNameRE_def list_all_iff)
  then have "set (kit_username st n) \<subseteq> set (lowers @ digits @ ''-'')" using tn by (auto simp: kit_username_def)
  moreover have "kit_username st n \<noteq> bridgeUser" using tn first by (auto simp: kit_username_def bridgeUser_def)
  ultimately show ?thesis using plain by blast
qed

lemma Cut_at: "c \<notin> set a \<Longrightarrow> Cut c (a @ c # b) = Some (a, b)"
  by (induction a) (auto simp: Cut_def)

lemma rendered_passwd:
  assumes "list_all (kept st) as" "ValidName (ks_Tenant st)" "NL \<notin> set h"
  shows "passwd_entries (fst (renderMosquitto st h as)) =
    (bridgeUser, h) # map (\<lambda>a. (kit_username st (ka_Name a), ka_PasswordHash a)) as"
proof -
  let ?ls = "(bridgeUser @ '':'' @ h) # map (\<lambda>a. kit_username st (ka_Name a) @ '':'' @ ka_PasswordHash a) as"
  have bridge: "NL \<notin> set (bridgeUser @ '':'')" "CHR '':'' \<notin> set bridgeUser" by code_simp+
  have acct: "CHR '':'' \<notin> set (kit_username st (ka_Name a)) \<and> NL \<notin> set (kit_username st (ka_Name a) @ '':'' @ ka_PasswordHash a)"
    if "a \<in> set as" for a
    using assms(1,2) that username_plain[OF assms(2)] keptD(1)[OF _ assms(2), of a] by (auto simp: list_all_iff kept_def NL_def)
  have "\<forall>l \<in> set ?ls. NL \<notin> set l" using assms(3) acct bridge by auto
  then have "SplitOn NL (file_text ?ls) = ?ls @ [[]]" unfolding file_text_def by (rule split_lines)
  moreover have "List.map_filter (Cut CHR '':'') (map (\<lambda>a. kit_username st (ka_Name a) @ '':'' @ ka_PasswordHash a) as @ [[]]) =
      map (\<lambda>a. (kit_username st (ka_Name a), ka_PasswordHash a)) as"
    using acct by (induction as) (auto simp: map_filter_simps Cut_at, simp add: Cut_def)
  ultimately show ?thesis using bridge(2) by (simp add: passwd_entries_def renderMosquitto_def map_filter_simps Cut_at)
qed

section \<open>The card\<close>

definition accounts_of :: "card \<Rightarrow> kit_account list" where
  "accounts_of c = sort_key ka_Name (map (\<lambda>f. the (snd f)) (cd_accounts c))"

text \<open>The state is the one the card was initialised with, every file holds a kept account under its name, and the password
  and the ACL file are the rendering of the accounts.\<close>

definition card_ok :: "card_state \<Rightarrow> card \<Rightarrow> bool" where
  "card_ok st c \<longleftrightarrow>
     cd_state c = Some (Some st) \<and> validState st = None \<and>
     list_all (\<lambda>f. \<exists>a. f = (ka_Name a, Some a) \<and> kept st a) (cd_accounts c) \<and>
     (\<exists>h. NL \<notin> set h \<and> cd_passwd c = fst (renderMosquitto st h (accounts_of c)) \<and> cd_acl c = snd (renderMosquitto st h (accounts_of c)))"

lemma validState_name: "validState st = None \<Longrightarrow> ValidName (ks_Tenant st)"
  unfolding validState_def by (drule Validate_log_index) simp

lemma read_accounts_kept:
  "list_all (\<lambda>f. \<exists>a. f = (ka_Name a, Some a) \<and> kept st a) fs \<Longrightarrow>
     read_accounts fs = Inr (map (\<lambda>f. the (snd f)) fs) \<and> list_all (kept st) (map (\<lambda>f. the (snd f)) fs)"
  by (induction fs) auto

lemma recheck_kept: "list_all (kept st) as \<Longrightarrow> recheck st as = None"
  by (induction as) (simp_all add: kept_def)

lemma accounts_kept: "card_ok st c \<Longrightarrow> list_all (kept st) (accounts_of c)"
  using read_accounts_kept[of st "cd_accounts c"] by (auto simp: card_ok_def accounts_of_def list_all_iff)

lemma hash_line: "NL \<notin> set (mosquittoHash pb salt pw)"
proof -
  have "NL \<notin> set b64std \<union> set ''=''" by code_simp
  then have "NL \<notin> set (StdEncoding_EncodeToString bs)" for bs
    using set_b64encode[of b64std "''=''" bs] by (auto simp: StdEncoding_EncodeToString_def)
  moreover have "NL \<notin> set ''$7$''" "NL \<notin> set ''$''" by code_simp+
  ultimately show ?thesis using itoa_line(1)[of 101] by (simp add: mosquittoHash_def)
qed

lemma renderBroker_kept:
  assumes "cd_state c = Some (Some st)" "validState st = None"
    and "list_all (\<lambda>f. \<exists>a. f = (ka_Name a, Some a) \<and> kept st a) (cd_accounts c)"
  shows "fst (renderBroker pb salt st c) = None \<and> card_ok st (snd (renderBroker pb salt st c)) \<and>
    cd_accounts (snd (renderBroker pb salt st c)) = cd_accounts c"
proof -
  note files = read_accounts_kept[OF assms(3)]
  have "loadAccounts c = Inr (accounts_of c)" using files by (simp add: loadAccounts_def accounts_of_def)
  moreover have "recheck st (accounts_of c) = None" using files by (intro recheck_kept) (auto simp: accounts_of_def list_all_iff)
  ultimately have "renderBroker pb salt st c = (None, c\<lparr>cd_passwd := fst (renderMosquitto st (mosquittoHash pb salt (ks_BridgePassword st)) (accounts_of c)),
      cd_acl := snd (renderMosquitto st (mosquittoHash pb salt (ks_BridgePassword st)) (accounts_of c))\<rparr>)"
    by (simp add: renderBroker_def case_prod_beta)
  then show ?thesis using assms hash_line by (auto simp: card_ok_def accounts_of_def)
qed

text \<open>One command; \<^verbatim>\<open>render\<close> is the kit's \<^verbatim>\<open>renderAll\<close> as far as the broker goes.\<close>

datatype kit_command = AddAccount entropy add_request | RemoveAccount entropy string | RenderAgain entropy

definition kit_step :: "pbkdf2 \<Rightarrow> (string \<Rightarrow> string option) \<Rightarrow> kit_command \<Rightarrow> card \<Rightarrow> card" where
  "kit_step pb files cmd c =
     (case cmd of
        AddAccount en q \<Rightarrow> snd (accountAdd pb en files q c)
      | RemoveAccount en name \<Rightarrow> snd (accountRemove pb en name c)
      | RenderAgain en \<Rightarrow> (case loadState c of Inl _ \<Rightarrow> c | Inr st \<Rightarrow> snd (renderBroker pb (en_BridgeSalt en) st c)))"

lemma loadState_ok: "card_ok st c \<Longrightarrow> loadState c = Inr st"
  by (simp add: card_ok_def loadState_def)

lemma accountAdd_ok:
  assumes "card_ok st c"
  shows "card_ok st (snd (accountAdd pb en files q c))"
proof (cases "snd (accountAdd pb en files q c) = c")
  case False
  then obtain a given where a: "newAccount st (ar_Name q) (ar_Device q) (ar_Publish q) (ar_Subscribe q) = Inr a"
      "given_password files q = Inr given"
      "snd (accountAdd pb en files q c) = snd (renderBroker pb (en_BridgeSalt en) st (c\<lparr>cd_accounts := put_account_file (ar_Name q)
        (a\<lparr>ka_PasswordHash := mosquittoHash pb (en_Salt en) (if given = [] then hexEncode (en_Password en) else given)\<rparr>) (cd_accounts c)\<rparr>))"
    by (auto simp: accountAdd_def loadState_ok[OF assms] Let_def split: if_splits sum.splits prod.splits option.splits)
  have "ka_Name a = ar_Name q" using newAccount_Inr(4)[OF a(1)] by simp
  then show ?thesis
    unfolding a(3) using assms newAccount_kept[OF a(1) hash_line] by (intro renderBroker_kept[THEN conjunct2, THEN conjunct1])
      (auto simp: card_ok_def put_account_file_def list_all_iff)
qed (use assms in simp)

text \<open>What passes the checks is added: no account already on the card can make the rendering fail.\<close>

lemma accountAdd_succeeds:
  assumes "card_ok st c" "newAccount st (ar_Name q) (ar_Device q) (ar_Publish q) (ar_Subscribe q) = Inr a"
    and "map_of (cd_accounts c) (ar_Name q) = None" "given_password files q = Inr given" "\<not> HasPrefix (ar_Name q) ''-''"
  shows "fst (accountAdd pb en files q c) = Inr (if given = [] then Some (hexEncode (en_Password en)) else None)"
proof -
  let ?a = "a\<lparr>ka_PasswordHash := mosquittoHash pb (en_Salt en) (if given = [] then hexEncode (en_Password en) else given)\<rparr>"
  let ?c = "c\<lparr>cd_accounts := put_account_file (ar_Name q) ?a (cd_accounts c)\<rparr>"
  have "ka_Name a = ar_Name q" using newAccount_Inr(4)[OF assms(2)] by simp
  then have "fst (renderBroker pb (en_BridgeSalt en) st ?c) = None"
    using assms(1) newAccount_kept[OF assms(2) hash_line] by (intro renderBroker_kept[THEN conjunct1]) (auto simp: card_ok_def put_account_file_def list_all_iff)
  moreover have "ar_Name q \<noteq> []" using newAccount_Inr(1)[OF assms(2)] ValidWorkloadName_no_dot by blast
  ultimately show ?thesis
    using assms(2-5) by (cases "renderBroker pb (en_BridgeSalt en) st ?c") (auto simp: accountAdd_def loadState_ok[OF assms(1)] Let_def)
qed

lemma kit_step_ok: "card_ok st c \<Longrightarrow> card_ok st (kit_step pb files cmd c)"
proof (cases cmd)
  case (RemoveAccount en name)
  assume ok: "card_ok st c"
  show ?thesis
  proof (cases "snd (accountRemove pb en name c) = c")
    case False
    then have "snd (accountRemove pb en name c) =
        snd (renderBroker pb (en_BridgeSalt en) st (c\<lparr>cd_accounts := filter (\<lambda>f. fst f \<noteq> name) (cd_accounts c)\<rparr>))"
      by (auto simp: accountRemove_def loadState_ok[OF ok] split: if_splits)
    moreover have "card_ok st (snd (renderBroker pb (en_BridgeSalt en) st (c\<lparr>cd_accounts := filter (\<lambda>f. fst f \<noteq> name) (cd_accounts c)\<rparr>)))"
      using ok by (intro renderBroker_kept[THEN conjunct2, THEN conjunct1]) (auto simp: card_ok_def list_all_iff)
    ultimately show ?thesis by (simp add: kit_step_def RemoveAccount)
  qed (use ok in \<open>simp add: kit_step_def RemoveAccount\<close>)
next
  case (RenderAgain en)
  assume ok: "card_ok st c"
  then show ?thesis
    using renderBroker_kept[of c st pb "en_BridgeSalt en"] by (auto simp: kit_step_def RenderAgain loadState_ok[OF ok] card_ok_def)
qed (simp add: kit_step_def accountAdd_ok)

text \<open>A card as \<^verbatim>\<open>init\<close> leaves it.\<close>

definition fresh_card :: "pbkdf2 \<Rightarrow> string \<Rightarrow> card_state \<Rightarrow> card" where
  "fresh_card pb salt st = snd (renderBroker pb salt st \<lparr>cd_state = Some (Some st), cd_accounts = [], cd_passwd = [], cd_acl = []\<rparr>)"

interpretation card: state_machine "\<lambda>c. \<exists>salt. validState st = None \<and> c = fresh_card pb salt st"
  "\<lambda>c c'. \<exists>cmd. c' = kit_step pb files cmd c" "card_ok st" for pb st files
  by unfold_locales (auto simp: fresh_card_def kit_step_ok intro!: renderBroker_kept[THEN conjunct2, THEN conjunct1])

section \<open>Passwords\<close>

lemma b64_no_dollar: "CHR ''$'' \<notin> set (StdEncoding_EncodeToString bs)"
proof -
  have "CHR ''$'' \<notin> set b64std \<union> set ''=''" by code_simp
  then show ?thesis using set_b64encode[of b64std "''=''" bs] by (auto simp: StdEncoding_EncodeToString_def)
qed

lemma verify_hash:
  assumes "length (pb pw salt 101 64) = 64"
  shows "mosquittoVerify pb (mosquittoHash pb salt pw) pw' \<longleftrightarrow> pb pw' salt 101 64 = pb pw salt 101 64"
proof -
  let ?A = "StdEncoding_EncodeToString salt" and ?B = "StdEncoding_EncodeToString (pb pw salt 101 64)"
  have "SplitOn CHR ''$'' (mosquittoHash pb salt pw) = [[], ''7'', ''101'', ?A, ?B]"
  proof -
    have "itoa 101 = ''101''" by code_simp
    then have "mosquittoHash pb salt pw = [] @ CHR ''$'' # ''7'' @ CHR ''$'' # ''101'' @ CHR ''$'' # ?A @ CHR ''$'' # ?B"
      by (simp add: mosquittoHash_def)
    then show ?thesis
      using b64_no_dollar[of salt] b64_no_dollar[of "pb pw salt 101 64"] SplitOn_append[of "CHR ''$''" ?A]
      by (simp add: SplitOn_no_sep)
  qed
  moreover have "Atoi ''101'' = Some 101" by code_simp
  moreover have "pb pw salt 101 64 \<noteq> []" using assms by auto
  ultimately show ?thesis by (auto simp: mosquittoVerify_def StdEncoding_roundtrip assms)
qed

lemma kept_confined:
  assumes "kept st a" "ValidName (ks_Tenant st)"
  shows "(\<forall>p \<in> set (ka_Publish a) \<union> set (ka_Subscribe a). \<forall>t. topic_matches p t \<longrightarrow> hd (SplitOn CHR ''/'' t) = ks_Tenant st) \<and>
    (\<forall>t. in_log_space (ks_Tenant st) t \<longrightarrow>
       (\<forall>p \<in> set (ka_Publish a). topic_matches p t \<longrightarrow> ka_Device a \<noteq> [] \<and> t = ks_Tenant st @ ''/'' @ LogLevel @ ''/'' @ ka_Device a) \<and>
       (\<forall>s \<in> set (ka_Subscribe a). topic_matches s t \<longrightarrow> ka_Device a = []))"
proof (intro conjI)
  show "\<forall>p \<in> set (ka_Publish a) \<union> set (ka_Subscribe a). \<forall>t. topic_matches p t \<longrightarrow> hd (SplitOn CHR ''/'' t) = ks_Tenant st"
    using keptD(3)[OF assms] under_prefix_confined[OF assms(2)] by blast
  have "ka_Device a = [] \<or> workloadNameRE (ka_Device a)" using keptD(2)[OF assms] by (auto simp: ValidWorkloadName_def)
  from log_grants_isolate[OF keptD(4)[OF assms] assms(2) this]
  show "\<forall>t. in_log_space (ks_Tenant st) t \<longrightarrow>
       (\<forall>p \<in> set (ka_Publish a). topic_matches p t \<longrightarrow> ka_Device a \<noteq> [] \<and> t = ks_Tenant st @ ''/'' @ LogLevel @ ''/'' @ ka_Device a) \<and>
       (\<forall>s \<in> set (ka_Subscribe a). topic_matches s t \<longrightarrow> ka_Device a = [])"
    by blast
qed

section \<open>Properties of the component\<close>

text \<open>C33. The broker grants what the accounts say and no more. Whatever accounts are added, refused and removed on a
  card, read back line by line the ACL file Mosquitto loads grants the bridge its reading of the log topics and each
  stored account its own patterns, nothing else: no name and no pattern adds a line. Every filter granted lies in the
  tenant's topics, and an account writes to no log topic but its device's own, nor reads one when it is a device's.\<close>

theorem card_grants_exact:
  assumes "validState st = None"
  shows "let c = fold (kit_step pb files) cmds (fresh_card pb salt st) in
    acl_grants (cd_acl c) = bridge_grant # concat (map (grants_of st) (accounts_of c)) \<and>
    (\<forall>a \<in> set (accounts_of c).
       (\<forall>p \<in> set (ka_Publish a) \<union> set (ka_Subscribe a). \<forall>t. topic_matches p t \<longrightarrow> hd (SplitOn CHR ''/'' t) = ks_Tenant st) \<and>
       (\<forall>t. in_log_space (ks_Tenant st) t \<longrightarrow>
          (\<forall>p \<in> set (ka_Publish a). topic_matches p t \<longrightarrow> ka_Device a \<noteq> [] \<and> t = ks_Tenant st @ ''/'' @ LogLevel @ ''/'' @ ka_Device a) \<and>
          (\<forall>s \<in> set (ka_Subscribe a). topic_matches s t \<longrightarrow> ka_Device a = [])))"
proof -
  define c where "c = fold (kit_step pb files) cmds (fresh_card pb salt st)"
  have ok: "card_ok st c"
    unfolding c_def by (rule card.inv_reachable[OF _ fold_steps]) (use assms in blast)
  note tn = validState_name[OF assms]
  have grants: "acl_grants (cd_acl c) = bridge_grant # concat (map (grants_of st) (accounts_of c))"
    using ok rendered_grants[OF accounts_kept[OF ok] tn] by (auto simp: card_ok_def)
  have "kept st a" if "a \<in> set (accounts_of c)" for a
    using accounts_kept[OF ok] that by (simp add: list_all_iff)
  then show ?thesis
    unfolding Let_def c_def[symmetric] using grants kept_confined[OF _ tn] by blast
qed

definition sample_card_state :: card_state where
  "sample_card_state = \<lparr>ks_Tenant = ''pi'', ks_Index = 1, ks_OperatorToken = [], ks_IngestToken = replicate 40 CHR ''i'',
     ks_ReadToken = replicate 40 CHR ''r'', ks_BridgeStoreToken = [], ks_BridgePassword = ''bridge'', ks_GrafanaAdminPassword = [],
     ks_GrafanaSecretKey = [], ks_DashboardPassword = [], ks_DashboardOrg = 0, ks_PKI = []\<rparr>"

definition zero_pbkdf2 :: pbkdf2 where "zero_pbkdf2 pw salt n len = replicate len CHR ''h''"

definition sample_entropy :: entropy where
  "sample_entropy = \<lparr>en_Password = replicate 16 CHR ''e'', en_Salt = ''saltsaltsalt'', en_BridgeSalt = ''SALTSALTSALT''\<rparr>"

definition lamp_request :: add_request where
  "lamp_request = \<lparr>ar_Name = ''lamp'', ar_Device = ''lamp'', ar_Publish = [''log/lamp'', ''lamp/state''], ar_Subscribe = [''lamp/set''],
     ar_Password = ''kept-password'', ar_PasswordFile = []\<rparr>"

lemma sample_card_valid: "validState sample_card_state = None"
  by code_simp

lemma lamp_accepted:
  "(case newAccount sample_card_state (ar_Name lamp_request) (ar_Device lamp_request) (ar_Publish lamp_request) (ar_Subscribe lamp_request) of
      Inr _ \<Rightarrow> True | Inl _ \<Rightarrow> False)"
  by code_simp

theorem card_grants_exact_witness:
  "let c = fold (kit_step zero_pbkdf2 (\<lambda>_. None)) [AddAccount sample_entropy lamp_request] (fresh_card zero_pbkdf2 ''salt'' sample_card_state) in
     acl_grants (cd_acl c) = bridge_grant # concat (map (grants_of sample_card_state) (accounts_of c))"
  using card_grants_exact[OF sample_card_valid, of zero_pbkdf2 "\<lambda>_. None" "[AddAccount sample_entropy lamp_request]" "''salt''"]
  by (simp add: Let_def)

text \<open>The files of a card after an account was put, and who can be it.\<close>

lemma put_account_entry:
  assumes "list_all (\<lambda>f. \<exists>a. f = (ka_Name a, Some a) \<and> kept st a) (cd_accounts c)"
  shows "x \<in> set (accounts_of (c\<lparr>cd_accounts := put_account_file (ka_Name a) a (cd_accounts c)\<rparr>)) \<and> ka_Name x = ka_Name a \<longleftrightarrow> x = a"
  using assms by (auto simp: accounts_of_def put_account_file_def list_all_iff)

text \<open>C34. The password an account was added with is the one the broker accepts and the app is handed. On a card left by any
  commands, after an \<^verbatim>\<open>account add\<close> that succeeds, whether the password was given or drawn, the password file Mosquitto loads, read
  line by line as it documents, lets the account's user in with that password, and with another only when PBKDF2 derives the
  same 64 bytes from it; and \<^verbatim>\<open>export --app\<close> hands the app a login exactly when the broker would take it. That PBKDF2
  returns the 64 bytes it is asked for is assumed.\<close>

theorem app_login_roundtrip:
  assumes "validState st = None"
    and "accountAdd pb en files q (fold (kit_step pb files') cmds (fresh_card pb salt st)) = (Inr printed, c')"
    and "given_password files q = Inr given" "\<And>pw salt. length (pb pw salt 101 64) = 64"
  defines "pw \<equiv> (case printed of Some p \<Rightarrow> p | None \<Rightarrow> given)" and "user \<equiv> kit_username st (ar_Name q)"
  shows "broker_accepts pb (cd_passwd c') user pw \<and>
    (\<forall>pw'. (broker_accepts pb (cd_passwd c') user pw' \<longleftrightarrow> pb pw' (en_Salt en) 101 64 = pb pw (en_Salt en) 101 64) \<and>
       appCredentials pb (ar_Name q) pw' c' =
         (if broker_accepts pb (cd_passwd c') user pw' then Inr \<lparr>ap_User = user, ap_Password = pw'\<rparr> else Inl WrongPassword))"
proof -
  define c where "c = fold (kit_step pb files') cmds (fresh_card pb salt st)"
  have ok: "card_ok st c"
    unfolding c_def by (rule card.inv_reachable[OF _ fold_steps]) (use assms(1) in blast)
  note tn = validState_name[OF assms(1)]
  obtain a0 where a0: "newAccount st (ar_Name q) (ar_Device q) (ar_Publish q) (ar_Subscribe q) = Inr a0"
      "c' = snd (renderBroker pb (en_BridgeSalt en) st (c\<lparr>cd_accounts := put_account_file (ar_Name q)
        (a0\<lparr>ka_PasswordHash := mosquittoHash pb (en_Salt en) pw\<rparr>) (cd_accounts c)\<rparr>))"
    using assms(2) by (auto simp: accountAdd_def loadState_ok[OF ok] c_def[symmetric] assms(3) pw_def Let_def
        split: if_splits sum.splits prod.splits option.splits)
  define a where "a = a0\<lparr>ka_PasswordHash := mosquittoHash pb (en_Salt en) pw\<rparr>"
  define c1 where "c1 = c\<lparr>cd_accounts := put_account_file (ka_Name a) a (cd_accounts c)\<rparr>"
  have a: "ka_Name a = ar_Name q" "ka_PasswordHash a = mosquittoHash pb (en_Salt en) pw" "kept st a"
    using newAccount_Inr(4)[OF a0(1)] newAccount_kept[OF a0(1) hash_line] by (simp_all add: a_def)
  have "ka_Name a0 = ar_Name q" using newAccount_Inr(4)[OF a0(1)] by simp
  then have c': "c' = snd (renderBroker pb (en_BridgeSalt en) st c1)" using a0(2) by (simp add: c1_def a_def)
  have files: "list_all (\<lambda>f. \<exists>a. f = (ka_Name a, Some a) \<and> kept st a) (cd_accounts c1)"
    using ok a(3) by (auto simp: c1_def card_ok_def put_account_file_def list_all_iff)
  then have ok': "card_ok st c'" "cd_accounts c' = cd_accounts c1"
    unfolding c' using ok renderBroker_kept[of c1 st pb "en_BridgeSalt en"] by (auto simp: c1_def card_ok_def)
  then have accts: "accounts_of c' = accounts_of c1" by (simp add: accounts_of_def)
  obtain h where h: "NL \<notin> set h" "cd_passwd c' = fst (renderMosquitto st h (accounts_of c1))"
    using ok'(1) by (auto simp: card_ok_def accts)
  have entries: "passwd_entries (cd_passwd c') = (bridgeUser, h) # map (\<lambda>a. (kit_username st (ka_Name a), ka_PasswordHash a)) (accounts_of c1)"
    unfolding h(2) by (rule rendered_passwd[OF _ tn h(1)]) (use accounts_kept[OF ok'(1)] accts in simp)
  have "user \<noteq> bridgeUser" using username_plain[OF tn newAccount_Inr(1)[OF a0(1)]] by (simp add: user_def)
  moreover have "x \<in> set (accounts_of c1) \<and> kit_username st (ka_Name x) = user \<longleftrightarrow> x = a" for x
    using put_account_entry[of st c x a] ok by (simp add: c1_def card_ok_def kit_username_def user_def a(1))
  ultimately have "(user, k) \<in> set (passwd_entries (cd_passwd c')) \<longleftrightarrow> k = mosquittoHash pb (en_Salt en) pw" for k
    unfolding entries using a(2) by fastforce
  then have accepts: "broker_accepts pb (cd_passwd c') user pw' \<longleftrightarrow> pb pw' (en_Salt en) 101 64 = pb pw (en_Salt en) 101 64" for pw'
    using verify_hash[of pb pw "en_Salt en"] assms(4) by (simp add: broker_accepts_def)
  have "map_of (cd_accounts c') (ar_Name q) = Some (Some a)"
    unfolding ok'(2) c1_def by (auto simp: put_account_file_def map_add_def a(1) dest!: map_of_SomeD split: option.split)
  then have "appCredentials pb (ar_Name q) pw' c' =
      (if pb pw' (en_Salt en) 101 64 = pb pw (en_Salt en) 101 64 then Inr \<lparr>ap_User = user, ap_Password = pw'\<rparr> else Inl WrongPassword)" for pw'
    using verify_hash[of pb pw "en_Salt en"] assms(4) by (simp add: appCredentials_def loadState_ok[OF ok'(1)] a(2) user_def)
  then show ?thesis by (simp add: accepts)
qed

lemma fresh_card_accounts: "validState st = None \<Longrightarrow> cd_accounts (fresh_card pb salt st) = []"
  unfolding fresh_card_def by (subst renderBroker_kept[THEN conjunct2, THEN conjunct2]) simp_all

lemma lamp_added: "fst (accountAdd zero_pbkdf2 sample_entropy (\<lambda>_. None) lamp_request (fresh_card zero_pbkdf2 ''salt'' sample_card_state)) = Inr None"
proof -
  have ok: "card_ok sample_card_state (fresh_card zero_pbkdf2 ''salt'' sample_card_state)" by (rule card.inv_init) (use sample_card_valid in blast)
  obtain a where "newAccount sample_card_state (ar_Name lamp_request) (ar_Device lamp_request) (ar_Publish lamp_request) (ar_Subscribe lamp_request) = Inr a"
    using lamp_accepted by (auto split: sum.splits)
  from accountAdd_succeeds[OF ok this] show ?thesis
    by (simp add: fresh_card_accounts[OF sample_card_valid] given_password_def lamp_request_def HasPrefix_def)
qed

theorem app_login_roundtrip_witness:
  "case accountAdd zero_pbkdf2 sample_entropy (\<lambda>_. None) lamp_request (fresh_card zero_pbkdf2 ''salt'' sample_card_state) of (r, c') \<Rightarrow>
     r = Inr None \<and> broker_accepts zero_pbkdf2 (cd_passwd c') ''pi-lamp'' ''kept-password'' \<and>
     appCredentials zero_pbkdf2 ''lamp'' ''kept-password'' c' = Inr \<lparr>ap_User = ''pi-lamp'', ap_Password = ''kept-password''\<rparr>"
proof -
  let ?c = "fresh_card zero_pbkdf2 ''salt'' sample_card_state"
  obtain c' where c': "accountAdd zero_pbkdf2 sample_entropy (\<lambda>_. None) lamp_request ?c = (Inr None, c')"
    using lamp_added by (cases "accountAdd zero_pbkdf2 sample_entropy (\<lambda>_. None) lamp_request ?c") auto
  then have add: "accountAdd zero_pbkdf2 sample_entropy (\<lambda>_. None) lamp_request
      (fold (kit_step zero_pbkdf2 (\<lambda>_. None)) [] ?c) = (Inr None, c')" by simp
  have "given_password (\<lambda>_. None) lamp_request = Inr ''kept-password''" by (simp add: given_password_def lamp_request_def)
  from app_login_roundtrip[OF sample_card_valid add this]
  have "broker_accepts zero_pbkdf2 (cd_passwd c') ''pi-lamp'' ''kept-password'' \<and>
     appCredentials zero_pbkdf2 ''lamp'' ''kept-password'' c' = Inr \<lparr>ap_User = ''pi-lamp'', ap_Password = ''kept-password''\<rparr>"
    by (simp add: zero_pbkdf2_def lamp_request_def kit_username_def sample_card_state_def)
  then show ?thesis by (simp only: c' prod.case simp_thms)
qed

section \<open>A hand edit\<close>

definition edited_account :: kit_account where
  "edited_account = \<lparr>ka_Name = ''lamp'', ka_Device = [], ka_Publish = [''mqx/log/lamp''], ka_Subscribe = [], ka_PasswordHash = []\<rparr>"

lemma edited_accepted:
  "(case newAccount sample_card_state (ka_Name edited_account) (ka_Device edited_account) (ka_Publish edited_account) (ka_Subscribe edited_account) of
      Inr _ \<Rightarrow> True | Inl _ \<Rightarrow> False)"
  by code_simp

lemma unprefixed_relative: "\<forall>p \<in> set ps. \<not> HasPrefix p (ks_Tenant st @ ''/'') \<Longrightarrow> kit_relative st ps = ps"
  by (simp add: kit_relative_def TrimPrefix_def map_idI)

lemma recheck_passes:
  "\<forall>a \<in> set as. \<exists>b. newAccount st (ka_Name a) (ka_Device a) (kit_relative st (ka_Publish a)) (kit_relative st (ka_Subscribe a)) = Inr b \<Longrightarrow>
     recheck st as = None"
  by (induction as) auto

lemma read_accounts_all: "\<forall>f \<in> set fs. snd f \<noteq> None \<Longrightarrow> read_accounts fs = Inr (map (\<lambda>f. the (snd f)) fs)"
  by (induction fs) (auto split: option.splits)

lemma accepted_lines:
  assumes "newAccount st (ka_Name a) (ka_Device a) (ka_Publish a) (ka_Subscribe a) = Inr b" "ValidName (ks_Tenant st)"
    and "l \<in> set (account_lines st a)"
  shows "NL \<notin> set l"
  using assms(3) newAccount_Inr(3)[OF assms(1)] has_control_NL ValidWorkloadName_lines[OF newAccount_Inr(1)[OF assms(1)]] ValidName_lines[OF assms(2)]
  by (auto simp: account_lines_def kit_username_def user_line_def write_line_def read_line_def NL_def)

text \<open>C38. The check of a stored account is not the check of what is granted. On a card left by any commands, take an account whose file
  was edited by hand so that no pattern begins with the tenant's prefix, and which would be accepted as a new account with
  these patterns: the next rendering succeeds, checking each pattern with the prefix put before it, and the ACL file it writes grants the
  patterns as they are in the file, without the prefix. So a hand edit can let an account publish into another
  tenant's log topic, which the bridge reads.\<close>

theorem hand_edit_escapes:
  assumes "validState st = None"
    and "newAccount st (ka_Name a) (ka_Device a) (ka_Publish a) (ka_Subscribe a) = Inr b"
    and "\<forall>p \<in> set (ka_Publish a @ ka_Subscribe a). \<not> HasPrefix p (ks_Tenant st @ ''/'')"
    and "c = fold (kit_step pb files) cmds (fresh_card pb salt st)"
  shows "\<exists>c'. renderBroker pb salt' st (c\<lparr>cd_accounts := put_account_file (ka_Name a) a (cd_accounts c)\<rparr>) = (None, c') \<and>
    (\<forall>p \<in> set (ka_Publish a). (kit_username st (ka_Name a), True, p) \<in> set (acl_grants (cd_acl c')) \<and>
       \<not> HasPrefix p (ks_Tenant st @ ''/'') \<and> ks_Tenant st @ ''/'' @ p \<in> set (ka_Publish b)) \<and>
    (\<forall>p \<in> set (ka_Subscribe a). (kit_username st (ka_Name a), False, p) \<in> set (acl_grants (cd_acl c')) \<and>
       \<not> HasPrefix p (ks_Tenant st @ ''/'') \<and> ks_Tenant st @ ''/'' @ p \<in> set (ka_Subscribe b))"
proof -
  define c1 where "c1 = c\<lparr>cd_accounts := put_account_file (ka_Name a) a (cd_accounts c)\<rparr>"
  have ok: "card_ok st c"
    unfolding assms(4) by (rule card.inv_reachable[OF _ fold_steps]) (use assms(1) in blast)
  note tn = validState_name[OF assms(1)]
  have files: "\<forall>f \<in> set (cd_accounts c1). \<exists>x. snd f = Some x \<and> (x = a \<or> kept st x)"
    using ok by (auto simp: c1_def card_ok_def put_account_file_def list_all_iff)
  have accts: "x = a \<or> kept st x" if "x \<in> set (accounts_of c1)" for x
    using that files by (fastforce simp: accounts_of_def)
  have load: "loadAccounts c1 = Inr (accounts_of c1)"
    using files by (subst loadAccounts_def, subst read_accounts_all) (auto simp: accounts_of_def)
  have "recheck st (accounts_of c1) = None"
    using accts assms(2,3) by (intro recheck_passes) (fastforce simp: unprefixed_relative kept_def)
  with load obtain h c' where c': "renderBroker pb salt' st c1 = (None, c')" "cd_acl c' = snd (renderMosquitto st h (accounts_of c1))"
    by (auto simp: renderBroker_def case_prod_beta)
  have "\<forall>x \<in> set (accounts_of c1). \<forall>l \<in> set (account_lines st x). NL \<notin> set l"
    using accts accepted_lines[OF assms(2) tn] account_lines_split[OF _ tn] by blast
  then have "acl_grants (cd_acl c') = bridge_grant # concat (map (grants_of st) (accounts_of c1))"
    unfolding c'(2) by (rule rendered_lines)
  moreover have "a \<in> set (accounts_of c1)" by (force simp: c1_def accounts_of_def put_account_file_def)
  ultimately have "set (grants_of st a) \<subseteq> set (acl_grants (cd_acl c'))" by auto
  then show ?thesis
    using c'(1) assms(3) newAccount_Inr(4)[OF assms(2)] unfolding c1_def by (intro exI[of _ c']) (auto simp: grants_of_def)
qed

theorem hand_edit_escapes_witness:
  "let c = fold (kit_step zero_pbkdf2 (\<lambda>_. None)) [AddAccount sample_entropy lamp_request] (fresh_card zero_pbkdf2 ''salt'' sample_card_state);
       (err, c') = renderBroker zero_pbkdf2 ''SALT'' sample_card_state (c\<lparr>cd_accounts := put_account_file ''lamp'' edited_account (cd_accounts c)\<rparr>) in
     err = None \<and> (''pi-lamp'', True, ''mqx/log/lamp'') \<in> set (acl_grants (cd_acl c'))"
proof -
  obtain b where b: "newAccount sample_card_state (ka_Name edited_account) (ka_Device edited_account) (ka_Publish edited_account)
      (ka_Subscribe edited_account) = Inr b"
    using edited_accepted by (auto split: sum.splits)
  have "\<forall>p \<in> set (ka_Publish edited_account @ ka_Subscribe edited_account). \<not> HasPrefix p (ks_Tenant sample_card_state @ ''/'')"
    by (simp add: edited_account_def sample_card_state_def HasPrefix_def)
  from hand_edit_escapes[where pb = zero_pbkdf2 and salt' = "''SALT''" and files = "\<lambda>_. None" and cmds = "[AddAccount sample_entropy lamp_request]"
      and salt = "''salt''", OF sample_card_valid b this refl]
  show ?thesis
    unfolding Let_def by (auto simp: edited_account_def kit_username_def sample_card_state_def simp del: fold.simps split: prod.split)
qed

end
