(* ===== verification/KitSetup.thy ===== *)
theory KitSetup
  imports KitAccounts
begin

text \<open>
  The set-up of a card (\<^verbatim>\<open>kit.go\<close>, \<^verbatim>\<open>firstboot.go\<close>, \<^verbatim>\<open>names.go\<close>, and the hosts file of \<^verbatim>\<open>deevnet.go\<close>): the boot partition's
  settings, the extra names of the server certificate, the host name and Wi-Fi files, and the environment an app is
  handed. A file is its text.
\<close>

section \<open>Lines\<close>

text \<open>\<^verbatim>\<open>bufio.Scanner\<close>: lines without their line feeds, and none for what is after the last one when that is empty. The
  scanner drops one carriage return of a line, and its readers another.\<close>

definition scan_lines :: "string \<Rightarrow> string list" where
  "scan_lines text =
     (let ls = SplitOn NL text in if last ls = [] then butlast ls else ls)"

text \<open>A line of 64 KiB does not fit the scanner's buffer: the scan ends there, with its error.\<close>

definition fits :: "string \<Rightarrow> bool" where "fits l = (length l < 65536)"

definition a_line :: "string \<Rightarrow> string" where "a_line l = TrimSpace (TrimSuffix (TrimSuffix l [CHR 0x0D]) [CHR 0x0D])"

definition skipped :: "string \<Rightarrow> bool" where "skipped line = (line = [] \<or> HasPrefix line ''#'')"

section \<open>Names\<close>

definition host_char :: "char \<Rightarrow> bool" where "host_char c = (c \<in> set (lowers @ digits))"

definition hostnameRE :: "string \<Rightarrow> bool" where
  "hostnameRE s = (s \<noteq> [] \<and> length s \<le> 63 \<and> host_char (hd s) \<and> host_char (last s) \<and> list_all (\<lambda>c. host_char c \<or> c = CHR ''-'') s)"

definition countryRE :: "string \<Rightarrow> bool" where
  "countryRE s = (length s = 2 \<and> list_all (\<lambda>c. c \<in> set uppers) s)"

text \<open>\<^verbatim>\<open>net.ParseIP\<close>, and its \<^verbatim>\<open>String\<close>, which prints an IPv4 address inside IPv6 as the quad.\<close>

definition ParseIP :: "string \<Rightarrow> addr option" where
  "ParseIP s = (case ParseAddr s of None \<Rightarrow> None | Some a \<Rightarrow> if addr_zone a = [] then Some a else None)"

definition ip_String :: "addr \<Rightarrow> string" where
  "ip_String a =
     (case a of Addr6 w z \<Rightarrow> if unat w div 2 ^ 32 = 65535 then quad (word_of_nat (unat w mod 2 ^ 32)) else str6 w
      | _ \<Rightarrow> AddrString a)"

definition checkName :: "string \<Rightarrow> string + string" where
  "checkName s0 =
     (let s = TrimSpace s0 in
      case ParseIP s of Some ip \<Rightarrow> Inr (ip_String ip)
      | None \<Rightarrow>
          (let name = TrimSuffix (map lower s) ''.'' in
           if name = [] \<or> length name > 253 \<or> CHR ''*'' \<in> set name then Inl s
           else if \<not> list_all hostnameRE (SplitOn CHR ''.'' name) then Inl s
           else Inr name))"

fun check_names :: "string list \<Rightarrow> string list \<Rightarrow> string + string list" where
  "check_names out [] = Inr out"
| "check_names out (f # fs) =
     (case checkName f of Inl e \<Rightarrow> Inl e
      | Inr name \<Rightarrow> check_names (if name \<in> set out then out else out @ [name]) fs)"

text \<open>\<^verbatim>\<open>strings.FieldsFunc\<close> at commas, blanks and tabs.\<close>

definition is_sep :: "char \<Rightarrow> bool" where "is_sep c = (c = CHR '','' \<or> c = CHR '' '' \<or> c = CHR 0x09)"

fun fields_loop :: "string \<Rightarrow> string \<Rightarrow> string list" where
  "fields_loop cur [] = (if cur = [] then [] else [cur])"
| "fields_loop cur (c # cs) =
     (if is_sep c then (if cur = [] then fields_loop [] cs else cur # fields_loop [] cs) else fields_loop (cur @ [c]) cs)"

definition parseNames :: "string \<Rightarrow> string + string list" where
  "parseNames txt = check_names [] (fields_loop [] txt)"

datatype names_error = BadName string | ScanError

fun names_loop :: "string list \<Rightarrow> string list \<Rightarrow> names_error + string list" where
  "names_loop out [] = Inr out"
| "names_loop out (l # ls) =
     (if \<not> fits l then Inl ScanError
      else let line = a_line l in
        if skipped line then names_loop out ls
        else case checkName line of Inl e \<Rightarrow> Inl (BadName e)
        | Inr name \<Rightarrow> names_loop (if name \<in> set out then out else out @ [name]) ls)"

definition readNames :: "string option \<Rightarrow> names_error + string list" where
  "readNames file = (case file of None \<Rightarrow> Inr [] | Some text \<Rightarrow> names_loop [] (scan_lines text))"

definition names_header :: "string list" where
  "names_header = [''# Extra names and addresses for this Pi'' @ [CHR 0x27] @ ''s server certificate, one a line.'',
     ''# Edit with `deevnet-kit names`; `deevnet-kit regen-certs` applies them.'']"

definition writeNames :: "string list \<Rightarrow> string" where
  "writeNames names = file_text (names_header @ names)"

text \<open>\<^verbatim>\<open>withNames\<close>: addresses to the addresses, the rest to the DNS names; two spellings of an address are equal.\<close>

definition ip_equal :: "addr \<Rightarrow> addr \<Rightarrow> bool" where "ip_equal a b = (ip_String a = ip_String b)"

fun withNames :: "string list \<Rightarrow> addr list \<Rightarrow> string list \<Rightarrow> string list \<times> addr list" where
  "withNames dns ips [] = (dns, ips)"
| "withNames dns ips (n # ns) =
     (case ParseIP n of
        Some ip \<Rightarrow> withNames dns (if list_ex (ip_equal ip) ips then ips else ips @ [ip]) ns
      | None \<Rightarrow> withNames (if n \<in> set dns then dns else dns @ [n]) ips ns)"

datatype names_command = NamesList | NamesSet | NamesAdd | NamesRemove

text \<open>\<^verbatim>\<open>names\<close>: the file after the command; its result names the error or says what is there now.\<close>

definition cmdNames :: "names_command \<Rightarrow> string list \<Rightarrow> string option \<Rightarrow> (names_error + string list) \<times> string option" where
  "cmdNames cmd args file =
     (case readNames file of Inl e \<Rightarrow> (Inl e, file)
      | Inr cur \<Rightarrow>
          if cmd = NamesList then (Inr cur, file)
          else (case parseNames (Join args '','') of Inl e \<Rightarrow> (Inl (BadName e), file)
            | Inr given \<Rightarrow>
                (let names = (if cmd = NamesSet then given
                     else if cmd = NamesAdd then fold (\<lambda>n ns. if n \<in> set ns then ns else ns @ [n]) given cur
                     else filter (\<lambda>n. n \<notin> set given) cur) in
                 (Inr names, Some (writeNames names)))))"

section \<open>The boot partition's settings\<close>

record boot_settings =
  bc_Tenant :: string
  bc_Index :: int
  bc_Hostname :: string
  bc_WiFiSSID :: string
  bc_WiFiPSK :: string
  bc_WiFiCountry :: string
  bc_Names :: "string list"

datatype boot_error =
    NotKeyValue string | NotIndex string | BadNames string | UnknownKey string | BootScanError
  | BadTenantName string | BadHostname string | LongSSID | BadPSK | NoCountry | PSKWithoutSSID | Unreadable_boot

definition default_boot :: boot_settings where
  "default_boot = \<lparr>bc_Tenant = ''pi'', bc_Index = 1, bc_Hostname = [], bc_WiFiSSID = [], bc_WiFiPSK = [], bc_WiFiCountry = [], bc_Names = []\<rparr>"

definition set_key :: "string \<Rightarrow> string \<Rightarrow> boot_settings \<Rightarrow> boot_error + boot_settings" where
  "set_key key val bc =
     (if key = ''tenant'' then Inr (if val \<noteq> [] then bc\<lparr>bc_Tenant := val\<rparr> else bc)
      else if key = ''index'' then
        (if val = [] then Inr bc else case Atoi val of None \<Rightarrow> Inl (NotIndex val) | Some n \<Rightarrow> Inr (bc\<lparr>bc_Index := n\<rparr>))
      else if key = ''hostname'' then Inr (bc\<lparr>bc_Hostname := map lower val\<rparr>)
      else if key = ''wifi_ssid'' then Inr (bc\<lparr>bc_WiFiSSID := val\<rparr>)
      else if key = ''wifi_psk'' then Inr (bc\<lparr>bc_WiFiPSK := val\<rparr>)
      else if key = ''wifi_country'' then Inr (bc\<lparr>bc_WiFiCountry := map to_upper val\<rparr>)
      else if key = ''names'' then (case parseNames val of Inl e \<Rightarrow> Inl (BadNames e) | Inr ns \<Rightarrow> Inr (bc\<lparr>bc_Names := ns\<rparr>))
      else Inl (UnknownKey key))"

definition boot_line :: "string \<Rightarrow> boot_settings \<Rightarrow> boot_error + boot_settings" where
  "boot_line l bc =
     (let line = a_line l in
      if skipped line then Inr bc
      else case Cut CHR ''='' line of None \<Rightarrow> Inl (NotKeyValue line)
      | Some (key, val) \<Rightarrow> set_key (TrimSpace key) (TrimSpace val) bc)"

fun boot_lines :: "string list \<Rightarrow> boot_settings \<Rightarrow> boot_error + boot_settings" where
  "boot_lines [] bc = Inr bc"
| "boot_lines (l # ls) bc =
     (if \<not> fits l then Inl BootScanError
      else case boot_line l bc of Inl e \<Rightarrow> Inl e | Inr bc' \<Rightarrow> boot_lines ls bc')"

definition check_boot :: "boot_settings \<Rightarrow> boot_error option" where
  "check_boot bc =
     (if \<not> ValidName (bc_Tenant bc) then Some (BadTenantName (bc_Tenant bc))
      else if bc_Hostname bc \<noteq> [] \<and> \<not> hostnameRE (bc_Hostname bc) then Some (BadHostname (bc_Hostname bc))
      else if bc_WiFiSSID bc \<noteq> [] \<and> bc_WiFiPSK bc \<noteq> [] then
        (if length (bc_WiFiSSID bc) > 32 then Some LongSSID
         else if length (bc_WiFiPSK bc) < 8 \<or> length (bc_WiFiPSK bc) > 63 then Some BadPSK
         else if \<not> countryRE (bc_WiFiCountry bc) then Some NoCountry
         else None)
      else if bc_WiFiSSID bc = [] \<and> bc_WiFiPSK bc \<noteq> [] then Some PSKWithoutSSID
      else None)"

definition readBootConfig :: "string option \<Rightarrow> boot_error + boot_settings" where
  "readBootConfig file =
     (case file of None \<Rightarrow> Inr default_boot
      | Some text \<Rightarrow>
          (case boot_lines (scan_lines text) default_boot of Inl e \<Rightarrow> Inl e
           | Inr bc \<Rightarrow> (case check_boot bc of Some e \<Rightarrow> Inl e | None \<Rightarrow> Inr bc)))"

section \<open>The host name and Wi-Fi\<close>

definition re_space :: "char \<Rightarrow> bool" where
  "re_space c = (c = CHR '' '' \<or> c = CHR 0x09 \<or> c = NL \<or> c = CHR 0x0C \<or> c = CHR 0x0D)"

definition rest_of_line :: "string \<Rightarrow> string" where "rest_of_line s = dropWhile (\<lambda>c. c \<noteq> NL) s"

text \<open>
  \<^verbatim>\<open>ReplaceAll\<close> of a pattern that begins at the start of a line: \<open>m s\<close> is the replacement of the match at \<open>s\<close> and what
  follows the match, which is shorter. \<open>bol\<close> says whether a line starts here.
\<close>

function replace_lines :: "(string \<Rightarrow> (string \<times> string) option) \<Rightarrow> bool \<Rightarrow> string \<Rightarrow> string" where
  "replace_lines m bol [] = []"
| "replace_lines m bol (c # cs) =
     (case (if bol then m (c # cs) else None) of
        Some (new, rest) \<Rightarrow> if length rest \<le> length cs then new @ replace_lines m False rest else c # cs
      | None \<Rightarrow> c # replace_lines m (c = NL) cs)"
  by pat_completeness auto
termination by (relation "measure (\<lambda>(m, bol, s). length s)") auto

text \<open>\<^verbatim>\<open>(?m)^127\.0\.1\.1\s.*$\<close>\<close>

definition match_loopback :: "string \<Rightarrow> string \<Rightarrow> (string \<times> string) option" where
  "match_loopback line s =
     (case drop 9 s of c # cs \<Rightarrow> if HasPrefix s ''127.0.1.1'' \<and> re_space c then Some (line, rest_of_line cs) else None | [] \<Rightarrow> None)"

fun has_match :: "(string \<Rightarrow> (string \<times> string) option) \<Rightarrow> bool \<Rightarrow> string \<Rightarrow> bool" where
  "has_match m bol [] = False"
| "has_match m bol (c # cs) = (bol \<and> m (c # cs) \<noteq> None \<or> has_match m (c = NL) cs)"

definition loopback_hosts :: "string \<Rightarrow> string \<Rightarrow> string" where
  "loopback_hosts name hosts =
     (let line = ''127.0.1.1'' @ [CHR 0x09] @ name in
      if has_match (match_loopback line) True hosts then replace_lines (match_loopback line) True hosts else hosts @ line @ [NL])"

text \<open>\<^verbatim>\<open>(?m)^(\s*wifi_psk\s*=).*$\<close>, the white space reaching over line ends as it does in the pattern.\<close>

definition psk_note :: string where "psk_note = ''# wifi_psk was applied on first boot and removed from this file.'' @ [NL]"

definition match_psk :: "string \<Rightarrow> (string \<times> string) option" where
  "match_psk s =
     (let s1 = dropWhile re_space s; s2 = dropWhile re_space (drop 8 s1) in
      if HasPrefix s1 ''wifi_psk'' \<and> HasPrefix s2 ''=''
      then Some (psk_note @ take (length s + 1 - length s2) s, rest_of_line (tl s2))
      else None)"

definition scrubPSK :: "string \<Rightarrow> string" where
  "scrubPSK text = replace_lines match_psk True text"

section \<open>The hosts file of a Deevnet Pi\<close>

definition hostsBegin :: string where "hostsBegin = ''# BEGIN deevnet-kit''"
definition hostsEnd :: string where "hostsEnd = ''# END deevnet-kit''"

fun hosts_keep :: "bool \<Rightarrow> string list \<Rightarrow> string list" where
  "hosts_keep skip [] = []"
| "hosts_keep skip (l # ls) =
     (if l = hostsBegin then hosts_keep True ls
      else if l = hostsEnd then hosts_keep False ls
      else if \<not> skip \<and> l \<noteq> [] then l # hosts_keep skip ls
      else hosts_keep skip ls)"

definition rootDomain :: string where "rootDomain = ''deevnet.net''"
definition kitServices :: "string list" where "kitServices = [''mqtt'', ''logs'', ''grafana'']"
definition pkiDeevnet :: string where "pkiDeevnet = ''deevnet''"

definition on_deevnet :: "card_state \<Rightarrow> bool" where "on_deevnet st = (ks_PKI st = pkiDeevnet)"

definition service_name :: "card_state \<Rightarrow> string \<Rightarrow> string" where
  "service_name st svc = (if on_deevnet st then svc @ ''.'' @ ks_Tenant st @ ''.'' @ rootDomain else ''localhost'')"

definition appHost :: "card_state \<Rightarrow> string \<Rightarrow> string \<Rightarrow> string" where
  "appHost st svc mdns = (if on_deevnet st then service_name st svc else mdns)"

definition caExportName :: "card_state \<Rightarrow> string" where
  "caExportName st = (if on_deevnet st then ''deevnet-root-ca.pem'' else ''deevnet-kit-ca.pem'')"

definition TrimRightNL :: "string \<Rightarrow> string" where
  "TrimRightNL s = rev (dropWhile (\<lambda>c. c = NL) (rev s))"

definition writeHosts :: "card_state \<Rightarrow> string option \<Rightarrow> string" where
  "writeHosts st old =
     (let text = (case old of None \<Rightarrow> [] | Some t \<Rightarrow> t);
          keep = hosts_keep False (SplitOn NL (TrimRightNL text)) in
      Join (keep @ [hostsBegin, ''127.0.0.1 '' @ Join (map (service_name st) kitServices) '' '', hostsEnd]) [NL] @ [NL])"

section \<open>The hosts file keeps what is not the kit's\<close>

lemma hosts_keep_own: "l \<in> set (hosts_keep skip ls) \<Longrightarrow> l \<in> set ls \<and> l \<noteq> hostsBegin \<and> l \<noteq> hostsEnd \<and> l \<noteq> []"
  by (induction skip ls rule: hosts_keep.induct) (auto split: if_splits)

lemma hosts_keep_again:
  "\<forall>l \<in> set ls. l \<noteq> hostsBegin \<and> l \<noteq> hostsEnd \<and> l \<noteq> [] \<Longrightarrow> m \<noteq> hostsEnd \<Longrightarrow>
     hosts_keep False (ls @ [hostsBegin, m, hostsEnd]) = ls"
  by (induction ls) (auto simp: hostsBegin_def hostsEnd_def)

lemma TrimRightNL_line: "last l \<noteq> NL \<Longrightarrow> l \<noteq> [] \<Longrightarrow> TrimRightNL (t @ l @ [NL]) = t @ l"
  by (cases l rule: rev_cases) (simp_all add: TrimRightNL_def)

lemma Join_snoc: "ls \<noteq> [] \<Longrightarrow> Join (ls @ [l]) sep = Join ls sep @ sep @ l"
proof (induction ls)
  case (Cons a ls)
  then show ?case by (cases ls) (simp_all add: Join_Cons)
qed simp

definition hosts_lines :: "string \<Rightarrow> string list" where
  "hosts_lines text = hosts_keep False (SplitOn NL (TrimRightNL text))"

lemma service_name_lines: "ValidName (ks_Tenant st) \<Longrightarrow> NL \<notin> set (Join (map (service_name st) kitServices) '' '')"
  using ValidName_lines[of "ks_Tenant st"] by (simp add: kitServices_def service_name_def rootDomain_def NL_def)

lemma writeHosts_lines:
  assumes "ValidName (ks_Tenant st)"
  shows "SplitOn NL (TrimRightNL (writeHosts st old)) =
    hosts_lines (case old of None \<Rightarrow> [] | Some t \<Rightarrow> t) @ [hostsBegin, ''127.0.0.1 '' @ Join (map (service_name st) kitServices) '' '', hostsEnd]"
    (is "_ = ?keep @ ?block")
proof -
  have "\<forall>l \<in> set ?keep. NL \<notin> set l" unfolding hosts_lines_def using hosts_keep_own SplitOn_parts by blast
  moreover have "\<forall>l \<in> set ?block. NL \<notin> set l" using service_name_lines[OF assms] by (auto simp: hostsBegin_def hostsEnd_def NL_def)
  ultimately have "SplitOn NL (Join (?keep @ ?block) [NL]) = ?keep @ ?block" by (simp add: SplitOn_eq_iff ball_Un)
  moreover have "TrimRightNL (writeHosts st old) = Join (?keep @ ?block) [NL]"
  proof -
    have "Join (?keep @ ?block) [NL] = Join (?keep @ butlast ?block) [NL] @ [NL] @ hostsEnd"
      using Join_snoc[of "?keep @ butlast ?block" hostsEnd "[NL]"] by simp
    then show ?thesis
      using TrimRightNL_line[of hostsEnd "Join (?keep @ butlast ?block) [NL] @ [NL]"]
      by (simp add: writeHosts_def Let_def hosts_lines_def hostsEnd_def NL_def)
  qed
  ultimately show ?thesis by simp
qed

text \<open>The hosts file: writing the kit's block keeps every line that is not the kit's, in order, and writing it again
  changes nothing; so an install that is repeated, or one for another name, leaves one block.\<close>

lemma hosts_block_replaced:
  assumes "ValidName (ks_Tenant st)"
  shows "hosts_lines (writeHosts st old) = hosts_lines (case old of None \<Rightarrow> [] | Some t \<Rightarrow> t) \<and>
    writeHosts st (Some (writeHosts st old)) = writeHosts st old"
proof -
  have "hosts_lines (writeHosts st old) = hosts_lines (case old of None \<Rightarrow> [] | Some t \<Rightarrow> t)"
    unfolding hosts_lines_def[of "writeHosts st old"] writeHosts_lines[OF assms]
    by (rule hosts_keep_again) (use hosts_keep_own in \<open>fastforce simp: hosts_lines_def\<close>, simp add: hostsEnd_def)
  then show ?thesis by (simp add: writeHosts_def Let_def hosts_lines_def)
qed

text \<open>Not everything outside the block stays: blank lines go, and after a block that lost its end so does the rest of the file.\<close>

lemma hosts_rest_lost:
  "writeHosts sample_card_state (Some (''10.0.0.9 nas'' @ [NL, NL] @ hostsBegin @ [NL] @ ''10.0.0.7 cam'')) =
     writeHosts sample_card_state (Some ''10.0.0.9 nas'')"
proof -
  have "hosts_lines (''10.0.0.9 nas'' @ [NL, NL] @ hostsBegin @ [NL] @ ''10.0.0.7 cam'') = hosts_lines ''10.0.0.9 nas''" by code_simp
  then show ?thesis by (simp add: writeHosts_def Let_def hosts_lines_def)
qed

section \<open>The names file\<close>

lemma lower_idem [simp]: "lower (lower c) = lower c"
proof -
  have "\<forall>c \<in> set uppers. lower c \<notin> set uppers" by code_simp
  then show ?thesis by (cases "c \<in> set uppers") (auto simp: lower_def)
qed

text \<open>\<^verbatim>\<open>net.ParseIP\<close> reads no IPv4 address but in the form it prints.\<close>

lemma dec_undec:
  "s \<noteq> [] \<Longrightarrow> set s \<subseteq> set digits \<Longrightarrow> length s = 1 \<or> hd s \<noteq> CHR ''0'' \<Longrightarrow> dec (undec s) = s \<and> (hd s \<noteq> CHR ''0'' \<longrightarrow> 1 \<le> undec s)"
proof (induction s rule: rev_induct)
  case (snoc d t)
  have d: "digits ! digit_index d digits = d" "digit_index d digits < 10" "d \<noteq> CHR ''0'' \<Longrightarrow> 1 \<le> digit_index d digits"
    using snoc.prems(2) by (auto simp: digits_def)
  show ?case
  proof (cases t)
    case Nil
    then show ?thesis using d by (simp add: undec_def dec_small)
  next
    case (Cons c cs)
    then have t: "dec (undec t) = t" "1 \<le> undec t" using snoc by auto
    have "undec (t @ [d]) = 10 * undec t + digit_index d digits" by (simp add: undec_def)
    then show ?thesis using t d by (subst dec.simps) auto
  qed
qed simp

lemma parse_octet_text: "parse_octet s = Some n \<Longrightarrow> dec n = s \<and> n < 256"
  using dec_undec[of s] by (cases s) (auto simp: parse_octet_def split: if_splits)

lemma octets_word:
  assumes "a < 256" "b < 256" "c < 256" "d < 256" "w = word_of_nat (((a * 256 + b) * 256 + c) * 256 + d)"
  shows "quad w = dec a @ ''.'' @ dec b @ ''.'' @ dec c @ ''.'' @ dec d"
proof -
  have small: "m < 2 ^ 32 \<Longrightarrow> unat (word_of_nat m :: 32 word) = m" for m by (simp add: unat_of_nat take_bit_eq_mod)
  have w: "unat w = ((a * 256 + b) * 256 + c) * 256 + d" unfolding assms(5) by (rule small) (use assms(1-4) in simp)
  have digit: "x = x' \<and> y = y'" if "x * 256 + y = x' * 256 + y'" "y < 256" "y' < 256" for x y x' y' :: nat
  proof -
    have "(x * 256 + y) div 256 = x" "(x' * 256 + y') div 256 = x'" using that by simp_all
    then show ?thesis using that(1) by simp
  qed
  note eq = quad_value[of w, unfolded w]
  note d3 = digit[OF eq octet_less assms(4)]
  note d2 = digit[OF d3[THEN conjunct1] octet_less assms(3)]
  have "octet w 0 = a" "octet w 1 = b" "octet w 2 = c" "octet w 3 = d"
    using d3 d2 digit[OF d2[THEN conjunct1] octet_less assms(2)] by blast+
  then show ?thesis by (simp add: quad_eq)
qed

lemma parse_quad_text:
  assumes "parse_quad s = Some n" shows "quad (word_of_nat n) = s"
proof -
  obtain a b c d where parts: "map parse_octet (SplitOn CHR ''.'' s) = [Some a, Some b, Some c, Some d]"
      and n: "n = ((a * 256 + b) * 256 + c) * 256 + d"
    using assms by (auto simp: parse_quad_def split: list.splits option.splits)
  from parts obtain sa sb sc sd where fields: "SplitOn CHR ''.'' s = [sa, sb, sc, sd]"
      and os: "parse_octet sa = Some a" "parse_octet sb = Some b" "parse_octet sc = Some c" "parse_octet sd = Some d"
    by (auto simp: map_eq_Cons_conv)
  have "s = sa @ ''.'' @ sb @ ''.'' @ sc @ ''.'' @ sd" using fields by (simp add: SplitOn_eq_iff)
  then show ?thesis
    using octets_word[of a b c d "word_of_nat n"] os[THEN parse_octet_text] n by simp
qed

lemma ParseIP_text: "CHR '':'' \<notin> set s \<Longrightarrow> ParseIP s = Some ip \<Longrightarrow> ip_String ip = s \<and> (\<exists>w. s = quad w)"
proof -
  assume colon: "CHR '':'' \<notin> set s" and ip: "ParseIP s = Some ip"
  obtain v where v: "parse_quad s = Some v" "ip = Addr4 (word_of_nat v)"
  proof (cases "dropWhile (\<lambda>c. c \<noteq> CHR ''.'' \<and> c \<noteq> CHR '':'' \<and> c \<noteq> CHR ''%'') s")
    case (Cons c t)
    then have "c \<noteq> CHR '':''" using colon by (metis list.set_intros(1) set_dropWhileD)
    then show ?thesis using Cons ip that by (auto simp: ParseIP_def ParseAddr_def split: option.splits if_splits)
  next
    case Nil
    then show ?thesis using ip by (simp add: ParseIP_def ParseAddr_def del: dropWhile_eq_Nil_conv)
  qed
  then have s: "s = quad (word_of_nat v)" using parse_quad_text by simp
  then show ?thesis using v(2) by (auto simp: ip_String_def AddrString_def)
qed

definition name_text :: "string \<Rightarrow> bool" where
  "name_text n = (n \<noteq> [] \<and> set n \<subseteq> set (lowers @ digits @ ''-.'') \<and> length n \<le> 253)"

lemma name_text_quad: "name_text (quad w)"
proof -
  have step: "length (dec n) = (if n < 10 then 1 else Suc (length (dec (n div 10))))" for n by (subst dec.simps) simp
  have "n < 256 \<Longrightarrow> length (dec n) \<le> 3" for n by (simp add: step[of n] step[of "n div 10"] step[of "n div 10 div 10"] del: dec.simps)
  then have "length (dec (octet w i)) \<le> 3" for i by simp
  from this[of 0] this[of 1] this[of 2] this[of 3] have "length (quad w) \<le> 253" by (simp add: quad_eq)
  moreover have "set (quad w) \<subseteq> set digits \<union> {CHR ''.''}" using set_dec by (auto simp: quad_eq)
  then have "set (quad w) \<subseteq> set (lowers @ digits @ ''-.'')" unfolding set_append by (simp only: list.set) blast
  moreover have "quad w \<noteq> []" by (simp add: quad_eq)
  ultimately show ?thesis unfolding name_text_def by blast
qed

definition plain_char :: "char \<Rightarrow> bool" where
  "plain_char c = (\<not> is_space c \<and> lower c = c \<and> c \<noteq> CHR '':'' \<and> c \<noteq> CHR ''*'' \<and> c \<noteq> CHR ''#'' \<and> c \<noteq> NL \<and> c \<noteq> CHR 0x0D)"

lemma name_chars_plain: "\<forall>c \<in> set (lowers @ digits @ ''-.''). plain_char c"
  by code_simp

lemma name_text_facts:
  assumes "name_text n"
  shows "TrimSpace n = n" "map lower n = n" "CHR '':'' \<notin> set n" "CHR ''*'' \<notin> set n" "NL \<notin> set n" "fits n" "a_line n = n" "\<not> skipped n"
proof -
  have n: "\<forall>c \<in> set n. plain_char c" using assms name_chars_plain unfolding name_text_def by blast
  show trim: "TrimSpace n = n" using n by (intro TrimSpace_id) (simp add: plain_char_def)
  show "map lower n = n" using n by (simp add: map_idI plain_char_def)
  show "CHR '':'' \<notin> set n" "CHR ''*'' \<notin> set n" "NL \<notin> set n" using n by (auto simp: plain_char_def)
  show "fits n" using assms by (simp add: fits_def name_text_def)
  have "CHR 0x0D \<notin> set n" using n by (auto simp: plain_char_def)
  then have "TrimSuffix n [CHR 0x0D] = n" by (auto simp: TrimSuffix_def HasSuffix_iff)
  then show "a_line n = n" using trim by (simp add: a_line_def)
  show "\<not> skipped n" using n assms by (cases n) (simp_all add: skipped_def name_text_def plain_char_def HasPrefix_iff)
qed

lemma hostnameRE_text: "hostnameRE l \<Longrightarrow> l \<noteq> [] \<and> set l \<subseteq> set (lowers @ digits @ ''-'')"
  by (auto simp: hostnameRE_def host_char_def list_all_iff)

lemma set_Join_char: "set (Join xs [c]) \<subseteq> \<Union> (set ` set xs) \<union> {c}"
  by (induction xs "[c]" rule: Join.induct) auto

lemma SplitOn_snoc: "SplitOn c (t @ [c]) = SplitOn c t @ [[]]"
proof (induction t)
  case (Cons x t)
  then show ?case by (cases "SplitOn c t") auto
qed simp

lemma labels_text:
  assumes "list_all hostnameRE (SplitOn CHR ''.'' n)"
  shows "n \<noteq> []" "set n \<subseteq> set (lowers @ digits @ ''-.'')" "TrimSuffix n ''.'' = n"
proof -
  let ?labels = "SplitOn CHR ''.'' n"
  have labels: "\<forall>l \<in> set ?labels. l \<noteq> [] \<and> set l \<subseteq> set (lowers @ digits @ ''-'')"
    using assms hostnameRE_text by (simp add: list_all_iff)
  then show "n \<noteq> []" by auto
  have "set (Join ?labels ''.'') \<subseteq> \<Union> (set ` set ?labels) \<union> {CHR ''.''}" by (rule set_Join_char)
  then show "set n \<subseteq> set (lowers @ digits @ ''-.'')" using labels unfolding Join_SplitOn by fastforce
  have "\<not> HasSuffix n ''.''"
  proof
    assume "HasSuffix n ''.''"
    then obtain t where "n = t @ ''.''" by (auto simp: HasSuffix_iff)
    then have "[] \<in> set ?labels" by (simp add: SplitOn_snoc)
    then show False using labels by blast
  qed
  then show "TrimSuffix n ''.'' = n" by (simp add: TrimSuffix_def)
qed

lemma checkName_text:
  assumes "checkName f = Inr n" "CHR '':'' \<notin> set f"
  shows "name_text n \<and> checkName n = Inr n"
proof -
  have colon: "CHR '':'' \<notin> set (TrimSpace f)" using assms(2) by (auto simp: TrimSpace_def dest!: set_dropWhileD)
  show ?thesis
  proof (cases "ParseIP (TrimSpace f)")
    case (Some ip)
    then have n: "n = TrimSpace f" "\<exists>w. n = quad w" using assms(1) ParseIP_text[OF colon Some] by (auto simp: checkName_def)
    then have nt: "name_text n" using name_text_quad by auto
    then show ?thesis using Some n(1) ParseIP_text[OF colon Some] name_text_facts(1)[OF nt] by (simp add: checkName_def)
  next
    case None
    let ?name = "TrimSuffix (map lower (TrimSpace f)) ''.''"
    have n: "n = ?name" "n \<noteq> []" "length n \<le> 253" "CHR ''*'' \<notin> set n" "list_all hostnameRE (SplitOn CHR ''.'' n)"
      using assms(1) None by (auto simp: checkName_def Let_def split: if_splits)
    have nt: "name_text n" using labels_text[OF n(5)] n(3) by (simp add: name_text_def)
    note facts = name_text_facts[OF nt]
    have "checkName n = Inr n"
      using n(2-5) facts(1,2) labels_text(3)[OF n(5)] ParseIP_text[OF facts(3)]
      by (auto simp: checkName_def Let_def split: option.split)
    then show ?thesis using nt by blast
  qed
qed

lemma fields_loop_chars: "f \<in> set (fields_loop cur given) \<Longrightarrow> set f \<subseteq> set cur \<union> set given"
proof (induction cur given arbitrary: f rule: fields_loop.induct)
  case (2 cur c cs)
  then show ?case by (cases "is_sep c"; cases "cur = []") fastforce+
qed (simp split: if_splits)

definition settled :: "string \<Rightarrow> bool" where
  "settled n = (name_text n \<and> checkName n = Inr n)"

lemma check_names_text:
  "check_names out fs = Inr ns \<Longrightarrow> \<forall>f \<in> set fs. CHR '':'' \<notin> set f \<Longrightarrow> distinct out \<Longrightarrow> list_all settled out \<Longrightarrow>
     distinct ns \<and> list_all settled ns"
proof (induction fs arbitrary: out)
  case (Cons f fs)
  obtain n where n: "checkName f = Inr n" using Cons.prems(1) by (cases "checkName f") simp_all
  let ?out = "if n \<in> set out then out else out @ [n]"
  have "check_names ?out fs = Inr ns" using Cons.prems(1) n by simp
  moreover have "settled n" unfolding settled_def by (rule checkName_text[OF n]) (use Cons.prems(2) in simp)
  then have "distinct ?out" "list_all settled ?out" using Cons.prems(3,4) by simp_all
  ultimately show ?case using Cons.IH Cons.prems(2) by simp
qed simp

lemma scan_lines_file_text: "\<forall>l \<in> set ls. NL \<notin> set l \<Longrightarrow> scan_lines (file_text ls) = ls"
proof -
  have "\<forall>l \<in> set ls. NL \<notin> set l \<Longrightarrow> SplitOn NL (file_text ls) = ls @ [[]]"
    by (induction ls) (simp_all add: file_text_def SplitOn_append)
  then show "\<forall>l \<in> set ls. NL \<notin> set l \<Longrightarrow> ?thesis" by (simp add: scan_lines_def)
qed

lemma names_loop_text:
  "list_all settled ns \<Longrightarrow> distinct (out @ ns) \<Longrightarrow> names_loop out ns = Inr (out @ ns)"
proof (induction ns arbitrary: out)
  case (Cons n ns)
  have facts: "fits n" "a_line n = n" "\<not> skipped n" "checkName n = Inr n" "n \<notin> set out"
    using Cons.prems name_text_facts[of n] by (simp_all add: settled_def)
  have "names_loop (out @ [n]) ns = Inr ((out @ [n]) @ ns)" by (rule Cons.IH) (use Cons.prems in auto)
  then show ?case using facts by simp
qed simp

lemma names_header_skipped: "names_loop [] (names_header @ ns) = names_loop [] ns"
proof -
  have "fits l \<and> skipped (a_line l)" if "l \<in> set names_header" for l
    using that by (auto simp: names_header_def fits_def skipped_def a_line_def TrimSuffix_def HasSuffix_def TrimSpace_def is_space_def HasPrefix_def)
  then show ?thesis by (simp add: names_header_def)
qed

text \<open>The list the owner gave, on the boot partition or to the command, is the list the next certificate is issued for, each
  name once, as long as it holds no IPv6 address.\<close>

lemma names_reread:
  assumes "parseNames given = Inr ns" "CHR '':'' \<notin> set given"
  shows "readNames (Some (writeNames ns)) = Inr ns" "distinct ns"
proof -
  have "\<forall>f \<in> set (fields_loop [] given). CHR '':'' \<notin> set f" using assms(2) fields_loop_chars[of _ "[]" given] by auto
  from check_names_text[OF assms(1)[unfolded parseNames_def] this]
  have ns: "distinct ns" "list_all settled ns" by simp_all
  have "\<forall>l \<in> set ns. NL \<notin> set l" using ns(2) name_text_facts(5) by (simp add: list_all_iff settled_def)
  moreover have "\<forall>l \<in> set names_header. NL \<notin> set l" by code_simp
  ultimately have "\<forall>l \<in> set (names_header @ ns). NL \<notin> set l" by auto
  then have "scan_lines (file_text (names_header @ ns)) = names_header @ ns" using scan_lines_file_text by blast
  then show "readNames (Some (writeNames ns)) = Inr ns"
    using ns names_loop_text[of ns "[]"] names_header_skipped by (simp add: readNames_def writeNames_def)
  show "distinct ns" by (rule ns(1))
qed

end
