(* ===== verification/KitTrust.thy ===== *)
theory KitTrust
  imports KitSetup
begin

text \<open>
  Whom a card trusts (\<^verbatim>\<open>tls.go\<close>, \<^verbatim>\<open>deevnet.go\<close>, and the environment texts of \<^verbatim>\<open>kit.go\<close> and \<^verbatim>\<open>dashboards.go\<close>): the server
  certificate of its own CA, the one a Tenant Service CA signed, and what an app and the card's services are told.
  X.509 and PEM are a parameter. A certificate install is a sequence of writes, any of which may be the last.
\<close>

section \<open>Certificates\<close>

record srv_template =
  tm_CommonName :: string
  tm_DNSNames :: "string list"
  tm_IPAddresses :: "addr list"

text \<open>
  \<^verbatim>\<open>encoding/pem\<close> and \<^verbatim>\<open>crypto/x509\<close>, over certificates \<open>'c\<close> and ECDSA keys \<open>'k\<close>. A decoded block is its type, its bytes
  and what follows it; a key of PKCS 8 that is not ECDSA is \<open>None\<close> inside.
\<close>

record ('c, 'k) x509 =
  xl_decode :: "string \<Rightarrow> (string \<times> string \<times> string) option"
  xl_encode :: "string \<Rightarrow> string \<Rightarrow> string"
  xl_certificate :: "string \<Rightarrow> 'c option"
  xl_sec1 :: "string \<Rightarrow> 'k option"
  xl_pkcs8 :: "string \<Rightarrow> 'k option option"
  xl_marshal :: "'k \<Rightarrow> string"
  xl_is_ca :: "'c \<Rightarrow> bool"
  xl_is_for :: "'c \<Rightarrow> 'k \<Rightarrow> bool"
  xl_addresses :: "'c \<Rightarrow> addr list"
  xl_verify :: "'c \<Rightarrow> 'c list \<Rightarrow> 'c list \<Rightarrow> string \<Rightarrow> bool"
  xl_issue :: "'c \<Rightarrow> 'k \<Rightarrow> srv_template \<Rightarrow> 'k \<Rightarrow> string"
  xl_request :: "srv_template \<Rightarrow> 'k \<Rightarrow> string"

datatype kit_file = CAFile | CAKeyFile | CardCAFile | ServerFile | ServerKeyFile | RequestKeyFile | RequestFile | HostsFile | BridgeEnvFile | NamesFile

record kit_disk =
  dk_file :: "kit_file \<Rightarrow> string option"
  dk_state :: "card_state option option"

datatype tls_error =
    TLSState kit_error | Unreadable kit_file | HoldsOther string | BadCertificate | NoCertificate | NotOneRoot
  | NoRequest | KeyNotPEM | BadKey | NotECDSA | NotRequestKey | NotVerified "string list" | NoPEMBlock | DeevnetPi
  | TLSNames names_error | WriteFailed

definition write_disk :: "kit_file \<Rightarrow> string \<Rightarrow> kit_disk \<Rightarrow> kit_disk" where
  "write_disk f text d = d\<lparr>dk_file := (dk_file d)(f \<mapsto> text)\<rparr>"

definition remove_disk :: "kit_file \<Rightarrow> kit_disk \<Rightarrow> kit_disk" where
  "remove_disk f d = d\<lparr>dk_file := (dk_file d)(f := None)\<rparr>"

definition disk_loadState :: "kit_disk \<Rightarrow> tls_error + card_state" where
  "disk_loadState d =
     (case dk_state d of None \<Rightarrow> Inl (TLSState NotInitialised)
      | Some None \<Rightarrow> Inl (TLSState BadState)
      | Some (Some st) \<Rightarrow> (case validState st of Some e \<Rightarrow> Inl (TLSState (InvalidState e)) | None \<Rightarrow> Inr st))"

text \<open>The rest of a decoded PEM text is shorter, so the length of the text is fuel enough.\<close>

fun parse_blocks :: "('c, 'k) x509 \<Rightarrow> nat \<Rightarrow> string \<Rightarrow> 'c list \<Rightarrow> tls_error + 'c list" where
  "parse_blocks L 0 inp out = Inl BadCertificate"
| "parse_blocks L (Suc n) inp out =
     (case xl_decode L inp of
        None \<Rightarrow> if out = [] then Inl NoCertificate else Inr out
      | Some (typ, bytes, rest) \<Rightarrow>
          if typ \<noteq> ''CERTIFICATE'' then Inl (HoldsOther typ)
          else (case xl_certificate L bytes of None \<Rightarrow> Inl BadCertificate
            | Some c \<Rightarrow> parse_blocks L n rest (out @ [c])))"

definition parseCerts :: "('c, 'k) x509 \<Rightarrow> string \<Rightarrow> tls_error + 'c list" where
  "parseCerts L inp = parse_blocks L (Suc (length inp)) inp []"

definition parseECKey :: "('c, 'k) x509 \<Rightarrow> string \<Rightarrow> tls_error + 'k" where
  "parseECKey L inp =
     (case xl_decode L inp of None \<Rightarrow> Inl KeyNotPEM
      | Some (_, bytes, _) \<Rightarrow>
          (case xl_sec1 L bytes of Some k \<Rightarrow> Inr k
           | None \<Rightarrow> (case xl_pkcs8 L bytes of None \<Rightarrow> Inl BadKey | Some None \<Rightarrow> Inl NotECDSA | Some (Some k) \<Rightarrow> Inr k)))"

section \<open>The card's own certificate\<close>

text \<open>\<^verbatim>\<open>IsGlobalUnicast\<close>; \<open>locals\<close> are the addresses of the card's interfaces.\<close>

definition IsGlobalUnicast :: "addr \<Rightarrow> bool" where
  "IsGlobalUnicast a =
     (case a of
        AddrZero \<Rightarrow> False
      | Addr4 w \<Rightarrow> w \<noteq> 0 \<and> w \<noteq> - 1 \<and> octet w 0 \<noteq> 127 \<and> octet w 0 div 16 \<noteq> 14 \<and> \<not> (octet w 0 = 169 \<and> octet w 1 = 254)
      | Addr6 w _ \<Rightarrow> w \<noteq> 0 \<and> w \<noteq> 1 \<and> unat w div 2 ^ 120 \<noteq> 255 \<and> unat w div 2 ^ 118 \<noteq> 1018)"

definition localAddrs :: "addr list \<Rightarrow> addr list" where
  "localAddrs ifaces = filter IsGlobalUnicast ifaces"

definition serverNames :: "string \<Rightarrow> addr list \<Rightarrow> string list \<times> addr list" where
  "serverNames h0 ifaces =
     (let h = TrimSuffix h0 ''.local'' in
      ([h @ ''.local'', h, ''localhost''], [Addr4 (word_of_nat (127 * 2 ^ 24 + 1)), Addr6 1 []] @ localAddrs ifaces))"

definition server_template :: "string \<Rightarrow> addr list \<Rightarrow> string list \<Rightarrow> srv_template" where
  "server_template h ifaces extra =
     (let (dns0, ips0) = serverNames h ifaces; (dns, ips) = withNames dns0 ips0 extra in
      \<lparr>tm_CommonName = h @ ''.local'', tm_DNSNames = dns, tm_IPAddresses = ips\<rparr>)"

definition loadCA :: "('c, 'k) x509 \<Rightarrow> kit_disk \<Rightarrow> tls_error + 'c \<times> 'k" where
  "loadCA L d =
     (case dk_file d CAFile of None \<Rightarrow> Inl (Unreadable CAFile)
      | Some certPEM \<Rightarrow>
     (case dk_file d CAKeyFile of None \<Rightarrow> Inl (Unreadable CAKeyFile)
      | Some keyPEM \<Rightarrow>
     (case (xl_decode L certPEM, xl_decode L keyPEM) of
        (Some (_, cb, _), Some (_, kb, _)) \<Rightarrow>
          (case xl_certificate L cb of None \<Rightarrow> Inl BadCertificate
           | Some cert \<Rightarrow> (case xl_sec1 L kb of None \<Rightarrow> Inl BadKey | Some key \<Rightarrow> Inr (cert, key)))
      | _ \<Rightarrow> Inl NoPEMBlock)))"

definition write_key :: "('c, 'k) x509 \<Rightarrow> kit_file \<Rightarrow> 'k \<Rightarrow> kit_disk \<Rightarrow> kit_disk" where
  "write_key L f key d = write_disk f (xl_encode L ''EC PRIVATE KEY'' (xl_marshal L key)) d"

definition issueServerCert :: "('c, 'k) x509 \<Rightarrow> string \<Rightarrow> addr list \<Rightarrow> 'k \<Rightarrow> kit_disk \<Rightarrow> tls_error option \<times> kit_disk" where
  "issueServerCert L h ifaces key d =
     (case loadCA L d of Inl e \<Rightarrow> (Some e, d)
      | Inr (caCert, caKey) \<Rightarrow>
     (case readNames (dk_file d NamesFile) of Inl e \<Rightarrow> (Some (TLSNames e), d)
      | Inr extra \<Rightarrow>
          (None, write_disk ServerFile (xl_encode L ''CERTIFICATE'' (xl_issue L caCert caKey (server_template h ifaces extra) key))
             (write_key L ServerKeyFile key d))))"

definition cmdRegenCerts :: "('c, 'k) x509 \<Rightarrow> string \<Rightarrow> addr list \<Rightarrow> 'k \<Rightarrow> kit_disk \<Rightarrow> tls_error option \<times> kit_disk" where
  "cmdRegenCerts L h ifaces key d =
     (case disk_loadState d of Inl e \<Rightarrow> (Some e, d)
      | Inr st \<Rightarrow> if on_deevnet st then (Some DeevnetPi, d) else issueServerCert L h ifaces key d)"

definition uncoveredAddrs :: "('c, 'k) x509 \<Rightarrow> addr list \<Rightarrow> kit_disk \<Rightarrow> tls_error + addr list" where
  "uncoveredAddrs L ifaces d =
     (case dk_file d ServerFile of None \<Rightarrow> Inl (Unreadable ServerFile)
      | Some b \<Rightarrow>
     (case xl_decode L b of None \<Rightarrow> Inl NoPEMBlock
      | Some (_, bytes, _) \<Rightarrow>
     (case xl_certificate L bytes of None \<Rightarrow> Inl BadCertificate
      | Some cert \<Rightarrow> Inr (filter (\<lambda>ip. \<not> list_ex (\<lambda>c. ip_equal c ip) (xl_addresses L cert)) (localAddrs ifaces)))))"

section \<open>What services and apps are told\<close>

definition brokerPort :: string where "brokerPort = ''8883''"
definition logPort :: string where "logPort = ''8427''"
definition dashboardPort :: string where "dashboardPort = ''3000''"

definition caFileOnHost :: string where "caFileOnHost = ''/etc/deevnet-kit/tls/ca.pem''"

definition env_line :: "string \<Rightarrow> string \<Rightarrow> string" where "env_line key val = key @ ''='' @ val"

definition https_url :: "string \<Rightarrow> string \<Rightarrow> string" where "https_url h port = ''https://'' @ h @ '':'' @ port"

definition bridge_env :: "card_state \<Rightarrow> string" where
  "bridge_env st = file_text
     [''# deevnet-kit - generated; the log bridge'' @ [CHR 0x27] @ ''s environment'',
      env_line ''DEEVNET_BRIDGE_BROKER_URL'' (''ssl://'' @ service_name st ''mqtt'' @ '':'' @ brokerPort),
      env_line ''DEEVNET_BRIDGE_BROKER_USERNAME'' bridgeUser,
      env_line ''DEEVNET_BRIDGE_BROKER_PASSWORD'' (ks_BridgePassword st),
      env_line ''DEEVNET_BRIDGE_BROKER_CA_FILE'' caFileOnHost,
      env_line ''DEEVNET_BRIDGE_STORE_URL'' (https_url (service_name st ''logs'') logPort),
      env_line ''DEEVNET_BRIDGE_STORE_TOKEN'' (ks_BridgeStoreToken st),
      env_line ''DEEVNET_BRIDGE_STORE_CA_FILE'' caFileOnHost]"

definition dashboardURL :: "string \<Rightarrow> string" where "dashboardURL h = https_url h dashboardPort"

definition dashboardEnv :: "card_state \<Rightarrow> string \<Rightarrow> string" where
  "dashboardEnv st h =
     (if ks_DashboardOrg st = 0 then file_text [''# Grafana is not set up yet: systemctl status deevnet-kit-dashboards'']
      else file_text
        [env_line ''GRAFANA_URL'' (dashboardURL h),
         env_line ''GRAFANA_AUTH'' (ks_Tenant st @ '':'' @ ks_DashboardPassword st),
         env_line ''GRAFANA_ORG_ID'' (itoa (ks_DashboardOrg st)),
         env_line ''TF_VAR_grafana_org_id'' (itoa (ks_DashboardOrg st)),
         env_line ''GRAFANA_CA_CERT'' (caExportName st)])"

definition kitEnv :: "card_state \<Rightarrow> string \<Rightarrow> app_creds option \<Rightarrow> string" where
  "kitEnv st h app = file_text
     [''# deevnet-kit - tenant '' @ ks_Tenant st @ '' on '' @ h,
      ''# The same names, filled from terraform outputs, point this app at Deevnet.'',
      env_line ''DEEVNET_TENANT'' (ks_Tenant st),
      env_line ''MQTT_HOST'' (appHost st ''mqtt'' h),
      env_line ''MQTT_PORT'' brokerPort,
      env_line ''MQTT_CA_FILE'' (caExportName st),
      env_line ''LOG_ENDPOINT'' (https_url (appHost st ''logs'' h) logPort),
      env_line ''LOG_INGEST_TOKEN'' (ks_IngestToken st),
      env_line ''LOG_READ_TOKEN'' (ks_ReadToken st),
      env_line ''LOG_SELECT_HEADER'' ''X-Deevnet-Partition'',
      env_line ''LOG_DEVICE_PARTITION'' (itoa (ks_Index st) @ ''-2'')]
     @ appEnv app @ dashboardEnv st (appHost st ''grafana'' h)"

text \<open>\<^verbatim>\<open>export\<close>: the files it writes into the directory, by name; \<open>creds\<close> is what \<^verbatim>\<open>appFlags\<close> gave.\<close>

definition cmdExport :: "string \<Rightarrow> app_creds option \<Rightarrow> kit_disk \<Rightarrow> tls_error + (string \<times> string) list" where
  "cmdExport h creds d =
     (case disk_loadState d of Inl e \<Rightarrow> Inl e
      | Inr st \<Rightarrow>
     (case dk_file d CAFile of None \<Rightarrow> Inl (Unreadable CAFile)
      | Some ca \<Rightarrow> Inr [(''kit.env'', kitEnv st h creds), (caExportName st, ca)]))"

section \<open>Installing a signed certificate\<close>

definition deevnet_names_of :: "card_state \<Rightarrow> string list" where
  "deevnet_names_of st = map (\<lambda>s. s @ ''.'' @ ks_Tenant st @ ''.'' @ rootDomain) kitServices"

text \<open>The result is the request that is printed, under a line that says whom it is for.\<close>

definition certRequest :: "('c, 'k) x509 \<Rightarrow> 'k \<Rightarrow> kit_disk \<Rightarrow> (tls_error + string) \<times> kit_disk" where
  "certRequest L key d =
     (case disk_loadState d of Inl e \<Rightarrow> (Inl e, d)
      | Inr st \<Rightarrow>
          (let dns = deevnet_names_of st;
               csr = xl_encode L ''CERTIFICATE REQUEST''
                 (xl_request L \<lparr>tm_CommonName = hd dns, tm_DNSNames = dns, tm_IPAddresses = []\<rparr> key) in
           (Inr csr, write_disk RequestFile csr (write_key L RequestKeyFile key d))))"

text \<open>What is checked before anything is written: the request's key, and that the leaf verifies for every name here.\<close>

definition install_check :: "('c, 'k) x509 \<Rightarrow> string \<Rightarrow> string \<Rightarrow> card_state \<Rightarrow> kit_disk \<Rightarrow> tls_error + string" where
  "install_check L fullchain rootPEM st d =
     (case parseCerts L fullchain of Inl e \<Rightarrow> Inl e
      | Inr certs \<Rightarrow>
     (case parseCerts L rootPEM of Inl _ \<Rightarrow> Inl NotOneRoot
      | Inr roots \<Rightarrow>
          if length roots \<noteq> 1 \<or> \<not> xl_is_ca L (hd roots) then Inl NotOneRoot
          else (case dk_file d RequestKeyFile of None \<Rightarrow> Inl NoRequest
      | Some keyPEM \<Rightarrow>
     (case parseECKey L keyPEM of Inl e \<Rightarrow> Inl e
      | Inr key \<Rightarrow>
          if \<not> xl_is_for L (hd certs) key then Inl NotRequestKey
          else (let missing = filter (\<lambda>n. \<not> xl_verify L (hd certs) [hd roots] (tl certs) n)
                  (deevnet_names_of st) in
                if missing \<noteq> [] then Inl (NotVerified missing) else Inr keyPEM)))))"

definition write_hosts_file :: "card_state \<Rightarrow> kit_disk \<Rightarrow> kit_disk" where
  "write_hosts_file st d = write_disk HostsFile (writeHosts st (dk_file d HostsFile)) d"

text \<open>The writes, in order. The first keeps the card's own CA, and writes nothing on a Deevnet Pi or without a CA to keep.\<close>

definition install_steps :: "string \<Rightarrow> string \<Rightarrow> string \<Rightarrow> card_state \<Rightarrow> (kit_disk \<Rightarrow> kit_disk) list" where
  "install_steps keyPEM fullchain rootPEM st =
     (let st' = st\<lparr>ks_PKI := pkiDeevnet\<rparr> in
      [\<lambda>d. (case dk_file d CAFile of Some ca \<Rightarrow> if on_deevnet st then d else write_disk CardCAFile ca d | None \<Rightarrow> d),
       write_disk ServerKeyFile keyPEM,
       write_disk ServerFile fullchain,
       write_disk CAFile rootPEM,
       remove_disk RequestKeyFile,
       \<lambda>d. d\<lparr>dk_state := Some (Some st')\<rparr>,
       write_hosts_file st',
       write_disk BridgeEnvFile (bridge_env st')])"

text \<open>\<open>n\<close> is how many of the writes are done before one fails, if one does.\<close>

definition certInstall ::
  "('c, 'k) x509 \<Rightarrow> nat option \<Rightarrow> string \<Rightarrow> string \<Rightarrow> kit_disk \<Rightarrow> tls_error option \<times> kit_disk" where
  "certInstall L fails fullchain rootPEM d =
     (case disk_loadState d of Inl e \<Rightarrow> (Some e, d)
      | Inr st \<Rightarrow>
     (case install_check L fullchain rootPEM st d of Inl e \<Rightarrow> (Some e, d)
      | Inr keyPEM \<Rightarrow>
          (let steps = install_steps keyPEM fullchain rootPEM st in
           case fails of
             None \<Rightarrow> (None, fold (\<lambda>s d. s d) steps d)
           | Some n \<Rightarrow> if n < length steps then (Some WriteFailed, fold (\<lambda>s d. s d) (take n steps) d)
                       else (None, fold (\<lambda>s d. s d) steps d))))"

section \<open>What is read of the environment\<close>

text \<open>An environment file read as \<^verbatim>\<open>systemd\<close> and a container runtime read it: \<^verbatim>\<open>KEY=VALUE\<close> lines, and comments.\<close>

definition env_value :: "string \<Rightarrow> string \<Rightarrow> string option" where
  "env_value text key =
     map_of (List.map_filter (\<lambda>l. if skipped l then None else Cut CHR ''='' l) (SplitOn NL text)) key"

lemma split_file_text: "\<forall>l \<in> set ls. NL \<notin> set l \<Longrightarrow> SplitOn NL (file_text ls @ rest) = ls @ SplitOn NL rest"
  by (induction ls) (simp_all add: file_text_def SplitOn_append)

lemma file_text_Cons: "file_text (l # ls) = file_text [l] @ file_text ls"
  by (simp add: file_text_def)

lemma env_value_comment: "NL \<notin> set l \<Longrightarrow> skipped l \<Longrightarrow> env_value (file_text [l] @ rest) key = env_value rest key"
  by (simp add: env_value_def split_file_text map_filter_simps)

lemma env_value_line:
  assumes "NL \<notin> set (k @ v)" "CHR ''='' \<notin> set k" "k \<noteq> []" "hd k \<noteq> CHR ''#''"
  shows "env_value (file_text [env_line k v] @ rest) key = (if key = k then Some v else env_value rest key)"
proof -
  have "\<forall>l \<in> set [env_line k v]. NL \<notin> set l" using assms(1) by (simp add: env_line_def NL_def)
  moreover have "\<not> skipped (env_line k v)" using assms(3,4) by (cases k) (simp_all add: skipped_def env_line_def HasPrefix_def)
  moreover have "Cut CHR ''='' (env_line k v) = Some (k, v)" using Cut_append[OF assms(2), of v] by (simp add: env_line_def)
  ultimately show ?thesis by (simp add: env_value_def split_file_text map_filter_simps)
qed

lemma deevnet_names: "on_deevnet st \<Longrightarrow> service_name st svc = svc @ ''.'' @ ks_Tenant st @ ''.'' @ rootDomain"
  by (simp add: service_name_def)

lemma kitEnv_deevnet:
  assumes "on_deevnet st" "ValidName (ks_Tenant st)" "NL \<notin> set h"
  shows "env_value (kitEnv st h app) ''MQTT_HOST'' = Some (service_name st ''mqtt'')"
    "env_value (kitEnv st h app) ''MQTT_CA_FILE'' = Some (caExportName st)"
    "env_value (kitEnv st h app) ''LOG_ENDPOINT'' = Some (https_url (service_name st ''logs'') logPort)"
proof -
  have tn: "NL \<notin> set (ks_Tenant st)" using ValidName_lines[OF assms(2)] .
  have names: "appHost st svc h = service_name st svc" for svc using assms(1) by (simp add: appHost_def)
  have n: "NL \<notin> set (service_name st ''mqtt'')" "NL \<notin> set (service_name st ''logs'')"
    using tn assms(1) by (simp_all add: deevnet_names rootDomain_def NL_def)
  have u: "NL \<notin> set (https_url (service_name st ''logs'') logPort)" "NL \<notin> set brokerPort" "NL \<notin> set (caExportName st)"
    using n by (simp_all add: https_url_def logPort_def brokerPort_def caExportName_def NL_def)
  note step = kitEnv_def names file_text_Cons[of _ "_ # _"] append_assoc env_value_comment env_value_line
  show "env_value (kitEnv st h app) ''MQTT_HOST'' = Some (service_name st ''mqtt'')"
    "env_value (kitEnv st h app) ''MQTT_CA_FILE'' = Some (caExportName st)"
    "env_value (kitEnv st h app) ''LOG_ENDPOINT'' = Some (https_url (service_name st ''logs'') logPort)"
    using tn n u assms(3) by (simp_all add: step skipped_def HasPrefix_def NL_def)
qed

section \<open>Installs\<close>

lemma disk_loadState_state: "disk_loadState d = Inr st \<longleftrightarrow> dk_state d = Some (Some st) \<and> validState st = None"
  by (auto simp: disk_loadState_def split: option.splits)

lemma validState_PKI [simp]: "validState (st\<lparr>ks_PKI := pki\<rparr>) = validState st"
  by (simp add: validState_def)

lemma parse_blocks_nonempty: "parse_blocks L n inp out = Inr certs \<Longrightarrow> certs \<noteq> []"
  by (induction n arbitrary: inp out) (auto split: option.splits if_splits)

lemma parseCerts_nonempty: "parseCerts L inp \<noteq> Inr []"
  using parse_blocks_nonempty by (fastforce simp: parseCerts_def simp del: parse_blocks.simps)

text \<open>The chain is for the key and verifies against the root for each of the names.\<close>

definition chain_serves :: "('c, 'k) x509 \<Rightarrow> string \<Rightarrow> string \<Rightarrow> string \<Rightarrow> string list \<Rightarrow> bool" where
  "chain_serves L keyPEM fullchain rootPEM names \<longleftrightarrow>
     (\<exists>leaf inters root key. parseCerts L fullchain = Inr (leaf # inters) \<and> parseCerts L rootPEM = Inr [root] \<and> xl_is_ca L root \<and>
        parseECKey L keyPEM = Inr key \<and> xl_is_for L leaf key \<and> list_all (xl_verify L leaf [root] inters) names)"

lemma install_check_Inr:
  assumes "install_check L fullchain rootPEM st d = Inr keyPEM"
  shows "dk_file d RequestKeyFile = Some keyPEM"
    "chain_serves L keyPEM fullchain rootPEM (map (service_name (st\<lparr>ks_PKI := pkiDeevnet\<rparr>)) kitServices)"
proof -
  let ?names = "deevnet_names_of st"
  obtain certs where certs: "parseCerts L fullchain = Inr certs"
    using assms by (cases "parseCerts L fullchain") (simp_all add: install_check_def)
  then obtain leaf inters where leaf: "certs = leaf # inters" using parseCerts_nonempty by (cases certs) blast+
  obtain roots where roots: "parseCerts L rootPEM = Inr roots" "length roots = 1" "xl_is_ca L (hd roots)"
    using assms certs by (auto simp: install_check_def split: sum.splits if_splits)
  then obtain root where root: "roots = [root]" by (cases roots) auto
  obtain key where key: "dk_file d RequestKeyFile = Some keyPEM" "parseECKey L keyPEM = Inr key" "xl_is_for L leaf key"
    "filter (\<lambda>n. \<not> xl_verify L leaf [root] inters n) ?names = []"
    using assms certs leaf roots root by (auto simp: install_check_def Let_def split: sum.splits option.splits if_splits)
  have "map (service_name (st\<lparr>ks_PKI := pkiDeevnet\<rparr>)) kitServices = ?names"
    by (simp add: deevnet_names_of_def service_name_def on_deevnet_def)
  moreover have "list_all (xl_verify L leaf [root] inters) ?names" using key(4) by (simp add: filter_empty_conv list_all_iff)
  ultimately show "dk_file d RequestKeyFile = Some keyPEM"
    "chain_serves L keyPEM fullchain rootPEM (map (service_name (st\<lparr>ks_PKI := pkiDeevnet\<rparr>)) kitServices)"
    using certs leaf roots(1,3) root key(1-3) by (auto simp: chain_serves_def)
qed

lemma certInstall_None:
  assumes "certInstall L None fullchain rootPEM d = (None, d')"
  obtains st keyPEM where "disk_loadState d = Inr st" "install_check L fullchain rootPEM st d = Inr keyPEM"
    "d' = fold (\<lambda>s d. s d) (install_steps keyPEM fullchain rootPEM st) d"
  using assms by (auto simp: certInstall_def split: sum.splits)

text \<open>The disk after all the writes, file by file.\<close>

lemma installed_disk:
  fixes keyPEM fullchain rootPEM :: string
  defines "run st d \<equiv> fold (\<lambda>s d. s d) (install_steps keyPEM fullchain rootPEM st) d"
  shows "dk_state (run st d) = Some (Some (st\<lparr>ks_PKI := pkiDeevnet\<rparr>))"
    "dk_file (run st d) CAFile = Some rootPEM" "dk_file (run st d) ServerFile = Some fullchain"
    "dk_file (run st d) ServerKeyFile = Some keyPEM" "dk_file (run st d) RequestKeyFile = None"
    "dk_file (run st d) HostsFile = Some (writeHosts (st\<lparr>ks_PKI := pkiDeevnet\<rparr>) (dk_file d HostsFile))"
    "dk_file (run st d) BridgeEnvFile = Some (bridge_env (st\<lparr>ks_PKI := pkiDeevnet\<rparr>))"
    "dk_file (run st d) CardCAFile = (if on_deevnet st \<or> dk_file d CAFile = None then dk_file d CardCAFile else dk_file d CAFile)"
  by (auto simp: run_def install_steps_def Let_def write_disk_def remove_disk_def write_hosts_file_def split: option.splits)

text \<open>C35. A Deevnet Pi serves what it says. When an install is done, the key, the chain and the root on the card are those that
  were checked: the chain is for the key and verifies against the root for each of the names the card's services dial;
  the hosts file maps these names to the card itself; the exported environment names the broker and the log store by
  them, with the root beside it under the name it gives; and the card's own CA signs no server certificate any more.\<close>

theorem installed_certificate_serves:
  assumes "certInstall L None fullchain rootPEM d = (None, d')" "NL \<notin> set h"
  shows "\<exists>st keyPEM hosts env. disk_loadState d' = Inr st \<and>
    dk_file d' ServerKeyFile = Some keyPEM \<and> dk_file d' ServerFile = Some fullchain \<and> dk_file d' CAFile = Some rootPEM \<and>
    chain_serves L keyPEM fullchain rootPEM (map (service_name st) kitServices) \<and>
    dk_file d' HostsFile = Some hosts \<and>
    ''127.0.0.1 '' @ Join (map (service_name st) kitServices) '' '' \<in> set (SplitOn NL (TrimRightNL hosts)) \<and>
    cmdExport h creds d' = Inr [(''kit.env'', env), (''deevnet-root-ca.pem'', rootPEM)] \<and>
    env_value env ''MQTT_HOST'' = Some (service_name st ''mqtt'') \<and>
    env_value env ''LOG_ENDPOINT'' = Some (https_url (service_name st ''logs'') logPort) \<and>
    env_value env ''MQTT_CA_FILE'' = Some ''deevnet-root-ca.pem'' \<and>
    cmdRegenCerts L h ifaces key d' = (Some DeevnetPi, d')"
proof -
  obtain st keyPEM where run: "disk_loadState d = Inr st" "install_check L fullchain rootPEM st d = Inr keyPEM"
      "d' = fold (\<lambda>s d. s d) (install_steps keyPEM fullchain rootPEM st) d"
    using assms(1) by (rule certInstall_None)
  let ?st = "st\<lparr>ks_PKI := pkiDeevnet\<rparr>"
  note disk = installed_disk[of keyPEM fullchain rootPEM st d, folded run(3)]
  have st: "disk_loadState d' = Inr ?st" "on_deevnet ?st" "ValidName (ks_Tenant ?st)"
    using run(1) disk(1) validState_name by (auto simp: disk_loadState_state on_deevnet_def)
  have root_name: "caExportName ?st = ''deevnet-root-ca.pem''" using st(2) by (simp add: caExportName_def)
  have "cmdExport h creds d' = Inr [(''kit.env'', kitEnv ?st h creds), (''deevnet-root-ca.pem'', rootPEM)]"
    using st(1) disk(2) root_name by (simp add: cmdExport_def)
  moreover have "cmdRegenCerts L h ifaces key d' = (Some DeevnetPi, d')" using st(1,2) by (simp add: cmdRegenCerts_def)
  moreover have "''127.0.0.1 '' @ Join (map (service_name ?st) kitServices) '' '' \<in>
      set (SplitOn NL (TrimRightNL (writeHosts ?st (dk_file d HostsFile))))"
    unfolding writeHosts_lines[OF st(3)] by simp
  ultimately show ?thesis
    using st disk(2-6) install_check_Inr(2)[OF run(2)] kitEnv_deevnet[OF st(2,3) assms(2), of creds] root_name by metis
qed

lemma install_check_again:
  assumes "install_check L fullchain rootPEM st d = Inr keyPEM"
  shows "dk_file d RequestKeyFile = Some keyPEM"
    "ks_Tenant st' = ks_Tenant st \<Longrightarrow> dk_file e RequestKeyFile = Some keyPEM \<Longrightarrow> install_check L fullchain rootPEM st' e = Inr keyPEM"
    "ks_Tenant st' = ks_Tenant st \<Longrightarrow> dk_file e RequestKeyFile = None \<Longrightarrow> install_check L fullchain rootPEM st' e = Inl NoRequest"
proof -
  show key: "dk_file d RequestKeyFile = Some keyPEM" using install_check_Inr(1)[OF assms] .
  show "ks_Tenant st' = ks_Tenant st \<Longrightarrow> dk_file e RequestKeyFile = Some keyPEM \<Longrightarrow> install_check L fullchain rootPEM st' e = Inr keyPEM"
    using assms by (simp only: install_check_def key deevnet_names_of_def)
  show "ks_Tenant st' = ks_Tenant st \<Longrightarrow> dk_file e RequestKeyFile = None \<Longrightarrow> install_check L fullchain rootPEM st' e = Inl NoRequest"
    using assms by (auto simp: install_check_def split: sum.splits if_splits)
qed

lemmas install_writes = install_steps_def Let_def write_disk_def remove_disk_def write_hosts_file_def

text \<open>The disk after the first \<open>n\<close> of the writes, as far as the next run reads it, and after all of them on top.\<close>

lemma interrupted_disk:
  assumes "n < 8"
  shows "dk_state (fold (\<lambda>s d. s d) (take n (install_steps keyPEM fullchain rootPEM st)) d) =
      (if n \<le> 5 then dk_state d else Some (Some (st\<lparr>ks_PKI := pkiDeevnet\<rparr>)))"
    "dk_file (fold (\<lambda>s d. s d) (take n (install_steps keyPEM fullchain rootPEM st)) d) RequestKeyFile =
      (if n \<le> 4 then dk_file d RequestKeyFile else None)"
proof -
  have "n \<in> {0, 1, 2, 3, 4, 5, 6, 7}" using assms by auto
  then show "dk_state (fold (\<lambda>s d. s d) (take n (install_steps keyPEM fullchain rootPEM st)) d) =
      (if n \<le> 5 then dk_state d else Some (Some (st\<lparr>ks_PKI := pkiDeevnet\<rparr>)))"
    "dk_file (fold (\<lambda>s d. s d) (take n (install_steps keyPEM fullchain rootPEM st)) d) RequestKeyFile =
      (if n \<le> 4 then dk_file d RequestKeyFile else None)"
    by (auto simp: install_writes split: option.splits)
qed

lemma interrupted_twice:
  fixes keyPEM fullchain rootPEM :: string
  defines "steps st \<equiv> install_steps keyPEM fullchain rootPEM st"
  assumes "n \<le> 4" "\<not> on_deevnet st" "dk_file d CAFile = Some own"
  shows "fold (\<lambda>s d. s d) (steps st) (fold (\<lambda>s d. s d) (take n (steps st)) d) =
    (if n = 4 then write_disk CardCAFile rootPEM (fold (\<lambda>s d. s d) (steps st) d) else fold (\<lambda>s d. s d) (steps st) d)"
proof -
  have "n \<in> {0, 1, 2, 3, 4}" using assms(2) by auto
  then show ?thesis using assms(3,4) by (auto simp: steps_def install_writes fun_eq_iff intro!: kit_disk.equality)
qed

text \<open>C37. An install that was cut off, and the same install again. As long as the CA file was not yet written the second run
  ends as one uninterrupted run would. Once it was, and the request's key is still there, the second run keeps the new
  root in the place of the card's own CA, which is then nowhere on the card; and once the request's key is removed the
  install is refused, though the state or the hosts file may still be the old ones.\<close>

theorem install_again:
  assumes "disk_loadState d = Inr st" "\<not> on_deevnet st" "dk_file d CAFile = Some own"
    and "certInstall L None fullchain rootPEM d = (None, d1)" "n < 8"
  shows "let d' = snd (certInstall L (Some n) fullchain rootPEM d) in
    certInstall L None fullchain rootPEM d' =
      (if n \<le> 3 then (None, d1) else if n = 4 then (None, write_disk CardCAFile rootPEM d1) else (Some NoRequest, d'))"
proof -
  obtain keyPEM where run: "install_check L fullchain rootPEM st d = Inr keyPEM"
      "d1 = fold (\<lambda>s d. s d) (install_steps keyPEM fullchain rootPEM st) d"
    using assms(1,4) by (auto elim: certInstall_None)
  let ?steps = "install_steps keyPEM fullchain rootPEM st"
  let ?d = "\<lambda>n. fold (\<lambda>s d. s d) (take n ?steps) d"
  have d': "snd (certInstall L (Some n) fullchain rootPEM d) = ?d n"
    using assms(1,5) run(1) by (simp add: certInstall_def Let_def install_steps_def)
  have state: "dk_state d = Some (Some st)" "validState st = None" using assms(1) by (auto simp: disk_loadState_state)
  note again = install_check_again[OF run(1)]
  have load: "disk_loadState (?d n) = Inr (if n \<le> 5 then st else st\<lparr>ks_PKI := pkiDeevnet\<rparr>)"
    and key: "dk_file (?d n) RequestKeyFile = (if n \<le> 4 then Some keyPEM else None)"
    using assms(2,3,5) state again(1) by (simp_all add: disk_loadState_state interrupted_disk)
  show ?thesis
  proof (cases "n \<le> 4")
    case True
    then have "certInstall L None fullchain rootPEM (?d n) = (None, fold (\<lambda>s d. s d) ?steps (?d n))"
      using load key again(2)[of st] by (simp add: certInstall_def Let_def)
    then show ?thesis unfolding d' using True assms(2,3) run(2) by (simp add: Let_def interrupted_twice)
  next
    case False
    then have "certInstall L None fullchain rootPEM (?d n) = (Some NoRequest, ?d n)"
      using load key again(3) by (simp add: certInstall_def)
    then show ?thesis unfolding d' using False by (simp add: Let_def)
  qed
qed

text \<open>A library for one key, one chain and one root; PEM is the text itself.\<close>

definition sample_x509 :: "addr list \<Rightarrow> (string, string) x509" where
  "sample_x509 ips = \<lparr>
     xl_decode = (\<lambda>s. if s = ''key'' then Some (''EC PRIVATE KEY'', s, []) else if s \<in> {''leaf'', ''root''} then Some (''CERTIFICATE'', s, []) else None),
     xl_encode = (\<lambda>_ bytes. bytes), xl_certificate = Some, xl_sec1 = Some, xl_pkcs8 = (\<lambda>_. None), xl_marshal = id,
     xl_is_ca = (\<lambda>c. c = ''root''), xl_is_for = (\<lambda>c k. c = ''leaf'' \<and> k = ''key''), xl_addresses = (\<lambda>_. ips),
     xl_verify = (\<lambda>c roots inters name. c = ''leaf'' \<and> roots = [''root''] \<and> name \<in> {''mqtt.pi.deevnet.net'', ''logs.pi.deevnet.net'', ''grafana.pi.deevnet.net''}),
     xl_issue = (\<lambda>_ _ _ _. ''leaf''), xl_request = (\<lambda>_ _. [])\<rparr>"

definition sample_disk :: kit_disk where
  "sample_disk = \<lparr>dk_file = [CAFile \<mapsto> ''own'', RequestKeyFile \<mapsto> ''key''], dk_state = Some (Some sample_card_state)\<rparr>"

lemma sample_install: "fst (certInstall (sample_x509 []) None ''leaf'' ''root'' sample_disk) = None"
proof -
  have "install_check (sample_x509 []) ''leaf'' ''root'' sample_card_state sample_disk = Inr ''key''"
    by (simp add: install_check_def parseCerts_def sample_x509_def sample_disk_def parseECKey_def deevnet_names_of_def kitServices_def sample_card_state_def rootDomain_def)
  moreover have "disk_loadState sample_disk = Inr sample_card_state"
    by (simp add: disk_loadState_state sample_card_valid sample_disk_def)
  ultimately show ?thesis by (simp add: certInstall_def)
qed

theorem installed_certificate_serves_witness:
  "\<exists>d' env. certInstall (sample_x509 []) None ''leaf'' ''root'' sample_disk = (None, d') \<and>
     cmdExport ''pi.local'' None d' = Inr [(''kit.env'', env), (''deevnet-root-ca.pem'', ''root'')]"
proof -
  obtain d' where d': "certInstall (sample_x509 []) None ''leaf'' ''root'' sample_disk = (None, d')"
    using sample_install by (cases "certInstall (sample_x509 []) None ''leaf'' ''root'' sample_disk") auto
  have "NL \<notin> set ''pi.local''" by code_simp
  then show ?thesis using installed_certificate_serves[OF d', of "''pi.local''" None] d' by metis
qed

theorem install_again_witness:
  "\<exists>d'. certInstall (sample_x509 []) (Some 4) ''leaf'' ''root'' sample_disk = (Some WriteFailed, d') \<and>
     dk_file d' CardCAFile = Some ''own'' \<and>
     dk_file (snd (certInstall (sample_x509 []) None ''leaf'' ''root'' d')) CardCAFile = Some ''root''"
proof -
  obtain d1 where d1: "certInstall (sample_x509 []) None ''leaf'' ''root'' sample_disk = (None, d1)"
    using sample_install by (cases "certInstall (sample_x509 []) None ''leaf'' ''root'' sample_disk") auto
  have st: "disk_loadState sample_disk = Inr sample_card_state" by (simp add: disk_loadState_state sample_card_valid sample_disk_def)
  have own: "\<not> on_deevnet sample_card_state" "dk_file sample_disk CAFile = Some ''own''"
    by (simp_all add: on_deevnet_def sample_card_state_def pkiDeevnet_def sample_disk_def)
  define d' where "d' = snd (certInstall (sample_x509 []) (Some 4) ''leaf'' ''root'' sample_disk)"
  obtain keyPEM where check: "install_check (sample_x509 []) ''leaf'' ''root'' sample_card_state sample_disk = Inr keyPEM"
    using d1 st by (auto elim: certInstall_None)
  have four: "certInstall (sample_x509 []) (Some 4) ''leaf'' ''root'' sample_disk = (Some WriteFailed, d') \<and> dk_file d' CardCAFile = Some ''own''"
    using st check own by (simp add: d'_def certInstall_def install_writes)
  have "certInstall (sample_x509 []) None ''leaf'' ''root'' d' = (None, write_disk CardCAFile ''root'' d1)"
    using install_again[OF st own d1, of 4] by (simp add: Let_def d'_def)
  then show ?thesis using four by (auto simp: write_disk_def)
qed

section \<open>The names of the card's own certificate\<close>

lemma ip_equal_refl [simp]: "ip_equal a a"
  by (simp add: ip_equal_def)

definition template_names :: "string list \<times> addr list \<Rightarrow> string \<Rightarrow> bool" where
  "template_names t n = (case ParseIP n of Some ip \<Rightarrow> list_ex (ip_equal ip) (snd t) | None \<Rightarrow> n \<in> set (fst t))"

lemma withNames_keeps: "set dns \<subseteq> set (fst (withNames dns ips ns)) \<and> set ips \<subseteq> set (snd (withNames dns ips ns))"
proof (induction dns ips ns rule: withNames.induct)
  case (2 dns ips n ns)
  then show ?case by (cases "ParseIP n") auto
qed simp

lemma template_names_mono:
  "template_names (dns, ips) n \<Longrightarrow> template_names (withNames dns ips ns) n"
  using withNames_keeps[of dns ips ns] by (fastforce simp: template_names_def list_ex_iff split: option.splits)

lemma withNames_names: "n \<in> set ns \<Longrightarrow> template_names (withNames dns ips ns) n"
proof (induction dns ips ns rule: withNames.induct)
  case (2 dns ips m ns)
  show ?case
  proof (cases "n = m")
    case True
    have "list_ex (ip_equal a) (if list_ex (ip_equal a) ips then ips else ips @ [a])" for a by simp
    then show ?thesis unfolding True withNames.simps
      by (cases "ParseIP m") (simp_all add: template_names_mono template_names_def[of "(_, _)"])
  next
    case False
    then show ?thesis using 2 by (cases "ParseIP m") simp_all
  qed
qed simp

text \<open>Regenerating a card's certificate works: it is issued for the names file's names and every address the card has,
  and the check behind \<^verbatim>\<open>status\<close> and the self-test finds none left out.\<close>

lemma regenerated_certificate_covers:
  assumes "loadCA L d = Inr (ca, caKey)" "readNames (dk_file d NamesFile) = Inr extra"
    and "der = xl_issue L ca caKey (server_template h ifaces extra) key"
    and "xl_decode L (xl_encode L ''CERTIFICATE'' der) = Some (''CERTIFICATE'', der, [])" "xl_certificate L der = Some cert"
    and "xl_addresses L cert = tm_IPAddresses (server_template h ifaces extra)"
  shows "fst (issueServerCert L h ifaces key d) = None \<and>
    uncoveredAddrs L ifaces (snd (issueServerCert L h ifaces key d)) = Inr [] \<and>
    list_all (template_names (tm_DNSNames (server_template h ifaces extra), tm_IPAddresses (server_template h ifaces extra))) extra"
proof -
  obtain dns0 ips0 where start: "serverNames h ifaces = (dns0, ips0)" by (cases "serverNames h ifaces") simp
  have template: "(tm_DNSNames (server_template h ifaces extra), tm_IPAddresses (server_template h ifaces extra)) = withNames dns0 ips0 extra"
    by (simp add: server_template_def start Let_def case_prod_beta)
  have "set (localAddrs ifaces) \<subseteq> set ips0" using start by (auto simp: serverNames_def Let_def)
  then have "set (localAddrs ifaces) \<subseteq> set (tm_IPAddresses (server_template h ifaces extra))"
    using withNames_keeps[of dns0 ips0 extra] unfolding template[symmetric] by auto
  then have "filter (\<lambda>ip. \<not> list_ex (\<lambda>c. ip_equal c ip) (xl_addresses L cert)) (localAddrs ifaces) = []"
    unfolding assms(6) by (auto simp: filter_empty_conv list_ex_iff) (metis ip_equal_refl subsetD)
  then have "uncoveredAddrs L ifaces (snd (issueServerCert L h ifaces key d)) = Inr []"
    using assms(1-5) by (simp add: issueServerCert_def uncoveredAddrs_def write_disk_def write_key_def)
  moreover have "fst (issueServerCert L h ifaces key d) = None" using assms(1,2) by (simp add: issueServerCert_def)
  ultimately show ?thesis unfolding template using withNames_names by (auto simp: list_all_iff)
qed

end
