(* ===== verification/KitBoot.thy ===== *)
theory KitBoot
  imports KitSetup
begin

text \<open>
  A first boot that is run again (\<^verbatim>\<open>firstboot.go\<close>, \<^verbatim>\<open>kit.go\<close>): once the Wi-Fi is set up the password is blanked in the boot
  partition's file, and what is left there still reads as the owner's settings.
\<close>

section \<open>Replacing at line starts\<close>

lemma replace_rest_of_line:
  "NL \<notin> set l \<Longrightarrow> replace_lines m False (l @ t) = l @ replace_lines m False t"
  by (induction l) auto

lemma replace_line_end: "replace_lines m False (NL # t) = NL # replace_lines m True t"
  by simp

lemma replace_no_match:
  assumes "NL \<notin> set l" "m (l @ NL # t) = None"
  shows "replace_lines m True (l @ NL # t) = l @ NL # replace_lines m True t"
proof (cases l)
  case Nil
  then show ?thesis using assms(2) by simp
next
  case (Cons c cs)
  then show ?thesis using assms replace_rest_of_line[of cs m "NL # t"] by auto
qed

lemma replace_match:
  assumes "m s = Some (new, rest)" "length rest < length s"
  shows "replace_lines m True s = new @ replace_lines m False rest"
  using assms by (cases s) auto

section \<open>Lines\<close>

definition blank_line :: "string \<Rightarrow> bool" where "blank_line l = list_all re_space l"

text \<open>A line that gives \<^verbatim>\<open>wifi_psk\<close>, and the line with its value gone.\<close>

definition psk_value :: "string \<Rightarrow> string \<Rightarrow> string \<Rightarrow> string" where
  "psk_value ws ws' val = ws @ ''wifi_psk'' @ ws' @ ''='' @ val"

lemma dropWhile_all: "list_all P xs \<Longrightarrow> dropWhile P (xs @ ys) = dropWhile P ys"
  by (induction xs) auto

lemma match_psk_line:
  assumes "list_all re_space ws" "list_all re_space ws'" "NL \<notin> set val" "t = [] \<or> hd t = NL"
  shows "match_psk (psk_value ws ws' val @ t) = Some (psk_note @ psk_value ws ws' [], t)"
proof -
  have space: "\<not> re_space CHR ''w''" "\<not> re_space CHR ''=''" by (simp_all add: re_space_def NL_def)
  have s1: "dropWhile re_space (psk_value ws ws' val @ t) = ''wifi_psk'' @ ws' @ ''='' @ val @ t"
    using assms(1) space by (simp add: psk_value_def dropWhile_all)
  have s2: "dropWhile re_space (drop 8 (''wifi_psk'' @ ws' @ ''='' @ val @ t)) = ''='' @ val @ t"
    using assms(2) space by (simp add: dropWhile_all)
  have "rest_of_line (val @ t) = t"
    using assms(3,4) by (cases t) (auto simp: rest_of_line_def dropWhile_append)
  moreover have "take (length (psk_value ws ws' val @ t) + 1 - length (''='' @ val @ t)) (psk_value ws ws' val @ t) = psk_value ws ws' []"
  proof -
    have "psk_value ws ws' val @ t = psk_value ws ws' [] @ val @ t" by (simp add: psk_value_def)
    moreover have "length (psk_value ws ws' val @ t) + 1 - length (''='' @ val @ t) = length (psk_value ws ws' [])"
      by (simp add: psk_value_def)
    ultimately show ?thesis by (metis append_eq_conv_conj)
  qed
  ultimately show ?thesis
    unfolding match_psk_def Let_def s1 s2 by (simp add: HasPrefix_def)
qed

lemma match_psk_Some:
  assumes "match_psk s = Some (new, rest)"
  shows "\<exists>ws ws' val t. s = psk_value ws ws' val @ t \<and> list_all re_space ws \<and> list_all re_space ws' \<and> NL \<notin> set val \<and> (t = [] \<or> hd t = NL)"
proof -
  define s1 where "s1 = dropWhile re_space s"
  define s2 where "s2 = dropWhile re_space (drop 8 s1)"
  have pre: "HasPrefix s1 ''wifi_psk''" "HasPrefix s2 ''=''"
    using assms by (auto simp: match_psk_def Let_def s1_def s2_def split: if_splits)
  obtain r1 where r1: "s1 = ''wifi_psk'' @ r1" using pre(1) by (auto simp: HasPrefix_iff)
  obtain r2 where r2: "s2 = ''='' @ r2" using pre(2) by (auto simp: HasPrefix_iff)
  have "s = takeWhile re_space s @ ''wifi_psk'' @ r1" using r1 unfolding s1_def by (metis takeWhile_dropWhile_id)
  moreover have "r1 = takeWhile re_space r1 @ ''='' @ r2"
  proof -
    have "drop 8 s1 = r1" using r1 by simp
    then have "dropWhile re_space r1 = ''='' @ r2" using r2 unfolding s2_def by simp
    then show ?thesis by (metis takeWhile_dropWhile_id)
  qed
  moreover have "r2 = takeWhile (\<lambda>c. c \<noteq> NL) r2 @ dropWhile (\<lambda>c. c \<noteq> NL) r2" by simp
  ultimately have split: "s = psk_value (takeWhile re_space s) (takeWhile re_space r1) (takeWhile (\<lambda>c. c \<noteq> NL) r2) @ dropWhile (\<lambda>c. c \<noteq> NL) r2"
    unfolding psk_value_def by (metis append.assoc)
  have "list_all P (takeWhile P xs)" for P and xs :: string by (auto simp: list_all_iff dest: set_takeWhileD)
  moreover have "NL \<notin> set (takeWhile (\<lambda>c. c \<noteq> NL) r2)" by (auto dest: set_takeWhileD)
  moreover have "dropWhile (\<lambda>c. c \<noteq> NL) r2 = [] \<or> hd (dropWhile (\<lambda>c. c \<noteq> NL) r2) = NL"
    using hd_dropWhile[of "\<lambda>c. c \<noteq> NL" r2] by blast
  ultimately show ?thesis using split by blast
qed

section \<open>White space\<close>

lemma space_facts: "re_space c \<Longrightarrow> is_space c" "is_space c \<Longrightarrow> c \<noteq> CHR 0x0B \<Longrightarrow> re_space c"
  by (auto simp: re_space_def is_space_def NL_def)

lemma TrimSpace_parts: "\<exists>a b. s = a @ TrimSpace s @ b \<and> list_all is_space a \<and> list_all is_space b"
proof -
  let ?t = "dropWhile is_space s"
  have "s = takeWhile is_space s @ ?t" by simp
  moreover have "?t = TrimSpace s @ rev (takeWhile is_space (rev ?t))"
    unfolding TrimSpace_def by (metis rev_append rev_rev_ident takeWhile_dropWhile_id)
  moreover have "list_all is_space (takeWhile is_space xs)" for xs by (auto simp: list_all_iff dest: set_takeWhileD)
  ultimately show ?thesis by (metis list_all_rev)
qed

lemma TrimSuffix_CR: "\<exists>b. l = TrimSuffix l [CHR 0x0D] @ b \<and> list_all is_space b"
proof (cases "HasSuffix l [CHR 0x0D]")
  case True
  then obtain t where "l = t @ [CHR 0x0D]" by (auto simp: HasSuffix_iff)
  then show ?thesis using True by (simp add: TrimSuffix_def is_space_def)
qed (simp add: TrimSuffix_def)

lemma a_line_parts: "\<exists>a b. l = a @ a_line l @ b \<and> list_all is_space a \<and> list_all is_space b"
proof -
  let ?l1 = "TrimSuffix l [CHR 0x0D]"
  let ?l2 = "TrimSuffix ?l1 [CHR 0x0D]"
  obtain b1 where b1: "l = ?l1 @ b1" "list_all is_space b1" using TrimSuffix_CR by blast
  obtain b2 where b2: "?l1 = ?l2 @ b2" "list_all is_space b2" using TrimSuffix_CR by blast
  obtain a b where ab: "?l2 = a @ TrimSpace ?l2 @ b" "list_all is_space a" "list_all is_space b" using TrimSpace_parts by blast
  have "l = a @ a_line l @ (b @ b2 @ b1)" unfolding a_line_def using ab(1) b1(1) b2(1) by (metis append.assoc)
  then show ?thesis using ab b1 b2 by (metis list_all_append)
qed

lemma TrimSpace_space: "list_all is_space s \<Longrightarrow> TrimSpace s = []"
proof -
  assume "list_all is_space s"
  then have "dropWhile is_space s = []" by (simp add: dropWhile_eq_Nil_conv list_all_iff)
  then show ?thesis unfolding TrimSpace_def by (simp del: dropWhile_eq_Nil_conv)
qed

lemma a_line_blank: "blank_line l \<Longrightarrow> a_line l = []"
proof -
  assume "blank_line l"
  then have "list_all is_space l" using space_facts(1) by (auto simp: blank_line_def list_all_iff)
  then have "list_all is_space (TrimSuffix (TrimSuffix l [CHR 0x0D]) [CHR 0x0D])"
    using TrimSuffix_CR by (metis list_all_append)
  then show ?thesis by (simp add: a_line_def TrimSpace_space)
qed

lemma TrimSpace_between:
  assumes "list_all is_space ws" "\<not> is_space c" "\<not> is_space e"
  shows "TrimSpace (ws @ c # m @ e # val) = c # m @ e # rev (dropWhile is_space (rev val))"
proof -
  have "dropWhile is_space (ws @ c # m @ e # val) = c # m @ e # val" using assms by (simp add: dropWhile_all)
  moreover have "dropWhile is_space (rev val @ e # rest) = dropWhile is_space (rev val) @ e # rest" for rest
    using assms(3) by (induction "rev val" arbitrary: val) (auto simp: dropWhile_append)
  ultimately show ?thesis by (simp add: TrimSpace_def)
qed

lemma TrimSuffix_snoc: "TrimSuffix (t @ [c]) [c] = t" and TrimSuffix_other: "last t \<noteq> c \<Longrightarrow> TrimSuffix t [c] = t"
  by (auto simp: TrimSuffix_def HasSuffix_iff)

lemma TrimSuffix_psk: "TrimSuffix (psk_value ws ws' val) [CHR 0x0D] = psk_value ws ws' (TrimSuffix val [CHR 0x0D])"
proof (cases "val \<noteq> [] \<and> last val = CHR 0x0D")
  case True
  then obtain t where val: "val = t @ [CHR 0x0D]" by (cases val rule: rev_cases) auto
  have "psk_value ws ws' val = psk_value ws ws' t @ [CHR 0x0D]" by (simp add: psk_value_def val)
  then show ?thesis using TrimSuffix_snoc val by metis
next
  case False
  then have "last (psk_value ws ws' val) \<noteq> CHR 0x0D" by (auto simp: psk_value_def)
  moreover have "TrimSuffix val [CHR 0x0D] = val" using False TrimSuffix_other[of val] by (cases "val = []") (auto simp: TrimSuffix_def)
  ultimately show ?thesis using TrimSuffix_other by metis
qed

lemma boot_line_psk:
  assumes "list_all re_space ws" "list_all re_space ws'"
  shows "\<exists>v. boot_line (psk_value ws ws' val) bc = Inr (bc\<lparr>bc_WiFiPSK := v\<rparr>) \<and> (val = [] \<longrightarrow> v = [])"
proof -
  let ?val = "TrimSuffix (TrimSuffix val [CHR 0x0D]) [CHR 0x0D]"
  let ?v = "rev (dropWhile is_space (rev ?val))"
  have sp: "list_all is_space ws" "list_all is_space ws'" using assms space_facts(1) by (auto simp: list_all_iff)
  have nsp: "\<not> is_space CHR ''w''" "\<not> is_space CHR ''k''" "\<not> is_space CHR ''=''" by (simp_all add: is_space_def)
  have line: "a_line (psk_value ws ws' val) = (''wifi_psk'' @ ws') @ [CHR ''=''] @ ?v"
    using TrimSpace_between[OF sp(1) nsp(1,3), of "''ifi_psk'' @ ws'" ?val] unfolding a_line_def TrimSuffix_psk by (simp add: psk_value_def)
  have "CHR ''='' \<notin> set ws'" using sp(2) nsp(3) by (auto simp: list_all_iff)
  then have cut: "Cut CHR ''='' (a_line (psk_value ws ws' val)) = Some (''wifi_psk'' @ ws', ?v)"
    unfolding line by (intro Cut_append) simp
  have "dropWhile is_space (rev ws') = []" using sp(2) by (simp add: dropWhile_eq_Nil_conv list_all_iff)
  then have key: "TrimSpace (''wifi_psk'' @ ws') = ''wifi_psk''"
    using TrimSpace_between[of "[]" "CHR ''w''" "CHR ''k''" "''ifi_ps''" ws'] nsp by simp
  have "\<not> skipped (a_line (psk_value ws ws' val))" unfolding line by (simp add: skipped_def HasPrefix_def)
  then have "boot_line (psk_value ws ws' val) bc = Inr (bc\<lparr>bc_WiFiPSK := TrimSpace ?v\<rparr>)"
    using cut key by (simp add: boot_line_def set_key_def)
  moreover have "val = [] \<longrightarrow> TrimSpace ?v = []" by (simp add: TrimSuffix_def HasSuffix_def HasPrefix_def TrimSpace_def)
  ultimately show ?thesis by blast
qed

lemma Cut_parts: "Cut c s = Some (k, v) \<Longrightarrow> s = k @ [c] @ v"
proof -
  assume cut: "Cut c s = Some (k, v)"
  then have c: "c \<in> set s" and kv: "k = takeWhile (\<lambda>d. d \<noteq> c) s" "v = tl (dropWhile (\<lambda>d. d \<noteq> c) s)"
    by (auto simp: Cut_def split: if_splits)
  have "dropWhile (\<lambda>d. d \<noteq> c) s \<noteq> []" using c by (auto simp: dropWhile_eq_Nil_conv)
  then have "dropWhile (\<lambda>d. d \<noteq> c) s = c # v" using kv(2) hd_dropWhile[of "\<lambda>d. d \<noteq> c" s] by (cases "dropWhile (\<lambda>d. d \<noteq> c) s") auto
  then show ?thesis using kv(1) by (metis append_Cons append_Nil takeWhile_dropWhile_id)
qed

text \<open>A line with another key leaves the password out of it.\<close>

definition no_psk :: "boot_settings \<Rightarrow> boot_settings" where "no_psk bc = bc\<lparr>bc_WiFiPSK := []\<rparr>"

lemma boot_line_other:
  assumes "boot_line l bc = Inr b1" "CHR 0x0B \<notin> set l"
    and "\<nexists>ws ws' val. l = psk_value ws ws' val \<and> list_all re_space ws \<and> list_all re_space ws'"
  shows "boot_line l (no_psk bc) = Inr (no_psk b1)"
proof (cases "skipped (a_line l)")
  case True
  then show ?thesis using assms(1) by (auto simp: boot_line_def no_psk_def)
next
  case False
  then obtain k v where kv: "Cut CHR ''='' (a_line l) = Some (k, v)" "set_key (TrimSpace k) (TrimSpace v) bc = Inr b1"
    using assms(1) by (auto simp: boot_line_def Let_def split: option.splits)
  have "TrimSpace k \<noteq> ''wifi_psk''"
  proof
    assume key: "TrimSpace k = ''wifi_psk''"
    obtain a b where ab: "l = a @ a_line l @ b" "list_all is_space a" using a_line_parts by blast
    obtain a' b' where k: "k = a' @ ''wifi_psk'' @ b'" "list_all is_space a'" "list_all is_space b'"
      using TrimSpace_parts[of k] key by auto
    have "a_line l = k @ ''='' @ v" using kv(1) by (rule Cut_parts)
    then have l: "l = psk_value (a @ a') b' (v @ b)" using ab(1) k(1) by (simp add: psk_value_def)
    moreover have "list_all is_space cs \<Longrightarrow> CHR 0x0B \<notin> set cs \<Longrightarrow> list_all re_space cs" for cs
      using space_facts(2) unfolding list_all_iff by blast
    then have "list_all re_space (a @ a')" "list_all re_space b'"
      using ab(2) k(2,3) assms(2) unfolding l psk_value_def by simp_all
    ultimately show False using assms(3) by blast
  qed
  then have "set_key (TrimSpace k) (TrimSpace v) (no_psk bc) = Inr (no_psk b1)"
    using kv(2) by (auto simp: set_key_def no_psk_def split: if_splits option.splits sum.splits)
  then show ?thesis using False kv(1) by (simp add: boot_line_def)
qed

section \<open>The file, line by line\<close>

lemma HasPrefix_line: "HasPrefix (a @ t) p \<Longrightarrow> NL \<notin> set p \<Longrightarrow> t = [] \<or> hd t = NL \<Longrightarrow> HasPrefix a p"
proof (induction p arbitrary: a)
  case (Cons c p)
  then show ?case by (cases a; cases t) (auto simp: HasPrefix_def)
qed (simp add: HasPrefix_def)

lemma dropWhile_some: "\<not> list_all P xs \<Longrightarrow> dropWhile P (xs @ ys) = dropWhile P xs @ ys"
  by (induction xs) auto

lemma match_psk_here:
  assumes "match_psk (l @ t) \<noteq> None" "t = [] \<or> hd t = NL" "\<not> blank_line l" "CHR ''='' \<in> set (a_line l) \<or> skipped (a_line l)"
  shows "\<exists>ws ws' val. l = psk_value ws ws' val \<and> list_all re_space ws \<and> list_all re_space ws'"
proof -
  let ?l1 = "dropWhile re_space l"
  have s1: "dropWhile re_space (l @ t) = ?l1 @ t" using assms(3) by (simp add: blank_line_def dropWhile_some)
  have m: "HasPrefix (?l1 @ t) ''wifi_psk''" "HasPrefix (dropWhile re_space (drop 8 (?l1 @ t))) ''=''"
    using assms(1) unfolding match_psk_def Let_def s1 by (auto split: if_splits)
  have "NL \<notin> set ''wifi_psk''" by code_simp
  then obtain r where r: "?l1 = ''wifi_psk'' @ r" using HasPrefix_line[OF m(1) _ assms(2)] by (auto simp: HasPrefix_iff)
  have l: "l = takeWhile re_space l @ ''wifi_psk'' @ r" using r by (metis takeWhile_dropWhile_id)
  have all: "list_all P (takeWhile P xs)" for P and xs :: string by (auto simp: list_all_iff dest: set_takeWhileD)
  have d: "drop 8 (?l1 @ t) = r @ t" unfolding r by simp
  show ?thesis
  proof (cases "list_all re_space r")
    case True
    obtain a b where ab: "l = a @ a_line l @ b" "list_all is_space a" "list_all is_space b" using a_line_parts by blast
    have chars: "set l = set (takeWhile re_space l) \<union> set ''wifi_psk'' \<union> set r" using arg_cong[OF l, of set] by (simp only: set_append Un_assoc)
    have "\<not> re_space CHR ''=''" "\<not> re_space CHR ''#''" "CHR ''='' \<notin> set ''wifi_psk''" "CHR ''#'' \<notin> set ''wifi_psk''" by code_simp+
    then have no: "CHR ''='' \<notin> set l" "CHR ''#'' \<notin> set l"
      unfolding chars using True all[of re_space l] by (auto simp del: list.set simp: list_all_iff)
    have line: "set (a_line l) \<subseteq> set l" using arg_cong[OF ab(1), of set] by auto
    have "CHR ''w'' \<in> set ''wifi_psk''" by simp
    then have "CHR ''w'' \<in> set l" unfolding chars by blast
    moreover have "\<not> is_space CHR ''w''" by (simp add: is_space_def)
    ultimately have "CHR ''w'' \<in> set (a_line l)" using arg_cong[OF ab(1), of set] ab(2,3) by (auto simp: list_all_iff)
    then have "\<not> skipped (a_line l)" using no(2) line by (auto simp: skipped_def HasPrefix_iff)
    moreover have "CHR ''='' \<notin> set (a_line l)" using no(1) line by blast
    ultimately show ?thesis using assms(4) by blast
  next
    case False
    then have "dropWhile re_space (r @ t) = dropWhile re_space r @ t" by (rule dropWhile_some)
    then have "HasPrefix (dropWhile re_space r @ t) ''=''" using m(2) d by simp
    then have "HasPrefix (dropWhile re_space r) ''=''" by (rule HasPrefix_line) (use assms(2) in \<open>simp_all add: NL_def\<close>)
    then obtain val where "dropWhile re_space r = ''='' @ val" by (auto simp: HasPrefix_iff)
    then have "l = psk_value (takeWhile re_space l) (takeWhile re_space r) val"
      using l unfolding psk_value_def by (metis takeWhile_dropWhile_id)
    then show ?thesis using all by blast
  qed
qed

lemma boot_line_accepted: "boot_line l bc = Inr b \<Longrightarrow> CHR ''='' \<in> set (a_line l) \<or> skipped (a_line l)"
  by (auto simp: boot_line_def Let_def Cut_def split: if_splits)

lemma boot_line_blank: "blank_line l \<Longrightarrow> boot_line l bc = Inr bc"
  by (simp add: boot_line_def a_line_blank skipped_def)

definition note_line :: string where "note_line = ''# wifi_psk was applied on first boot and removed from this file.''"

lemma psk_note_line: "psk_note = note_line @ [NL]"
  by (simp add: psk_note_def note_line_def)

lemma note_skipped: "boot_lines (note_line # ls) bc = boot_lines ls bc" "NL \<notin> set note_line"
    "fits note_line" "boot_line note_line bc = Inr bc"
proof -
  have "skipped (a_line note_line)" "NL \<notin> set note_line" by code_simp+
  moreover have "fits note_line" by (simp add: fits_def note_line_def)
  ultimately show "boot_lines (note_line # ls) bc = boot_lines ls bc" "NL \<notin> set note_line"
    "fits note_line" "boot_line note_line bc = Inr bc"
    by (simp_all add: boot_line_def)
qed

lemma SplitOn_note: "SplitOn NL (psk_note @ s) = note_line # SplitOn NL s"
  using SplitOn_append[OF note_skipped(2), of s] by (simp add: psk_note_line)

lemma match_psk_blank:
  assumes "blank_line l"
  shows "match_psk (l @ NL # s) =
    (case match_psk s of None \<Rightarrow> None | Some (new, rest) \<Rightarrow> Some (psk_note @ l @ NL # drop (length psk_note) new, rest))"
proof (cases "match_psk s")
  case None
  have "dropWhile re_space (l @ NL # s) = dropWhile re_space s"
    using assms by (simp add: blank_line_def dropWhile_all re_space_def)
  then have "match_psk (l @ NL # s) = None \<longleftrightarrow> match_psk s = None" by (simp add: match_psk_def Let_def)
  then show ?thesis using None by simp
next
  case (Some nr)
  obtain new rest where nr: "nr = (new, rest)" by (cases nr)
  obtain ws ws' val t where s: "s = psk_value ws ws' val @ t" "list_all re_space ws" "list_all re_space ws'" "NL \<notin> set val" "t = [] \<or> hd t = NL"
    using match_psk_Some Some nr by blast
  have "l @ NL # s = psk_value (l @ NL # ws) ws' val @ t" by (simp add: s(1) psk_value_def)
  moreover have "list_all re_space (l @ NL # ws)" using assms s(2) by (simp add: blank_line_def re_space_def)
  ultimately have "match_psk (l @ NL # s) = Some (psk_note @ psk_value (l @ NL # ws) ws' [], t)"
    using match_psk_line s(3-5) by metis
  then show ?thesis using match_psk_line[OF s(2-5)] s(1) by (simp add: psk_value_def)
qed

lemma match_psk_shorter: "match_psk s = Some (new, rest) \<Longrightarrow> length rest < length s"
proof -
  assume m: "match_psk s = Some (new, rest)"
  then obtain ws ws' val t where s: "s = psk_value ws ws' val @ t" "list_all re_space ws" "list_all re_space ws'" "NL \<notin> set val" "t = [] \<or> hd t = NL"
    using match_psk_Some by blast
  then have "rest = t" using m match_psk_line[OF s(2-5)] by simp
  then show ?thesis using s(1) by (simp add: psk_value_def)
qed

definition scrubbed :: "string list \<Rightarrow> string list" where
  "scrubbed ls = SplitOn NL (scrubPSK (Join ls [NL]))"

text \<open>One line on top of the rest of the file.\<close>

lemma scrubbed_blank:
  assumes "blank_line l" "NL \<notin> set l" "ls \<noteq> []" "fits l"
  shows "boot_lines (scrubbed (l # ls)) bc = boot_lines (scrubbed ls) bc"
proof -
  have join: "Join (l # ls) [NL] = l @ NL # Join ls [NL]" using assms(3) by (simp add: Join_Cons)
  have on_top: "boot_lines (SplitOn NL (l @ NL # s)) b = boot_lines (SplitOn NL s) b" for s b
    using assms(1,2,4) by (simp add: SplitOn_append boot_line_blank)
  show ?thesis
  proof (cases "match_psk (Join ls [NL])")
    case None
    then have "match_psk (l @ NL # Join ls [NL]) = None" using match_psk_blank[OF assms(1)] by simp
    then show ?thesis using replace_no_match[OF assms(2)] on_top by (simp add: scrubbed_def scrubPSK_def join)
  next
    case (Some nr)
    obtain new rest where nr: "nr = (new, rest)" by (cases nr)
    obtain ws ws' val t where s: "Join ls [NL] = psk_value ws ws' val @ t" "list_all re_space ws" "list_all re_space ws'" "NL \<notin> set val" "t = [] \<or> hd t = NL"
      using match_psk_Some Some nr by blast
    then have "new = psk_note @ psk_value ws ws' []" using Some nr match_psk_line[OF s(2-5)] by simp
    then obtain new' where new: "new = psk_note @ new'" by blast
    have m: "match_psk (l @ NL # Join ls [NL]) = Some (psk_note @ l @ NL # new', rest)"
      using match_psk_blank[OF assms(1), of "Join ls [NL]"] Some nr new by simp
    have "scrubPSK (Join ls [NL]) = psk_note @ new' @ replace_lines match_psk False rest"
      unfolding scrubPSK_def using replace_match[where m = match_psk, OF Some[unfolded nr] match_psk_shorter[OF Some[unfolded nr]]] new by simp
    moreover have "scrubPSK (Join (l # ls) [NL]) = psk_note @ l @ NL # new' @ replace_lines match_psk False rest"
      unfolding scrubPSK_def join using replace_match[where m = match_psk, OF m match_psk_shorter[OF m]] by simp
    ultimately show ?thesis using on_top by (simp add: scrubbed_def SplitOn_note note_skipped(1) del: boot_lines.simps)
  qed
qed

lemma scrubbed_last:
  assumes "NL \<notin> set l" "match_psk l = None"
  shows "scrubbed [l] = [l]"
proof -
  have "replace_lines match_psk True l = l"
    using assms replace_rest_of_line[of "tl l" match_psk "[]"] by (cases l) auto
  then show ?thesis using assms(1) by (simp add: scrubbed_def scrubPSK_def SplitOn_no_sep)
qed

lemma scrubbed_psk:
  assumes "list_all re_space ws" "list_all re_space ws'" "NL \<notin> set (psk_value ws ws' val)"
  shows "scrubbed (psk_value ws ws' val # ls) = note_line # psk_value ws ws' [] # (if ls = [] then [] else scrubbed ls)"
proof -
  let ?t = "if ls = [] then [] else NL # Join ls [NL]"
  have join: "Join (psk_value ws ws' val # ls) [NL] = psk_value ws ws' val @ ?t" by (simp add: Join_Cons)
  have val: "NL \<notin> set val" "NL \<notin> set (psk_value ws ws' [])" using assms(3) by (auto simp: psk_value_def)
  have m: "match_psk (psk_value ws ws' val @ ?t) = Some (psk_note @ psk_value ws ws' [], ?t)"
    by (rule match_psk_line[OF assms(1,2) val(1)]) simp
  have "scrubPSK (Join (psk_value ws ws' val # ls) [NL]) = psk_note @ psk_value ws ws' [] @ replace_lines match_psk False ?t"
    unfolding scrubPSK_def join using replace_match[where m = match_psk, OF m match_psk_shorter[OF m]] by simp
  then show ?thesis using val(2) by (simp add: scrubbed_def SplitOn_note SplitOn_append SplitOn_no_sep scrubPSK_def)
qed

lemma scrubbed_reads:
  "ls \<noteq> [] \<Longrightarrow> \<forall>l \<in> set ls. NL \<notin> set l \<and> CHR 0x0B \<notin> set l \<Longrightarrow> boot_lines ls bc = Inr bc' \<Longrightarrow>
     boot_lines (scrubbed ls) (no_psk bc) = Inr (no_psk bc')"
proof (induction ls arbitrary: bc)
  case (Cons l ls)
  have l: "NL \<notin> set l" "CHR 0x0B \<notin> set l" using Cons.prems(2) by auto
  obtain b1 where b1: "fits l" "boot_line l bc = Inr b1" "boot_lines ls b1 = Inr bc'"
    using Cons.prems(3) by (auto split: if_splits sum.splits)
  have rest: "boot_lines (scrubbed ls) (no_psk b1) = Inr (no_psk bc')" if "ls \<noteq> []"
    using Cons.IH[OF that _ b1(3)] Cons.prems(2) by simp
  consider (blank) "blank_line l"
    | (psk) ws ws' val where "l = psk_value ws ws' val" "list_all re_space ws" "list_all re_space ws'"
    | (other) "\<not> blank_line l" "\<nexists>ws ws' val. l = psk_value ws ws' val \<and> list_all re_space ws \<and> list_all re_space ws'"
    by blast
  then show ?case
  proof cases
    case blank
    then have b: "b1 = bc" using b1(2) boot_line_blank by simp
    show ?thesis
    proof (cases "ls = []")
      case True
      have "dropWhile re_space l = []" using blank by (simp add: blank_line_def dropWhile_eq_Nil_conv list_all_iff)
      then have "match_psk l = None" unfolding match_psk_def Let_def by (simp add: HasPrefix_def del: dropWhile_eq_Nil_conv)
      then show ?thesis using True b1 b blank l(1) scrubbed_last by (simp add: boot_line_blank)
    next
      case False
      then show ?thesis using scrubbed_blank[OF blank l(1) False b1(1)] rest b by simp
    qed
  next
    case psk
    obtain v where v: "boot_line (psk_value ws ws' val) bc = Inr (bc\<lparr>bc_WiFiPSK := v\<rparr>)" using boot_line_psk[OF psk(2,3)] by blast
    then have "b1 = bc\<lparr>bc_WiFiPSK := v\<rparr>" using b1(2) psk(1) by simp
    then have b: "no_psk b1 = no_psk bc" by (simp add: no_psk_def)
    have blanked: "boot_line (psk_value ws ws' []) (no_psk bc) = Inr (no_psk bc)"
      using boot_line_psk[OF psk(2,3), of "[]" "no_psk bc"] by (auto simp: no_psk_def)
    have "fits (psk_value ws ws' [])" using b1(1) psk(1) by (simp add: fits_def psk_value_def)
    then show ?thesis
      using blanked rest b b1(3) scrubbed_psk[OF psk(2,3), of val ls] l(1) psk(1) by (cases "ls = []") (auto simp: note_skipped)
  next
    case other
    have here: "boot_line l (no_psk bc) = Inr (no_psk b1)" by (rule boot_line_other[OF b1(2) l(2) other(2)])
    have none: "match_psk (l @ t) = None" if "t = [] \<or> hd t = NL" for t
      using match_psk_here[OF _ that other(1) boot_line_accepted[OF b1(2)]] other(2) by blast
    show ?thesis
    proof (cases "ls = []")
      case True
      then show ?thesis using scrubbed_last[OF l(1)] none[of "[]"] here b1(1,3) by simp
    next
      case False
      have "scrubPSK (Join (l # ls) [NL]) = l @ NL # scrubPSK (Join ls [NL])"
        using False replace_no_match[OF l(1), of match_psk] none by (simp add: Join_Cons scrubPSK_def)
      then have "scrubbed (l # ls) = l # scrubbed ls" using l(1) by (simp add: scrubbed_def SplitOn_append)
      then show ?thesis using here b1(1) rest False by simp
    qed
  qed
qed simp

lemma boot_lines_append:
  "boot_lines (xs @ ys) bc = (case boot_lines xs bc of Inl e \<Rightarrow> Inl e | Inr b \<Rightarrow> boot_lines ys b)"
  by (induction xs arbitrary: bc) (auto split: sum.splits)

lemma SplitOn_chars: "l \<in> set (SplitOn c s) \<Longrightarrow> set l \<subseteq> set s"
proof (induction s arbitrary: l)
  case (Cons x s)
  then show ?case by (cases "SplitOn c s") (fastforce split: if_splits)+
qed simp

lemma boot_scan: "boot_lines (scan_lines text) bc = boot_lines (SplitOn NL text) bc"
proof (cases "last (SplitOn NL text) = []")
  case True
  have "boot_lines [[]] b = Inr b" for b
    using boot_line_blank[of "[]"] by (simp add: fits_def blank_line_def)
  then have "boot_lines (xs @ [[]]) bc = boot_lines xs bc" for xs
    by (simp add: boot_lines_append split: sum.split del: boot_lines.simps)
  moreover have "SplitOn NL text = butlast (SplitOn NL text) @ [[]]"
    using append_butlast_last_id[OF SplitOn_not_Nil, of NL "text"] True by simp
  ultimately have "boot_lines (SplitOn NL text) bc = boot_lines (butlast (SplitOn NL text)) bc" by metis
  then show ?thesis using True by (simp add: scan_lines_def Let_def)
qed (simp add: scan_lines_def Let_def)

text \<open>C36. A first boot that stopped part way can be run again: once the Wi-Fi password has been blanked in the boot
  partition's file, the file is read as it was before but for the password, which is gone. White space is ASCII here, and
  the text must have no vertical tab.\<close>

theorem first_boot_rereads:
  assumes "readBootConfig (Some text) = Inr bc" "CHR 0x0B \<notin> set text"
  shows "readBootConfig (Some (scrubPSK text)) = Inr (bc\<lparr>bc_WiFiPSK := []\<rparr>)"
proof -
  have read: "boot_lines (SplitOn NL text) default_boot = Inr bc" "check_boot bc = None"
    using assms(1) by (auto simp: readBootConfig_def boot_scan split: sum.splits option.splits)
  have "\<forall>l \<in> set (SplitOn NL text). NL \<notin> set l \<and> CHR 0x0B \<notin> set l"
    using SplitOn_parts assms(2) SplitOn_chars by fastforce
  from scrubbed_reads[OF SplitOn_not_Nil this read(1)]
  have "boot_lines (SplitOn NL (scrubPSK text)) (no_psk default_boot) = Inr (no_psk bc)" by (simp add: scrubbed_def Join_SplitOn)
  moreover have "no_psk default_boot = default_boot" by (simp add: no_psk_def default_boot_def)
  moreover have "check_boot (no_psk bc) = None" using read(2) by (auto simp: check_boot_def no_psk_def split: if_splits)
  ultimately show ?thesis by (simp add: readBootConfig_def boot_scan no_psk_def)
qed

theorem first_boot_rereads_witness:
  "readBootConfig (Some (scrubPSK (''wifi_ssid=home'' @ [NL] @ ''wifi_psk=password'' @ [NL] @ ''wifi_country=US''))) =
     Inr (default_boot\<lparr>bc_WiFiSSID := ''home'', bc_WiFiCountry := ''US'', bc_WiFiPSK := []\<rparr>)"
proof -
  let ?text = "''wifi_ssid=home'' @ [NL] @ ''wifi_psk=password'' @ [NL] @ ''wifi_country=US''"
  have lines: "SplitOn NL ?text = [''wifi_ssid=home'', ''wifi_psk=password'', ''wifi_country=US'']" by code_simp
  have each: "boot_line ''wifi_ssid=home'' default_boot = Inr (default_boot\<lparr>bc_WiFiSSID := ''home''\<rparr>)"
    "boot_line ''wifi_psk=password'' (default_boot\<lparr>bc_WiFiSSID := ''home''\<rparr>) = Inr (default_boot\<lparr>bc_WiFiSSID := ''home'', bc_WiFiPSK := ''password''\<rparr>)"
    "boot_line ''wifi_country=US'' (default_boot\<lparr>bc_WiFiSSID := ''home'', bc_WiFiPSK := ''password''\<rparr>) =
       Inr (default_boot\<lparr>bc_WiFiSSID := ''home'', bc_WiFiPSK := ''password'', bc_WiFiCountry := ''US''\<rparr>)"
    by code_simp+
  have "check_boot (default_boot\<lparr>bc_WiFiSSID := ''home'', bc_WiFiPSK := ''password'', bc_WiFiCountry := ''US''\<rparr>) = None" by code_simp
  moreover have "boot_lines (SplitOn NL ?text) default_boot =
      Inr (default_boot\<lparr>bc_WiFiSSID := ''home'', bc_WiFiPSK := ''password'', bc_WiFiCountry := ''US''\<rparr>)"
    unfolding lines by (simp only: boot_lines.simps each sum.case if_False) (simp add: fits_def)
  ultimately have read: "readBootConfig (Some ?text) = Inr (default_boot\<lparr>bc_WiFiSSID := ''home'', bc_WiFiPSK := ''password'', bc_WiFiCountry := ''US''\<rparr>)"
    by (simp only: readBootConfig_def boot_scan option.case sum.case)
  have "CHR 0x0B \<notin> set ?text" by code_simp
  from first_boot_rereads[OF read this] show ?thesis by simp
qed

text \<open>A key after a vertical tab is read but not blanked: \<^verbatim>\<open>TrimSpace\<close> drops the tab, the pattern does not match it.\<close>

lemma psk_left:
  "scrubPSK ([CHR 0x0B] @ ''wifi_psk=password'') = [CHR 0x0B] @ ''wifi_psk=password''"
  "boot_line ([CHR 0x0B] @ ''wifi_psk=password'') default_boot = Inr (default_boot\<lparr>bc_WiFiPSK := ''password''\<rparr>)"
  by code_simp+

end
