(* ===== verification/Spec2Isabelle.thy ===== *)
theory Spec2Isabelle
  imports System Isolation Teardown Creation LogWriter Compute NameServer Router Resealing Wireless Dashboards
    Startup KitTrust KitBoot
begin

text \<open>
  A verification of the Deevnet provisioning API (the Go program under \<^verbatim>\<open>src/\<close>).

  \<^bold>\<open>The program.\<close> The API gives a tenant its part of a site: DNS zones, a resolver forward, a state bucket,
  a network on the Proxmox fabric, virtual machines, Wi-Fi keys, device addresses, broker accounts, log and
  dashboard logins, certificates. \<^verbatim>\<open>internal/tenant\<close> is the service: every operation validates, writes the
  registry, calls the backends in an order, and records the outcome. \<^verbatim>\<open>internal/store\<close> is the registry in
  PostgreSQL. \<^verbatim>\<open>internal/backend\<close> talks to the outside systems behind the interfaces of \<^verbatim>\<open>tenant.go\<close>.
  \<^verbatim>\<open>internal/brokeracct\<close> and \<^verbatim>\<open>internal/logauth\<close> are the contracts the API shares with the two privileged
  helper programs, \<^verbatim>\<open>cmd/deevnet-broker-account\<close> and \<^verbatim>\<open>cmd/deevnet-log-user\<close>. \<^verbatim>\<open>internal/server\<close> is the
  HTTP surface.

  \<^bold>\<open>How it is modelled.\<close> A run of an operation is a function on a \<open>world\<close>: the registry, a clock that counts
  the interactions, and the trace of the backend calls, each with its error and the registry as it was at
  that moment. The monad is the state monad, and a weakest precondition calculus (\<open>wp\<close>) carries the proofs.
  Code outside the repository is a parameter, a field of the record \<open>service\<close>: the backends (an answer for
  each clock tick and call), the secret sealer, random bytes, hashes, X.509, the database's failures, and
  what other requests do to the registry between two statements of this one. No claim about them is made
  but where a theorem names it: \<open>sealer_ok\<close> (what was sealed opens as it was, or the sealer reports itself
  unreachable), \<open>alone\<close> (no other request moves the registry meanwhile), \<open>others_ok\<close> (other requests move it
  by the store's own statements), \<open>db_up\<close> (the database answers).

  \<^bold>\<open>Theories.\<close>
  \<^item> \<open>Prelude\<close>: Go's string functions, the monad, \<open>wp\<close>, tables of rows, and the locales \<open>io_preorder\<close>
    (a relation every step of a run keeps), \<open>state_machine\<close> (an invariant of a step relation) and
    \<open>keyed_table\<close> (what lookup, upsert and delete promise each other).
  \<^item> \<open>Netip\<close>: what the sources use of Go's \<^verbatim>\<open>net/netip\<close>, printing and parsing included.
  \<^item> \<open>Site\<close>: \<^verbatim>\<open>internal/tenant/site.go\<close>, the numbering of a site.
  \<^item> \<open>BrokerContract\<close>: \<^verbatim>\<open>internal/brokeracct/contract.go\<close>, and \<^verbatim>\<open>cmd/deevnet-broker-account\<close> with its table.
  \<^item> \<open>LogContract\<close>: \<^verbatim>\<open>internal/logauth/contract.go\<close>; \<open>LogWriter\<close>: \<^verbatim>\<open>cmd/deevnet-log-user\<close>, its files, the document
    it renders for the log store's proxy, and its runs.
  \<^item> \<open>Tenant\<close>: the data, errors and backend calls of \<^verbatim>\<open>internal/tenant/tenant.go\<close>.
  \<^item> \<open>Tokens\<close>: base64 and the API tokens of \<^verbatim>\<open>token.go\<close>.
  \<^item> \<open>Allocation\<close>: \<^verbatim>\<open>pickIndex\<close>, \<^verbatim>\<open>pickAddress\<close> and the workload ordinal, three instances of one locale
    \<open>allocator\<close>: a pick is free and lowest, and fails only when nothing is free.
  \<^item> \<open>Registry\<close>, \<open>RegistryInv\<close>: the tables of \<^verbatim>\<open>internal/store/migrations\<close>, one function per statement or
    transaction of \<^verbatim>\<open>internal/store\<close>, the step relation \<open>store_step\<close> and its invariant \<open>reg_inv\<close>.
  \<^item> \<open>Store\<close>: the methods of \<^verbatim>\<open>Postgres\<close>, with sealing and the failures of the database around the statements,
    and the locale \<open>world_preorder\<close>.
  \<^item> \<open>Service\<close>, \<open>Sequential\<close>: the helpers of \<^verbatim>\<open>service.go\<close>; the \<open>wp\<close> rules of a run that is alone.
  \<^item> \<open>WiFi\<close>, \<open>Addresses\<close>, \<open>Workloads\<close>, \<open>BrokerAccounts\<close>, \<open>Certificates\<close>, \<open>Lifecycle\<close>: the operations of the
    service, one theory per group: \<^verbatim>\<open>wifikeys.go\<close> and \<^verbatim>\<open>admissionkeys.go\<close>; \<^verbatim>\<open>addresses.go\<close> and
    \<^verbatim>\<open>devices.go\<close>; the workloads and records of \<^verbatim>\<open>service.go\<close>; \<^verbatim>\<open>brokeraccounts.go\<close>; \<^verbatim>\<open>certificates.go\<close>;
    and create, restore, reconcile, delete, admission and authentication, with \<^verbatim>\<open>logtokens.go\<close> and
    \<^verbatim>\<open>dashboards.go\<close>.
  \<^item> \<open>Creation\<close>, \<open>Teardown\<close>: what a create hands out restores and authenticates; what a delete leaves behind.
  \<^item> \<open>Views\<close>, \<open>Server\<close>: the HTTP surface, \<^verbatim>\<open>internal/server\<close> and \<^verbatim>\<open>internal/auth\<close>: the bodies of the answers
    and what they disclose; principals, guards, routes, handlers, and the mapping of errors to statuses.
  \<^item> \<open>Isolation\<close>: what a request about a tenant can reach, in the registry and in the backends, with the locale
    \<open>guarded_world\<close>.
  \<^item> \<open>System\<close>: sequences of HTTP requests. Every request moves the registry by \<open>store_step\<close>, so \<open>reg_inv\<close> holds
    at every moment of a deployment, whatever fails and whatever other instances do.

  \<^item> \<open>Client\<close>: a client that asks a server over HTTP, with its log of requests and answers, the locale \<open>request_rule\<close>
    (a condition on the log that parts of a run keep) and the calculus \<open>logs\<close>. The servers are parameters of which
    nothing is assumed, so what is shown of a client holds whatever its server answers.
  \<^item> \<open>Fabric\<close>, \<open>Compute\<close>: \<^verbatim>\<open>internal/backend/proxmox\<close>, the claims, networks and virtual machines on the cluster;
    \<open>NameServer\<close>: \<^verbatim>\<open>internal/backend/powerdns\<close>, keys, zones, update policies and records; \<open>Router\<close>:
    \<^verbatim>\<open>internal/backend/opnsense\<close>, the resolver's forwards and the DHCP reservations; \<open>Wireless\<close>:
    \<^verbatim>\<open>internal/backend/omada\<close>, the Wi-Fi keys in the controller's profiles; \<open>Dashboards\<close>: \<^verbatim>\<open>internal/backend/grafana\<close>,
    organisations, logins and data sources, and \<^verbatim>\<open>internal/backend/minio\<close>, the state store's policies.
  \<^item> \<open>OpenBao\<close>: \<^verbatim>\<open>internal/openbao\<close>, the client of the secret store with its token, its retry and the two Transit keys;
    \<open>Resealing\<close>: \<^verbatim>\<open>internal/store/reseal.go\<close>, which moves every stored secret to the current key, and the client
    as the sealer the service relies on.
  \<^item> \<open>Channel\<close>: \<^verbatim>\<open>internal/backend/brokerwriter\<close> and \<^verbatim>\<open>logwriter\<close>, which ask the two helper programs over SSH and tell an
    outage from a refusal by the helper's answer; the helper at the far end is \<open>BrokerContract\<close>'s and \<open>LogWriter\<close>'s model.
  \<^item> \<open>Settings\<close>, \<open>Startup\<close>: \<^verbatim>\<open>cmd/deevnet-api\<close>. The readers of \<^verbatim>\<open>config.go\<close> (numbers, durations, lists, trust classes, address
    ranges); then \<^verbatim>\<open>tenantService\<close>, which wires a \<open>service\<close> from the environment and OpenBao's credentials, and the program
    of \<^verbatim>\<open>main.go\<close>: the first build, the retries behind a closed API, and the requests that follow.
  \<^item> \<open>KitAccounts\<close>, \<open>KitSetup\<close>, \<open>KitBoot\<close>, \<open>KitTrust\<close>: \<^verbatim>\<open>cmd/deevnet-kit\<close>, the tenant contract on one card. Accounts, the files
    Mosquitto reads and an app's login; names, host name, hosts file and the boot partition's settings; a first boot run
    again; and the card's certificates, with the environment texts of apps and services. A card is the files the commands
    read and write.

  \<^bold>\<open>What is shown.\<close> Numbers, names and topics of different tenants do not meet; an allocation is free and
  lowest; the registry is written before a backend is told; a repeat keeps what devices are flashed with;
  a certificate names only the tenant's own zone; the server refines the registry's step relation, whose
  invariant holds whatever runs; a request runs as the principal its token speaks for, a tenant reaches its own
  routes only, and secrets are answered only where they are issued; what a create issued restores the tenant,
  and a delete that succeeds has asked every backend to remove what the tenant had. Of the backends: an index that
  is picked is clear of the fabric, networks, machines, zones, records and reservations of others are not touched, a
  zone that changes hands is emptied before its new tenant may write it, and waiting for a task ends. A Wi-Fi key can
  be issued and revoked whatever its profile holds, a tenant's dashboards stay in its own organisation, and resealing
  keeps every secret and leaves none behind. Of the programs: a service that starts is well formed, its registry is sound
  from the first start on, and the API opens when OpenBao does. The document of the log store's proxy grants what the contract does.
  Of a card: its broker grants what its accounts say, the
  password an app is handed is one the broker's password file lets in, an installed certificate verifies for every name the card's services dial,
  and a first boot can be run again. Some theorems state where the code falls short of its comments; they say so.

  Two theorems on backends name what they take of a server, as its documentation has it: \<open>transit\<close> and \<open>keys_agree\<close> (a
  ciphertext opens as what was sealed, and both keys that open one agree), with \<open>dependable\<close> (OpenBao answers or does
  not, but does not refuse), and \<open>controller\<close> (what the wireless controller makes of each request, the refusal to delete
  a profile's last key included).

  Files that other programs load are read back from their text before anything is said of them: \<open>read_document\<close> (the proxy's
  users and routes), \<open>acl_grants\<close> and \<open>passwd_entries\<close> (Mosquitto's two files). The readers follow the documented layout of
  these files, line by line; what they would make of other files does not matter here.

  \<^bold>\<open>Bounds.\<close> Loops whose recursion is not structural (\<open>lowest_index\<close>, \<open>next_ordinal\<close>, \<open>lowest_addr\<close>,
  \<open>replace_lines\<close>) are total functions with a termination proof. \<open>pem_blocks\<close> and \<open>parse_blocks\<close> read PEM blocks with the
  length of the text as fuel: each block leaves a shorter text, so it is enough. The polls of a Proxmox task
  (\<open>wait_loop\<close>) end because time passes: each sleep takes two seconds at least, and the deadline is fixed.

  \<^bold>\<open>Not modelled.\<close> The HTTP mux and JSON (a route is a value with its decoded body), SQL text, SSH and TLS
  plumbing, logging and time stamps, flags and usage texts; the wire formats of the backends and the text of most
  messages. Of the card: \<^verbatim>\<open>init\<close> as a whole, making the card's CA, the Wi-Fi profile and the system commands, the log store's
  user files, \<^verbatim>\<open>dashboards\<close> and the self-test, which drive other programs over TLS. The test doubles under
  \<^verbatim>\<open>tenanttest\<close> serve the repository's tests only.
\<close>

end
